(* ===== verification/Rv_Prelude.thy ===== *)
theory Rv_Prelude
  imports Main "HOL-Library.Word" "HOL-Library.Monad_Syntax" "HOL-Library.Finite_Map"
begin

text \<open>
  Shared vocabulary of the development: the machine-integer types of the Rust sources, the
  conventions for panics and errors, little-endian byte encodings, and the lemmas on words,
  options and address arithmetic that the component theories use.

  Conventions. A Rust integer of width \<open>w\<close> is a \<open>w word\<close>; a signed one is the same word read with
  \<open>sint\<close> and widened with \<open>scast\<close>. Arithmetic wraps, as it does in the release profile the README
  builds. A function that can panic returns an \<open>option\<close>, where \<open>None\<close> is the panic (an array index
  out of bounds); a \<open>Result\<close> is a sum with the error on the left.
\<close>

unbundle bit_operations_syntax

type_synonym u8 = "8 word"
type_synonym u16 = "16 word"
type_synonym u32 = "32 word"
type_synonym u64 = "64 word"
type_synonym i32 = "32 word"
type_synonym i64 = "64 word"

text \<open>
  \<open>rv_simps\<close>: unfolding rules of register, CSR and device accessors on record updates;
  \<open>bitwise\<close>: rules that turn a word equation into statements about single bits.
\<close>

named_theorems rv_simps
named_theorems bitwise

section \<open>Casts\<close>

text \<open>\<open>imm as i64 as u64\<close>: sign extension to 64 bits.\<close>

abbreviation sx :: "'a::len word \<Rightarrow> u64" where
  "sx w \<equiv> scast w"

text \<open>\<open>x as u64\<close> of an unsigned value: zero extension.\<close>

abbreviation zx :: "'a::len word \<Rightarrow> u64" where
  "zx w \<equiv> ucast w"

text \<open>\<open>if b { 1 } else { 0 }\<close>.\<close>

definition u64_of_bool :: "bool \<Rightarrow> u64" where
  "u64_of_bool b = (if b then 1 else 0)"

text \<open>\<^verbatim>\<open>(satp >> 60) & 0xF\<close>: the translation mode of a \<^verbatim>\<open>satp\<close> value.\<close>

definition satp_mode :: "u64 \<Rightarrow> u64" where
  "satp_mode v = drop_bit 60 v AND 0xF"

section \<open>Little-endian byte sequences\<close>

text \<open>\<open>uN::from_le_bytes\<close> and \<open>uN::to_le_bytes\<close> of the Rust standard library.\<close>

fun from_le_bytes :: "u8 list \<Rightarrow> 'a::len word" where
  "from_le_bytes [] = 0"
| "from_le_bytes (b # bs) = ucast b OR push_bit 8 (from_le_bytes bs)"

definition to_le_bytes :: "nat \<Rightarrow> 'a::len word \<Rightarrow> u8 list" where
  "to_le_bytes n w = map (\<lambda>i. ucast (drop_bit (8 * i) w)) [0..<n]"

lemma length_to_le_bytes [simp]: "length (to_le_bytes n w) = n"
  by (simp add: to_le_bytes_def)

lemma nth_to_le_bytes [simp]: "i < n \<Longrightarrow> to_le_bytes n w ! i = ucast (drop_bit (8 * i) w)"
  by (simp add: to_le_bytes_def)

lemma bit_from_le_bytes [bitwise]:
  "bit (from_le_bytes bs :: 'a::len word) k \<longleftrightarrow>
     k < LENGTH('a) \<and> k div 8 < length bs \<and> bit (bs ! (k div 8)) (k mod 8)"
proof (induction bs arbitrary: k)
  case Nil
  then show ?case by simp
next
  case (Cons b bs)
  show ?case
  proof (cases "k < 8")
    case True
    then show ?thesis
      by (auto simp: bit_or_iff bit_push_bit_iff bit_ucast_iff)
  next
    case False
    then have "k div 8 = Suc ((k - 8) div 8)" and "k mod 8 = (k - 8) mod 8"
      by (simp_all add: le_div_geq le_mod_geq)
    moreover from False have "\<not> bit b k"
      using bit_imp_le_length [of b k] by auto
    ultimately show ?thesis
      using False by (auto simp: bit_or_iff bit_push_bit_iff bit_ucast_iff Cons.IH)
  qed
qed

lemma from_le_to_le_bytes:
  fixes w :: "'a::len word"
  assumes "LENGTH('a) \<le> 8 * n"
  shows "from_le_bytes (to_le_bytes n w) = w"
proof (rule bit_word_eqI)
  fix k assume k: "k < LENGTH('a)"
  then have "k div 8 < n" using assms by auto
  then show "bit (from_le_bytes (to_le_bytes n w) :: 'a word) k \<longleftrightarrow> bit w k"
    using k by (simp add: bit_from_le_bytes bit_ucast_iff bit_drop_bit_eq)
qed

lemma from_le_bytes_append:
  "(from_le_bytes (xs @ ys) :: 'a::len word) =
     from_le_bytes xs OR push_bit (8 * length xs) (from_le_bytes ys)"
proof (rule bit_word_eqI)
  fix k assume k: "k < LENGTH('a)"
  have "(k - 8 * length xs) div 8 = k div 8 - length xs" and
    "8 * length xs \<le> k \<Longrightarrow> (k - 8 * length xs) mod 8 = k mod 8"
    by (simp_all add: mod_diff_eq) (metis le_add_diff_inverse mod_mult_self4 mult.commute)
  then show "bit (from_le_bytes (xs @ ys) :: 'a word) k \<longleftrightarrow>
      bit (from_le_bytes xs OR push_bit (8 * length xs) (from_le_bytes ys) :: 'a word) k"
    using k by (auto simp: bit_from_le_bytes bit_or_iff bit_push_bit_iff nth_append not_less less_diff_conv2 add.commute)
qed

lemma ucast_from_le_bytes:
  assumes "8 * length bs \<le> LENGTH('b)"
  shows "(ucast (from_le_bytes bs :: 'b::len word) :: 'a::len word) = from_le_bytes bs"
  using assms by (intro bit_word_eqI) (auto simp: bit_from_le_bytes bit_ucast_iff)

lemma to_le_bytes_append:
  fixes w :: "'a::len word"
  assumes "8 * n \<le> LENGTH('b::len)" and "8 * m \<le> LENGTH('c::len)"
  shows "to_le_bytes (n + m) w =
     to_le_bytes n (ucast w :: 'b word) @ to_le_bytes m (ucast (drop_bit (8 * n) w) :: 'c word)"
proof (rule nth_equalityI, goal_cases)
  case (2 i)
  then have i: "i < n + m" by simp
  show ?case
  proof (cases "i < n")
    case True
    with i assms show ?thesis
      by (intro bit_word_eqI) (auto simp: nth_append bit_ucast_iff bit_drop_bit_eq)
  next
    case False
    then obtain j where "i = n + j" by (metis le_iff_add not_less)
    with i assms show ?thesis
      by (intro bit_word_eqI)
        (auto simp: nth_append bit_ucast_iff bit_drop_bit_eq algebra_simps)
  qed
qed simp

section \<open>Flat byte memory\<close>

text \<open>
  The abstract memory is a function from addresses to bytes. \<open>load_le\<close> reads an \<open>n\<close>-byte
  little-endian value from it and \<open>bytes_upd\<close> overwrites a run of bytes; both wrap around at the end
  of the address space.
\<close>

definition load_le :: "(u64 \<Rightarrow> u8) \<Rightarrow> u64 \<Rightarrow> nat \<Rightarrow> 'a::len word" where
  "load_le f a n = from_le_bytes (map (\<lambda>i. f (a + of_nat i)) [0..<n])"

definition bytes_upd :: "(u64 \<Rightarrow> u8) \<Rightarrow> u64 \<Rightarrow> u8 list \<Rightarrow> u64 \<Rightarrow> u8" where
  "bytes_upd f a bs b = (if unat (b - a) < length bs then bs ! unat (b - a) else f b)"

lemma load_le_split:
  assumes "8 * n \<le> LENGTH('b::len)" and "8 * m \<le> LENGTH('c::len)"
  shows "(load_le f a (n + m) :: 'a::len word) =
     ucast (load_le f a n :: 'b word) OR push_bit (8 * n) (ucast (load_le f (a + of_nat n) m :: 'c word))"
proof -
  have "[0..<n + m] = [0..<n] @ map (\<lambda>i. i + n) [0..<m]"
    using upt_add_eq_append [of 0 n m] map_add_upt [of n m] by (simp add: add.commute)
  then have "map (\<lambda>i. f (a + of_nat i)) [0..<n + m] =
      map (\<lambda>i. f (a + of_nat i)) [0..<n] @ map (\<lambda>i. f (a + of_nat n + of_nat i)) [0..<m]"
    by (simp add: comp_def add.assoc add.commute [of "of_nat n"])
  then show ?thesis
    using assms by (simp add: load_le_def from_le_bytes_append ucast_from_le_bytes)
qed

lemma bytes_upd_append:
  assumes "length xs + length ys < 2 ^ 64"
  shows "bytes_upd (bytes_upd f a xs) (a + of_nat (length xs)) ys = bytes_upd f a (xs @ ys)"
proof
  fix b :: u64
  define d where "d = b - a"
  have lx: "unat (of_nat (length xs) :: u64) = length xs"
    using assms by (simp add: unat_of_nat)
  have e: "b - (a + of_nat (length xs)) = d - of_nat (length xs)" by (simp add: d_def)
  have "unat (d - of_nat (length xs)) =
      (if length xs \<le> unat d then unat d - length xs else 2 ^ 64 + unat d - length xs)"
    using lx by (auto simp: unat_sub_if_size word_size)
  then show "bytes_upd (bytes_upd f a xs) (a + of_nat (length xs)) ys b = bytes_upd f a (xs @ ys) b"
    using assms unsigned_less [of d, where ?'a = nat]
    by (auto simp: bytes_upd_def e nth_append simp flip: d_def)
qed

lemma bytes_upd_single: "bytes_upd f a [v] = f(a := v)"
  by (auto simp: bytes_upd_def fun_eq_iff unat_eq_zero)

section \<open>Pages and offsets of 64-bit addresses\<close>

lemma unat_and_pow2_mask:
  fixes a :: "'a::len word"
  shows "unat (a AND mask n) = unat a mod 2 ^ n"
  by (metis take_bit_eq_mask take_bit_eq_mod unsigned_take_bit_eq)

lemma page_offset_nat: "unat (a AND 0xFFF :: u64) = unat a mod 4096"
  using unat_and_pow2_mask [of a 12] by (simp add: mask_eq_exp_minus_1)

lemma page_offset_less [simp]: "unat (a AND 0xFFF :: u64) < 4096"
  by (simp add: page_offset_nat)

lemma unat_add_no_wrap:
  fixes a :: "'a::len word"
  assumes "unat a + i < 2 ^ LENGTH('a)"
  shows "unat (a + of_nat i) = unat a + i"
proof -
  from assms have "i < 2 ^ LENGTH('a)" by simp
  then have "unat (of_nat i :: 'a word) = i" by (simp add: unat_of_nat)
  with assms show ?thesis by (simp add: unat_word_ariths)
qed

lemma unat_page_number: "unat (drop_bit 12 (a :: u64)) = unat a div 4096"
  by (simp add: unat_drop_bit_eq drop_bit_eq_div [of 12 "unat a"])

text \<open>Within a page, adding to the address keeps the page number and moves the offset.\<close>

lemma page_add:
  fixes a :: u64
  assumes "unat a mod 4096 + i < 4096"
  shows "drop_bit 12 (a + of_nat i) = drop_bit 12 a"
    and "unat (a + of_nat i) mod 4096 = unat a mod 4096 + i"
proof -
  have "unat a = 4096 * (unat a div 4096) + unat a mod 4096" by simp
  moreover have "unat a div 4096 < 4503599627370496"
    using unsigned_less [of a, where ?'a = nat] by (simp add: less_mult_imp_div_less)
  ultimately have "unat a + i < 18446744073709551616" using assms by linarith
  then have u: "unat (a + of_nat i) = unat a + i"
    by (intro unat_add_no_wrap) simp
  have d: "(unat a + i) div 4096 = unat a div 4096"
    using assms by (simp add: div_add1_eq [of "unat a" i])
  show "drop_bit 12 (a + of_nat i) = drop_bit 12 a"
    by (simp only: word_unat_eq_iff unat_page_number u d)
  show "unat (a + of_nat i) mod 4096 = unat a mod 4096 + i"
    using assms by (simp add: u mod_add_left_eq [of "unat a" 4096 i, symmetric])
qed

lemma page_split_eqI:
  fixes a b :: u64
  assumes "drop_bit 12 a = drop_bit 12 b" and "unat a mod 4096 = unat b mod 4096"
  shows "a = b"
proof -
  from assms(1) have "unat a div 4096 = unat b div 4096"
    by (simp only: word_unat_eq_iff unat_page_number)
  with assms(2) have "unat a = unat b" by (metis mult_div_mod_eq)
  then show ?thesis by (simp only: word_unat_eq_iff)
qed

lemma word12_of_offset: "(ucast (a :: u64) :: 12 word) = of_nat (unat a mod 4096)"
  by (simp add: word_unat_eq_iff unsigned_ucast_eq unat_of_nat take_bit_eq_mod)

section \<open>Single bits\<close>

text \<open>Tests of the form \<^verbatim>\<open>w & (1 << n) != 0\<close> and \<^verbatim>\<open>(w >> n) & 1 != 0\<close> read one bit.\<close>

lemma and_push_bit_one [bitwise]:
  fixes w :: "'a::len word"
  shows "w AND push_bit n 1 = 0 \<longleftrightarrow> \<not> bit w n"
  by (simp add: push_bit_eq_mult and_exp_eq_0_iff_not_bit)

lemma and_one_zero [bitwise]:
  fixes w :: "'a::len word"
  shows "w AND 1 = 0 \<longleftrightarrow> \<not> bit w 0"
  by (simp add: and_one_eq even_iff_mod_2_eq_zero bit_0)

lemma drop_bit_and_one [bitwise]:
  fixes w :: "'a::len word"
  shows "drop_bit n w AND 1 = 0 \<longleftrightarrow> \<not> bit w n"
  by (simp add: and_one_zero bit_drop_bit_eq)

lemma bit_push_bit_one [bitwise]:
  "bit (push_bit n 1 :: 'a::len word) k \<longleftrightarrow> k = n \<and> n < LENGTH('a)"
  by (auto simp: push_bit_eq_mult bit_exp_iff)

lemma word_zero_iff_bits: "w = 0 \<longleftrightarrow> (\<forall>k. \<not> bit w k)" for w :: "'a::len word"
  by (simp add: bit_eq_iff) (meson bit_imp_le_length)

text \<open>Writing under a mask: \<^verbatim>\<open>(old & !mask) | (val & mask)\<close>.\<close>

definition masked :: "'a::len word \<Rightarrow> 'a word \<Rightarrow> 'a word \<Rightarrow> 'a word" where
  "masked m old val = (old AND NOT m) OR (val AND m)"

lemma bit_masked [bitwise]: "bit (masked m old v) k \<longleftrightarrow> (if bit m k then bit v k else bit old k)"
  using bit_imp_le_length [of old k]
  by (auto simp: masked_def bit_or_iff bit_and_iff bit_not_iff)

lemma masked_exact: "v AND NOT m = old AND NOT m \<Longrightarrow> masked m old v = v"
proof (rule bit_eqI)
  fix k
  assume "v AND NOT m = old AND NOT m"
  then have "bit (v AND NOT m) k = bit (old AND NOT m) k" by simp
  then show "bit (masked m old v) k = bit v k"
    using bit_imp_le_length [of old k] bit_imp_le_length [of v k]
    by (auto simp: bit_masked bit_and_iff bit_not_iff)
qed

lemma and_masked [simp]: "masked m old v AND m = v AND m" "masked m old v AND NOT m = old AND NOT m"
  by (auto simp: bit_eq_iff bit_and_iff bit_not_iff bit_masked)

lemma masked_within:
  assumes "old AND NOT w = 0" and "m AND NOT w = 0"
  shows "masked m old v AND NOT w = 0"
proof (rule bit_eqI)
  fix k
  from assms have "bit (old AND NOT w) k = bit (0 :: 'a word) k" "bit (m AND NOT w) k = bit (0 :: 'a word) k"
    by simp_all
  then show "bit (masked m old v AND NOT w) k = bit 0 k"
    by (auto simp: bit_and_iff bit_not_iff bit_masked)
qed

end
