(* ===== verification/Rv_Isa.thy ===== *)
theory Rv_Isa
  imports Rv_Prelude
begin

text \<open>
  The instruction type of \<^verbatim>\<open>crates/riscv/src/isa.rs\<close> and its field accessors. The 98 variants of the Rust
  enum fall into groups with the same fields; a group is one constructor that carries the operation,
  and every Rust variant keeps its name as an abbreviation (\<open>XOR\<close>, \<open>OR\<close> and \<open>AND\<close>, which are
  operators of the word library, are \<open>XOR_rr\<close>, \<open>OR_rr\<close> and \<open>AND_rr\<close>).
\<close>

datatype instruction_format = FmtR | FmtI | FmtS | FmtB | FmtU | FmtJ

datatype branch_op = Beq | Bne | Blt | Bge | Bltu | Bgeu
datatype load_op = Lb | Lh | Lw | Ld | Lbu | Lhu | Lwu
datatype store_op = Sb | Sh | Sw | Sd
datatype imm_op = Addi | Slti | Sltiu | Xori | Ori | Andi | Slli | Srli | Srai
datatype reg_op = Add | Sub | Sll | Slt | Sltu | Xor | Srl | Sra | Or | And
datatype immw_op = Addiw | Slliw | Srliw | Sraiw
datatype regw_op = Addw | Subw | Sllw | Srlw | Sraw
datatype mul_op = Mul | Mulh | Mulhsu | Mulhu | Div | Divu | Rem | Remu
datatype mulw_op = Mulw | Divw | Divuw | Remw | Remuw
datatype csr_op = Csrrw | Csrrs | Csrrc
datatype amo_width = W32 | D64
datatype amo_op =
  AmoSwap | AmoAdd | AmoAnd | AmoOr | AmoXor | AmoMax | AmoMin | AmoMaxu | AmoMinu

datatype instruction =
    LUI u8 i32
  | AUIPC u8 i32
  | JAL u8 i32
  | JALR u8 u8 i32
  | Branch branch_op u8 u8 i32
  | Load load_op u8 u8 i32
  | Store store_op u8 u8 i32
  | OpImm imm_op u8 u8 i32
  | OpReg reg_op u8 u8 u8
  | FENCE u8 u8
  | ECALL
  | EBREAK
  | OpImmW immw_op u8 u8 i32
  | OpRegW regw_op u8 u8 u8
  | OpMul mul_op u8 u8 u8
  | OpMulW mulw_op u8 u8 u8
  | Csr csr_op u8 u8 u16
  | CsrI csr_op u8 u8 u16
  | MRET
  | SRET
  | WFI
  | SFENCE_VMA u8 u8
  | FENCE_I
  | Lr amo_width u8 u8 bool bool
  | Sc amo_width u8 u8 u8 bool bool
  | Amo amo_op amo_width u8 u8 u8 bool bool

subsection \<open>The Rust variants of the grouped constructors\<close>

abbreviation BEQ :: "u8 \<Rightarrow> u8 \<Rightarrow> i32 \<Rightarrow> instruction" where
  "BEQ \<equiv> Branch Beq"

abbreviation BNE :: "u8 \<Rightarrow> u8 \<Rightarrow> i32 \<Rightarrow> instruction" where
  "BNE \<equiv> Branch Bne"

abbreviation BLT :: "u8 \<Rightarrow> u8 \<Rightarrow> i32 \<Rightarrow> instruction" where
  "BLT \<equiv> Branch Blt"

abbreviation BGE :: "u8 \<Rightarrow> u8 \<Rightarrow> i32 \<Rightarrow> instruction" where
  "BGE \<equiv> Branch Bge"

abbreviation BLTU :: "u8 \<Rightarrow> u8 \<Rightarrow> i32 \<Rightarrow> instruction" where
  "BLTU \<equiv> Branch Bltu"

abbreviation BGEU :: "u8 \<Rightarrow> u8 \<Rightarrow> i32 \<Rightarrow> instruction" where
  "BGEU \<equiv> Branch Bgeu"

abbreviation LB :: "u8 \<Rightarrow> u8 \<Rightarrow> i32 \<Rightarrow> instruction" where
  "LB \<equiv> Load Lb"

abbreviation LH :: "u8 \<Rightarrow> u8 \<Rightarrow> i32 \<Rightarrow> instruction" where
  "LH \<equiv> Load Lh"

abbreviation LW :: "u8 \<Rightarrow> u8 \<Rightarrow> i32 \<Rightarrow> instruction" where
  "LW \<equiv> Load Lw"

abbreviation LD :: "u8 \<Rightarrow> u8 \<Rightarrow> i32 \<Rightarrow> instruction" where
  "LD \<equiv> Load Ld"

abbreviation LBU :: "u8 \<Rightarrow> u8 \<Rightarrow> i32 \<Rightarrow> instruction" where
  "LBU \<equiv> Load Lbu"

abbreviation LHU :: "u8 \<Rightarrow> u8 \<Rightarrow> i32 \<Rightarrow> instruction" where
  "LHU \<equiv> Load Lhu"

abbreviation LWU :: "u8 \<Rightarrow> u8 \<Rightarrow> i32 \<Rightarrow> instruction" where
  "LWU \<equiv> Load Lwu"

abbreviation SB :: "u8 \<Rightarrow> u8 \<Rightarrow> i32 \<Rightarrow> instruction" where
  "SB \<equiv> Store Sb"

abbreviation SH :: "u8 \<Rightarrow> u8 \<Rightarrow> i32 \<Rightarrow> instruction" where
  "SH \<equiv> Store Sh"

abbreviation SW :: "u8 \<Rightarrow> u8 \<Rightarrow> i32 \<Rightarrow> instruction" where
  "SW \<equiv> Store Sw"

abbreviation SD :: "u8 \<Rightarrow> u8 \<Rightarrow> i32 \<Rightarrow> instruction" where
  "SD \<equiv> Store Sd"

abbreviation ADDI :: "u8 \<Rightarrow> u8 \<Rightarrow> i32 \<Rightarrow> instruction" where
  "ADDI \<equiv> OpImm Addi"

abbreviation SLTI :: "u8 \<Rightarrow> u8 \<Rightarrow> i32 \<Rightarrow> instruction" where
  "SLTI \<equiv> OpImm Slti"

abbreviation SLTIU :: "u8 \<Rightarrow> u8 \<Rightarrow> i32 \<Rightarrow> instruction" where
  "SLTIU \<equiv> OpImm Sltiu"

abbreviation XORI :: "u8 \<Rightarrow> u8 \<Rightarrow> i32 \<Rightarrow> instruction" where
  "XORI \<equiv> OpImm Xori"

abbreviation ORI :: "u8 \<Rightarrow> u8 \<Rightarrow> i32 \<Rightarrow> instruction" where
  "ORI \<equiv> OpImm Ori"

abbreviation ANDI :: "u8 \<Rightarrow> u8 \<Rightarrow> i32 \<Rightarrow> instruction" where
  "ANDI \<equiv> OpImm Andi"

abbreviation SLLI :: "u8 \<Rightarrow> u8 \<Rightarrow> i32 \<Rightarrow> instruction" where
  "SLLI \<equiv> OpImm Slli"

abbreviation SRLI :: "u8 \<Rightarrow> u8 \<Rightarrow> i32 \<Rightarrow> instruction" where
  "SRLI \<equiv> OpImm Srli"

abbreviation SRAI :: "u8 \<Rightarrow> u8 \<Rightarrow> i32 \<Rightarrow> instruction" where
  "SRAI \<equiv> OpImm Srai"

abbreviation ADD :: "u8 \<Rightarrow> u8 \<Rightarrow> u8 \<Rightarrow> instruction" where
  "ADD \<equiv> OpReg Add"

abbreviation SUB :: "u8 \<Rightarrow> u8 \<Rightarrow> u8 \<Rightarrow> instruction" where
  "SUB \<equiv> OpReg Sub"

abbreviation SLL :: "u8 \<Rightarrow> u8 \<Rightarrow> u8 \<Rightarrow> instruction" where
  "SLL \<equiv> OpReg Sll"

abbreviation SLT :: "u8 \<Rightarrow> u8 \<Rightarrow> u8 \<Rightarrow> instruction" where
  "SLT \<equiv> OpReg Slt"

abbreviation SLTU :: "u8 \<Rightarrow> u8 \<Rightarrow> u8 \<Rightarrow> instruction" where
  "SLTU \<equiv> OpReg Sltu"

abbreviation XOR_rr :: "u8 \<Rightarrow> u8 \<Rightarrow> u8 \<Rightarrow> instruction" where
  "XOR_rr \<equiv> OpReg Xor"

abbreviation SRL :: "u8 \<Rightarrow> u8 \<Rightarrow> u8 \<Rightarrow> instruction" where
  "SRL \<equiv> OpReg Srl"

abbreviation SRA :: "u8 \<Rightarrow> u8 \<Rightarrow> u8 \<Rightarrow> instruction" where
  "SRA \<equiv> OpReg Sra"

abbreviation OR_rr :: "u8 \<Rightarrow> u8 \<Rightarrow> u8 \<Rightarrow> instruction" where
  "OR_rr \<equiv> OpReg Or"

abbreviation AND_rr :: "u8 \<Rightarrow> u8 \<Rightarrow> u8 \<Rightarrow> instruction" where
  "AND_rr \<equiv> OpReg And"

abbreviation ADDIW :: "u8 \<Rightarrow> u8 \<Rightarrow> i32 \<Rightarrow> instruction" where
  "ADDIW \<equiv> OpImmW Addiw"

abbreviation SLLIW :: "u8 \<Rightarrow> u8 \<Rightarrow> i32 \<Rightarrow> instruction" where
  "SLLIW \<equiv> OpImmW Slliw"

abbreviation SRLIW :: "u8 \<Rightarrow> u8 \<Rightarrow> i32 \<Rightarrow> instruction" where
  "SRLIW \<equiv> OpImmW Srliw"

abbreviation SRAIW :: "u8 \<Rightarrow> u8 \<Rightarrow> i32 \<Rightarrow> instruction" where
  "SRAIW \<equiv> OpImmW Sraiw"

abbreviation ADDW :: "u8 \<Rightarrow> u8 \<Rightarrow> u8 \<Rightarrow> instruction" where
  "ADDW \<equiv> OpRegW Addw"

abbreviation SUBW :: "u8 \<Rightarrow> u8 \<Rightarrow> u8 \<Rightarrow> instruction" where
  "SUBW \<equiv> OpRegW Subw"

abbreviation SLLW :: "u8 \<Rightarrow> u8 \<Rightarrow> u8 \<Rightarrow> instruction" where
  "SLLW \<equiv> OpRegW Sllw"

abbreviation SRLW :: "u8 \<Rightarrow> u8 \<Rightarrow> u8 \<Rightarrow> instruction" where
  "SRLW \<equiv> OpRegW Srlw"

abbreviation SRAW :: "u8 \<Rightarrow> u8 \<Rightarrow> u8 \<Rightarrow> instruction" where
  "SRAW \<equiv> OpRegW Sraw"

abbreviation MUL :: "u8 \<Rightarrow> u8 \<Rightarrow> u8 \<Rightarrow> instruction" where
  "MUL \<equiv> OpMul Mul"

abbreviation MULH :: "u8 \<Rightarrow> u8 \<Rightarrow> u8 \<Rightarrow> instruction" where
  "MULH \<equiv> OpMul Mulh"

abbreviation MULHSU :: "u8 \<Rightarrow> u8 \<Rightarrow> u8 \<Rightarrow> instruction" where
  "MULHSU \<equiv> OpMul Mulhsu"

abbreviation MULHU :: "u8 \<Rightarrow> u8 \<Rightarrow> u8 \<Rightarrow> instruction" where
  "MULHU \<equiv> OpMul Mulhu"

abbreviation DIV :: "u8 \<Rightarrow> u8 \<Rightarrow> u8 \<Rightarrow> instruction" where
  "DIV \<equiv> OpMul Div"

abbreviation DIVU :: "u8 \<Rightarrow> u8 \<Rightarrow> u8 \<Rightarrow> instruction" where
  "DIVU \<equiv> OpMul Divu"

abbreviation REM :: "u8 \<Rightarrow> u8 \<Rightarrow> u8 \<Rightarrow> instruction" where
  "REM \<equiv> OpMul Rem"

abbreviation REMU :: "u8 \<Rightarrow> u8 \<Rightarrow> u8 \<Rightarrow> instruction" where
  "REMU \<equiv> OpMul Remu"

abbreviation MULW :: "u8 \<Rightarrow> u8 \<Rightarrow> u8 \<Rightarrow> instruction" where
  "MULW \<equiv> OpMulW Mulw"

abbreviation DIVW :: "u8 \<Rightarrow> u8 \<Rightarrow> u8 \<Rightarrow> instruction" where
  "DIVW \<equiv> OpMulW Divw"

abbreviation DIVUW :: "u8 \<Rightarrow> u8 \<Rightarrow> u8 \<Rightarrow> instruction" where
  "DIVUW \<equiv> OpMulW Divuw"

abbreviation REMW :: "u8 \<Rightarrow> u8 \<Rightarrow> u8 \<Rightarrow> instruction" where
  "REMW \<equiv> OpMulW Remw"

abbreviation REMUW :: "u8 \<Rightarrow> u8 \<Rightarrow> u8 \<Rightarrow> instruction" where
  "REMUW \<equiv> OpMulW Remuw"

abbreviation CSRRW :: "u8 \<Rightarrow> u8 \<Rightarrow> u16 \<Rightarrow> instruction" where
  "CSRRW \<equiv> Csr Csrrw"

abbreviation CSRRS :: "u8 \<Rightarrow> u8 \<Rightarrow> u16 \<Rightarrow> instruction" where
  "CSRRS \<equiv> Csr Csrrs"

abbreviation CSRRC :: "u8 \<Rightarrow> u8 \<Rightarrow> u16 \<Rightarrow> instruction" where
  "CSRRC \<equiv> Csr Csrrc"

abbreviation CSRRWI :: "u8 \<Rightarrow> u8 \<Rightarrow> u16 \<Rightarrow> instruction" where
  "CSRRWI \<equiv> CsrI Csrrw"

abbreviation CSRRSI :: "u8 \<Rightarrow> u8 \<Rightarrow> u16 \<Rightarrow> instruction" where
  "CSRRSI \<equiv> CsrI Csrrs"

abbreviation CSRRCI :: "u8 \<Rightarrow> u8 \<Rightarrow> u16 \<Rightarrow> instruction" where
  "CSRRCI \<equiv> CsrI Csrrc"

abbreviation LR_W :: "u8 \<Rightarrow> u8 \<Rightarrow> bool \<Rightarrow> bool \<Rightarrow> instruction" where
  "LR_W \<equiv> Lr W32"

abbreviation LR_D :: "u8 \<Rightarrow> u8 \<Rightarrow> bool \<Rightarrow> bool \<Rightarrow> instruction" where
  "LR_D \<equiv> Lr D64"

abbreviation SC_W :: "u8 \<Rightarrow> u8 \<Rightarrow> u8 \<Rightarrow> bool \<Rightarrow> bool \<Rightarrow> instruction" where
  "SC_W \<equiv> Sc W32"

abbreviation SC_D :: "u8 \<Rightarrow> u8 \<Rightarrow> u8 \<Rightarrow> bool \<Rightarrow> bool \<Rightarrow> instruction" where
  "SC_D \<equiv> Sc D64"

abbreviation AMOSWAP_W :: "u8 \<Rightarrow> u8 \<Rightarrow> u8 \<Rightarrow> bool \<Rightarrow> bool \<Rightarrow> instruction" where
  "AMOSWAP_W \<equiv> Amo AmoSwap W32"

abbreviation AMOSWAP_D :: "u8 \<Rightarrow> u8 \<Rightarrow> u8 \<Rightarrow> bool \<Rightarrow> bool \<Rightarrow> instruction" where
  "AMOSWAP_D \<equiv> Amo AmoSwap D64"

abbreviation AMOADD_W :: "u8 \<Rightarrow> u8 \<Rightarrow> u8 \<Rightarrow> bool \<Rightarrow> bool \<Rightarrow> instruction" where
  "AMOADD_W \<equiv> Amo AmoAdd W32"

abbreviation AMOADD_D :: "u8 \<Rightarrow> u8 \<Rightarrow> u8 \<Rightarrow> bool \<Rightarrow> bool \<Rightarrow> instruction" where
  "AMOADD_D \<equiv> Amo AmoAdd D64"

abbreviation AMOAND_W :: "u8 \<Rightarrow> u8 \<Rightarrow> u8 \<Rightarrow> bool \<Rightarrow> bool \<Rightarrow> instruction" where
  "AMOAND_W \<equiv> Amo AmoAnd W32"

abbreviation AMOAND_D :: "u8 \<Rightarrow> u8 \<Rightarrow> u8 \<Rightarrow> bool \<Rightarrow> bool \<Rightarrow> instruction" where
  "AMOAND_D \<equiv> Amo AmoAnd D64"

abbreviation AMOOR_W :: "u8 \<Rightarrow> u8 \<Rightarrow> u8 \<Rightarrow> bool \<Rightarrow> bool \<Rightarrow> instruction" where
  "AMOOR_W \<equiv> Amo AmoOr W32"

abbreviation AMOOR_D :: "u8 \<Rightarrow> u8 \<Rightarrow> u8 \<Rightarrow> bool \<Rightarrow> bool \<Rightarrow> instruction" where
  "AMOOR_D \<equiv> Amo AmoOr D64"

abbreviation AMOXOR_W :: "u8 \<Rightarrow> u8 \<Rightarrow> u8 \<Rightarrow> bool \<Rightarrow> bool \<Rightarrow> instruction" where
  "AMOXOR_W \<equiv> Amo AmoXor W32"

abbreviation AMOXOR_D :: "u8 \<Rightarrow> u8 \<Rightarrow> u8 \<Rightarrow> bool \<Rightarrow> bool \<Rightarrow> instruction" where
  "AMOXOR_D \<equiv> Amo AmoXor D64"

abbreviation AMOMAX_W :: "u8 \<Rightarrow> u8 \<Rightarrow> u8 \<Rightarrow> bool \<Rightarrow> bool \<Rightarrow> instruction" where
  "AMOMAX_W \<equiv> Amo AmoMax W32"

abbreviation AMOMAX_D :: "u8 \<Rightarrow> u8 \<Rightarrow> u8 \<Rightarrow> bool \<Rightarrow> bool \<Rightarrow> instruction" where
  "AMOMAX_D \<equiv> Amo AmoMax D64"

abbreviation AMOMIN_W :: "u8 \<Rightarrow> u8 \<Rightarrow> u8 \<Rightarrow> bool \<Rightarrow> bool \<Rightarrow> instruction" where
  "AMOMIN_W \<equiv> Amo AmoMin W32"

abbreviation AMOMIN_D :: "u8 \<Rightarrow> u8 \<Rightarrow> u8 \<Rightarrow> bool \<Rightarrow> bool \<Rightarrow> instruction" where
  "AMOMIN_D \<equiv> Amo AmoMin D64"

abbreviation AMOMAXU_W :: "u8 \<Rightarrow> u8 \<Rightarrow> u8 \<Rightarrow> bool \<Rightarrow> bool \<Rightarrow> instruction" where
  "AMOMAXU_W \<equiv> Amo AmoMaxu W32"

abbreviation AMOMAXU_D :: "u8 \<Rightarrow> u8 \<Rightarrow> u8 \<Rightarrow> bool \<Rightarrow> bool \<Rightarrow> instruction" where
  "AMOMAXU_D \<equiv> Amo AmoMaxu D64"

abbreviation AMOMINU_W :: "u8 \<Rightarrow> u8 \<Rightarrow> u8 \<Rightarrow> bool \<Rightarrow> bool \<Rightarrow> instruction" where
  "AMOMINU_W \<equiv> Amo AmoMinu W32"

abbreviation AMOMINU_D :: "u8 \<Rightarrow> u8 \<Rightarrow> u8 \<Rightarrow> bool \<Rightarrow> bool \<Rightarrow> instruction" where
  "AMOMINU_D \<equiv> Amo AmoMinu D64"

section \<open>Field accessors\<close>

text \<open>\<^verbatim>\<open>Instruction::rd\<close>, \<^verbatim>\<open>Instruction::rs1\<close>, \<^verbatim>\<open>Instruction::rs2\<close> and \<^verbatim>\<open>Instruction::format\<close>.\<close>

fun insn_rd :: "instruction \<Rightarrow> u8 option" where
  "insn_rd (Store _ _ _ _) = None"
| "insn_rd (Branch _ _ _ _) = None"
| "insn_rd (FENCE _ _) = None"
| "insn_rd ECALL = None"
| "insn_rd EBREAK = None"
| "insn_rd MRET = None"
| "insn_rd SRET = None"
| "insn_rd WFI = None"
| "insn_rd (SFENCE_VMA _ _) = None"
| "insn_rd FENCE_I = None"
| "insn_rd (LUI rd _) = Some rd"
| "insn_rd (AUIPC rd _) = Some rd"
| "insn_rd (JAL rd _) = Some rd"
| "insn_rd (JALR rd _ _) = Some rd"
| "insn_rd (Load _ rd _ _) = Some rd"
| "insn_rd (OpImm _ rd _ _) = Some rd"
| "insn_rd (OpImmW _ rd _ _) = Some rd"
| "insn_rd (OpReg _ rd _ _) = Some rd"
| "insn_rd (OpRegW _ rd _ _) = Some rd"
| "insn_rd (OpMul _ rd _ _) = Some rd"
| "insn_rd (OpMulW _ rd _ _) = Some rd"
| "insn_rd (Csr _ rd _ _) = Some rd"
| "insn_rd (CsrI _ rd _ _) = Some rd"
| "insn_rd (Lr _ rd _ _ _) = Some rd"
| "insn_rd (Sc _ rd _ _ _ _) = Some rd"
| "insn_rd (Amo _ _ rd _ _ _ _) = Some rd"

fun insn_rs1 :: "instruction \<Rightarrow> u8 option" where
  "insn_rs1 (LUI _ _) = None"
| "insn_rs1 (AUIPC _ _) = None"
| "insn_rs1 (JAL _ _) = None"
| "insn_rs1 (FENCE _ _) = None"
| "insn_rs1 ECALL = None"
| "insn_rs1 EBREAK = None"
| "insn_rs1 MRET = None"
| "insn_rs1 SRET = None"
| "insn_rs1 WFI = None"
| "insn_rs1 FENCE_I = None"
| "insn_rs1 (CsrI _ _ _ _) = None"
| "insn_rs1 (JALR _ rs1 _) = Some rs1"
| "insn_rs1 (Load _ _ rs1 _) = Some rs1"
| "insn_rs1 (OpImm _ _ rs1 _) = Some rs1"
| "insn_rs1 (OpImmW _ _ rs1 _) = Some rs1"
| "insn_rs1 (Store _ rs1 _ _) = Some rs1"
| "insn_rs1 (Branch _ rs1 _ _) = Some rs1"
| "insn_rs1 (OpReg _ _ rs1 _) = Some rs1"
| "insn_rs1 (OpRegW _ _ rs1 _) = Some rs1"
| "insn_rs1 (OpMul _ _ rs1 _) = Some rs1"
| "insn_rs1 (OpMulW _ _ rs1 _) = Some rs1"
| "insn_rs1 (Csr _ _ rs1 _) = Some rs1"
| "insn_rs1 (SFENCE_VMA rs1 _) = Some rs1"
| "insn_rs1 (Lr _ _ rs1 _ _) = Some rs1"
| "insn_rs1 (Sc _ _ rs1 _ _ _) = Some rs1"
| "insn_rs1 (Amo _ _ _ rs1 _ _ _) = Some rs1"

definition insn_rs2 :: "instruction \<Rightarrow> u8 option" where
  "insn_rs2 i =
     (case i of
        OpReg _ _ _ rs2 \<Rightarrow> Some rs2
      | OpRegW _ _ _ rs2 \<Rightarrow> Some rs2
      | OpMul _ _ _ rs2 \<Rightarrow> Some rs2
      | OpMulW _ _ _ rs2 \<Rightarrow> Some rs2
      | Store _ _ rs2 _ \<Rightarrow> Some rs2
      | Branch _ _ rs2 _ \<Rightarrow> Some rs2
      | SFENCE_VMA _ rs2 \<Rightarrow> Some rs2
      | Sc _ _ _ rs2 _ _ \<Rightarrow> Some rs2
      | Amo _ _ _ _ rs2 _ _ \<Rightarrow> Some rs2
      | _ \<Rightarrow> None)"

definition insn_format :: "instruction \<Rightarrow> instruction_format" where
  "insn_format i =
     (case i of
        OpReg _ _ _ _ \<Rightarrow> FmtR
      | OpRegW _ _ _ _ \<Rightarrow> FmtR
      | OpMul _ _ _ _ \<Rightarrow> FmtR
      | OpMulW _ _ _ _ \<Rightarrow> FmtR
      | SFENCE_VMA _ _ \<Rightarrow> FmtR
      | Lr _ _ _ _ _ \<Rightarrow> FmtR
      | Sc _ _ _ _ _ _ \<Rightarrow> FmtR
      | Amo _ _ _ _ _ _ _ \<Rightarrow> FmtR
      | JALR _ _ _ \<Rightarrow> FmtI
      | Load _ _ _ _ \<Rightarrow> FmtI
      | OpImm _ _ _ _ \<Rightarrow> FmtI
      | OpImmW _ _ _ _ \<Rightarrow> FmtI
      | FENCE _ _ \<Rightarrow> FmtI
      | ECALL \<Rightarrow> FmtI
      | EBREAK \<Rightarrow> FmtI
      | FENCE_I \<Rightarrow> FmtI
      | MRET \<Rightarrow> FmtI
      | SRET \<Rightarrow> FmtI
      | WFI \<Rightarrow> FmtI
      | Csr _ _ _ _ \<Rightarrow> FmtI
      | CsrI _ _ _ _ \<Rightarrow> FmtI
      | Store _ _ _ _ \<Rightarrow> FmtS
      | Branch _ _ _ _ \<Rightarrow> FmtB
      | LUI _ _ \<Rightarrow> FmtU
      | AUIPC _ _ \<Rightarrow> FmtU
      | JAL _ _ \<Rightarrow> FmtJ)"

text \<open>Every register number an instruction names is a valid index of the register file.\<close>

definition regs_ok :: "instruction \<Rightarrow> bool" where
  "regs_ok i \<longleftrightarrow>
     pred_option (\<lambda>r. r < 32) (insn_rd i) \<and>
     pred_option (\<lambda>r. r < 32) (insn_rs1 i) \<and>
     pred_option (\<lambda>r. r < 32) (insn_rs2 i)"

text \<open>The CSR address an instruction names, if any.\<close>

definition insn_csr :: "instruction \<Rightarrow> u16 option" where
  "insn_csr i = (case i of Csr _ _ _ c \<Rightarrow> Some c | CsrI _ _ _ c \<Rightarrow> Some c | _ \<Rightarrow> None)"

end
