(* ===== verification/Rv_Memory.thy ===== *)
theory Rv_Memory
  imports Rv_Prelude
begin

text \<open>
  The paged physical memory of \<^verbatim>\<open>crates/riscv/src/memory.rs\<close>: a hash map from page numbers to 4096-byte
  pages, created on first write, and the set of dirty pages. Loads and stores of 1, 2, 4 and 8 bytes
  take a fast path inside one page and are split in two halves when they cross a page boundary. The
  theory shows that every one of them refines the flat byte memory of the prelude, at every address,
  including accesses that cross a page or wrap around the end of the address space.
\<close>

section \<open>State and operations\<close>

text \<open>A page is \<^verbatim>\<open>[u8; PAGE_SIZE]\<close>, so its index type has exactly 4096 elements.\<close>

type_synonym page = "12 word \<Rightarrow> u8"

abbreviation PAGE_SIZE :: nat where
  "PAGE_SIZE \<equiv> 4096"

abbreviation PAGE_MASK :: u64 where
  "PAGE_MASK \<equiv> 0xFFF"

definition new_page :: page where
  "new_page = (\<lambda>_. 0)"

record memory =
  pages :: "(u64, page) fmap"
  dirty :: "u64 fset"

definition memory_new :: memory where
  "memory_new = \<lparr>pages = fmempty, dirty = {||}\<rparr>"

text \<open>\<^verbatim>\<open>addr >> PAGE_BITS\<close> and \<^verbatim>\<open>(addr & PAGE_MASK) as usize\<close>.\<close>

abbreviation page_num :: "u64 \<Rightarrow> u64" where
  "page_num a \<equiv> drop_bit 12 a"

abbreviation page_off :: "u64 \<Rightarrow> nat" where
  "page_off a \<equiv> unat (a AND PAGE_MASK)"

text \<open>\<^verbatim>\<open>pages.entry(page_num).or_insert_with(new_page)\<close>.\<close>

definition page_entry :: "memory \<Rightarrow> u64 \<Rightarrow> page" where
  "page_entry m pn = (case fmlookup (pages m) pn of Some p \<Rightarrow> p | None \<Rightarrow> new_page)"

text \<open>\<^verbatim>\<open>page[off..off + bs.len()].copy_from_slice(bs)\<close>.\<close>

definition page_write :: "page \<Rightarrow> nat \<Rightarrow> u8 list \<Rightarrow> page" where
  "page_write p off bs =
     (\<lambda>k. if off \<le> unat k \<and> unat k < off + length bs then bs ! (unat k - off) else p k)"

definition put_page :: "memory \<Rightarrow> u64 \<Rightarrow> page \<Rightarrow> memory" where
  "put_page m pn p = m\<lparr>pages := fmupd pn p (pages m), dirty := finsert pn (dirty m)\<rparr>"

definition pre_allocate :: "memory \<Rightarrow> u64 \<Rightarrow> u64 \<Rightarrow> memory" where
  "pre_allocate m base size' =
     (let start_page = page_num base; end_page = page_num (base + size' + PAGE_MASK)
      in fold (\<lambda>i m. m\<lparr>pages := fmupd (of_nat i) (page_entry m (of_nat i)) (pages m)\<rparr>)
           [unat start_page..<unat end_page] m)"

definition load_byte :: "memory \<Rightarrow> u64 \<Rightarrow> u8" where
  "load_byte m addr =
     (case fmlookup (pages m) (page_num addr) of
        Some p \<Rightarrow> p (of_nat (page_off addr))
      | None \<Rightarrow> 0)"

definition store_byte :: "memory \<Rightarrow> u64 \<Rightarrow> u8 \<Rightarrow> memory" where
  "store_byte m addr val =
     put_page m (page_num addr) ((page_entry m (page_num addr))(of_nat (page_off addr) := val))"

definition load_half :: "memory \<Rightarrow> u64 \<Rightarrow> u16" where
  "load_half m addr =
     (let offset = page_off addr in
      if offset + 2 \<le> PAGE_SIZE then
        (case fmlookup (pages m) (page_num addr) of
           Some p \<Rightarrow> from_le_bytes [p (of_nat offset), p (of_nat (offset + 1))]
         | None \<Rightarrow> 0)
      else
        (let lo = ucast (load_byte m addr); hi = ucast (load_byte m (addr + 1))
         in lo OR push_bit 8 hi))"

definition store_half :: "memory \<Rightarrow> u64 \<Rightarrow> u16 \<Rightarrow> memory" where
  "store_half m addr val =
     (let offset = page_off addr in
      if offset + 2 \<le> PAGE_SIZE then
        (let bytes = to_le_bytes 2 val in
         put_page m (page_num addr)
           ((page_entry m (page_num addr))(of_nat offset := bytes ! 0, of_nat (offset + 1) := bytes ! 1)))
      else
        (let m = store_byte m addr (ucast val)
         in store_byte m (addr + 1) (ucast (drop_bit 8 val))))"

definition load_word :: "memory \<Rightarrow> u64 \<Rightarrow> u32" where
  "load_word m addr =
     (let offset = page_off addr in
      if offset + 4 \<le> PAGE_SIZE then
        (case fmlookup (pages m) (page_num addr) of
           Some p \<Rightarrow> from_le_bytes (map (\<lambda>i. p (of_nat i)) [offset..<offset + 4])
         | None \<Rightarrow> 0)
      else
        (let lo = ucast (load_half m addr); hi = ucast (load_half m (addr + 2))
         in lo OR push_bit 16 hi))"

definition store_word :: "memory \<Rightarrow> u64 \<Rightarrow> u32 \<Rightarrow> memory" where
  "store_word m addr val =
     (let offset = page_off addr in
      if offset + 4 \<le> PAGE_SIZE then
        put_page m (page_num addr)
          (page_write (page_entry m (page_num addr)) offset (to_le_bytes 4 val))
      else
        (let m = store_half m addr (ucast val)
         in store_half m (addr + 2) (ucast (drop_bit 16 val))))"

definition load_double :: "memory \<Rightarrow> u64 \<Rightarrow> u64" where
  "load_double m addr =
     (let offset = page_off addr in
      if offset + 8 \<le> PAGE_SIZE then
        (case fmlookup (pages m) (page_num addr) of
           Some p \<Rightarrow> from_le_bytes (map (\<lambda>i. p (of_nat i)) [offset..<offset + 8])
         | None \<Rightarrow> 0)
      else
        (let lo = ucast (load_word m addr); hi = ucast (load_word m (addr + 4))
         in lo OR push_bit 32 hi))"

definition store_double :: "memory \<Rightarrow> u64 \<Rightarrow> u64 \<Rightarrow> memory" where
  "store_double m addr val =
     (let offset = page_off addr in
      if offset + 8 \<le> PAGE_SIZE then
        put_page m (page_num addr)
          (page_write (page_entry m (page_num addr)) offset (to_le_bytes 8 val))
      else
        (let m = store_word m addr (ucast val)
         in store_word m (addr + 4) (ucast (drop_bit 32 val))))"

function load_program :: "memory \<Rightarrow> u64 \<Rightarrow> u8 list \<Rightarrow> memory" where
  "load_program m addr remaining =
     (if remaining = [] then m
      else
        (let offset = page_off addr;
             n = min (length remaining) (PAGE_SIZE - offset);
             m' = put_page m (page_num addr)
                    (page_write (page_entry m (page_num addr)) offset (take n remaining))
         in load_program m' (addr + of_nat n) (drop n remaining)))"
  by pat_completeness auto
termination
  by (relation "measure (\<lambda>(m, addr, remaining). length remaining)")
    (auto simp: min_def dest: less_imp_diff_less)

declare load_program.simps [simp del]

definition page_numbers :: "memory \<Rightarrow> u64 list" where
  "page_numbers m = sorted_list_of_fset (fmdom (pages m))"

definition page_data :: "memory \<Rightarrow> u64 \<Rightarrow> page option" where
  "page_data m pn = fmlookup (pages m) pn"

definition dirty_pages :: "memory \<Rightarrow> u64 fset" where
  "dirty_pages m = dirty m"

definition clear_dirty :: "memory \<Rightarrow> memory" where
  "clear_dirty m = m\<lparr>dirty := {||}\<rparr>"

definition page_count :: "memory \<Rightarrow> nat" where
  "page_count m = fcard (fmdom (pages m))"

text \<open>The number of non-zero bytes.\<close>

definition memory_size :: "memory \<Rightarrow> nat" where
  "memory_size m =
     sum_list (map (\<lambda>pn. length (filter (\<lambda>i. page_entry m pn (of_nat i) \<noteq> 0) [0..<PAGE_SIZE])) (page_numbers m))"

section \<open>Single pages as views of the flat memory\<close>

lemma load_byte_entry: "load_byte m a = page_entry m (page_num a) (of_nat (unat a mod 4096))"
  by (simp add: load_byte_def page_entry_def new_page_def page_offset_nat split: option.split)

lemma load_byte_in_page:
  assumes "unat a mod 4096 + i < 4096"
  shows "load_byte m (a + of_nat i) = page_entry m (page_num a) (of_nat (unat a mod 4096 + i))"
  using page_add [OF assms] by (simp add: load_byte_entry)

lemma page_entry_put [simp]:
  "page_entry (put_page m pn p) q = (if pn = q then p else page_entry m q)"
  by (simp add: page_entry_def put_page_def)

lemma unat_word12 [simp]: "i < 4096 \<Longrightarrow> unat (of_nat i :: 12 word) = i"
  by (simp add: unat_of_nat)

text \<open>An address at distance \<open>i\<close> from \<open>a\<close>, and the converse for two addresses of one page.\<close>

lemma addr_at_distance: "b = a + of_nat (unat (b - a))" for a b :: u64
  by simp

lemma same_page_distance:
  fixes a b :: u64
  assumes "page_num b = page_num a" and "unat a mod 4096 \<le> unat b mod 4096"
  shows "unat (b - a) = unat b mod 4096 - unat a mod 4096"
proof -
  define i where "i = unat b mod 4096 - unat a mod 4096"
  have e: "unat a mod 4096 + i = unat b mod 4096"
    using assms(2) unfolding i_def by (rule le_add_diff_inverse)
  then have i: "unat a mod 4096 + i < 4096" by (metis mod_less_divisor zero_less_numeral)
  have "a + of_nat i = b"
  proof (rule page_split_eqI)
    show "page_num (a + of_nat i) = page_num b" by (simp only: page_add(1) [OF i] assms(1))
    show "unat (a + of_nat i) mod 4096 = unat b mod 4096" by (simp only: page_add(2) [OF i] e)
  qed
  then have d: "b - a = of_nat i" by (metis add_diff_cancel_left')
  have "i < 2 ^ LENGTH(64)" using i by simp
  then have "unat (of_nat i :: u64) = i" by (simp only: unat_of_nat mod_less)
  then have "unat (b - a) = i" by (simp only: d)
  then show ?thesis unfolding i_def .
qed

lemma put_page_view:
  assumes "unat a mod 4096 + length bs \<le> 4096"
  shows "load_byte (put_page m (page_num a) (page_write (page_entry m (page_num a)) (unat a mod 4096) bs)) =
     bytes_upd (load_byte m) a bs"
proof
  fix b
  show "load_byte (put_page m (page_num a)
      (page_write (page_entry m (page_num a)) (unat a mod 4096) bs)) b =
    bytes_upd (load_byte m) a bs b"
  proof (cases "unat (b - a) < length bs")
    case True
    then have "unat a mod 4096 + unat (b - a) < 4096" using assms by linarith
    from page_add [OF this] True show ?thesis
      by (simp add: load_byte_entry bytes_upd_def page_write_def del: of_nat_add)
  next
    case False
    have "\<not> (page_num b = page_num a \<and> unat a mod 4096 \<le> unat b mod 4096 \<and>
        unat b mod 4096 < unat a mod 4096 + length bs)"
      using same_page_distance [of b a] False by auto
    with False show ?thesis
      by (auto simp: load_byte_entry bytes_upd_def page_write_def)
  qed
qed

lemma page_write_single: "off < 4096 \<Longrightarrow> p(of_nat off := v) = page_write p off [v]"
  by (auto simp: page_write_def fun_eq_iff word_unat_eq_iff)

lemma page_write_pair:
  assumes "off + 2 \<le> 4096"
  shows "p(of_nat off := v, of_nat (off + 1) := w) = page_write p off [v, w]"
proof -
  have "unat (of_nat off :: 12 word) = off" "unat (of_nat (off + 1) :: 12 word) = off + 1"
    using assms unat_word12 [of off] unat_word12 [of "off + 1"] by linarith+
  then show ?thesis
    by (auto simp: page_write_def fun_eq_iff word_unat_eq_iff less_Suc_eq nth_Cons'
        simp del: of_nat_add of_nat_Suc)
qed

lemma load_le_in_page:
  assumes "unat a mod 4096 + n \<le> 4096"
  shows "load_le (load_byte m) a n =
     from_le_bytes (map (\<lambda>i. page_entry m (page_num a) (of_nat i)) [unat a mod 4096..<unat a mod 4096 + n])"
proof -
  have "map (\<lambda>i. load_byte m (a + of_nat i)) [0..<n] =
      map (\<lambda>i. page_entry m (page_num a) (of_nat i)) [unat a mod 4096..<unat a mod 4096 + n]"
    using assms load_byte_in_page [of a _ m] by (intro nth_equalityI) auto
  then show ?thesis by (simp add: load_le_def)
qed

lemma from_le_bytes_zeros: "set bs \<subseteq> {0} \<Longrightarrow> from_le_bytes bs = 0"
  by (induction bs) auto

lemma load_fast_path:
  assumes "unat a mod 4096 + n \<le> 4096"
  shows "(case fmlookup (pages m) (page_num a) of
        Some p \<Rightarrow> from_le_bytes (map (\<lambda>i. p (of_nat i)) [unat a mod 4096..<unat a mod 4096 + n])
      | None \<Rightarrow> 0) = (load_le (load_byte m) a n :: 'w::len word)"
proof (cases "fmlookup (pages m) (page_num a)")
  case None
  then have "(from_le_bytes (map (\<lambda>i. page_entry m (page_num a) (of_nat i))
      [unat a mod 4096..<unat a mod 4096 + n]) :: 'w word) = 0"
    by (intro from_le_bytes_zeros) (auto simp: page_entry_def new_page_def)
  with None show ?thesis by (simp add: load_le_in_page [OF assms])
next
  case (Some p)
  then show ?thesis by (simp add: load_le_in_page [OF assms] page_entry_def)
qed

section \<open>The contract of an access width\<close>

text \<open>
  What a client of the memory relies on, for one access width: the load reads the little-endian value
  of the byte view, the store overwrites exactly its bytes. The laws that clients use follow once and
  for all; the four widths of the memory are interpretations below.
\<close>

locale le_access =
  fixes view :: "'m \<Rightarrow> u64 \<Rightarrow> u8"
    and ld :: "'m \<Rightarrow> u64 \<Rightarrow> 'w::len word"
    and st :: "'m \<Rightarrow> u64 \<Rightarrow> 'w word \<Rightarrow> 'm"
    and n :: nat
  assumes width: "LENGTH('w) = 8 * n"
    and width_le: "n \<le> 8"
    and ld_view: "ld m a = load_le (view m) a n"
    and st_view: "view (st m a v) = bytes_upd (view m) a (to_le_bytes n v)"
begin

lemma view_in_store:
  assumes "i < n"
  shows "view (st m a v) (a + of_nat i) = ucast (drop_bit (8 * i) v)"
proof -
  have "i < 2 ^ LENGTH(64)" using assms width_le by simp
  then have "unat (of_nat i :: u64) = i" by (simp only: unat_of_nat mod_less)
  with assms show ?thesis by (simp add: st_view bytes_upd_def)
qed

lemma view_outside_store: "n \<le> unat (b - a) \<Longrightarrow> view (st m a v) b = view m b"
  by (simp add: st_view bytes_upd_def)

lemma ld_st_same: "ld (st m a v) a = v"
proof -
  have "map (\<lambda>i. view (st m a v) (a + of_nat i)) [0..<n] = to_le_bytes n v"
    by (simp add: to_le_bytes_def view_in_store)
  then show ?thesis
    using from_le_to_le_bytes [of n v] width by (simp add: ld_view load_le_def)
qed

lemma ld_st_disjoint:
  assumes "n \<le> unat (b - a)" and "unat (b - a) + n \<le> 2 ^ 64"
  shows "ld (st m a v) b = ld m b"
proof -
  have "view (st m a v) (b + of_nat i) = view m (b + of_nat i)" if "i < n" for i
  proof (rule view_outside_store)
    have "unat (b - a + of_nat i) = unat (b - a) + i"
      using that assms(2) by (intro unat_add_no_wrap) simp
    moreover have "b + of_nat i - a = b - a + of_nat i" by simp
    ultimately show "n \<le> unat (b + of_nat i - a)" using assms(1) by (simp only:)
  qed
  then have "map (\<lambda>i. view (st m a v) (b + of_nat i)) [0..<n] = map (\<lambda>i. view m (b + of_nat i)) [0..<n]"
    by simp
  then show ?thesis by (simp only: ld_view load_le_def)
qed

lemma st_st_same: "view (st (st m a v) a w) = view (st m a w)"
  by (simp add: st_view bytes_upd_def fun_eq_iff)

lemma ld_determined: "view m = view m' \<Longrightarrow> ld m a = ld m' a"
  by (simp add: ld_view)

end

section \<open>The four widths refine the flat memory\<close>

lemma store_byte_view: "load_byte (store_byte m a v) = (load_byte m)(a := v)"
  using put_page_view [of a "[v]" m]
  by (simp add: store_byte_def page_offset_nat page_write_single bytes_upd_single)

lemma load_half_view: "load_half m a = load_le (load_byte m) a 2"
proof (cases "unat a mod 4096 + 2 \<le> 4096")
  case True
  have "[unat a mod 4096..<unat a mod 4096 + 2] = [unat a mod 4096, unat a mod 4096 + 1]"
    by (simp add: upt_rec)
  with True load_fast_path [OF True, of m, where 'w = 16] show ?thesis
    by (simp only: load_half_def page_offset_nat Let_def if_True list.map)
next
  case False
  then show ?thesis
    using load_le_split [where 'a = 16 and 'b = 8 and 'c = 8, of 1 1 "load_byte m" a]
    by (simp add: load_half_def page_offset_nat load_le_def numeral_2_eq_2)
qed

lemma store_half_view:
  "load_byte (store_half m a v) = bytes_upd (load_byte m) a (to_le_bytes 2 v)"
proof (cases "unat a mod 4096 + 2 \<le> 4096")
  case True
  have "to_le_bytes 2 v = [to_le_bytes 2 v ! 0, to_le_bytes 2 v ! 1]"
    by (simp add: to_le_bytes_def numeral_2_eq_2)
  then show ?thesis
    using True put_page_view [of a "to_le_bytes 2 v" m] page_write_pair [OF True]
    by (simp add: store_half_def page_offset_nat)
next
  case False
  have "to_le_bytes 2 v = [ucast v, ucast (drop_bit 8 v)]"
    by (simp add: to_le_bytes_def numeral_2_eq_2)
  then show ?thesis
    using False bytes_upd_append [of "[ucast v]" "[ucast (drop_bit 8 v)]" "load_byte m" a]
    by (simp add: store_half_def page_offset_nat store_byte_view bytes_upd_single)
qed

lemma load_word_view: "load_word m a = load_le (load_byte m) a 4"
proof (cases "unat a mod 4096 + 4 \<le> 4096")
  case True
  then show ?thesis
    by (simp only: load_word_def page_offset_nat Let_def if_True load_fast_path)
next
  case False
  then show ?thesis
    using load_le_split [where 'a = 32 and 'b = 16 and 'c = 16, of 2 2 "load_byte m" a]
    by (simp add: load_word_def page_offset_nat load_half_view)
qed

lemma store_word_view:
  "load_byte (store_word m a v) = bytes_upd (load_byte m) a (to_le_bytes 4 v)"
proof (cases "unat a mod 4096 + 4 \<le> 4096")
  case True
  then show ?thesis
    using put_page_view [of a "to_le_bytes 4 v" m] by (simp add: store_word_def page_offset_nat)
next
  case False
  then show ?thesis
    using to_le_bytes_append [where 'b = 16 and 'c = 16, of 2 2 v]
      bytes_upd_append [of "to_le_bytes 2 (ucast v :: u16)"
        "to_le_bytes 2 (ucast (drop_bit 16 v) :: u16)" "load_byte m" a]
    by (simp add: store_word_def page_offset_nat store_half_view)
qed

lemma load_double_view: "load_double m a = load_le (load_byte m) a 8"
proof (cases "unat a mod 4096 + 8 \<le> 4096")
  case True
  then show ?thesis
    by (simp only: load_double_def page_offset_nat Let_def if_True load_fast_path)
next
  case False
  then show ?thesis
    using load_le_split [where 'a = 64 and 'b = 32 and 'c = 32, of 4 4 "load_byte m" a]
    by (simp add: load_double_def page_offset_nat load_word_view)
qed

lemma store_double_view:
  "load_byte (store_double m a v) = bytes_upd (load_byte m) a (to_le_bytes 8 v)"
proof (cases "unat a mod 4096 + 8 \<le> 4096")
  case True
  then show ?thesis
    using put_page_view [of a "to_le_bytes 8 v" m] by (simp add: store_double_def page_offset_nat)
next
  case False
  then show ?thesis
    using to_le_bytes_append [where 'b = 32 and 'c = 32, of 4 4 v]
      bytes_upd_append [of "to_le_bytes 4 (ucast v :: u32)"
        "to_le_bytes 4 (ucast (drop_bit 32 v) :: u32)" "load_byte m" a]
    by (simp add: store_double_def page_offset_nat store_word_view)
qed

interpretation byte_acc: le_access load_byte load_byte store_byte 1
  by unfold_locales
    (simp_all add: load_le_def to_le_bytes_def store_byte_view bytes_upd_single)

interpretation half_acc: le_access load_byte load_half store_half 2
  by unfold_locales (simp_all add: load_half_view store_half_view)

interpretation word_acc: le_access load_byte load_word store_word 4
  by unfold_locales (simp_all add: load_word_view store_word_view)

interpretation double_acc: le_access load_byte load_double store_double 8
  by unfold_locales (simp_all add: load_double_view store_double_view)

section \<open>Program loading and pre-allocation\<close>

lemma load_program_view:
  "length bs < 2 ^ 64 \<Longrightarrow> load_byte (load_program m a bs) = bytes_upd (load_byte m) a bs"
proof (induction m a bs rule: load_program.induct)
  case (1 m a bs)
  show ?case
  proof (cases "bs = []")
    case True
    then show ?thesis by (simp add: load_program.simps bytes_upd_def fun_eq_iff)
  next
    case False
    define n where "n = min (length bs) (PAGE_SIZE - page_off a)"
    define m' where "m' = put_page m (page_num a)
      (page_write (page_entry m (page_num a)) (page_off a) (take n bs))"
    have n: "n \<le> length bs" "page_off a + n \<le> 4096"
      using page_offset_less [of a] unfolding n_def by linarith+
    have "load_byte m' = bytes_upd (load_byte m) a (take n bs)"
      using n put_page_view [of a "take n bs" m] by (simp add: m'_def page_offset_nat)
    moreover have "load_byte (load_program m' (a + of_nat n) (drop n bs)) =
        bytes_upd (load_byte m') (a + of_nat n) (drop n bs)"
      using "1.prems" by (intro "1.IH" [OF False refl n_def m'_def]) simp
    ultimately have "load_byte (load_program m' (a + of_nat n) (drop n bs)) = bytes_upd (load_byte m) a bs"
      using bytes_upd_append [of "take n bs" "drop n bs" "load_byte m" a] n(1) "1.prems"
      by (simp add: min_absorb2)
    moreover have "load_program m a bs = load_program m' (a + of_nat n) (drop n bs)"
      using False by (subst load_program.simps) (simp add: Let_def n_def m'_def)
    ultimately show ?thesis by simp
  qed
qed

lemma page_entry_upd_same:
  "page_entry (m\<lparr>pages := fmupd pn (page_entry m pn) (pages m)\<rparr>) q = page_entry m q"
  by (simp add: page_entry_def)

lemma pre_allocate_view: "load_byte (pre_allocate m base size') = load_byte m"
proof -
  have "page_entry (fold (\<lambda>i m. m\<lparr>pages := fmupd (of_nat i) (page_entry m (of_nat i)) (pages m)\<rparr>) xs m) =
      page_entry m" for xs :: "nat list" and m :: memory
    by (induction xs arbitrary: m) (simp_all add: page_entry_upd_same fun_eq_iff)
  then show ?thesis by (simp add: pre_allocate_def Let_def load_byte_entry fun_eq_iff)
qed

section \<open>Dirty-page tracking\<close>

text \<open>
  The incremental state hash re-hashes only the pages in the dirty set. \<open>dirty_covers m\<^sub>0 m\<close> says that
  this is enough: outside the dirty pages of \<open>m\<close> no byte differs from the checkpoint \<open>m\<^sub>0\<close>.
\<close>

definition dirty_covers :: "memory \<Rightarrow> memory \<Rightarrow> bool" where
  "dirty_covers m0 m \<longleftrightarrow> (\<forall>pn. pn |\<notin>| dirty m \<longrightarrow> page_entry m pn = page_entry m0 pn)"

text \<open>The mutating operations of the memory as events, and their run.\<close>

datatype mem_op =
    StoreByte u64 u8
  | StoreHalf u64 u16
  | StoreWord u64 u32
  | StoreDouble u64 u64
  | LoadProgram u64 "u8 list"
  | PreAllocate u64 u64

fun mem_apply :: "mem_op \<Rightarrow> memory \<Rightarrow> memory" where
  "mem_apply (StoreByte a v) m = store_byte m a v"
| "mem_apply (StoreHalf a v) m = store_half m a v"
| "mem_apply (StoreWord a v) m = store_word m a v"
| "mem_apply (StoreDouble a v) m = store_double m a v"
| "mem_apply (LoadProgram a bs) m = load_program m a bs"
| "mem_apply (PreAllocate a n) m = pre_allocate m a n"

lemma dirty_covers_put [intro]: "dirty_covers m0 m \<Longrightarrow> dirty_covers m0 (put_page m pn p)"
  by (auto simp: dirty_covers_def put_page_def page_entry_def)

lemma dirty_covers_stores [intro]:
  assumes "dirty_covers m0 m"
  shows "dirty_covers m0 (store_byte m a b)" and "dirty_covers m0 (store_half m a h)"
    and "dirty_covers m0 (store_word m a w)" and "dirty_covers m0 (store_double m a d)"
proof -
  have b: "dirty_covers m0 (store_byte m a b)" if "dirty_covers m0 m" for m a b
    using that by (auto simp: store_byte_def)
  have h: "dirty_covers m0 (store_half m a h)" if "dirty_covers m0 m" for m a h
    using that by (auto simp: store_half_def Let_def intro: b)
  have w: "dirty_covers m0 (store_word m a w)" if "dirty_covers m0 m" for m a w
    using that by (auto simp: store_word_def Let_def intro: h)
  show "dirty_covers m0 (store_byte m a b)" "dirty_covers m0 (store_half m a h)"
    "dirty_covers m0 (store_word m a w)" "dirty_covers m0 (store_double m a d)"
    using assms by (auto simp: store_double_def Let_def intro: b h w)
qed

lemma dirty_covers_load_program: "dirty_covers m0 m \<Longrightarrow> dirty_covers m0 (load_program m a bs)"
proof (induction m a bs rule: load_program.induct)
  case (1 m a bs)
  then show ?case by (subst load_program.simps) (auto simp: Let_def)
qed

lemma dirty_covers_pre_allocate: "dirty_covers m0 m \<Longrightarrow> dirty_covers m0 (pre_allocate m a n)"
proof -
  have "dirty_covers m0 (fold (\<lambda>i m. m\<lparr>pages := fmupd (of_nat i) (page_entry m (of_nat i)) (pages m)\<rparr>) xs m)"
    if "dirty_covers m0 m" for xs :: "nat list" and m
    using that by (induction xs arbitrary: m) (auto simp: dirty_covers_def page_entry_upd_same)
  then show "dirty_covers m0 m \<Longrightarrow> dirty_covers m0 (pre_allocate m a n)"
    by (simp add: pre_allocate_def Let_def)
qed

lemma dirty_covers_apply: "dirty_covers m0 m \<Longrightarrow> dirty_covers m0 (mem_apply op m)"
  by (cases op) (auto intro: dirty_covers_load_program dirty_covers_pre_allocate)

lemma dirty_covers_run: "dirty_covers m0 m \<Longrightarrow> dirty_covers m0 (fold mem_apply ops m)"
  by (induction ops arbitrary: m) (auto intro: dirty_covers_apply)

text \<open>
  The stronger relation for operations that allocate a page only by writing to it: outside the dirty
  set the page table itself is the one of the checkpoint, and every dirty page is allocated.
\<close>

definition tracked :: "memory \<Rightarrow> memory \<Rightarrow> bool" where
  "tracked m0 m \<longleftrightarrow>
     (\<forall>pn. pn |\<notin>| dirty m \<longrightarrow> fmlookup (pages m) pn = fmlookup (pages m0) pn) \<and> dirty m |\<subseteq>| fmdom (pages m)"

lemma tracked_clear_dirty [simp]: "tracked m (clear_dirty m)"
  by (simp add: tracked_def clear_dirty_def)

lemma tracked_put [intro]: "tracked m0 m \<Longrightarrow> tracked m0 (put_page m pn p)"
  by (auto simp: tracked_def put_page_def)

lemma tracked_stores [intro]:
  assumes "tracked m0 m"
  shows "tracked m0 (store_byte m a b)" and "tracked m0 (store_half m a h)"
    and "tracked m0 (store_word m a w)" and "tracked m0 (store_double m a d)"
proof -
  have b: "tracked m0 (store_byte m a b)" if "tracked m0 m" for m a b
    using that by (auto simp: store_byte_def)
  have h: "tracked m0 (store_half m a h)" if "tracked m0 m" for m a h
    using that by (auto simp: store_half_def Let_def intro: b)
  have w: "tracked m0 (store_word m a w)" if "tracked m0 m" for m a w
    using that by (auto simp: store_word_def Let_def intro: h)
  show "tracked m0 (store_byte m a b)" "tracked m0 (store_half m a h)"
    "tracked m0 (store_word m a w)" "tracked m0 (store_double m a d)"
    using assms by (auto simp: store_double_def Let_def intro: b h w)
qed

section \<open>Properties\<close>

text \<open>
  C3. Every load and store of the paged memory refines the flat byte memory: loads read the
  little-endian value of the byte view and stores replace exactly their bytes, at every address,
  on the fast path inside a page and on the split path across a page boundary or the end of the
  address space alike.
\<close>

theorem memory_refines_flat:
  "load_byte (store_byte m a b) = bytes_upd (load_byte m) a [b] \<and>
   load_half m a = load_le (load_byte m) a 2 \<and>
   load_byte (store_half m a h) = bytes_upd (load_byte m) a (to_le_bytes 2 h) \<and>
   load_word m a = load_le (load_byte m) a 4 \<and>
   load_byte (store_word m a w) = bytes_upd (load_byte m) a (to_le_bytes 4 w) \<and>
   load_double m a = load_le (load_byte m) a 8 \<and>
   load_byte (store_double m a d) = bytes_upd (load_byte m) a (to_le_bytes 8 d)"
  by (simp add: store_byte_view bytes_upd_single load_half_view store_half_view load_word_view
      store_word_view load_double_view store_double_view)

text \<open>
  A value that was stored is read back at the same width, and a load that does not overlap the
  stored bytes is not affected, for every width.
\<close>

theorem load_after_store:
  assumes "8 \<le> unat (b - a)" and "unat (b - a) + 8 \<le> 2 ^ 64"
  shows "(load_byte (store_byte m a v8) a = v8 \<and> load_byte (store_byte m a v8) b = load_byte m b) \<and>
    (load_half (store_half m a v16) a = v16 \<and> load_half (store_half m a v16) b = load_half m b) \<and>
    (load_word (store_word m a v32) a = v32 \<and> load_word (store_word m a v32) b = load_word m b) \<and>
    (load_double (store_double m a v64) a = v64 \<and>
       load_double (store_double m a v64) b = load_double m b)"
  using assms
  by (simp add: byte_acc.ld_st_same half_acc.ld_st_same word_acc.ld_st_same double_acc.ld_st_same
      byte_acc.ld_st_disjoint half_acc.ld_st_disjoint word_acc.ld_st_disjoint double_acc.ld_st_disjoint)

theorem load_after_store_witness:
  "load_double (store_double memory_new 0xFFC 0x1122334455667788) 0xFFC = 0x1122334455667788 \<and>
   load_double (store_double memory_new 0xFFC 0x1122334455667788) 0x1004 = load_double memory_new 0x1004"
  using load_after_store [of "0x1004" "0xFFC" memory_new _ _ _ "0x1122334455667788"] by simp

text \<open>
  \<open>load_program\<close> copies the whole image to consecutive addresses, however many pages it spans, and
  changes no other byte.
\<close>

theorem load_program_copies:
  assumes "length bs < 2 ^ 64"
  shows "(i < length bs \<longrightarrow> load_byte (load_program m a bs) (a + of_nat i) = bs ! i) \<and>
    (length bs \<le> unat (b - a) \<longrightarrow> load_byte (load_program m a bs) b = load_byte m b)"
proof -
  have "load_byte (load_program m a bs) (a + of_nat i) = bs ! i" if i: "i < length bs"
  proof -
    from i have "i < 2 ^ LENGTH(64)" using assms by simp
    then have "unat (of_nat i :: u64) = i" by (simp only: unat_of_nat mod_less)
    with i show ?thesis
      by (simp add: load_program_view [OF assms] bytes_upd_def)
  qed
  then show ?thesis
    by (simp add: load_program_view [OF assms] bytes_upd_def)
qed

theorem load_program_copies_witness:
  "load_byte (load_program memory_new 0xFFF [0xAA, 0xBB]) 0x1000 = 0xBB \<and>
   load_byte (load_program memory_new 0xFFF [0xAA, 0xBB]) 0x1001 = load_byte memory_new 0x1001"
  using load_program_copies [of "[0xAA, 0xBB]" 1 memory_new "0xFFF" "0x1001"] by simp

text \<open>
  C33. Dirty tracking is complete: after \<open>clear_dirty\<close>, whatever sequence of stores, program loads and
  pre-allocations runs, a byte whose page is not in the dirty set has the value it had at the
  checkpoint. The incremental state hash relies on this.
\<close>

theorem dirty_tracking_complete:
  assumes "page_num a |\<notin>| dirty_pages (fold mem_apply ops (clear_dirty m))"
  shows "load_byte (fold mem_apply ops (clear_dirty m)) a = load_byte m a"
proof -
  have "dirty_covers m (clear_dirty m)"
    by (simp add: dirty_covers_def clear_dirty_def page_entry_def)
  from dirty_covers_run [OF this, of ops] assms show ?thesis
    by (simp add: dirty_covers_def dirty_pages_def load_byte_entry)
qed

theorem dirty_tracking_complete_witness:
  "load_byte (fold mem_apply [StoreHalf 0x1FFF 7] (clear_dirty memory_new)) 0x5000 = load_byte memory_new 0x5000"
  by (rule dirty_tracking_complete)
    (simp add: dirty_pages_def clear_dirty_def memory_new_def store_half_def store_byte_def put_page_def)

end
