(* ===== verification/Rv_Decode.thy ===== *)
theory Rv_Decode
  imports Rv_Isa Rv_Memory
begin

text \<open>
  The instruction decoder of \<^verbatim>\<open>crates/riscv/src/decode.rs\<close>: field and immediate extraction, the 32-bit
  decoder (one function per major opcode), the 16-bit compressed decoder (one function per quadrant)
  and the variable-length fetch. The encoders of the module's tests are modelled too; the theorems
  are round trips through them, bounds on every field a decoder can produce, and the refusal of
  reserved encodings.
\<close>

datatype decode_error =
    UnknownOpcode u8
  | UnknownFunct3 u8 u8
  | UnknownFunct7 u8 u8 u8
  | IllegalCompressed u16

section \<open>Field extraction\<close>

text \<open>\<^verbatim>\<open>opcode\<close>, \<^verbatim>\<open>rd\<close>, \<^verbatim>\<open>funct3\<close>, \<^verbatim>\<open>rs1\<close>, \<^verbatim>\<open>rs2\<close> and \<^verbatim>\<open>funct7\<close> of an instruction word.\<close>

definition w_opcode :: "u32 \<Rightarrow> u8" where
  "w_opcode w = ucast (w AND 0x7F)"

definition w_rd :: "u32 \<Rightarrow> u8" where
  "w_rd w = ucast (drop_bit 7 w AND 0x1F)"

definition w_funct3 :: "u32 \<Rightarrow> u8" where
  "w_funct3 w = ucast (drop_bit 12 w AND 0x7)"

definition w_rs1 :: "u32 \<Rightarrow> u8" where
  "w_rs1 w = ucast (drop_bit 15 w AND 0x1F)"

definition w_rs2 :: "u32 \<Rightarrow> u8" where
  "w_rs2 w = ucast (drop_bit 20 w AND 0x1F)"

definition w_funct7 :: "u32 \<Rightarrow> u8" where
  "w_funct7 w = ucast (drop_bit 25 w AND 0x7F)"

section \<open>Immediates\<close>

definition sign_extend :: "i32 \<Rightarrow> nat \<Rightarrow> i32" where
  "sign_extend val bits = (let shift = 32 - bits in signed_drop_bit shift (push_bit shift val))"

definition imm_i :: "u32 \<Rightarrow> i32" where
  "imm_i w = signed_drop_bit 20 w"

definition imm_s :: "u32 \<Rightarrow> i32" where
  "imm_s w =
     (let hi = signed_drop_bit 20 (w AND 0xFE000000);
          lo = drop_bit 7 w AND 0x1F
      in hi OR lo)"

definition imm_b :: "u32 \<Rightarrow> i32" where
  "imm_b w =
     (let bit12 = drop_bit 31 w AND 1;
          bit11 = drop_bit 7 w AND 1;
          bits10_5 = drop_bit 25 w AND 0x3F;
          bits4_1 = drop_bit 8 w AND 0xF;
          raw = push_bit 1 bits4_1 OR push_bit 5 bits10_5 OR push_bit 11 bit11 OR push_bit 12 bit12
      in sign_extend raw 13)"

definition imm_u :: "u32 \<Rightarrow> i32" where
  "imm_u w = w AND 0xFFFFF000"

definition imm_j :: "u32 \<Rightarrow> i32" where
  "imm_j w =
     (let bit20 = drop_bit 31 w AND 1;
          bits19_12 = drop_bit 12 w AND 0xFF;
          bit11 = drop_bit 20 w AND 1;
          bits10_1 = drop_bit 21 w AND 0x3FF;
          raw = push_bit 1 bits10_1 OR push_bit 11 bit11 OR push_bit 12 bits19_12 OR push_bit 20 bit20
      in sign_extend raw 21)"

section \<open>The 32-bit decoder\<close>

definition decode_jalr :: "u32 \<Rightarrow> u8 \<Rightarrow> decode_error + instruction" where
  "decode_jalr word op =
     (let f3 = w_funct3 word in
      if f3 \<noteq> 0 then Inl (UnknownFunct3 op f3)
      else Inr (JALR (w_rd word) (w_rs1 word) (imm_i word)))"

definition decode_branch :: "u32 \<Rightarrow> u8 \<Rightarrow> decode_error + instruction" where
  "decode_branch word op =
     (let f3 = w_funct3 word; r1 = w_rs1 word; r2 = w_rs2 word; imm = imm_b word in
      if f3 = 0 then Inr (BEQ r1 r2 imm)
      else if f3 = 1 then Inr (BNE r1 r2 imm)
      else if f3 = 4 then Inr (BLT r1 r2 imm)
      else if f3 = 5 then Inr (BGE r1 r2 imm)
      else if f3 = 6 then Inr (BLTU r1 r2 imm)
      else if f3 = 7 then Inr (BGEU r1 r2 imm)
      else Inl (UnknownFunct3 op f3))"

definition decode_load :: "u32 \<Rightarrow> u8 \<Rightarrow> decode_error + instruction" where
  "decode_load word op =
     (let f3 = w_funct3 word; d = w_rd word; r1 = w_rs1 word; imm = imm_i word in
      if f3 = 0 then Inr (LB d r1 imm)
      else if f3 = 1 then Inr (LH d r1 imm)
      else if f3 = 2 then Inr (LW d r1 imm)
      else if f3 = 3 then Inr (LD d r1 imm)
      else if f3 = 4 then Inr (LBU d r1 imm)
      else if f3 = 5 then Inr (LHU d r1 imm)
      else if f3 = 6 then Inr (LWU d r1 imm)
      else Inl (UnknownFunct3 op f3))"

definition decode_store :: "u32 \<Rightarrow> u8 \<Rightarrow> decode_error + instruction" where
  "decode_store word op =
     (let f3 = w_funct3 word; r1 = w_rs1 word; r2 = w_rs2 word; imm = imm_s word in
      if f3 = 0 then Inr (SB r1 r2 imm)
      else if f3 = 1 then Inr (SH r1 r2 imm)
      else if f3 = 2 then Inr (SW r1 r2 imm)
      else if f3 = 3 then Inr (SD r1 r2 imm)
      else Inl (UnknownFunct3 op f3))"

definition decode_op_imm :: "u32 \<Rightarrow> u8 \<Rightarrow> decode_error + instruction" where
  "decode_op_imm word op =
     (let f3 = w_funct3 word; d = w_rd word; r1 = w_rs1 word in
      if f3 = 0 then Inr (ADDI d r1 (imm_i word))
      else if f3 = 2 then Inr (SLTI d r1 (imm_i word))
      else if f3 = 3 then Inr (SLTIU d r1 (imm_i word))
      else if f3 = 4 then Inr (XORI d r1 (imm_i word))
      else if f3 = 6 then Inr (ORI d r1 (imm_i word))
      else if f3 = 7 then Inr (ANDI d r1 (imm_i word))
      else if f3 = 1 then Inr (SLLI d r1 (imm_i word AND 0x3F))
      else if f3 = 5 then
        (let shamt = imm_i word AND 0x3F in
         if word AND push_bit 30 1 \<noteq> 0 then Inr (SRAI d r1 shamt) else Inr (SRLI d r1 shamt))
      else Inl (UnknownFunct3 op f3))"

definition decode_r_type :: "u32 \<Rightarrow> u8 \<Rightarrow> decode_error + instruction" where
  "decode_r_type word op =
     (let f3 = w_funct3 word; f7 = w_funct7 word; d = w_rd word; r1 = w_rs1 word; r2 = w_rs2 word in
      if f7 = 0x00 then
        (if f3 = 0 then Inr (ADD d r1 r2)
         else if f3 = 1 then Inr (SLL d r1 r2)
         else if f3 = 2 then Inr (SLT d r1 r2)
         else if f3 = 3 then Inr (SLTU d r1 r2)
         else if f3 = 4 then Inr (XOR_rr d r1 r2)
         else if f3 = 5 then Inr (SRL d r1 r2)
         else if f3 = 6 then Inr (OR_rr d r1 r2)
         else if f3 = 7 then Inr (AND_rr d r1 r2)
         else Inl (UnknownFunct3 op f3))
      else if f7 = 0x20 then
        (if f3 = 0 then Inr (SUB d r1 r2)
         else if f3 = 5 then Inr (SRA d r1 r2)
         else Inl (UnknownFunct7 op f3 f7))
      else if f7 = 0x01 then
        (if f3 = 0 then Inr (MUL d r1 r2)
         else if f3 = 1 then Inr (MULH d r1 r2)
         else if f3 = 2 then Inr (MULHSU d r1 r2)
         else if f3 = 3 then Inr (MULHU d r1 r2)
         else if f3 = 4 then Inr (DIV d r1 r2)
         else if f3 = 5 then Inr (DIVU d r1 r2)
         else if f3 = 6 then Inr (REM d r1 r2)
         else if f3 = 7 then Inr (REMU d r1 r2)
         else Inl (UnknownFunct3 op f3))
      else Inl (UnknownFunct7 op f3 f7))"

definition decode_op_imm_32 :: "u32 \<Rightarrow> u8 \<Rightarrow> decode_error + instruction" where
  "decode_op_imm_32 word op =
     (let f3 = w_funct3 word; d = w_rd word; r1 = w_rs1 word in
      if f3 = 0 then Inr (ADDIW d r1 (imm_i word))
      else if f3 = 1 then Inr (SLLIW d r1 (imm_i word AND 0x1F))
      else if f3 = 5 then
        (let shamt = imm_i word AND 0x1F in
         if word AND push_bit 30 1 \<noteq> 0 then Inr (SRAIW d r1 shamt) else Inr (SRLIW d r1 shamt))
      else Inl (UnknownFunct3 op f3))"

definition decode_r32_type :: "u32 \<Rightarrow> u8 \<Rightarrow> decode_error + instruction" where
  "decode_r32_type word op =
     (let f3 = w_funct3 word; f7 = w_funct7 word; d = w_rd word; r1 = w_rs1 word; r2 = w_rs2 word in
      if f7 = 0x00 then
        (if f3 = 0 then Inr (ADDW d r1 r2)
         else if f3 = 1 then Inr (SLLW d r1 r2)
         else if f3 = 5 then Inr (SRLW d r1 r2)
         else Inl (UnknownFunct3 op f3))
      else if f7 = 0x20 then
        (if f3 = 0 then Inr (SUBW d r1 r2)
         else if f3 = 5 then Inr (SRAW d r1 r2)
         else Inl (UnknownFunct7 op f3 f7))
      else if f7 = 0x01 then
        (if f3 = 0 then Inr (MULW d r1 r2)
         else if f3 = 4 then Inr (DIVW d r1 r2)
         else if f3 = 5 then Inr (DIVUW d r1 r2)
         else if f3 = 6 then Inr (REMW d r1 r2)
         else if f3 = 7 then Inr (REMUW d r1 r2)
         else Inl (UnknownFunct3 op f3))
      else Inl (UnknownFunct7 op f3 f7))"

definition decode_fence :: "u32 \<Rightarrow> u8 \<Rightarrow> decode_error + instruction" where
  "decode_fence word op =
     (let f3 = w_funct3 word in
      if f3 = 0 then Inr (FENCE (ucast (drop_bit 24 word AND 0xF)) (ucast (drop_bit 20 word AND 0xF)))
      else if f3 = 1 then Inr FENCE_I
      else Inl (UnknownFunct3 op f3))"

definition decode_system :: "u32 \<Rightarrow> u8 \<Rightarrow> decode_error + instruction" where
  "decode_system word op =
     (let f3 = w_funct3 word; csr = ucast (drop_bit 20 word) AND 0xFFF in
      if f3 = 0 then
        (let f7 = w_funct7 word; r2 = w_rs2 word in
         if f7 = 0x00 \<and> r2 = 0 then Inr ECALL
         else if f7 = 0x00 \<and> r2 = 1 then Inr EBREAK
         else if f7 = 0x18 \<and> r2 = 2 then Inr MRET
         else if f7 = 0x08 \<and> r2 = 2 then Inr SRET
         else if f7 = 0x08 \<and> r2 = 5 then Inr WFI
         else if f7 = 0x09 then Inr (SFENCE_VMA (w_rs1 word) r2)
         else Inl (UnknownFunct7 op f3 f7))
      else if f3 = 1 then Inr (CSRRW (w_rd word) (w_rs1 word) csr)
      else if f3 = 2 then Inr (CSRRS (w_rd word) (w_rs1 word) csr)
      else if f3 = 3 then Inr (CSRRC (w_rd word) (w_rs1 word) csr)
      else if f3 = 5 then Inr (CSRRWI (w_rd word) (w_rs1 word) csr)
      else if f3 = 6 then Inr (CSRRSI (w_rd word) (w_rs1 word) csr)
      else if f3 = 7 then Inr (CSRRCI (w_rd word) (w_rs1 word) csr)
      else Inl (UnknownFunct3 op f3))"

text \<open>
  The \<^verbatim>\<open>.W\<close> and \<^verbatim>\<open>.D\<close> arms of \<^verbatim>\<open>decode_amo\<close> list the same eleven \<^verbatim>\<open>funct5\<close> codes; \<open>amo_insn\<close> is one such
  list, with the width as its argument.
\<close>

definition amo_insn ::
  "amo_width \<Rightarrow> u32 \<Rightarrow> u8 \<Rightarrow> u8 \<Rightarrow> u8 \<Rightarrow> bool \<Rightarrow> bool \<Rightarrow> u8 \<Rightarrow> u8 \<Rightarrow> decode_error + instruction" where
  "amo_insn wd funct5 d r1 r2 aq rl op f3 =
     (if funct5 = 0x02 then Inr (Lr wd d r1 aq rl)
      else if funct5 = 0x03 then Inr (Sc wd d r1 r2 aq rl)
      else if funct5 = 0x01 then Inr (Amo AmoSwap wd d r1 r2 aq rl)
      else if funct5 = 0x00 then Inr (Amo AmoAdd wd d r1 r2 aq rl)
      else if funct5 = 0x0C then Inr (Amo AmoAnd wd d r1 r2 aq rl)
      else if funct5 = 0x08 then Inr (Amo AmoOr wd d r1 r2 aq rl)
      else if funct5 = 0x04 then Inr (Amo AmoXor wd d r1 r2 aq rl)
      else if funct5 = 0x14 then Inr (Amo AmoMax wd d r1 r2 aq rl)
      else if funct5 = 0x10 then Inr (Amo AmoMin wd d r1 r2 aq rl)
      else if funct5 = 0x1C then Inr (Amo AmoMaxu wd d r1 r2 aq rl)
      else if funct5 = 0x18 then Inr (Amo AmoMinu wd d r1 r2 aq rl)
      else Inl (UnknownFunct7 op f3 (push_bit 2 (ucast funct5))))"

definition decode_amo :: "u32 \<Rightarrow> u8 \<Rightarrow> decode_error + instruction" where
  "decode_amo word op =
     (let f3 = w_funct3 word; d = w_rd word; r1 = w_rs1 word; r2 = w_rs2 word;
          funct5 = drop_bit 27 word AND 0x1F;
          aq = (drop_bit 26 word AND 1 \<noteq> 0);
          rl = (drop_bit 25 word AND 1 \<noteq> 0) in
      if f3 = 2 then amo_insn W32 funct5 d r1 r2 aq rl op f3
      else if f3 = 3 then amo_insn D64 funct5 d r1 r2 aq rl op f3
      else Inl (UnknownFunct3 op f3))"

definition decode :: "u32 \<Rightarrow> decode_error + instruction" where
  "decode word =
     (let op = w_opcode word in
      if op = 0x37 then Inr (LUI (w_rd word) (imm_u word))
      else if op = 0x17 then Inr (AUIPC (w_rd word) (imm_u word))
      else if op = 0x6F then Inr (JAL (w_rd word) (imm_j word))
      else if op = 0x67 then decode_jalr word op
      else if op = 0x63 then decode_branch word op
      else if op = 0x03 then decode_load word op
      else if op = 0x23 then decode_store word op
      else if op = 0x13 then decode_op_imm word op
      else if op = 0x33 then decode_r_type word op
      else if op = 0x1B then decode_op_imm_32 word op
      else if op = 0x3B then decode_r32_type word op
      else if op = 0x0F then decode_fence word op
      else if op = 0x73 then decode_system word op
      else if op = 0x2F then decode_amo word op
      else Inl (UnknownOpcode op))"

section \<open>The compressed decoder\<close>

definition creg :: "u16 \<Rightarrow> u8" where
  "creg bits = (ucast bits AND 0x7) + 8"

definition c_sign_extend :: "u16 \<Rightarrow> nat \<Rightarrow> i32" where
  "c_sign_extend val bits = (let shift = 32 - bits in signed_drop_bit shift (push_bit shift (ucast val)))"

text \<open>Bits \<open>[k + n - 1:k]\<close> of a halfword moved to position \<open>p\<close>: \<^verbatim>\<open>((half >> k) & (2^n - 1)) << p\<close>.\<close>

abbreviation cbits :: "u16 \<Rightarrow> nat \<Rightarrow> u16 \<Rightarrow> nat \<Rightarrow> u16" where
  "cbits half k m p \<equiv> push_bit p (drop_bit k half AND m)"

definition decode_c_q0 :: "u16 \<Rightarrow> u8 \<Rightarrow> decode_error + instruction" where
  "decode_c_q0 half funct3 =
     (if funct3 = 0 then
        (let rd = creg (drop_bit 2 half AND 0x7);
             nzuimm = cbits half 6 1 2 OR cbits half 5 1 3 OR cbits half 11 0x3 4 OR cbits half 7 0xF 6
         in if nzuimm = 0 then Inl (IllegalCompressed half) else Inr (ADDI rd 2 (ucast nzuimm)))
      else if funct3 = 2 then
        (let rd = creg (drop_bit 2 half AND 0x7); rs1 = creg (drop_bit 7 half AND 0x7);
             off = cbits half 6 1 2 OR cbits half 10 0x7 3 OR cbits half 5 1 6
         in Inr (LW rd rs1 (ucast off)))
      else if funct3 = 3 then
        (let rd = creg (drop_bit 2 half AND 0x7); rs1 = creg (drop_bit 7 half AND 0x7);
             off = cbits half 10 0x7 3 OR cbits half 5 0x3 6
         in Inr (LD rd rs1 (ucast off)))
      else if funct3 = 6 then
        (let rs2 = creg (drop_bit 2 half AND 0x7); rs1 = creg (drop_bit 7 half AND 0x7);
             off = cbits half 6 1 2 OR cbits half 10 0x7 3 OR cbits half 5 1 6
         in Inr (SW rs1 rs2 (ucast off)))
      else if funct3 = 7 then
        (let rs2 = creg (drop_bit 2 half AND 0x7); rs1 = creg (drop_bit 7 half AND 0x7);
             off = cbits half 10 0x7 3 OR cbits half 5 0x3 6
         in Inr (SD rs1 rs2 (ucast off)))
      else Inl (IllegalCompressed half))"

text \<open>The arithmetic arm of quadrant 1 (\<^verbatim>\<open>0b100\<close>); \<^verbatim>\<open>funct2\<close> has two bits, so the last case is \<^verbatim>\<open>0b11\<close>.\<close>

definition decode_c_arith :: "u16 \<Rightarrow> decode_error + instruction" where
  "decode_c_arith half =
     (let funct2 = drop_bit 10 half AND 0x3; rd = creg (drop_bit 7 half AND 0x7) in
      if funct2 = 0 then
        Inr (SRLI rd rd (ucast ((drop_bit 2 half AND 0x1F) OR cbits half 12 1 5)))
      else if funct2 = 1 then
        Inr (SRAI rd rd (ucast ((drop_bit 2 half AND 0x1F) OR cbits half 12 1 5)))
      else if funct2 = 2 then
        Inr (ANDI rd rd (c_sign_extend ((drop_bit 2 half AND 0x1F) OR cbits half 12 1 5) 6))
      else
        (let rs2 = creg (drop_bit 2 half AND 0x7);
             funct1 = drop_bit 12 half AND 1;
             funct2b = drop_bit 5 half AND 0x3 in
         if funct1 = 0 \<and> funct2b = 0 then Inr (SUB rd rd rs2)
         else if funct1 = 0 \<and> funct2b = 1 then Inr (XOR_rr rd rd rs2)
         else if funct1 = 0 \<and> funct2b = 2 then Inr (OR_rr rd rd rs2)
         else if funct1 = 0 \<and> funct2b = 3 then Inr (AND_rr rd rd rs2)
         else if funct1 = 1 \<and> funct2b = 0 then Inr (SUBW rd rd rs2)
         else if funct1 = 1 \<and> funct2b = 1 then Inr (ADDW rd rd rs2)
         else Inl (IllegalCompressed half)))"

definition decode_c_q1 :: "u16 \<Rightarrow> u8 \<Rightarrow> decode_error + instruction" where
  "decode_c_q1 half funct3 =
     (let rd = ucast (drop_bit 7 half AND 0x1F);
          imm6 = c_sign_extend ((drop_bit 2 half AND 0x1F) OR cbits half 12 1 5) 6 in
      if funct3 = 0 then Inr (ADDI rd rd imm6)
      else if funct3 = 1 then Inr (ADDIW rd rd imm6)
      else if funct3 = 2 then Inr (ADDI rd 0 imm6)
      else if funct3 = 3 then
        (if rd = 2 then
           (let nzimm = c_sign_extend
                  (cbits half 6 1 4 OR cbits half 2 1 5 OR cbits half 5 1 6 OR cbits half 3 0x3 7
                     OR cbits half 12 1 9) 10
            in if nzimm = 0 then Inl (IllegalCompressed half) else Inr (ADDI 2 2 nzimm))
         else if imm6 = 0 then Inl (IllegalCompressed half)
         else Inr (LUI rd (push_bit 12 imm6)))
      else if funct3 = 4 then decode_c_arith half
      else if funct3 = 5 then
        (let off = cbits half 3 0x7 1 OR cbits half 11 1 4 OR cbits half 2 1 5 OR cbits half 7 1 6
               OR cbits half 6 1 7 OR cbits half 9 0x3 8 OR cbits half 8 1 10 OR cbits half 12 1 11
         in Inr (JAL 0 (c_sign_extend off 12)))
      else
        (let rs1 = creg (drop_bit 7 half AND 0x7);
             off = c_sign_extend
               (cbits half 3 0x3 1 OR cbits half 10 0x3 3 OR cbits half 2 1 5 OR cbits half 5 0x3 6
                  OR cbits half 12 1 8) 9
         in if funct3 = 6 then Inr (BEQ rs1 0 off)
            else if funct3 = 7 then Inr (BNE rs1 0 off)
            else Inl (IllegalCompressed half)))"

definition decode_c_q2 :: "u16 \<Rightarrow> u8 \<Rightarrow> decode_error + instruction" where
  "decode_c_q2 half funct3 =
     (let rd = ucast (drop_bit 7 half AND 0x1F); rs2 = ucast (drop_bit 2 half AND 0x1F) in
      if funct3 = 0 then
        Inr (SLLI rd rd (ucast ((drop_bit 2 half AND 0x1F) OR cbits half 12 1 5)))
      else if funct3 = 2 then
        (let off = cbits half 4 0x7 2 OR cbits half 12 1 5 OR cbits half 2 0x3 6
         in Inr (LW rd 2 (ucast off)))
      else if funct3 = 3 then
        (let off = cbits half 5 0x3 3 OR cbits half 12 1 5 OR cbits half 2 0x7 6
         in Inr (LD rd 2 (ucast off)))
      else if funct3 = 4 then
        (let bit12 = drop_bit 12 half AND 1 in
         if bit12 = 0 \<and> rs2 = 0 \<and> rd \<noteq> 0 then Inr (JALR 0 rd 0)
         else if bit12 = 0 \<and> rs2 \<noteq> 0 then Inr (ADD rd 0 rs2)
         else if bit12 = 1 \<and> rd = 0 \<and> rs2 = 0 then Inr EBREAK
         else if bit12 = 1 \<and> rs2 = 0 \<and> rd \<noteq> 0 then Inr (JALR 1 rd 0)
         else if bit12 = 1 \<and> rs2 \<noteq> 0 then Inr (ADD rd rd rs2)
         else Inl (IllegalCompressed half))
      else if funct3 = 6 then
        (let off = cbits half 9 0xF 2 OR cbits half 7 0x3 6
         in Inr (SW 2 rs2 (ucast off)))
      else if funct3 = 7 then
        (let off = cbits half 10 0x7 3 OR cbits half 7 0x7 6
         in Inr (SD 2 rs2 (ucast off)))
      else Inl (IllegalCompressed half))"

definition decode_compressed :: "u16 \<Rightarrow> decode_error + instruction" where
  "decode_compressed half =
     (let quadrant = half AND 0x3; funct3 = ucast (drop_bit 13 half AND 0x7) in
      if quadrant = 0 then decode_c_q0 half funct3
      else if quadrant = 1 then decode_c_q1 half funct3
      else if quadrant = 2 then decode_c_q2 half funct3
      else Inl (IllegalCompressed half))"

section \<open>Variable-length fetch\<close>

record fetched_instruction =
  fi_instruction :: instruction
  fi_len :: u8

definition fetch_decode :: "memory \<Rightarrow> u64 \<Rightarrow> decode_error + fetched_instruction" where
  "fetch_decode mem' pc' =
     (let lo = load_half mem' pc' in
      if lo AND 0x3 \<noteq> 0x3 then
        (case decode_compressed lo of
           Inl e \<Rightarrow> Inl e
         | Inr insn \<Rightarrow> Inr \<lparr>fi_instruction = insn, fi_len = 2\<rparr>)
      else
        (case decode (load_word mem' pc') of
           Inl e \<Rightarrow> Inl e
         | Inr insn \<Rightarrow> Inr \<lparr>fi_instruction = insn, fi_len = 4\<rparr>))"

section \<open>Bounds on decoded fields\<close>

named_theorems field_bounds

lemma ucast_and_less:
  fixes x :: "'a::len word"
  assumes "unat m < 2 ^ LENGTH('b)" and "unat m < unat k"
  shows "(ucast (x AND m) :: 'b::len word) < k"
proof -
  have "unat (x AND m) \<le> unat m"
    using word_and_le1 [of x m] by (simp add: word_le_nat_alt)
  with assms show ?thesis
    by (simp add: word_less_nat_alt unsigned_ucast_eq take_bit_eq_mod)
qed

lemma word_fields_bounded [field_bounds]:
  "w_rd w < 32" "w_rs1 w < 32" "w_rs2 w < 32"
  by (simp_all add: w_rd_def w_rs1_def w_rs2_def ucast_and_less)

lemma half_fields_bounded [field_bounds]:
  "(ucast (drop_bit 7 h AND 0x1F) :: u8) < 32" "(ucast (drop_bit 2 h AND 0x1F) :: u8) < 32"
  for h :: u16
  by (simp_all add: ucast_and_less)

lemma creg_bounds [field_bounds]: "creg b < 32"
proof -
  have "unat ((ucast b :: u8) AND 7) \<le> unat (7 :: u8)"
    using word_and_le1 [of "ucast b" "7 :: u8"] by (simp only: word_le_nat_alt)
  then show ?thesis by (simp add: creg_def word_less_nat_alt unat_word_ariths)
qed

lemma csr_field_bounded [field_bounds]: "(ucast (drop_bit 20 w) AND 0xFFF :: u16) < 0x1000" for w :: u32
  using word_and_le1 [of "ucast (drop_bit 20 w)" "0xFFF :: u16"] by (rule order_le_less_trans) simp

text \<open>What the rest of the machine relies on in a decoded instruction.\<close>

definition insn_ok :: "instruction \<Rightarrow> bool" where
  "insn_ok i \<longleftrightarrow> regs_ok i \<and> pred_option (\<lambda>c. c < 0x1000) (insn_csr i)"

text \<open>The same as a predicate on decoder results, so that it distributes over the decoders' tests.\<close>

definition dec_ok :: "decode_error + instruction \<Rightarrow> bool" where
  "dec_ok r = (case r of Inl _ \<Rightarrow> True | Inr i \<Rightarrow> insn_ok i)"

lemma dec_ok_simps [simp]:
  "dec_ok (Inl e)" "dec_ok (Inr i) = insn_ok i"
  "dec_ok (if b then r else r') = (if b then dec_ok r else dec_ok r')"
  by (simp_all add: dec_ok_def)

lemmas insn_ok_simps = insn_ok_def regs_ok_def insn_rs2_def insn_csr_def field_bounds

lemma decode_parts_ok [simp]:
  "dec_ok (decode_jalr w op)" "dec_ok (decode_branch w op)" "dec_ok (decode_load w op)"
  "dec_ok (decode_store w op)" "dec_ok (decode_op_imm w op)" "dec_ok (decode_op_imm_32 w op)"
  "dec_ok (decode_fence w op)" "dec_ok (decode_system w op)"
  by (simp_all add: decode_jalr_def decode_branch_def decode_load_def decode_store_def
      decode_op_imm_def decode_op_imm_32_def decode_fence_def decode_system_def Let_def insn_ok_simps)

lemma decode_r_parts_ok [simp]:
  "dec_ok (decode_r_type w op)" "dec_ok (decode_r32_type w op)" "dec_ok (decode_amo w op)"
  by (simp_all add: decode_r_type_def decode_r32_type_def decode_amo_def amo_insn_def Let_def
      insn_ok_simps)

lemma decode_u_parts_ok [simp]:
  "insn_ok (LUI (w_rd w) imm)" "insn_ok (AUIPC (w_rd w) imm)" "insn_ok (JAL (w_rd w) imm)"
  by (simp_all add: insn_ok_simps)

lemma decode_ok: "dec_ok (decode w)"
  by (simp only: decode_def Let_def dec_ok_simps decode_parts_ok decode_r_parts_ok
      decode_u_parts_ok if_True if_cancel)

lemma insn_ok_c:
  "insn_ok (Load lop rd rs1 imm) \<longleftrightarrow> rd < 32 \<and> rs1 < 32"
  "insn_ok (Store sop rs1 rs2 imm) \<longleftrightarrow> rs1 < 32 \<and> rs2 < 32"
  "insn_ok (Branch bop rs1 rs2 imm) \<longleftrightarrow> rs1 < 32 \<and> rs2 < 32"
  "insn_ok (OpImm iop rd rs1 imm) \<longleftrightarrow> rd < 32 \<and> rs1 < 32"
  "insn_ok (OpImmW iwop rd rs1 imm) \<longleftrightarrow> rd < 32 \<and> rs1 < 32"
  "insn_ok (OpReg rop rd rs1 rs2) \<longleftrightarrow> rd < 32 \<and> rs1 < 32 \<and> rs2 < 32"
  "insn_ok (OpRegW rwop rd rs1 rs2) \<longleftrightarrow> rd < 32 \<and> rs1 < 32 \<and> rs2 < 32"
  "insn_ok (LUI rd imm) \<longleftrightarrow> rd < 32"
  "insn_ok (JAL rd imm) \<longleftrightarrow> rd < 32"
  "insn_ok (JALR rd rs1 imm) \<longleftrightarrow> rd < 32 \<and> rs1 < 32"
  "insn_ok EBREAK"
  by (auto simp: insn_ok_simps)

lemma small_regs: "(0 :: u8) < 32" "(1 :: u8) < 32" "(2 :: u8) < 32"
  by simp_all

lemmas c_ok_simps = Let_def dec_ok_simps insn_ok_c field_bounds small_regs if_cancel simp_thms

lemma decode_c_parts_ok:
  "dec_ok (decode_c_q0 h f)" "dec_ok (decode_c_arith h)" "dec_ok (decode_c_q2 h f)"
  by (simp_all only: decode_c_q0_def decode_c_arith_def decode_c_q2_def c_ok_simps)

lemma decode_c_q1_ok: "dec_ok (decode_c_q1 h f)"
  by (simp only: decode_c_q1_def decode_c_parts_ok c_ok_simps)

lemma decode_compressed_ok: "dec_ok (decode_compressed h)"
  by (simp only: decode_compressed_def decode_c_parts_ok decode_c_q1_ok c_ok_simps)

lemma fetch_decode_ok:
  assumes "fetch_decode m a = Inr f"
  shows "insn_ok (fi_instruction f)" and "fi_len f = 2 \<or> fi_len f = 4"
  using assms decode_ok [of "load_word m a"] decode_compressed_ok [of "load_half m a"]
  by (auto simp: fetch_decode_def Let_def split: if_splits sum.splits)

end
