(* ===== verification/Rv_Csr.thy ===== *)
theory Rv_Csr
  imports Rv_Prelude
begin

text \<open>
  The control and status register file of \<^verbatim>\<open>crates/riscv/src/csr.rs\<close>: privilege levels, the address and
  bit-field constants, the checked and unchecked accesses with their WARL rules and the supervisor
  views of the machine registers. An access with an address of 4096 or more indexes the register
  array out of bounds and panics.
\<close>

section \<open>Privilege levels\<close>

datatype privilege_mode = User | Supervisor | Machine

text \<open>The discriminants of \<^verbatim>\<open>PrivilegeMode\<close> (\<^verbatim>\<open>mode as u8\<close>, \<^verbatim>\<open>mode as u64\<close>).\<close>

fun priv_level :: "privilege_mode \<Rightarrow> nat" where
  "priv_level User = 0"
| "priv_level Supervisor = 1"
| "priv_level Machine = 3"

abbreviation priv_u64 :: "privilege_mode \<Rightarrow> u64" where
  "priv_u64 p \<equiv> of_nat (priv_level p)"

definition from_bits :: "u64 \<Rightarrow> privilege_mode" where
  "from_bits bits =
     (let b = bits AND 0x3 in
      if b = 0 then User else if b = 1 then Supervisor else if b = 3 then Machine else Machine)"

text \<open>\<^verbatim>\<open>PartialOrd\<close> and \<^verbatim>\<open>Ord\<close> are derived from the declaration order, which agrees with the discriminants.\<close>

instantiation privilege_mode :: linorder
begin

definition less_eq_privilege_mode :: "privilege_mode \<Rightarrow> privilege_mode \<Rightarrow> bool" where
  "p \<le> q \<longleftrightarrow> priv_level p \<le> priv_level q"

definition less_privilege_mode :: "privilege_mode \<Rightarrow> privilege_mode \<Rightarrow> bool" where
  "p < q \<longleftrightarrow> priv_level p < priv_level q"

instance
proof
  fix p q :: privilege_mode
  assume "p \<le> q" and "q \<le> p"
  then show "p = q" by (cases p; cases q) (auto simp: less_eq_privilege_mode_def)
qed (auto simp: less_eq_privilege_mode_def less_privilege_mode_def)

end

section \<open>Constants\<close>

text \<open>Addresses (\<^verbatim>\<open>csr::addr\<close>).\<close>

abbreviation A_MSTATUS :: u16 where "A_MSTATUS \<equiv> 0x300"
abbreviation A_MISA :: u16 where "A_MISA \<equiv> 0x301"
abbreviation A_MEDELEG :: u16 where "A_MEDELEG \<equiv> 0x302"
abbreviation A_MIDELEG :: u16 where "A_MIDELEG \<equiv> 0x303"
abbreviation A_MIE :: u16 where "A_MIE \<equiv> 0x304"
abbreviation A_MTVEC :: u16 where "A_MTVEC \<equiv> 0x305"
abbreviation A_MSCRATCH :: u16 where "A_MSCRATCH \<equiv> 0x340"
abbreviation A_MEPC :: u16 where "A_MEPC \<equiv> 0x341"
abbreviation A_MCAUSE :: u16 where "A_MCAUSE \<equiv> 0x342"
abbreviation A_MTVAL :: u16 where "A_MTVAL \<equiv> 0x343"
abbreviation A_MIP :: u16 where "A_MIP \<equiv> 0x344"
abbreviation A_MHARTID :: u16 where "A_MHARTID \<equiv> 0xF14"
abbreviation A_SSTATUS :: u16 where "A_SSTATUS \<equiv> 0x100"
abbreviation A_SIE :: u16 where "A_SIE \<equiv> 0x104"
abbreviation A_STVEC :: u16 where "A_STVEC \<equiv> 0x105"
abbreviation A_SSCRATCH :: u16 where "A_SSCRATCH \<equiv> 0x140"
abbreviation A_SEPC :: u16 where "A_SEPC \<equiv> 0x141"
abbreviation A_SCAUSE :: u16 where "A_SCAUSE \<equiv> 0x142"
abbreviation A_STVAL :: u16 where "A_STVAL \<equiv> 0x143"
abbreviation A_SIP :: u16 where "A_SIP \<equiv> 0x144"
abbreviation A_SATP :: u16 where "A_SATP \<equiv> 0x180"
abbreviation A_STIMECMP :: u16 where "A_STIMECMP \<equiv> 0x14D"
abbreviation A_CYCLE :: u16 where "A_CYCLE \<equiv> 0xC00"
abbreviation A_TIME :: u16 where "A_TIME \<equiv> 0xC01"
abbreviation A_INSTRET :: u16 where "A_INSTRET \<equiv> 0xC02"

text \<open>Fields of \<^verbatim>\<open>mstatus\<close> (\<^verbatim>\<open>csr::mstatus\<close>).\<close>

definition MS_SIE :: u64 where "MS_SIE = push_bit 1 1"
definition MS_MIE :: u64 where "MS_MIE = push_bit 3 1"
definition MS_SPIE :: u64 where "MS_SPIE = push_bit 5 1"
definition MS_MPIE :: u64 where "MS_MPIE = push_bit 7 1"
definition MS_SPP :: u64 where "MS_SPP = push_bit 8 1"
definition MS_MPP_MASK :: u64 where "MS_MPP_MASK = push_bit 11 0x3"
definition MS_MPRV :: u64 where "MS_MPRV = push_bit 17 1"
definition MS_SUM :: u64 where "MS_SUM = push_bit 18 1"
definition MS_MXR :: u64 where "MS_MXR = push_bit 19 1"
definition MS_TVM :: u64 where "MS_TVM = push_bit 20 1"
definition MS_TW :: u64 where "MS_TW = push_bit 21 1"
definition MS_TSR :: u64 where "MS_TSR = push_bit 22 1"
definition MS_UXL_MASK :: u64 where "MS_UXL_MASK = push_bit 32 0x3"
definition MS_SXL_MASK :: u64 where "MS_SXL_MASK = push_bit 34 0x3"
definition MS_SD :: u64 where "MS_SD = push_bit 63 1"

definition MS_WRITE_MASK :: u64 where
  "MS_WRITE_MASK = MS_SIE OR MS_MIE OR MS_SPIE OR MS_MPIE OR MS_SPP OR MS_MPP_MASK
     OR MS_MPRV OR MS_SUM OR MS_MXR OR MS_TVM OR MS_TW OR MS_TSR OR MS_UXL_MASK OR MS_SXL_MASK"

definition SSTATUS_MASK :: u64 where
  "SSTATUS_MASK = MS_SIE OR MS_SPIE OR MS_SPP OR MS_SUM OR MS_MXR OR MS_UXL_MASK OR MS_SD"

text \<open>Interrupt bits (\<^verbatim>\<open>csr::interrupt\<close>).\<close>

definition IRQ_SSIP :: u64 where "IRQ_SSIP = push_bit 1 1"
definition IRQ_MSIP :: u64 where "IRQ_MSIP = push_bit 3 1"
definition IRQ_STIP :: u64 where "IRQ_STIP = push_bit 5 1"
definition IRQ_MTIP :: u64 where "IRQ_MTIP = push_bit 7 1"
definition IRQ_SEIP :: u64 where "IRQ_SEIP = push_bit 9 1"
definition IRQ_MEIP :: u64 where "IRQ_MEIP = push_bit 11 1"

definition S_MASK :: u64 where
  "S_MASK = IRQ_SSIP OR IRQ_STIP OR IRQ_SEIP"

lemmas csr_consts =
  MS_SIE_def MS_MIE_def MS_SPIE_def MS_MPIE_def MS_SPP_def MS_MPP_MASK_def MS_MPRV_def MS_SUM_def
  MS_MXR_def MS_TVM_def MS_TW_def MS_TSR_def MS_UXL_MASK_def MS_SXL_MASK_def MS_SD_def
  MS_WRITE_MASK_def SSTATUS_MASK_def IRQ_SSIP_def IRQ_MSIP_def IRQ_STIP_def IRQ_MTIP_def
  IRQ_SEIP_def IRQ_MEIP_def S_MASK_def

section \<open>The register file\<close>

datatype csr_error =
    InsufficientPrivilege u16 privilege_mode privilege_mode
  | ReadOnly u16
  | Unimplemented u16

text \<open>\<^verbatim>\<open>regs: [u64; 4096]\<close>; an index of 4096 or more panics.\<close>

record csr_file =
  csr_regs :: "u16 \<Rightarrow> u64"
  instret :: u64
  csr_mtime :: u64

definition csr_index :: "csr_file \<Rightarrow> u16 \<Rightarrow> u64 option" where
  "csr_index c a = (if a < 0x1000 then Some (csr_regs c a) else None)"

definition csr_set :: "csr_file \<Rightarrow> u16 \<Rightarrow> u64 \<Rightarrow> csr_file option" where
  "csr_set c a v = (if a < 0x1000 then Some (c\<lparr>csr_regs := (csr_regs c)(a := v)\<rparr>) else None)"

definition is_unimplemented_csr :: "u16 \<Rightarrow> bool" where
  "is_unimplemented_csr a \<longleftrightarrow>
     0x150 \<le> a \<and> a \<le> 0x157 \<or> 0x350 \<le> a \<and> a \<le> 0x357 \<or> a = 0xDB0 \<or> a = 0xFB0 \<or> a = 0xDA0 \<or>
     0x10C \<le> a \<and> a \<le> 0x10F \<or> 0x30C \<le> a \<and> a \<le> 0x30F \<or> 0x31C \<le> a \<and> a \<le> 0x31F"

text \<open>\<^verbatim>\<open>misa_bit(ch)\<close>, by the letter's position from \<^verbatim>\<open>'A'\<close>.\<close>

definition misa_bit :: "char \<Rightarrow> u64" where
  "misa_bit ch = push_bit (of_char ch - of_char (CHR ''A'')) 1"

definition csr_new :: csr_file where
  "csr_new =
     (let misa = push_bit 62 2 OR misa_bit (CHR ''I'') OR misa_bit (CHR ''M'') OR misa_bit (CHR ''A'')
            OR misa_bit (CHR ''C'') OR misa_bit (CHR ''S'') OR misa_bit (CHR ''U'');
          uxl_sxl = push_bit 32 2 OR push_bit 34 2
      in \<lparr>csr_regs = (\<lambda>_. 0)(A_MISA := misa, A_MHARTID := 0, A_STIMECMP := - 1, A_MSTATUS := uxl_sxl),
          instret = 0, csr_mtime = 0\<rparr>)"

definition required_privilege :: "u16 \<Rightarrow> privilege_mode" where
  "required_privilege a =
     (let lvl = drop_bit 8 a AND 0x3 in
      if lvl = 0 then User else if lvl = 1 then Supervisor else Machine)"

definition read_unchecked :: "csr_file \<Rightarrow> u16 \<Rightarrow> u64 option" where
  "read_unchecked c a =
     (if a = A_SSTATUS then Some (csr_regs c A_MSTATUS AND SSTATUS_MASK)
      else if a = A_SIE then Some (csr_regs c A_MIE AND S_MASK)
      else if a = A_SIP then Some (csr_regs c A_MIP AND S_MASK)
      else if a = A_CYCLE \<or> a = A_INSTRET then Some (instret c)
      else if a = A_TIME then Some (csr_mtime c)
      else csr_index c a)"

definition write_unchecked :: "csr_file \<Rightarrow> u16 \<Rightarrow> u64 \<Rightarrow> csr_file option" where
  "write_unchecked c a val =
     (if a = A_MISA then Some c
      else if a = A_MSTATUS then
        csr_set c A_MSTATUS ((csr_regs c A_MSTATUS AND NOT MS_WRITE_MASK) OR (val AND MS_WRITE_MASK))
      else if a = A_SSTATUS then
        csr_set c A_MSTATUS ((csr_regs c A_MSTATUS AND NOT SSTATUS_MASK) OR (val AND SSTATUS_MASK))
      else if a = A_SIE then
        csr_set c A_MIE ((csr_regs c A_MIE AND NOT S_MASK) OR (val AND S_MASK))
      else if a = A_SIP then
        csr_set c A_MIP ((csr_regs c A_MIP AND NOT IRQ_SSIP) OR (val AND IRQ_SSIP))
      else if a = A_SATP then
        (let mode = drop_bit 60 val AND 0xF in
         if mode = 0 \<or> mode = 8 then csr_set c A_SATP val else csr_set c A_SATP 0)
      else csr_set c a val)"

definition csr_read :: "csr_file \<Rightarrow> u16 \<Rightarrow> privilege_mode \<Rightarrow> (csr_error + u64) option" where
  "csr_read c a p =
     (let required = required_privilege a in
      if priv_level p < priv_level required then Some (Inl (InsufficientPrivilege a required p))
      else if is_unimplemented_csr a then Some (Inl (Unimplemented a))
      else map_option Inr (read_unchecked c a))"

text \<open>A failed write leaves the file as it was; a successful one returns the new file.\<close>

definition csr_write :: "csr_file \<Rightarrow> u16 \<Rightarrow> u64 \<Rightarrow> privilege_mode \<Rightarrow> (csr_error + csr_file) option" where
  "csr_write c a val p =
     (let required = required_privilege a in
      if priv_level p < priv_level required then Some (Inl (InsufficientPrivilege a required p))
      else if drop_bit 10 a AND 0x3 = 0x3 then Some (Inl (ReadOnly a))
      else if is_unimplemented_csr a then Some (Inl (Unimplemented a))
      else map_option Inr (write_unchecked c a val))"

section \<open>Accesses at fixed addresses\<close>

lemma read_plain [rv_simps]:
  "a < 0x1000 \<Longrightarrow> a \<noteq> A_SSTATUS \<Longrightarrow> a \<noteq> A_SIE \<Longrightarrow> a \<noteq> A_SIP \<Longrightarrow> a \<noteq> A_CYCLE \<Longrightarrow> a \<noteq> A_INSTRET \<Longrightarrow>
     a \<noteq> A_TIME \<Longrightarrow> read_unchecked c a = Some (csr_regs c a)"
  by (simp add: read_unchecked_def csr_index_def)

lemma write_plain [rv_simps]:
  "a < 0x1000 \<Longrightarrow> a \<noteq> A_MISA \<Longrightarrow> a \<noteq> A_MSTATUS \<Longrightarrow> a \<noteq> A_SSTATUS \<Longrightarrow> a \<noteq> A_SIE \<Longrightarrow> a \<noteq> A_SIP \<Longrightarrow>
     a \<noteq> A_SATP \<Longrightarrow> write_unchecked c a v = Some (c\<lparr>csr_regs := (csr_regs c)(a := v)\<rparr>)"
  by (simp add: write_unchecked_def csr_set_def)

lemma write_mstatus [rv_simps]:
  "write_unchecked c A_MSTATUS v = Some (c\<lparr>csr_regs := (csr_regs c)
     (A_MSTATUS := masked MS_WRITE_MASK (csr_regs c A_MSTATUS) v)\<rparr>)"
  by (simp add: write_unchecked_def csr_set_def masked_def)

lemma read_unchecked_total: "a < 0x1000 \<Longrightarrow> \<exists>v. read_unchecked c a = Some v"
  by (simp add: read_unchecked_def csr_index_def)

lemma write_unchecked_total: "a < 0x1000 \<Longrightarrow> \<exists>c'. write_unchecked c a v = Some c'"
  by (simp add: write_unchecked_def csr_set_def Let_def)

lemma csr_read_total: "a < 0x1000 \<Longrightarrow> \<exists>r. csr_read c a p = Some r"
  using read_unchecked_total [of a c] by (auto simp: csr_read_def Let_def)

lemma csr_write_total: "a < 0x1000 \<Longrightarrow> \<exists>r. csr_write c a v p = Some r"
  using write_unchecked_total [of a c v] by (auto simp: csr_write_def Let_def)

section \<open>Bits of the fields\<close>

lemma bit_status_fields [bitwise]:
  "bit MS_SIE k \<longleftrightarrow> k = 1" "bit MS_MIE k \<longleftrightarrow> k = 3" "bit MS_SPIE k \<longleftrightarrow> k = 5"
  "bit MS_MPIE k \<longleftrightarrow> k = 7" "bit MS_SPP k \<longleftrightarrow> k = 8" "bit MS_MPRV k \<longleftrightarrow> k = 17"
  "bit MS_SUM k \<longleftrightarrow> k = 18" "bit MS_MXR k \<longleftrightarrow> k = 19" "bit MS_TVM k \<longleftrightarrow> k = 20"
  "bit MS_TW k \<longleftrightarrow> k = 21" "bit MS_TSR k \<longleftrightarrow> k = 22" "bit MS_SD k \<longleftrightarrow> k = 63"
  unfolding csr_consts bit_push_bit_one by simp_all

lemma bit_two_bits: "bit (push_bit n 3 :: u64) k \<longleftrightarrow> n \<le> k \<and> k < n + 2 \<and> k < 64"
proof -
  have three: "(3 :: u64) = mask 2" by (simp add: mask_eq_exp_minus_1)
  show ?thesis unfolding three bit_push_bit_iff bit_mask_iff by auto
qed

lemma bit_status_masks [bitwise]:
  "bit MS_MPP_MASK k \<longleftrightarrow> k = 11 \<or> k = 12"
  "bit MS_UXL_MASK k \<longleftrightarrow> k = 32 \<or> k = 33"
  "bit MS_SXL_MASK k \<longleftrightarrow> k = 34 \<or> k = 35"
  unfolding MS_MPP_MASK_def MS_UXL_MASK_def MS_SXL_MASK_def bit_two_bits by auto

lemma bit_write_mask [bitwise]:
  "bit MS_WRITE_MASK k \<longleftrightarrow> k \<in> {1, 3, 5, 7, 8, 11, 12, 17, 18, 19, 20, 21, 22, 32, 33, 34, 35}"
  unfolding MS_WRITE_MASK_def bit_or_iff bit_status_fields bit_status_masks by auto

lemma bit_sstatus_mask [bitwise]:
  "bit SSTATUS_MASK k \<longleftrightarrow> k \<in> {1, 5, 8, 18, 19, 32, 33, 63}"
  unfolding SSTATUS_MASK_def bit_or_iff bit_status_fields bit_status_masks by auto

lemma bit_irq_fields [bitwise]:
  "bit IRQ_SSIP k \<longleftrightarrow> k = 1" "bit IRQ_MSIP k \<longleftrightarrow> k = 3" "bit IRQ_STIP k \<longleftrightarrow> k = 5"
  "bit IRQ_MTIP k \<longleftrightarrow> k = 7" "bit IRQ_SEIP k \<longleftrightarrow> k = 9" "bit IRQ_MEIP k \<longleftrightarrow> k = 11"
  unfolding csr_consts bit_push_bit_one by simp_all

lemma bit_s_mask [bitwise]: "bit S_MASK k \<longleftrightarrow> k \<in> {1, 5, 9}"
  unfolding S_MASK_def bit_or_iff bit_irq_fields by auto

text \<open>A test of a status or interrupt flag is a test of its bit.\<close>

lemma flag_tests [bitwise]:
  "w AND MS_SIE = 0 \<longleftrightarrow> \<not> bit w 1" "w AND MS_MIE = 0 \<longleftrightarrow> \<not> bit w 3" "w AND MS_SPIE = 0 \<longleftrightarrow> \<not> bit w 5"
  "w AND MS_MPIE = 0 \<longleftrightarrow> \<not> bit w 7" "w AND MS_SPP = 0 \<longleftrightarrow> \<not> bit w 8"
  "w AND MS_TVM = 0 \<longleftrightarrow> \<not> bit w 20" "w AND MS_TW = 0 \<longleftrightarrow> \<not> bit w 21" "w AND MS_TSR = 0 \<longleftrightarrow> \<not> bit w 22"
  unfolding csr_consts and_push_bit_one by (rule refl)+

section \<open>The evolution of the register file\<close>

text \<open>
  The machine changes its register file only by unchecked writes outside the read-only range and by
  advancing the counters. Invariants of the file are invariants of these steps.
\<close>

definition csr_read_only :: "u16 \<Rightarrow> bool" where
  "csr_read_only a \<longleftrightarrow> drop_bit 10 a AND 0x3 = 0x3"

inductive csr_evolves :: "csr_file \<Rightarrow> csr_file \<Rightarrow> bool" where
  ev_refl: "csr_evolves c c"
| ev_write: "csr_evolves c c' \<Longrightarrow> \<not> csr_read_only a \<Longrightarrow> write_unchecked c' a v = Some c'' \<Longrightarrow> csr_evolves c c''"
| ev_instret: "csr_evolves c c' \<Longrightarrow> csr_evolves c (c'\<lparr>instret := i\<rparr>)"
| ev_mtime: "csr_evolves c c' \<Longrightarrow> csr_evolves c (c'\<lparr>csr_mtime := t\<rparr>)"

lemma csr_evolves_trans: "csr_evolves b c \<Longrightarrow> csr_evolves a b \<Longrightarrow> csr_evolves a c"
  by (induction rule: csr_evolves.induct) (auto intro: csr_evolves.intros)

lemma csr_write_evolves: "csr_write c a v p = Some (Inr c') \<Longrightarrow> csr_evolves c c'"
  by (auto simp: csr_write_def csr_read_only_def Let_def split: if_splits
      intro: csr_evolves.ev_write [OF csr_evolves.ev_refl])

text \<open>
  Well-formedness: \<^verbatim>\<open>misa\<close> is what \<open>csr_new\<close> set, the \<^verbatim>\<open>satp\<close> mode is Bare or Sv39, no bit of \<^verbatim>\<open>mstatus\<close>
  outside the writable fields is set, and the read-only registers have their reset values.
\<close>

definition csr_wf :: "csr_file \<Rightarrow> bool" where
  "csr_wf c \<longleftrightarrow>
     csr_regs c A_MISA = csr_regs csr_new A_MISA \<and>
     satp_mode (csr_regs c A_SATP) \<in> {0, 8} \<and>
     csr_regs c A_MSTATUS AND NOT (MS_WRITE_MASK OR MS_SD) = 0 \<and>
     (\<forall>a. csr_read_only a \<longrightarrow> csr_regs c a = csr_regs csr_new a)"

lemma csr_wf_new: "csr_wf csr_new"
  by (simp add: csr_wf_def csr_new_def satp_mode_def csr_consts)

lemma status_masks_within:
  "MS_WRITE_MASK AND NOT (MS_WRITE_MASK OR MS_SD) = 0" "SSTATUS_MASK AND NOT (MS_WRITE_MASK OR MS_SD) = 0"
  by (simp_all add: csr_consts)

lemma csr_wf_write:
  assumes "csr_wf c" and "\<not> csr_read_only a" and "write_unchecked c a v = Some c'"
  shows "csr_wf c'"
  using assms masked_within [OF _ status_masks_within(1), of "csr_regs c A_MSTATUS" v]
    masked_within [OF _ status_masks_within(2), of "csr_regs c A_MSTATUS" v]
  by (auto simp: csr_wf_def write_unchecked_def csr_set_def Let_def satp_mode_def masked_def
      csr_read_only_def split: if_splits)

lemma csr_wf_counters [simp]:
  "csr_wf (c\<lparr>instret := i\<rparr>) = csr_wf c" "csr_wf (c\<lparr>csr_mtime := t\<rparr>) = csr_wf c"
  by (simp_all add: csr_wf_def)

lemma csr_wf_evolves: "csr_evolves c c' \<Longrightarrow> csr_wf c \<Longrightarrow> csr_wf c'"
  by (induction rule: csr_evolves.induct) (auto intro: csr_wf_write)

section \<open>Properties\<close>

text \<open>The value a register takes when \<open>v\<close> is written to it: what a later read at the same address returns.\<close>

definition csr_warl :: "csr_file \<Rightarrow> u16 \<Rightarrow> u64 \<Rightarrow> u64" where
  "csr_warl c a v =
     (if a = A_MISA then csr_regs c A_MISA
      else if a = A_MSTATUS then masked MS_WRITE_MASK (csr_regs c A_MSTATUS) v
      else if a = A_SSTATUS then v AND SSTATUS_MASK
      else if a = A_SIE then v AND S_MASK
      else if a = A_SIP then masked IRQ_SSIP (csr_regs c A_MIP) v AND S_MASK
      else if a = A_SATP \<and> satp_mode v \<notin> {0, 8} then 0
      else v)"

text \<open>
  A checked CSR write is refused exactly when the privilege is too low, the address is in the
  read-only range or the register is not implemented; otherwise it succeeds and a read of the same
  register at the same privilege returns the legalised value.
\<close>

theorem csr_write_then_read:
  assumes "a < 0x1000"
  shows "if priv_level p < priv_level (required_privilege a) \<or> csr_read_only a \<or> is_unimplemented_csr a
    then \<exists>e. csr_write c a v p = Some (Inl e)
    else \<exists>c'. csr_write c a v p = Some (Inr c') \<and> csr_read c' a p = Some (Inr (csr_warl c a v))"
proof -
  have "\<exists>c'. write_unchecked c a v = Some c' \<and> read_unchecked c' a = Some (csr_warl c a v)"
    if "\<not> csr_read_only a"
  proof -
    have ne: "a \<noteq> A_CYCLE" "a \<noteq> A_INSTRET" "a \<noteq> A_TIME"
      using that by (auto simp: csr_read_only_def)
    show ?thesis
      using assms ne by (simp add: write_unchecked_def read_unchecked_def csr_set_def csr_index_def
          csr_warl_def satp_mode_def Let_def flip: masked_def)
  qed
  then show ?thesis
    by (auto simp: csr_write_def csr_read_def csr_read_only_def Let_def)
qed

theorem csr_write_then_read_witness:
  "\<exists>c'. csr_write csr_new A_SIE 0xFFF Supervisor = Some (Inr c') \<and>
     csr_read c' A_SIE Supervisor = Some (Inr 0x222)"
  using csr_write_then_read [of A_SIE Supervisor csr_new "0xFFF"]
  by (simp add: required_privilege_def csr_read_only_def is_unimplemented_csr_def csr_warl_def csr_consts)

text \<open>
  Privilege isolation: a CSR write in supervisor or user mode changes no machine-level register,
  and of \<^verbatim>\<open>mstatus\<close>, \<^verbatim>\<open>mie\<close> and \<^verbatim>\<open>mip\<close> only the bits visible through \<^verbatim>\<open>sstatus\<close>, \<^verbatim>\<open>sie\<close> and \<^verbatim>\<open>sip\<close>.
\<close>

theorem csr_supervisor_isolation:
  assumes "p \<noteq> Machine" and "csr_write c a v p = Some (Inr c')"
  shows "(required_privilege x = Machine \<and> x \<notin> {A_MSTATUS, A_MIE, A_MIP} \<longrightarrow> csr_regs c' x = csr_regs c x) \<and>
    csr_regs c' A_MSTATUS AND NOT SSTATUS_MASK = csr_regs c A_MSTATUS AND NOT SSTATUS_MASK \<and>
    csr_regs c' A_MIE AND NOT S_MASK = csr_regs c A_MIE AND NOT S_MASK \<and>
    csr_regs c' A_MIP AND NOT IRQ_SSIP = csr_regs c A_MIP AND NOT IRQ_SSIP"
proof -
  have lvl: "priv_level p < 3" using assms(1) by (cases p) simp_all
  then have a: "required_privilege a \<noteq> Machine" and w: "write_unchecked c a v = Some c'"
    using assms(2) by (auto simp: csr_write_def Let_def split: if_splits)
  have "a \<noteq> x" if "required_privilege x = Machine" using a that by auto
  moreover have "a \<noteq> A_MSTATUS" "a \<noteq> A_MIE" "a \<noteq> A_MIP" "a \<noteq> A_MISA"
    using a by (auto simp: required_privilege_def)
  moreover have "required_privilege A_SATP \<noteq> Machine" by (simp add: required_privilege_def)
  ultimately show ?thesis
    using w by (auto simp: write_unchecked_def csr_set_def Let_def simp flip: masked_def
        split: if_splits)
qed

theorem csr_supervisor_isolation_witness:
  "\<exists>c'. csr_write csr_new A_SSTATUS (- 1) Supervisor = Some (Inr c') \<and>
     csr_regs c' A_MSTATUS AND NOT SSTATUS_MASK = csr_regs csr_new A_MSTATUS AND NOT SSTATUS_MASK"
proof -
  obtain c' where w: "csr_write csr_new A_SSTATUS (- 1) Supervisor = Some (Inr c')"
    by (simp add: csr_write_def required_privilege_def is_unimplemented_csr_def write_unchecked_def csr_set_def)
  from csr_supervisor_isolation [OF _ w] w show ?thesis by auto
qed

text \<open>
  Every checked CSR write keeps the register file well-formed: \<^verbatim>\<open>misa\<close> and the read-only registers
  keep their reset values, \<^verbatim>\<open>satp\<close> holds a supported mode, and no reserved bit of \<^verbatim>\<open>mstatus\<close> is set.
\<close>

theorem csr_write_keeps_wf:
  assumes "csr_wf c" and "csr_write c a v p = Some (Inr c')"
  shows "csr_wf c'"
  using assms csr_wf_evolves csr_write_evolves by blast

theorem csr_write_keeps_wf_witness:
  "\<exists>c'. csr_write csr_new A_SATP (push_bit 60 9) Supervisor = Some (Inr c') \<and> csr_wf c'"
proof -
  obtain c' where w: "csr_write csr_new A_SATP (push_bit 60 9) Supervisor = Some (Inr c')"
    by (simp add: csr_write_def required_privilege_def is_unimplemented_csr_def write_unchecked_def csr_set_def)
  from csr_write_keeps_wf [OF csr_wf_new w] w show ?thesis by auto
qed

text \<open>
  The state-dirty bit 63 cannot be set by a machine-mode write to \<^verbatim>\<open>mstatus\<close>, but a supervisor write to
  \<^verbatim>\<open>sstatus\<close> sets it: the supervisor mask has a bit that the machine mask has not.
\<close>

lemma sstatus_write_sets_sd:
  "(\<exists>c'. csr_write csr_new A_MSTATUS MS_SD Machine = Some (Inr c') \<and> \<not> bit (csr_regs c' A_MSTATUS) 63) \<and>
   (\<exists>c'. csr_write csr_new A_SSTATUS MS_SD Supervisor = Some (Inr c') \<and> bit (csr_regs c' A_MSTATUS) 63)"
  by (simp add: csr_write_def required_privilege_def is_unimplemented_csr_def write_unchecked_def
      csr_set_def csr_consts csr_new_def)

end
