(* ===== verification/Rv_Cpu.thy ===== *)
theory Rv_Cpu
  imports Rv_Csr
begin

text \<open>
  The hart state of \<^verbatim>\<open>crates/riscv/src/cpu.rs\<close>: program counter, 32 general-purpose registers with \<^verbatim>\<open>x0\<close>
  hardwired to zero, privilege mode and CSR file. A register number of 32 or more is out of bounds of
  the register array and panics.
\<close>

record cpu_state =
  pc :: u64
  xregs :: "u8 \<Rightarrow> u64"
  priv_mode :: privilege_mode
  csrs :: csr_file

definition cpu_with_pc :: "u64 \<Rightarrow> cpu_state" where
  "cpu_with_pc a = \<lparr>pc = a, xregs = (\<lambda>_. 0), priv_mode = Machine, csrs = csr_new\<rparr>"

definition cpu_new :: cpu_state where
  "cpu_new = \<lparr>pc = 0, xregs = (\<lambda>_. 0), priv_mode = Machine, csrs = csr_new\<rparr>"

definition read_reg :: "cpu_state \<Rightarrow> u8 \<Rightarrow> u64 option" where
  "read_reg c r =
     (if r = 0 then Some 0
      else if r < 32 then Some (xregs c r) else None)"

definition write_reg :: "cpu_state \<Rightarrow> u8 \<Rightarrow> u64 \<Rightarrow> cpu_state option" where
  "write_reg c r val =
     (if r \<noteq> 0 then if r < 32 then Some (c\<lparr>xregs := (xregs c)(r := val)\<rparr>) else None
      else Some c)"

text \<open>The architectural value of a register: what \<open>read_reg\<close> returns for a valid register number.\<close>

definition reg_val :: "cpu_state \<Rightarrow> u8 \<Rightarrow> u64" where
  "reg_val c r = (if r = 0 then 0 else xregs c r)"

definition set_reg :: "cpu_state \<Rightarrow> u8 \<Rightarrow> u64 \<Rightarrow> cpu_state" where
  "set_reg c r v = (if r = 0 then c else c\<lparr>xregs := (xregs c)(r := v)\<rparr>)"

lemma read_reg_ok [rv_simps]: "r < 32 \<Longrightarrow> read_reg c r = Some (reg_val c r)"
  by (simp add: read_reg_def reg_val_def)

lemma write_reg_ok [rv_simps]: "r < 32 \<Longrightarrow> write_reg c r v = Some (set_reg c r v)"
  by (simp add: write_reg_def set_reg_def)

lemma read_reg_panics: "\<not> r < 32 \<Longrightarrow> read_reg c r = None"
  by (auto simp: read_reg_def)

lemma reg_val_set_reg [simp]:
  "reg_val (set_reg c r v) q = (if q = r \<and> r \<noteq> 0 then v else reg_val c q)"
  by (simp add: reg_val_def set_reg_def)

lemma set_reg_frame [simp]:
  "pc (set_reg c r v) = pc c" "priv_mode (set_reg c r v) = priv_mode c" "csrs (set_reg c r v) = csrs c"
  by (simp_all add: set_reg_def)

lemma reg_val_updates [simp]:
  "reg_val (c\<lparr>pc := a\<rparr>) r = reg_val c r" "reg_val (c\<lparr>priv_mode := p\<rparr>) r = reg_val c r"
  "reg_val (c\<lparr>csrs := f\<rparr>) r = reg_val c r"
  by (simp_all add: reg_val_def)

end
