(* ===== verification/Rv_Trap.thy ===== *)
theory Rv_Trap
  imports Rv_Cpu
begin

text \<open>
  Trap delivery of \<^verbatim>\<open>crates/riscv/src/trap.rs\<close>: cause codes and the one function that enters a trap
  handler, in supervisor mode when the cause is delegated and in machine mode otherwise.
\<close>

datatype exception_cause =
    InstructionAddressMisaligned
  | InstructionAccessFault
  | IllegalInstruction
  | Breakpoint
  | LoadAddressMisaligned
  | LoadAccessFault
  | StoreAddressMisaligned
  | StoreAccessFault
  | EnvironmentCallFromU
  | EnvironmentCallFromS
  | EnvironmentCallFromM
  | InstructionPageFault
  | LoadPageFault
  | StorePageFault

fun exception_code :: "exception_cause \<Rightarrow> nat" where
  "exception_code InstructionAddressMisaligned = 0"
| "exception_code InstructionAccessFault = 1"
| "exception_code IllegalInstruction = 2"
| "exception_code Breakpoint = 3"
| "exception_code LoadAddressMisaligned = 4"
| "exception_code LoadAccessFault = 5"
| "exception_code StoreAddressMisaligned = 6"
| "exception_code StoreAccessFault = 7"
| "exception_code EnvironmentCallFromU = 8"
| "exception_code EnvironmentCallFromS = 9"
| "exception_code EnvironmentCallFromM = 11"
| "exception_code InstructionPageFault = 12"
| "exception_code LoadPageFault = 13"
| "exception_code StorePageFault = 15"

datatype interrupt_cause =
    SupervisorSoftware
  | MachineSoftware
  | SupervisorTimer
  | MachineTimer
  | SupervisorExternal
  | MachineExternal

fun interrupt_code :: "interrupt_cause \<Rightarrow> nat" where
  "interrupt_code SupervisorSoftware = 1"
| "interrupt_code MachineSoftware = 3"
| "interrupt_code SupervisorTimer = 5"
| "interrupt_code MachineTimer = 7"
| "interrupt_code SupervisorExternal = 9"
| "interrupt_code MachineExternal = 11"

datatype trap_cause = Exception exception_cause | Interrupt interrupt_cause

fun is_interrupt :: "trap_cause \<Rightarrow> bool" where
  "is_interrupt (Exception _) = False"
| "is_interrupt (Interrupt _) = True"

fun cause_code :: "trap_cause \<Rightarrow> nat" where
  "cause_code (Exception e) = exception_code e"
| "cause_code (Interrupt i) = interrupt_code i"

fun to_cause_value :: "trap_cause \<Rightarrow> u64" where
  "to_cause_value (Exception e) = of_nat (exception_code e)"
| "to_cause_value (Interrupt i) = push_bit 63 1 OR of_nat (interrupt_code i)"

text \<open>The handler address: vectored only for interrupts under mode 1.\<close>

definition trap_target :: "u64 \<Rightarrow> trap_cause \<Rightarrow> u64" where
  "trap_target tvec cause =
     (let mode = tvec AND 0x3; base = tvec AND NOT 0x3 in
      if mode = 1 \<and> is_interrupt cause then base + of_nat (cause_code cause) * 4 else base)"

definition trap_delegated :: "cpu_state \<Rightarrow> trap_cause \<Rightarrow> bool option" where
  "trap_delegated cpu cause =
     (if priv_mode cpu \<noteq> Machine then do {
        deleg \<leftarrow> read_unchecked (csrs cpu) (if is_interrupt cause then A_MIDELEG else A_MEDELEG);
        Some (drop_bit (cause_code cause) deleg AND 1 \<noteq> 0)
      } else Some False)"

text \<open>The new \<^verbatim>\<open>mstatus\<close> of a trap into supervisor mode and into machine mode, taken at privilege \<open>p\<close>.\<close>

definition s_trap_status :: "privilege_mode \<Rightarrow> u64 \<Rightarrow> u64" where
  "s_trap_status p old_mstatus =
     (let old_sie = (old_mstatus AND MS_SIE \<noteq> 0);
          new_mstatus = (if old_sie then old_mstatus OR MS_SPIE else old_mstatus AND NOT MS_SPIE);
          new_mstatus = (if p = Supervisor then new_mstatus OR MS_SPP else new_mstatus AND NOT MS_SPP)
      in new_mstatus AND NOT MS_SIE)"

definition m_trap_status :: "privilege_mode \<Rightarrow> u64 \<Rightarrow> u64" where
  "m_trap_status p old_mstatus =
     (let old_mie = (old_mstatus AND MS_MIE \<noteq> 0);
          new_mstatus = (if old_mie then old_mstatus OR MS_MPIE else old_mstatus AND NOT MS_MPIE);
          new_mstatus = new_mstatus AND NOT MS_MPP_MASK;
          new_mstatus = new_mstatus OR push_bit 11 (priv_u64 p)
      in new_mstatus AND NOT MS_MIE)"

definition deliver_to_s :: "cpu_state \<Rightarrow> trap_cause \<Rightarrow> u64 \<Rightarrow> u64 \<Rightarrow> cpu_state option" where
  "deliver_to_s cpu cause tval epc = do {
     c \<leftarrow> write_unchecked (csrs cpu) A_SEPC epc;
     c \<leftarrow> write_unchecked c A_SCAUSE (to_cause_value cause);
     c \<leftarrow> write_unchecked c A_STVAL tval;
     old_mstatus \<leftarrow> read_unchecked c A_MSTATUS;
     c \<leftarrow> write_unchecked c A_MSTATUS (s_trap_status (priv_mode cpu) old_mstatus);
     stvec \<leftarrow> read_unchecked c A_STVEC;
     Some (cpu\<lparr>csrs := c, pc := trap_target stvec cause, priv_mode := Supervisor\<rparr>)
   }"

definition deliver_to_m :: "cpu_state \<Rightarrow> trap_cause \<Rightarrow> u64 \<Rightarrow> u64 \<Rightarrow> cpu_state option" where
  "deliver_to_m cpu cause tval epc = do {
     c \<leftarrow> write_unchecked (csrs cpu) A_MEPC epc;
     c \<leftarrow> write_unchecked c A_MCAUSE (to_cause_value cause);
     c \<leftarrow> write_unchecked c A_MTVAL tval;
     old_mstatus \<leftarrow> read_unchecked c A_MSTATUS;
     c \<leftarrow> write_unchecked c A_MSTATUS (m_trap_status (priv_mode cpu) old_mstatus);
     mtvec \<leftarrow> read_unchecked c A_MTVEC;
     Some (cpu\<lparr>csrs := c, pc := trap_target mtvec cause, priv_mode := Machine\<rparr>)
   }"

definition deliver_trap :: "cpu_state \<Rightarrow> trap_cause \<Rightarrow> u64 \<Rightarrow> u64 \<Rightarrow> cpu_state option" where
  "deliver_trap cpu cause tval epc = do {
     delegated \<leftarrow> trap_delegated cpu cause;
     if delegated then deliver_to_s cpu cause tval epc else deliver_to_m cpu cause tval epc
   }"

section \<open>The status word across a trap\<close>

lemma bit_priv_field [bitwise]:
  "bit (push_bit 11 (priv_u64 p)) k \<longleftrightarrow> (k = 11 \<and> p \<noteq> User) \<or> (k = 12 \<and> p = Machine)"
proof (cases p)
  case Supervisor
  then show ?thesis using bit_push_bit_one [of 11 k, where 'a = 64] by simp
next
  case Machine
  then show ?thesis using bit_two_bits [of 11 k] by auto
qed simp

lemma bit_s_trap_status [bitwise]:
  "bit (s_trap_status p ms) k \<longleftrightarrow>
     (if k = 1 then False else if k = 5 then bit ms 1 else if k = 8 then p = Supervisor else bit ms k)"
  using bit_imp_le_length [of ms k]
  by (auto simp: s_trap_status_def Let_def flag_tests bit_and_iff bit_or_iff bit_not_iff bit_status_fields)

lemma bit_m_trap_status [bitwise]:
  "bit (m_trap_status p ms) k \<longleftrightarrow>
     (if k = 3 then False else if k = 7 then bit ms 3 else if k = 11 then p \<noteq> User
      else if k = 12 then p = Machine else bit ms k)"
  using bit_imp_le_length [of ms k]
  by (auto simp: m_trap_status_def Let_def flag_tests bit_and_iff bit_or_iff bit_not_iff
      bit_status_fields bit_status_masks bit_priv_field)

text \<open>Both status words differ from the old one in writable bits only, so the write stores them as they are.\<close>

lemma trap_status_stored [rv_simps]:
  "masked MS_WRITE_MASK ms (s_trap_status p ms) = s_trap_status p ms"
  "masked MS_WRITE_MASK ms (m_trap_status p ms) = m_trap_status p ms"
  by (rule bit_eqI, simp add: bit_masked bit_write_mask bit_s_trap_status bit_m_trap_status)+

section \<open>The delivered state\<close>

lemma deliver_to_s_eq:
  "deliver_to_s cpu' cause tval epc =
     Some (cpu'\<lparr>csrs := (csrs cpu')\<lparr>csr_regs := (csr_regs (csrs cpu'))
        (A_SEPC := epc, A_SCAUSE := to_cause_value cause, A_STVAL := tval,
         A_MSTATUS := s_trap_status (priv_mode cpu') (csr_regs (csrs cpu') A_MSTATUS))\<rparr>,
       pc := trap_target (csr_regs (csrs cpu') A_STVEC) cause, priv_mode := Supervisor\<rparr>)"
  by (simp add: deliver_to_s_def rv_simps)

lemma deliver_to_m_eq:
  "deliver_to_m cpu' cause tval epc =
     Some (cpu'\<lparr>csrs := (csrs cpu')\<lparr>csr_regs := (csr_regs (csrs cpu'))
        (A_MEPC := epc, A_MCAUSE := to_cause_value cause, A_MTVAL := tval,
         A_MSTATUS := m_trap_status (priv_mode cpu') (csr_regs (csrs cpu') A_MSTATUS))\<rparr>,
       pc := trap_target (csr_regs (csrs cpu') A_MTVEC) cause, priv_mode := Machine\<rparr>)"
  by (simp add: deliver_to_m_def rv_simps)

text \<open>The delegation test as a total function.\<close>

definition delegates :: "cpu_state \<Rightarrow> trap_cause \<Rightarrow> bool" where
  "delegates c cause \<longleftrightarrow> priv_mode c \<noteq> Machine \<and>
     bit (csr_regs (csrs c) (if is_interrupt cause then A_MIDELEG else A_MEDELEG)) (cause_code cause)"

lemma trap_delegated_eq [rv_simps]: "trap_delegated c cause = Some (delegates c cause)"
  by (simp add: trap_delegated_def delegates_def rv_simps drop_bit_and_one)

lemma deliver_trap_eq:
  "deliver_trap c cause tval epc =
     (if delegates c cause then deliver_to_s c cause tval epc else deliver_to_m c cause tval epc)"
  by (simp add: deliver_trap_def trap_delegated_eq)

lemma deliver_trap_total: "\<exists>c'. deliver_trap c cause tval epc = Some c'"
  by (simp add: deliver_trap_eq deliver_to_s_eq deliver_to_m_eq)

lemma deliver_trap_regs: "deliver_trap c cause tval epc = Some c' \<Longrightarrow> xregs c' = xregs c"
  by (auto simp: deliver_trap_eq deliver_to_s_eq deliver_to_m_eq split: if_splits)

lemma deliver_trap_evolves:
  assumes "deliver_trap c cause tval epc = Some c'"
  shows "csr_evolves (csrs c) (csrs c')"
proof -
  have nro: "\<not> csr_read_only A_SEPC" "\<not> csr_read_only A_SCAUSE" "\<not> csr_read_only A_STVAL"
    "\<not> csr_read_only A_MEPC" "\<not> csr_read_only A_MCAUSE" "\<not> csr_read_only A_MTVAL"
    "\<not> csr_read_only A_MSTATUS"
    by (simp_all add: csr_read_only_def)
  from assms show ?thesis
    by (auto simp: deliver_trap_eq deliver_to_s_def deliver_to_m_def nro split: bind_splits if_splits
        intro!: csr_evolves.ev_refl elim!: csr_evolves.ev_write [rotated 2])
qed

section \<open>Handler addresses and cause values\<close>

lemma code_less: "cause_code cause < 16"
  by (cases cause; rename_tac x; case_tac x) simp_all

lemma trap_target_aligned: "trap_target tvec cause AND 3 = 0"
proof -
  have al: "w AND 3 = 0 \<longleftrightarrow> unat w mod 4 = 0" for w :: u64
    using unat_and_pow2_mask [of w 2] by (simp add: mask_eq_exp_minus_1 flip: unat_eq_zero)
  have b: "unat (tvec AND NOT 3) mod 4 = 0"
    unfolding al [symmetric] by (simp add: ac_simps)
  have "unat (of_nat (cause_code cause) * 4 :: u64) = cause_code cause * 4"
    using code_less [of cause] by (simp add: unat_word_ariths unat_of_nat)
  then have "unat ((tvec AND NOT 3) + of_nat (cause_code cause) * 4) mod 4 = 0"
    using b mod_mod_cancel [of 4 "2 ^ 64" "unat (tvec AND NOT 3) + cause_code cause * 4"]
    by (simp only: unat_word_ariths(1)) simp
  with b show ?thesis by (simp add: trap_target_def Let_def al)
qed

lemma cause_codes_inj:
  "exception_code e = exception_code e' \<Longrightarrow> e = e'" "interrupt_code i = interrupt_code i' \<Longrightarrow> i = i'"
  by (cases e; cases e'; simp) (cases i; cases i'; simp)

lemma vectored_distinct:
  "tvec AND 3 = 1 \<Longrightarrow> trap_target tvec (Interrupt i) = trap_target tvec (Interrupt j) \<Longrightarrow> i = j"
  by (cases i; cases j) (simp_all add: trap_target_def)

lemma to_cause_value_inj: "to_cause_value x = to_cause_value y \<Longrightarrow> x = y"
proof -
  have top: "bit (to_cause_value z) 63 \<longleftrightarrow> is_interrupt z" for z
    by (cases z; rename_tac a; case_tac a) (simp_all add: bit_or_iff)
  assume e: "to_cause_value x = to_cause_value y"
  then have "is_interrupt x = is_interrupt y" using top [of x] top [of y] by simp
  with e show "x = y"
    by (cases x; cases y; rename_tac a b; case_tac a; case_tac b) simp_all
qed

lemma m_trap_status_mpp: "from_bits (drop_bit 11 (m_trap_status p ms AND MS_MPP_MASK)) = p"
proof -
  have "drop_bit 11 (m_trap_status p ms AND MS_MPP_MASK) = drop_bit 11 (push_bit 11 (priv_u64 p))"
    by (rule bit_eqI)
      (auto simp: bit_drop_bit_eq bit_and_iff bit_m_trap_status bit_status_masks bit_priv_field
        simp del: of_nat_numeral drop_bit_and)
  then show ?thesis by (cases p) (simp_all add: from_bits_def)
qed

section \<open>Properties\<close>

text \<open>
  Trap delivery always succeeds and never lowers the privilege: a delegated cause is handled in
  supervisor mode and every other one in machine mode (in particular every trap taken in machine
  mode), with the return address, the cause and the trap value in that mode's registers, that mode's
  interrupts disabled, the old interrupt enable and privilege saved, and the general-purpose registers
  untouched.
\<close>

theorem deliver_trap_correct:
  "\<exists>c'. deliver_trap c cause tval epc = Some c' \<and> xregs c' = xregs c \<and> priv_mode c \<le> priv_mode c' \<and>
     (let old = csr_regs (csrs c); new = csr_regs (csrs c') in
      if delegates c cause then
        priv_mode c' = Supervisor \<and> new A_SEPC = epc \<and> new A_SCAUSE = to_cause_value cause \<and> new A_STVAL = tval \<and>
        \<not> bit (new A_MSTATUS) 1 \<and> bit (new A_MSTATUS) 5 = bit (old A_MSTATUS) 1 \<and>
        bit (new A_MSTATUS) 8 = (priv_mode c = Supervisor) \<and> pc c' = trap_target (old A_STVEC) cause
      else
        priv_mode c' = Machine \<and> new A_MEPC = epc \<and> new A_MCAUSE = to_cause_value cause \<and> new A_MTVAL = tval \<and>
        \<not> bit (new A_MSTATUS) 3 \<and> bit (new A_MSTATUS) 7 = bit (old A_MSTATUS) 3 \<and>
        from_bits (drop_bit 11 (new A_MSTATUS AND MS_MPP_MASK)) = priv_mode c \<and>
        pc c' = trap_target (old A_MTVEC) cause)"
  by (cases "priv_mode c")
    (simp_all add: deliver_trap_eq deliver_to_s_eq deliver_to_m_eq delegates_def bit_s_trap_status
      bit_m_trap_status m_trap_status_mpp [simplified] less_eq_privilege_mode_def)

text \<open>
  Handler addresses: every trap enters its handler at a 4-byte aligned address, exceptions enter at
  the base even in vectored mode, and in vectored mode different interrupts have different handlers.
  Different causes have different \<^verbatim>\<open>mcause\<close> values.
\<close>

theorem trap_vectoring:
  "trap_target tvec cause AND 3 = 0 \<and> trap_target tvec (Exception e) = tvec AND NOT 3 \<and>
   (tvec AND 3 = 1 \<and> trap_target tvec (Interrupt i) = trap_target tvec (Interrupt j) \<longrightarrow> i = j) \<and>
   (to_cause_value x = to_cause_value y \<longrightarrow> x = y)"
  using trap_target_aligned vectored_distinct to_cause_value_inj
  by (auto simp: trap_target_def Let_def)

theorem trap_vectoring_witness:
  "trap_target 0x1001 (Interrupt MachineTimer) \<noteq> trap_target 0x1001 (Interrupt SupervisorTimer)"
  using trap_vectoring [of "0x1001" _ _ MachineTimer SupervisorTimer] by auto

end
