(* ===== verification/Rv_Mmu.thy ===== *)
theory Rv_Mmu
  imports Rv_Memory
begin

text \<open>
  The Sv39 page-table walk of \<^verbatim>\<open>crates/riscv/src/mmu.rs\<close>: page-table entries, permission checks, the
  management of the accessed and dirty bits and the physical address of 4 KiB, 2 MiB and 1 GiB pages.
\<close>

datatype access_type = Execute | Read | Write

record page_fault =
  pf_access_type :: access_type
  pf_vaddr :: u64

fun access_fault_code :: "access_type \<Rightarrow> u64" where
  "access_fault_code Execute = 12"
| "access_fault_code Read = 13"
| "access_fault_code Write = 15"

definition page_fault_cause :: "page_fault \<Rightarrow> u64" where
  "page_fault_cause pf = access_fault_code (pf_access_type pf)"

section \<open>Page-table entries\<close>

type_synonym pte = u64

definition pte_valid :: "pte \<Rightarrow> bool" where "pte_valid p \<longleftrightarrow> p AND 1 \<noteq> 0"
definition pte_read :: "pte \<Rightarrow> bool" where "pte_read p \<longleftrightarrow> p AND push_bit 1 1 \<noteq> 0"
definition pte_write :: "pte \<Rightarrow> bool" where "pte_write p \<longleftrightarrow> p AND push_bit 2 1 \<noteq> 0"
definition pte_execute :: "pte \<Rightarrow> bool" where "pte_execute p \<longleftrightarrow> p AND push_bit 3 1 \<noteq> 0"
definition pte_user :: "pte \<Rightarrow> bool" where "pte_user p \<longleftrightarrow> p AND push_bit 4 1 \<noteq> 0"
definition pte_accessed :: "pte \<Rightarrow> bool" where "pte_accessed p \<longleftrightarrow> p AND push_bit 6 1 \<noteq> 0"
definition pte_dirty :: "pte \<Rightarrow> bool" where "pte_dirty p \<longleftrightarrow> p AND push_bit 7 1 \<noteq> 0"

definition pte_is_leaf :: "pte \<Rightarrow> bool" where
  "pte_is_leaf p \<longleftrightarrow> pte_read p \<or> pte_execute p"

definition pte_ppn :: "pte \<Rightarrow> u64" where
  "pte_ppn p = drop_bit 10 p AND 0xFFFFFFFFFFF"

definition pte_ppn_i :: "pte \<Rightarrow> nat \<Rightarrow> u64" where
  "pte_ppn_i p level =
     (if level = 0 then drop_bit 10 p AND 0x1FF
      else if level = 1 then drop_bit 19 p AND 0x1FF
      else if level = 2 then drop_bit 28 p AND 0x3FFFFFF
      else 0)"

section \<open>Translation\<close>

text \<open>A translation: the physical address, the update of the leaf entry if one is needed, the leaf's R, W, X bits.\<close>

type_synonym translation = "u64 \<times> (u64 \<times> u64) option \<times> u8"

text \<open>\<^verbatim>\<open>vpn[level]\<close>.\<close>

definition vpn :: "u64 \<Rightarrow> nat \<Rightarrow> u64" where
  "vpn vaddr level = drop_bit (12 + 9 * level) vaddr AND 0x1FF"

definition superpage_misaligned :: "nat \<Rightarrow> pte \<Rightarrow> bool" where
  "superpage_misaligned level p \<longleftrightarrow>
     1 \<le> level \<and> pte_ppn_i p 0 \<noteq> 0 \<or> level = 2 \<and> pte_ppn_i p 1 \<noteq> 0"

fun access_denied :: "access_type \<Rightarrow> bool \<Rightarrow> pte \<Rightarrow> bool" where
  "access_denied Read mxr p = (\<not> pte_read p \<and> \<not> (mxr \<and> pte_execute p))"
| "access_denied Write mxr p = (\<not> pte_write p)"
| "access_denied Execute mxr p = (\<not> pte_execute p)"

definition user_denied :: "nat \<Rightarrow> bool \<Rightarrow> pte \<Rightarrow> bool" where
  "user_denied privilege sum_bit p \<longleftrightarrow>
     (if pte_user p then privilege = 1 \<and> \<not> sum_bit else privilege = 0)"

definition ad_update :: "access_type \<Rightarrow> u64 \<Rightarrow> pte \<Rightarrow> (u64 \<times> u64) option" where
  "ad_update acc pte_addr p =
     (let needs_a = \<not> pte_accessed p; needs_d = (acc = Write \<and> \<not> pte_dirty p) in
      if needs_a \<or> needs_d then
        (let new_pte = p OR push_bit 6 1;
             new_pte = (if needs_d then new_pte OR push_bit 7 1 else new_pte)
         in Some (pte_addr, new_pte))
      else None)"

definition leaf_pa :: "nat \<Rightarrow> pte \<Rightarrow> u64 \<Rightarrow> u64" where
  "leaf_pa level p vaddr =
     (let page_offset = vaddr AND 0xFFF in
      if level = 0 then push_bit 12 (pte_ppn p) OR page_offset
      else if level = 1 then
        push_bit 12 (pte_ppn p AND NOT 0x1FF) OR push_bit 12 (vpn vaddr 0) OR page_offset
      else
        push_bit 12 (pte_ppn p AND NOT 0x3FFFF) OR push_bit 21 (vpn vaddr 1)
          OR push_bit 12 (vpn vaddr 0) OR page_offset)"

text \<open>The leaf branch of the loop body.\<close>

definition leaf_result ::
  "nat \<Rightarrow> u64 \<Rightarrow> pte \<Rightarrow> u64 \<Rightarrow> access_type \<Rightarrow> nat \<Rightarrow> bool \<Rightarrow> bool \<Rightarrow> page_fault + translation" where
  "leaf_result level pte_addr p vaddr acc privilege sum_bit mxr =
     (let fault = Inl \<lparr>pf_access_type = acc, pf_vaddr = vaddr\<rparr> in
      if superpage_misaligned level p then fault
      else if access_denied acc mxr p then fault
      else if user_denied privilege sum_bit p then fault
      else Inr (leaf_pa level p vaddr, ad_update acc pte_addr p, ucast (p AND 0xE)))"

text \<open>
  The loop \<^verbatim>\<open>for level in (0..3).rev()\<close>: \<open>walk n a\<close> visits the levels \<open>n - 1, \<dots>, 0\<close> with the table at
  \<open>a\<close>; with no level left no leaf was found.
\<close>

fun walk ::
  "memory \<Rightarrow> nat \<Rightarrow> u64 \<Rightarrow> u64 \<Rightarrow> access_type \<Rightarrow> nat \<Rightarrow> bool \<Rightarrow> bool \<Rightarrow> page_fault + translation" where
  "walk mem' 0 a vaddr acc privilege sum_bit mxr = Inl \<lparr>pf_access_type = acc, pf_vaddr = vaddr\<rparr>"
| "walk mem' (Suc level) a vaddr acc privilege sum_bit mxr =
     (let pte_addr = a + vpn vaddr level * 8; p = load_double mem' pte_addr in
      if \<not> pte_valid p then Inl \<lparr>pf_access_type = acc, pf_vaddr = vaddr\<rparr>
      else if pte_write p \<and> \<not> pte_read p then Inl \<lparr>pf_access_type = acc, pf_vaddr = vaddr\<rparr>
      else if pte_is_leaf p then leaf_result level pte_addr p vaddr acc privilege sum_bit mxr
      else walk mem' level (push_bit 12 (pte_ppn p)) vaddr acc privilege sum_bit mxr)"

definition translate ::
  "memory \<Rightarrow> u64 \<Rightarrow> u64 \<Rightarrow> access_type \<Rightarrow> nat \<Rightarrow> bool \<Rightarrow> bool \<Rightarrow> page_fault + translation" where
  "translate mem' satp vaddr acc privilege sum_bit mxr =
     (let mode = drop_bit 60 satp AND 0xF;
          bit38 = drop_bit 38 vaddr AND 1;
          upper = drop_bit 39 vaddr;
          fault = Inl \<lparr>pf_access_type = acc, pf_vaddr = vaddr\<rparr> in
      if mode = 0 then Inr (vaddr, None, 0xE)
      else if mode \<noteq> 8 then fault
      else if bit38 = 0 \<and> upper \<noteq> 0 then fault
      else if bit38 = 1 \<and> upper \<noteq> 0x1FFFFFF then fault
      else walk mem' 3 (push_bit 12 (satp AND 0xFFFFFFFFFFF)) vaddr acc privilege sum_bit mxr)"

section \<open>Reference definitions\<close>

text \<open>
  The Sv39 specification, without the control flow of the loop: \<open>leaf_at m va n a l e p\<close> says that the walk
  from the table at \<open>a\<close> with \<open>n\<close> levels left reaches the leaf entry \<open>p\<close> at address \<open>e\<close> and level \<open>l\<close>;
  \<open>permits\<close> is the permission check of Sv39 on the bits of the entry, in which \<^verbatim>\<open>SUM\<close> opens user pages to
  loads and stores of the supervisor and never to its instruction fetches; \<open>sv39_pa\<close> keeps the low
  \<open>12 + 9 * l\<close> bits of the virtual address and takes the others from the entry.
\<close>

inductive leaf_at :: "memory \<Rightarrow> u64 \<Rightarrow> nat \<Rightarrow> u64 \<Rightarrow> nat \<Rightarrow> u64 \<Rightarrow> pte \<Rightarrow> bool" for m va where
  leaf: "e = a + vpn va l * 8 \<Longrightarrow> p = load_double m e \<Longrightarrow> bit p 0 \<Longrightarrow> bit p 2 \<longrightarrow> bit p 1 \<Longrightarrow>
      bit p 1 \<or> bit p 3 \<Longrightarrow> leaf_at m va (Suc l) a l e p"
| pointer: "q = load_double m (a + vpn va n * 8) \<Longrightarrow> bit q 0 \<Longrightarrow> \<not> bit q 1 \<Longrightarrow> \<not> bit q 2 \<Longrightarrow> \<not> bit q 3 \<Longrightarrow>
      leaf_at m va n (push_bit 12 (pte_ppn q)) l e p \<Longrightarrow> leaf_at m va (Suc n) a l e p"

inductive_cases leaf_at_SucE: "leaf_at m va (Suc n) a l e p"
inductive_cases leaf_at_0E: "leaf_at m va 0 a l e p"

definition permits :: "access_type \<Rightarrow> nat \<Rightarrow> bool \<Rightarrow> bool \<Rightarrow> pte \<Rightarrow> bool" where
  "permits acc privilege sum_bit mxr p \<longleftrightarrow>
     (case acc of Read \<Rightarrow> bit p 1 \<or> mxr \<and> bit p 3 | Write \<Rightarrow> bit p 2 | Execute \<Rightarrow> bit p 3) \<and>
     (if bit p 4 then privilege = 1 \<longrightarrow> sum_bit \<and> acc \<noteq> Execute else privilege \<noteq> 0)"

text \<open>The accesses where the code departs from Sv39: supervisor fetches from an executable user page with \<^verbatim>\<open>SUM\<close> set.\<close>

definition sum_fetch :: "access_type \<Rightarrow> nat \<Rightarrow> bool \<Rightarrow> pte \<Rightarrow> bool" where
  "sum_fetch acc privilege sum_bit p \<longleftrightarrow> acc = Execute \<and> privilege = 1 \<and> sum_bit \<and> bit p 3 \<and> bit p 4"

definition leaf_allows :: "access_type \<Rightarrow> nat \<Rightarrow> bool \<Rightarrow> bool \<Rightarrow> pte \<Rightarrow> bool" where
  "leaf_allows acc privilege sum_bit mxr p \<longleftrightarrow> permits acc privilege sum_bit mxr p \<or> sum_fetch acc privilege sum_bit p"

definition superpage_aligned :: "nat \<Rightarrow> pte \<Rightarrow> bool" where
  "superpage_aligned l p \<longleftrightarrow> take_bit (9 * l) (pte_ppn p) = 0"

definition sv39_pa :: "nat \<Rightarrow> pte \<Rightarrow> u64 \<Rightarrow> u64" where
  "sv39_pa l p va = masked (mask (12 + 9 * l)) (push_bit 12 (pte_ppn p)) va"

section \<open>The entry accessors as bits\<close>

lemma pte_bits [bitwise]:
  "pte_valid p = bit p 0" "pte_read p = bit p 1" "pte_write p = bit p 2" "pte_execute p = bit p 3"
  "pte_user p = bit p 4" "pte_accessed p = bit p 6" "pte_dirty p = bit p 7"
  unfolding pte_valid_def pte_read_def pte_write_def pte_execute_def pte_user_def pte_accessed_def
    pte_dirty_def and_push_bit_one and_one_zero by simp_all

lemma mask_numerals:
  "(0xFFF :: u64) = mask 12" "(0x1FF :: u64) = mask 9" "(0x3FFFF :: u64) = mask 18"
  "(0x3FFFFFF :: u64) = mask 26" "(0xFFFFFFFFFFF :: u64) = mask 44"
  by (simp_all add: mask_eq_exp_minus_1)

lemma bit_vpn [bitwise]: "bit (vpn va l) k \<longleftrightarrow> k < 9 \<and> bit va (12 + 9 * l + k)"
  unfolding vpn_def mask_numerals by (auto simp: bit_and_iff bit_mask_iff bit_drop_bit_eq)

lemma bit_pte_ppn [bitwise]: "bit (pte_ppn p) k \<longleftrightarrow> k < 44 \<and> bit p (10 + k)"
  unfolding pte_ppn_def mask_numerals by (auto simp: bit_and_iff bit_mask_iff bit_drop_bit_eq)

lemma bit_rwx: "bit (0xE :: u64) k \<Longrightarrow> k \<noteq> 6 \<and> k \<noteq> 7"
  by auto

lemma leaf_pa_sv39:
  assumes "l < 3"
  shows "leaf_pa l p va = sv39_pa l p va"
proof -
  have e: "bit (leaf_pa l p va) k = bit (sv39_pa l p va) k" if "k < 64" for k
  proof -
    consider "l = 0" | "l = 1" | "l = 2" using assms by linarith
    then show ?thesis
    proof cases
      case 1
      then show ?thesis
        using that unfolding leaf_pa_def sv39_pa_def Let_def mask_numerals
        by (auto simp: bit_masked bit_mask_iff bit_or_iff bit_and_iff bit_push_bit_iff)
    next
      case 2
      then show ?thesis
        using that unfolding leaf_pa_def sv39_pa_def Let_def mask_numerals
        by (auto simp: bit_masked bit_mask_iff bit_or_iff bit_and_iff bit_push_bit_iff bit_not_iff bit_vpn)
    next
      case 3
      then show ?thesis
        using that unfolding leaf_pa_def sv39_pa_def Let_def mask_numerals
        by (cases "k < 21") (auto simp: bit_masked bit_mask_iff bit_or_iff bit_and_iff bit_push_bit_iff bit_not_iff bit_vpn)
    qed
  qed
  then show ?thesis by (intro bit_word_eqI) simp
qed

lemma bit_mask_u64: "n \<le> 64 \<Longrightarrow> bit (mask n :: u64) k \<longleftrightarrow> k < n"
  by (auto simp: bit_mask_iff)

lemma misaligned_iff: "l < 3 \<Longrightarrow> superpage_misaligned l p \<longleftrightarrow> \<not> superpage_aligned l p"
proof -
  assume "l < 3"
  have i: "pte_ppn_i p 0 = 0 \<longleftrightarrow> (\<forall>k<9. \<not> bit p (10 + k))" "pte_ppn_i p 1 = 0 \<longleftrightarrow> (\<forall>k<9. \<not> bit p (19 + k))"
    unfolding pte_ppn_i_def mask_numerals word_zero_iff_bits
    by (auto simp: bit_and_iff bit_mask_u64 bit_drop_bit_eq)
  have a: "superpage_aligned l p \<longleftrightarrow> (\<forall>k<9 * l. \<not> bit p (10 + k))"
    using \<open>l < 3\<close> by (auto simp: superpage_aligned_def bit_eq_iff bit_take_bit_iff bit_pte_ppn)
  have split: "(\<forall>k<18. \<not> bit p (10 + k)) \<longleftrightarrow> (\<forall>k<9. \<not> bit p (10 + k)) \<and> (\<forall>k<9. \<not> bit p (19 + k))"
    (is "?L \<longleftrightarrow> ?R1 \<and> ?R2")
  proof
    assume L: ?L
    have "\<not> bit p (19 + k)" if "k < 9" for k using L [rule_format, of "k + 9"] that by (simp add: add.commute)
    with L show "?R1 \<and> ?R2" by simp
  next
    assume R: "?R1 \<and> ?R2"
    have "\<not> bit p (10 + k)" if "k < 18" for k
      using R that by (cases "k < 9") (auto dest: spec [of _ "k - 9"])
    then show ?L by blast
  qed
  consider "l = 0" | "l = 1" | "l = 2" using \<open>l < 3\<close> by linarith
  then show ?thesis
    using a by cases (simp_all add: superpage_misaligned_def i i(2) [unfolded One_nat_def] split)
qed

lemma leaf_result_eq:
  assumes "l < 3"
  shows "leaf_result l e p va acc privilege sum_bit mxr =
    (if superpage_aligned l p \<and> leaf_allows acc privilege sum_bit mxr p
     then Inr (sv39_pa l p va, ad_update acc e p, ucast (p AND 0xE))
     else Inl \<lparr>pf_access_type = acc, pf_vaddr = va\<rparr>)"
  using assms
  by (cases acc) (auto simp: leaf_result_def misaligned_iff leaf_pa_sv39 leaf_allows_def permits_def sum_fetch_def user_denied_def
      pte_bits Let_def)

lemma leaf_at_level: "leaf_at m va n a l e p \<Longrightarrow> l < n"
  by (induction rule: leaf_at.induct) auto

text \<open>The walk succeeds exactly at a permitted, aligned leaf, and otherwise returns the fault of the access.\<close>

lemma walk_eq:
  assumes "n \<le> 3"
  shows "leaf_at m va n a l e p \<Longrightarrow>
      walk m n a va acc privilege sum_bit mxr = leaf_result l e p va acc privilege sum_bit mxr"
    and "(\<nexists>l e p. leaf_at m va n a l e p) \<Longrightarrow>
      walk m n a va acc privilege sum_bit mxr = Inl \<lparr>pf_access_type = acc, pf_vaddr = va\<rparr>"
proof -
  show "leaf_at m va n a l e p \<Longrightarrow>
      walk m n a va acc privilege sum_bit mxr = leaf_result l e p va acc privilege sum_bit mxr"
    by (induction rule: leaf_at.induct) (auto simp: Let_def pte_bits pte_is_leaf_def)
  show "(\<nexists>l e p. leaf_at m va n a l e p) \<Longrightarrow>
      walk m n a va acc privilege sum_bit mxr = Inl \<lparr>pf_access_type = acc, pf_vaddr = va\<rparr>"
  proof (induction n arbitrary: a)
    case (Suc n)
    let ?q = "load_double m (a + vpn va n * 8)"
    have noleaf: "\<not> (bit ?q 0 \<and> (bit ?q 2 \<longrightarrow> bit ?q 1) \<and> (bit ?q 1 \<or> bit ?q 3))"
      using Suc.prems leaf_at.leaf [OF refl refl, of m a va n] by auto
    have "walk m n (push_bit 12 (pte_ppn ?q)) va acc privilege sum_bit mxr =
        Inl \<lparr>pf_access_type = acc, pf_vaddr = va\<rparr>"
      if "bit ?q 0" "\<not> bit ?q 1" "\<not> bit ?q 2" "\<not> bit ?q 3"
      using Suc.prems that by (intro Suc.IH) (auto dest: leaf_at.pointer [OF refl])
    with noleaf show ?case by (auto simp: Let_def pte_bits pte_is_leaf_def)
  qed simp
qed

section \<open>Translations\<close>

definition canonical :: "u64 \<Rightarrow> bool" where
  "canonical va \<longleftrightarrow> (\<forall>k\<in>{39..<64}. bit va k = bit va 38)"

lemma canonical_iff:
  "canonical va \<longleftrightarrow>
     \<not> (drop_bit 38 va AND 1 = 0 \<and> drop_bit 39 va \<noteq> 0) \<and>
     \<not> (drop_bit 38 va AND 1 = 1 \<and> drop_bit 39 va \<noteq> 0x1FFFFFF)"
proof -
  have one: "drop_bit 38 va AND 1 = 1 \<longleftrightarrow> bit va 38"
    by (simp add: and_one_eq bit_iff_odd_drop_bit odd_iff_mod_2_eq_one)
  have shift: "(\<forall>k\<in>{39..<64}. bit va k = b) \<longleftrightarrow> (\<forall>k<25. bit va (39 + k) = b)" for b
  proof
    assume r: "\<forall>k<25. bit va (39 + k) = b"
    show "\<forall>k\<in>{39..<64}. bit va k = b"
    proof
      fix k :: nat
      assume "k \<in> {39..<64}"
      then have "k - 39 < 25" and "39 + (k - 39) = k" by auto
      with r show "bit va k = b" by metis
    qed
  qed simp
  have len: "bit va (39 + k) \<Longrightarrow> k < 25" for k
    using bit_imp_le_length [of va "39 + k"] by simp
  have z: "drop_bit 39 va = 0 \<longleftrightarrow> (\<forall>k<25. bit va (39 + k) = False)"
    using len by (auto simp: word_zero_iff_bits bit_drop_bit_eq)
  have m: "(0x1FFFFFF :: u64) = mask 25" by (simp add: mask_eq_exp_minus_1)
  have o: "drop_bit 39 va = 0x1FFFFFF \<longleftrightarrow> (\<forall>k<25. bit va (39 + k) = True)"
    unfolding m bit_eq_iff using len by (auto simp: bit_drop_bit_eq bit_mask_u64)
  show ?thesis
    unfolding canonical_def drop_bit_and_one one shift z o by (cases "bit va 38") simp_all
qed

lemma translate_sv39:
  assumes "drop_bit 60 satp AND 0xF = 8" and "canonical va"
  shows "leaf_at m va 3 (push_bit 12 (satp AND 0xFFFFFFFFFFF)) l e p \<Longrightarrow>
      translate m satp va acc privilege sum_bit mxr =
        (if superpage_aligned l p \<and> leaf_allows acc privilege sum_bit mxr p
         then Inr (sv39_pa l p va, ad_update acc e p, ucast (p AND 0xE))
         else Inl \<lparr>pf_access_type = acc, pf_vaddr = va\<rparr>)"
    and "(\<nexists>l e p. leaf_at m va 3 (push_bit 12 (satp AND 0xFFFFFFFFFFF)) l e p) \<Longrightarrow>
      translate m satp va acc privilege sum_bit mxr = Inl \<lparr>pf_access_type = acc, pf_vaddr = va\<rparr>"
  using assms leaf_at_level [of m va 3]
  by (auto simp: translate_def Let_def canonical_iff walk_eq leaf_result_eq)

section \<open>Accessed and dirty bits\<close>

text \<open>Entries are 8-byte aligned, so a store to one entry does not touch another.\<close>

definition aligned8 :: "u64 \<Rightarrow> bool" where
  "aligned8 a \<longleftrightarrow> unat a mod 8 = 0"

lemma aligned8_entry: "aligned8 (push_bit 12 x + v * 8)"
proof -
  have eq: "push_bit 12 x + v * 8 = (push_bit 9 x + v) * 8"
    by (simp add: push_bit_eq_mult algebra_simps)
  have "unat ((push_bit 9 x + v) * 8) mod 8 = 0"
    using mod_mod_cancel [of 8 "2 ^ 64" "unat (push_bit 9 x + v) * 8"]
    by (simp only: unat_word_ariths(2)) simp
  then show ?thesis unfolding aligned8_def eq .
qed

lemma aligned8_apart:
  assumes "aligned8 a" and "aligned8 b" and "a \<noteq> b"
  shows "8 \<le> unat (b - a)" and "unat (b - a) + 8 \<le> 2 ^ 64"
proof -
  have sub: "unat (b - a) = (if unat a \<le> unat b then unat b - unat a else unat b + 2 ^ 64 - unat a)"
    using unat_sub_if_size [of b a] by (simp only: word_size_gt_0 word_size) simp
  have "8 dvd unat a" "8 dvd unat b" "(8 :: nat) dvd 2 ^ 64"
    using assms(1,2) by (auto simp: aligned8_def dvd_eq_mod_eq_0)
  then have "8 dvd unat (b - a)"
    unfolding sub by (cases "unat a \<le> unat b") (simp_all only: if_True if_False dvd_diff_nat dvd_add)
  then obtain i where i: "unat (b - a) = 8 * i" by (rule dvdE)
  have "unat (b - a) \<noteq> 0" using assms(3) by (simp add: unat_eq_zero)
  then have "1 \<le> i" unfolding i by (cases i) simp_all
  have "8 * i < 8 * 2 ^ 61" using unsigned_less [of "b - a", where ?'a = nat] unfolding i by simp
  then have "i + 1 \<le> 2 ^ 61" by (simp only: mult_less_cancel1 Suc_leI Suc_eq_plus1 [symmetric])
  then have "8 * (i + 1) \<le> 8 * 2 ^ 61" by (simp only: mult_le_mono2)
  then show "unat (b - a) + 8 \<le> 2 ^ 64" unfolding i by simp
  show "8 \<le> unat (b - a)" using mult_le_mono2 [OF \<open>1 \<le> i\<close>, of 8] unfolding i by simp
qed

lemma leaf_at_entry: "leaf_at m va n a l e p \<Longrightarrow> p = load_double m e \<and> (bit p 1 \<or> bit p 3)"
  by (induction rule: leaf_at.induct) auto

lemma leaf_at_aligned: "leaf_at m va n (push_bit 12 r) l e p \<Longrightarrow> aligned8 e"
  by (induction n "push_bit 12 r" l e p arbitrary: r rule: leaf_at.induct) (auto simp: aligned8_entry)

lemma leaf_at_update:
  assumes "leaf_at m va n (push_bit 12 r) l e p" and "\<forall>k<6. bit p' k = bit p k"
  shows "leaf_at (store_double m e p') va n (push_bit 12 r) l e p'"
  using assms
proof (induction n "push_bit 12 r" l e p arbitrary: r rule: leaf_at.induct)
  case (leaf e l p)
  then show ?case
    by (intro leaf_at.leaf) (auto simp: double_acc.ld_st_same)
next
  case (pointer q n l e p)
  let ?e0 = "push_bit 12 r + vpn va n * 8"
  have "e \<noteq> ?e0" using pointer leaf_at_entry by blast
  moreover have "aligned8 e" using leaf_at_aligned [OF pointer(6)] .
  ultimately have "load_double (store_double m e p') ?e0 = q"
    using aligned8_apart [of e ?e0] pointer(1) by (simp add: aligned8_entry double_acc.ld_st_disjoint)
  with pointer show ?case
    by (intro leaf_at.pointer [where q = q]) auto
qed

text \<open>The bits of an updated entry.\<close>

lemma ad_update_bits:
  assumes "ad_update acc e p = Some (e', p')"
  shows "e' = e" and "bit p' k \<longleftrightarrow> k = 6 \<or> (k = 7 \<and> acc = Write) \<or> bit p k"
proof -
  have p': "p' = (if acc = Write \<and> \<not> bit p 7 then (p OR push_bit 6 1) OR push_bit 7 1 else p OR push_bit 6 1)"
    and "e' = e"
    using assms unfolding ad_update_def pte_bits Let_def by (auto split: if_splits)
  then show "e' = e" by simp
  show "bit p' k \<longleftrightarrow> k = 6 \<or> (k = 7 \<and> acc = Write) \<or> bit p k"
    unfolding p' by (auto simp only: bit_or_iff bit_push_bit_one split: if_splits) simp_all
qed

section \<open>Addresses of one page\<close>

lemma vpn_same_page: "page_num va' = page_num va \<Longrightarrow> vpn va' l = vpn va l"
proof -
  assume "page_num va' = page_num va"
  then have "bit (page_num va') (k - 12) = bit (page_num va) (k - 12)" for k by simp
  then have "bit va' k = bit va k" if "12 \<le> k" for k
    using that by (metis bit_drop_bit_eq comp_apply le_add_diff_inverse)
  then show ?thesis by (intro bit_word_eqI) (simp add: bit_vpn)
qed

lemma leaf_at_same_page:
  assumes "page_num va' = page_num va"
  shows "leaf_at m va n a l e p \<Longrightarrow> leaf_at m va' n a l e p"
  by (induction rule: leaf_at.induct)
    (auto simp: vpn_same_page [OF assms, symmetric] intro: leaf_at.intros)

lemma canonical_same_page:
  assumes "page_num va' = page_num va"
  shows "canonical va' = canonical va"
proof -
  have "bit (page_num va') (k - 12) = bit (page_num va) (k - 12)" for k using assms by simp
  then have "bit va' k = bit va k" if "12 \<le> k" for k
    using that by (metis bit_drop_bit_eq comp_apply le_add_diff_inverse)
  then show ?thesis by (simp add: canonical_def)
qed

lemma sv39_pa_page:
  "sv39_pa l p va AND 0xFFF = va AND 0xFFF"
  "page_num va' = page_num va \<Longrightarrow> page_num (sv39_pa l p va') = page_num (sv39_pa l p va)"
proof -
  show "sv39_pa l p va AND 0xFFF = va AND 0xFFF"
    unfolding mask_numerals sv39_pa_def
    by (intro bit_word_eqI) (auto simp: bit_and_iff bit_masked bit_mask_iff)
  assume "page_num va' = page_num va"
  then have "bit (page_num va') k = bit (page_num va) k" for k by simp
  then have "bit va' (12 + k) = bit va (12 + k)" for k by (simp add: bit_drop_bit_eq)
  then show "page_num (sv39_pa l p va') = page_num (sv39_pa l p va)"
    unfolding sv39_pa_def by (intro bit_word_eqI) (simp add: bit_drop_bit_eq bit_masked)
qed

section \<open>Properties\<close>

text \<open>A page table with one gigapage: the root table at \<open>0x1000\<close> maps the first gigabyte to itself.\<close>

definition gigapage_memory :: memory where
  "gigapage_memory = store_double memory_new 0x1000 0xF"

lemma gigapage_translate:
  "translate gigapage_memory 0x8000000000000001 0x5234 Read 1 False False =
     Inr (0x5234, Some (0x1000, 0x4F), 0xE)"
  by (simp add: translate_def gigapage_memory_def numeral_3_eq_3 vpn_def double_acc.ld_st_same pte_valid_def
      pte_write_def pte_read_def pte_is_leaf_def leaf_result_def superpage_misaligned_def pte_ppn_i_def
      pte_execute_def user_denied_def pte_user_def leaf_pa_def pte_ppn_def ad_update_def pte_accessed_def)

text \<open>The set of addresses the code translates, over its own permission check.\<close>

lemma translate_iff:
  "(translate m satp va acc privilege sum_bit mxr = Inr t \<longleftrightarrow>
     (satp_mode satp = 0 \<and> t = (va, None, 0xE)) \<or>
     (satp_mode satp = 8 \<and> canonical va \<and>
      (\<exists>l e p. leaf_at m va 3 (push_bit 12 (satp AND 0xFFFFFFFFFFF)) l e p \<and> superpage_aligned l p \<and>
         leaf_allows acc privilege sum_bit mxr p \<and>
         t = (sv39_pa l p va, ad_update acc e p, ucast (p AND 0xE))))) \<and>
   (translate m satp va acc privilege sum_bit mxr = Inl \<lparr>pf_access_type = acc, pf_vaddr = va\<rparr> \<or>
    (\<exists>t. translate m satp va acc privilege sum_bit mxr = Inr t))"
proof (cases "satp_mode satp = 8 \<and> canonical va")
  case True
  then have mode: "drop_bit 60 satp AND 0xF = 8" and can: "canonical va" by (auto simp: satp_mode_def)
  note tr = translate_sv39 [OF mode can]
  have conv: "translate m satp va acc privilege sum_bit mxr = Inr t"
    if "leaf_at m va 3 (push_bit 12 (satp AND 0xFFFFFFFFFFF)) l e p" "superpage_aligned l p"
      "leaf_allows acc privilege sum_bit mxr p" "t = (sv39_pa l p va, ad_update acc e p, ucast (p AND 0xE))" for l e p
    using tr(1) [OF that(1)] that(2-4) by simp
  show ?thesis
  proof (cases "\<exists>l e p. leaf_at m va 3 (push_bit 12 (satp AND 0xFFFFFFFFFFF)) l e p")
    case True
    then obtain l e p where leaf: "leaf_at m va 3 (push_bit 12 (satp AND 0xFFFFFFFFFFF)) l e p" by blast
    have "\<exists>l e p. leaf_at m va 3 (push_bit 12 (satp AND 0xFFFFFFFFFFF)) l e p \<and> superpage_aligned l p \<and>
        leaf_allows acc privilege sum_bit mxr p \<and> t = (sv39_pa l p va, ad_update acc e p, ucast (p AND 0xE))"
      if "translate m satp va acc privilege sum_bit mxr = Inr t"
      using tr(1) [OF leaf] leaf that by (auto split: if_splits)
    with conv have iff: "translate m satp va acc privilege sum_bit mxr = Inr t \<longleftrightarrow>
        (\<exists>l e p. leaf_at m va 3 (push_bit 12 (satp AND 0xFFFFFFFFFFF)) l e p \<and> superpage_aligned l p \<and>
          leaf_allows acc privilege sum_bit mxr p \<and> t = (sv39_pa l p va, ad_update acc e p, ucast (p AND 0xE)))"
      by blast
    have "translate m satp va acc privilege sum_bit mxr = Inl \<lparr>pf_access_type = acc, pf_vaddr = va\<rparr> \<or>
        (\<exists>t. translate m satp va acc privilege sum_bit mxr = Inr t)"
      using tr(1) [OF leaf] by auto
    then show ?thesis unfolding iff using mode can by (simp add: satp_mode_def)
  next
    case False
    with mode can show ?thesis by (simp add: satp_mode_def translate_sv39(2))
  qed
next
  case False
  then show ?thesis
    by (auto simp: translate_def Let_def satp_mode_def canonical_iff)
qed

text \<open>
  C12. The translation implements Sv39 up to one rule. It succeeds exactly under Bare mode, with the
  identity, or under Sv39 mode for a canonical address whose page-table walk ends in an aligned leaf that
  either permits the access by the rules of Sv39 or is an executable user page from which supervisor mode
  fetches with \<^verbatim>\<open>SUM\<close> set, and then returns the physical address the leaf maps it to, the update of the
  accessed and dirty bits and the leaf's permissions; every other outcome is the page fault of this access.
  The fetches of the second kind are refused by Sv39 on every such leaf, so they are the only departure. The
  reserved bits 54 to 63 of an entry are inspected neither by the code nor by the reference.
\<close>

theorem translate_implements_sv39:
  "(translate m satp va acc privilege sum_bit mxr = Inr t \<longleftrightarrow>
     (satp_mode satp = 0 \<and> t = (va, None, 0xE)) \<or>
     (satp_mode satp = 8 \<and> canonical va \<and>
      (\<exists>l e p. leaf_at m va 3 (push_bit 12 (satp AND 0xFFFFFFFFFFF)) l e p \<and> superpage_aligned l p \<and>
         (permits acc privilege sum_bit mxr p \<or> sum_fetch acc privilege sum_bit p) \<and>
         t = (sv39_pa l p va, ad_update acc e p, ucast (p AND 0xE))))) \<and>
   (translate m satp va acc privilege sum_bit mxr = Inl \<lparr>pf_access_type = acc, pf_vaddr = va\<rparr> \<or>
    (\<exists>t. translate m satp va acc privilege sum_bit mxr = Inr t)) \<and>
   \<not> (permits acc privilege sum_bit mxr p \<and> sum_fetch acc privilege sum_bit p)"
  using translate_iff [of m satp va acc privilege sum_bit mxr t]
  by (auto simp: leaf_allows_def permits_def sum_fetch_def)

text \<open>
  Translation respects pages: it keeps the page offset, and every other address of the same virtual
  page translates, with the same entry update and permissions, into the same physical page. This is
  what allows the TLB to cache one entry per page.
\<close>

theorem translate_respects_pages:
  assumes "translate m satp va acc privilege sum_bit mxr = Inr (pa, upd, flags)"
    and "page_num va' = page_num va"
  shows "pa AND 0xFFF = va AND 0xFFF \<and>
    (\<exists>pa'. translate m satp va' acc privilege sum_bit mxr = Inr (pa', upd, flags) \<and> page_num pa' = page_num pa)"
proof (cases "drop_bit 60 satp AND 0xF = 0")
  case True
  then show ?thesis using assms by (simp add: translate_def Let_def)
next
  case False
  then have mode: "drop_bit 60 satp AND 0xF = 8" and can: "canonical va"
    using assms(1) by (auto simp: translate_def Let_def canonical_iff split: if_splits)
  obtain l e p where leaf: "leaf_at m va 3 (push_bit 12 (satp AND 0xFFFFFFFFFFF)) l e p"
    using assms(1) translate_sv39(2) [OF mode can] by fastforce
  have can': "canonical va'" using can canonical_same_page [OF assms(2)] by simp
  note leaf' = leaf_at_same_page [OF assms(2) leaf]
  show ?thesis
    using assms(1) translate_sv39(1) [OF mode can leaf] translate_sv39(1) [OF mode can' leaf']
      sv39_pa_page(1) sv39_pa_page(2) [OF assms(2)] by (auto split: if_splits)
qed

theorem translate_respects_pages_witness:
  "\<exists>pa'. translate gigapage_memory 0x8000000000000001 0x5FFF Read 1 False False =
      Inr (pa', Some (0x1000, 0x4F), 0xE) \<and> page_num pa' = 5"
  using translate_respects_pages [OF gigapage_translate, of "0x5FFF"] by simp

text \<open>
  The update of the accessed and dirty bits is consistent with the walk: after the page-table entry
  is written back, translating the same access again gives the same physical address and needs no
  further update, even when page tables share pages with each other.
\<close>

theorem translate_update_stable:
  assumes "translate m satp va acc privilege sum_bit mxr = Inr (pa, Some (e, p'), flags)"
  shows "translate (store_double m e p') satp va acc privilege sum_bit mxr = Inr (pa, None, flags)"
proof -
  have mode: "drop_bit 60 satp AND 0xF = 8" and can: "canonical va"
    using assms by (auto simp: translate_def Let_def canonical_iff split: if_splits)
  obtain l e0 p where leaf: "leaf_at m va 3 (push_bit 12 (satp AND 0xFFFFFFFFFFF)) l e0 p"
    using assms translate_sv39(2) [OF mode can] by fastforce
  have ok: "superpage_aligned l p" "leaf_allows acc privilege sum_bit mxr p" "pa = sv39_pa l p va"
    "ad_update acc e0 p = Some (e, p')" "flags = ucast (p AND 0xE)"
    using assms translate_sv39(1) [OF mode can leaf] by (auto split: if_splits)
  have e: "e = e0" and upd: "bit p' k \<longleftrightarrow> k = 6 \<or> (k = 7 \<and> acc = Write) \<or> bit p k" for k
    using ad_update_bits [OF ok(4)] by simp_all
  have "leaf_at (store_double m e p') va 3 (push_bit 12 (satp AND 0xFFFFFFFFFFF)) l e p'"
    using leaf_at_update [OF leaf, of p'] by (simp add: upd e)
  moreover have ppn: "pte_ppn p' = pte_ppn p"
    by (rule bit_eqI) (simp add: bit_pte_ppn upd)
  moreover have "leaf_allows acc privilege sum_bit mxr p'"
    using ok(2) by (cases acc) (simp_all add: leaf_allows_def permits_def sum_fetch_def upd)
  moreover have "p' AND 0xE = p AND 0xE"
    by (rule bit_eqI) (auto simp only: bit_and_iff upd dest: bit_rwx)
  moreover have "ad_update acc e p' = None" by (auto simp: ad_update_def pte_bits upd Let_def)
  ultimately show ?thesis
    using translate_sv39(1) [OF mode can] ok(1,3,5) by (simp add: superpage_aligned_def sv39_pa_def)
qed

theorem translate_update_stable_witness:
  "translate (store_double gigapage_memory 0x1000 0x4F) 0x8000000000000001 0x5234 Read 1 False False =
     Inr (0x5234, None, 0xE)"
  using translate_update_stable [OF gigapage_translate] .

text \<open>
  With \<^verbatim>\<open>SUM\<close> set the code lets supervisor mode execute from a user page, which Sv39 refuses.
\<close>

lemma supervisor_executes_user_page:
  "bit p 4 \<Longrightarrow> (leaf_allows Execute 1 True mxr p \<longleftrightarrow> bit p 3) \<and> \<not> permits Execute 1 True mxr p"
  by (simp add: leaf_allows_def permits_def sum_fetch_def)

end
