(* ===== verification/Rv_Virtio.thy ===== *)
theory Rv_Virtio
  imports Rv_Memory
begin

text \<open>
  The VirtIO block device of \<^verbatim>\<open>crates/riscv/src/virtio.rs\<close>: its MMIO registers, the byte accesses built on
  them, and the processing of the request queue against guest memory. Indexing the disk out of bounds
  panics (\<open>None\<close>); address and sector arithmetic wraps.
\<close>

section \<open>Device state\<close>

abbreviation VIRTIO_BASE :: u64 where "VIRTIO_BASE \<equiv> 0x10001000"
abbreviation VIRTIO_SIZE :: u64 where "VIRTIO_SIZE \<equiv> 0x200"
abbreviation VIRTIO_MAGIC :: u32 where "VIRTIO_MAGIC \<equiv> 0x74726976"
abbreviation VIRTIO_VERSION :: u32 where "VIRTIO_VERSION \<equiv> 2"
abbreviation VIRTIO_DEVICE_ID_BLOCK :: u32 where "VIRTIO_DEVICE_ID_BLOCK \<equiv> 2"
abbreviation VIRTIO_VENDOR_ID :: u32 where "VIRTIO_VENDOR_ID \<equiv> 0x554D4551"
abbreviation QUEUE_NUM_MAX :: u32 where "QUEUE_NUM_MAX \<equiv> 256"
abbreviation VIRTIO_BLK_T_IN :: u32 where "VIRTIO_BLK_T_IN \<equiv> 0"
abbreviation VIRTIO_BLK_T_OUT :: u32 where "VIRTIO_BLK_T_OUT \<equiv> 1"
abbreviation VIRTQ_DESC_F_NEXT :: u16 where "VIRTQ_DESC_F_NEXT \<equiv> 1"
abbreviation VIRTIO_BLK_S_OK :: u8 where "VIRTIO_BLK_S_OK \<equiv> 0"
abbreviation VIRTIO_BLK_S_IOERR :: u8 where "VIRTIO_BLK_S_IOERR \<equiv> 1"
abbreviation SECTOR_SIZE :: u64 where "SECTOR_SIZE \<equiv> 512"

record virtio_device =
  v_disk :: "u8 list"
  v_status :: u32
  v_device_features_sel :: u32
  v_driver_features :: "u32 \<times> u32"
  v_driver_features_sel :: u32
  v_queue_sel :: u32
  v_queue_num :: u32
  v_queue_ready :: u32
  v_queue_desc :: u64
  v_queue_driver :: u64
  v_queue_device :: u64
  v_interrupt_status :: u32
  v_last_avail_idx :: u16
  v_notify_pending :: bool

definition virtio_new :: "u8 list \<Rightarrow> virtio_device" where
  "virtio_new disk =
     \<lparr>v_disk = disk, v_status = 0, v_device_features_sel = 0, v_driver_features = (0, 0),
      v_driver_features_sel = 0, v_queue_sel = 0, v_queue_num = 0, v_queue_ready = 0, v_queue_desc = 0,
      v_queue_driver = 0, v_queue_device = 0, v_interrupt_status = 0, v_last_avail_idx = 0,
      v_notify_pending = False\<rparr>"

section \<open>Registers\<close>

definition virtio_read_u32 :: "virtio_device \<Rightarrow> u64 \<Rightarrow> u32" where
  "virtio_read_u32 d offset =
     (if offset = 0x000 then VIRTIO_MAGIC
      else if offset = 0x004 then VIRTIO_VERSION
      else if offset = 0x008 then VIRTIO_DEVICE_ID_BLOCK
      else if offset = 0x00C then VIRTIO_VENDOR_ID
      else if offset = 0x010 then 0
      else if offset = 0x034 then QUEUE_NUM_MAX
      else if offset = 0x044 then v_queue_ready d
      else if offset = 0x060 then v_interrupt_status d
      else if offset = 0x070 then v_status d
      else if offset = 0x0FC then 0
      else if offset = 0x100 then
        (let capacity = (of_nat (length (v_disk d)) :: u64) div SECTOR_SIZE in ucast capacity)
      else if offset = 0x104 then
        (let capacity = (of_nat (length (v_disk d)) :: u64) div SECTOR_SIZE in ucast (drop_bit 32 capacity))
      else 0)"

text \<open>The low or high half of a 64-bit queue address replaced.\<close>

definition set_low :: "u64 \<Rightarrow> u32 \<Rightarrow> u64" where
  "set_low w val = (w AND 0xFFFFFFFF00000000) OR ucast val"

definition set_high :: "u64 \<Rightarrow> u32 \<Rightarrow> u64" where
  "set_high w val = (w AND 0x00000000FFFFFFFF) OR push_bit 32 (ucast val)"

definition virtio_write_u32 :: "virtio_device \<Rightarrow> u64 \<Rightarrow> u32 \<Rightarrow> virtio_device" where
  "virtio_write_u32 d offset val =
     (if offset = 0x014 then d\<lparr>v_device_features_sel := val\<rparr>
      else if offset = 0x020 then
        (let sel = v_driver_features_sel d in
         if sel = 0 then d\<lparr>v_driver_features := (val, snd (v_driver_features d))\<rparr>
         else if sel = 1 then d\<lparr>v_driver_features := (fst (v_driver_features d), val)\<rparr>
         else d)
      else if offset = 0x024 then d\<lparr>v_driver_features_sel := val\<rparr>
      else if offset = 0x030 then d\<lparr>v_queue_sel := val\<rparr>
      else if offset = 0x038 then d\<lparr>v_queue_num := val\<rparr>
      else if offset = 0x044 then d\<lparr>v_queue_ready := val\<rparr>
      else if offset = 0x050 then d\<lparr>v_notify_pending := True\<rparr>
      else if offset = 0x064 then d\<lparr>v_interrupt_status := v_interrupt_status d AND NOT val\<rparr>
      else if offset = 0x070 then d\<lparr>v_status := val\<rparr>
      else if offset = 0x080 then d\<lparr>v_queue_desc := set_low (v_queue_desc d) val\<rparr>
      else if offset = 0x084 then d\<lparr>v_queue_desc := set_high (v_queue_desc d) val\<rparr>
      else if offset = 0x090 then d\<lparr>v_queue_driver := set_low (v_queue_driver d) val\<rparr>
      else if offset = 0x094 then d\<lparr>v_queue_driver := set_high (v_queue_driver d) val\<rparr>
      else if offset = 0x0A0 then d\<lparr>v_queue_device := set_low (v_queue_device d) val\<rparr>
      else if offset = 0x0A4 then d\<lparr>v_queue_device := set_high (v_queue_device d) val\<rparr>
      else d)"

definition virtio_read_u8 :: "virtio_device \<Rightarrow> u64 \<Rightarrow> u8" where
  "virtio_read_u8 d offset =
     (let aligned = offset AND NOT 0x3; shift = unat (offset AND 0x3) * 8
      in ucast (drop_bit shift (virtio_read_u32 d aligned)))"

definition virtio_write_u8 :: "virtio_device \<Rightarrow> u64 \<Rightarrow> u8 \<Rightarrow> virtio_device" where
  "virtio_write_u8 d offset val =
     (let aligned = offset AND NOT 0x3; shift = unat (offset AND 0x3) * 8;
          old = virtio_read_u32 d aligned;
          mask' = NOT (push_bit shift 0xFF);
          new = (old AND mask') OR push_bit shift (ucast val)
      in virtio_write_u32 d aligned new)"

definition needs_processing :: "virtio_device \<Rightarrow> bool" where
  "needs_processing d = v_notify_pending d"

section \<open>Queue processing\<close>

text \<open>
  The copy loops \<^verbatim>\<open>for i in 0..data_len\<close>; \<open>k\<close> iterations are left and \<open>i\<close> is the loop variable.
\<close>

fun disk_to_mem :: "u8 list \<Rightarrow> u64 \<Rightarrow> u64 \<Rightarrow> nat \<Rightarrow> nat \<Rightarrow> memory \<Rightarrow> memory option" where
  "disk_to_mem disk disk_offset data_addr i 0 m = Some m"
| "disk_to_mem disk disk_offset data_addr i (Suc k) m =
     (let j = unat (disk_offset + of_nat i) in
      if j < length disk then
        disk_to_mem disk disk_offset data_addr (Suc i) k
          (store_byte m (data_addr + of_nat i) (disk ! j))
      else None)"

fun mem_to_disk :: "memory \<Rightarrow> u64 \<Rightarrow> u64 \<Rightarrow> nat \<Rightarrow> nat \<Rightarrow> u8 list \<Rightarrow> u8 list option" where
  "mem_to_disk m disk_offset data_addr i 0 disk = Some disk"
| "mem_to_disk m disk_offset data_addr i (Suc k) disk =
     (let j = unat (disk_offset + of_nat i) in
      if j < length disk then
        mem_to_disk m disk_offset data_addr (Suc i) k
          (disk[j := load_byte m (data_addr + of_nat i)])
      else None)"

text \<open>The three descriptors of a request, read from the descriptor table in guest memory.\<close>

record block_request =
  rq_head_idx :: u32
  rq_type :: u32
  rq_sector :: u64
  rq_data_addr :: u64
  rq_data_len :: u64
  rq_status_addr :: u64

definition read_request :: "virtio_device \<Rightarrow> memory \<Rightarrow> block_request" where
  "read_request d m =
     (let ring_slot = (ucast ((ucast (v_last_avail_idx d) :: u32) mod v_queue_num d) :: u64);
          head_idx = (ucast (load_half m (v_queue_driver d + 4 + 2 * ring_slot)) :: u32);
          desc0_addr = v_queue_desc d + ucast head_idx * 16;
          header_addr = load_double m desc0_addr;
          desc0_flags = load_half m (desc0_addr + 12);
          desc0_next = load_half m (desc0_addr + 14);
          req_type = load_word m header_addr;
          sector = load_double m (header_addr + 8);
          desc1_idx = (if desc0_flags AND VIRTQ_DESC_F_NEXT \<noteq> 0 then ucast desc0_next else head_idx + 1);
          desc1_addr = v_queue_desc d + ucast (desc1_idx :: u32) * 16;
          data_addr = load_double m desc1_addr;
          data_len = ucast (load_word m (desc1_addr + 8));
          desc1_flags = load_half m (desc1_addr + 12);
          desc1_next = load_half m (desc1_addr + 14);
          desc2_idx = (if desc1_flags AND VIRTQ_DESC_F_NEXT \<noteq> 0 then ucast desc1_next else desc1_idx + 1);
          desc2_addr = v_queue_desc d + ucast (desc2_idx :: u32) * 16;
          status_addr = load_double m desc2_addr
      in \<lparr>rq_head_idx = head_idx, rq_type = req_type, rq_sector = sector, rq_data_addr = data_addr,
          rq_data_len = data_len, rq_status_addr = status_addr\<rparr>)"

text \<open>The \<^verbatim>\<open>match req_type\<close>: status byte, bytes written to the driver, disk and memory.\<close>

definition perform_io ::
  "block_request \<Rightarrow> u8 list \<Rightarrow> memory \<Rightarrow> (u8 \<times> u32 \<times> u8 list \<times> memory) option" where
  "perform_io rq disk m =
     (let disk_offset = rq_sector rq * SECTOR_SIZE; data_len = rq_data_len rq in
      if rq_type rq = VIRTIO_BLK_T_IN then
        (if (of_nat (length disk) :: u64) < disk_offset + data_len then
           Some (VIRTIO_BLK_S_IOERR, 0, disk, m)
         else do {
           m' \<leftarrow> disk_to_mem disk disk_offset (rq_data_addr rq) 0 (unat data_len) m;
           Some (VIRTIO_BLK_S_OK, ucast data_len, disk, m')
         })
      else if rq_type rq = VIRTIO_BLK_T_OUT then
        (if (of_nat (length disk) :: u64) < disk_offset + data_len then
           Some (VIRTIO_BLK_S_IOERR, 0, disk, m)
         else do {
           disk' \<leftarrow> mem_to_disk m disk_offset (rq_data_addr rq) 0 (unat data_len) disk;
           Some (VIRTIO_BLK_S_OK, 0, disk', m)
         })
      else Some (VIRTIO_BLK_S_IOERR, 0, disk, m))"

definition post_used :: "virtio_device \<Rightarrow> u32 \<Rightarrow> u32 \<Rightarrow> memory \<Rightarrow> memory" where
  "post_used d head_idx total_written m =
     (let used_idx = load_half m (v_queue_device d + 2);
          used_slot = (ucast ((ucast used_idx :: u32) mod v_queue_num d) :: u64);
          used_elem_addr = v_queue_device d + 4 + 8 * used_slot;
          m = store_word m used_elem_addr head_idx;
          m = store_word m (used_elem_addr + 4) total_written
      in store_half m (v_queue_device d + 2) (used_idx + 1))"

text \<open>One iteration of the \<^verbatim>\<open>while\<close> loop.\<close>

definition process_one :: "virtio_device \<Rightarrow> memory \<Rightarrow> (virtio_device \<times> memory) option" where
  "process_one d m =
     (let rq = read_request d m in do {
        (status_byte, total_written, disk', m) \<leftarrow> perform_io rq (v_disk d) m;
        let m = store_byte m (rq_status_addr rq) status_byte;
        let m = post_used d (rq_head_idx rq) total_written m;
        Some (d\<lparr>v_disk := disk', v_last_avail_idx := v_last_avail_idx d + 1\<rparr>, m)
      })"

lemma process_one_idx:
  "process_one d m = Some (d', m') \<Longrightarrow> v_last_avail_idx d' = v_last_avail_idx d + 1"
  by (auto simp: process_one_def Let_def split: bind_splits)

lemma u16_distance_decreases:
  fixes a i :: u16
  assumes "i \<noteq> a"
  shows "unat (a - (i + 1)) < unat (a - i)"
proof -
  have "a - i \<noteq> 0" using assms by simp
  then have "unat (a - i - 1) < unat (a - i)" by (simp add: unat_minus_one unat_gt_0)
  then show ?thesis by (simp add: diff_diff_eq)
qed

function process_loop :: "u16 \<Rightarrow> virtio_device \<Rightarrow> memory \<Rightarrow> (virtio_device \<times> memory) option" where
  "process_loop avail_idx d m =
     (if v_last_avail_idx d \<noteq> avail_idx then
        (case process_one d m of
           None \<Rightarrow> None
         | Some (d', m') \<Rightarrow> process_loop avail_idx d' m')
      else Some (d, m))"
  by pat_completeness auto
termination
  by (relation "measure (\<lambda>(avail_idx, d, m). unat (avail_idx - v_last_avail_idx d))")
    (auto simp: process_one_idx intro: u16_distance_decreases)

declare process_loop.simps [simp del]

definition process_queue :: "virtio_device \<Rightarrow> memory \<Rightarrow> (virtio_device \<times> memory) option" where
  "process_queue d m =
     (let d = d\<lparr>v_notify_pending := False\<rparr> in
      if v_queue_ready d = 0 \<or> v_queue_num d = 0 then Some (d, m)
      else
        (let avail_idx = load_half m (v_queue_driver d + 2) in do {
           (d, m) \<leftarrow> process_loop avail_idx d m;
           Some (if v_last_avail_idx d \<noteq> 0 \<or> avail_idx \<noteq> 0
                 then d\<lparr>v_interrupt_status := v_interrupt_status d OR 1\<rparr> else d, m)
         }))"

section \<open>Memory effects\<close>

text \<open>A request writes guest memory through the tracked stores only.\<close>

lemma disk_to_mem_tracked:
  "disk_to_mem disk off a i k m = Some m' \<Longrightarrow> tracked m0 m \<Longrightarrow> tracked m0 m'"
  by (induction disk off a i k m rule: disk_to_mem.induct) (auto simp: Let_def split: if_splits)

lemma perform_io_tracked:
  "perform_io rq disk m = Some (b, n, disk', m') \<Longrightarrow> tracked m0 m \<Longrightarrow> tracked m0 m'"
  by (auto simp: perform_io_def Let_def dest: disk_to_mem_tracked split: if_splits bind_splits)

lemma process_one_tracked: "process_one d m = Some (d', m') \<Longrightarrow> tracked m0 m \<Longrightarrow> tracked m0 m'"
  by (auto simp: process_one_def post_used_def Let_def split: bind_splits intro!: tracked_stores dest: perform_io_tracked)

lemma process_loop_tracked: "process_loop i d m = Some (d', m') \<Longrightarrow> tracked m0 m \<Longrightarrow> tracked m0 m'"
proof (induction i d m rule: process_loop.induct)
  case (1 i d m)
  show ?case
    using 1(1) 1(2) [unfolded process_loop.simps [of i d m]] 1(3)
    by (auto split: if_splits option.splits dest: process_one_tracked)
qed

lemma process_queue_tracked: "process_queue d m = Some (d', m') \<Longrightarrow> tracked m0 m \<Longrightarrow> tracked m0 m'"
  by (auto simp: process_queue_def Let_def split: if_splits bind_splits dest: process_loop_tracked)

end
