(* ===== verification/Rv_Mmio.thy ===== *)
theory Rv_Mmio
  imports Rv_Virtio
begin

text \<open>
  The memory-mapped devices of \<^verbatim>\<open>crates/riscv/src/mmio.rs\<close>: the NS16550 UART, the core-local interruptor
  (CLINT), the platform-level interrupt controller (PLIC) and the controller that dispatches a byte
  access to them and to the VirtIO devices.
\<close>

section \<open>UART\<close>

record uart_device =
  u_output :: "u8 list"
  u_input :: "u8 list"
  u_input_cursor :: nat
  u_ier :: u8
  u_lcr :: u8
  u_mcr :: u8
  u_fcr :: u8
  u_dll :: u8
  u_dlm :: u8
  u_scratch :: u8

definition uart_with_input :: "u8 list \<Rightarrow> uart_device" where
  "uart_with_input inp =
     \<lparr>u_output = [], u_input = inp, u_input_cursor = 0, u_ier = 0, u_lcr = 0x03, u_mcr = 0, u_fcr = 0,
      u_dll = 0x01, u_dlm = 0, u_scratch = 0\<rparr>"

definition uart_new :: uart_device where
  "uart_new =
     \<lparr>u_output = [], u_input = [], u_input_cursor = 0, u_ier = 0, u_lcr = 0x03, u_mcr = 0, u_fcr = 0,
      u_dll = 0x01, u_dlm = 0, u_scratch = 0\<rparr>"

definition uart_dlab :: "uart_device \<Rightarrow> bool" where
  "uart_dlab u \<longleftrightarrow> u_lcr u AND 0x80 \<noteq> 0"

definition uart_read :: "uart_device \<Rightarrow> u64 \<Rightarrow> u8" where
  "uart_read u offset =
     (if offset = 0 then
        (if uart_dlab u then u_dll u
         else if u_input_cursor u < length (u_input u) then u_input u ! u_input_cursor u
         else 0)
      else if offset = 1 then (if uart_dlab u then u_dlm u else u_ier u)
      else if offset = 2 then
        (let fifo_bits = (if u_fcr u AND 1 \<noteq> 0 then 0xC0 else 0) in
         if u_ier u AND 0x01 \<noteq> 0 \<and> u_input_cursor u < length (u_input u) then fifo_bits OR 0x04
         else if u_ier u AND 0x02 \<noteq> 0 then fifo_bits OR 0x02
         else fifo_bits OR 0x01)
      else if offset = 3 then u_lcr u
      else if offset = 4 then u_mcr u
      else if offset = 5 then
        (let lsr = (if u_input_cursor u < length (u_input u) then 0 OR 1 else 0)
         in lsr OR push_bit 5 1 OR push_bit 6 1)
      else if offset = 6 then 0x30
      else if offset = 7 then u_scratch u
      else 0)"

definition uart_read_mut :: "uart_device \<Rightarrow> u64 \<Rightarrow> u8 \<times> uart_device" where
  "uart_read_mut u offset =
     (if offset = 0 \<and> \<not> uart_dlab u then
        (if u_input_cursor u < length (u_input u) then
           (u_input u ! u_input_cursor u, u\<lparr>u_input_cursor := u_input_cursor u + 1\<rparr>)
         else (0, u))
      else (uart_read u offset, u))"

definition uart_write :: "uart_device \<Rightarrow> u64 \<Rightarrow> u8 \<Rightarrow> uart_device" where
  "uart_write u offset val =
     (if offset = 0 then
        (if uart_dlab u then u\<lparr>u_dll := val\<rparr> else u\<lparr>u_output := u_output u @ [val]\<rparr>)
      else if offset = 1 then
        (if uart_dlab u then u\<lparr>u_dlm := val\<rparr> else u\<lparr>u_ier := val AND 0x0F\<rparr>)
      else if offset = 2 then u\<lparr>u_fcr := val\<rparr>
      else if offset = 3 then u\<lparr>u_lcr := val\<rparr>
      else if offset = 4 then u\<lparr>u_mcr := val AND 0x1F\<rparr>
      else if offset = 7 then u\<lparr>u_scratch := val\<rparr>
      else u)"

section \<open>CLINT\<close>

abbreviation CLINT_MSIP :: u64 where "CLINT_MSIP \<equiv> 0x0000"
abbreviation CLINT_MTIMECMP :: u64 where "CLINT_MTIMECMP \<equiv> 0x4000"
abbreviation CLINT_MTIME :: u64 where "CLINT_MTIME \<equiv> 0xBFF8"

record clint_device =
  msip :: u32
  mtimecmp :: u64
  mtime :: u64

definition clint_new :: clint_device where
  "clint_new = \<lparr>msip = 0, mtimecmp = 0, mtime = 0\<rparr>"

definition clint_tick :: "clint_device \<Rightarrow> bool \<times> clint_device" where
  "clint_tick d = (let d' = d\<lparr>mtime := mtime d + 1\<rparr> in (mtimecmp d' \<le> mtime d', d'))"

definition msip_pending :: "clint_device \<Rightarrow> bool" where
  "msip_pending d \<longleftrightarrow> msip d AND 1 \<noteq> 0"

text \<open>Byte \<open>i\<close> of a register, and the register with byte \<open>i\<close> replaced.\<close>

definition get_byte :: "'a::len word \<Rightarrow> nat \<Rightarrow> u8" where
  "get_byte w i = ucast (drop_bit (i * 8) w)"

definition put_byte :: "'a::len word \<Rightarrow> nat \<Rightarrow> u8 \<Rightarrow> 'a word" where
  "put_byte w i v = (w AND NOT (push_bit (i * 8) 0xFF)) OR push_bit (i * 8) (ucast v)"

definition clint_read_u8 :: "clint_device \<Rightarrow> u64 \<Rightarrow> u8" where
  "clint_read_u8 d offset =
     (if CLINT_MSIP \<le> offset \<and> offset < CLINT_MSIP + 4 then
        get_byte (msip d) (unat (offset - CLINT_MSIP))
      else if CLINT_MTIMECMP \<le> offset \<and> offset < CLINT_MTIMECMP + 8 then
        get_byte (mtimecmp d) (unat (offset - CLINT_MTIMECMP))
      else if CLINT_MTIME \<le> offset \<and> offset < CLINT_MTIME + 8 then
        get_byte (mtime d) (unat (offset - CLINT_MTIME))
      else 0)"

definition clint_write_u8 :: "clint_device \<Rightarrow> u64 \<Rightarrow> u8 \<Rightarrow> clint_device" where
  "clint_write_u8 d offset val =
     (if CLINT_MSIP \<le> offset \<and> offset < CLINT_MSIP + 4 then
        (let v = put_byte (msip d) (unat (offset - CLINT_MSIP)) val in d\<lparr>msip := v AND 1\<rparr>)
      else if CLINT_MTIMECMP \<le> offset \<and> offset < CLINT_MTIMECMP + 8 then
        d\<lparr>mtimecmp := put_byte (mtimecmp d) (unat (offset - CLINT_MTIMECMP)) val\<rparr>
      else if CLINT_MTIME \<le> offset \<and> offset < CLINT_MTIME + 8 then
        d\<lparr>mtime := put_byte (mtime d) (unat (offset - CLINT_MTIME)) val\<rparr>
      else d)"

section \<open>PLIC\<close>

abbreviation PLIC_PRIORITY_BASE :: u64 where "PLIC_PRIORITY_BASE \<equiv> 0x0000"
abbreviation PLIC_PENDING_BASE :: u64 where "PLIC_PENDING_BASE \<equiv> 0x1000"
abbreviation PLIC_ENABLE_BASE :: u64 where "PLIC_ENABLE_BASE \<equiv> 0x2000"
abbreviation PLIC_ENABLE_STRIDE :: u64 where "PLIC_ENABLE_STRIDE \<equiv> 0x80"
abbreviation PLIC_CONTEXT_BASE :: u64 where "PLIC_CONTEXT_BASE \<equiv> 0x200000"
abbreviation PLIC_CONTEXT_STRIDE :: u64 where "PLIC_CONTEXT_STRIDE \<equiv> 0x1000"

text \<open>
  The arrays \<^verbatim>\<open>[u32; 64]\<close>, \<^verbatim>\<open>[u32; 2]\<close> and \<^verbatim>\<open>[[u32; 2]; 2]\<close> are functions of the index; every index the
  code computes is below the array's length (source numbers below 64, word and context numbers below 2).
\<close>

record plic_device =
  priority :: "nat \<Rightarrow> u32"
  pending :: "nat \<Rightarrow> u32"
  enable :: "nat \<Rightarrow> nat \<Rightarrow> u32"
  threshold :: "nat \<Rightarrow> u32"
  claimed :: "nat \<Rightarrow> u32"

definition plic_new :: plic_device where
  "plic_new = \<lparr>priority = (\<lambda>_. 0), pending = (\<lambda>_. 0), enable = (\<lambda>_ _. 0), threshold = (\<lambda>_. 0),
     claimed = (\<lambda>_. 0)\<rparr>"

definition plic_set_pending :: "plic_device \<Rightarrow> u32 \<Rightarrow> plic_device" where
  "plic_set_pending p source =
     (if source = 0 \<or> 64 \<le> source then p
      else
        (let wi = unat (source div 32); b = unat (source mod 32)
         in p\<lparr>pending := (pending p)(wi := pending p wi OR push_bit b 1)\<rparr>))"

definition src_pending :: "plic_device \<Rightarrow> nat \<Rightarrow> bool" where
  "src_pending p src \<longleftrightarrow> drop_bit (src mod 32) (pending p (src div 32)) AND 1 \<noteq> 0"

definition src_enabled :: "plic_device \<Rightarrow> nat \<Rightarrow> nat \<Rightarrow> bool" where
  "src_enabled p ctx src \<longleftrightarrow> drop_bit (src mod 32) (enable p ctx (src div 32)) AND 1 \<noteq> 0"

definition plic_has_pending :: "plic_device \<Rightarrow> nat \<Rightarrow> bool" where
  "plic_has_pending p context' =
     (if 2 \<le> context' then False
      else list_ex (\<lambda>src. src_pending p src \<and> src_enabled p context' src \<and>
             threshold p context' < priority p src) [1..<64])"

text \<open>The selection loop of \<^verbatim>\<open>claim\<close>: the accumulator is \<^verbatim>\<open>(best_src, best_pri)\<close>.\<close>

definition claim_step :: "plic_device \<Rightarrow> nat \<Rightarrow> nat \<Rightarrow> nat \<times> u32 \<Rightarrow> nat \<times> u32" where
  "claim_step p context' src best =
     (let pri = priority p src in
      if src_pending p src \<and> src_enabled p context' src \<and> threshold p context' < pri \<and> snd best < pri
      then (src, pri) else best)"

definition plic_claim :: "plic_device \<Rightarrow> nat \<Rightarrow> u32 \<times> plic_device" where
  "plic_claim p context' =
     (if 2 \<le> context' then (0, p)
      else
        (let best_src = fst (fold (claim_step p context') [1..<64] (0, 0)) in
         if best_src \<noteq> 0 then
           (let wi = best_src div 32; b = best_src mod 32 in
            (of_nat best_src,
             p\<lparr>pending := (pending p)(wi := pending p wi AND NOT (push_bit b 1)),
               claimed := (claimed p)(context' := of_nat best_src)\<rparr>))
         else (0, p)))"

definition plic_complete :: "plic_device \<Rightarrow> nat \<Rightarrow> u32 \<Rightarrow> plic_device" where
  "plic_complete p context' source = p"

text \<open>
  The register decoding shared by \<^verbatim>\<open>read_u32\<close>, \<^verbatim>\<open>read_u32_no_side_effect\<close> and \<^verbatim>\<open>write_u32\<close>, in the order of
  their tests; the loops over the two contexts are unrolled.
\<close>

datatype plic_reg =
    PPriority nat
  | PPending nat
  | PEnable nat nat
  | PThreshold nat
  | PClaim nat
  | PNone

definition plic_decode :: "u64 \<Rightarrow> plic_reg" where
  "plic_decode offset =
     (if offset < PLIC_PRIORITY_BASE + 64 * 4 then
        PPriority (unat ((offset - PLIC_PRIORITY_BASE) div 4))
      else if PLIC_PENDING_BASE \<le> offset \<and> offset < PLIC_PENDING_BASE + 8 then
        PPending (unat ((offset - PLIC_PENDING_BASE) div 4))
      else if PLIC_ENABLE_BASE \<le> offset \<and> offset < PLIC_ENABLE_BASE + 8 then
        PEnable 0 (unat ((offset - PLIC_ENABLE_BASE) div 4))
      else if PLIC_ENABLE_BASE + PLIC_ENABLE_STRIDE \<le> offset
              \<and> offset < PLIC_ENABLE_BASE + PLIC_ENABLE_STRIDE + 8 then
        PEnable 1 (unat ((offset - (PLIC_ENABLE_BASE + PLIC_ENABLE_STRIDE)) div 4))
      else if offset = PLIC_CONTEXT_BASE then PThreshold 0
      else if offset = PLIC_CONTEXT_BASE + 4 then PClaim 0
      else if offset = PLIC_CONTEXT_BASE + PLIC_CONTEXT_STRIDE then PThreshold 1
      else if offset = PLIC_CONTEXT_BASE + PLIC_CONTEXT_STRIDE + 4 then PClaim 1
      else PNone)"

definition plic_read_u32 :: "plic_device \<Rightarrow> u64 \<Rightarrow> u32 \<times> plic_device" where
  "plic_read_u32 p offset =
     (case plic_decode offset of
        PPriority i \<Rightarrow> (priority p i, p)
      | PPending i \<Rightarrow> (if i < 2 then pending p i else 0, p)
      | PEnable ctx i \<Rightarrow> (if i < 2 then enable p ctx i else 0, p)
      | PThreshold ctx \<Rightarrow> (threshold p ctx, p)
      | PClaim ctx \<Rightarrow> plic_claim p ctx
      | PNone \<Rightarrow> (0, p))"

definition plic_write_u32 :: "plic_device \<Rightarrow> u64 \<Rightarrow> u32 \<Rightarrow> plic_device" where
  "plic_write_u32 p offset val =
     (case plic_decode offset of
        PPriority i \<Rightarrow> p\<lparr>priority := (priority p)(i := val)\<rparr>
      | PPending i \<Rightarrow> p
      | PEnable ctx i \<Rightarrow>
          (if i < 2 then p\<lparr>enable := (enable p)(ctx := (enable p ctx)(i := val))\<rparr> else p)
      | PThreshold ctx \<Rightarrow> p\<lparr>threshold := (threshold p)(ctx := val)\<rparr>
      | PClaim ctx \<Rightarrow> plic_complete p ctx val
      | PNone \<Rightarrow> p)"

definition plic_read_u32_no_side_effect :: "plic_device \<Rightarrow> u64 \<Rightarrow> u32" where
  "plic_read_u32_no_side_effect p offset =
     (case plic_decode offset of
        PPriority i \<Rightarrow> priority p i
      | PPending i \<Rightarrow> (if i < 2 then pending p i else 0)
      | PEnable ctx i \<Rightarrow> (if i < 2 then enable p ctx i else 0)
      | PThreshold ctx \<Rightarrow> threshold p ctx
      | PClaim ctx \<Rightarrow> claimed p ctx
      | PNone \<Rightarrow> 0)"

definition plic_read_u8 :: "plic_device \<Rightarrow> u64 \<Rightarrow> u8 \<times> plic_device" where
  "plic_read_u8 p offset =
     (let aligned = offset AND NOT 0x3; byte_idx = unat (offset AND 0x3);
          word' = plic_read_u32_no_side_effect p aligned
      in (ucast (drop_bit (byte_idx * 8) word'), p))"

definition plic_write_u8 :: "plic_device \<Rightarrow> u64 \<Rightarrow> u8 \<Rightarrow> plic_device" where
  "plic_write_u8 p offset val =
     (let aligned = offset AND NOT 0x3; byte_idx = unat (offset AND 0x3);
          old = plic_read_u32_no_side_effect p aligned;
          new = put_byte old byte_idx val
      in plic_write_u32 p aligned new)"

section \<open>The controller\<close>

abbreviation UART_BASE :: u64 where "UART_BASE \<equiv> 0x10000000"
abbreviation UART_SIZE :: u64 where "UART_SIZE \<equiv> 8"
abbreviation CLINT_BASE :: u64 where "CLINT_BASE \<equiv> 0x02000000"
abbreviation CLINT_SIZE :: u64 where "CLINT_SIZE \<equiv> 0x10000"
abbreviation PLIC_BASE :: u64 where "PLIC_BASE \<equiv> 0x0C000000"
abbreviation PLIC_SIZE :: u64 where "PLIC_SIZE \<equiv> 0x04000000"

record mmio_controller =
  uart :: uart_device
  clint :: clint_device
  plic :: plic_device
  virtio_devices :: "virtio_device list"

definition mmio_new :: mmio_controller where
  "mmio_new = \<lparr>uart = uart_new, clint = clint_new, plic = plic_new, virtio_devices = []\<rparr>"

definition mmio_with_uart :: "uart_device \<Rightarrow> mmio_controller" where
  "mmio_with_uart u = \<lparr>uart = u, clint = clint_new, plic = plic_new, virtio_devices = []\<rparr>"

definition mmio_new_with_devices ::
  "uart_device \<Rightarrow> clint_device \<Rightarrow> plic_device \<Rightarrow> virtio_device list \<Rightarrow> mmio_controller" where
  "mmio_new_with_devices u cl p devs = \<lparr>uart = u, clint = cl, plic = p, virtio_devices = devs\<rparr>"

abbreviation in_range :: "u64 \<Rightarrow> u64 \<Rightarrow> u64 \<Rightarrow> bool" where
  "in_range base size' addr \<equiv> base \<le> addr \<and> addr < base + size'"

text \<open>The loop over the VirtIO devices: the first window that contains the address.\<close>

definition virtio_window :: "mmio_controller \<Rightarrow> u64 \<Rightarrow> nat option" where
  "virtio_window c addr =
     find (\<lambda>i. in_range (VIRTIO_BASE + of_nat i * VIRTIO_SIZE) VIRTIO_SIZE addr)
       [0..<length (virtio_devices c)]"

abbreviation virtio_base :: "nat \<Rightarrow> u64" where
  "virtio_base i \<equiv> VIRTIO_BASE + of_nat i * VIRTIO_SIZE"

definition mmio_read_byte :: "mmio_controller \<Rightarrow> u64 \<Rightarrow> u8 option \<times> mmio_controller" where
  "mmio_read_byte c addr =
     (if in_range UART_BASE UART_SIZE addr then
        (let (b, u) = uart_read_mut (uart c) (addr - UART_BASE) in (Some b, c\<lparr>uart := u\<rparr>))
      else if in_range CLINT_BASE CLINT_SIZE addr then
        (Some (clint_read_u8 (clint c) (addr - CLINT_BASE)), c)
      else if in_range PLIC_BASE PLIC_SIZE addr then
        (let (b, p) = plic_read_u8 (plic c) (addr - PLIC_BASE) in (Some b, c\<lparr>plic := p\<rparr>))
      else
        (case virtio_window c addr of
           Some i \<Rightarrow> (Some (virtio_read_u8 (virtio_devices c ! i) (addr - virtio_base i)), c)
         | None \<Rightarrow> (None, c)))"

definition mmio_write_byte :: "mmio_controller \<Rightarrow> u64 \<Rightarrow> u8 \<Rightarrow> bool \<times> mmio_controller" where
  "mmio_write_byte c addr val =
     (if in_range UART_BASE UART_SIZE addr then
        (True, c\<lparr>uart := uart_write (uart c) (addr - UART_BASE) val\<rparr>)
      else if in_range CLINT_BASE CLINT_SIZE addr then
        (True, c\<lparr>clint := clint_write_u8 (clint c) (addr - CLINT_BASE) val\<rparr>)
      else if in_range PLIC_BASE PLIC_SIZE addr then
        (True, c\<lparr>plic := plic_write_u8 (plic c) (addr - PLIC_BASE) val\<rparr>)
      else
        (case virtio_window c addr of
           Some i \<Rightarrow>
             (True, c\<lparr>virtio_devices := (virtio_devices c)
                [i := virtio_write_u8 (virtio_devices c ! i) (addr - virtio_base i) val]\<rparr>)
         | None \<Rightarrow> (False, c)))"

end
