(* ===== verification/Rv_Alu.thy ===== *)
theory Rv_Alu
  imports Rv_Isa "HOL-Library.Signed_Division"
begin

text \<open>
  The arithmetic of the interpreter loop (\<^verbatim>\<open>Vm::execute\<close> in \<^verbatim>\<open>crates/riscv/src/vm.rs\<close>): what each immediate,
  register, multiply/divide, 32-bit and atomic instruction computes from its operands. Signed Rust
  arithmetic is on the same words: \<^verbatim>\<open>as i64\<close> comparisons read them with \<open>sint\<close>, \<^verbatim>\<open>>>\<close> on a signed value is
  \<open>signed_drop_bit\<close>, \<^verbatim>\<open>i128\<close> and \<^verbatim>\<open>u128\<close> are 128-bit words, and \<^verbatim>\<open>/\<close> and \<^verbatim>\<open>%\<close> on signed values truncate
  towards zero (\<open>sdiv\<close> and \<open>smod\<close>). The division operators of Rust panic on a zero divisor and, signed, on
  \<^verbatim>\<open>MIN / -1\<close> and \<^verbatim>\<open>MIN % -1\<close>, in every build profile: they are partial here, and so are the results of the
  instructions that use them.
\<close>

type_synonym u128 = "128 word"

section \<open>RV64I\<close>

fun imm_result :: "imm_op \<Rightarrow> u64 \<Rightarrow> i32 \<Rightarrow> u64" where
  "imm_result Addi a imm = a + sx imm"
| "imm_result Slti a imm = u64_of_bool (sint a < sint (sx imm))"
| "imm_result Sltiu a imm = u64_of_bool (a < sx imm)"
| "imm_result Xori a imm = a XOR sx imm"
| "imm_result Ori a imm = a OR sx imm"
| "imm_result Andi a imm = a AND sx imm"
| "imm_result Slli a imm = push_bit (unat (imm AND 0x3F)) a"
| "imm_result Srli a imm = drop_bit (unat (imm AND 0x3F)) a"
| "imm_result Srai a imm = signed_drop_bit (unat (imm AND 0x3F)) a"

fun reg_result :: "reg_op \<Rightarrow> u64 \<Rightarrow> u64 \<Rightarrow> u64" where
  "reg_result Add a b = a + b"
| "reg_result Sub a b = a - b"
| "reg_result Sll a b = push_bit (unat (b AND 0x3F)) a"
| "reg_result Slt a b = u64_of_bool (sint a < sint b)"
| "reg_result Sltu a b = u64_of_bool (a < b)"
| "reg_result Xor a b = a XOR b"
| "reg_result Srl a b = drop_bit (unat (b AND 0x3F)) a"
| "reg_result Sra a b = signed_drop_bit (unat (b AND 0x3F)) a"
| "reg_result Or a b = a OR b"
| "reg_result And a b = a AND b"

fun branch_taken :: "branch_op \<Rightarrow> u64 \<Rightarrow> u64 \<Rightarrow> bool" where
  "branch_taken Beq a b \<longleftrightarrow> a = b"
| "branch_taken Bne a b \<longleftrightarrow> a \<noteq> b"
| "branch_taken Blt a b \<longleftrightarrow> sint a < sint b"
| "branch_taken Bge a b \<longleftrightarrow> sint b \<le> sint a"
| "branch_taken Bltu a b \<longleftrightarrow> a < b"
| "branch_taken Bgeu a b \<longleftrightarrow> b \<le> a"

section \<open>RV64M\<close>

definition mulh :: "u64 \<Rightarrow> u64 \<Rightarrow> u64" where
  "mulh a b = ucast (signed_drop_bit 64 (scast a * scast b :: u128))"

definition mulhsu :: "u64 \<Rightarrow> u64 \<Rightarrow> u64" where
  "mulhsu a b = ucast (signed_drop_bit 64 (scast a * ucast b :: u128))"

definition mulhu :: "u64 \<Rightarrow> u64 \<Rightarrow> u64" where
  "mulhu a b = ucast (drop_bit 64 (ucast a * ucast b :: u128))"

text \<open>The operators \<^verbatim>\<open>/\<close> and \<^verbatim>\<open>%\<close> of Rust on unsigned and on signed operands; \<open>None\<close> is their panic.\<close>

definition udiv_op :: "'a::len word \<Rightarrow> 'a word \<Rightarrow> 'a word option" where
  "udiv_op a b = (if b = 0 then None else Some (a div b))"

definition urem_op :: "'a::len word \<Rightarrow> 'a word \<Rightarrow> 'a word option" where
  "urem_op a b = (if b = 0 then None else Some (a mod b))"

definition signed_overflow :: "'a::len word \<Rightarrow> 'a word \<Rightarrow> bool" where
  "signed_overflow a b \<longleftrightarrow> a = push_bit (LENGTH('a) - 1) 1 \<and> b = - 1"

definition idiv_op :: "'a::len word \<Rightarrow> 'a word \<Rightarrow> 'a word option" where
  "idiv_op a b = (if b = 0 \<or> signed_overflow a b then None else Some (word_of_int (sint a sdiv sint b)))"

definition irem_op :: "'a::len word \<Rightarrow> 'a word \<Rightarrow> 'a word option" where
  "irem_op a b = (if b = 0 \<or> signed_overflow a b then None else Some (word_of_int (sint a smod sint b)))"

text \<open>\<^verbatim>\<open>i64::MIN\<close> is \<open>0x8000000000000000\<close>; \<open>- 1\<close> is both \<^verbatim>\<open>-1i64\<close> and \<^verbatim>\<open>u64::MAX\<close>.\<close>

definition div64 :: "u64 \<Rightarrow> u64 \<Rightarrow> u64 option" where
  "div64 a b =
     (if b = 0 then Some (- 1)
      else if a = 0x8000000000000000 \<and> b = - 1 then Some a
      else idiv_op a b)"

definition divu64 :: "u64 \<Rightarrow> u64 \<Rightarrow> u64 option" where
  "divu64 a b = (if b = 0 then Some (- 1) else udiv_op a b)"

definition rem64 :: "u64 \<Rightarrow> u64 \<Rightarrow> u64 option" where
  "rem64 a b =
     (if b = 0 then Some a
      else if a = 0x8000000000000000 \<and> b = - 1 then Some 0
      else irem_op a b)"

definition remu64 :: "u64 \<Rightarrow> u64 \<Rightarrow> u64 option" where
  "remu64 a b = (if b = 0 then Some a else urem_op a b)"

fun mul_result :: "mul_op \<Rightarrow> u64 \<Rightarrow> u64 \<Rightarrow> u64 option" where
  "mul_result Mul a b = Some (a * b)"
| "mul_result Mulh a b = Some (mulh a b)"
| "mul_result Mulhsu a b = Some (mulhsu a b)"
| "mul_result Mulhu a b = Some (mulhu a b)"
| "mul_result Div a b = div64 a b"
| "mul_result Divu a b = divu64 a b"
| "mul_result Rem a b = rem64 a b"
| "mul_result Remu a b = remu64 a b"

section \<open>32-bit variants\<close>

text \<open>\<^verbatim>\<open>x as u32\<close> and \<^verbatim>\<open>x as i32\<close> keep the low half.\<close>

abbreviation lo32 :: "u64 \<Rightarrow> u32" where
  "lo32 a \<equiv> ucast a"

fun immw_result :: "immw_op \<Rightarrow> u64 \<Rightarrow> i32 \<Rightarrow> u64" where
  "immw_result Addiw a imm = sx (lo32 a + imm)"
| "immw_result Slliw a imm = sx (push_bit (unat (imm AND 0x1F)) (lo32 a))"
| "immw_result Srliw a imm = sx (drop_bit (unat (imm AND 0x1F)) (lo32 a))"
| "immw_result Sraiw a imm = sx (signed_drop_bit (unat (imm AND 0x1F)) (lo32 a))"

fun regw_result :: "regw_op \<Rightarrow> u64 \<Rightarrow> u64 \<Rightarrow> u64" where
  "regw_result Addw a b = sx (lo32 a + lo32 b)"
| "regw_result Subw a b = sx (lo32 a - lo32 b)"
| "regw_result Sllw a b = sx (push_bit (unat (b AND 0x1F)) (lo32 a))"
| "regw_result Srlw a b = sx (drop_bit (unat (b AND 0x1F)) (lo32 a))"
| "regw_result Sraw a b = sx (signed_drop_bit (unat (b AND 0x1F)) (lo32 a))"

definition divw :: "u32 \<Rightarrow> u32 \<Rightarrow> u64 option" where
  "divw a b =
     (if b = 0 then Some (- 1)
      else if a = 0x80000000 \<and> b = - 1 then Some (sx a)
      else map_option sx (idiv_op a b))"

definition divuw :: "u32 \<Rightarrow> u32 \<Rightarrow> u64 option" where
  "divuw a b = (if b = 0 then Some (- 1) else map_option sx (udiv_op a b))"

definition remw :: "u32 \<Rightarrow> u32 \<Rightarrow> u64 option" where
  "remw a b =
     (if b = 0 then Some (sx a)
      else if a = 0x80000000 \<and> b = - 1 then Some 0
      else map_option sx (irem_op a b))"

definition remuw :: "u32 \<Rightarrow> u32 \<Rightarrow> u64 option" where
  "remuw a b = (if b = 0 then Some (sx a) else map_option sx (urem_op a b))"

fun mulw_result :: "mulw_op \<Rightarrow> u64 \<Rightarrow> u64 \<Rightarrow> u64 option" where
  "mulw_result Mulw a b = Some (sx (lo32 a * lo32 b))"
| "mulw_result Divw a b = divw (lo32 a) (lo32 b)"
| "mulw_result Divuw a b = divuw (lo32 a) (lo32 b)"
| "mulw_result Remw a b = remw (lo32 a) (lo32 b)"
| "mulw_result Remuw a b = remuw (lo32 a) (lo32 b)"

section \<open>Atomic memory operations\<close>

text \<open>The value an AMO stores, from the old memory value and the source operand, at either width.\<close>

fun amo_result :: "amo_op \<Rightarrow> 'a::len word \<Rightarrow> 'a word \<Rightarrow> 'a word" where
  "amo_result AmoSwap old src = src"
| "amo_result AmoAdd old src = old + src"
| "amo_result AmoAnd old src = old AND src"
| "amo_result AmoOr old src = old OR src"
| "amo_result AmoXor old src = old XOR src"
| "amo_result AmoMax old src = (if sint old \<le> sint src then src else old)"
| "amo_result AmoMin old src = (if sint src < sint old then src else old)"
| "amo_result AmoMaxu old src = (if old \<le> src then src else old)"
| "amo_result AmoMinu old src = (if src < old then src else old)"

section \<open>Division\<close>

lemma lo32_sx [simp]: "lo32 (sx w) = w" for w :: u32
  by (rule bit_word_eqI) (auto simp: bit_ucast_iff bit_signed_iff min_def not_le less_Suc_eq dest: le_antisym)

lemma signed_parts:
  fixes a b :: "'a::len word"
  shows "word_of_int (sint a sdiv sint b) * b + word_of_int (sint a smod sint b) = a"
proof -
  have "word_of_int (sint a sdiv sint b) * word_of_int (sint b) + word_of_int (sint a smod sint b) =
      (word_of_int (sint a) :: 'a word)"
    by (simp only: sdiv_mult_smod_eq flip: of_int_mult of_int_add)
  then show ?thesis by simp
qed

text \<open>
  The special cases of the instructions cover every panic of the operators: the results as total functions.
\<close>

lemma division_values:
  "div64 a b = Some (if b = 0 then - 1 else if a = 0x8000000000000000 \<and> b = - 1 then a
     else word_of_int (sint a sdiv sint b))"
  "rem64 a b = Some (if b = 0 then a else if a = 0x8000000000000000 \<and> b = - 1 then 0
     else word_of_int (sint a smod sint b))"
  "divu64 a b = Some (if b = 0 then - 1 else a div b)"
  "remu64 a b = Some (if b = 0 then a else a mod b)"
  by (simp_all add: div64_def rem64_def divu64_def remu64_def udiv_op_def urem_op_def idiv_op_def irem_op_def
      signed_overflow_def)

lemma division_values_w:
  "divw v w = Some (if w = 0 then - 1 else if v = 0x80000000 \<and> w = - 1 then sx v
     else sx (word_of_int (sint v sdiv sint w) :: u32))"
  "remw v w = Some (if w = 0 then sx v else if v = 0x80000000 \<and> w = - 1 then 0
     else sx (word_of_int (sint v smod sint w) :: u32))"
  "divuw v w = Some (if w = 0 then - 1 else sx (v div w))"
  "remuw v w = Some (if w = 0 then sx v else sx (v mod w))"
  by (simp_all add: divw_def remw_def divuw_def remuw_def udiv_op_def urem_op_def idiv_op_def irem_op_def
      signed_overflow_def)

lemma mul_result_total: "\<exists>r. mul_result op a b = Some r" "\<exists>r. mulw_result wop a b = Some r"
  by (cases op; simp only: mul_result.simps division_values option.inject; blast)
    (cases wop; simp only: mulw_result.simps division_values_w option.inject; blast)

text \<open>The equation that ties a quotient to its remainder, with the divisor and the dividend.\<close>

definition division_fits :: "'a::len word option \<Rightarrow> 'a word option \<Rightarrow> 'a word \<Rightarrow> 'a word \<Rightarrow> bool" where
  "division_fits q r b a \<longleftrightarrow> (\<exists>x y. q = Some x \<and> r = Some y \<and> x * b + y = a)"

lemma division_pairs:
  "division_fits (div64 a b) (rem64 a b) b a" "division_fits (divu64 a b) (remu64 a b) b a"
  "division_fits (map_option lo32 (divw v w)) (map_option lo32 (remw v w)) w v"
  "division_fits (map_option lo32 (divuw v w)) (map_option lo32 (remuw v w)) w v"
  by (simp_all add: division_fits_def division_values division_values_w signed_parts div_mult_mod_eq)

section \<open>High products\<close>

lemma high_word:
  "(ucast (signed_drop_bit 64 (word_of_int x :: u128)) :: u64) = word_of_int (x div 2 ^ 64)"
proof -
  have "x div 2 ^ 64 = drop_bit 64 x" by (simp only: drop_bit_eq_div)
  then show ?thesis
    by (intro bit_word_eqI)
      (simp add: bit_ucast_iff bit_signed_drop_bit_iff bit_word_of_int_iff bit_drop_bit_eq)
qed

lemma high_sint:
  assumes "- (2 ^ 127) \<le> x" and "x < 2 ^ 127"
  shows "sint (word_of_int (x div 2 ^ 64) :: u64) = x div 2 ^ 64"
proof -
  have "- (2 ^ 63) \<le> x div 2 ^ 64" using zdiv_mono1 [OF assms(1), of "2 ^ 64"] by simp
  moreover have "x div 2 ^ 64 < 2 ^ 63"
    using zdiv_mono1 [of x "2 ^ 127 - 1" "2 ^ 64"] assms(2) by simp
  ultimately show ?thesis by (simp add: sint_sbintrunc' signed_take_bit_int_eq_self)
qed

lemma sint_abs_le: "\<bar>sint (a :: u64)\<bar> \<le> 2 ^ 63"
  using sint_greater_eq [of a] sint_less [of a] by simp

lemma mult_abs_bounds:
  fixes x y :: int
  assumes "\<bar>x\<bar> \<le> 2 ^ 63" and "\<bar>y\<bar> < 2 ^ 64"
  shows "- (2 ^ 127) \<le> x * y" and "x * y < 2 ^ 127"
proof -
  have "\<bar>x * y\<bar> \<le> 2 ^ 63 * (2 ^ 64 - 1)"
    unfolding abs_mult using assms by (intro mult_mono) auto
  then show "- (2 ^ 127) \<le> x * y" "x * y < 2 ^ 127" by (simp_all add: abs_le_iff)
qed

lemma product_split:
  assumes "a * b = word_of_int x" and "- (2 ^ 127) \<le> x" and "x < 2 ^ 127"
  shows "sint (word_of_int (x div 2 ^ 64) :: u64) * 2 ^ 64 + uint (a * b :: u64) = x"
proof -
  have "uint (a * b) = x mod 2 ^ 64" by (simp add: assms(1) uint_word_of_int)
  then show ?thesis by (simp only: high_sint [OF assms(2,3)] div_mult_mod_eq)
qed

lemma mulh_product: "sint (mulh a b) * 2 ^ 64 + uint (a * b) = sint a * sint b"
proof -
  have y: "\<bar>sint b\<bar> < 2 ^ 64" using sint_abs_le [of b] by simp
  have "mulh a b = word_of_int (sint a * sint b div 2 ^ 64)"
    by (simp only: mulh_def scast_eq high_word flip: of_int_mult)
  moreover have "a * b = word_of_int (sint a * sint b)" by simp
  ultimately show ?thesis
    using product_split mult_abs_bounds [OF sint_abs_le [of a] y] by metis
qed

lemma mulhsu_product: "sint (mulhsu a b) * 2 ^ 64 + uint (a * b) = sint a * uint b"
proof -
  have y: "\<bar>uint b\<bar> < 2 ^ 64" using uint_lt2p [of b] by simp
  have "mulhsu a b = word_of_int (sint a * uint b div 2 ^ 64)"
    by (simp only: mulhsu_def scast_eq ucast_eq [of b] high_word flip: of_int_mult)
  moreover have "a * b = word_of_int (sint a * uint b)" by simp
  ultimately show ?thesis
    using product_split mult_abs_bounds [OF sint_abs_le [of a] y] by metis
qed

lemma mulhu_product: "uint (mulhu a b) * 2 ^ 64 + uint (a * b) = uint a * uint b"
proof -
  have lt: "uint a * uint b < 2 ^ 64 * 2 ^ 64"
    using uint_lt2p [of a] uint_lt2p [of b] by (intro mult_strict_mono) auto
  have w: "uint (ucast c :: u128) = uint c" for c :: u64
    using uint_lt2p [of c] by (simp add: unsigned_ucast_eq take_bit_int_eq_self)
  have P: "uint (ucast a * ucast b :: u128) = uint a * uint b"
    using lt by (simp add: uint_word_ariths w)
  have tb: "take_bit LENGTH(128) (uint a * uint b) = uint a * uint b"
    using lt by (simp add: take_bit_int_eq_self)
  have d: "uint (drop_bit 64 (ucast a * ucast b :: u128)) = uint a * uint b div 2 ^ 64"
    by (simp only: unsigned_drop_bit_eq P tb) (simp only: drop_bit_eq_div)
  have "uint a * uint b div 2 ^ 64 < 2 ^ 64"
    using zdiv_mono1 [of "uint a * uint b" "2 ^ 128 - 1" "2 ^ 64"] lt by simp
  then have "uint (mulhu a b) = uint a * uint b div 2 ^ 64"
    by (simp only: mulhu_def unsigned_ucast_eq d) (simp add: take_bit_int_eq_self pos_imp_zdiv_nonneg_iff)
  moreover have "uint (a * b) = uint a * uint b mod 2 ^ 64"
    by (simp add: uint_word_ariths)
  ultimately show ?thesis by (simp only: div_mult_mod_eq)
qed

lemma word_of_int_sint: "word_of_int (sint w) = w" for w :: "'a::len word"
  by simp

lemma sint_nonzero: "w \<noteq> 0 \<Longrightarrow> sint w \<noteq> 0" for w :: "'a::len word"
  using word_of_int_sint [of w] by (metis of_int_0)

lemma sint_quotient:
  fixes a b :: u64
  assumes "b \<noteq> 0" and "\<not> (a = 0x8000000000000000 \<and> b = - 1)"
  shows "sint (word_of_int (sint a sdiv sint b) :: u64) = sint a sdiv sint b"
    and "sint (word_of_int (sint a smod sint b) :: u64) = sint a smod sint b"
proof -
  have r: "- (2 ^ 63) \<le> sint a" "sint a < 2 ^ 63" "- (2 ^ 63) \<le> sint b" "sint b < 2 ^ 63"
    using sint_greater_eq [of a] sint_less [of a] sint_greater_eq [of b] sint_less [of b] by simp_all
  have "sint a sdiv sint b \<noteq> 2 ^ 63"
  proof
    assume e: "sint a sdiv sint b = 2 ^ 63"
    have "\<bar>sint a\<bar> = 2 ^ 63"
      using sdiv_int_range [of "sint a" "sint b"] e r by auto
    then have "sint a = - (2 ^ 63)" using r by linarith
    moreover from this e have "sint a sdiv sint b = - sint a" and "sint a \<noteq> 0" by simp_all
    then have "sint b = - 1" by (metis int_sdiv_negated_is_minus1)
    ultimately have "a = word_of_int (- (2 ^ 63))" "b = word_of_int (- 1)"
      using word_of_int_sint [of a] word_of_int_sint [of b] by simp_all
    then show False using assms(2) by simp
  qed
  then have "- (2 ^ 63) \<le> sint a sdiv sint b \<and> sint a sdiv sint b < 2 ^ 63"
    using sdiv_int_range [of "sint a" "sint b"] r by auto
  then show "sint (word_of_int (sint a sdiv sint b) :: u64) = sint a sdiv sint b"
    by (simp add: sint_sbintrunc' signed_take_bit_int_eq_self)
  have "- (2 ^ 63) \<le> sint a smod sint b \<and> sint a smod sint b < 2 ^ 63"
    using smod_int_range [of "sint b" "sint a"] sint_nonzero [OF assms(1)] r by auto
  then show "sint (word_of_int (sint a smod sint b) :: u64) = sint a smod sint b"
    by (simp add: sint_sbintrunc' signed_take_bit_int_eq_self)
qed

section \<open>Sign extension\<close>

text \<open>A canonical 32-bit result: the upper half repeats bit 31.\<close>

definition sext32 :: "u64 \<Rightarrow> bool" where
  "sext32 r \<longleftrightarrow> sx (lo32 r) = r"

lemma sext32_simps [simp]: "sext32 (sx w)" "sext32 (- 1)" "sext32 0" "sext32 (- 0x80000000)" for w :: u32
proof -
  have "sx (lo32 (- 1)) = - 1"
    by (rule bit_word_eqI) (simp add: bit_signed_iff bit_ucast_iff min_def)
  then show "sext32 (sx w)" "sext32 (- 1)" "sext32 0" "sext32 (- 0x80000000)" by (simp_all add: sext32_def)
qed

section \<open>Properties\<close>

text \<open>
  Division and remainder fit together for all operands, division by zero and signed overflow
  included: quotient times divisor plus remainder is the dividend, in the signed and unsigned, 64-bit
  and 32-bit instructions. Outside the two special cases the results are the truncating quotient and
  remainder of the integers.
\<close>

theorem division_correct:
  "division_fits (div64 a b) (rem64 a b) b a \<and> division_fits (divu64 a b) (remu64 a b) b a \<and>
   division_fits (map_option lo32 (divw v w)) (map_option lo32 (remw v w)) w v \<and>
   division_fits (map_option lo32 (divuw v w)) (map_option lo32 (remuw v w)) w v \<and>
   div64 a 0 = Some (- 1) \<and> divu64 a 0 = Some (- 1) \<and> divw v 0 = Some (- 1) \<and> divuw v 0 = Some (- 1) \<and>
   (if b = 0 \<or> signed_overflow a b then rem64 a b \<in> {Some a, Some 0}
    else map_option sint (div64 a b) = Some (sint a sdiv sint b) \<and>
      map_option sint (rem64 a b) = Some (sint a smod sint b) \<and> \<bar>sint a smod sint b\<bar> < \<bar>sint b\<bar>)"
proof -
  have "map_option sint (div64 a b) = Some (sint a sdiv sint b) \<and>
      map_option sint (rem64 a b) = Some (sint a smod sint b) \<and> \<bar>sint a smod sint b\<bar> < \<bar>sint b\<bar>"
    if "b \<noteq> 0" "\<not> (a = 0x8000000000000000 \<and> b = - 1)"
  proof -
    have "sint b \<noteq> 0" using that(1) by (rule sint_nonzero)
    then show ?thesis
      using that sint_quotient [OF that] smod_int_range [of "sint b" "sint a"]
      by (simp add: division_values abs_less_iff)
  qed
  then show ?thesis
    using division_pairs by (auto simp: division_values division_values_w signed_overflow_def)
qed

text \<open>
  The multiply instructions give the two halves of the full 128-bit product, for every
  combination of signed and unsigned operands.
\<close>

theorem multiply_high_correct:
  "\<exists>h hsu hu l. mul_result Mulh a b = Some h \<and> mul_result Mulhsu a b = Some hsu \<and> mul_result Mulhu a b = Some hu \<and>
   mul_result Mul a b = Some l \<and> sint h * 2 ^ 64 + uint l = sint a * sint b \<and>
   sint hsu * 2 ^ 64 + uint l = sint a * uint b \<and> uint hu * 2 ^ 64 + uint l = uint a * uint b"
  using mulh_product [of a b] mulhsu_product [of a b] mulhu_product [of a b] by simp

text \<open>
  Every 32-bit instruction leaves a sign-extended value in its 64-bit destination, whatever the
  upper halves of its operands hold, and depends on the low halves (and the shift amount) only.
\<close>

theorem word_results_sign_extended:
  "sext32 (immw_result iop a imm) \<and> sext32 (regw_result rop a b) \<and> (\<exists>r. mulw_result mop a b = Some r \<and> sext32 r) \<and>
   immw_result iop (zx (lo32 a)) imm = immw_result iop a imm \<and>
   regw_result rop (zx (lo32 a)) (zx (lo32 b)) = regw_result rop a b \<and>
   mulw_result mop (zx (lo32 a)) (zx (lo32 b)) = mulw_result mop a b"
proof -
  have lo: "lo32 (zx (lo32 c)) = lo32 c" for c by (rule bit_word_eqI) (simp add: bit_ucast_iff)
  have sh: "zx (lo32 b) AND 0x1F = b AND 0x1F" 
  proof -
    have m: "(0x1F :: u64) = mask 5" by (simp add: mask_eq_exp_minus_1)
    show ?thesis unfolding m by (rule bit_word_eqI) (auto simp: bit_and_iff bit_mask_iff bit_ucast_iff)
  qed
  have "sext32 (immw_result iop a imm) \<and> immw_result iop (zx (lo32 a)) imm = immw_result iop a imm"
    by (cases iop) (simp_all add: lo)
  moreover have "sext32 (regw_result rop a b) \<and> regw_result rop (zx (lo32 a)) (zx (lo32 b)) = regw_result rop a b"
    by (cases rop) (simp_all add: lo sh)
  moreover have "(\<exists>r. mulw_result mop a b = Some r \<and> sext32 r) \<and>
      mulw_result mop (zx (lo32 a)) (zx (lo32 b)) = mulw_result mop a b"
    by (cases mop) (simp_all add: lo division_values_w)
  ultimately show ?thesis by simp
qed

text \<open>
  Shifts and comparisons compute their integer meaning: a left shift multiplies modulo \<open>2^64\<close>, the
  logical and arithmetic right shifts divide the unsigned and signed value rounding down, for the six
  low bits of the shift amount, and the set and branch instructions compare the values they name.
\<close>

theorem shifts_and_comparisons:
  "uint (reg_result Sll a b) = uint a * 2 ^ (unat b mod 64) mod 2 ^ 64 \<and>
   uint (reg_result Srl a b) = uint a div 2 ^ (unat b mod 64) \<and>
   sint (reg_result Sra a b) = sint a div 2 ^ (unat b mod 64) \<and>
   (reg_result Slt a b = 1 \<longleftrightarrow> sint a < sint b) \<and> (reg_result Sltu a b = 1 \<longleftrightarrow> uint a < uint b) \<and>
   (branch_taken Blt a b \<longleftrightarrow> sint a < sint b) \<and> (branch_taken Bge a b \<longleftrightarrow> \<not> sint a < sint b) \<and>
   (branch_taken Bltu a b \<longleftrightarrow> uint a < uint b) \<and> (branch_taken Bgeu a b \<longleftrightarrow> \<not> uint a < uint b)"
proof -
  have k: "unat (b AND 0x3F) = unat b mod 64"
    using unat_and_pow2_mask [of b 6] by (simp add: mask_eq_exp_minus_1)
  have "uint (push_bit n a) = uint a * 2 ^ n mod 2 ^ 64" for n
    by (simp only: unsigned_push_bit_eq) (simp add: take_bit_eq_mod push_bit_eq_mult)
  moreover have "uint (drop_bit n a) = uint a div 2 ^ n" for n
    by (simp only: unsigned_drop_bit_eq) (simp add: drop_bit_eq_div take_bit_int_eq_self uint_lt2p [of a, simplified])
  moreover have "sint (signed_drop_bit n a) = sint a div 2 ^ n" for n
    by (simp only: sint_signed_drop_bit_eq drop_bit_eq_div)
  ultimately show ?thesis
    by (simp add: k u64_of_bool_def word_less_def word_le_def not_less)
qed

text \<open>
  The atomic read-modify-write operations store the minimum or maximum of the old value and the
  operand, in the signed or the unsigned order, at either width.
\<close>

theorem amo_minmax:
  "sint (amo_result AmoMax old src) = max (sint old) (sint src) \<and>
   sint (amo_result AmoMin old src) = min (sint old) (sint src) \<and>
   amo_result AmoMaxu old src = max old src \<and> amo_result AmoMinu old src = min old src"
  by (auto simp: max_def min_def)

end
