(* ===== verification/Rv_Vm.thy ===== *)
theory Rv_Vm
  imports Rv_Decode Rv_Trap Rv_Mmu Rv_Mmio Rv_Alu
begin

text \<open>
  The machine state of \<^verbatim>\<open>crates/riscv/src/vm.rs\<close> and everything around the execution of an instruction:
  the TLB, address translation with page-fault delivery, loads and stores that go to a device or to
  memory, LR/SC reservations, device ticks and interrupt delivery.
\<close>

section \<open>State\<close>

datatype vm_error = DecodeErr decode_error | Halted | Ebreak u64

record tlb_entry =
  te_vpn :: u64
  te_ppn :: u64
  te_satp :: u64
  te_readable :: bool
  te_writable :: bool
  te_executable :: bool

text \<open>\<^verbatim>\<open>tlb: [Option<TlbEntry>; 256]\<close> is indexed by the low 8 bits of the virtual page number.\<close>

record vm =
  cpu :: cpu_state
  ram :: memory
  halted :: bool
  exit_code :: "u64 option"
  mmio :: mmio_controller
  privileged :: bool
  reservation :: "(u64 \<times> u8) option"
  insn_len :: u8
  last_fetched :: "(instruction \<times> u8) option"
  tlb :: "8 word \<Rightarrow> tlb_entry option"

definition vm_new_with_mmio :: "cpu_state \<Rightarrow> memory \<Rightarrow> mmio_controller \<Rightarrow> vm" where
  "vm_new_with_mmio c m io =
     \<lparr>cpu = c, ram = m, halted = False, exit_code = None, mmio = io, privileged = False,
      reservation = None, insn_len = 4, last_fetched = None, tlb = (\<lambda>_. None)\<rparr>"

definition vm_new :: "cpu_state \<Rightarrow> memory \<Rightarrow> vm" where
  "vm_new c m =
     \<lparr>cpu = c, ram = m, halted = False, exit_code = None, mmio = mmio_new, privileged = False,
      reservation = None, insn_len = 4, last_fetched = None, tlb = (\<lambda>_. None)\<rparr>"

definition vm_new_privileged :: "cpu_state \<Rightarrow> memory \<Rightarrow> vm" where
  "vm_new_privileged c m =
     \<lparr>cpu = c, ram = m, halted = False, exit_code = None, mmio = mmio_new, privileged = True,
      reservation = None, insn_len = 4, last_fetched = None, tlb = (\<lambda>_. None)\<rparr>"

text \<open>
  Outcomes. \<open>None\<close> is a panic; otherwise the new state comes with the \<^verbatim>\<open>Result<(), VmError>\<close>. A function
  that delivers a page fault instead of a result returns \<open>Inl ()\<close>.
\<close>

type_synonym exec_result = "((vm_error + unit) \<times> vm) option"

definition ok :: "vm \<Rightarrow> exec_result" where
  "ok s = Some (Inr (), s)"

section \<open>Traps raised by the machine\<close>

definition raise_trap :: "vm \<Rightarrow> trap_cause \<Rightarrow> u64 \<Rightarrow> u64 \<Rightarrow> vm option" where
  "raise_trap s cause tval epc = do {
     c \<leftarrow> deliver_trap (cpu s) cause tval epc;
     Some (s\<lparr>cpu := c\<rparr>)
   }"

section \<open>Address translation\<close>

definition translation_active :: "vm \<Rightarrow> bool option" where
  "translation_active s =
     (if \<not> privileged s then Some False
      else do {
        satp \<leftarrow> read_unchecked (csrs (cpu s)) A_SATP;
        let mode = drop_bit 60 satp AND 0xF;
        if mode = 0 then Some False else Some (priv_mode (cpu s) \<noteq> Machine)
      })"

definition tlb_index :: "u64 \<Rightarrow> 8 word" where
  "tlb_index vp = ucast (vp AND 255)"

fun te_allows :: "access_type \<Rightarrow> tlb_entry \<Rightarrow> bool" where
  "te_allows Execute e = te_executable e"
| "te_allows Read e = te_readable e"
| "te_allows Write e = te_writable e"

definition tlb_lookup :: "vm \<Rightarrow> u64 \<Rightarrow> access_type \<Rightarrow> u64 \<Rightarrow> u64 option" where
  "tlb_lookup s vaddr acc satp =
     (let vp = drop_bit 12 vaddr; idx = tlb_index vp in
      case tlb s idx of
        Some entry \<Rightarrow>
          if te_vpn entry = vp \<and> te_satp entry = satp \<and> te_allows acc entry
          then Some (push_bit 12 (te_ppn entry) OR (vaddr AND 0xFFF)) else None
      | None \<Rightarrow> None)"

definition tlb_insert :: "vm \<Rightarrow> u64 \<Rightarrow> u64 \<Rightarrow> u64 \<Rightarrow> bool \<Rightarrow> bool \<Rightarrow> bool \<Rightarrow> vm" where
  "tlb_insert s vaddr paddr satp r w x =
     (let vp = drop_bit 12 vaddr; idx = tlb_index vp in
      s\<lparr>tlb := (tlb s)(idx := Some \<lparr>te_vpn = vp, te_ppn = drop_bit 12 paddr, te_satp = satp,
           te_readable = r, te_writable = w, te_executable = x\<rparr>)\<rparr>)"

definition tlb_flush :: "vm \<Rightarrow> vm" where
  "tlb_flush s = s\<lparr>tlb := (\<lambda>_. None)\<rparr>"

fun fault_cause :: "access_type \<Rightarrow> exception_cause" where
  "fault_cause Execute = InstructionPageFault"
| "fault_cause Read = LoadPageFault"
| "fault_cause Write = StorePageFault"

definition translate_addr :: "vm \<Rightarrow> u64 \<Rightarrow> access_type \<Rightarrow> ((unit + u64) \<times> vm) option" where
  "translate_addr s vaddr acc = do {
     satp \<leftarrow> read_unchecked (csrs (cpu s)) A_SATP;
     case tlb_lookup s vaddr acc satp of
       Some pa \<Rightarrow> Some (Inr pa, s)
     | None \<Rightarrow> do {
         ms \<leftarrow> read_unchecked (csrs (cpu s)) A_MSTATUS;
         let sum_bit = (ms AND MS_SUM \<noteq> 0);
         let mxr = (ms AND MS_MXR \<noteq> 0);
         case translate (ram s) satp vaddr acc (priv_level (priv_mode (cpu s))) sum_bit mxr of
           Inr (pa, pte_update, pte_flags) \<Rightarrow>
             let s' = (case pte_update of
                         Some (pte_addr, new_pte) \<Rightarrow> s\<lparr>ram := store_double (ram s) pte_addr new_pte\<rparr>
                       | None \<Rightarrow> s);
                 page_pa = pa AND NOT 0xFFF;
                 page_va = vaddr AND NOT 0xFFF;
                 r = (pte_flags AND 0x2 \<noteq> 0 \<or> mxr \<and> pte_flags AND 0x8 \<noteq> 0);
                 w = (pte_flags AND 0x4 \<noteq> 0);
                 x = (pte_flags AND 0x8 \<noteq> 0)
             in Some (Inr pa, tlb_insert s' page_va page_pa satp r w x)
         | Inl pf \<Rightarrow> do {
             s' \<leftarrow> raise_trap s (Exception (fault_cause (pf_access_type pf))) vaddr (pc (cpu s));
             Some (Inl (), s')
           }
       }
   }"

definition translate_for :: "access_type \<Rightarrow> vm \<Rightarrow> u64 \<Rightarrow> ((unit + u64) \<times> vm) option" where
  "translate_for acc s vaddr = do {
     active \<leftarrow> translation_active s;
     if active then translate_addr s vaddr acc else Some (Inr vaddr, s)
   }"

definition translate_load :: "vm \<Rightarrow> u64 \<Rightarrow> ((unit + u64) \<times> vm) option" where
  "translate_load s vaddr = translate_for Read s vaddr"

definition translate_store :: "vm \<Rightarrow> u64 \<Rightarrow> ((unit + u64) \<times> vm) option" where
  "translate_store s vaddr = translate_for Write s vaddr"

section \<open>Loads and stores through the devices\<close>

abbreviation RAM_BASE :: u64 where "RAM_BASE \<equiv> 0x80000000"

definition mmio_load_byte :: "vm \<Rightarrow> u64 \<Rightarrow> u8 \<times> vm" where
  "mmio_load_byte s addr =
     (if RAM_BASE \<le> addr then (load_byte (ram s) addr, s)
      else
        (let (r, io) = mmio_read_byte (mmio s) addr; s' = s\<lparr>mmio := io\<rparr> in
         case r of Some b \<Rightarrow> (b, s') | None \<Rightarrow> (load_byte (ram s') addr, s')))"

definition mmio_store_byte :: "vm \<Rightarrow> u64 \<Rightarrow> u8 \<Rightarrow> vm" where
  "mmio_store_byte s addr val =
     (if RAM_BASE \<le> addr then s\<lparr>ram := store_byte (ram s) addr val\<rparr>
      else
        (let (handled, io) = mmio_write_byte (mmio s) addr val; s' = s\<lparr>mmio := io\<rparr> in
         if \<not> handled then s'\<lparr>ram := store_byte (ram s') addr val\<rparr> else s'))"

definition mmio_load_half :: "vm \<Rightarrow> u64 \<Rightarrow> u16 \<times> vm" where
  "mmio_load_half s addr =
     (if RAM_BASE \<le> addr then (load_half (ram s) addr, s)
      else
        (let (lo, s1) = mmio_load_byte s addr; (hi, s2) = mmio_load_byte s1 (addr + 1)
         in (ucast lo OR push_bit 8 (ucast hi), s2)))"

definition mmio_store_half :: "vm \<Rightarrow> u64 \<Rightarrow> u16 \<Rightarrow> vm" where
  "mmio_store_half s addr val =
     (if RAM_BASE \<le> addr then s\<lparr>ram := store_half (ram s) addr val\<rparr>
      else
        (let s1 = mmio_store_byte s addr (ucast val)
         in mmio_store_byte s1 (addr + 1) (ucast (drop_bit 8 val))))"

definition mmio_load_word :: "vm \<Rightarrow> u64 \<Rightarrow> u32 \<times> vm" where
  "mmio_load_word s addr =
     (if RAM_BASE \<le> addr then (load_word (ram s) addr, s)
      else
        (let (lo, s1) = mmio_load_half s addr; (hi, s2) = mmio_load_half s1 (addr + 2)
         in (ucast lo OR push_bit 16 (ucast hi), s2)))"

definition mmio_store_word :: "vm \<Rightarrow> u64 \<Rightarrow> u32 \<Rightarrow> vm" where
  "mmio_store_word s addr val =
     (if RAM_BASE \<le> addr then s\<lparr>ram := store_word (ram s) addr val\<rparr>
      else
        (let s1 = mmio_store_half s addr (ucast val)
         in mmio_store_half s1 (addr + 2) (ucast (drop_bit 16 val))))"

definition mmio_load_double :: "vm \<Rightarrow> u64 \<Rightarrow> u64 \<times> vm" where
  "mmio_load_double s addr =
     (if RAM_BASE \<le> addr then (load_double (ram s) addr, s)
      else
        (let (lo, s1) = mmio_load_word s addr; (hi, s2) = mmio_load_word s1 (addr + 4)
         in (ucast lo OR push_bit 32 (ucast hi), s2)))"

definition mmio_store_double :: "vm \<Rightarrow> u64 \<Rightarrow> u64 \<Rightarrow> vm" where
  "mmio_store_double s addr val =
     (if RAM_BASE \<le> addr then s\<lparr>ram := store_double (ram s) addr val\<rparr>
      else
        (let s1 = mmio_store_word s addr (ucast val)
         in mmio_store_word s1 (addr + 4) (ucast (drop_bit 32 val))))"

definition check_reservation_on_store :: "vm \<Rightarrow> u64 \<Rightarrow> u8 \<Rightarrow> vm" where
  "check_reservation_on_store s store_addr store_size =
     (case reservation s of
        Some (res_addr, res_size) \<Rightarrow>
          (let store_end = store_addr + ucast store_size; res_end = res_addr + ucast res_size in
           if store_addr < res_end \<and> res_addr < store_end then s\<lparr>reservation := None\<rparr> else s)
      | None \<Rightarrow> s)"

section \<open>Device ticks and interrupts\<close>

text \<open>\<^verbatim>\<open>if cond { mip |= bit } else { mip &= !bit }\<close>.\<close>

definition put_flag :: "u64 \<Rightarrow> u64 \<Rightarrow> bool \<Rightarrow> u64" where
  "put_flag w m b = (if b then w OR m else w AND NOT m)"

fun process_devices :: "virtio_device list \<Rightarrow> memory \<Rightarrow> (virtio_device list \<times> memory) option" where
  "process_devices [] m = Some ([], m)"
| "process_devices (d # ds) m = do {
     (d', m') \<leftarrow> (if needs_processing d then process_queue d m else Some (d, m));
     (ds', m'') \<leftarrow> process_devices ds m';
     Some (d' # ds', m'')
   }"

abbreviation TICK_INTERVAL :: u64 where "TICK_INTERVAL \<equiv> 64"
abbreviation MTIME_INCREMENT_PER_INSN :: u64 where "MTIME_INCREMENT_PER_INSN \<equiv> 4"

text \<open>The new \<^verbatim>\<open>mip\<close> from the old one, the advanced timer, the PLIC and \<^verbatim>\<open>stimecmp\<close>.\<close>

definition tick_mip :: "u64 \<Rightarrow> clint_device \<Rightarrow> plic_device \<Rightarrow> u64 \<Rightarrow> u64" where
  "tick_mip mip cl pl stimecmp =
     (let timer_pending = (mtimecmp cl \<le> mtime cl);
          mip = put_flag mip IRQ_MTIP timer_pending;
          mip = put_flag mip IRQ_MSIP (msip_pending cl);
          has_any_pending = (pending pl 0 \<noteq> 0 \<or> pending pl 1 \<noteq> 0);
          mip = (if has_any_pending then
                   put_flag (put_flag mip IRQ_MEIP (plic_has_pending pl 0)) IRQ_SEIP (plic_has_pending pl 1)
                 else mip AND NOT (IRQ_MEIP OR IRQ_SEIP))
      in put_flag mip IRQ_STIP (stimecmp \<le> mtime cl))"

definition tick_devices :: "vm \<Rightarrow> vm option" where
  "tick_devices s = do {
     let cl = (clint (mmio s))\<lparr>mtime := mtime (clint (mmio s)) + MTIME_INCREMENT_PER_INSN * TICK_INTERVAL\<rparr>;
     let io = (mmio s)\<lparr>clint := cl\<rparr>;
     mip \<leftarrow> read_unchecked (csrs (cpu s)) A_MIP;
     let c = (csrs (cpu s))\<lparr>csr_mtime := mtime cl\<rparr>;
     stimecmp \<leftarrow> read_unchecked c A_STIMECMP;
     c \<leftarrow> write_unchecked c A_MIP (tick_mip mip cl (plic io) stimecmp);
     (devs, m) \<leftarrow> process_devices (virtio_devices io) (ram s);
     Some (s\<lparr>cpu := (cpu s)\<lparr>csrs := c\<rparr>, mmio := io\<lparr>virtio_devices := devs\<rparr>, ram := m\<rparr>)
   }"

definition irq_priorities :: "(u64 \<times> interrupt_cause) list" where
  "irq_priorities =
     [(IRQ_MEIP, MachineExternal), (IRQ_MSIP, MachineSoftware), (IRQ_MTIP, MachineTimer),
      (IRQ_SEIP, SupervisorExternal), (IRQ_SSIP, SupervisorSoftware), (IRQ_STIP, SupervisorTimer)]"

definition should_take :: "u64 \<Rightarrow> u64 \<Rightarrow> privilege_mode \<Rightarrow> interrupt_cause \<Rightarrow> bool" where
  "should_take ms mideleg p cause =
     (let delegated = (drop_bit (interrupt_code cause) mideleg AND 1 \<noteq> 0) in
      if delegated then
        (case p of User \<Rightarrow> True | Supervisor \<Rightarrow> ms AND MS_SIE \<noteq> 0 | Machine \<Rightarrow> False)
      else
        (case p of User \<Rightarrow> True | Supervisor \<Rightarrow> True | Machine \<Rightarrow> ms AND MS_MIE \<noteq> 0))"

text \<open>The loop over the priority list returns at the first interrupt it takes.\<close>

definition select_irq :: "u64 \<Rightarrow> u64 \<Rightarrow> u64 \<Rightarrow> privilege_mode \<Rightarrow> interrupt_cause option" where
  "select_irq irqs ms mideleg p =
     map_option snd (find (\<lambda>(b, cause). irqs AND b \<noteq> 0 \<and> should_take ms mideleg p cause) irq_priorities)"

definition check_pending_interrupts :: "vm \<Rightarrow> vm option" where
  "check_pending_interrupts s = do {
     mip \<leftarrow> read_unchecked (csrs (cpu s)) A_MIP;
     mie \<leftarrow> read_unchecked (csrs (cpu s)) A_MIE;
     let irqs = mip AND mie;
     if irqs = 0 then Some s
     else do {
       ms \<leftarrow> read_unchecked (csrs (cpu s)) A_MSTATUS;
       mideleg \<leftarrow> read_unchecked (csrs (cpu s)) A_MIDELEG;
       case select_irq irqs ms mideleg (priv_mode (cpu s)) of
         Some cause \<Rightarrow> raise_trap s (Interrupt cause) 0 (pc (cpu s))
       | None \<Rightarrow> Some s
     }
   }"

section \<open>What every part of a step keeps\<close>

text \<open>
  The frame of a step: the register file evolves by legal writes, the mode of the machine and the
  number of its devices stay, and the dirty set of the memory keeps tracking every change.
\<close>

definition vm_frame :: "vm \<Rightarrow> vm \<Rightarrow> bool" where
  "vm_frame s s' \<longleftrightarrow>
     csr_evolves (csrs (cpu s)) (csrs (cpu s')) \<and> privileged s' = privileged s \<and>
     length (virtio_devices (mmio s')) = length (virtio_devices (mmio s)) \<and>
     (\<forall>m0. tracked m0 (ram s) \<longrightarrow> tracked m0 (ram s'))"

named_theorems frame_intros

lemma vm_frame_refl [frame_intros, simp]: "vm_frame s s"
  by (simp add: vm_frame_def csr_evolves.ev_refl)

lemma vm_frame_trans: "vm_frame s s' \<Longrightarrow> vm_frame s' s'' \<Longrightarrow> vm_frame s s''"
  by (auto simp: vm_frame_def intro: csr_evolves_trans)

text \<open>Updates of the fields the frame does not mention.\<close>

lemma vm_frame_updates [frame_intros]:
  assumes "vm_frame s s'"
  shows "vm_frame s (s'\<lparr>reservation := r\<rparr>)" "vm_frame s (s'\<lparr>halted := h\<rparr>)" "vm_frame s (s'\<lparr>exit_code := e\<rparr>)"
    "vm_frame s (s'\<lparr>insn_len := l\<rparr>)" "vm_frame s (s'\<lparr>last_fetched := f\<rparr>)" "vm_frame s (s'\<lparr>tlb := t\<rparr>)"
    "vm_frame s (s'\<lparr>mmio := (mmio s')\<lparr>uart := u\<rparr>\<rparr>)"
  using assms by (simp_all add: vm_frame_def)

lemma vm_frame_cpu [frame_intros]:
  "vm_frame s s' \<Longrightarrow> csr_evolves (csrs (cpu s')) (csrs c) \<Longrightarrow> vm_frame s (s'\<lparr>cpu := c\<rparr>)"
  by (auto simp: vm_frame_def intro: csr_evolves_trans)

lemma vm_frame_ram [frame_intros]:
  "vm_frame s s' \<Longrightarrow> (\<And>m0. tracked m0 (ram s') \<Longrightarrow> tracked m0 m) \<Longrightarrow> vm_frame s (s'\<lparr>ram := m\<rparr>)"
  by (auto simp: vm_frame_def)

lemma vm_frame_mmio [frame_intros]:
  "vm_frame s s' \<Longrightarrow> length (virtio_devices io) = length (virtio_devices (mmio s')) \<Longrightarrow> vm_frame s (s'\<lparr>mmio := io\<rparr>)"
  by (auto simp: vm_frame_def)

lemma raise_trap_frame:
  assumes "vm_frame s s'"
  shows "\<exists>t. raise_trap s' cause tval epc = Some t \<and> vm_frame s t"
proof -
  obtain c where c: "deliver_trap (cpu s') cause tval epc = Some c" using deliver_trap_total by blast
  then have "vm_frame s (s'\<lparr>cpu := c\<rparr>)"
    using assms deliver_trap_evolves [OF c] by (intro vm_frame_cpu)
  with c show ?thesis by (simp add: raise_trap_def)
qed

lemma tlb_insert_frame [frame_intros]: "vm_frame s s' \<Longrightarrow> vm_frame s (tlb_insert s' va pa satp r w x)"
  by (simp add: tlb_insert_def Let_def vm_frame_updates)

lemma tlb_flush_frame [frame_intros]: "vm_frame s s' \<Longrightarrow> vm_frame s (tlb_flush s')"
  by (simp add: tlb_flush_def vm_frame_updates)

lemma translate_addr_frame:
  assumes "vm_frame s s'"
  shows "\<exists>r t. translate_addr s' va acc = Some (r, t) \<and> vm_frame s t"
proof (cases "tlb_lookup s' va acc (csr_regs (csrs (cpu s')) A_SATP)")
  case (Some pa)
  then show ?thesis using assms by (simp add: translate_addr_def rv_simps)
next
  case None
  let ?ms = "csr_regs (csrs (cpu s')) A_MSTATUS"
  show ?thesis
  proof (cases "translate (ram s') (csr_regs (csrs (cpu s')) A_SATP) va acc (priv_level (priv_mode (cpu s')))
      (?ms AND MS_SUM \<noteq> 0) (?ms AND MS_MXR \<noteq> 0)")
    case (Inl pf)
    obtain t where "raise_trap s' (Exception (fault_cause (pf_access_type pf))) va (pc (cpu s')) = Some t"
      "vm_frame s t"
      using raise_trap_frame [OF assms] by blast
    with None Inl show ?thesis by (simp add: translate_addr_def rv_simps Let_def)
  next
    case (Inr t)
    then obtain pa upd flags where "t = (pa, upd, flags)" by (cases t)
    with None Inr assms show ?thesis
      by (cases upd) (auto simp: translate_addr_def rv_simps Let_def
          intro!: tlb_insert_frame vm_frame_ram tracked_stores)
  qed
qed

lemma translation_active_total: "\<exists>b. translation_active s = Some b"
  by (cases "privileged s") (auto simp: translation_active_def rv_simps Let_def)

lemma translate_for_frame:
  assumes "vm_frame s s'"
  shows "\<exists>r t. translate_for acc s' va = Some (r, t) \<and> vm_frame s t"
proof -
  obtain b where "translation_active s' = Some b" using translation_active_total by blast
  then show ?thesis
    using translate_addr_frame [OF assms, of va acc] assms by (cases b) (simp_all add: translate_for_def)
qed

section \<open>Devices\<close>

lemma mmio_read_byte_devices:
  "length (virtio_devices (snd (mmio_read_byte c a))) = length (virtio_devices c)"
  by (simp add: mmio_read_byte_def split: prod.split option.split)

lemma mmio_write_byte_devices:
  "length (virtio_devices (snd (mmio_write_byte c a v))) = length (virtio_devices c)"
  by (simp add: mmio_write_byte_def split: prod.split option.split)

lemma mmio_load_byte_frame [frame_intros]: "vm_frame s s' \<Longrightarrow> vm_frame s (snd (mmio_load_byte s' a))"
  using mmio_read_byte_devices [of "mmio s'" a]
  by (auto simp: mmio_load_byte_def Let_def split: prod.split option.split intro!: vm_frame_mmio)

lemma mmio_store_byte_frame [frame_intros]: "vm_frame s s' \<Longrightarrow> vm_frame s (mmio_store_byte s' a v)"
  using mmio_write_byte_devices [of "mmio s'" a v]
  by (auto simp: mmio_store_byte_def Let_def split: prod.split
      intro!: vm_frame_mmio vm_frame_ram tracked_stores)

lemma mmio_load_half_frame [frame_intros]: "vm_frame s s' \<Longrightarrow> vm_frame s (snd (mmio_load_half s' a))"
  by (simp add: mmio_load_half_def case_prod_beta Let_def frame_intros)

lemma mmio_load_word_frame [frame_intros]: "vm_frame s s' \<Longrightarrow> vm_frame s (snd (mmio_load_word s' a))"
  by (simp add: mmio_load_word_def case_prod_beta Let_def frame_intros)

lemma mmio_load_double_frame [frame_intros]: "vm_frame s s' \<Longrightarrow> vm_frame s (snd (mmio_load_double s' a))"
  by (simp add: mmio_load_double_def case_prod_beta Let_def frame_intros)

lemma mmio_store_half_frame [frame_intros]: "vm_frame s s' \<Longrightarrow> vm_frame s (mmio_store_half s' a v)"
  by (auto simp: mmio_store_half_def Let_def intro!: frame_intros tracked_stores)

lemma mmio_store_word_frame [frame_intros]: "vm_frame s s' \<Longrightarrow> vm_frame s (mmio_store_word s' a v)"
  by (auto simp: mmio_store_word_def Let_def intro!: frame_intros tracked_stores)

lemma mmio_store_double_frame [frame_intros]: "vm_frame s s' \<Longrightarrow> vm_frame s (mmio_store_double s' a v)"
  by (auto simp: mmio_store_double_def Let_def intro!: frame_intros tracked_stores)

lemma check_reservation_frame [frame_intros]:
  "vm_frame s s' \<Longrightarrow> vm_frame s (check_reservation_on_store s' a n)"
  by (auto simp: check_reservation_on_store_def Let_def split: option.split prod.split intro!: frame_intros)

lemma check_pending_interrupts_frame:
  assumes "vm_frame s s'"
  shows "\<exists>t. check_pending_interrupts s' = Some t \<and> vm_frame s t"
  using raise_trap_frame [OF assms] assms
  by (auto simp: check_pending_interrupts_def rv_simps Let_def split: option.split)

lemma mip_write_evolves: "csr_evolves c (c\<lparr>csr_mtime := t, csr_regs := (csr_regs c)(A_MIP := v)\<rparr>)"
  by (rule csr_evolves.ev_write [OF csr_evolves.ev_mtime [OF csr_evolves.ev_refl], where a = A_MIP and v = v])
    (simp_all add: csr_read_only_def rv_simps)

lemma tick_devices_frame:
  assumes "vm_frame s s'" and "\<forall>d\<in>set (virtio_devices (mmio s')). \<not> needs_processing d"
  shows "\<exists>t. tick_devices s' = Some t \<and> vm_frame s t"
proof -
  have idle: "process_devices ds m = Some (ds, m)" if "\<forall>d\<in>set ds. \<not> needs_processing d" for ds m
    using that by (induction ds) simp_all
  show ?thesis
    using assms(1) idle [OF assms(2)]
    by (simp add: tick_devices_def rv_simps Let_def) (intro vm_frame_mmio vm_frame_cpu; simp add: mip_write_evolves)
qed

text \<open>Whatever requests the devices process, a tick that returns stays in the frame.\<close>

lemma process_devices_keeps:
  "process_devices ds m = Some (ds', m') \<Longrightarrow>
    length ds' = length ds \<and> (\<forall>m0. tracked m0 m \<longrightarrow> tracked m0 m')"
proof (induction ds arbitrary: m ds' m')
  case (Cons d ds)
  then show ?case
    by (fastforce split: if_splits bind_splits dest: process_queue_tracked)
qed simp

lemma tick_devices_keeps:
  assumes "vm_frame s s'" and "tick_devices s' = Some t"
  shows "vm_frame s t"
  using assms(2) process_devices_keeps
  by (auto simp: tick_devices_def rv_simps Let_def split: bind_splits
      intro!: vm_frame_mmio vm_frame_cpu vm_frame_ram assms(1) mip_write_evolves)

end
