(* ===== verification/Rv_Exec.thy ===== *)
theory Rv_Exec
  imports Rv_Vm
begin

text \<open>
  Instruction execution and the run loops of \<^verbatim>\<open>crates/riscv/src/vm.rs\<close>: one definition per group of arms of
  \<^verbatim>\<open>Vm::execute\<close>, the dispatch \<open>execute\<close>, and \<^verbatim>\<open>step_inner\<close>, \<^verbatim>\<open>step\<close> and \<^verbatim>\<open>run\<close>.
\<close>

section \<open>Helpers\<close>

text \<open>\<^verbatim>\<open>self.cpu.pc = target\<close>, and the fall-through \<^verbatim>\<open>pc.wrapping_add(step)\<close> of an instruction at \<open>pc\<close>.\<close>

definition set_pc :: "vm \<Rightarrow> u64 \<Rightarrow> vm" where
  "set_pc s a = s\<lparr>cpu := (cpu s)\<lparr>pc := a\<rparr>\<rparr>"

definition next_pc :: "vm \<Rightarrow> u64" where
  "next_pc s = pc (cpu s) + ucast (insn_len s)"

text \<open>\<^verbatim>\<open>self.cpu.write_reg(rd, val); self.cpu.pc = target; Ok(())\<close>.\<close>

definition finish :: "vm \<Rightarrow> u8 \<Rightarrow> u64 \<Rightarrow> u64 \<Rightarrow> exec_result" where
  "finish s rd val target = do {
     c \<leftarrow> write_reg (cpu s) rd val;
     ok (set_pc (s\<lparr>cpu := c\<rparr>) target)
   }"

text \<open>\<^verbatim>\<open>trap::deliver_trap(&mut self.cpu, \<dots>); return Ok(())\<close>.\<close>

definition trap_ok :: "vm \<Rightarrow> exception_cause \<Rightarrow> exec_result" where
  "trap_ok s cause = do {
     s' \<leftarrow> raise_trap s (Exception cause) 0 (pc (cpu s));
     ok s'
   }"

section \<open>Control flow and arithmetic\<close>

definition exec_lui :: "u8 \<Rightarrow> i32 \<Rightarrow> vm \<Rightarrow> exec_result" where
  "exec_lui rd imm s = finish s rd (sx imm) (next_pc s)"

definition exec_auipc :: "u8 \<Rightarrow> i32 \<Rightarrow> vm \<Rightarrow> exec_result" where
  "exec_auipc rd imm s = finish s rd (pc (cpu s) + sx imm) (next_pc s)"

definition exec_jal :: "u8 \<Rightarrow> i32 \<Rightarrow> vm \<Rightarrow> exec_result" where
  "exec_jal rd imm s = finish s rd (next_pc s) (pc (cpu s) + sx imm)"

definition exec_jalr :: "u8 \<Rightarrow> u8 \<Rightarrow> i32 \<Rightarrow> vm \<Rightarrow> exec_result" where
  "exec_jalr rd rs1 imm s = do {
     a \<leftarrow> read_reg (cpu s) rs1;
     let target = (a + sx imm) AND NOT 1;
     finish s rd (next_pc s) target
   }"

definition exec_branch :: "branch_op \<Rightarrow> u8 \<Rightarrow> u8 \<Rightarrow> i32 \<Rightarrow> vm \<Rightarrow> exec_result" where
  "exec_branch op rs1 rs2 imm s = do {
     a \<leftarrow> read_reg (cpu s) rs1;
     b \<leftarrow> read_reg (cpu s) rs2;
     ok (set_pc s (if branch_taken op a b then pc (cpu s) + sx imm else next_pc s))
   }"

definition exec_op_imm :: "imm_op \<Rightarrow> u8 \<Rightarrow> u8 \<Rightarrow> i32 \<Rightarrow> vm \<Rightarrow> exec_result" where
  "exec_op_imm op rd rs1 imm s = do {
     a \<leftarrow> read_reg (cpu s) rs1;
     finish s rd (imm_result op a imm) (next_pc s)
   }"

definition exec_op_reg :: "reg_op \<Rightarrow> u8 \<Rightarrow> u8 \<Rightarrow> u8 \<Rightarrow> vm \<Rightarrow> exec_result" where
  "exec_op_reg op rd rs1 rs2 s = do {
     a \<leftarrow> read_reg (cpu s) rs1;
     b \<leftarrow> read_reg (cpu s) rs2;
     finish s rd (reg_result op a b) (next_pc s)
   }"

definition exec_op_mul :: "mul_op \<Rightarrow> u8 \<Rightarrow> u8 \<Rightarrow> u8 \<Rightarrow> vm \<Rightarrow> exec_result" where
  "exec_op_mul op rd rs1 rs2 s = do {
     a \<leftarrow> read_reg (cpu s) rs1;
     b \<leftarrow> read_reg (cpu s) rs2;
     r \<leftarrow> mul_result op a b;
     finish s rd r (next_pc s)
   }"

definition exec_op_imm_w :: "immw_op \<Rightarrow> u8 \<Rightarrow> u8 \<Rightarrow> i32 \<Rightarrow> vm \<Rightarrow> exec_result" where
  "exec_op_imm_w op rd rs1 imm s = do {
     a \<leftarrow> read_reg (cpu s) rs1;
     finish s rd (immw_result op a imm) (next_pc s)
   }"

definition exec_op_reg_w :: "regw_op \<Rightarrow> u8 \<Rightarrow> u8 \<Rightarrow> u8 \<Rightarrow> vm \<Rightarrow> exec_result" where
  "exec_op_reg_w op rd rs1 rs2 s = do {
     a \<leftarrow> read_reg (cpu s) rs1;
     b \<leftarrow> read_reg (cpu s) rs2;
     finish s rd (regw_result op a b) (next_pc s)
   }"

definition exec_op_mul_w :: "mulw_op \<Rightarrow> u8 \<Rightarrow> u8 \<Rightarrow> u8 \<Rightarrow> vm \<Rightarrow> exec_result" where
  "exec_op_mul_w op rd rs1 rs2 s = do {
     a \<leftarrow> read_reg (cpu s) rs1;
     b \<leftarrow> read_reg (cpu s) rs2;
     r \<leftarrow> mulw_result op a b;
     finish s rd r (next_pc s)
   }"

section \<open>Loads and stores\<close>

text \<open>The load of each width with its extension, and the store of the low part of the source.\<close>

fun load_value :: "load_op \<Rightarrow> vm \<Rightarrow> u64 \<Rightarrow> u64 \<times> vm" where
  "load_value Lb s pa = (let (v, s') = mmio_load_byte s pa in (sx v, s'))"
| "load_value Lh s pa = (let (v, s') = mmio_load_half s pa in (sx v, s'))"
| "load_value Lw s pa = (let (v, s') = mmio_load_word s pa in (sx v, s'))"
| "load_value Ld s pa = mmio_load_double s pa"
| "load_value Lbu s pa = (let (v, s') = mmio_load_byte s pa in (zx v, s'))"
| "load_value Lhu s pa = (let (v, s') = mmio_load_half s pa in (zx v, s'))"
| "load_value Lwu s pa = (let (v, s') = mmio_load_word s pa in (zx v, s'))"

fun store_value :: "store_op \<Rightarrow> vm \<Rightarrow> u64 \<Rightarrow> u64 \<Rightarrow> vm" where
  "store_value Sb s pa v = mmio_store_byte s pa (ucast v)"
| "store_value Sh s pa v = mmio_store_half s pa (ucast v)"
| "store_value Sw s pa v = mmio_store_word s pa (ucast v)"
| "store_value Sd s pa v = mmio_store_double s pa v"

fun store_size :: "store_op \<Rightarrow> u8" where
  "store_size Sb = 1"
| "store_size Sh = 2"
| "store_size Sw = 4"
| "store_size Sd = 8"

definition exec_load :: "load_op \<Rightarrow> u8 \<Rightarrow> u8 \<Rightarrow> i32 \<Rightarrow> vm \<Rightarrow> exec_result" where
  "exec_load op rd rs1 imm s = do {
     a \<leftarrow> read_reg (cpu s) rs1;
     let vaddr = a + sx imm;
     (r, s1) \<leftarrow> translate_load s vaddr;
     case r of
       Inl _ \<Rightarrow> ok s1
     | Inr pa \<Rightarrow> (let (val, s2) = load_value op s1 pa in finish s2 rd val (next_pc s))
   }"

definition exec_store :: "store_op \<Rightarrow> u8 \<Rightarrow> u8 \<Rightarrow> i32 \<Rightarrow> vm \<Rightarrow> exec_result" where
  "exec_store op rs1 rs2 imm s = do {
     a \<leftarrow> read_reg (cpu s) rs1;
     let vaddr = a + sx imm;
     (r, s1) \<leftarrow> translate_store s vaddr;
     case r of
       Inl _ \<Rightarrow> ok s1
     | Inr pa \<Rightarrow> do {
         v \<leftarrow> read_reg (cpu s1) rs2;
         let s2 = check_reservation_on_store (store_value op s1 pa v) pa (store_size op);
         ok (set_pc s2 (next_pc s))
       }
   }"

section \<open>System instructions\<close>

fun ecall_cause :: "privilege_mode \<Rightarrow> exception_cause" where
  "ecall_cause User = EnvironmentCallFromU"
| "ecall_cause Supervisor = EnvironmentCallFromS"
| "ecall_cause Machine = EnvironmentCallFromM"

text \<open>The loop of the \<^verbatim>\<open>write\<close> system call appends \<open>count\<close> bytes of guest memory to the UART output.\<close>

definition sys_write_bytes :: "memory \<Rightarrow> u64 \<Rightarrow> u64 \<Rightarrow> u8 list" where
  "sys_write_bytes m buf count = map (\<lambda>i. load_byte m (buf + of_nat i)) [0..<unat count]"

definition exec_ecall :: "vm \<Rightarrow> exec_result" where
  "exec_ecall s =
     (if privileged s then trap_ok s (ecall_cause (priv_mode (cpu s)))
      else do {
        syscall \<leftarrow> read_reg (cpu s) 17;
        if syscall = 0 then ok (set_pc (s\<lparr>halted := True\<rparr>) (next_pc s))
        else if syscall = 93 then do {
          code \<leftarrow> read_reg (cpu s) 10;
          ok (set_pc (s\<lparr>exit_code := Some code, halted := True\<rparr>) (next_pc s))
        }
        else if syscall = 64 then do {
          buf \<leftarrow> read_reg (cpu s) 11;
          count \<leftarrow> read_reg (cpu s) 12;
          let u = (uart (mmio s))\<lparr>u_output := u_output (uart (mmio s)) @ sys_write_bytes (ram s) buf count\<rparr>;
          finish (s\<lparr>mmio := (mmio s)\<lparr>uart := u\<rparr>\<rparr>) 10 count (next_pc s)
        }
        else finish s 10 (- 38) (next_pc s)
      })"

definition exec_ebreak :: "vm \<Rightarrow> exec_result" where
  "exec_ebreak s =
     (if privileged s then trap_ok s Breakpoint
      else Some (Inl (Ebreak (pc (cpu s))), set_pc (s\<lparr>halted := True\<rparr>) (next_pc s)))"

text \<open>The new \<^verbatim>\<open>mstatus\<close> of MRET and of SRET.\<close>

definition mret_status :: "u64 \<Rightarrow> u64" where
  "mret_status ms =
     (let mpp = drop_bit 11 (ms AND MS_MPP_MASK);
          mpie = (ms AND MS_MPIE \<noteq> 0);
          new_ms = (if mpie then ms OR MS_MIE else ms AND NOT MS_MIE);
          new_ms = new_ms OR MS_MPIE;
          new_ms = new_ms AND NOT MS_MPP_MASK
      in if mpp \<noteq> priv_u64 Machine then new_ms AND NOT MS_MPRV else new_ms)"

definition sret_status :: "u64 \<Rightarrow> u64" where
  "sret_status ms =
     (let spie = (ms AND MS_SPIE \<noteq> 0);
          new_ms = (if spie then ms OR MS_SIE else ms AND NOT MS_SIE);
          new_ms = new_ms OR MS_SPIE;
          new_ms = new_ms AND NOT MS_SPP
      in new_ms AND NOT MS_MPRV)"

text \<open>The privilege MRET and SRET return to.\<close>

definition mret_mode :: "u64 \<Rightarrow> privilege_mode" where
  "mret_mode ms = from_bits (drop_bit 11 (ms AND MS_MPP_MASK))"

definition sret_mode :: "u64 \<Rightarrow> privilege_mode" where
  "sret_mode ms = (let spp = (if ms AND MS_SPP \<noteq> 0 then 1 else 0) in from_bits spp)"

definition exec_mret :: "vm \<Rightarrow> exec_result" where
  "exec_mret s = do {
     ms \<leftarrow> read_unchecked (csrs (cpu s)) A_MSTATUS;
     c \<leftarrow> write_unchecked (csrs (cpu s)) A_MSTATUS (mret_status ms);
     mepc \<leftarrow> read_unchecked c A_MEPC;
     ok (tlb_flush (s\<lparr>cpu := (cpu s)\<lparr>csrs := c, priv_mode := mret_mode ms, pc := mepc\<rparr>\<rparr>))
   }"

text \<open>The guard \<^verbatim>\<open>if priv_mode == Supervisor && mstatus & bit != 0 && privileged\<close> of SRET, WFI and SFENCE.VMA.\<close>

definition s_mode_trapped :: "vm \<Rightarrow> u64 \<Rightarrow> bool option" where
  "s_mode_trapped s b =
     (if priv_mode (cpu s) = Supervisor then do {
        ms \<leftarrow> read_unchecked (csrs (cpu s)) A_MSTATUS;
        Some (ms AND b \<noteq> 0 \<and> privileged s)
      } else Some False)"

definition exec_sret :: "vm \<Rightarrow> exec_result" where
  "exec_sret s = do {
     trapped \<leftarrow> s_mode_trapped s MS_TSR;
     if trapped then trap_ok s IllegalInstruction
     else do {
       ms \<leftarrow> read_unchecked (csrs (cpu s)) A_MSTATUS;
       c \<leftarrow> write_unchecked (csrs (cpu s)) A_MSTATUS (sret_status ms);
       sepc \<leftarrow> read_unchecked c A_SEPC;
       ok (s\<lparr>cpu := (cpu s)\<lparr>csrs := c, priv_mode := sret_mode ms, pc := sepc\<rparr>\<rparr>)
     }
   }"

definition exec_wfi :: "vm \<Rightarrow> exec_result" where
  "exec_wfi s = do {
     trapped \<leftarrow> s_mode_trapped s MS_TW;
     if trapped then trap_ok s IllegalInstruction else ok (set_pc s (next_pc s))
   }"

definition exec_sfence_vma :: "vm \<Rightarrow> exec_result" where
  "exec_sfence_vma s = do {
     trapped \<leftarrow> s_mode_trapped s MS_TVM;
     if trapped then trap_ok s IllegalInstruction else ok (set_pc (tlb_flush s) (next_pc s))
   }"

section \<open>CSR instructions\<close>

text \<open>The new CSR value of each operation.\<close>

fun csr_new_value :: "csr_op \<Rightarrow> u64 \<Rightarrow> u64 \<Rightarrow> u64" where
  "csr_new_value Csrrw old src = src"
| "csr_new_value Csrrs old src = old OR src"
| "csr_new_value Csrrc old src = old AND NOT src"

text \<open>
  The common part of the arms after the old value is read: the write, unless it is skipped (\<open>None\<close>), a
  trap when the write is refused in privileged mode, then the destination register.
\<close>

definition csr_commit :: "vm \<Rightarrow> u16 \<Rightarrow> u64 option \<Rightarrow> u8 \<Rightarrow> u64 \<Rightarrow> exec_result" where
  "csr_commit s csr new rd old = do {
     r \<leftarrow> (case new of
             None \<Rightarrow> Some (Inr (csrs (cpu s)))
           | Some v \<Rightarrow> csr_write (csrs (cpu s)) csr v (priv_mode (cpu s)));
     case r of
       Inl _ \<Rightarrow>
         if privileged s then trap_ok s IllegalInstruction else finish s rd old (next_pc s)
     | Inr c \<Rightarrow> finish (s\<lparr>cpu := (cpu s)\<lparr>csrs := c\<rparr>\<rparr>) rd old (next_pc s)
   }"

text \<open>The arm of a read that is refused: a trap in privileged mode, otherwise nothing at all.\<close>

definition csr_refused :: "vm \<Rightarrow> exec_result" where
  "csr_refused s = (if privileged s then trap_ok s IllegalInstruction else ok s)"

definition exec_csr :: "csr_op \<Rightarrow> u8 \<Rightarrow> u8 \<Rightarrow> u16 \<Rightarrow> vm \<Rightarrow> exec_result" where
  "exec_csr op rd rs1 csr s = do {
     r \<leftarrow> csr_read (csrs (cpu s)) csr (priv_mode (cpu s));
     case r of
       Inl _ \<Rightarrow> csr_refused s
     | Inr old \<Rightarrow>
         if op = Csrrw \<or> rs1 \<noteq> 0 then do {
           src \<leftarrow> read_reg (cpu s) rs1;
           csr_commit s csr (Some (csr_new_value op old src)) rd old
         } else csr_commit s csr None rd old
   }"

definition exec_csr_imm :: "csr_op \<Rightarrow> u8 \<Rightarrow> u8 \<Rightarrow> u16 \<Rightarrow> vm \<Rightarrow> exec_result" where
  "exec_csr_imm op rd uimm csr s = do {
     r \<leftarrow> csr_read (csrs (cpu s)) csr (priv_mode (cpu s));
     case r of
       Inl _ \<Rightarrow> csr_refused s
     | Inr old \<Rightarrow>
         if op = Csrrw \<or> uimm \<noteq> 0
         then csr_commit s csr (Some (csr_new_value op old (zx uimm))) rd old
         else csr_commit s csr None rd old
   }"

section \<open>Atomics\<close>

fun width_bytes :: "amo_width \<Rightarrow> u8" where
  "width_bytes W32 = 4"
| "width_bytes D64 = 8"

fun amo_load :: "amo_width \<Rightarrow> vm \<Rightarrow> u64 \<Rightarrow> u64 \<times> vm" where
  "amo_load W32 s pa = (let (v, s') = mmio_load_word s pa in (sx v, s'))"
| "amo_load D64 s pa = mmio_load_double s pa"

fun amo_store :: "amo_width \<Rightarrow> vm \<Rightarrow> u64 \<Rightarrow> u64 \<Rightarrow> vm" where
  "amo_store W32 s pa v = mmio_store_word s pa (ucast v)"
| "amo_store D64 s pa v = mmio_store_double s pa v"

definition exec_lr :: "amo_width \<Rightarrow> u8 \<Rightarrow> u8 \<Rightarrow> vm \<Rightarrow> exec_result" where
  "exec_lr wd rd rs1 s = do {
     vaddr \<leftarrow> read_reg (cpu s) rs1;
     (r, s1) \<leftarrow> translate_load s vaddr;
     case r of
       Inl _ \<Rightarrow> ok s1
     | Inr pa \<Rightarrow>
         (let (val, s2) = amo_load wd s1 pa
          in finish (s2\<lparr>reservation := Some (pa, width_bytes wd)\<rparr>) rd val (next_pc s))
   }"

definition exec_sc :: "amo_width \<Rightarrow> u8 \<Rightarrow> u8 \<Rightarrow> u8 \<Rightarrow> vm \<Rightarrow> exec_result" where
  "exec_sc wd rd rs1 rs2 s = do {
     vaddr \<leftarrow> read_reg (cpu s) rs1;
     (r, s1) \<leftarrow> translate_store s vaddr;
     case r of
       Inl _ \<Rightarrow> ok s1
     | Inr pa \<Rightarrow>
         if reservation s1 = Some (pa, width_bytes wd) then do {
           v \<leftarrow> read_reg (cpu s1) rs2;
           finish ((amo_store wd s1 pa v)\<lparr>reservation := None\<rparr>) rd 0 (next_pc s)
         } else finish (s1\<lparr>reservation := None\<rparr>) rd 1 (next_pc s)
   }"

text \<open>The read-modify-write of an AMO: the old value, and the state with the new value stored.\<close>

fun amo_rmw :: "amo_width \<Rightarrow> amo_op \<Rightarrow> vm \<Rightarrow> u64 \<Rightarrow> u64 \<Rightarrow> u64 \<times> vm" where
  "amo_rmw W32 op s pa src =
     (let (old, s') = mmio_load_word s pa
      in (sx old, mmio_store_word s' pa (amo_result op old (ucast src))))"
| "amo_rmw D64 op s pa src =
     (let (old, s') = mmio_load_double s pa
      in (old, mmio_store_double s' pa (amo_result op old src)))"

definition exec_amo :: "amo_op \<Rightarrow> amo_width \<Rightarrow> u8 \<Rightarrow> u8 \<Rightarrow> u8 \<Rightarrow> vm \<Rightarrow> exec_result" where
  "exec_amo op wd rd rs1 rs2 s = do {
     vaddr \<leftarrow> read_reg (cpu s) rs1;
     (r, s1) \<leftarrow> translate_store s vaddr;
     case r of
       Inl _ \<Rightarrow> ok s1
     | Inr pa \<Rightarrow> do {
         src \<leftarrow> read_reg (cpu s1) rs2;
         let (old, s2) = amo_rmw wd op s1 pa src;
         finish (s2\<lparr>reservation := None\<rparr>) rd old (next_pc s)
       }
   }"

section \<open>Dispatch\<close>

fun execute :: "instruction \<Rightarrow> vm \<Rightarrow> exec_result" where
  "execute (LUI rd imm) s = exec_lui rd imm s"
| "execute (AUIPC rd imm) s = exec_auipc rd imm s"
| "execute (JAL rd imm) s = exec_jal rd imm s"
| "execute (JALR rd rs1 imm) s = exec_jalr rd rs1 imm s"
| "execute (Branch op rs1 rs2 imm) s = exec_branch op rs1 rs2 imm s"
| "execute (Load op rd rs1 imm) s = exec_load op rd rs1 imm s"
| "execute (Store op rs1 rs2 imm) s = exec_store op rs1 rs2 imm s"
| "execute (OpImm op rd rs1 imm) s = exec_op_imm op rd rs1 imm s"
| "execute (OpReg op rd rs1 rs2) s = exec_op_reg op rd rs1 rs2 s"
| "execute (OpMul op rd rs1 rs2) s = exec_op_mul op rd rs1 rs2 s"
| "execute (OpImmW op rd rs1 imm) s = exec_op_imm_w op rd rs1 imm s"
| "execute (OpRegW op rd rs1 rs2) s = exec_op_reg_w op rd rs1 rs2 s"
| "execute (OpMulW op rd rs1 rs2) s = exec_op_mul_w op rd rs1 rs2 s"
| "execute (FENCE _ _) s = ok (set_pc s (next_pc s))"
| "execute FENCE_I s = ok (set_pc s (next_pc s))"
| "execute ECALL s = exec_ecall s"
| "execute EBREAK s = exec_ebreak s"
| "execute (Csr op rd rs1 csr) s = exec_csr op rd rs1 csr s"
| "execute (CsrI op rd uimm csr) s = exec_csr_imm op rd uimm csr s"
| "execute MRET s = exec_mret s"
| "execute SRET s = exec_sret s"
| "execute WFI s = exec_wfi s"
| "execute (SFENCE_VMA _ _) s = exec_sfence_vma s"
| "execute (Lr wd rd rs1 _ _) s = exec_lr wd rd rs1 s"
| "execute (Sc wd rd rs1 rs2 _ _) s = exec_sc wd rd rs1 rs2 s"
| "execute (Amo op wd rd rs1 rs2 _ _) s = exec_amo op wd rd rs1 rs2 s"

section \<open>Steps and runs\<close>

text \<open>The fetch address: the translated program counter, or \<open>Inl ()\<close> when a page fault was delivered.\<close>

definition fetch_addr :: "vm \<Rightarrow> ((unit + u64) \<times> vm) option" where
  "fetch_addr s = translate_for Execute s (pc (cpu s))"

definition step_inner :: "vm \<Rightarrow> exec_result" where
  "step_inner s0 = do {
     let s = s0\<lparr>last_fetched := None\<rparr>;
     (r, s1) \<leftarrow> fetch_addr s;
     case r of
       Inl _ \<Rightarrow> ok s1
     | Inr fetch_pc \<Rightarrow>
         (case fetch_decode (ram s1) fetch_pc of
            Inl e \<Rightarrow>
              if privileged s1 then do {
                s2 \<leftarrow> raise_trap s1 (Exception IllegalInstruction) (zx (load_word (ram s1) fetch_pc)) (pc (cpu s));
                ok s2
              } else Some (Inl (DecodeErr e), s1)
          | Inr fetched \<Rightarrow>
              do {
                let s2 = s1\<lparr>insn_len := fi_len fetched,
                           last_fetched := Some (fi_instruction fetched, fi_len fetched)\<rparr>;
                (r2, s3) \<leftarrow> execute (fi_instruction fetched) s2;
                case r2 of
                  Inl e \<Rightarrow> Some (Inl e, s3)
                | Inr _ \<Rightarrow>
                    ok (if privileged s3
                        then s3\<lparr>cpu := (cpu s3)\<lparr>csrs := (csrs (cpu s3))\<lparr>instret := instret (csrs (cpu s3)) + 1\<rparr>\<rparr>\<rparr>
                        else s3)
              })
   }"

definition step :: "vm \<Rightarrow> exec_result" where
  "step s =
     (if halted s then Some (Inl Halted, s)
      else if privileged s then do {
        s1 \<leftarrow> tick_devices s;
        s2 \<leftarrow> check_pending_interrupts s1;
        step_inner s2
      } else step_inner s)"

text \<open>
  \<^verbatim>\<open>run\<close>. The inner loop executes up to \<^verbatim>\<open>batch_end\<close> instructions; the privileged outer loop ticks the devices
  before every batch. \<open>None\<close> is a panic or a run that does not return; otherwise the result is the error
  or the number of steps, with the final state.
\<close>

partial_function (option) run_batch :: "u64 \<Rightarrow> u64 \<Rightarrow> vm \<Rightarrow> ((vm_error + u64) \<times> vm) option" where
  "run_batch batch_end steps s =
     (if \<not> halted s \<and> steps < batch_end then do {
        (r, s') \<leftarrow> step_inner s;
        case r of
          Inl e \<Rightarrow> Some (Inl e, s')
        | Inr _ \<Rightarrow> run_batch batch_end (steps + 1) s'
      } else Some (Inr steps, s))"

partial_function (option) run_privileged :: "u64 \<Rightarrow> u64 \<Rightarrow> vm \<Rightarrow> ((vm_error + u64) \<times> vm) option" where
  "run_privileged max_steps steps s =
     (if \<not> halted s \<and> steps < max_steps then do {
        s1 \<leftarrow> tick_devices s;
        s2 \<leftarrow> check_pending_interrupts s1;
        let batch_end = min (steps + TICK_INTERVAL) max_steps;
        (r, s3) \<leftarrow> run_batch batch_end steps s2;
        case r of
          Inl e \<Rightarrow> Some (Inl e, s3)
        | Inr steps' \<Rightarrow> run_privileged max_steps steps' s3
      } else Some (Inr steps, s))"

definition run :: "vm \<Rightarrow> u64 \<Rightarrow> ((vm_error + u64) \<times> vm) option" where
  "run s max_steps =
     (if privileged s then run_privileged max_steps 0 s else run_batch max_steps 0 s)"

section \<open>Instructions\<close>

text \<open>A result that is not a panic, stays in the frame and, on a privileged machine, is not an error either.\<close>

definition total_frame :: "vm \<Rightarrow> exec_result \<Rightarrow> bool" where
  "total_frame s r \<longleftrightarrow> (\<exists>v s'. r = Some (v, s') \<and> vm_frame s s' \<and> (privileged s \<longrightarrow> v = Inr ()))"

lemma total_frame_error [frame_intros]: "vm_frame s s' \<Longrightarrow> \<not> privileged s' \<Longrightarrow> total_frame s (Some (v, s'))"
  by (simp add: total_frame_def vm_frame_def)

lemma total_frame_ok [frame_intros]: "vm_frame s s' \<Longrightarrow> total_frame s (ok s')"
  by (simp add: total_frame_def ok_def)

lemma set_pc_frame [frame_intros]: "vm_frame s s' \<Longrightarrow> vm_frame s (set_pc s' a)"
  by (simp add: set_pc_def vm_frame_cpu csr_evolves.ev_refl)

lemma finish_frame [frame_intros]: "rd < 32 \<Longrightarrow> vm_frame s s' \<Longrightarrow> total_frame s (finish s' rd v a)"
  by (simp add: finish_def rv_simps frame_intros csr_evolves.ev_refl)

lemma trap_ok_frame [frame_intros]: "vm_frame s s' \<Longrightarrow> total_frame s (trap_ok s' cause)"
  using raise_trap_frame [of s s' "Exception cause" 0 "pc (cpu s')"]
  by (auto simp: trap_ok_def total_frame_ok)

text \<open>A translation either delivers a trap or continues; the frame of the instruction follows from both.\<close>

lemma translate_for_cont:
  assumes "vm_frame s s'" and "\<And>t. vm_frame s t \<Longrightarrow> total_frame s (f t)"
    and "\<And>t pa. vm_frame s t \<Longrightarrow> total_frame s (g t pa)"
  shows "total_frame s (translate_for acc s' va \<bind> (\<lambda>(r, t). case r of Inl _ \<Rightarrow> f t | Inr pa \<Rightarrow> g t pa))"
proof -
  obtain r t where "translate_for acc s' va = Some (r, t)" "vm_frame s t"
    using translate_for_frame [OF assms(1)] by blast
  then show ?thesis using assms(2,3) by (cases r) simp_all
qed

lemma load_value_frame [frame_intros]: "vm_frame s s' \<Longrightarrow> vm_frame s (snd (load_value op s' a))"
  by (cases op) (simp_all add: case_prod_beta frame_intros)

lemma store_value_frame [frame_intros]: "vm_frame s s' \<Longrightarrow> vm_frame s (store_value op s' a v)"
  by (cases op) (simp_all add: frame_intros)

lemma exec_load_frame:
  "rd < 32 \<Longrightarrow> rs1 < 32 \<Longrightarrow> total_frame s (exec_load op rd rs1 imm s)"
  unfolding exec_load_def translate_load_def
  by (simp add: rv_simps Let_def)
    (rule translate_for_cont; simp add: rv_simps case_prod_beta Let_def frame_intros)

lemma exec_store_frame:
  "rs1 < 32 \<Longrightarrow> rs2 < 32 \<Longrightarrow> total_frame s (exec_store op rs1 rs2 imm s)"
  unfolding exec_store_def translate_store_def
  by (simp add: rv_simps Let_def)
    (rule translate_for_cont; simp add: rv_simps case_prod_beta Let_def frame_intros)

lemma exec_alu_frame:
  "rd < 32 \<Longrightarrow> total_frame s (exec_lui rd imm s)" "rd < 32 \<Longrightarrow> total_frame s (exec_auipc rd imm s)"
  "rd < 32 \<Longrightarrow> total_frame s (exec_jal rd imm s)"
  "rd < 32 \<Longrightarrow> rs1 < 32 \<Longrightarrow> total_frame s (exec_jalr rd rs1 imm s)"
  "rs1 < 32 \<Longrightarrow> rs2 < 32 \<Longrightarrow> total_frame s (exec_branch bop rs1 rs2 imm s)"
  "rd < 32 \<Longrightarrow> rs1 < 32 \<Longrightarrow> total_frame s (exec_op_imm iop rd rs1 imm s)"
  "rd < 32 \<Longrightarrow> rs1 < 32 \<Longrightarrow> rs2 < 32 \<Longrightarrow> total_frame s (exec_op_reg rop rd rs1 rs2 s)"
  "rd < 32 \<Longrightarrow> rs1 < 32 \<Longrightarrow> total_frame s (exec_op_imm_w iwop rd rs1 imm s)"
  "rd < 32 \<Longrightarrow> rs1 < 32 \<Longrightarrow> rs2 < 32 \<Longrightarrow> total_frame s (exec_op_reg_w rwop rd rs1 rs2 s)"
  by (simp_all add: exec_lui_def exec_auipc_def exec_jal_def exec_jalr_def exec_branch_def exec_op_imm_def
      exec_op_reg_def exec_op_imm_w_def exec_op_reg_w_def rv_simps frame_intros Let_def)

text \<open>The divisions of the multiply group do not reach a panic of the operators.\<close>

lemma exec_mul_frame:
  assumes "rd < 32" "rs1 < 32" "rs2 < 32"
  shows "total_frame s (exec_op_mul mop rd rs1 rs2 s)" "total_frame s (exec_op_mul_w mwop rd rs1 rs2 s)"
proof -
  obtain r rw where "mul_result mop (reg_val (cpu s) rs1) (reg_val (cpu s) rs2) = Some r"
    "mulw_result mwop (reg_val (cpu s) rs1) (reg_val (cpu s) rs2) = Some rw"
    using mul_result_total by metis
  then show "total_frame s (exec_op_mul mop rd rs1 rs2 s)" "total_frame s (exec_op_mul_w mwop rd rs1 rs2 s)"
    using assms by (simp_all add: exec_op_mul_def exec_op_mul_w_def rv_simps frame_intros)
qed

lemma exec_ecall_frame: "total_frame s (exec_ecall s)"
  by (auto simp: exec_ecall_def rv_simps Let_def intro!: frame_intros)

lemma exec_ebreak_frame: "total_frame s (exec_ebreak s)"
  by (auto simp: exec_ebreak_def set_pc_def intro!: frame_intros csr_evolves.ev_refl)

lemma s_mode_trapped_total: "\<exists>b. s_mode_trapped s m = Some b"
  by (cases "priv_mode (cpu s) = Supervisor") (auto simp: s_mode_trapped_def rv_simps)

lemma status_write_evolves:
  "csr_evolves c (c\<lparr>csr_regs := (csr_regs c)(A_MSTATUS := masked MS_WRITE_MASK (csr_regs c A_MSTATUS) v)\<rparr>)"
  by (rule csr_evolves.ev_write [OF csr_evolves.ev_refl, where a = A_MSTATUS and v = v])
    (simp_all add: csr_read_only_def rv_simps)

lemma exec_mret_frame: "total_frame s (exec_mret s)"
  unfolding exec_mret_def Let_def
  by (simp add: rv_simps) (intro frame_intros; simp add: status_write_evolves)

lemma exec_sret_frame: "total_frame s (exec_sret s)"
proof -
  obtain b where "s_mode_trapped s MS_TSR = Some b" using s_mode_trapped_total by blast
  then show ?thesis
    unfolding exec_sret_def Let_def
    by (cases b) (simp_all add: rv_simps frame_intros vm_frame_cpu status_write_evolves)
qed

lemma exec_wfi_frame: "total_frame s (exec_wfi s)"
proof -
  obtain b where "s_mode_trapped s MS_TW = Some b" using s_mode_trapped_total by blast
  then show ?thesis by (cases b) (simp_all add: exec_wfi_def frame_intros)
qed

lemma exec_sfence_frame: "total_frame s (exec_sfence_vma s)"
proof -
  obtain b where "s_mode_trapped s MS_TVM = Some b" using s_mode_trapped_total by blast
  then show ?thesis by (cases b) (simp_all add: exec_sfence_vma_def frame_intros)
qed

lemma csr_commit_frame:
  assumes "csr < 0x1000" and "rd < 32"
  shows "total_frame s (csr_commit s csr new rd old)"
proof (cases new)
  case None
  then show ?thesis
    using assms by (simp add: csr_commit_def frame_intros csr_evolves.ev_refl)
next
  case (Some v)
  obtain r where r: "csr_write (csrs (cpu s)) csr v (priv_mode (cpu s)) = Some r"
    using csr_write_total [OF assms(1)] by blast
  then show ?thesis
  proof (cases r)
    case (Inl e)
    with Some r assms show ?thesis by (simp add: csr_commit_def frame_intros)
  next
    case (Inr c)
    with Some r assms csr_write_evolves [of "csrs (cpu s)" csr v "priv_mode (cpu s)" c] show ?thesis
      by (simp add: csr_commit_def frame_intros)
  qed
qed

lemma csr_refused_frame: "total_frame s (csr_refused s)"
  by (simp add: csr_refused_def frame_intros)

lemma exec_csr_frame:
  assumes "csr < 0x1000" and "rd < 32"
  shows "rs1 < 32 \<Longrightarrow> total_frame s (exec_csr op rd rs1 csr s)" and "total_frame s (exec_csr_imm op rd uimm csr s)"
proof -
  obtain r where r: "csr_read (csrs (cpu s)) csr (priv_mode (cpu s)) = Some r"
    using csr_read_total [OF assms(1)] by blast
  show "rs1 < 32 \<Longrightarrow> total_frame s (exec_csr op rd rs1 csr s)"
    using r assms by (cases r) (simp_all add: exec_csr_def rv_simps csr_refused_frame csr_commit_frame)
  show "total_frame s (exec_csr_imm op rd uimm csr s)"
    using r assms by (cases r) (simp_all add: exec_csr_imm_def csr_refused_frame csr_commit_frame)
qed

lemma amo_parts_frame [frame_intros]:
  assumes "vm_frame s s'"
  shows "vm_frame s (snd (amo_load wd s' pa))" "vm_frame s (amo_store wd s' pa v)"
    "vm_frame s (snd (amo_rmw wd op s' pa v))"
  using assms by (cases wd; simp add: case_prod_beta Let_def frame_intros)+

lemma exec_lr_frame: "rd < 32 \<Longrightarrow> rs1 < 32 \<Longrightarrow> total_frame s (exec_lr wd rd rs1 s)"
  unfolding exec_lr_def translate_load_def
  by (simp add: rv_simps Let_def)
    (rule translate_for_cont; simp add: rv_simps case_prod_beta Let_def frame_intros)

lemma exec_sc_frame: "rd < 32 \<Longrightarrow> rs1 < 32 \<Longrightarrow> rs2 < 32 \<Longrightarrow> total_frame s (exec_sc wd rd rs1 rs2 s)"
  unfolding exec_sc_def translate_store_def
  by (simp add: rv_simps Let_def)
    (rule translate_for_cont; simp add: rv_simps case_prod_beta Let_def frame_intros)

lemma exec_amo_frame: "rd < 32 \<Longrightarrow> rs1 < 32 \<Longrightarrow> rs2 < 32 \<Longrightarrow> total_frame s (exec_amo op wd rd rs1 rs2 s)"
  unfolding exec_amo_def translate_store_def
  by (simp add: rv_simps Let_def)
    (rule translate_for_cont; simp add: rv_simps case_prod_beta Let_def frame_intros)

lemmas exec_frames = exec_alu_frame exec_mul_frame exec_load_frame exec_store_frame exec_ecall_frame exec_ebreak_frame
  exec_mret_frame exec_sret_frame exec_wfi_frame exec_sfence_frame exec_csr_frame exec_lr_frame
  exec_sc_frame exec_amo_frame

lemma execute_frame: "insn_ok i \<Longrightarrow> total_frame s (execute i s)"
  by (cases i) (simp_all add: insn_ok_def regs_ok_def insn_rs2_def insn_csr_def exec_frames frame_intros)

lemma step_inner_frame: "total_frame s (step_inner s)"
proof -
  let ?s0 = "s\<lparr>last_fetched := None\<rparr>"
  have f0: "vm_frame s ?s0" by (rule vm_frame_updates) simp
  obtain r s1 where fetch: "fetch_addr ?s0 = Some (r, s1)" and f1: "vm_frame s s1"
    using translate_for_frame [OF f0] unfolding fetch_addr_def by metis
  show ?thesis
  proof (cases r)
    case (Inl u)
    then have "step_inner s = ok s1" using fetch by (simp add: step_inner_def)
    with f1 show ?thesis by (simp only: total_frame_ok)
  next
    case (Inr fetch_pc)
    show ?thesis
    proof (cases "fetch_decode (ram s1) fetch_pc")
      case (Inl e)
      obtain t where t: "raise_trap s1 (Exception IllegalInstruction) (zx (load_word (ram s1) fetch_pc)) (pc (cpu s)) = Some t"
        "vm_frame s t"
        using raise_trap_frame [OF f1] by metis
      have "step_inner s = (if privileged s1 then ok t else Some (Inl (DecodeErr e), s1))"
        using fetch Inr Inl t(1) by (simp add: step_inner_def)
      with f1 t(2) show ?thesis by (cases "privileged s1") (simp_all add: total_frame_ok total_frame_error)
    next
      case dec: (Inr f)
      let ?s2 = "s1\<lparr>insn_len := fi_len f, last_fetched := Some (fi_instruction f, fi_len f)\<rparr>"
      have f2: "vm_frame s ?s2" using f1 by (intro vm_frame_updates)
      obtain r2 s3 where ex: "execute (fi_instruction f) ?s2 = Some (r2, s3)" and "vm_frame ?s2 s3"
        and pr: "privileged ?s2 \<longrightarrow> r2 = Inr ()"
        using execute_frame [OF fetch_decode_ok(1) [OF dec], of ?s2] unfolding total_frame_def by metis
      then have f3: "vm_frame s s3" using vm_frame_trans [OF f2] by blast
      have err: "\<not> privileged s3" if "r2 = Inl e" for e
        using that pr f2 f3 by (auto simp: vm_frame_def)
      let ?s4 = "s3\<lparr>cpu := (cpu s3)\<lparr>csrs := (csrs (cpu s3))\<lparr>instret := instret (csrs (cpu s3)) + 1\<rparr>\<rparr>\<rparr>"
      have f4: "vm_frame s ?s4"
        using f3 by (rule vm_frame_cpu) (simp add: csr_evolves.ev_instret csr_evolves.ev_refl)
      have "step_inner s = (case r2 of Inl e \<Rightarrow> Some (Inl e, s3) | Inr _ \<Rightarrow> ok (if privileged s3 then ?s4 else s3))"
        using fetch Inr dec ex by (simp add: step_inner_def)
      with f3 f4 err show ?thesis by (cases r2) (simp_all add: total_frame_ok total_frame_error)
    qed
  qed
qed

text \<open>With no request queued at a VirtIO device, a step of the machine does not panic either.\<close>

lemma step_frame:
  assumes "\<forall>d\<in>set (virtio_devices (mmio s)). \<not> needs_processing d"
  shows "\<exists>v s'. step s = Some (v, s') \<and> vm_frame s s'"
proof (cases "halted s \<or> \<not> privileged s")
  case True
  then show ?thesis using step_inner_frame [of s] by (auto simp: step_def total_frame_def)
next
  case False
  obtain s1 where s1: "tick_devices s = Some s1" "vm_frame s s1"
    using tick_devices_frame [OF vm_frame_refl assms] by blast
  obtain s2 where s2: "check_pending_interrupts s1 = Some s2" "vm_frame s s2"
    using check_pending_interrupts_frame [OF s1(2)] by blast
  obtain v s3 where "step_inner s2 = Some (v, s3)" "vm_frame s s3"
    using step_inner_frame [of s2] s2(2) unfolding total_frame_def by (blast intro: vm_frame_trans)
  with False s1 s2 show ?thesis by (simp add: step_def)
qed

text \<open>Whatever the devices do, a step that returns stays in the frame.\<close>

lemma step_keeps:
  assumes "step s = Some (r, s')"
  shows "vm_frame s s'"
proof -
  have inner: "vm_frame t s'" if "step_inner t = Some (r, s')" for t
    using that step_inner_frame [of t] by (auto simp: total_frame_def)
  show ?thesis
  proof (cases "halted s \<or> \<not> privileged s")
    case True
    then show ?thesis using assms inner [of s] by (auto simp: step_def split: if_splits)
  next
    case False
    then obtain s1 s2 where "tick_devices s = Some s1" "check_pending_interrupts s1 = Some s2" "step_inner s2 = Some (r, s')"
      using assms by (auto simp: step_def split: bind_splits)
    moreover then have "vm_frame s s2"
      using tick_devices_keeps [OF vm_frame_refl, of s s1] check_pending_interrupts_frame [of s s1] by auto
    ultimately show ?thesis using inner vm_frame_trans by blast
  qed
qed

section \<open>Runs\<close>

text \<open>What a run guarantees: it ended by an error, or with at most the allowed number of steps, and with fewer
  only because the machine halted.\<close>

definition run_ok :: "u64 \<Rightarrow> vm \<Rightarrow> ((vm_error + u64) \<times> vm) option \<Rightarrow> bool" where
  "run_ok limit s res \<longleftrightarrow>
     (\<exists>r s'. res = Some (r, s') \<and> vm_frame s s' \<and>
        (case r of Inl _ \<Rightarrow> True | Inr n \<Rightarrow> n \<le> limit \<and> (halted s' \<or> n = limit)))"

lemma run_batch_ok:
  assumes "vm_frame s0 s" and "steps \<le> batch_end"
  shows "run_ok batch_end s0 (run_batch batch_end steps s)"
  using assms
proof (induction "unat batch_end - unat steps" arbitrary: steps s)
  case 0
  then have "steps = batch_end"
    by (simp add: word_le_nat_alt word_unat_eq_iff)
  with 0 show ?case
    by (subst run_batch.simps) (simp add: run_ok_def)
next
  case (Suc n)
  show ?case
  proof (cases "halted s")
    case True
    with Suc.prems show ?thesis by (subst run_batch.simps) (simp add: run_ok_def)
  next
    case False
    have lt: "steps < batch_end" using Suc.hyps(2) by (simp add: word_less_nat_alt)
    then have u: "unat (steps + 1) = unat steps + 1"
      using unat_add_no_wrap [of steps 1] unsigned_less [of batch_end, where ?'a = nat]
      by (simp add: word_less_nat_alt)
    obtain r s' where st: "step_inner s = Some (r, s')" "vm_frame s0 s'"
      using step_inner_frame [of s] Suc.prems(1) unfolding total_frame_def by (blast intro: vm_frame_trans)
    show ?thesis
    proof (cases r)
      case (Inl e)
      with False lt st show ?thesis by (subst run_batch.simps) (simp add: run_ok_def)
    next
      case (Inr x)
      have "run_ok batch_end s0 (run_batch batch_end (steps + 1) s')"
        using Suc.hyps(2) u lt st(2) by (intro Suc.hyps(1)) (simp_all add: word_le_nat_alt word_less_nat_alt)
      with False lt st Inr show ?thesis by (subst run_batch.simps) simp
    qed
  qed
qed

lemma run_privileged_ok:
  assumes "vm_frame s0 s" and "virtio_devices (mmio s0) = []" and "steps \<le> max_steps"
    and "unat max_steps + 64 \<le> 2 ^ 64"
  shows "run_ok max_steps s0 (run_privileged max_steps steps s)"
  using assms(1,3)
proof (induction "unat max_steps - unat steps" arbitrary: steps s rule: less_induct)
  case less
  show ?case
  proof (cases "\<not> halted s \<and> steps < max_steps")
    case False
    with less.prems show ?thesis
      by (subst run_privileged.simps) (auto simp: run_ok_def)
  next
    case True
    then have lt: "unat steps < unat max_steps" by (simp add: word_less_nat_alt)
    have "virtio_devices (mmio s) = []" using less.prems(1) assms(2) by (simp add: vm_frame_def)
    then obtain s1 where s1: "tick_devices s = Some s1" "vm_frame s0 s1"
      using tick_devices_frame [OF less.prems(1)] by auto
    obtain s2 where s2: "check_pending_interrupts s1 = Some s2" "vm_frame s0 s2"
      using check_pending_interrupts_frame [OF s1(2)] by blast
    let ?e = "min (steps + 64) max_steps"
    have "unat (steps + 64) = unat steps + 64"
      using unat_add_no_wrap [of steps 64] lt assms(4) by simp
    then have e: "steps < ?e" "?e \<le> max_steps"
      using lt by (simp_all add: word_less_nat_alt min_def)
    have b: "run_ok ?e s0 (run_batch ?e steps s2)" using run_batch_ok [OF s2(2) less_imp_le [OF e(1)]] .
    then obtain r s3 where r: "run_batch ?e steps s2 = Some (r, s3)" "vm_frame s0 s3"
      "case r of Inl _ \<Rightarrow> True | Inr n \<Rightarrow> n \<le> ?e \<and> (halted s3 \<or> n = ?e)"
      unfolding run_ok_def by blast
    show ?thesis
    proof (cases r)
      case (Inl err)
      with True s1 s2 r show ?thesis by (subst run_privileged.simps) (simp add: run_ok_def)
    next
      case (Inr n)
      then have n: "n \<le> max_steps" "halted s3 \<or> n = ?e" using r(3) e(2) by auto
      have "run_ok max_steps s0 (run_privileged max_steps n s3)"
      proof (cases "halted s3")
        case True
        with r(2) n(1) show ?thesis by (subst run_privileged.simps) (simp add: run_ok_def)
      next
        case False
        then have "steps < n" using n(2) e(1) by simp
        with lt r(2) n(1) show ?thesis
          by (intro less.hyps) (simp_all add: word_less_nat_alt word_le_nat_alt)
      qed
      with True s1 s2 r Inr show ?thesis by (subst run_privileged.simps) simp
    qed
  qed
qed

section \<open>Entering and leaving a trap handler\<close>

text \<open>
  The contract between trap delivery and the return instruction of a mode, on the status word:
  \<open>enter p\<close> is the delivery from privilege \<open>p\<close>, \<open>leave\<close> the return, \<open>mode\<close> the privilege it returns to,
  \<open>ie\<close> the mode's interrupt enable and \<open>saved\<close> the fields that hold the saved state.
\<close>

locale trap_frame =
  fixes enter :: "privilege_mode \<Rightarrow> u64 \<Rightarrow> u64" and leave :: "u64 \<Rightarrow> u64"
    and mode :: "u64 \<Rightarrow> privilege_mode" and from_mode :: "privilege_mode \<Rightarrow> bool"
    and ie :: nat and saved :: "nat set"
  assumes enter_disables: "\<not> bit (enter p ms) ie"
    and mode_enter: "from_mode p \<Longrightarrow> mode (enter p ms) = p"
    and leave_enter_ie: "bit (leave (enter p ms)) ie = bit ms ie"
    and enter_frame: "k \<noteq> ie \<Longrightarrow> k \<notin> saved \<Longrightarrow> bit (enter p ms) k = bit ms k"
    and leave_frame: "k \<noteq> ie \<Longrightarrow> k \<notin> saved \<Longrightarrow> bit (leave ms) k = bit ms k"
begin

lemma round_trip: "k \<notin> saved \<Longrightarrow> bit (leave (enter p ms)) k = bit ms k"
  by (cases "k = ie") (simp_all add: leave_enter_ie enter_frame leave_frame)

text \<open>Any number of handlers run one after the other leave the same status word behind.\<close>

lemma handlers_neutral: "k \<notin> saved \<Longrightarrow> bit (fold (\<lambda>p ms. leave (enter p ms)) ps ms) k = bit ms k"
  by (induction ps arbitrary: ms) (simp_all add: round_trip)

end

lemma bit_mret_status [bitwise]:
  "bit (mret_status ms) k \<longleftrightarrow>
     (if k = 3 then bit ms 7 else if k = 7 then True else if k = 11 \<or> k = 12 then False
      else if k = 17 \<and> drop_bit 11 (ms AND MS_MPP_MASK) \<noteq> 3 then False else bit ms k)"
  using bit_imp_le_length [of ms k]
  by (auto simp: mret_status_def Let_def flag_tests bit_and_iff bit_or_iff bit_not_iff
      bit_status_fields bit_status_masks simp del: drop_bit_and)

lemma bit_sret_status [bitwise]:
  "bit (sret_status ms) k \<longleftrightarrow>
     (if k = 1 then bit ms 5 else if k = 5 then True else if k = 8 \<or> k = 17 then False else bit ms k)"
  using bit_imp_le_length [of ms k]
  by (auto simp: sret_status_def Let_def flag_tests bit_and_iff bit_or_iff bit_not_iff bit_status_fields)

lemma return_status_stored [rv_simps]:
  "masked MS_WRITE_MASK ms (mret_status ms) = mret_status ms"
  "masked MS_WRITE_MASK ms (sret_status ms) = sret_status ms"
  by (rule bit_eqI, simp add: bit_masked bit_write_mask bit_mret_status bit_sret_status)+

lemma sret_mode_bit: "sret_mode ms = (if bit ms 8 then Supervisor else User)"
  by (simp add: sret_mode_def flag_tests from_bits_def)

interpretation m_trap: trap_frame m_trap_status mret_status mret_mode "\<lambda>_. True" 3 "{7, 11, 12, 17}"
  by unfold_locales
    (simp_all add: bit_m_trap_status bit_mret_status mret_mode_def m_trap_status_mpp [simplified])

interpretation s_trap: trap_frame s_trap_status sret_status sret_mode "\<lambda>p. p \<noteq> Machine" 1 "{5, 8, 17}"
proof unfold_locales
  fix p ms
  assume "p \<noteq> Machine"
  then show "sret_mode (s_trap_status p ms) = p"
    by (cases p) (simp_all add: sret_mode_bit bit_s_trap_status)
qed (simp_all add: bit_s_trap_status bit_sret_status)

lemma exec_mret_eq:
  "exec_mret s = ok (tlb_flush (s\<lparr>cpu := (cpu s)\<lparr>
     csrs := (csrs (cpu s))\<lparr>csr_regs := (csr_regs (csrs (cpu s)))
       (A_MSTATUS := mret_status (csr_regs (csrs (cpu s)) A_MSTATUS))\<rparr>,
     priv_mode := mret_mode (csr_regs (csrs (cpu s)) A_MSTATUS),
     pc := csr_regs (csrs (cpu s)) A_MEPC\<rparr>\<rparr>))"
  by (simp add: exec_mret_def rv_simps)

lemma exec_sret_eq:
  "\<not> (privileged s \<and> bit (csr_regs (csrs (cpu s)) A_MSTATUS) 22) \<Longrightarrow>
   exec_sret s = ok (s\<lparr>cpu := (cpu s)\<lparr>
     csrs := (csrs (cpu s))\<lparr>csr_regs := (csr_regs (csrs (cpu s)))
       (A_MSTATUS := sret_status (csr_regs (csrs (cpu s)) A_MSTATUS))\<rparr>,
     priv_mode := sret_mode (csr_regs (csrs (cpu s)) A_MSTATUS),
     pc := csr_regs (csrs (cpu s)) A_SEPC\<rparr>\<rparr>)"
  by (auto simp: exec_sret_def s_mode_trapped_def rv_simps flag_tests)

lemma exec_sret_trapped:
  "priv_mode (cpu s) = Supervisor \<Longrightarrow> privileged s \<Longrightarrow> bit (csr_regs (csrs (cpu s)) A_MSTATUS) 22 \<Longrightarrow>
   exec_sret s = trap_ok s IllegalInstruction"
  by (simp add: exec_sret_def s_mode_trapped_def rv_simps flag_tests)

text \<open>The status word that delivery and return leave behind.\<close>

lemma bit_sret_s_trap:
  "bit (sret_status (s_trap_status p ms)) k \<longleftrightarrow> k = 5 \<or> k \<notin> {8, 17} \<and> bit ms k"
  by (auto simp: bit_sret_status bit_s_trap_status)

lemma m_trap_status_field: "drop_bit 11 (m_trap_status p ms AND MS_MPP_MASK) = priv_u64 p"
proof -
  have "drop_bit 11 (m_trap_status p ms AND MS_MPP_MASK) = drop_bit 11 (push_bit 11 (priv_u64 p))"
    by (rule bit_eqI)
      (auto simp: bit_drop_bit_eq bit_and_iff bit_m_trap_status bit_status_masks bit_priv_field
        simp del: of_nat_numeral drop_bit_and)
  then show ?thesis by (cases p) simp_all
qed

lemma bit_mret_m_trap:
  "bit (mret_status (m_trap_status p ms)) k \<longleftrightarrow>
     k = 7 \<or> k \<notin> {11, 12} \<and> (k = 17 \<longrightarrow> p = Machine) \<and> bit ms k"
  by (cases p) (auto simp: bit_mret_status m_trap_status_field bit_m_trap_status simp del: drop_bit_and)

section \<open>Properties of steps and runs\<close>

text \<open>
  C1. One step of the interpreter does not panic: from every state of the machine, however corrupt its memory,
  page tables, registers or CSRs, fetching, decoding and executing one instruction (or delivering its trap)
  returns. The panics that the definitions of the step can express are an index outside the 32 registers, a CSR number
  outside the 4096-entry file, and the operators \<^verbatim>\<open>/\<close> and \<^verbatim>\<open>%\<close> on a zero divisor or on \<^verbatim>\<open>MIN\<close> and \<open>-1\<close>; the result is
  that no decoded instruction reaches one of them. On a privileged machine the step moreover reports no error: every
  illegal instruction, refused CSR access and page fault becomes a trap. The host's memory is taken to be unlimited.
\<close>

theorem step_inner_never_panics:
  "\<exists>r s'. step_inner s = Some (r, s') \<and> privileged s' = privileged s \<and> (privileged s \<longrightarrow> r = Inr ())"
  using step_inner_frame [of s] by (auto simp: total_frame_def vm_frame_def)

theorem step_inner_never_panics_witness:
  "\<exists>s'. step_inner (vm_new_privileged cpu_new memory_new) = Some (Inr (), s') \<and> privileged s'"
  using step_inner_never_panics [of "vm_new_privileged cpu_new memory_new"] by (auto simp: vm_new_privileged_def)

text \<open>
  C2. A run always returns: with no VirtIO device attached and a step limit below \<open>2^64 - 64\<close>, \<open>run\<close> gives an
  error or a step count that is at most the limit, and equal to it unless the machine has halted.
\<close>

theorem run_returns:
  assumes "virtio_devices (mmio s) = []" and "unat max_steps + 64 \<le> 2 ^ 64"
  shows "\<exists>r s'. run s max_steps = Some (r, s') \<and>
    (case r of Inl _ \<Rightarrow> True | Inr n \<Rightarrow> n \<le> max_steps \<and> (halted s' \<or> n = max_steps))"
proof -
  have "run_ok max_steps s (run s max_steps)"
    using run_batch_ok [of s s 0 max_steps] run_privileged_ok [of s s 0 max_steps] assms
    by (simp add: run_def)
  then show ?thesis by (auto simp: run_ok_def)
qed

theorem run_returns_witness:
  "\<exists>r s'. run (vm_new_privileged cpu_new memory_new) 1000 = Some (r, s') \<and>
    (case r of Inl _ \<Rightarrow> True | Inr n \<Rightarrow> n \<le> 1000 \<and> (halted s' \<or> n = 1000))"
  using run_returns [of "vm_new_privileged cpu_new memory_new" 1000]
  by (simp add: vm_new_privileged_def mmio_new_def)

text \<open>
  C4. Taking a trap and returning at once with the return instruction of the handler's mode resumes the
  interrupted program. The exception is a trap delegated to supervisor mode while \<^verbatim>\<open>mstatus.TSR\<close> is set in a
  privileged machine: there SRET raises an illegal-instruction trap. Otherwise the machine is as it was before the
  trap, with the program counter at the saved address, up to: the three trap registers of the handler's mode,
  which hold the saved address, the cause and the trap value; the TLB, which MRET empties; and the save fields of
  \<^verbatim>\<open>mstatus\<close>. After SRET these are \<^verbatim>\<open>SPIE\<close> set, \<^verbatim>\<open>SPP\<close> and \<^verbatim>\<open>MPRV\<close> clear; after MRET \<^verbatim>\<open>MPIE\<close> set, \<^verbatim>\<open>MPP\<close> clear, and
  \<^verbatim>\<open>MPRV\<close> clear unless the trap came from machine mode. All other bits, the interrupt enables included, are kept.
\<close>

theorem trap_return_resumes:
  fixes s :: vm
  defines "c \<equiv> csrs (cpu s)"
  assumes "raise_trap s cause tval epc = Some s1"
  shows "if delegates (cpu s) cause \<and> privileged s \<and> bit (csr_regs c A_MSTATUS) 22
    then execute SRET s1 = trap_ok s1 IllegalInstruction
    else \<exists>R. execute (if delegates (cpu s) cause then SRET else MRET) s1 =
        Some (Inr (), s\<lparr>cpu := (cpu s)\<lparr>csrs := c\<lparr>csr_regs := R\<rparr>, pc := epc\<rparr>,
          tlb := (if delegates (cpu s) cause then tlb s else (\<lambda>_. None))\<rparr>) \<and>
      (if delegates (cpu s) cause
       then R = (csr_regs c)(A_SEPC := epc, A_SCAUSE := to_cause_value cause, A_STVAL := tval, A_MSTATUS := R A_MSTATUS) \<and>
         (\<forall>k. bit (R A_MSTATUS) k \<longleftrightarrow> k = 5 \<or> k \<notin> {8, 17} \<and> bit (csr_regs c A_MSTATUS) k)
       else R = (csr_regs c)(A_MEPC := epc, A_MCAUSE := to_cause_value cause, A_MTVAL := tval, A_MSTATUS := R A_MSTATUS) \<and>
         (\<forall>k. bit (R A_MSTATUS) k \<longleftrightarrow>
            k = 7 \<or> k \<notin> {11, 12} \<and> (k = 17 \<longrightarrow> priv_mode (cpu s) = Machine) \<and> bit (csr_regs c A_MSTATUS) k))"
proof (cases "delegates (cpu s) cause")
  case True
  then have nm: "priv_mode (cpu s) \<noteq> Machine" by (simp add: delegates_def)
  let ?ms = "csr_regs c A_MSTATUS"
  have s1: "s1 = s\<lparr>cpu := (cpu s)\<lparr>csrs := c\<lparr>csr_regs := (csr_regs c)
      (A_SEPC := epc, A_SCAUSE := to_cause_value cause, A_STVAL := tval,
       A_MSTATUS := s_trap_status (priv_mode (cpu s)) ?ms)\<rparr>,
      pc := trap_target (csr_regs c A_STVEC) cause, priv_mode := Supervisor\<rparr>\<rparr>"
    using assms True by (simp add: raise_trap_def deliver_trap_eq deliver_to_s_eq)
  have tsr: "privileged s1 \<and> bit (csr_regs (csrs (cpu s1)) A_MSTATUS) 22 \<longleftrightarrow> privileged s \<and> bit ?ms 22"
    by (simp add: s1 bit_s_trap_status)
  show ?thesis
  proof (cases "privileged s \<and> bit ?ms 22")
    case trapped: True
    then show ?thesis using True tsr exec_sret_trapped [of s1] by (simp add: s1)
  next
    case False
    with exec_sret_eq [of s1] tsr
    have "execute SRET s1 = Some (Inr (), s\<lparr>cpu := (cpu s)\<lparr>csrs := c\<lparr>csr_regs := (csr_regs c)
      (A_SEPC := epc, A_SCAUSE := to_cause_value cause, A_STVAL := tval,
       A_MSTATUS := sret_status (s_trap_status (priv_mode (cpu s)) ?ms))\<rparr>, pc := epc\<rparr>, tlb := tlb s\<rparr>)"
      using s_trap.mode_enter [OF nm] by (simp add: s1 ok_def)
    with True False show ?thesis by (intro if_not_P [THEN iffD2] exI) (auto simp: bit_sret_s_trap)
  qed
next
  case False
  let ?ms = "csr_regs c A_MSTATUS"
  have s1: "s1 = s\<lparr>cpu := (cpu s)\<lparr>csrs := c\<lparr>csr_regs := (csr_regs c)
      (A_MEPC := epc, A_MCAUSE := to_cause_value cause, A_MTVAL := tval,
       A_MSTATUS := m_trap_status (priv_mode (cpu s)) ?ms)\<rparr>,
      pc := trap_target (csr_regs c A_MTVEC) cause, priv_mode := Machine\<rparr>\<rparr>"
    using assms False by (simp add: raise_trap_def deliver_trap_eq deliver_to_m_eq)
  have "execute MRET s1 = Some (Inr (), s\<lparr>cpu := (cpu s)\<lparr>csrs := c\<lparr>csr_regs := (csr_regs c)
      (A_MEPC := epc, A_MCAUSE := to_cause_value cause, A_MTVAL := tval,
       A_MSTATUS := mret_status (m_trap_status (priv_mode (cpu s)) ?ms))\<rparr>, pc := epc\<rparr>, tlb := (\<lambda>_. None)\<rparr>)"
    using m_trap.mode_enter by (simp add: exec_mret_eq s1 ok_def tlb_flush_def)
  with False show ?thesis by (auto simp: bit_mret_m_trap)
qed

theorem trap_return_resumes_witness:
  "\<exists>s1 s2. raise_trap (vm_new_privileged cpu_new memory_new) (Interrupt MachineTimer) 0 0x100 = Some s1 \<and>
     execute MRET s1 = Some (Inr (), s2) \<and> pc (cpu s2) = 0x100 \<and> priv_mode (cpu s2) = Machine \<and>
     ram s2 = memory_new \<and> bit (csr_regs (csrs (cpu s2)) A_MSTATUS) 7"
proof -
  let ?s = "vm_new_privileged cpu_new memory_new"
  obtain s1 where s1: "raise_trap ?s (Interrupt MachineTimer) 0 0x100 = Some s1"
    using raise_trap_frame [OF vm_frame_refl] by blast
  moreover have "\<not> delegates (cpu ?s) (Interrupt MachineTimer)" "priv_mode (cpu ?s) = Machine" "ram ?s = memory_new"
    by (simp_all add: delegates_def vm_new_privileged_def cpu_new_def)
  ultimately show ?thesis
    using trap_return_resumes [OF s1] by auto
qed

end
