(* ===== verification/Rv_Trace.thy ===== *)
theory Rv_Trace
  imports Rv_Exec
begin

text \<open>
  The execution trace of \<^verbatim>\<open>crates/riscv/src/trace.rs\<close>: the rows that \<^verbatim>\<open>TracingVm\<close> records, the auxiliary
  values of a row, the memory access of an instruction, and the 84 columns that the proof system
  commits to. The theory shows that tracing does not disturb the machine and that consecutive rows are
  consistent.
\<close>

section \<open>Classification\<close>

fun reg_funct :: "reg_op \<Rightarrow> u8" where
  "reg_funct Add = 0" | "reg_funct Sub = 1" | "reg_funct Sll = 2" | "reg_funct Slt = 3" | "reg_funct Sltu = 4"
| "reg_funct Xor = 5" | "reg_funct Srl = 6" | "reg_funct Sra = 7" | "reg_funct Or = 8" | "reg_funct And = 9"

fun imm_funct :: "imm_op \<Rightarrow> u8" where
  "imm_funct Addi = 0" | "imm_funct Slti = 1" | "imm_funct Sltiu = 2" | "imm_funct Xori = 3" | "imm_funct Ori = 4"
| "imm_funct Andi = 5" | "imm_funct Slli = 6" | "imm_funct Srli = 7" | "imm_funct Srai = 8"

fun regw_funct :: "regw_op \<Rightarrow> u8" where
  "regw_funct Addw = 0" | "regw_funct Subw = 1" | "regw_funct Sllw = 2" | "regw_funct Srlw = 3" | "regw_funct Sraw = 4"

fun immw_funct :: "immw_op \<Rightarrow> u8" where
  "immw_funct Addiw = 5" | "immw_funct Slliw = 6" | "immw_funct Srliw = 7" | "immw_funct Sraiw = 8"

fun mul_funct :: "mul_op \<Rightarrow> u8" where
  "mul_funct Mul = 0" | "mul_funct Mulh = 1" | "mul_funct Mulhsu = 2" | "mul_funct Mulhu = 3"
| "mul_funct Div = 4" | "mul_funct Divu = 5" | "mul_funct Rem = 6" | "mul_funct Remu = 7"

fun mulw_funct :: "mulw_op \<Rightarrow> u8" where
  "mulw_funct Mulw = 8" | "mulw_funct Divw = 9" | "mulw_funct Divuw = 10" | "mulw_funct Remw = 11" | "mulw_funct Remuw = 12"

fun load_funct :: "load_op \<Rightarrow> u8" where
  "load_funct Lb = 0" | "load_funct Lh = 1" | "load_funct Lw = 2" | "load_funct Ld = 3"
| "load_funct Lbu = 4" | "load_funct Lhu = 5" | "load_funct Lwu = 6"

fun store_funct :: "store_op \<Rightarrow> u8" where
  "store_funct Sb = 0" | "store_funct Sh = 1" | "store_funct Sw = 2" | "store_funct Sd = 3"

fun branch_funct :: "branch_op \<Rightarrow> u8" where
  "branch_funct Beq = 0" | "branch_funct Bne = 1" | "branch_funct Blt = 2" | "branch_funct Bge = 3"
| "branch_funct Bltu = 4" | "branch_funct Bgeu = 5"

fun csr_funct :: "csr_op \<Rightarrow> u8" where
  "csr_funct Csrrw = 0" | "csr_funct Csrrs = 1" | "csr_funct Csrrc = 2"

fun amo_funct :: "amo_op \<Rightarrow> u8" where
  "amo_funct AmoSwap = 4" | "amo_funct AmoAdd = 6" | "amo_funct AmoAnd = 8" | "amo_funct AmoOr = 10"
| "amo_funct AmoXor = 12" | "amo_funct AmoMax = 14" | "amo_funct AmoMin = 16" | "amo_funct AmoMaxu = 18"
| "amo_funct AmoMinu = 20"

text \<open>The 64-bit variant of an atomic has the next number.\<close>

fun width_funct :: "amo_width \<Rightarrow> u8" where
  "width_funct W32 = 0" | "width_funct D64 = 1"

fun classify_instruction :: "instruction \<Rightarrow> u8 \<times> u8" where
  "classify_instruction (OpReg op _ _ _) = (0, reg_funct op)"
| "classify_instruction (OpImm op _ _ _) = (1, imm_funct op)"
| "classify_instruction (OpRegW op _ _ _) = (2, regw_funct op)"
| "classify_instruction (OpImmW op _ _ _) = (2, immw_funct op)"
| "classify_instruction (OpMul op _ _ _) = (3, mul_funct op)"
| "classify_instruction (OpMulW op _ _ _) = (3, mulw_funct op)"
| "classify_instruction (Load op _ _ _) = (4, load_funct op)"
| "classify_instruction (Store op _ _ _) = (5, store_funct op)"
| "classify_instruction (Branch op _ _ _) = (6, branch_funct op)"
| "classify_instruction (JAL _ _) = (7, 0)"
| "classify_instruction (JALR _ _ _) = (8, 0)"
| "classify_instruction (LUI _ _) = (9, 0)"
| "classify_instruction (AUIPC _ _) = (10, 0)"
| "classify_instruction (Csr op _ _ _) = (11, csr_funct op)"
| "classify_instruction (CsrI op _ _ _) = (11, csr_funct op + 3)"
| "classify_instruction ECALL = (12, 0)"
| "classify_instruction EBREAK = (12, 1)"
| "classify_instruction MRET = (12, 2)"
| "classify_instruction SRET = (12, 3)"
| "classify_instruction WFI = (12, 4)"
| "classify_instruction (FENCE _ _) = (12, 5)"
| "classify_instruction (SFENCE_VMA _ _) = (12, 6)"
| "classify_instruction FENCE_I = (12, 7)"
| "classify_instruction (Lr wd _ _ _ _) = (13, width_funct wd)"
| "classify_instruction (Sc wd _ _ _ _ _) = (13, 2 + width_funct wd)"
| "classify_instruction (Amo op wd _ _ _ _ _) = (13, amo_funct op + width_funct wd)"

text \<open>The immediate as an \<open>i64\<close>.\<close>

fun extract_immediate :: "instruction \<Rightarrow> i64" where
  "extract_immediate (LUI _ imm) = sx imm"
| "extract_immediate (AUIPC _ imm) = sx imm"
| "extract_immediate (JAL _ imm) = sx imm"
| "extract_immediate (JALR _ _ imm) = sx imm"
| "extract_immediate (Load _ _ _ imm) = sx imm"
| "extract_immediate (OpImm _ _ _ imm) = sx imm"
| "extract_immediate (OpImmW _ _ _ imm) = sx imm"
| "extract_immediate (Store _ _ _ imm) = sx imm"
| "extract_immediate (Branch _ _ _ imm) = sx imm"
| "extract_immediate (CsrI _ _ uimm _) = zx uimm"
| "extract_immediate _ = 0"

section \<open>Rows\<close>

datatype mem_access = MemNone | MemRead | MemWrite

record trace_row =
  tr_step :: u64
  tr_pc :: u64
  tr_instruction :: instruction
  tr_rd :: u8
  tr_rd_val_before :: u64
  tr_rd_val_after :: u64
  tr_rs1 :: u8
  tr_rs1_val :: u64
  tr_rs2 :: u8
  tr_rs2_val :: u64
  tr_mem_addr :: u64
  tr_mem_val :: u64
  tr_mem_op :: mem_access
  tr_next_pc :: u64
  tr_privilege_mode :: u8
  tr_insn_len :: u8
  tr_aux0 :: u64
  tr_aux1 :: u64
  tr_aux2 :: u64

text \<open>The memory access of an instruction, given the values of the registers.\<close>

fun compute_mem_info_with :: "instruction \<Rightarrow> (u8 \<Rightarrow> u64 option) \<Rightarrow> (u64 \<times> mem_access) option" where
  "compute_mem_info_with (Load _ _ rs1 imm) rr = do { a \<leftarrow> rr rs1; Some (a + sx imm, MemRead) }"
| "compute_mem_info_with (Store _ rs1 _ imm) rr = do { a \<leftarrow> rr rs1; Some (a + sx imm, MemWrite) }"
| "compute_mem_info_with (Lr _ _ rs1 _ _) rr = do { a \<leftarrow> rr rs1; Some (a, MemRead) }"
| "compute_mem_info_with (Sc _ _ rs1 _ _ _) rr = do { a \<leftarrow> rr rs1; Some (a, MemWrite) }"
| "compute_mem_info_with (Amo _ _ _ rs1 _ _ _) rr = do { a \<leftarrow> rr rs1; Some (a, MemWrite) }"
| "compute_mem_info_with _ rr = Some (0, MemNone)"

definition compute_mem_info :: "instruction \<Rightarrow> vm \<Rightarrow> (u64 \<times> mem_access) option" where
  "compute_mem_info i s = compute_mem_info_with i (read_reg (cpu s))"

fun compute_mem_val :: "instruction \<Rightarrow> u64 \<Rightarrow> u64 \<Rightarrow> u64" where
  "compute_mem_val (Amo AmoSwap D64 _ _ _ _ _) old rs2_val = rs2_val"
| "compute_mem_val (Amo AmoSwap W32 _ _ _ _ _) old rs2_val = sx (lo32 rs2_val)"
| "compute_mem_val (Amo AmoAdd D64 _ _ _ _ _) old rs2_val = old + rs2_val"
| "compute_mem_val (Amo AmoAdd W32 _ _ _ _ _) old rs2_val = sx (lo32 old + lo32 rs2_val)"
| "compute_mem_val (Amo AmoAnd D64 _ _ _ _ _) old rs2_val = old AND rs2_val"
| "compute_mem_val (Amo AmoAnd W32 _ _ _ _ _) old rs2_val = sx (lo32 old AND lo32 rs2_val)"
| "compute_mem_val (Amo AmoOr D64 _ _ _ _ _) old rs2_val = old OR rs2_val"
| "compute_mem_val (Amo AmoOr W32 _ _ _ _ _) old rs2_val = sx (lo32 old OR lo32 rs2_val)"
| "compute_mem_val (Amo AmoXor D64 _ _ _ _ _) old rs2_val = old XOR rs2_val"
| "compute_mem_val (Amo AmoXor W32 _ _ _ _ _) old rs2_val = sx (lo32 old XOR lo32 rs2_val)"
| "compute_mem_val (Amo AmoMinu D64 _ _ _ _ _) old rs2_val = min old rs2_val"
| "compute_mem_val (Amo AmoMinu W32 _ _ _ _ _) old rs2_val = sx (min (lo32 old) (lo32 rs2_val))"
| "compute_mem_val (Amo AmoMaxu D64 _ _ _ _ _) old rs2_val = max old rs2_val"
| "compute_mem_val (Amo AmoMaxu W32 _ _ _ _ _) old rs2_val = sx (max (lo32 old) (lo32 rs2_val))"
| "compute_mem_val (Amo AmoMin D64 _ _ _ _ _) old rs2_val = word_of_int (min (sint old) (sint rs2_val))"
| "compute_mem_val (Amo AmoMin W32 _ _ _ _ _) old rs2_val =
     sx (word_of_int (min (sint (lo32 old)) (sint (lo32 rs2_val))) :: i32)"
| "compute_mem_val (Amo AmoMax D64 _ _ _ _ _) old rs2_val = word_of_int (max (sint old) (sint rs2_val))"
| "compute_mem_val (Amo AmoMax W32 _ _ _ _ _) old rs2_val =
     sx (word_of_int (max (sint (lo32 old)) (sint (lo32 rs2_val))) :: i32)"
| "compute_mem_val _ old rs2_val = rs2_val"

section \<open>Auxiliary values\<close>

text \<open>\<open>if a < b { 1 } else { 0 }\<close> and \<open>(a >> 63) & 1\<close>, for any width.\<close>

definition borrow_of :: "'a::len word \<Rightarrow> 'a word \<Rightarrow> u64" where
  "borrow_of a b = u64_of_bool (a < b)"

definition sign_of :: "'a::len word \<Rightarrow> u64" where
  "sign_of a = ucast (drop_bit (LENGTH('a) - 1) a AND 1)"

text \<open>\<open>(expr as i64 >> 32) as u64\<close>.\<close>

definition correction_of :: "u64 \<Rightarrow> u64" where
  "correction_of expr = signed_drop_bit 32 expr"

text \<open>The shift helpers: \<open>power = 1 << k\<close> with the overflow of a left shift, the remainder of a right
  shift, and the sign correction of an arithmetic shift, at both widths.\<close>

definition sll_aux :: "u64 \<Rightarrow> u64 \<Rightarrow> u64 \<times> u64 \<times> u64" where
  "sll_aux a k = (let power = push_bit (unat k) 1
                  in (power, ucast (drop_bit 64 (ucast a * ucast power :: u128)), 0))"

definition srl_aux :: "u64 \<Rightarrow> u64 \<Rightarrow> u64 \<times> u64 \<times> u64" where
  "srl_aux a k = (let power = push_bit (unat k) 1 in (power, if k = 0 then 0 else a mod power, 0))"

definition sra_aux :: "u64 \<Rightarrow> u64 \<Rightarrow> u64 \<times> u64 \<times> u64" where
  "sra_aux a k = (let power = push_bit (unat k) 1
                  in (power, if k = 0 then 0 else a mod power, sign_of a * (power - 1)))"

definition sllw_aux :: "u64 \<Rightarrow> u32 \<Rightarrow> u64 \<times> u64 \<times> u64" where
  "sllw_aux a k = (let power = (push_bit (unat k) 1 :: u32); rs1_low = lo32 a
                   in (zx power, drop_bit 32 (zx rs1_low * zx power), 0))"

definition srlw_aux :: "u64 \<Rightarrow> u32 \<Rightarrow> u64 \<times> u64 \<times> u64" where
  "srlw_aux a k = (let power = (push_bit (unat k) 1 :: u32); rs1_low = lo32 a
                   in (zx power, if k = 0 then 0 else zx (rs1_low mod power), 0))"

definition sraw_aux :: "u64 \<Rightarrow> u32 \<Rightarrow> u64 \<times> u64 \<times> u64" where
  "sraw_aux a k = (let power = (push_bit (unat k) 1 :: u32); rs1_low = lo32 a
                   in (zx power, if k = 0 then 0 else zx (rs1_low mod power), sign_of rs1_low * zx (power - 1)))"

text \<open>The upper half and the sign bit of the lower half, of the 32-bit additions.\<close>

definition w_aux :: "u64 \<Rightarrow> u64 \<times> u64 \<times> u64" where
  "w_aux full = (drop_bit 32 full, sign_of (lo32 full), 0)"

fun reg_aux :: "reg_op \<Rightarrow> u64 \<Rightarrow> u64 \<Rightarrow> u64 \<times> u64 \<times> u64" where
  "reg_aux Add a b = (ucast (drop_bit 64 (ucast a + ucast b :: u128)), 0, 0)"
| "reg_aux Sub a b = (borrow_of a b, 0, 0)"
| "reg_aux Sltu a b = (borrow_of a b, 0, 0)"
| "reg_aux Slt a b = (borrow_of a b, sign_of a, sign_of b)"
| "reg_aux Sll a b = sll_aux a (b AND 0x3F)"
| "reg_aux Srl a b = srl_aux a (b AND 0x3F)"
| "reg_aux Sra a b = sra_aux a (b AND 0x3F)"
| "reg_aux And a b = (a AND b, 0, 0)"
| "reg_aux Or a b = (a AND b, 0, 0)"
| "reg_aux Xor a b = (a AND b, 0, 0)"

fun imm_aux :: "imm_op \<Rightarrow> u64 \<Rightarrow> i32 \<Rightarrow> u64 \<times> u64 \<times> u64" where
  "imm_aux Addi a imm = (ucast (drop_bit 64 (ucast a + ucast (sx imm) :: u128)), 0, 0)"
| "imm_aux Sltiu a imm = (borrow_of a (sx imm), 0, 0)"
| "imm_aux Slti a imm = (borrow_of a (sx imm), sign_of a, sign_of (sx imm))"
| "imm_aux Slli a imm = sll_aux a (sx imm AND 0x3F)"
| "imm_aux Srli a imm = srl_aux a (sx imm AND 0x3F)"
| "imm_aux Srai a imm = sra_aux a (sx imm AND 0x3F)"
| "imm_aux Andi a imm = (a AND sx imm, 0, 0)"
| "imm_aux Ori a imm = (a AND sx imm, 0, 0)"
| "imm_aux Xori a imm = (a AND sx imm, 0, 0)"

fun regw_aux :: "regw_op \<Rightarrow> u64 \<Rightarrow> u64 \<Rightarrow> u64 \<times> u64 \<times> u64" where
  "regw_aux Addw a b = w_aux (a + b)"
| "regw_aux Subw a b = w_aux (a - b)"
| "regw_aux Sllw a b = sllw_aux a (ucast (b AND 0x1F))"
| "regw_aux Srlw a b = srlw_aux a (ucast (b AND 0x1F))"
| "regw_aux Sraw a b = sraw_aux a (ucast (b AND 0x1F))"

fun immw_aux :: "immw_op \<Rightarrow> u64 \<Rightarrow> i32 \<Rightarrow> u64 \<times> u64 \<times> u64" where
  "immw_aux Addiw a imm = w_aux (a + sx imm)"
| "immw_aux Slliw a imm = sllw_aux a (imm AND 0x1F)"
| "immw_aux Srliw a imm = srlw_aux a (imm AND 0x1F)"
| "immw_aux Sraiw a imm = sraw_aux a (imm AND 0x1F)"

fun mul_aux :: "mul_op \<Rightarrow> u64 \<Rightarrow> u64 \<Rightarrow> u64 \<times> u64 \<times> u64" where
  "mul_aux Mul a b = (ucast (drop_bit 64 (ucast a * ucast b :: u128)), 0, 0)"
| "mul_aux Mulh a b = (ucast (ucast a * ucast b :: u128), sign_of a, sign_of b)"
| "mul_aux Mulhu a b = (ucast (ucast a * ucast b :: u128), 0, 0)"
| "mul_aux Mulhsu a b = (ucast (ucast a * ucast b :: u128), sign_of a, 0)"
| "mul_aux Div a b = (if b = 0 then (0, 0, 0) else (word_of_int (sint a smod sint b), 0, 0))"
| "mul_aux Divu a b = (if b = 0 then (0, 0, 0) else (a mod b, 0, 0))"
| "mul_aux Rem a b = (if b = 0 then (0, 0, 0) else (word_of_int (sint a sdiv sint b), 0, 0))"
| "mul_aux Remu a b = (if b = 0 then (0, 0, 0) else (a div b, 0, 0))"

fun mulw_aux :: "mulw_op \<Rightarrow> u64 \<Rightarrow> u64 \<Rightarrow> u64 \<Rightarrow> u64 \<times> u64 \<times> u64" where
  "mulw_aux Mulw x y rd_after =
     (let product = zx (lo32 x) * zx (lo32 y) in (drop_bit 32 product, drop_bit 31 product AND 1, 0))"
| "mulw_aux Divw x y rd_after =
     (let a = lo32 x; b = lo32 y;
          rem = (if b = 0 then sx a else sx (word_of_int (sint a smod sint b) :: i32))
      in (rem, correction_of (rd_after * y + rem - x), 0))"
| "mulw_aux Divuw x y rd_after =
     (let a = lo32 x; b = lo32 y; rem = (if b = 0 then zx a else zx (a mod b))
      in (rem, correction_of (rd_after * y + rem - x), 0))"
| "mulw_aux Remw x y rd_after =
     (let a = lo32 x; b = lo32 y
      in if b = 0 then (0, 0, 0)
         else let quot = sx (word_of_int (sint a sdiv sint b) :: i32)
              in (quot, correction_of (quot * y + rd_after - x), 0))"
| "mulw_aux Remuw x y rd_after =
     (let a = lo32 x; b = lo32 y
      in if b = 0 then (0, 0, 0)
         else let quot = zx (a div b) in (quot, correction_of (quot * y + rd_after - x), 0))"

fun branch_aux :: "branch_op \<Rightarrow> u64 \<Rightarrow> u64 \<Rightarrow> u64 \<times> u64 \<times> u64" where
  "branch_aux Beq a b = (0, u64_of_bool (a \<noteq> b), 0)"
| "branch_aux Bne a b = (0, u64_of_bool (a \<noteq> b), 0)"
| "branch_aux Bltu a b = (0, borrow_of a b, 0)"
| "branch_aux Bgeu a b = (0, borrow_of a b, 0)"
| "branch_aux Blt a b = (borrow_of a b, sign_of a, sign_of b)"
| "branch_aux Bge a b = (borrow_of a b, sign_of a, sign_of b)"

fun csr_aux :: "csr_op \<Rightarrow> u64 \<Rightarrow> u64 \<Rightarrow> u64 \<times> u64 \<times> u64" where
  "csr_aux Csrrw source old = (source, 0, 0)"
| "csr_aux Csrrs source old = (old OR source, old AND source, 0)"
| "csr_aux Csrrc source old = (old AND NOT source, old AND source, 0)"

fun amo_aux :: "amo_op \<Rightarrow> amo_width \<Rightarrow> u64 \<Rightarrow> u64 \<Rightarrow> u64 \<times> u64 \<times> u64" where
  "amo_aux AmoSwap D64 old b = (0, 0, 0)"
| "amo_aux AmoSwap W32 old b = (drop_bit 32 b, drop_bit 31 b AND 1, 0)"
| "amo_aux AmoAdd D64 old b = (u64_of_bool (2 ^ 64 \<le> unat old + unat b), 0, 0)"
| "amo_aux AmoAdd W32 old b =
     (let sum32 = lo32 old + lo32 b; result = sx sum32
      in (drop_bit 32 (old + b - result), sign_of sum32, 1))"
| "amo_aux AmoAnd D64 old b = (old OR b, 0, 0)"
| "amo_aux AmoAnd W32 old b =
     (let result = sx (lo32 old AND lo32 b); or_val = zx (lo32 old OR lo32 b)
      in (or_val, correction_of (result + or_val - old - b), 0))"
| "amo_aux AmoOr D64 old b = (old AND b, 0, 0)"
| "amo_aux AmoOr W32 old b =
     (let result = sx (lo32 old OR lo32 b); and_val = zx (lo32 old AND lo32 b)
      in (and_val, correction_of (result + and_val - old - b), 0))"
| "amo_aux AmoXor D64 old b = (old AND b, 0, 0)"
| "amo_aux AmoXor W32 old b =
     (let result = sx (lo32 old XOR lo32 b); and_val = zx (lo32 old AND lo32 b)
      in (and_val, correction_of (result + and_val * 2 - old - b), 0))"
| "amo_aux AmoMinu D64 old b = (borrow_of old b, 0, 0)"
| "amo_aux AmoMinu W32 old b =
     (let borrow = borrow_of (lo32 old) (lo32 b);
          result = sx (if borrow = 1 then lo32 old else lo32 b)
      in (borrow, correction_of (result - b - borrow * (old - b)), 0))"
| "amo_aux AmoMaxu D64 old b = (borrow_of old b, 0, 0)"
| "amo_aux AmoMaxu W32 old b =
     (let borrow = borrow_of (lo32 old) (lo32 b);
          result = sx (if borrow = 1 then lo32 b else lo32 old)
      in (borrow, correction_of (result - old + borrow * (old - b)), 0))"
| "amo_aux AmoMin D64 old b = (borrow_of old b, sign_of old, sign_of b)"
| "amo_aux AmoMin W32 old b = (borrow_of (lo32 old) (lo32 b), sign_of (lo32 old), sign_of (lo32 b))"
| "amo_aux AmoMax D64 old b = (borrow_of old b, sign_of old, sign_of b)"
| "amo_aux AmoMax W32 old b = (borrow_of (lo32 old) (lo32 b), sign_of (lo32 old), sign_of (lo32 b))"

fun compute_aux_values :: "instruction \<Rightarrow> u64 \<Rightarrow> u64 \<Rightarrow> u64 \<Rightarrow> u64 \<times> u64 \<times> u64" where
  "compute_aux_values (OpReg op _ _ _) rs1_val rs2_val rd_after = reg_aux op rs1_val rs2_val"
| "compute_aux_values (OpImm op _ _ imm) rs1_val rs2_val rd_after = imm_aux op rs1_val imm"
| "compute_aux_values (OpRegW op _ _ _) rs1_val rs2_val rd_after = regw_aux op rs1_val rs2_val"
| "compute_aux_values (OpImmW op _ _ imm) rs1_val rs2_val rd_after = immw_aux op rs1_val imm"
| "compute_aux_values (OpMul op _ _ _) rs1_val rs2_val rd_after = mul_aux op rs1_val rs2_val"
| "compute_aux_values (OpMulW op _ _ _) rs1_val rs2_val rd_after = mulw_aux op rs1_val rs2_val rd_after"
| "compute_aux_values (SB _ _ _) rs1_val rs2_val rd_after = (drop_bit 8 rs2_val, 0, 0)"
| "compute_aux_values (SH _ _ _) rs1_val rs2_val rd_after = (drop_bit 16 rs2_val, 0, 0)"
| "compute_aux_values (SW _ _ _) rs1_val rs2_val rd_after = (drop_bit 32 rs2_val, 0, 0)"
| "compute_aux_values (Branch op _ _ _) rs1_val rs2_val rd_after = branch_aux op rs1_val rs2_val"
| "compute_aux_values (JALR _ _ imm) rs1_val rs2_val rd_after = (0, (rs1_val + sx imm) AND 1, 0)"
| "compute_aux_values (Csr op _ _ _) rs1_val rs2_val rd_after = csr_aux op rs1_val rd_after"
| "compute_aux_values (CsrI op _ uimm _) rs1_val rs2_val rd_after = csr_aux op (zx uimm) rd_after"
| "compute_aux_values (Sc _ _ _ _ _ _) rs1_val rs2_val rd_after = (u64_of_bool (rd_after = 0), 0, 0)"
| "compute_aux_values (Amo op wd _ _ _ _ _) rs1_val rs2_val rd_after = amo_aux op wd rd_after rs2_val"
| "compute_aux_values _ rs1_val rs2_val rd_after = (0, 0, 0)"

section \<open>Tracing\<close>

record tracing_vm =
  tv_vm :: vm
  tv_trace :: "trace_row list"

definition tracing_new :: "vm \<Rightarrow> tracing_vm" where
  "tracing_new s = \<lparr>tv_vm = s, tv_trace = []\<rparr>"

text \<open>\<open>reg.unwrap_or(0)\<close>.\<close>

definition reg_or_zero :: "u8 option \<Rightarrow> u8" where
  "reg_or_zero r = (case r of Some x \<Rightarrow> x | None \<Rightarrow> 0)"

text \<open>
  The row of a step from \<open>s\<close> to \<open>s'\<close> that executed instruction \<open>i\<close>. The value of a memory write is the
  argument \<open>written\<close>: \<open>compute_mem_val\<close> for \<^verbatim>\<open>TracingVm\<close>.
\<close>

definition record_row ::
  "(instruction \<Rightarrow> u64 \<Rightarrow> u64 \<Rightarrow> u64) \<Rightarrow> u64 \<Rightarrow> vm \<Rightarrow> vm \<Rightarrow> instruction \<Rightarrow> u8 \<Rightarrow> trace_row option" where
  "record_row written step_num s s' i len = do {
     let rd = reg_or_zero (insn_rd i);
     let rs1 = reg_or_zero (insn_rs1 i);
     let rs2 = reg_or_zero (insn_rs2 i);
     rd_before \<leftarrow> read_reg (cpu s) rd;
     rs1_val \<leftarrow> read_reg (cpu s) rs1;
     rs2_val \<leftarrow> read_reg (cpu s) rs2;
     (mem_addr, mem_op) \<leftarrow> compute_mem_info i s;
     rd_after \<leftarrow> read_reg (cpu s') rd;
     let mem_val = (case mem_op of MemRead \<Rightarrow> rd_after | MemWrite \<Rightarrow> written i rd_after rs2_val | MemNone \<Rightarrow> 0);
     (aux0, aux1, aux2) \<leftarrow> Some (compute_aux_values i rs1_val rs2_val rd_after);
     Some \<lparr>tr_step = step_num, tr_pc = pc (cpu s), tr_instruction = i,
       tr_rd = rd, tr_rd_val_before = rd_before, tr_rd_val_after = rd_after,
       tr_rs1 = rs1, tr_rs1_val = rs1_val, tr_rs2 = rs2, tr_rs2_val = rs2_val,
       tr_mem_addr = mem_addr, tr_mem_val = mem_val, tr_mem_op = mem_op, tr_next_pc = pc (cpu s'),
       tr_privilege_mode = of_nat (priv_level (priv_mode (cpu s))), tr_insn_len = len,
       tr_aux0 = aux0, tr_aux1 = aux1, tr_aux2 = aux2\<rparr>
   }"

definition tracing_step :: "tracing_vm \<Rightarrow> ((vm_error + unit) \<times> tracing_vm) option" where
  "tracing_step tv =
     (let s = tv_vm tv in
      if halted s then Some (Inl Halted, tv)
      else case fetch_decode (ram s) (pc (cpu s)) of
        Inl e \<Rightarrow> Some (Inl (DecodeErr e), tv)
      | Inr f \<Rightarrow> do {
          (r, s') \<leftarrow> step s;
          case r of
            Inl e \<Rightarrow> Some (Inl e, tv\<lparr>tv_vm := s'\<rparr>)
          | Inr _ \<Rightarrow> do {
              row \<leftarrow> record_row compute_mem_val (of_nat (length (tv_trace tv))) s s' (fi_instruction f) (fi_len f);
              Some (Inr (), \<lparr>tv_vm = s', tv_trace = tv_trace tv @ [row]\<rparr>)
            }
        })"

text \<open>The loop of \<^verbatim>\<open>TracingVm::run\<close>, from a given step count.\<close>

partial_function (option) tracing_loop ::
  "u64 \<Rightarrow> u64 \<Rightarrow> tracing_vm \<Rightarrow> ((vm_error + u64) \<times> tracing_vm) option" where
  "tracing_loop max_steps steps tv =
     (if \<not> halted (tv_vm tv) \<and> steps < max_steps then do {
        (r, tv') \<leftarrow> tracing_step tv;
        case r of
          Inl e \<Rightarrow> Some (Inl e, tv')
        | Inr _ \<Rightarrow> tracing_loop max_steps (steps + 1) tv'
      } else Some (Inr steps, tv))"

definition tracing_run :: "tracing_vm \<Rightarrow> u64 \<Rightarrow> ((vm_error + u64) \<times> tracing_vm) option" where
  "tracing_run tv max_steps = tracing_loop max_steps 0 tv"

section \<open>Columns\<close>

text \<open>The index of the selector that is set for a class of instructions.\<close>

definition selector_index :: "u8 \<Rightarrow> u8 \<Rightarrow> nat" where
  "selector_index itype funct =
     (if itype = 0 then
        (if funct = 0 then 0 else if funct = 1 then 1 else if funct = 9 then 2 else if funct = 8 then 3
         else if funct = 5 then 4 else if funct = 2 then 5 else if funct = 6 then 6 else if funct = 7 then 7 else 8)
      else if itype = 1 then
        (if funct = 0 then 9 else if funct = 5 then 10 else if funct = 4 then 11 else if funct = 3 then 12
         else if funct = 6 then 13 else if funct = 7 then 14 else if funct = 8 then 15 else 16)
      else if itype = 2 then
        (if funct = 0 then 17 else if funct = 1 then 18 else if funct = 5 then 19
         else if funct = 2 \<or> funct = 6 then 20 else if funct = 3 \<or> funct = 7 then 21
         else if funct = 4 \<or> funct = 8 then 22 else 23)
      else if itype = 3 then
        (if funct = 0 then 24 else if funct = 1 then 54 else if funct = 2 then 55 else if funct = 3 then 51
         else if funct = 4 \<or> funct = 5 then 25 else if funct = 6 \<or> funct = 7 then 26 else if funct = 8 then 56
         else if funct = 9 \<or> funct = 10 then 57 else if funct = 11 \<or> funct = 12 then 58 else 27)
      else if itype = 4 then 28
      else if itype = 5 then 29
      else if itype = 6 then
        (if funct = 0 then 30 else if funct = 1 then 31 else if funct = 4 then 32 else if funct = 5 then 33
         else if funct = 2 then 34 else if funct = 3 then 35 else 34)
      else if itype = 7 then 36
      else if itype = 8 then 37
      else if itype = 9 then 38
      else if itype = 10 then 39
      else if itype = 11 then
        (if funct = 0 then 40 else if funct = 3 then 52 else if funct = 1 then 41 else if funct = 4 then 53
         else if funct = 2 \<or> funct = 5 then 42 else 40)
      else if itype = 12 then 43
      else if itype = 13 then
        (if funct = 0 \<or> funct = 1 then 44 else if funct = 2 \<or> funct = 3 then 45
         else if funct = 4 \<or> funct = 5 then 46 else if funct = 6 \<or> funct = 7 then 47
         else if funct = 8 \<or> funct = 9 then 48 else if funct = 10 \<or> funct = 11 then 59
         else if funct = 12 \<or> funct = 13 then 60 else if funct = 14 \<or> funct = 15 then 63
         else if funct = 16 \<or> funct = 17 then 62 else if funct = 18 \<or> funct = 19 then 61
         else if funct = 20 \<or> funct = 21 then 49 else 50)
      else 43)"

definition selector_values :: "u8 \<Rightarrow> u8 \<Rightarrow> u64 list" where
  "selector_values itype funct = (replicate 64 0)[selector_index itype funct := 1]"

text \<open>\<^verbatim>\<open>TraceColumns\<close>: one vector per column.\<close>

record trace_columns =
  tc_step :: "u64 list"
  tc_pc :: "u64 list"
  tc_rd :: "u64 list"
  tc_rd_val_before :: "u64 list"
  tc_rd_val_after :: "u64 list"
  tc_rs1 :: "u64 list"
  tc_rs1_val :: "u64 list"
  tc_rs2 :: "u64 list"
  tc_rs2_val :: "u64 list"
  tc_mem_addr :: "u64 list"
  tc_mem_val :: "u64 list"
  tc_next_pc :: "u64 list"
  tc_privilege_mode :: "u64 list"
  tc_insn_type :: "u64 list"
  tc_funct :: "u64 list"
  tc_immediate :: "u64 list"
  tc_insn_len :: "u64 list"
  tc_aux0 :: "u64 list"
  tc_aux1 :: "u64 list"
  tc_aux2 :: "u64 list"
  tc_sel_r_alu_add :: "u64 list"
  tc_sel_r_alu_sub :: "u64 list"
  tc_sel_r_and :: "u64 list"
  tc_sel_r_or :: "u64 list"
  tc_sel_r_xor :: "u64 list"
  tc_sel_r_sll :: "u64 list"
  tc_sel_r_srl :: "u64 list"
  tc_sel_r_sra :: "u64 list"
  tc_sel_r_compare :: "u64 list"
  tc_sel_i_alu_add :: "u64 list"
  tc_sel_i_and :: "u64 list"
  tc_sel_i_or :: "u64 list"
  tc_sel_i_xor :: "u64 list"
  tc_sel_i_sll :: "u64 list"
  tc_sel_i_srl :: "u64 list"
  tc_sel_i_sra :: "u64 list"
  tc_sel_i_compare :: "u64 list"
  tc_sel_w_alu_add :: "u64 list"
  tc_sel_w_alu_sub :: "u64 list"
  tc_sel_w_alu_addi :: "u64 list"
  tc_sel_w_sll :: "u64 list"
  tc_sel_w_srl :: "u64 list"
  tc_sel_w_sra :: "u64 list"
  tc_sel_w_alu_other :: "u64 list"
  tc_sel_mul :: "u64 list"
  tc_sel_div :: "u64 list"
  tc_sel_rem :: "u64 list"
  tc_sel_muldiv_other :: "u64 list"
  tc_sel_load :: "u64 list"
  tc_sel_store :: "u64 list"
  tc_sel_beq :: "u64 list"
  tc_sel_bne :: "u64 list"
  tc_sel_bltu :: "u64 list"
  tc_sel_bgeu :: "u64 list"
  tc_sel_blt :: "u64 list"
  tc_sel_bge :: "u64 list"
  tc_sel_jal :: "u64 list"
  tc_sel_jalr :: "u64 list"
  tc_sel_lui :: "u64 list"
  tc_sel_auipc :: "u64 list"
  tc_sel_csrrw :: "u64 list"
  tc_sel_csrrs :: "u64 list"
  tc_sel_csrrc :: "u64 list"
  tc_sel_system :: "u64 list"
  tc_sel_lr :: "u64 list"
  tc_sel_sc :: "u64 list"
  tc_sel_amo_swap :: "u64 list"
  tc_sel_amo_add :: "u64 list"
  tc_sel_amo_bitwise :: "u64 list"
  tc_sel_amo_compare :: "u64 list"
  tc_sel_atomic_other :: "u64 list"
  tc_sel_mulhu :: "u64 list"
  tc_sel_csrrw_i :: "u64 list"
  tc_sel_csrrs_i :: "u64 list"
  tc_sel_mulh :: "u64 list"
  tc_sel_mulhsu :: "u64 list"
  tc_sel_mulw :: "u64 list"
  tc_sel_divw :: "u64 list"
  tc_sel_remw :: "u64 list"
  tc_sel_amo_or :: "u64 list"
  tc_sel_amo_xor :: "u64 list"
  tc_sel_amo_maxu :: "u64 list"
  tc_sel_amo_mins :: "u64 list"
  tc_sel_amo_maxs :: "u64 list"

definition empty_columns :: trace_columns where
  "empty_columns = \<lparr>tc_step = [], tc_pc = [], tc_rd = [], tc_rd_val_before = [], tc_rd_val_after = [], tc_rs1 = [],
      tc_rs1_val = [], tc_rs2 = [], tc_rs2_val = [], tc_mem_addr = [], tc_mem_val = [], tc_next_pc = [],
      tc_privilege_mode = [], tc_insn_type = [], tc_funct = [], tc_immediate = [], tc_insn_len = [], tc_aux0 = [],
      tc_aux1 = [], tc_aux2 = [], tc_sel_r_alu_add = [], tc_sel_r_alu_sub = [], tc_sel_r_and = [], tc_sel_r_or = [],
      tc_sel_r_xor = [], tc_sel_r_sll = [], tc_sel_r_srl = [], tc_sel_r_sra = [], tc_sel_r_compare = [],
      tc_sel_i_alu_add = [], tc_sel_i_and = [], tc_sel_i_or = [], tc_sel_i_xor = [], tc_sel_i_sll = [],
      tc_sel_i_srl = [], tc_sel_i_sra = [], tc_sel_i_compare = [], tc_sel_w_alu_add = [], tc_sel_w_alu_sub = [],
      tc_sel_w_alu_addi = [], tc_sel_w_sll = [], tc_sel_w_srl = [], tc_sel_w_sra = [], tc_sel_w_alu_other = [],
      tc_sel_mul = [], tc_sel_div = [], tc_sel_rem = [], tc_sel_muldiv_other = [], tc_sel_load = [],
      tc_sel_store = [], tc_sel_beq = [], tc_sel_bne = [], tc_sel_bltu = [], tc_sel_bgeu = [], tc_sel_blt = [],
      tc_sel_bge = [], tc_sel_jal = [], tc_sel_jalr = [], tc_sel_lui = [], tc_sel_auipc = [], tc_sel_csrrw = [],
      tc_sel_csrrs = [], tc_sel_csrrc = [], tc_sel_system = [], tc_sel_lr = [], tc_sel_sc = [], tc_sel_amo_swap = [],
      tc_sel_amo_add = [], tc_sel_amo_bitwise = [], tc_sel_amo_compare = [], tc_sel_atomic_other = [],
      tc_sel_mulhu = [], tc_sel_csrrw_i = [], tc_sel_csrrs_i = [], tc_sel_mulh = [], tc_sel_mulhsu = [],
      tc_sel_mulw = [], tc_sel_divw = [], tc_sel_remw = [], tc_sel_amo_or = [], tc_sel_amo_xor = [],
      tc_sel_amo_maxu = [], tc_sel_amo_mins = [], tc_sel_amo_maxs = []\<rparr>"

text \<open>The body of the loop over the trace: the value that a row appends to each column.\<close>

definition push_row :: "trace_columns \<Rightarrow> trace_row \<Rightarrow> trace_columns" where
  "push_row cols r =
     (let (itype, funct) = classify_instruction (tr_instruction r);
          sel = selector_values itype funct
      in \<lparr>tc_step = tc_step cols @ [tr_step r], tc_pc = tc_pc cols @ [tr_pc r], tc_rd = tc_rd cols @ [zx (tr_rd r)],
          tc_rd_val_before = tc_rd_val_before cols @ [tr_rd_val_before r],
          tc_rd_val_after = tc_rd_val_after cols @ [tr_rd_val_after r], tc_rs1 = tc_rs1 cols @ [zx (tr_rs1 r)],
          tc_rs1_val = tc_rs1_val cols @ [tr_rs1_val r], tc_rs2 = tc_rs2 cols @ [zx (tr_rs2 r)],
          tc_rs2_val = tc_rs2_val cols @ [tr_rs2_val r], tc_mem_addr = tc_mem_addr cols @ [tr_mem_addr r],
          tc_mem_val = tc_mem_val cols @ [tr_mem_val r], tc_next_pc = tc_next_pc cols @ [tr_next_pc r],
          tc_privilege_mode = tc_privilege_mode cols @ [zx (tr_privilege_mode r)],
          tc_insn_type = tc_insn_type cols @ [zx itype], tc_funct = tc_funct cols @ [zx funct],
          tc_immediate = tc_immediate cols @ [extract_immediate (tr_instruction r)],
          tc_insn_len = tc_insn_len cols @ [zx (tr_insn_len r)], tc_aux0 = tc_aux0 cols @ [tr_aux0 r],
          tc_aux1 = tc_aux1 cols @ [tr_aux1 r], tc_aux2 = tc_aux2 cols @ [tr_aux2 r],
          tc_sel_r_alu_add = tc_sel_r_alu_add cols @ [sel ! 0], tc_sel_r_alu_sub = tc_sel_r_alu_sub cols @ [sel ! 1],
          tc_sel_r_and = tc_sel_r_and cols @ [sel ! 2], tc_sel_r_or = tc_sel_r_or cols @ [sel ! 3],
          tc_sel_r_xor = tc_sel_r_xor cols @ [sel ! 4], tc_sel_r_sll = tc_sel_r_sll cols @ [sel ! 5],
          tc_sel_r_srl = tc_sel_r_srl cols @ [sel ! 6], tc_sel_r_sra = tc_sel_r_sra cols @ [sel ! 7],
          tc_sel_r_compare = tc_sel_r_compare cols @ [sel ! 8], tc_sel_i_alu_add = tc_sel_i_alu_add cols @ [sel ! 9],
          tc_sel_i_and = tc_sel_i_and cols @ [sel ! 10], tc_sel_i_or = tc_sel_i_or cols @ [sel ! 11],
          tc_sel_i_xor = tc_sel_i_xor cols @ [sel ! 12], tc_sel_i_sll = tc_sel_i_sll cols @ [sel ! 13],
          tc_sel_i_srl = tc_sel_i_srl cols @ [sel ! 14], tc_sel_i_sra = tc_sel_i_sra cols @ [sel ! 15],
          tc_sel_i_compare = tc_sel_i_compare cols @ [sel ! 16],
          tc_sel_w_alu_add = tc_sel_w_alu_add cols @ [sel ! 17],
          tc_sel_w_alu_sub = tc_sel_w_alu_sub cols @ [sel ! 18],
          tc_sel_w_alu_addi = tc_sel_w_alu_addi cols @ [sel ! 19], tc_sel_w_sll = tc_sel_w_sll cols @ [sel ! 20],
          tc_sel_w_srl = tc_sel_w_srl cols @ [sel ! 21], tc_sel_w_sra = tc_sel_w_sra cols @ [sel ! 22],
          tc_sel_w_alu_other = tc_sel_w_alu_other cols @ [sel ! 23], tc_sel_mul = tc_sel_mul cols @ [sel ! 24],
          tc_sel_div = tc_sel_div cols @ [sel ! 25], tc_sel_rem = tc_sel_rem cols @ [sel ! 26],
          tc_sel_muldiv_other = tc_sel_muldiv_other cols @ [sel ! 27], tc_sel_load = tc_sel_load cols @ [sel ! 28],
          tc_sel_store = tc_sel_store cols @ [sel ! 29], tc_sel_beq = tc_sel_beq cols @ [sel ! 30],
          tc_sel_bne = tc_sel_bne cols @ [sel ! 31], tc_sel_bltu = tc_sel_bltu cols @ [sel ! 32],
          tc_sel_bgeu = tc_sel_bgeu cols @ [sel ! 33], tc_sel_blt = tc_sel_blt cols @ [sel ! 34],
          tc_sel_bge = tc_sel_bge cols @ [sel ! 35], tc_sel_jal = tc_sel_jal cols @ [sel ! 36],
          tc_sel_jalr = tc_sel_jalr cols @ [sel ! 37], tc_sel_lui = tc_sel_lui cols @ [sel ! 38],
          tc_sel_auipc = tc_sel_auipc cols @ [sel ! 39], tc_sel_csrrw = tc_sel_csrrw cols @ [sel ! 40],
          tc_sel_csrrs = tc_sel_csrrs cols @ [sel ! 41], tc_sel_csrrc = tc_sel_csrrc cols @ [sel ! 42],
          tc_sel_system = tc_sel_system cols @ [sel ! 43], tc_sel_lr = tc_sel_lr cols @ [sel ! 44],
          tc_sel_sc = tc_sel_sc cols @ [sel ! 45], tc_sel_amo_swap = tc_sel_amo_swap cols @ [sel ! 46],
          tc_sel_amo_add = tc_sel_amo_add cols @ [sel ! 47],
          tc_sel_amo_bitwise = tc_sel_amo_bitwise cols @ [sel ! 48],
          tc_sel_amo_compare = tc_sel_amo_compare cols @ [sel ! 49],
          tc_sel_atomic_other = tc_sel_atomic_other cols @ [sel ! 50], tc_sel_mulhu = tc_sel_mulhu cols @ [sel ! 51],
          tc_sel_csrrw_i = tc_sel_csrrw_i cols @ [sel ! 52], tc_sel_csrrs_i = tc_sel_csrrs_i cols @ [sel ! 53],
          tc_sel_mulh = tc_sel_mulh cols @ [sel ! 54], tc_sel_mulhsu = tc_sel_mulhsu cols @ [sel ! 55],
          tc_sel_mulw = tc_sel_mulw cols @ [sel ! 56], tc_sel_divw = tc_sel_divw cols @ [sel ! 57],
          tc_sel_remw = tc_sel_remw cols @ [sel ! 58], tc_sel_amo_or = tc_sel_amo_or cols @ [sel ! 59],
          tc_sel_amo_xor = tc_sel_amo_xor cols @ [sel ! 60], tc_sel_amo_maxu = tc_sel_amo_maxu cols @ [sel ! 61],
          tc_sel_amo_mins = tc_sel_amo_mins cols @ [sel ! 62], tc_sel_amo_maxs = tc_sel_amo_maxs cols @ [sel ! 63]\<rparr>)"

definition export_trace_rows_to_columns :: "trace_row list \<Rightarrow> trace_columns" where
  "export_trace_rows_to_columns trace = foldl push_row empty_columns trace"

definition export_columns :: "tracing_vm \<Rightarrow> trace_columns" where
  "export_columns tv = export_trace_rows_to_columns (tv_trace tv)"

text \<open>The interface \<^verbatim>\<open>VmTrace\<close>; \<open>None\<close> is the panic of an index out of range.\<close>

definition num_steps :: "trace_columns \<Rightarrow> nat" where
  "num_steps cols = length (tc_step cols)"

abbreviation NUM_COLUMNS :: nat where
  "NUM_COLUMNS \<equiv> 84"

definition trace_column :: "trace_columns \<Rightarrow> nat \<Rightarrow> u64 list option" where
  "trace_column cols index =
     (if index = 0 then Some (tc_step cols)
      else if index = 1 then Some (tc_pc cols)
      else if index = 2 then Some (tc_rd cols)
      else if index = 3 then Some (tc_rd_val_before cols)
      else if index = 4 then Some (tc_rd_val_after cols)
      else if index = 5 then Some (tc_rs1 cols)
      else if index = 6 then Some (tc_rs1_val cols)
      else if index = 7 then Some (tc_rs2 cols)
      else if index = 8 then Some (tc_rs2_val cols)
      else if index = 9 then Some (tc_mem_addr cols)
      else if index = 10 then Some (tc_mem_val cols)
      else if index = 11 then Some (tc_next_pc cols)
      else if index = 12 then Some (tc_privilege_mode cols)
      else if index = 13 then Some (tc_insn_type cols)
      else if index = 14 then Some (tc_funct cols)
      else if index = 15 then Some (tc_immediate cols)
      else if index = 16 then Some (tc_insn_len cols)
      else if index = 17 then Some (tc_aux0 cols)
      else if index = 18 then Some (tc_aux1 cols)
      else if index = 19 then Some (tc_aux2 cols)
      else if index = 20 then Some (tc_sel_r_alu_add cols)
      else if index = 21 then Some (tc_sel_r_alu_sub cols)
      else if index = 22 then Some (tc_sel_r_and cols)
      else if index = 23 then Some (tc_sel_r_or cols)
      else if index = 24 then Some (tc_sel_r_xor cols)
      else if index = 25 then Some (tc_sel_r_sll cols)
      else if index = 26 then Some (tc_sel_r_srl cols)
      else if index = 27 then Some (tc_sel_r_sra cols)
      else if index = 28 then Some (tc_sel_r_compare cols)
      else if index = 29 then Some (tc_sel_i_alu_add cols)
      else if index = 30 then Some (tc_sel_i_and cols)
      else if index = 31 then Some (tc_sel_i_or cols)
      else if index = 32 then Some (tc_sel_i_xor cols)
      else if index = 33 then Some (tc_sel_i_sll cols)
      else if index = 34 then Some (tc_sel_i_srl cols)
      else if index = 35 then Some (tc_sel_i_sra cols)
      else if index = 36 then Some (tc_sel_i_compare cols)
      else if index = 37 then Some (tc_sel_w_alu_add cols)
      else if index = 38 then Some (tc_sel_w_alu_sub cols)
      else if index = 39 then Some (tc_sel_w_alu_addi cols)
      else if index = 40 then Some (tc_sel_w_sll cols)
      else if index = 41 then Some (tc_sel_w_srl cols)
      else if index = 42 then Some (tc_sel_w_sra cols)
      else if index = 43 then Some (tc_sel_w_alu_other cols)
      else if index = 44 then Some (tc_sel_mul cols)
      else if index = 45 then Some (tc_sel_div cols)
      else if index = 46 then Some (tc_sel_rem cols)
      else if index = 47 then Some (tc_sel_muldiv_other cols)
      else if index = 48 then Some (tc_sel_load cols)
      else if index = 49 then Some (tc_sel_store cols)
      else if index = 50 then Some (tc_sel_beq cols)
      else if index = 51 then Some (tc_sel_bne cols)
      else if index = 52 then Some (tc_sel_bltu cols)
      else if index = 53 then Some (tc_sel_bgeu cols)
      else if index = 54 then Some (tc_sel_blt cols)
      else if index = 55 then Some (tc_sel_bge cols)
      else if index = 56 then Some (tc_sel_jal cols)
      else if index = 57 then Some (tc_sel_jalr cols)
      else if index = 58 then Some (tc_sel_lui cols)
      else if index = 59 then Some (tc_sel_auipc cols)
      else if index = 60 then Some (tc_sel_csrrw cols)
      else if index = 61 then Some (tc_sel_csrrs cols)
      else if index = 62 then Some (tc_sel_csrrc cols)
      else if index = 63 then Some (tc_sel_system cols)
      else if index = 64 then Some (tc_sel_lr cols)
      else if index = 65 then Some (tc_sel_sc cols)
      else if index = 66 then Some (tc_sel_amo_swap cols)
      else if index = 67 then Some (tc_sel_amo_add cols)
      else if index = 68 then Some (tc_sel_amo_bitwise cols)
      else if index = 69 then Some (tc_sel_amo_compare cols)
      else if index = 70 then Some (tc_sel_atomic_other cols)
      else if index = 71 then Some (tc_sel_mulhu cols)
      else if index = 72 then Some (tc_sel_csrrw_i cols)
      else if index = 73 then Some (tc_sel_csrrs_i cols)
      else if index = 74 then Some (tc_sel_mulh cols)
      else if index = 75 then Some (tc_sel_mulhsu cols)
      else if index = 76 then Some (tc_sel_mulw cols)
      else if index = 77 then Some (tc_sel_divw cols)
      else if index = 78 then Some (tc_sel_remw cols)
      else if index = 79 then Some (tc_sel_amo_or cols)
      else if index = 80 then Some (tc_sel_amo_xor cols)
      else if index = 81 then Some (tc_sel_amo_maxu cols)
      else if index = 82 then Some (tc_sel_amo_mins cols)
      else if index = 83 then Some (tc_sel_amo_maxs cols)
      else None)"

definition all_columns :: "trace_columns \<Rightarrow> u64 list list" where
  "all_columns cols =
     [tc_step cols, tc_pc cols, tc_rd cols, tc_rd_val_before cols, tc_rd_val_after cols, tc_rs1 cols,
      tc_rs1_val cols, tc_rs2 cols, tc_rs2_val cols, tc_mem_addr cols, tc_mem_val cols, tc_next_pc cols,
      tc_privilege_mode cols, tc_insn_type cols, tc_funct cols, tc_immediate cols, tc_insn_len cols, tc_aux0 cols,
      tc_aux1 cols, tc_aux2 cols, tc_sel_r_alu_add cols, tc_sel_r_alu_sub cols, tc_sel_r_and cols, tc_sel_r_or cols,
      tc_sel_r_xor cols, tc_sel_r_sll cols, tc_sel_r_srl cols, tc_sel_r_sra cols, tc_sel_r_compare cols,
      tc_sel_i_alu_add cols, tc_sel_i_and cols, tc_sel_i_or cols, tc_sel_i_xor cols, tc_sel_i_sll cols,
      tc_sel_i_srl cols, tc_sel_i_sra cols, tc_sel_i_compare cols, tc_sel_w_alu_add cols, tc_sel_w_alu_sub cols,
      tc_sel_w_alu_addi cols, tc_sel_w_sll cols, tc_sel_w_srl cols, tc_sel_w_sra cols, tc_sel_w_alu_other cols,
      tc_sel_mul cols, tc_sel_div cols, tc_sel_rem cols, tc_sel_muldiv_other cols, tc_sel_load cols,
      tc_sel_store cols, tc_sel_beq cols, tc_sel_bne cols, tc_sel_bltu cols, tc_sel_bgeu cols, tc_sel_blt cols,
      tc_sel_bge cols, tc_sel_jal cols, tc_sel_jalr cols, tc_sel_lui cols, tc_sel_auipc cols, tc_sel_csrrw cols,
      tc_sel_csrrs cols, tc_sel_csrrc cols, tc_sel_system cols, tc_sel_lr cols, tc_sel_sc cols, tc_sel_amo_swap cols,
      tc_sel_amo_add cols, tc_sel_amo_bitwise cols, tc_sel_amo_compare cols, tc_sel_atomic_other cols,
      tc_sel_mulhu cols, tc_sel_csrrw_i cols, tc_sel_csrrs_i cols, tc_sel_mulh cols, tc_sel_mulhsu cols,
      tc_sel_mulw cols, tc_sel_divw cols, tc_sel_remw cols, tc_sel_amo_or cols, tc_sel_amo_xor cols,
      tc_sel_amo_maxu cols, tc_sel_amo_mins cols, tc_sel_amo_maxs cols]"

section \<open>Rows replay the machine\<close>

text \<open>
  \<open>row_of r s s'\<close>: row \<open>r\<close> describes the step from \<open>s\<close> to \<open>s'\<close>. \<open>replays s rows s'\<close>: the rows describe, one by
  one, the steps of a run from \<open>s\<close> to \<open>s'\<close>.
\<close>

definition row_of :: "trace_row \<Rightarrow> vm \<Rightarrow> vm \<Rightarrow> bool" where
  "row_of r s s' \<longleftrightarrow>
     (\<exists>f. fetch_decode (ram s) (pc (cpu s)) = Inr f \<and> tr_instruction r = fi_instruction f \<and> tr_insn_len r = fi_len f) \<and>
     tr_pc r = pc (cpu s) \<and> tr_next_pc r = pc (cpu s') \<and>
     tr_rs1_val r = reg_val (cpu s) (tr_rs1 r) \<and> tr_rs2_val r = reg_val (cpu s) (tr_rs2 r) \<and>
     tr_rd_val_before r = reg_val (cpu s) (tr_rd r) \<and> tr_rd_val_after r = reg_val (cpu s') (tr_rd r) \<and>
     tr_privilege_mode r = of_nat (priv_level (priv_mode (cpu s))) \<and>
     tr_rd r = reg_or_zero (insn_rd (tr_instruction r)) \<and> tr_rs1 r = reg_or_zero (insn_rs1 (tr_instruction r)) \<and>
     tr_rs2 r = reg_or_zero (insn_rs2 (tr_instruction r)) \<and>
     compute_mem_info (tr_instruction r) s = Some (tr_mem_addr r, tr_mem_op r) \<and>
     (tr_aux0 r, tr_aux1 r, tr_aux2 r) =
       compute_aux_values (tr_instruction r) (tr_rs1_val r) (tr_rs2_val r) (tr_rd_val_after r)"

inductive replays :: "vm \<Rightarrow> trace_row list \<Rightarrow> vm \<Rightarrow> bool" where
  replays_none: "replays s [] s"
| replays_step: "step s = Some (Inr (), s') \<Longrightarrow> row_of r s s' \<Longrightarrow> replays s' rows s'' \<Longrightarrow> replays s (r # rows) s''"

inductive_cases replays_NilE: "replays s [] s'"
inductive_cases replays_ConsE: "replays s (r # rows) s'"

lemma replays_snoc:
  "replays s rows s' \<Longrightarrow> step s' = Some (Inr (), s'') \<Longrightarrow> row_of r s' s'' \<Longrightarrow> replays s (rows @ [r]) s''"
  by (induction rule: replays.induct) (auto intro: replays.intros)

lemma replays_chained: "replays s rows s' \<Longrightarrow> successively (\<lambda>r r'. tr_pc r' = tr_next_pc r) rows"
proof (induction rule: replays.induct)
  case (replays_step s s' r rows s'')
  then show ?case by (cases rows) (auto simp: row_of_def elim: replays_ConsE)
qed simp

text \<open>Decoded instructions name registers below 32, so recording a row never panics.\<close>

lemma compute_mem_info_total: "insn_ok i \<Longrightarrow> \<exists>x. compute_mem_info i s = Some x"
  unfolding compute_mem_info_def
  by (cases i) (auto simp: insn_ok_def regs_ok_def insn_rs2_def read_reg_ok)

lemma record_row_total:
  assumes f: "fetch_decode (ram s) (pc (cpu s)) = Inr f"
  shows "\<exists>r. record_row w n s s' (fi_instruction f) (fi_len f) = Some r \<and> row_of r s s'"
proof -
  let ?i = "fi_instruction f"
  have ok: "insn_ok ?i" by (rule fetch_decode_ok(1) [OF f])
  then have r: "reg_or_zero (insn_rd ?i) < 32" "reg_or_zero (insn_rs1 ?i) < 32" "reg_or_zero (insn_rs2 ?i) < 32"
    by (auto simp: insn_ok_def regs_ok_def reg_or_zero_def split: option.splits)
  obtain a op where "compute_mem_info ?i s = Some (a, op)" using compute_mem_info_total [OF ok] by fastforce
  then show ?thesis
    using r f by (auto simp: record_row_def Let_def read_reg_ok row_of_def split: prod.split)
qed

section \<open>Tracing does not disturb the machine\<close>

lemma fetch_addr_unprivileged: "\<not> privileged s \<Longrightarrow> fetch_addr s = Some (Inr (pc (cpu s)), s)"
  by (simp add: fetch_addr_def translate_for_def translation_active_def)

lemma step_inner_decode_error:
  assumes "\<not> privileged s" and "fetch_decode (ram s) (pc (cpu s)) = Inl e"
  shows "step_inner s = Some (Inl (DecodeErr e), s\<lparr>last_fetched := None\<rparr>)"
  using assms fetch_addr_unprivileged [of "s\<lparr>last_fetched := None\<rparr>"] by (simp add: step_inner_def)

text \<open>The states of the tracing and the plain machine agree, except for the note of the last fetch.\<close>

abbreviation same_machine :: "vm \<Rightarrow> vm \<Rightarrow> bool" where
  "same_machine s s' \<equiv> s\<lparr>last_fetched := None\<rparr> = s'\<lparr>last_fetched := None\<rparr>"

definition traced_run :: "vm \<Rightarrow> ((vm_error + u64) \<times> vm) option \<Rightarrow> ((vm_error + u64) \<times> tracing_vm) option \<Rightarrow> bool" where
  "traced_run s0 plain traced \<longleftrightarrow>
     (\<exists>r s' tv. plain = Some (r, s') \<and> traced = Some (r, tv) \<and> same_machine s' (tv_vm tv) \<and>
        (\<exists>t. replays s0 (tv_trace tv) t \<and>
           (case r of Inl _ \<Rightarrow> True | Inr n \<Rightarrow> t = tv_vm tv \<and> s' = tv_vm tv \<and> n = of_nat (length (tv_trace tv)))))"

lemma tracing_step_ok:
  assumes "\<not> halted (tv_vm tv)" and "fetch_decode (ram (tv_vm tv)) (pc (cpu (tv_vm tv))) = Inr f"
    and "step (tv_vm tv) = Some (Inr (), s')"
  shows "\<exists>row. tracing_step tv = Some (Inr (), \<lparr>tv_vm = s', tv_trace = tv_trace tv @ [row]\<rparr>) \<and> row_of row (tv_vm tv) s'"
  using record_row_total [OF assms(2), of compute_mem_val "of_nat (length (tv_trace tv))" s'] assms
  by (auto simp: tracing_step_def Let_def)

lemma tracing_loop_transparent:
  assumes "\<not> privileged (tv_vm tv)" and "replays s0 (tv_trace tv) (tv_vm tv)"
    and "steps = of_nat (length (tv_trace tv))" and "steps \<le> max_steps"
  shows "traced_run s0 (run_batch max_steps steps (tv_vm tv)) (tracing_loop max_steps steps tv)"
  using assms
proof (induction "unat max_steps - unat steps" arbitrary: steps tv)
  case 0
  then have "steps = max_steps" by (simp add: word_le_nat_alt word_unat_eq_iff)
  with 0 show ?case
    by (subst run_batch.simps, subst tracing_loop.simps) (auto simp: traced_run_def)
next
  case (Suc n)
  let ?s = "tv_vm tv"
  have lt: "steps < max_steps" using Suc.hyps(2) by (simp add: word_less_nat_alt)
  then have u: "unat (steps + 1) = unat steps + 1"
    using unat_add_no_wrap [of steps 1] unsigned_less [of max_steps, where ?'a = nat] by (simp add: word_less_nat_alt)
  show ?case
  proof (cases "halted ?s")
    case True
    with Suc.prems show ?thesis by (subst run_batch.simps, subst tracing_loop.simps) (auto simp: traced_run_def)
  next
    case False
    then have st: "step ?s = step_inner ?s" using Suc.prems(1) by (simp add: step_def)
    show ?thesis
    proof (cases "fetch_decode (ram ?s) (pc (cpu ?s))")
      case (Inl e)
      with False lt st step_inner_decode_error [OF Suc.prems(1) Inl] Suc.prems(2) show ?thesis
        by (subst run_batch.simps, subst tracing_loop.simps) (auto simp: traced_run_def tracing_step_def Let_def)
    next
      case (Inr f)
      obtain r s' where inner: "step_inner ?s = Some (r, s')" using step_inner_frame [of ?s] by (auto simp: total_frame_def)
      show ?thesis
      proof (cases r)
        case (Inl e)
        with False lt st inner Inr Suc.prems(2) show ?thesis
          by (subst run_batch.simps, subst tracing_loop.simps) (auto simp: traced_run_def tracing_step_def Let_def)
      next
        case ok: (Inr x)
        then have ok': "step ?s = Some (Inr (), s')" using st inner by simp
        obtain row where row: "tracing_step tv = Some (Inr (), \<lparr>tv_vm = s', tv_trace = tv_trace tv @ [row]\<rparr>)" "row_of row ?s s'"
          using tracing_step_ok [OF False Inr ok'] by blast
        let ?tv = "\<lparr>tv_vm = s', tv_trace = tv_trace tv @ [row]\<rparr>"
        have "privileged s' = privileged ?s" using step_keeps [OF ok'] by (simp add: vm_frame_def)
        moreover have "replays s0 (tv_trace tv @ [row]) s'"
          using Suc.prems(2) ok' row(2) by (rule replays_snoc)
        ultimately have "traced_run s0 (run_batch max_steps (steps + 1) (tv_vm ?tv)) (tracing_loop max_steps (steps + 1) ?tv)"
          using Suc.hyps(2) Suc.prems(1,3) u lt by (intro Suc.hyps(1)) (simp_all add: word_le_nat_alt word_less_nat_alt)
        with False lt inner ok row(1) show ?thesis
          by (subst run_batch.simps, subst tracing_loop.simps) simp
      qed
    qed
  qed
qed

text \<open>
  C25. Recording a trace does not change what an unprivileged machine does: a traced run ends with the
  result and the state of the plain run. The rows of the trace describe its steps one by one (fetched
  instruction, operand and result registers, program counters, auxiliary values), each row starts at
  the program counter where the one before it ended, and there are as many rows as steps.
\<close>

theorem tracing_run_replays:
  assumes "\<not> privileged s"
  shows "\<exists>r s' tv t. run s max_steps = Some (r, s') \<and> tracing_run (tracing_new s) max_steps = Some (r, tv) \<and>
    same_machine s' (tv_vm tv) \<and> replays s (tv_trace tv) t \<and>
    successively (\<lambda>row row'. tr_pc row' = tr_next_pc row) (tv_trace tv) \<and>
    (\<forall>n. r = Inr n \<longrightarrow> t = s' \<and> s' = tv_vm tv \<and> n = of_nat (length (tv_trace tv)))"
proof -
  have "traced_run s (run_batch max_steps 0 s) (tracing_loop max_steps 0 (tracing_new s))"
    using tracing_loop_transparent [of "tracing_new s" s 0 max_steps] assms
    by (simp add: tracing_new_def replays.replays_none)
  then obtain r s' tv t where "run_batch max_steps 0 s = Some (r, s')" "tracing_loop max_steps 0 (tracing_new s) = Some (r, tv)"
    "same_machine s' (tv_vm tv)" and rep: "replays s (tv_trace tv) t"
    and "case r of Inl _ \<Rightarrow> True | Inr n \<Rightarrow> t = tv_vm tv \<and> s' = tv_vm tv \<and> n = of_nat (length (tv_trace tv))"
    unfolding traced_run_def by blast
  then show ?thesis
    using assms replays_chained [OF rep]
    by (intro exI [of _ r] exI [of _ s'] exI [of _ tv] exI [of _ t]) (simp add: run_def tracing_run_def split: sum.splits)
qed

theorem tracing_run_replays_witness:
  "\<exists>r s' tv t. run (vm_new cpu_new memory_new) 8 = Some (r, s') \<and>
    tracing_run (tracing_new (vm_new cpu_new memory_new)) 8 = Some (r, tv) \<and>
    same_machine s' (tv_vm tv) \<and> replays (vm_new cpu_new memory_new) (tv_trace tv) t \<and>
    successively (\<lambda>row row'. tr_pc row' = tr_next_pc row) (tv_trace tv) \<and>
    (\<forall>n. r = Inr n \<longrightarrow> t = s' \<and> s' = tv_vm tv \<and> n = of_nat (length (tv_trace tv)))"
  by (rule tracing_run_replays) (simp add: vm_new_def)

section \<open>Rows of the columns\<close>

lemma selector_index_less: "selector_index itype funct < 64"
  by (simp add: selector_index_def)

lemma length_selector_values [simp]: "length (selector_values itype funct) = 64"
  by (simp add: selector_values_def)

text \<open>The entries of the columns in one row of the table.\<close>

definition row_values :: "trace_row \<Rightarrow> u64 list" where
  "row_values r =
     (let (itype, funct) = classify_instruction (tr_instruction r) in
      [tr_step r, tr_pc r, zx (tr_rd r), tr_rd_val_before r, tr_rd_val_after r, zx (tr_rs1 r), tr_rs1_val r,
       zx (tr_rs2 r), tr_rs2_val r, tr_mem_addr r, tr_mem_val r, tr_next_pc r, zx (tr_privilege_mode r), zx itype,
       zx funct, extract_immediate (tr_instruction r), zx (tr_insn_len r), tr_aux0 r, tr_aux1 r, tr_aux2 r] @ selector_values itype funct)"

lemma length_row_values [simp]: "length (row_values r) = 84"
  by (simp add: row_values_def split: prod.split)

lemma length_all_columns [simp]: "length (all_columns cols) = 84"
  by (simp add: all_columns_def)

text \<open>Intervals from zero, one element after the other.\<close>

lemma upt_from_zero: "[0..<numeral (num.Bit0 n)] = 0 # 1 # [2..<numeral (num.Bit0 n)]"
proof -
  have "(1 :: nat) < numeral (num.Bit0 n)" by simp
  then show ?thesis by (metis One_nat_def Suc_1 upt_rec zero_less_one less_trans)
qed

lemma column_vector: "trace_column cols k = (if k < 84 then Some (all_columns cols ! k) else None)"
proof (cases "k < 84")
  case True
  then have "k \<in> set [0..<84]" by (simp del: upt_rec_numeral)
  then show ?thesis
    unfolding upt_from_zero
    by (simp del: all_columns_def) (elim disjE; simp add: trace_column_def all_columns_def)
qed (simp add: trace_column_def)

lemma sixty_four:
  assumes "length xs = 64"
  shows "[xs ! 0, xs ! 1, xs ! 2, xs ! 3, xs ! 4, xs ! 5, xs ! 6, xs ! 7, xs ! 8, xs ! 9, xs ! 10, xs ! 11, xs ! 12,
      xs ! 13, xs ! 14, xs ! 15, xs ! 16, xs ! 17, xs ! 18, xs ! 19, xs ! 20, xs ! 21, xs ! 22, xs ! 23, xs ! 24, xs ! 25,
      xs ! 26, xs ! 27, xs ! 28, xs ! 29, xs ! 30, xs ! 31, xs ! 32, xs ! 33, xs ! 34, xs ! 35, xs ! 36, xs ! 37, xs ! 38,
      xs ! 39, xs ! 40, xs ! 41, xs ! 42, xs ! 43, xs ! 44, xs ! 45, xs ! 46, xs ! 47, xs ! 48, xs ! 49, xs ! 50, xs ! 51,
      xs ! 52, xs ! 53, xs ! 54, xs ! 55, xs ! 56, xs ! 57, xs ! 58, xs ! 59, xs ! 60, xs ! 61, xs ! 62, xs ! 63] = xs"
proof -
  have "[xs ! 0, xs ! 1, xs ! 2, xs ! 3, xs ! 4, xs ! 5, xs ! 6, xs ! 7, xs ! 8, xs ! 9, xs ! 10, xs ! 11, xs ! 12,
      xs ! 13, xs ! 14, xs ! 15, xs ! 16, xs ! 17, xs ! 18, xs ! 19, xs ! 20, xs ! 21, xs ! 22, xs ! 23, xs ! 24, xs ! 25,
      xs ! 26, xs ! 27, xs ! 28, xs ! 29, xs ! 30, xs ! 31, xs ! 32, xs ! 33, xs ! 34, xs ! 35, xs ! 36, xs ! 37, xs ! 38,
      xs ! 39, xs ! 40, xs ! 41, xs ! 42, xs ! 43, xs ! 44, xs ! 45, xs ! 46, xs ! 47, xs ! 48, xs ! 49, xs ! 50, xs ! 51,
      xs ! 52, xs ! 53, xs ! 54, xs ! 55, xs ! 56, xs ! 57, xs ! 58, xs ! 59, xs ! 60, xs ! 61, xs ! 62, xs ! 63] =
      map ((!) xs) [0..<64]"
    unfolding upt_from_zero by simp
  also have "\<dots> = xs" using map_nth [of xs] by (simp only: assms)
  finally show ?thesis .
qed

lemma all_columns_push: "all_columns (push_row cols r) = map2 (\<lambda>col x. col @ [x]) (all_columns cols) (row_values r)"
proof -
  obtain itype funct where c: "classify_instruction (tr_instruction r) = (itype, funct)" by fastforce
  define sel where "sel = selector_values itype funct"
  have "length sel = 64" by (simp add: sel_def)
  from sixty_four [OF this, symmetric] have "row_values r =
      (let (itype, funct) = classify_instruction (tr_instruction r) in
      [tr_step r, tr_pc r, zx (tr_rd r), tr_rd_val_before r, tr_rd_val_after r, zx (tr_rs1 r), tr_rs1_val r,
       zx (tr_rs2 r), tr_rs2_val r, tr_mem_addr r, tr_mem_val r, tr_next_pc r, zx (tr_privilege_mode r), zx itype,
       zx funct, extract_immediate (tr_instruction r), zx (tr_insn_len r), tr_aux0 r, tr_aux1 r, tr_aux2 r]) @
      [sel ! 0, sel ! 1, sel ! 2, sel ! 3, sel ! 4, sel ! 5, sel ! 6, sel ! 7, sel ! 8, sel ! 9, sel ! 10, sel ! 11, sel ! 12,
      sel ! 13, sel ! 14, sel ! 15, sel ! 16, sel ! 17, sel ! 18, sel ! 19, sel ! 20, sel ! 21, sel ! 22, sel ! 23, sel ! 24, sel ! 25,
      sel ! 26, sel ! 27, sel ! 28, sel ! 29, sel ! 30, sel ! 31, sel ! 32, sel ! 33, sel ! 34, sel ! 35, sel ! 36, sel ! 37, sel ! 38,
      sel ! 39, sel ! 40, sel ! 41, sel ! 42, sel ! 43, sel ! 44, sel ! 45, sel ! 46, sel ! 47, sel ! 48, sel ! 49, sel ! 50, sel ! 51,
      sel ! 52, sel ! 53, sel ! 54, sel ! 55, sel ! 56, sel ! 57, sel ! 58, sel ! 59, sel ! 60, sel ! 61, sel ! 62, sel ! 63]"
    by (simp only: row_values_def c Let_def case_prod_conv sel_def append.simps)
  then show ?thesis
    by (simp only: push_row_def all_columns_def c Let_def case_prod_conv trace_columns.simps append.simps zip_Cons_Cons
        zip_Nil list.map sel_def)
qed

lemma all_columns_export: "all_columns (export_trace_rows_to_columns rows) = map (\<lambda>k. map (\<lambda>r. row_values r ! k) rows) [0..<84]"
proof (induction rows rule: rev_induct)
  case Nil
  have "all_columns empty_columns = replicate 84 []"
    by (simp add: all_columns_def empty_columns_def numeral_eq_Suc)
  then show ?case
    by (simp add: export_trace_rows_to_columns_def map_replicate_const)
next
  case (snoc r rows)
  have "all_columns (export_trace_rows_to_columns (rows @ [r])) =
      map2 (\<lambda>col x. col @ [x]) (all_columns (export_trace_rows_to_columns rows)) (row_values r)"
    by (simp add: export_trace_rows_to_columns_def all_columns_push)
  then show ?case
    unfolding snoc.IH by (intro nth_equalityI) simp_all
qed

definition row_selector :: "trace_row \<Rightarrow> nat" where
  "row_selector r = (case classify_instruction (tr_instruction r) of (itype, funct) \<Rightarrow> selector_index itype funct)"

lemma row_selector_values:
  assumes "20 \<le> k" and "k < 84"
  shows "row_values r ! k = u64_of_bool (k = 20 + row_selector r)"
proof -
  have "selector_values itype funct ! (k - 20) = u64_of_bool (k = 20 + selector_index itype funct)" for itype funct
    using assms selector_index_less [of itype funct]
    by (auto simp: selector_values_def nth_list_update u64_of_bool_def)
  moreover obtain itype funct where c: "classify_instruction (tr_instruction r) = (itype, funct)" by fastforce
  moreover have "drop 20 (row_values r) = selector_values itype funct"
    by (simp add: row_values_def c)
  moreover have "row_values r ! k = drop 20 (row_values r) ! (k - 20)" using assms by simp
  ultimately show ?thesis by (simp add: row_selector_def)
qed

end
