(* ===== verification/Rv_State_Hash.thy ===== *)
theory Rv_State_Hash
  imports Rv_Exec
begin

text \<open>
  The boundary state of \<^verbatim>\<open>crates/riscv/src/state_hash.rs\<close>: the snapshot of a machine, its hash, and the
  incremental hash of the memory, which re-hashes the dirty pages only. The theory shows that the
  incremental hash is the hash of the whole memory, and that the snapshot bytes determine the snapshot.

  SHA3-256 comes from a third-party crate. It is the parameter \<open>sha3\<close>, a function of all the bytes that
  were given to \<^verbatim>\<open>update\<close>, in order. The loops over hash maps and hash sets run in an order that the
  library leaves open; here they run over the sorted keys, and \<open>fmlookup_rehash\<close> shows that the order
  is of no consequence.
\<close>

section \<open>Boundary state\<close>

abbreviation A_MCOUNTEREN :: u16 where "A_MCOUNTEREN \<equiv> 0x306"

definition KEY_CSRS :: "u16 list" where
  "KEY_CSRS =
     [A_MSTATUS, A_MTVEC, A_MEPC, A_MCAUSE,
      A_MTVAL, A_MIE, A_MIP, A_MSCRATCH,
      A_MEDELEG, A_MIDELEG, A_MCOUNTEREN,
      A_SSTATUS, A_STVEC, A_SEPC, A_SCAUSE,
      A_STVAL, A_SIE, A_SIP, A_SATP,
      A_STIMECMP]"

record chunk_boundary_state =
  cb_pc :: u64
  cb_registers :: "u64 list"
  cb_priv_mode :: u8
  cb_key_csrs :: "u64 list"
  cb_memory_hash :: "u8 list"
  cb_uart_output_hash :: "u8 list"
  cb_clint_mtime :: u64
  cb_clint_mtimecmp :: u64
  cb_step_number :: u64

text \<open>The bytes given to the hasher.\<close>

definition boundary_bytes :: "chunk_boundary_state \<Rightarrow> u8 list" where
  "boundary_bytes b =
     to_le_bytes 8 (cb_pc b) @ concat (map (to_le_bytes 8) (cb_registers b)) @ [cb_priv_mode b] @
     concat (map (to_le_bytes 8) (cb_key_csrs b)) @ cb_memory_hash b @ cb_uart_output_hash b @
     to_le_bytes 8 (cb_clint_mtime b) @ to_le_bytes 8 (cb_clint_mtimecmp b) @ to_le_bytes 8 (cb_step_number b)"

definition hash_boundary_state :: "(u8 list \<Rightarrow> u8 list) \<Rightarrow> chunk_boundary_state \<Rightarrow> u8 list" where
  "hash_boundary_state sha3 b = sha3 (boundary_bytes b)"

definition snapshot_vm :: "vm \<Rightarrow> u8 list \<Rightarrow> u8 list \<Rightarrow> u64 \<Rightarrow> chunk_boundary_state option" where
  "snapshot_vm s memory_hash uart_output_hash step_number = do {
     key_csrs \<leftarrow> those (map (read_unchecked (csrs (cpu s))) KEY_CSRS);
     Some \<lparr>cb_pc = pc (cpu s),
       cb_registers = map (\<lambda>i. xregs (cpu s) (of_nat i)) [0..<32],
       cb_priv_mode = of_nat (priv_level (priv_mode (cpu s))),
       cb_key_csrs = key_csrs,
       cb_memory_hash = memory_hash,
       cb_uart_output_hash = uart_output_hash,
       cb_clint_mtime = mtime (clint (mmio s)),
       cb_clint_mtimecmp = mtimecmp (clint (mmio s)),
       cb_step_number = step_number\<rparr>
   }"

section \<open>Incremental memory hash\<close>

type_synonym page_hash_map = "(u64, u8 list) fmap"

record incremental_memory_hash =
  page_hashes :: page_hash_map

definition imh_new :: incremental_memory_hash where
  "imh_new = \<lparr>page_hashes = fmempty\<rparr>"

definition page_bytes :: "page \<Rightarrow> u8 list" where
  "page_bytes p = map (\<lambda>i. p (of_nat i)) [0..<PAGE_SIZE]"

definition hash_page :: "(u8 list \<Rightarrow> u8 list) \<Rightarrow> u64 \<Rightarrow> page \<Rightarrow> u8 list" where
  "hash_page sha3 pn data = sha3 (to_le_bytes 8 pn @ page_bytes data)"

definition rehash :: "(u8 list \<Rightarrow> u8 list) \<Rightarrow> memory \<Rightarrow> u64 list \<Rightarrow> page_hash_map \<Rightarrow> page_hash_map" where
  "rehash sha3 m page_nums hs =
     fold (\<lambda>pn hs. case page_data m pn of
             Some data \<Rightarrow> fmupd pn (hash_page sha3 pn data) hs
           | None \<Rightarrow> hs) page_nums hs"

definition combine_hashes :: "(u8 list \<Rightarrow> u8 list) \<Rightarrow> page_hash_map \<Rightarrow> u8 list" where
  "combine_hashes sha3 hs =
     (let sorted_pages = sorted_list_of_fset (fmdom hs)
      in sha3 (to_le_bytes 8 (of_nat (length sorted_pages) :: u64) @
           concat (map (\<lambda>pn. case fmlookup hs pn of Some h \<Rightarrow> h | None \<Rightarrow> []) sorted_pages)))"

definition imh_update ::
  "(u8 list \<Rightarrow> u8 list) \<Rightarrow> incremental_memory_hash \<Rightarrow> memory \<Rightarrow> u8 list \<times> incremental_memory_hash \<times> memory" where
  "imh_update sha3 h m =
     (let hs = rehash sha3 m (sorted_list_of_fset (dirty_pages m)) (page_hashes h)
      in (combine_hashes sha3 hs, h\<lparr>page_hashes := hs\<rparr>, clear_dirty m))"

definition imh_initialize ::
  "(u8 list \<Rightarrow> u8 list) \<Rightarrow> incremental_memory_hash \<Rightarrow> memory \<Rightarrow> u8 list \<times> incremental_memory_hash" where
  "imh_initialize sha3 h m =
     (let hs = rehash sha3 m (page_numbers m) fmempty
      in (combine_hashes sha3 hs, h\<lparr>page_hashes := hs\<rparr>))"

section \<open>Correctness of the incremental hash\<close>

lemma fmlookup_rehash:
  "fmlookup (rehash sha3 m pns hs) pn =
     (if pn \<in> set pns \<and> pn |\<in>| fmdom (pages m) then map_option (hash_page sha3 pn) (fmlookup (pages m) pn)
      else fmlookup hs pn)"
proof (induction pns arbitrary: hs)
  case (Cons q pns)
  show ?case
    unfolding rehash_def fold_Cons comp_apply Cons.IH [unfolded rehash_def]
    by (auto simp: page_data_def fmlookup_dom_iff split: option.split)
qed (simp add: rehash_def)

text \<open>The hashes of all pages of a memory, as an abstraction of its page table.\<close>

definition all_page_hashes :: "(u8 list \<Rightarrow> u8 list) \<Rightarrow> memory \<Rightarrow> page_hash_map" where
  "all_page_hashes sha3 m = rehash sha3 m (page_numbers m) fmempty"

lemma fmlookup_all_page_hashes:
  "fmlookup (all_page_hashes sha3 m) pn = map_option (hash_page sha3 pn) (fmlookup (pages m) pn)"
proof -
  have "set (page_numbers m) = fset (fmdom (pages m))" by (simp add: page_numbers_def)
  then show ?thesis by (auto simp: all_page_hashes_def fmlookup_rehash fmlookup_dom_iff)
qed

lemma all_page_hashes_clear_dirty [simp]: "all_page_hashes sha3 (clear_dirty m) = all_page_hashes sha3 m"
  by (rule fmap_ext) (simp add: fmlookup_all_page_hashes clear_dirty_def)

text \<open>Re-hashing the dirty pages of a tracked memory turns the hashes of the checkpoint into its own.\<close>

lemma rehash_tracked:
  assumes "tracked m0 m"
  shows "rehash sha3 m (sorted_list_of_fset (dirty_pages m)) (all_page_hashes sha3 m0) = all_page_hashes sha3 m"
proof (rule fmap_ext)
  fix pn
  show "fmlookup (rehash sha3 m (sorted_list_of_fset (dirty_pages m)) (all_page_hashes sha3 m0)) pn =
      fmlookup (all_page_hashes sha3 m) pn"
    using assms by (auto simp: fmlookup_rehash fmlookup_all_page_hashes dirty_pages_def tracked_def)
qed

lemma imh_update_tracked:
  assumes "tracked m0 m" and "page_hashes h = all_page_hashes sha3 m0"
  shows "imh_update sha3 h m =
    (combine_hashes sha3 (all_page_hashes sha3 m), h\<lparr>page_hashes := all_page_hashes sha3 m\<rparr>, clear_dirty m)"
  using rehash_tracked [OF assms(1), of sha3] by (simp add: imh_update_def assms(2) Let_def)

lemma imh_initialize_all:
  "imh_initialize sha3 h m = (combine_hashes sha3 (all_page_hashes sha3 m), h\<lparr>page_hashes := all_page_hashes sha3 m\<rparr>)"
  by (simp add: imh_initialize_def all_page_hashes_def Let_def)

section \<open>Snapshots\<close>

lemma those_map_total: "list_all (\<lambda>x. f x \<noteq> None) xs \<Longrightarrow> \<exists>ys. those (map f xs) = Some ys \<and> length ys = length xs"
  by (induction xs) (auto simp: list_all_Cons_iff)

lemma key_csrs_total: "\<exists>ys. those (map (read_unchecked c) KEY_CSRS) = Some ys \<and> length ys = 20"
  using those_map_total [of "read_unchecked c" KEY_CSRS]
  by (simp add: KEY_CSRS_def list_all_Cons_iff read_unchecked_def csr_index_def)

text \<open>The sizes a snapshot has: the arrays of the Rust struct.\<close>

definition boundary_wf :: "chunk_boundary_state \<Rightarrow> bool" where
  "boundary_wf b \<longleftrightarrow> length (cb_registers b) = 32 \<and> length (cb_key_csrs b) = 20 \<and>
     length (cb_memory_hash b) = 32 \<and> length (cb_uart_output_hash b) = 32"

lemma snapshot_total:
  "\<exists>b. snapshot_vm s mh uh n = Some b \<and> (length mh = 32 \<and> length uh = 32 \<longrightarrow> boundary_wf b)"
  using key_csrs_total [of "csrs (cpu s)"] by (auto simp: snapshot_vm_def boundary_wf_def)

lemma le_bytes8_inject: "to_le_bytes 8 x = to_le_bytes 8 y \<longleftrightarrow> x = y" for x y :: u64
proof
  assume "to_le_bytes 8 x = to_le_bytes 8 y"
  then have "(from_le_bytes (to_le_bytes 8 x) :: u64) = from_le_bytes (to_le_bytes 8 y)" by (rule arg_cong)
  moreover have "from_le_bytes (to_le_bytes 8 w) = w" for w :: u64 by (rule from_le_to_le_bytes) simp
  ultimately show "x = y" by (simp only:)
qed simp

lemma concat_le_bytes_inject:
  fixes xs ys :: "u64 list"
  assumes "concat (map (to_le_bytes 8) xs) = concat (map (to_le_bytes 8) ys)" and "length xs = length ys"
  shows "xs = ys"
  using assms(2,1)
proof (induction xs ys rule: list_induct2)
  case (Cons x xs y ys)
  then have "to_le_bytes 8 x = to_le_bytes 8 y" "concat (map (to_le_bytes 8) xs) = concat (map (to_le_bytes 8) ys)"
    by simp_all
  with Cons.IH show ?case by (simp only: le_bytes8_inject simp_thms)
qed simp

lemma length_concat_le_bytes: "length (concat (map (to_le_bytes 8) xs)) = 8 * length xs" for xs :: "u64 list"
  by (induction xs) simp_all

lemma boundary_bytes_inject:
  assumes "boundary_wf b" and "boundary_wf c" and "boundary_bytes b = boundary_bytes c"
  shows "b = c"
proof -
  have "concat (map (to_le_bytes 8) (cb_registers b)) = concat (map (to_le_bytes 8) (cb_registers c))"
    "concat (map (to_le_bytes 8) (cb_key_csrs b)) = concat (map (to_le_bytes 8) (cb_key_csrs c))"
    "cb_pc b = cb_pc c" "cb_priv_mode b = cb_priv_mode c" "cb_memory_hash b = cb_memory_hash c"
    "cb_uart_output_hash b = cb_uart_output_hash c" "cb_clint_mtime b = cb_clint_mtime c"
    "cb_clint_mtimecmp b = cb_clint_mtimecmp c" "cb_step_number b = cb_step_number c"
    using assms by (simp_all add: boundary_bytes_def boundary_wf_def append_eq_append_conv length_concat_le_bytes le_bytes8_inject)
  with assms(1,2) show ?thesis
    by (intro chunk_boundary_state.equality) (auto simp: boundary_wf_def intro: concat_le_bytes_inject)
qed

end
