(* ===== verification/Rv_Stream.thy ===== *)
theory Rv_Stream
  imports Rv_Trace Rv_State_Hash
begin

text \<open>
  The streaming prover of \<^verbatim>\<open>crates/riscv/src/chunked_trace.rs\<close>: it executes the machine in chunks of a
  fixed number of steps, records the trace of each chunk, and hashes the machine state at both ends.
  The theory shows that the chunks form a chain: every chunk starts with the state hash with which the
  chunk before it ended, and both are the hash of the whole machine state, although the memory hash is
  updated incrementally.
\<close>

section \<open>Tracing a borrowed machine\<close>

text \<open>
  \<^verbatim>\<open>TracingVmBorrowed::step\<close>. It executes first and then takes the instruction from \<^verbatim>\<open>last_fetched\<close>; a step that
  only delivered a trap leaves no row. The value of a memory write is always \<open>rs2\<close>.
\<close>

definition borrowed_step :: "tracing_vm \<Rightarrow> ((vm_error + unit) \<times> tracing_vm) option" where
  "borrowed_step tv =
     (let s = tv_vm tv in
      if halted s then Some (Inl Halted, tv)
      else do {
        (r, s1) \<leftarrow> step s;
        case r of
          Inl e \<Rightarrow> Some (Inl e, tv\<lparr>tv_vm := s1\<rparr>)
        | Inr _ \<Rightarrow>
            (let s' = s1\<lparr>last_fetched := None\<rparr> in
             case last_fetched s1 of
               None \<Rightarrow> Some (Inr (), tv\<lparr>tv_vm := s'\<rparr>)
             | Some (i, len) \<Rightarrow> do {
                 row \<leftarrow> record_row (\<lambda>_ _ rs2_val. rs2_val) (of_nat (length (tv_trace tv))) s s' i len;
                 Some (Inr (), \<lparr>tv_vm = s', tv_trace = tv_trace tv @ [row]\<rparr>)
               })
      })"

section \<open>State and operations\<close>

record execution_chunk =
  ec_chunk_index :: u64
  ec_columns :: trace_columns
  ec_initial_state_hash :: "u8 list"
  ec_final_state_hash :: "u8 list"
  ec_uart_bytes :: "u8 list"
  ec_num_steps :: u64

text \<open>The UART hasher is the sequence of the bytes it has been given.\<close>

record streaming_prover =
  sp_vm :: vm
  sp_chunk_size :: nat
  sp_global_step :: u64
  sp_chunk_index :: u64
  sp_memory_hasher :: incremental_memory_hash
  sp_uart_hasher :: "u8 list"

definition streaming_new :: "vm \<Rightarrow> nat \<Rightarrow> streaming_prover" where
  "streaming_new s chunk_size =
     \<lparr>sp_vm = s, sp_chunk_size = chunk_size, sp_global_step = 0, sp_chunk_index = 0,
      sp_memory_hasher = imh_new, sp_uart_hasher = []\<rparr>"

definition initialize_memory_hash :: "(u8 list \<Rightarrow> u8 list) \<Rightarrow> streaming_prover \<Rightarrow> streaming_prover" where
  "initialize_memory_hash sha3 p =
     (let (_, h) = imh_initialize sha3 (sp_memory_hasher p) (ram (sp_vm p))
      in p\<lparr>sp_memory_hasher := h, sp_vm := (sp_vm p)\<lparr>ram := clear_dirty (ram (sp_vm p))\<rparr>\<rparr>)"

definition current_uart_hash :: "(u8 list \<Rightarrow> u8 list) \<Rightarrow> streaming_prover \<Rightarrow> u8 list" where
  "current_uart_hash sha3 p = sha3 (sp_uart_hasher p)"

text \<open>The loop \<^verbatim>\<open>for _ in 0..chunk_size\<close> with \<open>k\<close> iterations left.\<close>

fun chunk_loop :: "nat \<Rightarrow> tracing_vm \<Rightarrow> u64 \<Rightarrow> ((vm_error + u64) \<times> tracing_vm) option" where
  "chunk_loop 0 tv steps = Some (Inr steps, tv)"
| "chunk_loop (Suc k) tv steps =
     (if halted (tv_vm tv) then Some (Inr steps, tv)
      else do {
        (r, tv') \<leftarrow> borrowed_step tv;
        case r of
          Inl e \<Rightarrow> Some (Inl e, tv')
        | Inr _ \<Rightarrow> chunk_loop k tv' (steps + 1)
      })"

text \<open>The hash of the boundary state: update the memory hasher, take the snapshot and hash it.\<close>

definition boundary_hash ::
  "(u8 list \<Rightarrow> u8 list) \<Rightarrow> streaming_prover \<Rightarrow> (u8 list \<times> streaming_prover) option" where
  "boundary_hash sha3 p = do {
     let (mem_hash, h, m) = imh_update sha3 (sp_memory_hasher p) (ram (sp_vm p));
     let p' = p\<lparr>sp_memory_hasher := h, sp_vm := (sp_vm p)\<lparr>ram := m\<rparr>\<rparr>;
     b \<leftarrow> snapshot_vm (sp_vm p') mem_hash (current_uart_hash sha3 p') (sp_global_step p');
     Some (hash_boundary_state sha3 b, p')
   }"

definition execute_chunk ::
  "(u8 list \<Rightarrow> u8 list) \<Rightarrow> streaming_prover \<Rightarrow> ((vm_error + execution_chunk) \<times> streaming_prover) option" where
  "execute_chunk sha3 p = do {
     (initial_state_hash, p) \<leftarrow> boundary_hash sha3 p;
     (r, tv) \<leftarrow> chunk_loop (sp_chunk_size p) \<lparr>tv_vm = sp_vm p, tv_trace = []\<rparr> 0;
     let p = p\<lparr>sp_vm := tv_vm tv\<rparr>;
     case r of
       Inl e \<Rightarrow> Some (Inl e, p)
     | Inr steps_executed \<Rightarrow> do {
         let columns = export_columns tv;
         let uart_bytes = u_output (uart (mmio (sp_vm p)));
         let p = p\<lparr>sp_vm := (sp_vm p)\<lparr>mmio := (mmio (sp_vm p))\<lparr>uart := (uart (mmio (sp_vm p)))\<lparr>u_output := []\<rparr>\<rparr>\<rparr>,
                   sp_uart_hasher := sp_uart_hasher p @ uart_bytes,
                   sp_global_step := sp_global_step p + steps_executed\<rparr>;
         (final_state_hash, p) \<leftarrow> boundary_hash sha3 p;
         Some (Inr \<lparr>ec_chunk_index = sp_chunk_index p, ec_columns = columns,
                 ec_initial_state_hash = initial_state_hash, ec_final_state_hash = final_state_hash,
                 ec_uart_bytes = uart_bytes, ec_num_steps = steps_executed\<rparr>,
               p\<lparr>sp_chunk_index := sp_chunk_index p + 1\<rparr>)
       }
   }"

definition is_halted :: "streaming_prover \<Rightarrow> bool" where
  "is_halted p = halted (sp_vm p)"

definition final_uart_hash :: "(u8 list \<Rightarrow> u8 list) \<Rightarrow> streaming_prover \<Rightarrow> u8 list" where
  "final_uart_hash sha3 p = current_uart_hash sha3 p"

section \<open>The memory hasher stays in step with the memory\<close>

definition hasher_synced :: "(u8 list \<Rightarrow> u8 list) \<Rightarrow> incremental_memory_hash \<Rightarrow> memory \<Rightarrow> bool" where
  "hasher_synced sha3 h m \<longleftrightarrow> (\<exists>m0. tracked m0 m \<and> page_hashes h = all_page_hashes sha3 m0)"

lemma hasher_synced_frame: "vm_frame s s' \<Longrightarrow> hasher_synced sha3 h (ram s) \<Longrightarrow> hasher_synced sha3 h (ram s')"
  by (auto simp: hasher_synced_def vm_frame_def)

text \<open>The hash of the complete state, with every page of the memory hashed afresh.\<close>

definition full_state_hash :: "(u8 list \<Rightarrow> u8 list) \<Rightarrow> vm \<Rightarrow> u8 list \<Rightarrow> u64 \<Rightarrow> u8 list option" where
  "full_state_hash sha3 s uart_bytes step_number =
     map_option (hash_boundary_state sha3)
       (snapshot_vm s (fst (imh_initialize sha3 imh_new (ram s))) (sha3 uart_bytes) step_number)"

lemma full_state_hash_clear_dirty [simp]:
  "full_state_hash sha3 (s\<lparr>ram := clear_dirty m\<rparr>) u n = full_state_hash sha3 (s\<lparr>ram := m\<rparr>) u n"
  by (simp add: full_state_hash_def imh_initialize_all snapshot_vm_def)

lemma full_state_hash_total: "\<exists>x. full_state_hash sha3 s u n = Some x"
  using snapshot_total [of s "fst (imh_initialize sha3 imh_new (ram s))" "sha3 u" n] by (auto simp: full_state_hash_def)

lemma boundary_hash_full:
  assumes "hasher_synced sha3 (sp_memory_hasher p) (ram (sp_vm p))"
  shows "\<exists>x p'. boundary_hash sha3 p = Some (x, p') \<and>
    full_state_hash sha3 (sp_vm p) (sp_uart_hasher p) (sp_global_step p) = Some x \<and>
    p' = p\<lparr>sp_memory_hasher := sp_memory_hasher p', sp_vm := (sp_vm p)\<lparr>ram := clear_dirty (ram (sp_vm p))\<rparr>\<rparr> \<and>
    hasher_synced sha3 (sp_memory_hasher p') (ram (sp_vm p'))"
proof -
  obtain m0 where m0: "tracked m0 (ram (sp_vm p))" "page_hashes (sp_memory_hasher p) = all_page_hashes sha3 m0"
    using assms by (auto simp: hasher_synced_def)
  let ?m = "ram (sp_vm p)"
  let ?h = "(sp_memory_hasher p)\<lparr>page_hashes := all_page_hashes sha3 ?m\<rparr>"
  let ?p = "p\<lparr>sp_memory_hasher := ?h, sp_vm := (sp_vm p)\<lparr>ram := clear_dirty ?m\<rparr>\<rparr>"
  obtain b where b: "snapshot_vm (sp_vm p) (combine_hashes sha3 (all_page_hashes sha3 ?m)) (sha3 (sp_uart_hasher p)) (sp_global_step p) = Some b"
    using snapshot_total [of "sp_vm p"] by blast
  then have "snapshot_vm ((sp_vm p)\<lparr>ram := clear_dirty ?m\<rparr>) (combine_hashes sha3 (all_page_hashes sha3 ?m)) (sha3 (sp_uart_hasher p)) (sp_global_step p) = Some b"
    by (simp add: snapshot_vm_def)
  then have "boundary_hash sha3 p = Some (hash_boundary_state sha3 b, ?p)"
    by (simp add: boundary_hash_def imh_update_tracked [OF m0] current_uart_hash_def)
  moreover have "full_state_hash sha3 (sp_vm p) (sp_uart_hasher p) (sp_global_step p) = Some (hash_boundary_state sha3 b)"
    using b by (simp add: full_state_hash_def imh_initialize_all)
  moreover have "hasher_synced sha3 ?h (clear_dirty ?m)"
    unfolding hasher_synced_def by (rule exI [of _ ?m]) simp
  ultimately show ?thesis by (intro exI [of _ "hash_boundary_state sha3 b"] exI [of _ ?p]) simp
qed

section \<open>Steps of a chunk\<close>

text \<open>
  Steps of the plain machine with the rows they leave: \<open>machine_steps n s rows s'\<close> says that \<open>n\<close> successful steps lead
  from \<open>s\<close> to \<open>s'\<close>; each step that executed an instruction leaves the row of that instruction, computed from the machine
  before and after it, and a step that only delivered a trap leaves none.
\<close>

inductive machine_steps :: "nat \<Rightarrow> vm \<Rightarrow> trace_row list \<Rightarrow> vm \<Rightarrow> bool" where
  ms_zero: "machine_steps 0 s [] s"
| ms_trap: "machine_steps n s rows s1 \<Longrightarrow> \<not> halted s1 \<Longrightarrow> step s1 = Some (Inr (), s2) \<Longrightarrow> last_fetched s2 = None \<Longrightarrow>
    machine_steps (Suc n) s rows s2"
| ms_row: "machine_steps n s rows s1 \<Longrightarrow> \<not> halted s1 \<Longrightarrow> step s1 = Some (Inr (), s2) \<Longrightarrow>
    last_fetched s2 = Some (i, len) \<Longrightarrow> s3 = s2\<lparr>last_fetched := None\<rparr> \<Longrightarrow>
    record_row (\<lambda>_ _ rs2_val. rs2_val) (of_nat (length rows)) s1 s3 i len = Some row \<Longrightarrow>
    machine_steps (Suc n) s (rows @ [row]) s3"

lemma borrowed_step_steps:
  assumes "borrowed_step tv = Some (Inr u, tv')" and "\<not> halted (tv_vm tv)"
    and "machine_steps n s (tv_trace tv) (tv_vm tv)"
  shows "machine_steps (Suc n) s (tv_trace tv') (tv_vm tv')"
proof -
  obtain s2 where st: "step (tv_vm tv) = Some (Inr (), s2)"
    using assms(1,2) by (auto simp: borrowed_step_def Let_def split: bind_splits sum.splits)
  show ?thesis
  proof (cases "last_fetched s2")
    case None
    then have "s2\<lparr>last_fetched := None\<rparr> = s2" by (cases s2) simp
    with None st assms show ?thesis
      by (auto simp: borrowed_step_def Let_def intro: ms_trap)
  next
    case (Some f)
    then obtain i len where f: "last_fetched s2 = Some (i, len)" by (cases f) simp
    obtain row where "record_row (\<lambda>_ _ rs2_val. rs2_val) (of_nat (length (tv_trace tv))) (tv_vm tv)
        (s2\<lparr>last_fetched := None\<rparr>) i len = Some row"
      "tv' = \<lparr>tv_vm = s2\<lparr>last_fetched := None\<rparr>, tv_trace = tv_trace tv @ [row]\<rparr>"
      using f st assms(1,2) by (auto simp: borrowed_step_def Let_def split: bind_splits)
    then show ?thesis using ms_row [OF assms(3,2) st f refl] by simp
  qed
qed

lemma borrowed_step_frame: "borrowed_step tv = Some (r, tv') \<Longrightarrow> vm_frame (tv_vm tv) (tv_vm tv')"
  using step_keeps
  by (auto simp: borrowed_step_def Let_def split: bind_splits sum.splits option.splits if_splits
      intro!: vm_frame_updates)

lemma chunk_loop_frame: "chunk_loop k tv n = Some (r, tv') \<Longrightarrow> vm_frame (tv_vm tv) (tv_vm tv')"
proof (induction k tv n rule: chunk_loop.induct)
  case (2 k tv steps)
  then show ?case
    by (fastforce split: if_splits bind_splits sum.splits dest: borrowed_step_frame intro: vm_frame_trans)
qed simp

lemma chunk_loop_steps:
  "chunk_loop k tv n = Some (Inr n', tv') \<Longrightarrow> machine_steps m s (tv_trace tv) (tv_vm tv) \<Longrightarrow>
    \<exists>j \<le> k. machine_steps (m + j) s (tv_trace tv') (tv_vm tv') \<and> n' = n + of_nat j \<and> (j = k \<or> halted (tv_vm tv'))"
proof (induction k arbitrary: tv n m)
  case (Suc k tv steps m)
  show ?case
  proof (cases "halted (tv_vm tv)")
    case True
    with Suc.prems show ?thesis by (intro exI [of _ 0]) simp
  next
    case False
    then obtain u tv1 where st: "borrowed_step tv = Some (Inr u, tv1)" and rest: "chunk_loop k tv1 (steps + 1) = Some (Inr n', tv')"
      using Suc.prems(1) by (auto split: bind_splits sum.splits)
    obtain j where "j \<le> k" "machine_steps (Suc m + j) s (tv_trace tv') (tv_vm tv')" "n' = steps + 1 + of_nat j"
      "j = k \<or> halted (tv_vm tv')"
      using Suc.IH [OF rest borrowed_step_steps [OF st False Suc.prems(2)]] by blast
    then show ?thesis by (intro exI [of _ "Suc j"]) auto
  qed
qed auto

section \<open>Chains of chunks\<close>

text \<open>The chunks that successive successful calls of \<open>execute_chunk\<close> produce.\<close>

inductive streams :: "(u8 list \<Rightarrow> u8 list) \<Rightarrow> streaming_prover \<Rightarrow> execution_chunk list \<Rightarrow> streaming_prover \<Rightarrow> bool"
  for sha3 where
  streams_none: "streams sha3 p [] p"
| streams_chunk: "execute_chunk sha3 p = Some (Inr c, p1) \<Longrightarrow> streams sha3 p1 cs p' \<Longrightarrow> streams sha3 p (c # cs) p'"

abbreviation prover_synced :: "(u8 list \<Rightarrow> u8 list) \<Rightarrow> streaming_prover \<Rightarrow> bool" where
  "prover_synced sha3 p \<equiv> hasher_synced sha3 (sp_memory_hasher p) (ram (sp_vm p))"

abbreviation prover_hash :: "(u8 list \<Rightarrow> u8 list) \<Rightarrow> streaming_prover \<Rightarrow> u8 list option" where
  "prover_hash sha3 p \<equiv> full_state_hash sha3 (sp_vm p) (sp_uart_hasher p) (sp_global_step p)"

text \<open>
  What happens to the machine at a chunk boundary: the dirty set of the memory is cleared and the UART output is drained.
\<close>

definition drained :: "vm \<Rightarrow> vm" where
  "drained s = s\<lparr>ram := clear_dirty (ram s), mmio := (mmio s)\<lparr>uart := (uart (mmio s))\<lparr>u_output := []\<rparr>\<rparr>\<rparr>"

text \<open>
  A chunk between two provers: its hashes are those of the complete states, the machine has made between the two states
  exactly the announced number of steps, and columns and UART bytes are the rows and the output of these steps.
\<close>

definition chunk_ok :: "(u8 list \<Rightarrow> u8 list) \<Rightarrow> streaming_prover \<Rightarrow> execution_chunk \<Rightarrow> streaming_prover \<Rightarrow> bool" where
  "chunk_ok sha3 p c p' \<longleftrightarrow>
     prover_hash sha3 p = Some (ec_initial_state_hash c) \<and> prover_hash sha3 p' = Some (ec_final_state_hash c) \<and>
     prover_synced sha3 p' \<and> sp_chunk_size p' = sp_chunk_size p \<and>
     sp_uart_hasher p' = sp_uart_hasher p @ ec_uart_bytes c \<and>
     sp_global_step p' = sp_global_step p + ec_num_steps c \<and>
     ec_chunk_index c = sp_chunk_index p \<and> sp_chunk_index p' = sp_chunk_index p + 1 \<and>
     (\<exists>j rows s. j \<le> sp_chunk_size p \<and> ec_num_steps c = of_nat j \<and>
        machine_steps j ((sp_vm p)\<lparr>ram := clear_dirty (ram (sp_vm p))\<rparr>) rows s \<and>
        (j = sp_chunk_size p \<or> halted s) \<and> sp_vm p' = drained s \<and>
        ec_columns c = export_trace_rows_to_columns rows \<and> ec_uart_bytes c = u_output (uart (mmio s)))"

lemma execute_chunk_ok:
  assumes sync: "prover_synced sha3 p" and ex: "execute_chunk sha3 p = Some (Inr c, p')"
  shows "chunk_ok sha3 p c p'"
proof -
  obtain x p1 where b1: "boundary_hash sha3 p = Some (x, p1)" "prover_hash sha3 p = Some x"
    and p1: "p1 = p\<lparr>sp_memory_hasher := sp_memory_hasher p1, sp_vm := (sp_vm p)\<lparr>ram := clear_dirty (ram (sp_vm p))\<rparr>\<rparr>"
    and sync1: "prover_synced sha3 p1"
    using boundary_hash_full [OF sync] by blast
  obtain n tv where loop: "chunk_loop (sp_chunk_size p1) \<lparr>tv_vm = sp_vm p1, tv_trace = []\<rparr> 0 = Some (Inr n, tv)"
    using ex b1(1) by (auto simp: execute_chunk_def Let_def split: bind_splits sum.splits)
  define s where "s = tv_vm tv"
  define out where "out = u_output (uart (mmio s))"
  define p2 where "p2 = p1\<lparr>sp_vm := s\<lparr>mmio := (mmio s)\<lparr>uart := (uart (mmio s))\<lparr>u_output := []\<rparr>\<rparr>\<rparr>,
      sp_uart_hasher := sp_uart_hasher p1 @ out, sp_global_step := sp_global_step p1 + n\<rparr>"
  have "vm_frame (sp_vm p1) s" using chunk_loop_frame [OF loop] by (simp add: s_def)
  then have "prover_synced sha3 p2"
    using hasher_synced_frame sync1 by (fastforce simp: p2_def)
  then obtain y p3 where b2: "boundary_hash sha3 p2 = Some (y, p3)" "prover_hash sha3 p2 = Some y"
    and p3: "p3 = p2\<lparr>sp_memory_hasher := sp_memory_hasher p3, sp_vm := (sp_vm p2)\<lparr>ram := clear_dirty (ram (sp_vm p2))\<rparr>\<rparr>"
    and sync3: "prover_synced sha3 p3"
    using boundary_hash_full by blast
  have p': "p' = p3\<lparr>sp_chunk_index := sp_chunk_index p3 + 1\<rparr>"
    and c: "c = \<lparr>ec_chunk_index = sp_chunk_index p3, ec_columns = export_columns tv, ec_initial_state_hash = x,
      ec_final_state_hash = y, ec_uart_bytes = out, ec_num_steps = n\<rparr>"
    using ex b1(1) loop b2(1) by (simp_all add: execute_chunk_def Let_def p2_def s_def out_def)
  have p3': "sp_vm p3 = (sp_vm p2)\<lparr>ram := clear_dirty (ram (sp_vm p2))\<rparr>" "sp_uart_hasher p3 = sp_uart_hasher p2"
    "sp_global_step p3 = sp_global_step p2" "sp_chunk_index p3 = sp_chunk_index p2" "sp_chunk_size p3 = sp_chunk_size p2"
    by (subst p3, simp)+
  have p1': "sp_vm p1 = (sp_vm p)\<lparr>ram := clear_dirty (ram (sp_vm p))\<rparr>" "sp_uart_hasher p1 = sp_uart_hasher p"
    "sp_global_step p1 = sp_global_step p" "sp_chunk_index p1 = sp_chunk_index p" "sp_chunk_size p1 = sp_chunk_size p"
    by (subst p1, simp)+
  obtain j where j: "j \<le> sp_chunk_size p1" "machine_steps j (sp_vm p1) (tv_trace tv) s" "n = of_nat j"
    "j = sp_chunk_size p1 \<or> halted s"
    using chunk_loop_steps [OF loop, of 0 "sp_vm p1"] ms_zero by (auto simp: s_def)
  have "prover_hash sha3 p' = Some y" using b2(2) by (simp add: p' p3')
  moreover have "\<exists>j rows t. j \<le> sp_chunk_size p \<and> ec_num_steps c = of_nat j \<and>
      machine_steps j ((sp_vm p)\<lparr>ram := clear_dirty (ram (sp_vm p))\<rparr>) rows t \<and>
      (j = sp_chunk_size p \<or> halted t) \<and> sp_vm p' = drained t \<and>
      ec_columns c = export_trace_rows_to_columns rows \<and> ec_uart_bytes c = u_output (uart (mmio t))"
    using j by (intro exI [of _ j] exI [of _ "tv_trace tv"] exI [of _ s])
      (auto simp: p1' p3' p' c p2_def drained_def out_def export_columns_def)
  ultimately show ?thesis
    unfolding chunk_ok_def using b1(2) sync3 by (simp add: p' c p3' p1' p2_def)
qed


lemma initialize_synced: "prover_synced sha3 (initialize_memory_hash sha3 (streaming_new s n))"
  unfolding hasher_synced_def
  by (rule exI [of _ "ram s"]) (simp add: initialize_memory_hash_def streaming_new_def imh_initialize_all)

lemma initialize_hash:
  "prover_hash sha3 (initialize_memory_hash sha3 (streaming_new s n)) = full_state_hash sha3 s [] 0"
  by (simp add: initialize_memory_hash_def streaming_new_def imh_initialize_all)

lemma chunk_ok_synced: "chunk_ok sha3 p c p' \<Longrightarrow> prover_synced sha3 p'"
  by (simp add: chunk_ok_def)

text \<open>A stream of chunks passes through a sequence of provers, one at each chunk boundary.\<close>

inductive chunk_chain :: "(u8 list \<Rightarrow> u8 list) \<Rightarrow> streaming_prover \<Rightarrow> execution_chunk list \<Rightarrow> streaming_prover \<Rightarrow> bool"
  for sha3 where
  chain_none: "chunk_chain sha3 p [] p"
| chain_chunk: "chunk_ok sha3 p c p1 \<Longrightarrow> chunk_chain sha3 p1 cs p' \<Longrightarrow> chunk_chain sha3 p (c # cs) p'"

lemma streams_chunk_chain: "streams sha3 p cs p' \<Longrightarrow> prover_synced sha3 p \<Longrightarrow> chunk_chain sha3 p cs p'"
proof (induction rule: streams.induct)
  case (streams_chunk p c p1 cs p')
  from execute_chunk_ok [OF streams_chunk.prems streams_chunk.hyps(1)] show ?case
    using streams_chunk.IH chunk_ok_synced by (blast intro: chain_chunk)
qed (rule chain_none)

lemma chunk_chain_hashes:
  "chunk_chain sha3 p cs p' \<Longrightarrow>
    successively (\<lambda>c d. ec_final_state_hash c = ec_initial_state_hash d) cs \<and>
    (cs \<noteq> [] \<longrightarrow> prover_hash sha3 p = Some (ec_initial_state_hash (hd cs)) \<and>
      prover_hash sha3 p' = Some (ec_final_state_hash (last cs)))"
proof (induction rule: chunk_chain.induct)
  case (chain_chunk p c p1 cs p')
  then show ?case by (cases cs) (auto simp: chunk_ok_def elim: chunk_chain.cases)
qed simp

lemma chunk_chain_counts:
  "chunk_chain sha3 p cs p' \<Longrightarrow>
    sp_uart_hasher p' = sp_uart_hasher p @ concat (map ec_uart_bytes cs) \<and>
    sp_global_step p' = sp_global_step p + sum_list (map ec_num_steps cs) \<and>
    map ec_chunk_index cs = map (\<lambda>i. sp_chunk_index p + of_nat i) [0..<length cs] \<and>
    sp_chunk_size p' = sp_chunk_size p"
proof (induction rule: chunk_chain.induct)
  case (chain_chunk p c p1 cs p')
  have "map (\<lambda>i. sp_chunk_index p + of_nat i) [0..<length (c # cs)] =
      sp_chunk_index p # map (\<lambda>i. sp_chunk_index p + 1 + of_nat i) [0..<length cs]"
    by (simp add: upt_conv_Cons map_Suc_upt [symmetric] add.assoc del: upt_Suc map_Suc_upt)
  then show ?case using chain_chunk by (simp add: chunk_ok_def add.assoc del: upt_Suc)
qed simp

text \<open>
  C24. The chunks of a streaming execution form a chain from the initial machine to the present one. Each chunk makes
  at most \<open>chunk_size\<close> steps of the machine, fewer only if the machine halted, starting in exactly the machine with
  which the chunk before it ended: between two chunks nothing of the machine changes except that the dirty
  set of the memory is cleared and the UART output is drained into the chunk. The columns of a chunk are exported
  from the rows of these steps. The first chunk starts with the hash of the complete initial state, every other
  chunk with the hash with which the one before it ended, and the last one ends with the hash of the complete
  present state: the incremental memory hash always equals the hash of all pages. The chunks are numbered from zero,
  and their UART bytes and step counts add up to those that the last hash covers.
\<close>

theorem streaming_chain:
  assumes "streams sha3 (initialize_memory_hash sha3 (streaming_new s chunk_size)) cs p'"
  shows "chunk_chain sha3 (initialize_memory_hash sha3 (streaming_new s chunk_size)) cs p' \<and>
    successively (\<lambda>c d. ec_final_state_hash c = ec_initial_state_hash d) cs \<and>
    (cs \<noteq> [] \<longrightarrow> full_state_hash sha3 s [] 0 = Some (ec_initial_state_hash (hd cs)) \<and>
      full_state_hash sha3 (sp_vm p') (concat (map ec_uart_bytes cs)) (sum_list (map ec_num_steps cs)) =
        Some (ec_final_state_hash (last cs))) \<and>
    map ec_chunk_index cs = map of_nat [0..<length cs]"
proof -
  let ?p = "initialize_memory_hash sha3 (streaming_new s chunk_size)"
  have chain: "chunk_chain sha3 ?p cs p'" using assms initialize_synced by (rule streams_chunk_chain)
  have zero: "sp_uart_hasher ?p = []" "sp_global_step ?p = 0" "sp_chunk_index ?p = 0"
    by (simp_all add: initialize_memory_hash_def streaming_new_def imh_initialize_all)
  have start: "full_state_hash sha3 (sp_vm ?p) [] 0 = full_state_hash sha3 s [] 0"
    using initialize_hash [of sha3 s chunk_size] by (simp only: zero)
  from chain chunk_chain_hashes [OF chain] chunk_chain_counts [OF chain] show ?thesis
    by (simp add: start zero)
qed

text \<open>A machine with \<open>JAL x0, 0\<close> at address zero, and a digest that forgets its input.\<close>

definition spinning_vm :: vm where
  "spinning_vm = vm_new cpu_new (store_word memory_new 0 0x6F)"

lemma spinning_chunk:
  "case execute_chunk (\<lambda>_. replicate 32 0) (initialize_memory_hash (\<lambda>_. replicate 32 0) (streaming_new spinning_vm 2)) of
     Some (Inr c, p') \<Rightarrow> ec_num_steps c = 2 \<and> num_steps (ec_columns c) = 2 | _ \<Rightarrow> False"
  by code_simp

theorem streaming_chain_witness:
  "\<exists>c p'. ec_num_steps c = 2 \<and>
    streams (\<lambda>_. replicate 32 0) (initialize_memory_hash (\<lambda>_. replicate 32 0) (streaming_new spinning_vm 2)) [c] p' \<and>
    full_state_hash (\<lambda>_. replicate 32 0) spinning_vm [] 0 = Some (ec_initial_state_hash c)"
proof -
  let ?h = "\<lambda>_ :: u8 list. replicate 32 (0 :: u8)"
  let ?p = "initialize_memory_hash ?h (streaming_new spinning_vm 2)"
  obtain c p' where ex: "execute_chunk ?h ?p = Some (Inr c, p')" and "ec_num_steps c = 2"
    using spinning_chunk by (auto split: option.splits prod.splits sum.splits)
  moreover have "streams ?h ?p [c] p'" using ex by (blast intro: streams.intros)
  ultimately show ?thesis using streaming_chain [of ?h spinning_vm 2 "[c]" p'] by fastforce
qed

end
