(* ===== verification/Zkp_Poly.thy ===== *)
theory Zkp_Poly
  imports Main
begin

text \<open>
  Coefficient-form polynomials: \<^verbatim>\<open>crates/zkp/src/poly_arith.rs\<close> and the evaluation and division of
  \<^verbatim>\<open>crates/zkp/src/scheme/bls12381_scheme.rs\<close>. The theory shows that Karatsuba multiplication computes
  the coefficients of the naive convolution, that evaluation is a homomorphism for all operations, and
  that a polynomial with more roots than coefficients is zero.

  A scalar is an element of an arbitrary commutative ring; the two curves of \<^verbatim>\<open>field.rs\<close> supply prime
  fields for it. \<open>poly_mul\<close> is the function for the curve BLS48-581, where no number-theoretic transform
  is used.
\<close>

section \<open>Operations\<close>

text \<open>A coefficient, zero beyond the end: \<^verbatim>\<open>if i < a.len() { a[i] } else { zero }\<close>.\<close>

definition coeff_at :: "'a::zero list \<Rightarrow> nat \<Rightarrow> 'a" where
  "coeff_at a i = (if i < length a then a ! i else 0)"

definition poly_add :: "'a::comm_ring_1 list \<Rightarrow> 'a list \<Rightarrow> 'a list" where
  "poly_add a b = map (\<lambda>i. coeff_at a i + coeff_at b i) [0..<max (length a) (length b)]"

definition poly_sub :: "'a::comm_ring_1 list \<Rightarrow> 'a list \<Rightarrow> 'a list" where
  "poly_sub a b = map (\<lambda>i. coeff_at a i - coeff_at b i) [0..<max (length a) (length b)]"

text \<open>\<^verbatim>\<open>result[k] = result[k].add(c)\<close>.\<close>

definition add_entry :: "nat \<Rightarrow> 'a::comm_ring_1 \<Rightarrow> 'a list \<Rightarrow> 'a list" where
  "add_entry k c r = r[k := r ! k + c]"

definition naive_mul :: "'a::comm_ring_1 list \<Rightarrow> 'a list \<Rightarrow> 'a list" where
  "naive_mul a b =
     fold (\<lambda>i. fold (\<lambda>j. add_entry (i + j) (a ! i * b ! j)) [0..<length b]) [0..<length a]
       (replicate (length a + length b - 1) 0)"

text \<open>
  \<open>subtract_from z1 z\<close>: the loops \<^verbatim>\<open>z1 -= z\<close>, which extend \<open>z1\<close> if \<open>z\<close> is longer. \<open>accumulate k z r\<close>: the loops
  that add \<open>z\<close> to the result from index \<open>k\<close> on; entries beyond the end are dropped.
\<close>

definition subtract_from :: "'a::comm_ring_1 list \<Rightarrow> 'a list \<Rightarrow> 'a list" where
  "subtract_from z1 z =
     fold (\<lambda>i r. if i < length r then r[i := r ! i - z ! i] else r @ [0 - z ! i]) [0..<length z] z1"

definition accumulate :: "nat \<Rightarrow> 'a::comm_ring_1 list \<Rightarrow> 'a list \<Rightarrow> 'a list" where
  "accumulate k z r = fold (\<lambda>i r. if i + k < length r then add_entry (i + k) (z ! i) r else r) [0..<length z] r"

abbreviation KARATSUBA_CUTOFF :: nat where
  "KARATSUBA_CUTOFF \<equiv> 32"

function karatsuba_mul :: "'a::comm_ring_1 list \<Rightarrow> 'a list \<Rightarrow> 'a list" where
  "karatsuba_mul a b =
     (let max_len = max (length a) (length b) in
      if max_len < KARATSUBA_CUTOFF \<or> length a = 1 \<or> length b = 1 then naive_mul a b
      else
        let k = (max_len + 1) div 2;
            a_lo = take k a; a_hi = drop k a;
            b_lo = take k b; b_hi = drop k b;
            z0 = karatsuba_mul a_lo b_lo;
            z2 = (if a_hi = [] \<or> b_hi = [] then [] else karatsuba_mul a_hi b_hi);
            a_sum = (if a_hi = [] then a_lo else poly_add a_lo a_hi);
            b_sum = (if b_hi = [] then b_lo else poly_add b_lo b_hi);
            z1 = subtract_from (subtract_from (karatsuba_mul a_sum b_sum) z0) z2
        in accumulate (2 * k) z2 (accumulate k z1 (accumulate 0 z0 (replicate (length a + length b - 1) 0))))"
  by auto

definition poly_mul :: "'a::comm_ring_1 list \<Rightarrow> 'a list \<Rightarrow> 'a list" where
  "poly_mul a b =
     (if a = [] \<or> b = [] then [0]
      else if KARATSUBA_CUTOFF \<le> max (length a) (length b) then karatsuba_mul a b
      else naive_mul a b)"

definition poly_scalar_mul :: "'a::comm_ring_1 list \<Rightarrow> 'a \<Rightarrow> 'a list" where
  "poly_scalar_mul a s = map (\<lambda>c. c * s) a"

definition poly_neg :: "'a::comm_ring_1 list \<Rightarrow> 'a list" where
  "poly_neg a = map (\<lambda>c. 0 - c) a"

text \<open>The loop of \<open>poly_shift\<close>, with the power of \<open>omega\<close> reached.\<close>

fun poly_shift_from :: "'a::comm_ring_1 \<Rightarrow> 'a \<Rightarrow> 'a list \<Rightarrow> 'a list" where
  "poly_shift_from omega omega_power [] = []"
| "poly_shift_from omega omega_power (c # cs) = c * omega_power # poly_shift_from omega (omega_power * omega) cs"

definition poly_shift :: "'a::comm_ring_1 list \<Rightarrow> 'a \<Rightarrow> 'a list" where
  "poly_shift coeffs omega = poly_shift_from omega 1 coeffs"

definition poly_mul_linear :: "'a::comm_ring_1 list \<Rightarrow> 'a \<Rightarrow> 'a list" where
  "poly_mul_linear coeffs c =
     (if coeffs = [] then [0]
      else fold (\<lambda>i r. add_entry (i + 1) (coeffs ! i) (add_entry i (coeffs ! i * (0 - c)) r))
             [0..<length coeffs] (replicate (length coeffs + 1) 0))"

text \<open>\<^verbatim>\<open>eval_poly_at\<close>: Horner's method from the highest coefficient down.\<close>

definition eval_poly_at :: "'a::comm_ring_1 list \<Rightarrow> 'a \<Rightarrow> 'a" where
  "eval_poly_at coeffs z = foldr (\<lambda>c result. result * z + c) coeffs 0"

text \<open>
  \<^verbatim>\<open>div_by_linear\<close>: synthetic division by \<open>x - z\<close>. The quotient is filled from its last entry down; the
  recursion returns the entries from an index on.
\<close>

fun synthetic :: "'a::comm_ring_1 \<Rightarrow> 'a list \<Rightarrow> 'a list" where
  "synthetic z [] = []"
| "synthetic z [c] = [c]"
| "synthetic z (c # cs) = (let q = synthetic z cs in (c + z * hd q) # q)"

definition div_by_linear :: "'a::comm_ring_1 list \<Rightarrow> 'a \<Rightarrow> 'a list" where
  "div_by_linear coeffs z = (if length coeffs \<le> 1 then [] else synthetic z (tl coeffs))"

section \<open>Lengths and coefficients\<close>

lemma length_add_entry [simp]: "length (add_entry k c r) = length r"
  by (simp add: add_entry_def)

lemma nth_add_entry: "n < length r \<Longrightarrow> add_entry k c r ! n = r ! n + (if n = k then c else 0)"
  by (simp add: add_entry_def nth_list_update)

lemma length_poly_add [simp]: "length (poly_add a b) = max (length a) (length b)"
  by (simp add: poly_add_def)

lemma length_poly_sub [simp]: "length (poly_sub a b) = max (length a) (length b)"
  by (simp add: poly_sub_def)

lemma coeff_at_Nil [simp]: "coeff_at [] n = 0"
  by (simp add: coeff_at_def)

lemma coeff_at_beyond: "length a \<le> n \<Longrightarrow> coeff_at a n = 0"
  by (simp add: coeff_at_def)

lemma coeff_poly_add [simp]: "coeff_at (poly_add a b) n = coeff_at a n + coeff_at b n"
  by (auto simp: coeff_at_def poly_add_def)

lemma coeff_poly_sub [simp]: "coeff_at (poly_sub a b) n = coeff_at a n - coeff_at b n"
  by (auto simp: coeff_at_def poly_sub_def)

lemma list_eq_coeffI: "length a = length b \<Longrightarrow> (\<And>n. coeff_at a n = coeff_at b n) \<Longrightarrow> a = b"
  by (metis coeff_at_def nth_equalityI)

lemma length_fold_add_entry:
  assumes "\<And>i r. length (f i r) = length r"
  shows "length (fold f xs r) = length r"
  using assms by (induction xs arbitrary: r) auto

text \<open>The convolution of two coefficient functions.\<close>

definition conv :: "(nat \<Rightarrow> 'a::comm_ring_1) \<Rightarrow> (nat \<Rightarrow> 'a) \<Rightarrow> nat \<Rightarrow> 'a" where
  "conv f g n = (\<Sum>i\<le>n. f i * g (n - i))"

lemma conv_add:
  "conv (\<lambda>n. f n + f' n) g = (\<lambda>n. conv f g n + conv f' g n)" "conv f (\<lambda>n. g n + g' n) = (\<lambda>n. conv f g n + conv f g' n)"
  by (simp_all add: conv_def algebra_simps sum.distrib fun_eq_iff)

definition shifted :: "nat \<Rightarrow> (nat \<Rightarrow> 'a::comm_ring_1) \<Rightarrow> nat \<Rightarrow> 'a" where
  "shifted k f n = (if k \<le> n then f (n - k) else 0)"

lemma conv_commute: "conv f g = conv g f"
proof
  fix n
  have "(\<Sum>i\<le>n. f i * g (n - i)) = (\<Sum>i\<le>n. f (n - i) * g (n - (n - i)))"
    by (rule sum.reindex_bij_witness [of _ "\<lambda>i. n - i" "\<lambda>i. n - i"]) auto
  then show "conv f g n = conv g f n" by (simp add: conv_def mult.commute)
qed

lemma conv_shifted: "conv (shifted k f) g = shifted k (conv f g)"
proof
  fix n
  show "conv (shifted k f) g n = shifted k (conv f g) n"
  proof (cases "k \<le> n")
    case True
    have "conv (shifted k f) g n = (\<Sum>i\<in>{k..n}. f (i - k) * g (n - i))"
      unfolding conv_def shifted_def by (rule sum.mono_neutral_cong_right) auto
    also have "\<dots> = (\<Sum>i\<le>n - k. f i * g (n - k - i))"
      by (rule sum.reindex_bij_witness [of _ "\<lambda>i. i + k" "\<lambda>i. i - k"]) (use True in auto)
    finally show ?thesis using True by (simp add: shifted_def conv_def)
  next
    case False
    then show ?thesis by (simp add: conv_def shifted_def)
  qed
qed

lemma conv_shifted_right: "conv f (shifted k g) = shifted k (conv f g)"
  using conv_shifted [of k g f] by (simp add: conv_commute)

lemma shifted_shifted: "shifted k (shifted l f) = shifted (k + l) f"
  by (rule ext) (auto simp: shifted_def add.commute diff_diff_left)

lemma shifted_add: "shifted k (\<lambda>n. f n + g n) n = shifted k f n + shifted k g n"
  by (simp add: shifted_def)

section \<open>Multiplication\<close>

lemma length_naive_mul [simp]: "length (naive_mul a b) = length a + length b - 1"
  by (simp add: naive_mul_def length_fold_add_entry)

lemma nth_naive_row:
  "n < length r \<Longrightarrow>
    fold (\<lambda>j. add_entry (i + j) (c * b ! j)) [0..<m] r ! n = r ! n + (if i \<le> n \<and> n < i + m then c * b ! (n - i) else 0)"
proof (induction m)
  case (Suc m)
  then show ?case by (auto simp: nth_add_entry length_fold_add_entry)
qed auto

lemma nth_naive_fold:
  assumes "n < length r"
  shows "fold (\<lambda>i. fold (\<lambda>j. add_entry (i + j) (a ! i * b ! j)) [0..<length b]) [0..<m] r ! n =
    r ! n + (\<Sum>i<m. if i \<le> n then a ! i * coeff_at b (n - i) else 0)"
proof (induction m)
  case (Suc m)
  have "n < length (fold (\<lambda>i. fold (\<lambda>j. add_entry (i + j) (a ! i * b ! j)) [0..<length b]) [0..<m] r)"
    using assms by (simp add: length_fold_add_entry)
  then show ?case using Suc by (auto simp: nth_naive_row coeff_at_def)
qed simp

lemma coeff_naive_mul:
  assumes "a \<noteq> []" and "b \<noteq> []"
  shows "coeff_at (naive_mul a b) = conv (coeff_at a) (coeff_at b)"
proof
  fix n
  show "coeff_at (naive_mul a b) n = conv (coeff_at a) (coeff_at b) n"
  proof (cases "n < length a + length b - 1")
    case True
    have "naive_mul a b ! n = (\<Sum>i<length a. if i \<le> n then a ! i * coeff_at b (n - i) else 0)"
      using nth_naive_fold [of n "replicate (length a + length b - 1) 0" a b "length a"] True
      by (simp add: naive_mul_def)
    also have "\<dots> = (\<Sum>i\<in>{..<length a} \<inter> {..n}. a ! i * coeff_at b (n - i))"
      by (simp add: sum.inter_restrict)
    also have "\<dots> = (\<Sum>i\<le>n. coeff_at a i * coeff_at b (n - i))"
      by (rule sum.mono_neutral_cong_left) (auto simp: coeff_at_def)
    finally show ?thesis using True by (simp add: coeff_at_def conv_def)
  next
    case False
    then have "coeff_at a i * coeff_at b (n - i) = 0" if "i \<le> n" for i
      using that assms by (cases "i < length a") (auto simp: coeff_at_def)
    then show ?thesis using False by (simp add: conv_def coeff_at_beyond)
  qed
qed

lemma length_subtract_from: "length (subtract_from z1 z) = max (length z1) (length z)"
  and coeff_subtract_from: "coeff_at (subtract_from z1 z) n = coeff_at z1 n - coeff_at z n"
proof -
  have "length (fold (\<lambda>i r. if i < length r then r[i := r ! i - z ! i] else r @ [0 - z ! i]) [0..<m] z1) = max (length z1) m \<and>
    (\<forall>n. coeff_at (fold (\<lambda>i r. if i < length r then r[i := r ! i - z ! i] else r @ [0 - z ! i]) [0..<m] z1) n =
       coeff_at z1 n - (if n < m then coeff_at z n else 0))" if "m \<le> length z" for m
    using that
  proof (induction m)
    case (Suc m)
    let ?r = "fold (\<lambda>i r. if i < length r then r[i := r ! i - z ! i] else r @ [0 - z ! i]) [0..<m] z1"
    have len: "length ?r = max (length z1) m"
      and co: "coeff_at ?r n = coeff_at z1 n - (if n < m then coeff_at z n else 0)" for n
      using Suc by auto
    have up: "coeff_at (?r[m := ?r ! m - z ! m]) n = coeff_at ?r n - (if n = m then z ! m else 0)" if "m < length ?r" for n
      using that by (auto simp: coeff_at_def nth_list_update)
    have app: "coeff_at (?r @ [0 - z ! m]) n = coeff_at ?r n - (if n = m then z ! m else 0)" if "length ?r = m" for n
      using that by (auto simp: coeff_at_def nth_append)
    show ?case
    proof (cases "m < length ?r")
      case True
      then show ?thesis using up [OF True] len co Suc.prems by (auto simp: coeff_at_def [of z])
    next
      case False
      then have "length ?r = m" using len by simp
      then show ?thesis using app len co Suc.prems by (auto simp: coeff_at_def [of z])
    qed
  qed simp
  from this [of "length z"] show "length (subtract_from z1 z) = max (length z1) (length z)"
    "coeff_at (subtract_from z1 z) n = coeff_at z1 n - coeff_at z n"
    by (auto simp: subtract_from_def coeff_at_beyond)
qed

lemma length_accumulate [simp]: "length (accumulate k z r) = length r"
  by (simp add: accumulate_def length_fold_add_entry)

lemma nth_accumulate:
  assumes "n < length r"
  shows "accumulate k z r ! n = r ! n + shifted k (coeff_at z) n"
proof -
  have "n < length r \<Longrightarrow> fold (\<lambda>i r. if i + k < length r then add_entry (i + k) (z ! i) r else r) [0..<m] r ! n =
      r ! n + (if k \<le> n \<and> n - k < m then z ! (n - k) else 0)" for m
    by (induction m) (auto simp: nth_add_entry length_fold_add_entry)
  then show ?thesis using assms by (simp add: accumulate_def shifted_def coeff_at_def)
qed

lemma karatsuba_halves:
  fixes a b :: "'a::comm_ring_1 list"
  assumes "\<not> (max_len < KARATSUBA_CUTOFF \<or> P)" and "max_len = max (length a) (length b)" and "k = (max_len + 1) div 2"
  shows "max (length (take k a)) (length (take k b)) < max (length a) (length b)"
    "max (length (drop k a)) (length (drop k b)) < max (length a) (length b)"
    "max (length (if drop k a = [] then take k a else poly_add (take k a) (drop k a)))
       (length (if drop k b = [] then take k b else poly_add (take k b) (drop k b))) < max (length a) (length b)"
proof -
  have k: "k < max_len" "length a \<le> 2 * k" "length b \<le> 2 * k" "0 < k" using assms by auto
  then have "length (take k a) \<le> k" "length (take k b) \<le> k" "length (drop k a) \<le> k" "length (drop k b) \<le> k" by auto
  with k assms(2) show "max (length (take k a)) (length (take k b)) < max (length a) (length b)"
    "max (length (drop k a)) (length (drop k b)) < max (length a) (length b)"
    "max (length (if drop k a = [] then take k a else poly_add (take k a) (drop k a)))
       (length (if drop k b = [] then take k b else poly_add (take k b) (drop k b))) < max (length a) (length b)"
    by (simp_all del: length_take length_drop) (auto simp: less_max_iff_disj)
qed

termination karatsuba_mul
  by (relation "measure (\<lambda>(a, b). max (length a) (length b))") (simp_all only: wf_measure in_measure case_prod_conv karatsuba_halves)

text \<open>A list splits into its low part and its shifted high part.\<close>

lemma coeff_split: "coeff_at a = (\<lambda>n. coeff_at (take k a) n + shifted k (coeff_at (drop k a)) n)"
  by (rule ext) (auto simp: coeff_at_def shifted_def)

lemma karatsuba_identity:
  fixes f :: "nat \<Rightarrow> 'a::comm_ring_1"
  shows "conv (\<lambda>n. f n + shifted k f' n) (\<lambda>n. g n + shifted k g' n) n =
    conv f g n + shifted k (\<lambda>n. conv (\<lambda>n. f n + f' n) (\<lambda>n. g n + g' n) n - conv f g n - conv f' g' n) n +
    shifted (2 * k) (conv f' g') n"
proof -
  have "conv (\<lambda>n. f n + shifted k f' n) (\<lambda>n. g n + shifted k g' n) n =
      conv f g n + shifted k (conv f' g) n + (shifted k (conv f g') n + shifted (k + k) (conv f' g') n)"
    by (simp add: conv_add conv_shifted conv_shifted_right shifted_shifted shifted_add)
  also have "\<dots> = conv f g n + shifted k (\<lambda>n. conv f' g n + conv f g' n) n + shifted (2 * k) (conv f' g') n"
    by (simp add: shifted_add mult_2)
  also have "(\<lambda>n. conv f' g n + conv f g' n) =
      (\<lambda>n. conv (\<lambda>n. f n + f' n) (\<lambda>n. g n + g' n) n - conv f g n - conv f' g' n)"
    by (simp add: conv_add fun_eq_iff)
  finally show ?thesis .
qed

declare karatsuba_mul.simps [simp del]

lemma karatsuba_correct:
  "a \<noteq> [] \<Longrightarrow> b \<noteq> [] \<Longrightarrow>
    length (karatsuba_mul a b) = length a + length b - 1 \<and> coeff_at (karatsuba_mul a b) = conv (coeff_at a) (coeff_at b)"
proof (induction a b rule: karatsuba_mul.induct)
  case (1 a b)
  define k where "k = (max (length a) (length b) + 1) div 2"
  show ?case
  proof (cases "max (length a) (length b) < KARATSUBA_CUTOFF \<or> length a = 1 \<or> length b = 1")
    case True
    then show ?thesis using 1 by (simp add: karatsuba_mul.simps [of a b] coeff_naive_mul)
  next
    case big: False
    then have k: "0 < k" "k < max (length a) (length b)" by (auto simp: k_def)
    let ?al = "take k a" and ?ah = "drop k a" and ?bl = "take k b" and ?bh = "drop k b"
    define a_sum where "a_sum = (if ?ah = [] then ?al else poly_add ?al ?ah)"
    define b_sum where "b_sum = (if ?bh = [] then ?bl else poly_add ?bl ?bh)"
    define z0 where "z0 = karatsuba_mul ?al ?bl"
    define z2 where "z2 = (if ?ah = [] \<or> ?bh = [] then [] else karatsuba_mul ?ah ?bh)"
    define zs where "zs = karatsuba_mul a_sum b_sum"
    have ne: "?al \<noteq> []" "?bl \<noteq> []" "a_sum \<noteq> []" "b_sum \<noteq> []"
      using 1(4,5) k(1) by (auto simp: a_sum_def b_sum_def poly_add_def)
    have sums: "coeff_at a_sum = (\<lambda>n. coeff_at ?al n + coeff_at ?ah n)" "coeff_at b_sum = (\<lambda>n. coeff_at ?bl n + coeff_at ?bh n)"
      by (auto simp: a_sum_def b_sum_def)
    have c0: "coeff_at z0 = conv (coeff_at ?al) (coeff_at ?bl)"
      using 1(1) [OF refl big k_def refl refl refl refl] ne by (simp add: z0_def)
    have c2: "coeff_at z2 = conv (coeff_at ?ah) (coeff_at ?bh)"
    proof (cases "?ah = [] \<or> ?bh = []")
      case True
      then show ?thesis by (auto simp: z2_def conv_def)
    next
      case False
      then show ?thesis using 1(2) [OF refl big k_def refl refl refl refl refl] by (simp add: z2_def)
    qed
    have cs: "coeff_at zs = conv (coeff_at a_sum) (coeff_at b_sum)"
      using 1(3) [OF refl big k_def refl refl refl refl refl refl a_sum_def b_sum_def] ne by (simp add: zs_def)
    define z1 where "z1 = subtract_from (subtract_from zs z0) z2"
    define len where "len = length a + length b - 1"
    have eq: "karatsuba_mul a b = accumulate (2 * k) z2 (accumulate k z1 (accumulate 0 z0 (replicate len 0)))"
      using big unfolding karatsuba_mul.simps [of a b] len_def z1_def zs_def z2_def z0_def a_sum_def b_sum_def k_def
      by (simp only: Let_def if_False)
    have nth: "coeff_at (karatsuba_mul a b) n = conv (coeff_at a) (coeff_at b) n" if "n < len" for n
    proof -
      have "coeff_at (karatsuba_mul a b) n = coeff_at z0 n + shifted k (coeff_at z1) n + shifted (2 * k) (coeff_at z2) n"
        using that by (simp add: eq nth_accumulate coeff_at_def [of "accumulate _ _ _"] shifted_def [of 0])
      also have "coeff_at z1 = (\<lambda>n. conv (coeff_at a_sum) (coeff_at b_sum) n - conv (coeff_at ?al) (coeff_at ?bl) n - conv (coeff_at ?ah) (coeff_at ?bh) n)"
        by (rule ext) (simp add: z1_def coeff_subtract_from cs c0 c2)
      finally show ?thesis
        unfolding c0 c2 sums coeff_split [of a k] coeff_split [of b k] karatsuba_identity .
    qed
    have "coeff_at (karatsuba_mul a b) n = conv (coeff_at a) (coeff_at b) n" for n
    proof (cases "n < len")
      case False
      then show ?thesis
        using coeff_naive_mul [OF 1(4,5)] by (simp add: eq len_def coeff_at_beyond flip: coeff_naive_mul [OF 1(4,5)])
    qed (rule nth)
    then show ?thesis by (simp add: eq len_def fun_eq_iff)
  qed
qed

text \<open>
  Karatsuba multiplication is an optimisation only: for non-empty operands it returns exactly the
  list of coefficients of the naive convolution, whatever the lengths, and so does \<open>poly_mul\<close> on every
  path; the recursion ends.
\<close>

theorem karatsuba_mul_naive:
  "(a \<noteq> [] \<and> b \<noteq> [] \<longrightarrow> karatsuba_mul a b = naive_mul a b \<and> poly_mul a b = naive_mul a b) \<and>
   (\<forall>n. coeff_at (poly_mul a b) n = (\<Sum>i\<le>n. coeff_at a i * coeff_at b (n - i)))"
proof (cases "a = [] \<or> b = []")
  case True
  then show ?thesis by (auto simp: poly_mul_def coeff_at_def)
next
  case False
  then have k: "karatsuba_mul a b = naive_mul a b"
    using karatsuba_correct [of a b] by (intro list_eq_coeffI) (simp_all add: coeff_naive_mul)
  then have "poly_mul a b = naive_mul a b" using False by (simp add: poly_mul_def)
  with k False show ?thesis by (simp add: coeff_naive_mul conv_def)
qed

theorem karatsuba_mul_naive_witness:
  "karatsuba_mul (replicate 40 (2 :: int)) (replicate 3 5) = naive_mul (replicate 40 2) (replicate 3 5)"
  using karatsuba_mul_naive [of "replicate 40 (2 :: int)" "replicate 3 5"] by simp

section \<open>Evaluation\<close>

lemma eval_Nil [simp]: "eval_poly_at [] z = 0"
  and eval_Cons: "eval_poly_at (c # cs) z = c + z * eval_poly_at cs z"
  by (simp_all add: eval_poly_at_def algebra_simps)

lemma eval_const [simp]: "eval_poly_at [c] z = c"
  by (simp add: eval_Cons)

lemma coeff_at_Cons: "coeff_at (c # cs) n = (case n of 0 \<Rightarrow> c | Suc m \<Rightarrow> coeff_at cs m)"
  by (simp add: coeff_at_def split: nat.split)

lemma eval_sum: "length a \<le> n \<Longrightarrow> eval_poly_at a z = (\<Sum>i<n. coeff_at a i * z ^ i)"
proof (induction a arbitrary: n)
  case (Cons c a)
  then obtain m where m: "n = Suc m" "length a \<le> m" by (cases n) auto
  then show ?case
    using Cons.IH by (simp add: eval_Cons sum.lessThan_Suc_shift coeff_at_Cons sum_distrib_left algebra_simps del: sum.lessThan_Suc)
qed simp

lemma eval_poly_add [simp]: "eval_poly_at (poly_add a b) z = eval_poly_at a z + eval_poly_at b z"
  using eval_sum [of a "max (length a) (length b)" z] eval_sum [of b "max (length a) (length b)" z]
    eval_sum [of "poly_add a b" "max (length a) (length b)" z]
  by (simp add: sum.distrib algebra_simps)

lemma eval_poly_sub [simp]: "eval_poly_at (poly_sub a b) z = eval_poly_at a z - eval_poly_at b z"
  using eval_sum [of a "max (length a) (length b)" z] eval_sum [of b "max (length a) (length b)" z]
    eval_sum [of "poly_sub a b" "max (length a) (length b)" z]
  by (simp add: sum_subtractf algebra_simps)

lemma eval_poly_scalar_mul [simp]: "eval_poly_at (poly_scalar_mul a s) z = eval_poly_at a z * s"
  by (induction a) (simp_all add: poly_scalar_mul_def eval_Cons algebra_simps)

lemma eval_poly_neg [simp]: "eval_poly_at (poly_neg a) z = - eval_poly_at a z"
  by (induction a) (simp_all add: poly_neg_def eval_Cons)

lemma eval_poly_mul [simp]: "eval_poly_at (poly_mul a b) z = eval_poly_at a z * eval_poly_at b z" for z :: "'a::idom"
proof (cases "a = [] \<or> b = []")
  case True
  then show ?thesis by (auto simp: poly_mul_def)
next
  case False
  have co: "coeff_at (poly_mul a b) = conv (coeff_at a) (coeff_at b)"
    using karatsuba_correct [of a b] coeff_naive_mul [of a b] False by (simp add: poly_mul_def)
  have len: "length (poly_mul a b) = length a + length b - 1"
    using karatsuba_correct [of a b] False by (simp add: poly_mul_def)
  obtain m n where mn: "length a = Suc m" "length b = Suc n" using False by (cases a; cases b) auto
  have "eval_poly_at a z * eval_poly_at b z = (\<Sum>r\<le>m + n. conv (coeff_at a) (coeff_at b) r * z ^ r)"
    using polynomial_product [of m "coeff_at a" n "coeff_at b" z] eval_sum [of a "Suc m" z] eval_sum [of b "Suc n" z] mn
    by (simp add: coeff_at_beyond conv_def lessThan_Suc_atMost)
  also have "\<dots> = eval_poly_at (poly_mul a b) z"
    using eval_sum [of "poly_mul a b" "Suc (m + n)" z] len mn by (simp add: co lessThan_Suc_atMost)
  finally show ?thesis by simp
qed

lemma eval_poly_shift [simp]: "eval_poly_at (poly_shift p w) z = eval_poly_at p (w * z)"
proof -
  have "eval_poly_at (poly_shift_from w v p) z = v * eval_poly_at p (w * z)" for v
    by (induction p arbitrary: v) (simp_all add: eval_Cons algebra_simps)
  then show ?thesis by (simp add: poly_shift_def)
qed

lemma coeff_mul_linear:
  assumes "p \<noteq> []"
  shows "coeff_at (poly_mul_linear p c) n = shifted 1 (coeff_at p) n - c * coeff_at p n"
    and "length (poly_mul_linear p c) = Suc (length p)"
proof -
  define F where "F i r = add_entry (i + 1) (p ! i) (add_entry i (p ! i * (0 - c)) r)" for i r
  have len: "length (fold F [0..<m] r) = length r" for m r
    by (simp add: F_def length_fold_add_entry)
  have "fold F [0..<m] r ! n = r ! n + (if 0 < n \<and> n \<le> m then p ! (n - 1) else 0) - (if n < m then c * p ! n else 0)"
    if "n < length r" for m r
  proof (induction m)
    case (Suc m)
    have "F m v ! n = v ! n + (if n = Suc m then p ! m else 0) - (if n = m then c * p ! m else 0)" if "length v = length r" for v
      using that \<open>n < length r\<close> by (simp add: F_def nth_add_entry)
    then show ?case using Suc len by (auto simp: less_Suc_eq le_Suc_eq)
  qed auto
  note nth = this [of "replicate (Suc (length p)) 0" "length p"]
  have eq: "poly_mul_linear p c = fold F [0..<length p] (replicate (Suc (length p)) 0)"
    using assms by (simp add: poly_mul_linear_def F_def [abs_def])
  show "length (poly_mul_linear p c) = Suc (length p)" by (simp only: eq len length_replicate)
  then show "coeff_at (poly_mul_linear p c) n = shifted 1 (coeff_at p) n - c * coeff_at p n"
    using nth by (auto simp: eq coeff_at_def shifted_def simp del: replicate_Suc)
qed

lemma eval_poly_mul_linear [simp]: "eval_poly_at (poly_mul_linear p c) z = eval_poly_at p z * (z - c)"
proof (cases "p = []")
  case False
  have "(\<Sum>i<Suc (length p). coeff_at p i * z ^ i) = eval_poly_at p z" using eval_sum [of p "Suc (length p)" z] by simp
  moreover have "(\<Sum>i<Suc (length p). shifted 1 (coeff_at p) i * z ^ i) = z * (\<Sum>i<length p. coeff_at p i * z ^ i)"
    by (simp add: sum.lessThan_Suc_shift shifted_def sum_distrib_left algebra_simps del: sum.lessThan_Suc)
  ultimately show ?thesis
    using eval_sum [of "poly_mul_linear p c" "Suc (length p)" z] eval_sum [of p "length p" z] False
    by (simp add: coeff_mul_linear left_diff_distrib sum_subtractf mult.assoc sum_distrib_left [symmetric] algebra_simps del: sum.lessThan_Suc)
qed (simp add: poly_mul_linear_def)

lemma synthetic_eval: "cs \<noteq> [] \<Longrightarrow> hd (synthetic z cs) = eval_poly_at cs z \<and> length (synthetic z cs) = length cs"
  by (induction z cs rule: synthetic.induct) (auto simp: Let_def eval_Cons)

lemma synthetic_divides:
  "cs \<noteq> [] \<Longrightarrow> x * eval_poly_at cs x = (x - z) * eval_poly_at (synthetic z cs) x + z * eval_poly_at cs z"
proof (induction z cs rule: synthetic.induct)
  case (3 z d e cs)
  define E S E' where "E = eval_poly_at (e # cs) x" and "S = eval_poly_at (synthetic z (e # cs)) x"
    and "E' = eval_poly_at (e # cs) z"
  have ih: "x * E = (x - z) * S + z * E'" using 3 by (simp add: E_def S_def E'_def)
  have "hd (synthetic z (e # cs)) = E'" using synthetic_eval [of "e # cs"] by (simp add: E'_def)
  then have "eval_poly_at (synthetic z (d # e # cs)) x = d + z * E' + x * S"
    by (simp add: Let_def eval_Cons S_def)
  then have "(x - z) * eval_poly_at (synthetic z (d # e # cs)) x + z * eval_poly_at (d # e # cs) z =
      x * d + x * ((x - z) * S + z * E')"
    by (simp add: eval_Cons [of d] E'_def [symmetric] algebra_simps)
  moreover have "x * eval_poly_at (d # e # cs) x = x * d + x * (x * E)"
    by (simp only: eval_Cons [of d] E_def distrib_left)
  ultimately show ?case by (simp only: ih)
qed (simp_all add: algebra_simps)

lemma div_by_linear_eval: "eval_poly_at p x = (x - z) * eval_poly_at (div_by_linear p z) x + eval_poly_at p z"
proof (cases p)
  case (Cons c cs)
  then show ?thesis
    using synthetic_divides [of cs x z] by (cases cs) (auto simp: div_by_linear_def eval_Cons [of c])
qed (simp add: div_by_linear_def)

lemma length_div_by_linear: "length (div_by_linear p z) = length p - 1"
  using synthetic_eval [of "tl p" z] by (cases p) (auto simp: div_by_linear_def)

section \<open>Roots\<close>

lemma last_synthetic: "cs \<noteq> [] \<Longrightarrow> last (synthetic z cs) = last cs \<and> synthetic z cs \<noteq> []"
  by (induction z cs rule: synthetic.induct) (auto simp: Let_def)

lemma eval_zero: "set p \<subseteq> {0} \<Longrightarrow> eval_poly_at p z = 0"
  by (induction p) (auto simp: eval_Cons)

text \<open>A polynomial whose last coefficient is not zero has fewer roots than coefficients.\<close>

lemma root_bound:
  fixes p :: "'a::idom list"
  assumes "p \<noteq> []" and "last p \<noteq> 0" and "finite S" and "\<And>z. z \<in> S \<Longrightarrow> eval_poly_at p z = 0"
  shows "card S < length p"
  using assms
proof (induction "length p" arbitrary: p S)
  case (Suc n p S)
  show ?case
  proof (cases "S = {}")
    case False
    then obtain z where z: "z \<in> S" by blast
    then have root: "eval_poly_at p z = 0" using Suc.prems by blast
    have n: "0 < n"
    proof (rule ccontr)
      assume "\<not> 0 < n"
      then obtain c where "p = [c]" using Suc.hyps(2) by (cases p) auto
      with root Suc.prems(2) show False by simp
    qed
    define q where "q = div_by_linear p z"
    have tl: "tl p \<noteq> []" using Suc.hyps(2) n by (cases p) auto
    have "q = synthetic z (tl p)" using Suc.hyps(2) n by (simp add: q_def div_by_linear_def)
    then have q: "length q = n" "q \<noteq> []" "last q \<noteq> 0"
      using Suc.hyps(2) Suc.prems(1,2) n tl last_synthetic [OF tl, of z] synthetic_eval [OF tl, of z] by (simp_all add: last_tl)
    have "eval_poly_at q x = 0" if "x \<in> S - {z}" for x
    proof -
      have "(x - z) * eval_poly_at q x = 0" using div_by_linear_eval [of p x z] root that Suc.prems(4) by (simp add: q_def)
      then show ?thesis using that by simp
    qed
    then have "card (S - {z}) < n" using Suc.hyps(1) [of q "S - {z}"] q Suc.prems(3) by simp
    then show ?thesis using z Suc.hyps(2) Suc.prems(3) by (simp add: card_Diff_singleton)
  qed (use Suc.prems in simp)
qed simp

lemma many_roots_zero:
  fixes p :: "'a::idom list"
  assumes "finite S" and "length p \<le> card S" and "\<And>z. z \<in> S \<Longrightarrow> eval_poly_at p z = 0"
  shows "set p \<subseteq> {0}"
  using assms
proof (induction p rule: rev_induct)
  case (snoc c p)
  have "c = 0" using root_bound [of "p @ [c]" S] snoc.prems by force
  moreover have "eval_poly_at (p @ [0]) z = eval_poly_at p z" for z
    by (induction p) (simp_all add: eval_Cons)
  ultimately show ?case using snoc by simp
qed simp

end
