(* ===== verification/Rv_Constraints.thy ===== *)
theory Rv_Constraints
  imports Zkp_Poly
begin

text \<open>
  The constraint system of \<^verbatim>\<open>crates/riscv/src/constraints\<close>: the expressions that a row of the execution
  trace must make zero, for each instruction class (\<^verbatim>\<open>alu.rs\<close>, \<^verbatim>\<open>control_flow.rs\<close>, \<^verbatim>\<open>memory_ops.rs\<close>), their
  combination at a point for the verifier and as a polynomial for the prover (\<^verbatim>\<open>mod.rs\<close>). The theory
  shows that prover and verifier combine the same constraints.

  A row is the list of its 83 column values, scalars of a commutative ring. An index beyond the row
  panics in Rust; the entry points \<open>evaluate_at_point_extended\<close> and \<open>build_constraint_polynomial\<close> return
  \<open>None\<close> there, and the expressions below are evaluated on complete rows only.
\<close>

section \<open>Columns\<close>

abbreviation COL_PC :: nat where "COL_PC \<equiv> 0"
abbreviation COL_RD :: nat where "COL_RD \<equiv> 1"
abbreviation COL_RD_VAL_BEFORE :: nat where "COL_RD_VAL_BEFORE \<equiv> 2"
abbreviation COL_RD_VAL_AFTER :: nat where "COL_RD_VAL_AFTER \<equiv> 3"
abbreviation COL_RS1 :: nat where "COL_RS1 \<equiv> 4"
abbreviation COL_RS1_VAL :: nat where "COL_RS1_VAL \<equiv> 5"
abbreviation COL_RS2 :: nat where "COL_RS2 \<equiv> 6"
abbreviation COL_RS2_VAL :: nat where "COL_RS2_VAL \<equiv> 7"
abbreviation COL_MEM_ADDR :: nat where "COL_MEM_ADDR \<equiv> 8"
abbreviation COL_MEM_VAL :: nat where "COL_MEM_VAL \<equiv> 9"
abbreviation COL_NEXT_PC :: nat where "COL_NEXT_PC \<equiv> 10"
abbreviation COL_PRIVILEGE_MODE :: nat where "COL_PRIVILEGE_MODE \<equiv> 11"
abbreviation COL_INSN_TYPE :: nat where "COL_INSN_TYPE \<equiv> 12"
abbreviation COL_FUNCT :: nat where "COL_FUNCT \<equiv> 13"
abbreviation COL_IMMEDIATE :: nat where "COL_IMMEDIATE \<equiv> 14"
abbreviation COL_INSN_LEN :: nat where "COL_INSN_LEN \<equiv> 15"
abbreviation COL_AUX0 :: nat where "COL_AUX0 \<equiv> 16"
abbreviation COL_AUX1 :: nat where "COL_AUX1 \<equiv> 17"
abbreviation COL_AUX2 :: nat where "COL_AUX2 \<equiv> 18"
abbreviation COL_SEL_R_ALU_ADD :: nat where "COL_SEL_R_ALU_ADD \<equiv> 19"
abbreviation COL_SEL_R_ALU_SUB :: nat where "COL_SEL_R_ALU_SUB \<equiv> 20"
abbreviation COL_SEL_R_AND :: nat where "COL_SEL_R_AND \<equiv> 21"
abbreviation COL_SEL_R_OR :: nat where "COL_SEL_R_OR \<equiv> 22"
abbreviation COL_SEL_R_XOR :: nat where "COL_SEL_R_XOR \<equiv> 23"
abbreviation COL_SEL_R_SLL :: nat where "COL_SEL_R_SLL \<equiv> 24"
abbreviation COL_SEL_R_SRL :: nat where "COL_SEL_R_SRL \<equiv> 25"
abbreviation COL_SEL_R_SRA :: nat where "COL_SEL_R_SRA \<equiv> 26"
abbreviation COL_SEL_R_COMPARE :: nat where "COL_SEL_R_COMPARE \<equiv> 27"
abbreviation COL_SEL_I_ALU_ADD :: nat where "COL_SEL_I_ALU_ADD \<equiv> 28"
abbreviation COL_SEL_I_AND :: nat where "COL_SEL_I_AND \<equiv> 29"
abbreviation COL_SEL_I_OR :: nat where "COL_SEL_I_OR \<equiv> 30"
abbreviation COL_SEL_I_XOR :: nat where "COL_SEL_I_XOR \<equiv> 31"
abbreviation COL_SEL_I_SLL :: nat where "COL_SEL_I_SLL \<equiv> 32"
abbreviation COL_SEL_I_SRL :: nat where "COL_SEL_I_SRL \<equiv> 33"
abbreviation COL_SEL_I_SRA :: nat where "COL_SEL_I_SRA \<equiv> 34"
abbreviation COL_SEL_I_COMPARE :: nat where "COL_SEL_I_COMPARE \<equiv> 35"
abbreviation COL_SEL_W_ALU_ADD :: nat where "COL_SEL_W_ALU_ADD \<equiv> 36"
abbreviation COL_SEL_W_ALU_SUB :: nat where "COL_SEL_W_ALU_SUB \<equiv> 37"
abbreviation COL_SEL_W_ALU_ADDI :: nat where "COL_SEL_W_ALU_ADDI \<equiv> 38"
abbreviation COL_SEL_W_SLL :: nat where "COL_SEL_W_SLL \<equiv> 39"
abbreviation COL_SEL_W_SRL :: nat where "COL_SEL_W_SRL \<equiv> 40"
abbreviation COL_SEL_W_SRA :: nat where "COL_SEL_W_SRA \<equiv> 41"
abbreviation COL_SEL_W_ALU_OTHER :: nat where "COL_SEL_W_ALU_OTHER \<equiv> 42"
abbreviation COL_SEL_MUL :: nat where "COL_SEL_MUL \<equiv> 43"
abbreviation COL_SEL_DIV :: nat where "COL_SEL_DIV \<equiv> 44"
abbreviation COL_SEL_REM :: nat where "COL_SEL_REM \<equiv> 45"
abbreviation COL_SEL_MULDIV_OTHER :: nat where "COL_SEL_MULDIV_OTHER \<equiv> 46"
abbreviation COL_SEL_LOAD :: nat where "COL_SEL_LOAD \<equiv> 47"
abbreviation COL_SEL_STORE :: nat where "COL_SEL_STORE \<equiv> 48"
abbreviation COL_SEL_BEQ :: nat where "COL_SEL_BEQ \<equiv> 49"
abbreviation COL_SEL_BNE :: nat where "COL_SEL_BNE \<equiv> 50"
abbreviation COL_SEL_BLTU :: nat where "COL_SEL_BLTU \<equiv> 51"
abbreviation COL_SEL_BGEU :: nat where "COL_SEL_BGEU \<equiv> 52"
abbreviation COL_SEL_BLT :: nat where "COL_SEL_BLT \<equiv> 53"
abbreviation COL_SEL_BGE :: nat where "COL_SEL_BGE \<equiv> 54"
abbreviation COL_SEL_JAL :: nat where "COL_SEL_JAL \<equiv> 55"
abbreviation COL_SEL_JALR :: nat where "COL_SEL_JALR \<equiv> 56"
abbreviation COL_SEL_LUI :: nat where "COL_SEL_LUI \<equiv> 57"
abbreviation COL_SEL_AUIPC :: nat where "COL_SEL_AUIPC \<equiv> 58"
abbreviation COL_SEL_CSRRW :: nat where "COL_SEL_CSRRW \<equiv> 59"
abbreviation COL_SEL_CSRRS :: nat where "COL_SEL_CSRRS \<equiv> 60"
abbreviation COL_SEL_CSRRC :: nat where "COL_SEL_CSRRC \<equiv> 61"
abbreviation COL_SEL_SYSTEM :: nat where "COL_SEL_SYSTEM \<equiv> 62"
abbreviation COL_SEL_LR :: nat where "COL_SEL_LR \<equiv> 63"
abbreviation COL_SEL_SC :: nat where "COL_SEL_SC \<equiv> 64"
abbreviation COL_SEL_AMO_SWAP :: nat where "COL_SEL_AMO_SWAP \<equiv> 65"
abbreviation COL_SEL_AMO_ADD :: nat where "COL_SEL_AMO_ADD \<equiv> 66"
abbreviation COL_SEL_AMO_BITWISE :: nat where "COL_SEL_AMO_BITWISE \<equiv> 67"
abbreviation COL_SEL_AMO_COMPARE :: nat where "COL_SEL_AMO_COMPARE \<equiv> 68"
abbreviation COL_SEL_ATOMIC_OTHER :: nat where "COL_SEL_ATOMIC_OTHER \<equiv> 69"
abbreviation COL_SEL_MULHU :: nat where "COL_SEL_MULHU \<equiv> 70"
abbreviation COL_SEL_CSRRW_I :: nat where "COL_SEL_CSRRW_I \<equiv> 71"
abbreviation COL_SEL_CSRRS_I :: nat where "COL_SEL_CSRRS_I \<equiv> 72"
abbreviation COL_SEL_MULH :: nat where "COL_SEL_MULH \<equiv> 73"
abbreviation COL_SEL_MULHSU :: nat where "COL_SEL_MULHSU \<equiv> 74"
abbreviation COL_SEL_MULW :: nat where "COL_SEL_MULW \<equiv> 75"
abbreviation COL_SEL_DIVW :: nat where "COL_SEL_DIVW \<equiv> 76"
abbreviation COL_SEL_REMW :: nat where "COL_SEL_REMW \<equiv> 77"
abbreviation COL_SEL_AMO_OR :: nat where "COL_SEL_AMO_OR \<equiv> 78"
abbreviation COL_SEL_AMO_XOR :: nat where "COL_SEL_AMO_XOR \<equiv> 79"
abbreviation COL_SEL_AMO_MAXU :: nat where "COL_SEL_AMO_MAXU \<equiv> 80"
abbreviation COL_SEL_AMO_MINS :: nat where "COL_SEL_AMO_MINS \<equiv> 81"
abbreviation COL_SEL_AMO_MAXS :: nat where "COL_SEL_AMO_MAXS \<equiv> 82"
section \<open>Instruction constraints\<close>

text \<open>\<^verbatim>\<open>if col_evals.len() > k { &col_evals[k] } else { &zero }\<close>.\<close>

definition col_or_zero :: "'a::comm_ring_1 list \<Rightarrow> nat \<Rightarrow> 'a" where
  "col_or_zero cs k = (if k < length cs then cs ! k else 0)"

abbreviation aux0_of :: "'a::comm_ring_1 list \<Rightarrow> 'a" where "aux0_of cs \<equiv> col_or_zero cs COL_AUX0"
abbreviation aux1_of :: "'a::comm_ring_1 list \<Rightarrow> 'a" where "aux1_of cs \<equiv> col_or_zero cs COL_AUX1"
abbreviation aux2_of :: "'a::comm_ring_1 list \<Rightarrow> 'a" where "aux2_of cs \<equiv> col_or_zero cs COL_AUX2"

definition two_pow_64 :: "'a::comm_ring_1" where
  "two_pow_64 = 2 ^ 64"

definition two_32 :: "'a::comm_ring_1" where
  "two_32 = 2 ^ 32"

definition evaluate_alu_w_addw_raw :: "'a::comm_ring_1 list \<Rightarrow> 'a" where
  "evaluate_alu_w_addw_raw cs =
     (let sign_ext_offset = two_pow_64 - two_32;
          sum = cs ! COL_RS1_VAL + cs ! COL_RS2_VAL;
          upper = aux0_of cs * two_32;
          sign_term = aux1_of cs * sign_ext_offset;
          c1 = sum - upper - cs ! COL_RD_VAL_AFTER + sign_term;
          c2 = aux1_of cs * (aux1_of cs - 1)
      in c1 + c2)"

definition evaluate_alu_w_subw_raw :: "'a::comm_ring_1 list \<Rightarrow> 'a" where
  "evaluate_alu_w_subw_raw cs =
     (let sign_ext_offset = two_pow_64 - two_32;
          diff = cs ! COL_RS1_VAL - cs ! COL_RS2_VAL;
          upper = aux0_of cs * two_32;
          sign_term = aux1_of cs * sign_ext_offset;
          c1 = diff - upper - cs ! COL_RD_VAL_AFTER + sign_term;
          c2 = aux1_of cs * (aux1_of cs - 1)
      in c1 + c2)"

definition evaluate_alu_w_addiw_raw :: "'a::comm_ring_1 list \<Rightarrow> 'a" where
  "evaluate_alu_w_addiw_raw cs =
     (let sign_ext_offset = two_pow_64 - two_32;
          sum = cs ! COL_RS1_VAL + cs ! COL_IMMEDIATE;
          upper = aux0_of cs * two_32;
          sign_term = aux1_of cs * sign_ext_offset;
          c1 = sum - upper - cs ! COL_RD_VAL_AFTER + sign_term;
          c2 = aux1_of cs * (aux1_of cs - 1)
      in c1 + c2)"

definition evaluate_mul_raw :: "'a::comm_ring_1 list \<Rightarrow> 'a" where
  "evaluate_mul_raw cs =
     (let product = cs ! COL_RS1_VAL * cs ! COL_RS2_VAL;
          rhs = aux0_of cs * two_pow_64 + cs ! COL_RD_VAL_AFTER
      in product - rhs)"

definition evaluate_div_raw :: "'a::comm_ring_1 list \<Rightarrow> 'a" where
  "evaluate_div_raw cs =
     (let prod = cs ! COL_RD_VAL_AFTER * cs ! COL_RS2_VAL; lhs = prod + aux0_of cs
      in lhs - cs ! COL_RS1_VAL)"

definition evaluate_rem_raw :: "'a::comm_ring_1 list \<Rightarrow> 'a" where
  "evaluate_rem_raw cs =
     (let prod = aux0_of cs * cs ! COL_RS2_VAL; lhs = prod + cs ! COL_RD_VAL_AFTER
      in lhs - cs ! COL_RS1_VAL)"

definition evaluate_alu_r_add_main_raw :: "'a::comm_ring_1 list \<Rightarrow> 'a" where
  "evaluate_alu_r_add_main_raw cs =
     (let sum = cs ! COL_RS1_VAL + cs ! COL_RS2_VAL;
          rhs = aux0_of cs * two_pow_64 + cs ! COL_RD_VAL_AFTER
      in sum - rhs)"

definition evaluate_alu_r_add_raw :: "'a::comm_ring_1 list \<Rightarrow> 'a" where
  "evaluate_alu_r_add_raw cs =
     (let sum = cs ! COL_RS1_VAL + cs ! COL_RS2_VAL;
          rhs = aux0_of cs * two_pow_64 + cs ! COL_RD_VAL_AFTER;
          c1 = sum - rhs;
          c2 = aux0_of cs * (aux0_of cs - 1)
      in c1 + c2)"

definition evaluate_alu_r_sub_main_raw :: "'a::comm_ring_1 list \<Rightarrow> 'a" where
  "evaluate_alu_r_sub_main_raw cs =
     (let lhs = cs ! COL_RD_VAL_AFTER + cs ! COL_RS2_VAL;
          rhs = cs ! COL_RS1_VAL + aux0_of cs * two_pow_64
      in lhs - rhs)"

definition evaluate_alu_r_sub_raw :: "'a::comm_ring_1 list \<Rightarrow> 'a" where
  "evaluate_alu_r_sub_raw cs =
     (let lhs = cs ! COL_RD_VAL_AFTER + cs ! COL_RS2_VAL;
          rhs = cs ! COL_RS1_VAL + aux0_of cs * two_pow_64;
          c1 = lhs - rhs;
          c2 = aux0_of cs * (aux0_of cs - 1)
      in c1 + c2)"

definition evaluate_alu_i_add_main_raw :: "'a::comm_ring_1 list \<Rightarrow> 'a" where
  "evaluate_alu_i_add_main_raw cs =
     (let sum = cs ! COL_RS1_VAL + cs ! COL_IMMEDIATE;
          rhs = aux0_of cs * two_pow_64 + cs ! COL_RD_VAL_AFTER
      in sum - rhs)"

definition evaluate_alu_i_add_raw :: "'a::comm_ring_1 list \<Rightarrow> 'a" where
  "evaluate_alu_i_add_raw cs =
     (let sum = cs ! COL_RS1_VAL + cs ! COL_IMMEDIATE;
          rhs = aux0_of cs * two_pow_64 + cs ! COL_RD_VAL_AFTER;
          c1 = sum - rhs;
          c2 = aux0_of cs * (aux0_of cs - 1)
      in c1 + c2)"

definition evaluate_aux0_binary_raw :: "'a::comm_ring_1 list \<Rightarrow> 'a" where
  "evaluate_aux0_binary_raw cs = aux0_of cs * (aux0_of cs - 1)"

definition evaluate_r_and_raw :: "'a::comm_ring_1 list \<Rightarrow> 'a" where
  "evaluate_r_and_raw cs = cs ! COL_RD_VAL_AFTER - aux0_of cs"

definition evaluate_r_or_raw :: "'a::comm_ring_1 list \<Rightarrow> 'a" where
  "evaluate_r_or_raw cs = cs ! COL_RD_VAL_AFTER - (cs ! COL_RS1_VAL + cs ! COL_RS2_VAL - aux0_of cs)"

definition evaluate_r_xor_raw :: "'a::comm_ring_1 list \<Rightarrow> 'a" where
  "evaluate_r_xor_raw cs = cs ! COL_RD_VAL_AFTER - (cs ! COL_RS1_VAL + cs ! COL_RS2_VAL - 2 * aux0_of cs)"

definition evaluate_i_and_raw :: "'a::comm_ring_1 list \<Rightarrow> 'a" where
  "evaluate_i_and_raw cs = cs ! COL_RD_VAL_AFTER - aux0_of cs"

definition evaluate_i_or_raw :: "'a::comm_ring_1 list \<Rightarrow> 'a" where
  "evaluate_i_or_raw cs = cs ! COL_RD_VAL_AFTER - (cs ! COL_RS1_VAL + cs ! COL_IMMEDIATE - aux0_of cs)"

definition evaluate_i_xor_raw :: "'a::comm_ring_1 list \<Rightarrow> 'a" where
  "evaluate_i_xor_raw cs = cs ! COL_RD_VAL_AFTER - (cs ! COL_RS1_VAL + cs ! COL_IMMEDIATE - 2 * aux0_of cs)"

definition evaluate_sll_raw :: "'a::comm_ring_1 list \<Rightarrow> 'a" where
  "evaluate_sll_raw cs =
     (let product = cs ! COL_RS1_VAL * aux0_of cs;
          rhs = aux1_of cs * two_pow_64 + cs ! COL_RD_VAL_AFTER
      in product - rhs)"

definition evaluate_srl_raw :: "'a::comm_ring_1 list \<Rightarrow> 'a" where
  "evaluate_srl_raw cs =
     (let prod = cs ! COL_RD_VAL_AFTER * aux0_of cs; lhs = prod + aux1_of cs
      in lhs - cs ! COL_RS1_VAL)"

definition evaluate_sra_raw :: "'a::comm_ring_1 list \<Rightarrow> 'a" where
  "evaluate_sra_raw cs =
     (let prod = cs ! COL_RD_VAL_AFTER * aux0_of cs;
          lhs = prod + aux1_of cs;
          rhs = cs ! COL_RS1_VAL + aux2_of cs * two_pow_64
      in lhs - rhs)"

definition evaluate_w_sll_raw :: "'a::comm_ring_1 list \<Rightarrow> 'a" where
  "evaluate_w_sll_raw cs =
     (let product = cs ! COL_RS1_VAL * aux0_of cs;
          rhs = aux1_of cs * two_32 + cs ! COL_RD_VAL_AFTER
      in product - rhs)"

definition evaluate_w_srl_raw :: "'a::comm_ring_1 list \<Rightarrow> 'a" where
  "evaluate_w_srl_raw cs =
     (let prod = cs ! COL_RD_VAL_AFTER * aux0_of cs; lhs = prod + aux1_of cs
      in lhs - cs ! COL_RS1_VAL)"

definition evaluate_w_sra_raw :: "'a::comm_ring_1 list \<Rightarrow> 'a" where
  "evaluate_w_sra_raw cs =
     (let prod = cs ! COL_RD_VAL_AFTER * aux0_of cs;
          lhs = prod + aux1_of cs;
          rhs = cs ! COL_RS1_VAL + aux2_of cs * two_32
      in lhs - rhs)"

text \<open>The signed comparison from the borrow and the two sign bits, the same expression in four functions.\<close>

definition signed_lt_of :: "'a::comm_ring_1 \<Rightarrow> 'a \<Rightarrow> 'a \<Rightarrow> 'a" where
  "signed_lt_of borrow sign_a sign_b =
     (let term1 = sign_a * (1 - sign_b);
          same_sign = 1 - sign_a - sign_b + 2 * (sign_a * sign_b);
          term2 = same_sign * borrow
      in term1 + term2)"

definition evaluate_compare_raw :: "'a::comm_ring_1 list \<Rightarrow> 'a" where
  "evaluate_compare_raw cs =
     (let signed_lt = signed_lt_of (aux0_of cs) (aux1_of cs) (aux2_of cs);
          rd_check = cs ! COL_RD_VAL_AFTER - signed_lt;
          aux0_binary = aux0_of cs * (aux0_of cs - 1);
          aux1_binary = aux1_of cs * (aux1_of cs - 1);
          aux2_binary = aux2_of cs * (aux2_of cs - 1)
      in rd_check + aux0_binary + aux1_binary + aux2_binary)"

definition evaluate_csrrs_raw :: "'a::comm_ring_1 list \<Rightarrow> 'a" where
  "evaluate_csrrs_raw cs = aux0_of cs - cs ! COL_RD_VAL_AFTER - cs ! COL_RS1_VAL + aux1_of cs"

definition evaluate_csrrc_raw :: "'a::comm_ring_1 list \<Rightarrow> 'a" where
  "evaluate_csrrc_raw cs = aux0_of cs - cs ! COL_RD_VAL_AFTER + aux1_of cs"

definition evaluate_csrrw_raw :: "'a::comm_ring_1 list \<Rightarrow> 'a" where
  "evaluate_csrrw_raw cs = aux0_of cs - cs ! COL_RS1_VAL"

definition evaluate_lr_raw :: "'a::comm_ring_1 list \<Rightarrow> 'a" where
  "evaluate_lr_raw cs = cs ! COL_RD_VAL_AFTER - cs ! COL_MEM_VAL"

definition evaluate_sc_raw :: "'a::comm_ring_1 list \<Rightarrow> 'a" where
  "evaluate_sc_raw cs =
     (let binary = aux0_of cs * (aux0_of cs - 1); valid_check = aux0_of cs * cs ! COL_RD_VAL_AFTER
      in binary + valid_check)"

definition evaluate_mulhu_raw :: "'a::comm_ring_1 list \<Rightarrow> 'a" where
  "evaluate_mulhu_raw cs =
     (let product = cs ! COL_RS1_VAL * cs ! COL_RS2_VAL;
          rhs = cs ! COL_RD_VAL_AFTER * two_pow_64 + aux0_of cs
      in product - rhs)"

definition evaluate_csrrw_i_raw :: "'a::comm_ring_1 list \<Rightarrow> 'a" where
  "evaluate_csrrw_i_raw cs = aux0_of cs - cs ! COL_IMMEDIATE"

definition evaluate_csrrs_i_raw :: "'a::comm_ring_1 list \<Rightarrow> 'a" where
  "evaluate_csrrs_i_raw cs = aux0_of cs - cs ! COL_RD_VAL_AFTER - cs ! COL_IMMEDIATE + aux1_of cs"

definition evaluate_mulh_raw :: "'a::comm_ring_1 list \<Rightarrow> 'a" where
  "evaluate_mulh_raw cs =
     (let two_128 = two_pow_64 * two_pow_64;
          product = cs ! COL_RS1_VAL * cs ! COL_RS2_VAL;
          sign_a_rs2 = aux1_of cs * two_pow_64 * cs ! COL_RS2_VAL;
          sign_b_rs1 = aux2_of cs * two_pow_64 * cs ! COL_RS1_VAL;
          sign_ab = aux1_of cs * aux2_of cs * two_128;
          hi_term = cs ! COL_RD_VAL_AFTER * two_pow_64;
          main = product - sign_a_rs2 - sign_b_rs1 + sign_ab - hi_term - aux0_of cs;
          a1_bin = aux1_of cs * (aux1_of cs - 1);
          a2_bin = aux2_of cs * (aux2_of cs - 1)
      in main + a1_bin + a2_bin)"

definition evaluate_mulhsu_raw :: "'a::comm_ring_1 list \<Rightarrow> 'a" where
  "evaluate_mulhsu_raw cs =
     (let product = cs ! COL_RS1_VAL * cs ! COL_RS2_VAL;
          sign_a_rs2 = aux1_of cs * two_pow_64 * cs ! COL_RS2_VAL;
          hi_term = cs ! COL_RD_VAL_AFTER * two_pow_64;
          main = product - sign_a_rs2 - hi_term - aux0_of cs;
          a1_bin = aux1_of cs * (aux1_of cs - 1)
      in main + a1_bin)"

definition evaluate_mulw_raw :: "'a::comm_ring_1 list \<Rightarrow> 'a" where
  "evaluate_mulw_raw cs =
     (let sign_ext_offset = two_pow_64 - two_32;
          product = cs ! COL_RS1_VAL * cs ! COL_RS2_VAL;
          upper = aux0_of cs * two_32;
          sign_term = aux1_of cs * sign_ext_offset;
          c1 = product - upper - cs ! COL_RD_VAL_AFTER + sign_term;
          c2 = aux1_of cs * (aux1_of cs - 1)
      in c1 + c2)"

definition evaluate_divw_raw :: "'a::comm_ring_1 list \<Rightarrow> 'a" where
  "evaluate_divw_raw cs =
     (let prod = cs ! COL_RD_VAL_AFTER * cs ! COL_RS2_VAL; correction = aux1_of cs * two_32
      in prod + aux0_of cs - cs ! COL_RS1_VAL - correction)"

definition evaluate_remw_raw :: "'a::comm_ring_1 list \<Rightarrow> 'a" where
  "evaluate_remw_raw cs =
     (let prod = aux0_of cs * cs ! COL_RS2_VAL; correction = aux1_of cs * two_32
      in prod + cs ! COL_RD_VAL_AFTER - cs ! COL_RS1_VAL - correction)"

definition evaluate_amo_swap_raw :: "'a::comm_ring_1 list \<Rightarrow> 'a" where
  "evaluate_amo_swap_raw cs =
     (let sign_ext_offset = two_pow_64 - two_32;
          c1 = cs ! COL_RS2_VAL - aux0_of cs * two_32 - cs ! COL_MEM_VAL + aux1_of cs * sign_ext_offset;
          c2 = aux1_of cs * (aux1_of cs - 1)
      in c1 + c2)"

definition evaluate_amo_add_raw :: "'a::comm_ring_1 list \<Rightarrow> 'a" where
  "evaluate_amo_add_raw cs =
     (let sign_ext_offset = two_pow_64 - two_32;
          one_m_aux2 = 1 - aux2_of cs;
          modulus = aux2_of cs * two_32 + one_m_aux2 * two_pow_64;
          correction_term = aux0_of cs * modulus;
          sum = cs ! COL_RD_VAL_AFTER + cs ! COL_RS2_VAL;
          c1 = sum - cs ! COL_MEM_VAL - correction_term + aux1_of cs * aux2_of cs * sign_ext_offset;
          a1_bin = aux1_of cs * (aux1_of cs - 1);
          a2_bin = aux2_of cs * (aux2_of cs - 1);
          a0_d_bin = one_m_aux2 * (aux0_of cs * (aux0_of cs - 1))
      in c1 + a1_bin + a2_bin + a0_d_bin)"

definition evaluate_amo_and_raw :: "'a::comm_ring_1 list \<Rightarrow> 'a" where
  "evaluate_amo_and_raw cs =
     cs ! COL_MEM_VAL + aux0_of cs - cs ! COL_RD_VAL_AFTER - cs ! COL_RS2_VAL - aux1_of cs * two_32"

definition evaluate_amo_or_raw :: "'a::comm_ring_1 list \<Rightarrow> 'a" where
  "evaluate_amo_or_raw cs =
     cs ! COL_MEM_VAL + aux0_of cs - cs ! COL_RD_VAL_AFTER - cs ! COL_RS2_VAL - aux1_of cs * two_32"

definition evaluate_amo_xor_raw :: "'a::comm_ring_1 list \<Rightarrow> 'a" where
  "evaluate_amo_xor_raw cs =
     cs ! COL_MEM_VAL + 2 * aux0_of cs - cs ! COL_RD_VAL_AFTER - cs ! COL_RS2_VAL - aux1_of cs * two_32"

definition evaluate_amo_minu_raw :: "'a::comm_ring_1 list \<Rightarrow> 'a" where
  "evaluate_amo_minu_raw cs =
     (let rd_m_rs2 = cs ! COL_RD_VAL_AFTER - cs ! COL_RS2_VAL;
          selection = aux0_of cs * rd_m_rs2;
          correction = aux1_of cs * two_32;
          c1 = cs ! COL_MEM_VAL - cs ! COL_RS2_VAL - selection - correction;
          c2 = aux0_of cs * (aux0_of cs - 1)
      in c1 + c2)"

definition evaluate_amo_maxu_raw :: "'a::comm_ring_1 list \<Rightarrow> 'a" where
  "evaluate_amo_maxu_raw cs =
     (let rd_m_rs2 = cs ! COL_RD_VAL_AFTER - cs ! COL_RS2_VAL;
          selection = aux0_of cs * rd_m_rs2;
          correction = aux1_of cs * two_32;
          c1 = cs ! COL_MEM_VAL - cs ! COL_RD_VAL_AFTER + selection - correction;
          c2 = aux0_of cs * (aux0_of cs - 1)
      in c1 + c2)"

definition evaluate_amo_mins_raw :: "'a::comm_ring_1 list \<Rightarrow> 'a" where
  "evaluate_amo_mins_raw cs =
     (let signed_lt = signed_lt_of (aux0_of cs) (aux1_of cs) (aux2_of cs);
          selection = signed_lt * (cs ! COL_RD_VAL_AFTER - cs ! COL_RS2_VAL);
          c1 = cs ! COL_MEM_VAL - cs ! COL_RS2_VAL - selection;
          a0_bin = aux0_of cs * (aux0_of cs - 1);
          a1_bin = aux1_of cs * (aux1_of cs - 1);
          a2_bin = aux2_of cs * (aux2_of cs - 1)
      in c1 + a0_bin + a1_bin + a2_bin)"

definition evaluate_amo_maxs_raw :: "'a::comm_ring_1 list \<Rightarrow> 'a" where
  "evaluate_amo_maxs_raw cs =
     (let signed_lt = signed_lt_of (aux0_of cs) (aux1_of cs) (aux2_of cs);
          selection = signed_lt * (cs ! COL_RD_VAL_AFTER - cs ! COL_RS2_VAL);
          c1 = cs ! COL_MEM_VAL - cs ! COL_RD_VAL_AFTER + selection;
          a0_bin = aux0_of cs * (aux0_of cs - 1);
          a1_bin = aux1_of cs * (aux1_of cs - 1);
          a2_bin = aux2_of cs * (aux2_of cs - 1)
      in c1 + a0_bin + a1_bin + a2_bin)"

section \<open>Control flow and memory constraints\<close>

text \<open>The distances of \<open>next_pc\<close> from the taken and the fall-through target.\<close>

abbreviation diff_taken_of :: "'a::comm_ring_1 list \<Rightarrow> 'a" where
  "diff_taken_of cs \<equiv> cs ! COL_NEXT_PC - (cs ! COL_PC + cs ! COL_IMMEDIATE)"

abbreviation diff_not_taken_of :: "'a::comm_ring_1 list \<Rightarrow> 'a" where
  "diff_not_taken_of cs \<equiv> cs ! COL_NEXT_PC - (cs ! COL_PC + cs ! COL_INSN_LEN)"

definition evaluate_control_flow_raw :: "'a::comm_ring_1 list \<Rightarrow> 'a" where
  "evaluate_control_flow_raw cs = diff_taken_of cs * diff_not_taken_of cs"

definition evaluate_sequential_pc_raw :: "'a::comm_ring_1 list \<Rightarrow> 'a" where
  "evaluate_sequential_pc_raw cs = cs ! COL_NEXT_PC - (cs ! COL_PC + cs ! COL_INSN_LEN)"

definition evaluate_beq_condition_raw :: "'a::comm_ring_1 list \<Rightarrow> 'a" where
  "evaluate_beq_condition_raw cs =
     (let diff = cs ! COL_RS1_VAL - cs ! COL_RS2_VAL;
          one_m_aux1 = 1 - cs ! COL_AUX1;
          target = diff_taken_of cs * diff_not_taken_of cs;
          c1 = diff_not_taken_of cs * cs ! COL_AUX1;
          c2 = diff_taken_of cs * one_m_aux1;
          c3 = one_m_aux1 * diff;
          c4 = cs ! COL_AUX1 * (cs ! COL_AUX1 - 1)
      in target + c1 + c2 + c3 + c4)"

definition evaluate_bne_condition_raw :: "'a::comm_ring_1 list \<Rightarrow> 'a" where
  "evaluate_bne_condition_raw cs =
     (let diff = cs ! COL_RS1_VAL - cs ! COL_RS2_VAL;
          one_m_aux1 = 1 - cs ! COL_AUX1;
          target = diff_taken_of cs * diff_not_taken_of cs;
          c1 = diff_not_taken_of cs * one_m_aux1;
          c2 = diff_taken_of cs * cs ! COL_AUX1;
          c3 = one_m_aux1 * diff;
          c4 = cs ! COL_AUX1 * (cs ! COL_AUX1 - 1)
      in target + c1 + c2 + c3 + c4)"

definition evaluate_bltu_condition_raw :: "'a::comm_ring_1 list \<Rightarrow> 'a" where
  "evaluate_bltu_condition_raw cs =
     (let one_m_aux1 = 1 - cs ! COL_AUX1;
          target = diff_taken_of cs * diff_not_taken_of cs;
          c1 = diff_not_taken_of cs * one_m_aux1;
          c2 = diff_taken_of cs * cs ! COL_AUX1;
          c3 = cs ! COL_AUX1 * (cs ! COL_AUX1 - 1)
      in target + c1 + c2 + c3)"

definition evaluate_bgeu_condition_raw :: "'a::comm_ring_1 list \<Rightarrow> 'a" where
  "evaluate_bgeu_condition_raw cs =
     (let one_m_aux1 = 1 - cs ! COL_AUX1;
          target = diff_taken_of cs * diff_not_taken_of cs;
          c1 = diff_not_taken_of cs * cs ! COL_AUX1;
          c2 = diff_taken_of cs * one_m_aux1;
          c3 = cs ! COL_AUX1 * (cs ! COL_AUX1 - 1)
      in target + c1 + c2 + c3)"

definition evaluate_signed_branch_condition ::
  "'a::comm_ring_1 \<Rightarrow> 'a \<Rightarrow> 'a \<Rightarrow> 'a \<Rightarrow> 'a \<Rightarrow> 'a \<Rightarrow> 'a \<Rightarrow> bool \<Rightarrow> 'a" where
  "evaluate_signed_branch_condition pc imm insn_len next_pc aux0 aux1 aux2 is_lt =
     (let diff_taken = next_pc - (pc + imm);
          diff_not_taken = next_pc - (pc + insn_len);
          target_check = diff_taken * diff_not_taken;
          sign_a_binary = aux1 * (aux1 - 1);
          sign_b_binary = aux2 * (aux2 - 1);
          borrow_binary = aux0 * (aux0 - 1);
          signed_lt = signed_lt_of aux0 aux1 aux2
      in if is_lt then
           target_check + diff_not_taken * (1 - signed_lt) + diff_taken * signed_lt
             + sign_a_binary + sign_b_binary + borrow_binary
         else
           target_check + diff_not_taken * signed_lt + diff_taken * (1 - signed_lt)
             + sign_a_binary + sign_b_binary + borrow_binary)"

definition evaluate_blt_condition_raw :: "'a::comm_ring_1 list \<Rightarrow> 'a" where
  "evaluate_blt_condition_raw cs =
     evaluate_signed_branch_condition (cs ! COL_PC) (cs ! COL_IMMEDIATE) (cs ! COL_INSN_LEN) (cs ! COL_NEXT_PC)
       (aux0_of cs) (aux1_of cs) (aux2_of cs) True"

definition evaluate_bge_condition_raw :: "'a::comm_ring_1 list \<Rightarrow> 'a" where
  "evaluate_bge_condition_raw cs =
     evaluate_signed_branch_condition (cs ! COL_PC) (cs ! COL_IMMEDIATE) (cs ! COL_INSN_LEN) (cs ! COL_NEXT_PC)
       (aux0_of cs) (aux1_of cs) (aux2_of cs) False"

definition evaluate_jal_raw :: "'a::comm_ring_1 list \<Rightarrow> 'a" where
  "evaluate_jal_raw cs =
     (let rd_check = cs ! COL_RD_VAL_AFTER - (cs ! COL_PC + cs ! COL_INSN_LEN);
          pc_check = cs ! COL_NEXT_PC - (cs ! COL_PC + cs ! COL_IMMEDIATE)
      in rd_check + pc_check)"

definition evaluate_jalr_raw :: "'a::comm_ring_1 list \<Rightarrow> 'a" where
  "evaluate_jalr_raw cs =
     (let rd_check = cs ! COL_RD_VAL_AFTER - (cs ! COL_PC + cs ! COL_INSN_LEN);
          raw_target = cs ! COL_RS1_VAL + cs ! COL_IMMEDIATE;
          pc_check = cs ! COL_NEXT_PC - (raw_target - cs ! COL_AUX1);
          aux1_binary = cs ! COL_AUX1 * (cs ! COL_AUX1 - 1)
      in rd_check + pc_check + aux1_binary)"

definition evaluate_lui_raw :: "'a::comm_ring_1 list \<Rightarrow> 'a" where
  "evaluate_lui_raw cs = cs ! COL_RD_VAL_AFTER - cs ! COL_IMMEDIATE"

definition evaluate_auipc_raw :: "'a::comm_ring_1 list \<Rightarrow> 'a" where
  "evaluate_auipc_raw cs = cs ! COL_RD_VAL_AFTER - (cs ! COL_PC + cs ! COL_IMMEDIATE)"

definition evaluate_memory_ops_raw :: "'a::comm_ring_1 list \<Rightarrow> 'a" where
  "evaluate_memory_ops_raw cs = cs ! COL_MEM_ADDR - (cs ! COL_RS1_VAL + cs ! COL_IMMEDIATE)"

section \<open>Combination at a point\<close>

definition selector_column_indices :: "nat list" where
  "selector_column_indices =
     [COL_SEL_R_ALU_ADD, COL_SEL_R_ALU_SUB,
      COL_SEL_R_AND, COL_SEL_R_OR, COL_SEL_R_XOR,
      COL_SEL_R_SLL, COL_SEL_R_SRL, COL_SEL_R_SRA, COL_SEL_R_COMPARE,
      COL_SEL_I_ALU_ADD,
      COL_SEL_I_AND, COL_SEL_I_OR, COL_SEL_I_XOR,
      COL_SEL_I_SLL, COL_SEL_I_SRL, COL_SEL_I_SRA, COL_SEL_I_COMPARE,
      COL_SEL_W_ALU_ADD, COL_SEL_W_ALU_SUB, COL_SEL_W_ALU_ADDI,
      COL_SEL_W_SLL, COL_SEL_W_SRL, COL_SEL_W_SRA, COL_SEL_W_ALU_OTHER,
      COL_SEL_MUL, COL_SEL_DIV, COL_SEL_REM, COL_SEL_MULDIV_OTHER,
      COL_SEL_LOAD, COL_SEL_STORE,
      COL_SEL_BEQ, COL_SEL_BNE, COL_SEL_BLTU, COL_SEL_BGEU,
      COL_SEL_BLT, COL_SEL_BGE,
      COL_SEL_JAL, COL_SEL_JALR, COL_SEL_LUI, COL_SEL_AUIPC,
      COL_SEL_CSRRW, COL_SEL_CSRRS, COL_SEL_CSRRC,
      COL_SEL_SYSTEM,
      COL_SEL_LR, COL_SEL_SC, COL_SEL_AMO_SWAP, COL_SEL_AMO_ADD,
      COL_SEL_AMO_BITWISE, COL_SEL_AMO_COMPARE, COL_SEL_ATOMIC_OTHER,
      COL_SEL_MULHU,
      COL_SEL_CSRRW_I, COL_SEL_CSRRS_I,
      COL_SEL_MULH, COL_SEL_MULHSU, COL_SEL_MULW, COL_SEL_DIVW, COL_SEL_REMW,
      COL_SEL_AMO_OR, COL_SEL_AMO_XOR,
      COL_SEL_AMO_MAXU, COL_SEL_AMO_MINS, COL_SEL_AMO_MAXS]"

text \<open>The selectors that are added to \<open>sel_r_alu_add\<close> in the gate of the sequential-pc constraint.\<close>

definition seq_selectors :: "nat list" where
  "seq_selectors =
     [COL_SEL_R_ALU_SUB,
      COL_SEL_R_AND, COL_SEL_R_OR, COL_SEL_R_XOR,
      COL_SEL_R_SLL, COL_SEL_R_SRL, COL_SEL_R_SRA, COL_SEL_R_COMPARE,
      COL_SEL_I_ALU_ADD,
      COL_SEL_I_AND, COL_SEL_I_OR, COL_SEL_I_XOR,
      COL_SEL_I_SLL, COL_SEL_I_SRL, COL_SEL_I_SRA, COL_SEL_I_COMPARE,
      COL_SEL_W_ALU_ADD, COL_SEL_W_ALU_SUB, COL_SEL_W_ALU_ADDI,
      COL_SEL_W_SLL, COL_SEL_W_SRL, COL_SEL_W_SRA, COL_SEL_W_ALU_OTHER,
      COL_SEL_MUL, COL_SEL_DIV, COL_SEL_REM, COL_SEL_MULDIV_OTHER,
      COL_SEL_LOAD, COL_SEL_STORE, COL_SEL_LUI, COL_SEL_AUIPC,
      COL_SEL_CSRRW, COL_SEL_CSRRS, COL_SEL_CSRRC,
      COL_SEL_LR, COL_SEL_SC, COL_SEL_AMO_SWAP, COL_SEL_AMO_ADD,
      COL_SEL_AMO_BITWISE, COL_SEL_AMO_COMPARE, COL_SEL_ATOMIC_OTHER,
      COL_SEL_MULHU,
      COL_SEL_CSRRW_I, COL_SEL_CSRRS_I,
      COL_SEL_MULH, COL_SEL_MULHSU, COL_SEL_MULW, COL_SEL_DIVW, COL_SEL_REMW,
      COL_SEL_AMO_OR, COL_SEL_AMO_XOR,
      COL_SEL_AMO_MAXU, COL_SEL_AMO_MINS, COL_SEL_AMO_MAXS]"

definition seq_sel :: "'a::comm_ring_1 list \<Rightarrow> 'a" where
  "seq_sel cs = foldl (\<lambda>acc si. acc + cs ! si) (cs ! COL_SEL_R_ALU_ADD) seq_selectors"

text \<open>The gated constraints of \<^verbatim>\<open>evaluate_at_point_extended\<close> in their order, in four parts.\<close>

definition point_constraints_flow :: "'a::comm_ring_1 list \<Rightarrow> 'a list" where
  "point_constraints_flow cs =
     [seq_sel cs * evaluate_sequential_pc_raw cs,
      cs ! COL_SEL_R_ALU_ADD * evaluate_alu_r_add_main_raw cs,
      cs ! COL_SEL_R_ALU_SUB * evaluate_alu_r_sub_main_raw cs,
      cs ! COL_SEL_I_ALU_ADD * evaluate_alu_i_add_main_raw cs,
      cs ! COL_SEL_BEQ * evaluate_beq_condition_raw cs,
      cs ! COL_SEL_BNE * evaluate_bne_condition_raw cs,
      cs ! COL_SEL_BLTU * evaluate_bltu_condition_raw cs,
      cs ! COL_SEL_BGEU * evaluate_bgeu_condition_raw cs,
      cs ! COL_SEL_BLT * evaluate_blt_condition_raw cs,
      cs ! COL_SEL_BGE * evaluate_bge_condition_raw cs,
      cs ! COL_SEL_JAL * evaluate_jal_raw cs,
      cs ! COL_SEL_JALR * evaluate_jalr_raw cs,
      cs ! COL_SEL_LUI * evaluate_lui_raw cs,
      cs ! COL_SEL_AUIPC * evaluate_auipc_raw cs,
      (cs ! COL_SEL_LOAD + cs ! COL_SEL_STORE) * evaluate_memory_ops_raw cs]"

definition point_constraints_alu :: "'a::comm_ring_1 list \<Rightarrow> 'a list" where
  "point_constraints_alu cs =
     [cs ! COL_SEL_R_ALU_ADD * evaluate_aux0_binary_raw cs,
      cs ! COL_SEL_R_ALU_SUB * evaluate_aux0_binary_raw cs,
      cs ! COL_SEL_I_ALU_ADD * evaluate_aux0_binary_raw cs,
      cs ! COL_SEL_W_ALU_ADD * evaluate_alu_w_addw_raw cs,
      cs ! COL_SEL_W_ALU_SUB * evaluate_alu_w_subw_raw cs,
      cs ! COL_SEL_W_ALU_ADDI * evaluate_alu_w_addiw_raw cs,
      cs ! COL_SEL_MUL * evaluate_mul_raw cs,
      cs ! COL_SEL_DIV * evaluate_div_raw cs,
      cs ! COL_SEL_REM * evaluate_rem_raw cs,
      cs ! COL_SEL_R_AND * evaluate_r_and_raw cs,
      cs ! COL_SEL_R_OR * evaluate_r_or_raw cs,
      cs ! COL_SEL_R_XOR * evaluate_r_xor_raw cs,
      cs ! COL_SEL_I_AND * evaluate_i_and_raw cs,
      cs ! COL_SEL_I_OR * evaluate_i_or_raw cs,
      cs ! COL_SEL_I_XOR * evaluate_i_xor_raw cs]"

definition point_constraints_shift :: "'a::comm_ring_1 list \<Rightarrow> 'a list" where
  "point_constraints_shift cs =
     [cs ! COL_SEL_R_SLL * evaluate_sll_raw cs,
      cs ! COL_SEL_R_SRL * evaluate_srl_raw cs,
      cs ! COL_SEL_R_SRA * evaluate_sra_raw cs,
      cs ! COL_SEL_I_SLL * evaluate_sll_raw cs,
      cs ! COL_SEL_I_SRL * evaluate_srl_raw cs,
      cs ! COL_SEL_I_SRA * evaluate_sra_raw cs,
      cs ! COL_SEL_W_SLL * evaluate_w_sll_raw cs,
      cs ! COL_SEL_W_SRL * evaluate_w_srl_raw cs,
      cs ! COL_SEL_W_SRA * evaluate_w_sra_raw cs,
      cs ! COL_SEL_R_COMPARE * evaluate_compare_raw cs,
      cs ! COL_SEL_I_COMPARE * evaluate_compare_raw cs,
      cs ! COL_SEL_CSRRC * evaluate_csrrc_raw cs,
      cs ! COL_SEL_LR * evaluate_lr_raw cs,
      cs ! COL_SEL_SC * evaluate_sc_raw cs,
      cs ! COL_SEL_MULHU * evaluate_mulhu_raw cs]"

definition point_constraints_wide :: "'a::comm_ring_1 list \<Rightarrow> 'a list" where
  "point_constraints_wide cs =
     [cs ! COL_SEL_CSRRW * evaluate_csrrw_raw cs,
      cs ! COL_SEL_CSRRW_I * evaluate_csrrw_i_raw cs,
      cs ! COL_SEL_CSRRS * evaluate_csrrs_raw cs,
      cs ! COL_SEL_CSRRS_I * evaluate_csrrs_i_raw cs,
      cs ! COL_SEL_MULH * evaluate_mulh_raw cs,
      cs ! COL_SEL_MULHSU * evaluate_mulhsu_raw cs,
      cs ! COL_SEL_MULW * evaluate_mulw_raw cs,
      cs ! COL_SEL_DIVW * evaluate_divw_raw cs,
      cs ! COL_SEL_REMW * evaluate_remw_raw cs,
      cs ! COL_SEL_AMO_SWAP * evaluate_amo_swap_raw cs,
      cs ! COL_SEL_AMO_ADD * evaluate_amo_add_raw cs,
      cs ! COL_SEL_AMO_BITWISE * evaluate_amo_and_raw cs,
      cs ! COL_SEL_AMO_OR * evaluate_amo_or_raw cs,
      cs ! COL_SEL_AMO_XOR * evaluate_amo_xor_raw cs,
      cs ! COL_SEL_AMO_COMPARE * evaluate_amo_minu_raw cs,
      cs ! COL_SEL_AMO_MAXU * evaluate_amo_maxu_raw cs,
      cs ! COL_SEL_AMO_MINS * evaluate_amo_mins_raw cs,
      cs ! COL_SEL_AMO_MAXS * evaluate_amo_maxs_raw cs]"

definition point_constraints :: "'a::comm_ring_1 list \<Rightarrow> 'a list" where
  "point_constraints cs =
     point_constraints_flow cs @ point_constraints_alu cs @ point_constraints_shift cs @ point_constraints_wide cs"

text \<open>\<^verbatim>\<open>result = result.add(&x.mul(&ap)); ap = ap.mul(alpha)\<close>.\<close>

definition add_term :: "'a::comm_ring_1 \<Rightarrow> 'a \<Rightarrow> 'a \<times> 'a \<Rightarrow> 'a \<times> 'a" where
  "add_term alpha x acc = (case acc of (result, ap) \<Rightarrow> (result + x * ap, ap * alpha))"

definition evaluate_at_point_extended :: "'a::comm_ring_1 list \<Rightarrow> 'a \<Rightarrow> 'a option" where
  "evaluate_at_point_extended cs alpha =
     (if length cs < 19 then Some 0
      else if length cs < 83 then None
      else
        let acc = fold (add_term alpha) (point_constraints cs) (0, 1);
            (result, ap) = fold (\<lambda>si. add_term alpha (cs ! si * (cs ! si - 1))) selector_column_indices acc;
            sel_sum = foldl (\<lambda>s si. s + cs ! si) 0 selector_column_indices
        in Some (result + (sel_sum - 1) * ap))"

definition evaluate_at_point_legacy :: "'a::comm_ring_1 list \<Rightarrow> 'a \<Rightarrow> 'a" where
  "evaluate_at_point_legacy cs alpha =
     (if length cs < 16 then 0
      else
        let c0 = cs ! 10 - (cs ! 0 + 4);
            c1 = 0;
            c2 = cs ! 3 - (cs ! 5 + cs ! 7)
        in c0 + alpha * c1 + alpha * alpha * c2)"

definition evaluate_at_point :: "bool \<Rightarrow> 'a::comm_ring_1 list \<Rightarrow> 'a \<Rightarrow> 'a option" where
  "evaluate_at_point use_extended cs alpha =
     (if use_extended then evaluate_at_point_extended cs alpha else Some (evaluate_at_point_legacy cs alpha))"

section \<open>The values of all constraints\<close>

text \<open>The 128 constraints of the extended system: the combination is the polynomial with these coefficients in \<open>alpha\<close>.\<close>

definition constraint_values :: "'a::comm_ring_1 list \<Rightarrow> 'a list" where
  "constraint_values cs =
     point_constraints cs @ map (\<lambda>si. cs ! si * (cs ! si - 1)) selector_column_indices @
     [sum_list (map (\<lambda>si. cs ! si) selector_column_indices) - 1]"

lemma length_constraint_values: "length (constraint_values cs) = 128"
  by (simp add: constraint_values_def point_constraints_def point_constraints_flow_def point_constraints_alu_def
      point_constraints_shift_def point_constraints_wide_def selector_column_indices_def)

lemma fold_add_term:
  "fold (add_term alpha) xs (r, ap) = (r + ap * eval_poly_at xs alpha, ap * alpha ^ length xs)"
  by (induction xs arbitrary: r ap) (simp_all add: add_term_def eval_Cons algebra_simps)

lemma eval_append: "eval_poly_at (xs @ ys) z = eval_poly_at xs z + z ^ length xs * eval_poly_at ys z"
  by (induction xs) (simp_all add: eval_Cons algebra_simps)

lemma foldl_add: "foldl (\<lambda>s si. s + f si) a xs = a + sum_list (map f xs)" for a :: "'a::comm_ring_1"
  by (induction xs arbitrary: a) (simp_all add: algebra_simps)

lemma evaluate_at_point_values:
  assumes "length cs = 83"
  shows "evaluate_at_point_extended cs alpha = Some (eval_poly_at (constraint_values cs) alpha)"
proof -
  have "fold (\<lambda>si. add_term alpha (cs ! si * (cs ! si - 1))) xs acc =
      fold (add_term alpha) (map (\<lambda>si. cs ! si * (cs ! si - 1)) xs) acc" for xs acc
    by (simp add: fold_map comp_def)
  then show ?thesis
    using assms
    by (simp add: evaluate_at_point_extended_def Let_def fold_add_term foldl_add constraint_values_def eval_append
        power_add algebra_simps)
qed

end
