(* ===== verification/Zkp_Scalar.thy ===== *)
theory Zkp_Scalar
  imports Rv_Prelude Zkp_Poly
begin

text \<open>
  Scalars of \<^verbatim>\<open>crates/zkp/src/field.rs\<close> as elements of an abstract ring, the loops that compute powers, and
  the accumulation of constraint values with powers of a challenge, which all arguments of the prover
  and the verifier share.
\<close>

section \<open>Scalars\<close>

definition scalar_from_u64 :: "u64 \<Rightarrow> 'a::comm_ring_1" where
  "scalar_from_u64 v = of_int (uint v)"

text \<open>
  Integers below a bound that vanish in the ring are zero. The scalar fields of both curves have a prime
  order beyond \<open>2^250\<close>.
\<close>

definition char_above :: "'a::idom itself \<Rightarrow> int \<Rightarrow> bool" where
  "char_above _ n \<longleftrightarrow> (\<forall>k. \<bar>k\<bar> < n \<longrightarrow> (of_int k :: 'a) = 0 \<longrightarrow> k = 0)"

lemma char_aboveD: "char_above TYPE('a::idom) n \<Longrightarrow> (of_int k :: 'a) = 0 \<Longrightarrow> \<bar>k\<bar> < n \<Longrightarrow> k = 0"
  by (simp add: char_above_def)

lemma char_above_char_0: "char_above TYPE('a::{idom, ring_char_0}) n"
  by (simp add: char_above_def)

section \<open>Powers\<close>

text \<open>The loop \<^verbatim>\<open>for _ in 0..alpha_offset { ap = ap.mul(alpha) }\<close>.\<close>

definition alpha_power :: "'a::comm_ring_1 \<Rightarrow> nat \<Rightarrow> 'a" where
  "alpha_power alpha alpha_offset = fold (\<lambda>_ ap. ap * alpha) [0..<alpha_offset] 1"

text \<open>The square-and-multiply loop.\<close>

function pow_loop :: "'a::comm_ring_1 \<Rightarrow> 'a \<Rightarrow> nat \<Rightarrow> 'a" where
  "pow_loop acc base e =
     (if e = 0 then acc
      else pow_loop (if e mod 2 = 1 then acc * base else acc) (base * base) (e div 2))"
  by auto

termination pow_loop
  by (relation "measure (\<lambda>(_, _, e). e)") auto

declare pow_loop.simps [simp del]

lemma alpha_power_eq: "alpha_power alpha n = alpha ^ n"
  by (induction n) (simp_all add: alpha_power_def mult.commute)

lemma pow_loop_eq: "pow_loop acc base e = acc * base ^ e"
proof (induction acc base e rule: pow_loop.induct)
  case (1 acc base e)
  show ?case
  proof (cases "e = 0")
    case False
    have sq: "base ^ e = (if e mod 2 = 1 then base else 1) * (base * base) ^ (e div 2)"
    proof -
      have "base ^ e = base ^ (e mod 2 + 2 * (e div 2))" by simp
      also have "\<dots> = base ^ (e mod 2) * (base * base) ^ (e div 2)" by (simp only: power_add power_mult power2_eq_square)
      finally show ?thesis by (auto simp: mod2_eq_if)
    qed
    show ?thesis using 1 False by (subst pow_loop.simps, subst sq) (simp add: algebra_simps)
  qed (simp add: pow_loop.simps)
qed

text \<open>
  Constraint values are added up with consecutive powers of the challenge:
  \<^verbatim>\<open>result = result.add(&ap.mul(&body)); ap = ap.mul(alpha)\<close>.
\<close>

definition add_body :: "'a::comm_ring_1 \<Rightarrow> 'a \<Rightarrow> 'a \<times> 'a \<Rightarrow> 'a \<times> 'a" where
  "add_body alpha body = (\<lambda>(result, ap). (result + ap * body, ap * alpha))"

definition add_bodies :: "'a::comm_ring_1 \<Rightarrow> nat \<Rightarrow> 'a list \<Rightarrow> 'a" where
  "add_bodies alpha alpha_offset bodies = fst (fold (add_body alpha) bodies (0, alpha_power alpha alpha_offset))"

lemma fold_add_body:
  "fold (add_body alpha) bodies (result, ap) = (result + ap * eval_poly_at bodies alpha, ap * alpha ^ length bodies)"
  by (induction bodies arbitrary: result ap) (simp_all add: add_body_def eval_Cons algebra_simps)

lemma add_bodies_eq: "add_bodies alpha off bodies = alpha ^ off * eval_poly_at bodies alpha"
  by (simp add: add_bodies_def fold_add_body alpha_power_eq)

text \<open>Two sums whose offsets follow each other are one sum.\<close>

lemma add_bodies_append: "add_bodies alpha off (xs @ ys) = add_bodies alpha off xs + add_bodies alpha (off + length xs) ys"
  by (induction xs arbitrary: off) (simp_all add: add_bodies_eq eval_Cons algebra_simps power_add)

lemma add_bodies_zero: "set bodies \<subseteq> {0} \<Longrightarrow> add_bodies alpha off bodies = 0"
  by (simp add: add_bodies_eq eval_zero)

text \<open>Enough challenges separate the constraints.\<close>

lemma add_bodies_separate:
  fixes bodies :: "'a::idom list"
  assumes "finite A" and "length bodies \<le> card A" and "0 \<notin> A" and "\<And>alpha. alpha \<in> A \<Longrightarrow> add_bodies alpha off bodies = 0"
  shows "set bodies \<subseteq> {0}"
proof (rule many_roots_zero [OF assms(1,2)])
  fix alpha assume "alpha \<in> A"
  moreover from this have "alpha \<noteq> 0" using assms(3) by blast
  ultimately show "eval_poly_at bodies alpha = 0" using assms(4) [of alpha] by (simp add: add_bodies_eq)
qed

text \<open>The same accumulation for polynomials:
  \<^verbatim>\<open>c = poly_add(&c, &poly_scalar_mul(p, &ap)); ap = ap.mul(alpha)\<close>.\<close>

definition add_poly_term :: "'a::comm_ring_1 \<Rightarrow> 'a list \<Rightarrow> 'a list \<times> 'a \<Rightarrow> 'a list \<times> 'a" where
  "add_poly_term alpha p acc = (case acc of (c, ap) \<Rightarrow> (poly_add c (poly_scalar_mul p ap), ap * alpha))"

lemma add_poly_term_pair [simp]: "add_poly_term alpha p (c, ap) = (poly_add c (poly_scalar_mul p ap), ap * alpha)"
  by (simp add: add_poly_term_def)

lemma eval_add_poly_term:
  "fold (add_poly_term alpha) ps (c, ap) = (c', ap') \<Longrightarrow>
    eval_poly_at c' z = eval_poly_at c z + ap * eval_poly_at (map (\<lambda>p. eval_poly_at p z) ps) alpha \<and> ap' = ap * alpha ^ length ps"
proof (induction ps arbitrary: c ap)
  case (Cons p ps)
  then have "fold (add_poly_term alpha) ps (poly_add c (poly_scalar_mul p ap), ap * alpha) = (c', ap')" by simp
  from Cons.IH [OF this] show ?case by (simp add: eval_Cons algebra_simps)
qed simp

end
