(* ===== verification/Rv_Constraint_Poly.thy ===== *)
theory Rv_Constraint_Poly
  imports Rv_Constraints Zkp_Scalar
begin

text \<open>
  The prover's side of the constraint system, \<^verbatim>\<open>build_constraint_polynomial\<close> and
  \<^verbatim>\<open>build_shifted_constraint_polynomial\<close> of \<^verbatim>\<open>crates/riscv/src/constraints/mod.rs\<close>: the constraints as
  polynomials over the column polynomials. The theory shows that the polynomial the prover builds takes,
  at every point, the value the verifier computes from the column evaluations.
\<close>

section \<open>Shared expressions\<close>

text \<open>The sub-expressions that the function computes once; \<open>col\<close> maps an index to its coefficients.\<close>

type_synonym 'a col_fn = "nat \<Rightarrow> 'a list"

abbreviation one_poly :: "'a::comm_ring_1 list" where
  "one_poly \<equiv> [1]"

definition taken_poly :: "'a::comm_ring_1 col_fn \<Rightarrow> 'a list" where
  "taken_poly col = poly_add (col COL_PC) (col COL_IMMEDIATE)"

definition not_taken_poly :: "'a::comm_ring_1 col_fn \<Rightarrow> 'a list" where
  "not_taken_poly col = poly_add (col COL_PC) (col COL_INSN_LEN)"

definition diff_taken_poly :: "'a::comm_ring_1 col_fn \<Rightarrow> 'a list" where
  "diff_taken_poly col = poly_sub (col COL_NEXT_PC) (taken_poly col)"

definition diff_not_taken_poly :: "'a::comm_ring_1 col_fn \<Rightarrow> 'a list" where
  "diff_not_taken_poly col = poly_sub (col COL_NEXT_PC) (not_taken_poly col)"

definition target_check_poly :: "'a::comm_ring_1 col_fn \<Rightarrow> 'a list" where
  "target_check_poly col = poly_mul (diff_taken_poly col) (diff_not_taken_poly col)"

definition one_m_poly :: "'a::comm_ring_1 col_fn \<Rightarrow> nat \<Rightarrow> 'a list" where
  "one_m_poly col k = poly_sub one_poly (col k)"

text \<open>\<open>x * (x - 1)\<close>.\<close>

definition binary_poly :: "'a::comm_ring_1 col_fn \<Rightarrow> nat \<Rightarrow> 'a list" where
  "binary_poly col k = poly_mul (col k) (poly_sub (col k) one_poly)"

definition rs_diff_poly :: "'a::comm_ring_1 col_fn \<Rightarrow> 'a list" where
  "rs_diff_poly col = poly_sub (col COL_RS1_VAL) (col COL_RS2_VAL)"

definition signed_lt_poly :: "'a::comm_ring_1 col_fn \<Rightarrow> 'a list" where
  "signed_lt_poly col =
     (let term1 = poly_mul (col COL_AUX1) (one_m_poly col COL_AUX2);
          aux1_aux2 = poly_mul (col COL_AUX1) (col COL_AUX2);
          same_sign = poly_add (poly_sub (poly_sub one_poly (col COL_AUX1)) (col COL_AUX2)) (poly_scalar_mul aux1_aux2 2);
          term2 = poly_mul same_sign (col COL_AUX0)
      in poly_add term1 term2)"

text \<open>\<open>aux0\<close>, \<open>aux1\<close> and \<open>aux2\<close> are bits.\<close>

definition aux_bits_poly :: "'a::comm_ring_1 col_fn \<Rightarrow> 'a list" where
  "aux_bits_poly col = poly_add (binary_poly col COL_AUX0) (poly_add (binary_poly col COL_AUX1) (binary_poly col COL_AUX2))"

section \<open>Pairs of selector and body\<close>

definition seq_sel_poly :: "'a::comm_ring_1 col_fn \<Rightarrow> 'a list" where
  "seq_sel_poly col = foldl (\<lambda>seq si. poly_add seq (col si)) (col COL_SEL_R_ALU_ADD) seq_selectors"

definition pairs_branch :: "'a::comm_ring_1 col_fn \<Rightarrow> ('a list \<times> 'a list) list" where
  "pairs_branch col =
     [(seq_sel_poly col, poly_sub (col COL_NEXT_PC) (poly_add (col COL_PC) (col COL_INSN_LEN))),
      (col COL_SEL_R_ALU_ADD,
        poly_sub (poly_add (col COL_RS1_VAL) (col COL_RS2_VAL))
          (poly_add (poly_scalar_mul (col COL_AUX0) two_pow_64) (col COL_RD_VAL_AFTER))),
      (col COL_SEL_R_ALU_SUB,
        poly_sub (poly_add (col COL_RD_VAL_AFTER) (col COL_RS2_VAL))
          (poly_add (col COL_RS1_VAL) (poly_scalar_mul (col COL_AUX0) two_pow_64))),
      (col COL_SEL_I_ALU_ADD,
        poly_sub (poly_add (col COL_RS1_VAL) (col COL_IMMEDIATE))
          (poly_add (poly_scalar_mul (col COL_AUX0) two_pow_64) (col COL_RD_VAL_AFTER))),
      (col COL_SEL_BEQ,
        poly_add (target_check_poly col)
          (poly_add (poly_mul (diff_not_taken_poly col) (col COL_AUX1))
            (poly_add (poly_mul (diff_taken_poly col) (one_m_poly col COL_AUX1))
              (poly_add (poly_mul (one_m_poly col COL_AUX1) (rs_diff_poly col)) (binary_poly col COL_AUX1))))),
      (col COL_SEL_BNE,
        poly_add (target_check_poly col)
          (poly_add (poly_mul (diff_not_taken_poly col) (one_m_poly col COL_AUX1))
            (poly_add (poly_mul (diff_taken_poly col) (col COL_AUX1))
              (poly_add (poly_mul (one_m_poly col COL_AUX1) (rs_diff_poly col)) (binary_poly col COL_AUX1))))),
      (col COL_SEL_BLTU,
        poly_add (target_check_poly col)
          (poly_add (poly_mul (diff_not_taken_poly col) (one_m_poly col COL_AUX1))
            (poly_add (poly_mul (diff_taken_poly col) (col COL_AUX1)) (binary_poly col COL_AUX1)))),
      (col COL_SEL_BGEU,
        poly_add (target_check_poly col)
          (poly_add (poly_mul (diff_not_taken_poly col) (col COL_AUX1))
            (poly_add (poly_mul (diff_taken_poly col) (one_m_poly col COL_AUX1)) (binary_poly col COL_AUX1)))),
      (col COL_SEL_BLT,
        poly_add (target_check_poly col)
          (poly_add (poly_mul (diff_not_taken_poly col) (poly_sub one_poly (signed_lt_poly col)))
            (poly_add (poly_mul (diff_taken_poly col) (signed_lt_poly col)) (aux_bits_poly col)))),
      (col COL_SEL_BGE,
        poly_add (target_check_poly col)
          (poly_add (poly_mul (diff_not_taken_poly col) (signed_lt_poly col))
            (poly_add (poly_mul (diff_taken_poly col) (poly_sub one_poly (signed_lt_poly col))) (aux_bits_poly col))))]"

definition pairs_jump :: "'a::comm_ring_1 col_fn \<Rightarrow> ('a list \<times> 'a list) list" where
  "pairs_jump col =
     [(col COL_SEL_JAL,
        poly_add (poly_sub (col COL_RD_VAL_AFTER) (not_taken_poly col)) (poly_sub (col COL_NEXT_PC) (taken_poly col))),
      (col COL_SEL_JALR,
        poly_add (poly_sub (col COL_RD_VAL_AFTER) (not_taken_poly col))
          (poly_add (poly_sub (col COL_NEXT_PC) (poly_sub (poly_add (col COL_RS1_VAL) (col COL_IMMEDIATE)) (col COL_AUX1)))
            (binary_poly col COL_AUX1))),
      (col COL_SEL_LUI, poly_sub (col COL_RD_VAL_AFTER) (col COL_IMMEDIATE)),
      (col COL_SEL_AUIPC, poly_sub (col COL_RD_VAL_AFTER) (poly_add (col COL_PC) (col COL_IMMEDIATE))),
      (poly_add (col COL_SEL_LOAD) (col COL_SEL_STORE),
        poly_sub (col COL_MEM_ADDR) (poly_add (col COL_RS1_VAL) (col COL_IMMEDIATE)))]"

text \<open>The body of the 32-bit additions: \<open>sum - aux0 * 2^32 - rd + aux1 * (2^64 - 2^32)\<close>, and \<open>aux1\<close> is a bit.\<close>

definition w_body :: "'a::comm_ring_1 col_fn \<Rightarrow> 'a list \<Rightarrow> nat \<Rightarrow> 'a list" where
  "w_body col full result =
     (let upper = poly_scalar_mul (col COL_AUX0) two_32;
          sign_term = poly_scalar_mul (col COL_AUX1) (two_pow_64 - two_32);
          c1 = poly_add (poly_sub (poly_sub full upper) (col result)) sign_term
      in poly_add c1 (binary_poly col COL_AUX1))"

definition pairs_alu :: "'a::comm_ring_1 col_fn \<Rightarrow> ('a list \<times> 'a list) list" where
  "pairs_alu col =
     [(col COL_SEL_R_ALU_ADD, binary_poly col COL_AUX0),
      (col COL_SEL_R_ALU_SUB, binary_poly col COL_AUX0),
      (col COL_SEL_I_ALU_ADD, binary_poly col COL_AUX0),
      (col COL_SEL_W_ALU_ADD, w_body col (poly_add (col COL_RS1_VAL) (col COL_RS2_VAL)) COL_RD_VAL_AFTER),
      (col COL_SEL_W_ALU_SUB, w_body col (poly_sub (col COL_RS1_VAL) (col COL_RS2_VAL)) COL_RD_VAL_AFTER),
      (col COL_SEL_W_ALU_ADDI, w_body col (poly_add (col COL_RS1_VAL) (col COL_IMMEDIATE)) COL_RD_VAL_AFTER),
      (col COL_SEL_MUL,
        poly_sub (poly_mul (col COL_RS1_VAL) (col COL_RS2_VAL))
          (poly_add (poly_scalar_mul (col COL_AUX0) two_pow_64) (col COL_RD_VAL_AFTER))),
      (col COL_SEL_DIV,
        poly_sub (poly_add (poly_mul (col COL_RD_VAL_AFTER) (col COL_RS2_VAL)) (col COL_AUX0)) (col COL_RS1_VAL)),
      (col COL_SEL_REM,
        poly_sub (poly_add (poly_mul (col COL_AUX0) (col COL_RS2_VAL)) (col COL_RD_VAL_AFTER)) (col COL_RS1_VAL)),
      (col COL_SEL_R_AND, poly_sub (col COL_RD_VAL_AFTER) (col COL_AUX0)),
      (col COL_SEL_R_OR,
        poly_sub (col COL_RD_VAL_AFTER) (poly_sub (poly_add (col COL_RS1_VAL) (col COL_RS2_VAL)) (col COL_AUX0))),
      (col COL_SEL_R_XOR,
        poly_sub (col COL_RD_VAL_AFTER)
          (poly_sub (poly_add (col COL_RS1_VAL) (col COL_RS2_VAL)) (poly_scalar_mul (col COL_AUX0) 2))),
      (col COL_SEL_I_AND, poly_sub (col COL_RD_VAL_AFTER) (col COL_AUX0)),
      (col COL_SEL_I_OR,
        poly_sub (col COL_RD_VAL_AFTER) (poly_sub (poly_add (col COL_RS1_VAL) (col COL_IMMEDIATE)) (col COL_AUX0))),
      (col COL_SEL_I_XOR,
        poly_sub (col COL_RD_VAL_AFTER)
          (poly_sub (poly_add (col COL_RS1_VAL) (col COL_IMMEDIATE)) (poly_scalar_mul (col COL_AUX0) 2)))]"

text \<open>The shift bodies, for the modulus \<open>2^64\<close> or \<open>2^32\<close>.\<close>

definition sll_body :: "'a::comm_ring_1 col_fn \<Rightarrow> 'a \<Rightarrow> 'a list" where
  "sll_body col modulus =
     poly_sub (poly_mul (col COL_RS1_VAL) (col COL_AUX0))
       (poly_add (poly_scalar_mul (col COL_AUX1) modulus) (col COL_RD_VAL_AFTER))"

definition srl_body :: "'a::comm_ring_1 col_fn \<Rightarrow> 'a list" where
  "srl_body col =
     poly_sub (poly_add (poly_mul (col COL_RD_VAL_AFTER) (col COL_AUX0)) (col COL_AUX1)) (col COL_RS1_VAL)"

definition sra_body :: "'a::comm_ring_1 col_fn \<Rightarrow> 'a \<Rightarrow> 'a list" where
  "sra_body col modulus =
     poly_sub (poly_add (poly_mul (col COL_RD_VAL_AFTER) (col COL_AUX0)) (col COL_AUX1))
       (poly_add (col COL_RS1_VAL) (poly_scalar_mul (col COL_AUX2) modulus))"

definition compare_body :: "'a::comm_ring_1 col_fn \<Rightarrow> 'a list" where
  "compare_body col = poly_add (poly_sub (col COL_RD_VAL_AFTER) (signed_lt_poly col)) (aux_bits_poly col)"

definition pairs_shift :: "'a::comm_ring_1 col_fn \<Rightarrow> ('a list \<times> 'a list) list" where
  "pairs_shift col =
     [(col COL_SEL_R_SLL, sll_body col two_pow_64),
      (col COL_SEL_R_SRL, srl_body col),
      (col COL_SEL_R_SRA, sra_body col two_pow_64),
      (col COL_SEL_I_SLL, sll_body col two_pow_64),
      (col COL_SEL_I_SRL, srl_body col),
      (col COL_SEL_I_SRA, sra_body col two_pow_64),
      (col COL_SEL_W_SLL, sll_body col two_32),
      (col COL_SEL_W_SRL, srl_body col),
      (col COL_SEL_W_SRA, sra_body col two_32),
      (col COL_SEL_R_COMPARE, compare_body col),
      (col COL_SEL_I_COMPARE, compare_body col),
      (col COL_SEL_CSRRC, poly_add (poly_sub (col COL_AUX0) (col COL_RD_VAL_AFTER)) (col COL_AUX1)),
      (col COL_SEL_LR, poly_sub (col COL_RD_VAL_AFTER) (col COL_MEM_VAL)),
      (col COL_SEL_SC, poly_add (binary_poly col COL_AUX0) (poly_mul (col COL_AUX0) (col COL_RD_VAL_AFTER))),
      (col COL_SEL_MULHU,
        poly_sub (poly_mul (col COL_RS1_VAL) (col COL_RS2_VAL))
          (poly_add (poly_scalar_mul (col COL_RD_VAL_AFTER) two_pow_64) (col COL_AUX0))),
      (col COL_SEL_CSRRW, poly_sub (col COL_AUX0) (col COL_RS1_VAL)),
      (col COL_SEL_CSRRW_I, poly_sub (col COL_AUX0) (col COL_IMMEDIATE)),
      (col COL_SEL_CSRRS,
        poly_add (poly_sub (poly_sub (col COL_AUX0) (col COL_RD_VAL_AFTER)) (col COL_RS1_VAL)) (col COL_AUX1)),
      (col COL_SEL_CSRRS_I,
        poly_add (poly_sub (poly_sub (col COL_AUX0) (col COL_RD_VAL_AFTER)) (col COL_IMMEDIATE)) (col COL_AUX1))]"

definition mulh_body :: "'a::comm_ring_1 col_fn \<Rightarrow> 'a list" where
  "mulh_body col =
     (let two_128 = poly_scalar_mul one_poly (two_pow_64 * two_pow_64);
          product = poly_mul (col COL_RS1_VAL) (col COL_RS2_VAL);
          sa_rs2 = poly_mul (col COL_AUX1) (poly_scalar_mul (col COL_RS2_VAL) two_pow_64);
          sb_rs1 = poly_mul (col COL_AUX2) (poly_scalar_mul (col COL_RS1_VAL) two_pow_64);
          sa_sb_2128 = poly_mul (poly_mul (col COL_AUX1) (col COL_AUX2)) two_128;
          hi_term = poly_scalar_mul (col COL_RD_VAL_AFTER) two_pow_64;
          main = poly_sub (poly_sub (poly_add (poly_sub product sa_rs2) sa_sb_2128) sb_rs1) (poly_add hi_term (col COL_AUX0))
      in poly_add main (poly_add (binary_poly col COL_AUX1) (binary_poly col COL_AUX2)))"

definition mulhsu_body :: "'a::comm_ring_1 col_fn \<Rightarrow> 'a list" where
  "mulhsu_body col =
     (let product = poly_mul (col COL_RS1_VAL) (col COL_RS2_VAL);
          sa_rs2 = poly_mul (col COL_AUX1) (poly_scalar_mul (col COL_RS2_VAL) two_pow_64);
          hi_term = poly_scalar_mul (col COL_RD_VAL_AFTER) two_pow_64;
          main = poly_sub (poly_sub product sa_rs2) (poly_add hi_term (col COL_AUX0))
      in poly_add main (binary_poly col COL_AUX1))"

definition amo_add_body :: "'a::comm_ring_1 col_fn \<Rightarrow> 'a list" where
  "amo_add_body col =
     (let one_m_aux2 = one_m_poly col COL_AUX2;
          modulus = poly_add (poly_scalar_mul (col COL_AUX2) two_32) (poly_scalar_mul one_m_aux2 two_pow_64);
          correction_term = poly_mul (col COL_AUX0) modulus;
          sum = poly_add (col COL_RD_VAL_AFTER) (col COL_RS2_VAL);
          sign_corr = poly_mul (poly_mul (col COL_AUX1) (col COL_AUX2)) (poly_scalar_mul one_poly (two_pow_64 - two_32));
          c1 = poly_add (poly_sub (poly_sub sum (col COL_MEM_VAL)) correction_term) sign_corr;
          a0_d_bin = poly_mul one_m_aux2 (binary_poly col COL_AUX0)
      in poly_add c1 (poly_add (binary_poly col COL_AUX1) (poly_add (binary_poly col COL_AUX2) a0_d_bin)))"

text \<open>The bodies of the bitwise and the unsigned atomics share \<open>aux1 * 2^32\<close>, those of the signed atomics the bits.\<close>

definition bitwise_body :: "'a::comm_ring_1 col_fn \<Rightarrow> 'a list \<Rightarrow> 'a list" where
  "bitwise_body col witness =
     poly_sub (poly_sub (poly_add (col COL_MEM_VAL) witness) (col COL_RD_VAL_AFTER))
       (poly_add (col COL_RS2_VAL) (poly_scalar_mul (col COL_AUX1) two_32))"

definition pairs_amo :: "'a::comm_ring_1 col_fn \<Rightarrow> ('a list \<times> 'a list) list" where
  "pairs_amo col =
     (let rd_m_rs2 = poly_sub (col COL_RD_VAL_AFTER) (col COL_RS2_VAL);
          selection = poly_mul (col COL_AUX0) rd_m_rs2;
          sel_term = poly_mul (signed_lt_poly col) rd_m_rs2;
          correction = poly_scalar_mul (col COL_AUX1) two_32
      in
     [(col COL_SEL_MULH, mulh_body col),
      (col COL_SEL_MULHSU, mulhsu_body col),
      (col COL_SEL_MULW, w_body col (poly_mul (col COL_RS1_VAL) (col COL_RS2_VAL)) COL_RD_VAL_AFTER),
      (col COL_SEL_DIVW,
        poly_sub (poly_sub (poly_add (poly_mul (col COL_RD_VAL_AFTER) (col COL_RS2_VAL)) (col COL_AUX0)) (col COL_RS1_VAL)) correction),
      (col COL_SEL_REMW,
        poly_sub (poly_sub (poly_add (poly_mul (col COL_AUX0) (col COL_RS2_VAL)) (col COL_RD_VAL_AFTER)) (col COL_RS1_VAL)) correction),
      (col COL_SEL_AMO_SWAP, w_body col (col COL_RS2_VAL) COL_MEM_VAL),
      (col COL_SEL_AMO_ADD, amo_add_body col),
      (col COL_SEL_AMO_BITWISE, bitwise_body col (col COL_AUX0)),
      (col COL_SEL_AMO_OR, bitwise_body col (col COL_AUX0)),
      (col COL_SEL_AMO_XOR, bitwise_body col (poly_scalar_mul (col COL_AUX0) 2)),
      (col COL_SEL_AMO_COMPARE,
        poly_add (poly_sub (poly_sub (poly_sub (col COL_MEM_VAL) (col COL_RS2_VAL)) selection) correction) (binary_poly col COL_AUX0)),
      (col COL_SEL_AMO_MAXU,
        poly_add (poly_sub (poly_add (poly_sub (col COL_MEM_VAL) (col COL_RD_VAL_AFTER)) selection) correction) (binary_poly col COL_AUX0)),
      (col COL_SEL_AMO_MINS,
        poly_add (poly_sub (poly_sub (col COL_MEM_VAL) (col COL_RS2_VAL)) sel_term) (aux_bits_poly col)),
      (col COL_SEL_AMO_MAXS,
        poly_add (poly_add (poly_sub (col COL_MEM_VAL) (col COL_RD_VAL_AFTER)) sel_term) (aux_bits_poly col))])"

section \<open>The constraint polynomial\<close>

definition build_constraint_polynomial :: "bool \<Rightarrow> 'a::comm_ring_1 list list \<Rightarrow> 'a \<Rightarrow> 'a list option" where
  "build_constraint_polynomial use_extended column_coeffs alpha =
     (if \<not> use_extended then Some [0]
      else if length column_coeffs < 83 then None
      else
        let col = (\<lambda>idx. column_coeffs ! idx);
            pairs = pairs_branch col @ pairs_jump col @ pairs_alu col @ pairs_shift col @ pairs_amo col;
            gated_results = map (\<lambda>(sel, body). poly_mul sel body) pairs;
            acc = fold (add_poly_term alpha) gated_results ([0], 1);
            binary_results = map (\<lambda>si. poly_mul (col si) (poly_sub (col si) one_poly)) selector_column_indices;
            (c, ap) = fold (add_poly_term alpha) binary_results acc;
            sel_sum = foldl (\<lambda>s si. poly_add s (col si)) [0] selector_column_indices;
            sel_sum = (if sel_sum = [] then sel_sum else sel_sum[0 := sel_sum ! 0 - 1])
        in Some (poly_add c (poly_scalar_mul sel_sum ap)))"

section \<open>Cross-row constraint\<close>

definition shifted_column_indices :: "bool \<Rightarrow> nat list" where
  "shifted_column_indices use_extended = (if use_extended then [COL_PC] else [])"

definition evaluate_shifted_at_point ::
  "bool \<Rightarrow> 'a::comm_ring_1 list \<Rightarrow> 'a list \<Rightarrow> 'a \<Rightarrow> 'a \<Rightarrow> 'a \<Rightarrow> nat \<Rightarrow> 'a" where
  "evaluate_shifted_at_point use_extended cs shifted_evals z omega_n_minus_1 alpha alpha_offset =
     (if \<not> use_extended \<or> shifted_evals = [] then 0
      else
        let ap = alpha_power alpha alpha_offset;
            body = shifted_evals ! 0 - cs ! COL_NEXT_PC;
            exclusion = z - omega_n_minus_1
        in ap * body * exclusion)"

text \<open>A domain of size zero would underflow in \<open>n - 1\<close>; domains are powers of two.\<close>

definition build_shifted_constraint_polynomial ::
  "bool \<Rightarrow> 'a::comm_ring_1 list list \<Rightarrow> 'a \<Rightarrow> nat \<Rightarrow> 'a \<Rightarrow> nat \<Rightarrow> 'a list" where
  "build_shifted_constraint_polynomial use_extended column_coeffs alpha domain_size omega alpha_offset =
     (if \<not> use_extended then [0]
      else
        let ap = alpha_power alpha alpha_offset;
            pc_shifted = poly_shift (column_coeffs ! COL_PC) omega;
            body = poly_sub pc_shifted (column_coeffs ! COL_NEXT_PC);
            omega_n_minus_1 = pow_loop 1 omega (domain_size - 1);
            body_excluded = poly_mul_linear body omega_n_minus_1
        in poly_scalar_mul body_excluded ap)"

section \<open>Prover and verifier agree\<close>

lemma eval_foldl_poly_add:
  "eval_poly_at (foldl (\<lambda>s si. poly_add s (col si)) p xs) z = foldl (\<lambda>s si. s + eval_poly_at (col si) z) (eval_poly_at p z) xs"
  by (induction xs arbitrary: p) simp_all

lemma length_foldl_poly_add: "length p \<le> length (foldl (\<lambda>s si. poly_add s (col si)) p xs)"
proof (induction xs arbitrary: p)
  case (Cons x xs)
  from Cons.IH [of "poly_add p (col x)"] show ?case by simp
qed simp

lemma eval_update_head: "p \<noteq> [] \<Longrightarrow> eval_poly_at (p[0 := p ! 0 - 1]) z = eval_poly_at p z - 1"
  by (cases p) (simp_all add: eval_Cons)

lemmas poly_body_defs = taken_poly_def not_taken_poly_def diff_taken_poly_def diff_not_taken_poly_def target_check_poly_def
  one_m_poly_def binary_poly_def rs_diff_poly_def aux_bits_poly_def w_body_def sll_body_def srl_body_def
  sra_body_def compare_body_def mulh_body_def mulhsu_body_def amo_add_body_def bitwise_body_def Let_def

text \<open>The row of column values at a point.\<close>

definition row_at :: "'a::idom list list \<Rightarrow> 'a \<Rightarrow> 'a list" where
  "row_at cols z = map (\<lambda>p. eval_poly_at p z) cols"

definition gated_values :: "('a::idom list \<times> 'a list) list \<Rightarrow> 'a \<Rightarrow> 'a list" where
  "gated_values pairs z = map (\<lambda>(sel, body). eval_poly_at sel z * eval_poly_at body z) pairs"

lemma row_at_nth: "length cols = 83 \<Longrightarrow> k < 83 \<Longrightarrow> row_at cols z ! k = eval_poly_at (cols ! k) z"
  by (simp add: row_at_def)

lemma row_at_col: "length cols = 83 \<Longrightarrow> k < 83 \<Longrightarrow> col_or_zero (row_at cols z) k = eval_poly_at (cols ! k) z"
  by (simp add: row_at_def col_or_zero_def)

lemma seq_sel_eval:
  assumes "length cols = 83"
  shows "eval_poly_at (seq_sel_poly (\<lambda>k. cols ! k)) z = seq_sel (row_at cols z)"
proof -
  have "list_all (\<lambda>k. k < 83) seq_selectors" by (simp add: seq_selectors_def)
  then have "foldl (\<lambda>s si. s + eval_poly_at (cols ! si) z) a seq_selectors = foldl (\<lambda>s si. s + row_at cols z ! si) a seq_selectors" for a
    using assms by (intro foldl_cong) (auto simp: row_at_nth list_all_iff)
  then show ?thesis using assms by (simp add: seq_sel_poly_def eval_foldl_poly_add seq_sel_def row_at_nth)
qed

lemmas row_eval = row_at_nth row_at_col seq_sel_eval

lemma eval_signed_lt_poly [simp]:
  "eval_poly_at (signed_lt_poly col) z =
     signed_lt_of (eval_poly_at (col COL_AUX0) z) (eval_poly_at (col COL_AUX1) z) (eval_poly_at (col COL_AUX2) z)"
  for z :: "'a::idom"
  by (simp add: signed_lt_poly_def signed_lt_of_def one_m_poly_def Let_def mult.commute)

lemma gated_branch:
  "length cols = 83 \<Longrightarrow> gated_values (pairs_branch (\<lambda>k. cols ! k)) z @ gated_values (pairs_jump (\<lambda>k. cols ! k)) z =
     point_constraints_flow (row_at cols z)"
  unfolding gated_values_def pairs_branch_def pairs_jump_def point_constraints_flow_def
  by (simp add: row_eval poly_body_defs evaluate_sequential_pc_raw_def evaluate_alu_r_add_main_raw_def
    evaluate_alu_r_sub_main_raw_def evaluate_alu_i_add_main_raw_def evaluate_beq_condition_raw_def evaluate_bne_condition_raw_def
    evaluate_bltu_condition_raw_def evaluate_bgeu_condition_raw_def evaluate_blt_condition_raw_def evaluate_bge_condition_raw_def
    evaluate_signed_branch_condition_def evaluate_jal_raw_def evaluate_jalr_raw_def evaluate_lui_raw_def evaluate_auipc_raw_def
    evaluate_memory_ops_raw_def ac_simps)

lemma gated_alu:
  "length cols = 83 \<Longrightarrow> gated_values (pairs_alu (\<lambda>k. cols ! k)) z = point_constraints_alu (row_at cols z)"
  unfolding gated_values_def pairs_alu_def point_constraints_alu_def
  by (simp add: row_eval poly_body_defs evaluate_aux0_binary_raw_def evaluate_alu_w_addw_raw_def evaluate_alu_w_subw_raw_def
    evaluate_alu_w_addiw_raw_def evaluate_mul_raw_def evaluate_div_raw_def evaluate_rem_raw_def evaluate_r_and_raw_def
    evaluate_r_or_raw_def evaluate_r_xor_raw_def evaluate_i_and_raw_def evaluate_i_or_raw_def evaluate_i_xor_raw_def mult.commute)

lemma gated_shift:
  "length cols = 83 \<Longrightarrow> gated_values (pairs_shift (\<lambda>k. cols ! k)) z =
     point_constraints_shift (row_at cols z) @ take 4 (point_constraints_wide (row_at cols z))"
  unfolding gated_values_def pairs_shift_def point_constraints_shift_def point_constraints_wide_def
  by (simp add: row_eval poly_body_defs evaluate_sll_raw_def evaluate_srl_raw_def evaluate_sra_raw_def evaluate_w_sll_raw_def
    evaluate_w_srl_raw_def evaluate_w_sra_raw_def evaluate_compare_raw_def evaluate_csrrc_raw_def evaluate_lr_raw_def
    evaluate_sc_raw_def evaluate_mulhu_raw_def evaluate_csrrw_raw_def evaluate_csrrw_i_raw_def evaluate_csrrs_raw_def
    evaluate_csrrs_i_raw_def add.assoc)

lemma gated_amo:
  "length cols = 83 \<Longrightarrow> gated_values (pairs_amo (\<lambda>k. cols ! k)) z = drop 4 (point_constraints_wide (row_at cols z))"
  unfolding gated_values_def pairs_amo_def point_constraints_wide_def
  by (simp add: row_eval poly_body_defs evaluate_mulh_raw_def evaluate_mulhsu_raw_def evaluate_mulw_raw_def evaluate_divw_raw_def
    evaluate_remw_raw_def evaluate_amo_swap_raw_def evaluate_amo_add_raw_def evaluate_amo_and_raw_def evaluate_amo_or_raw_def
    evaluate_amo_xor_raw_def evaluate_amo_minu_raw_def evaluate_amo_maxu_raw_def evaluate_amo_mins_raw_def
    evaluate_amo_maxs_raw_def algebra_simps)

lemma selector_indices_less: "si \<in> set selector_column_indices \<Longrightarrow> si < 83"
  by (auto simp: selector_column_indices_def)

lemma build_eval:
  assumes "length cols = 83"
  shows "\<exists>p. build_constraint_polynomial True cols alpha = Some p \<and>
    (\<forall>z. eval_poly_at p z = eval_poly_at (constraint_values (row_at cols z)) alpha)"
proof -
  let ?col = "\<lambda>k. cols ! k"
  define pairs where "pairs = pairs_branch ?col @ pairs_jump ?col @ pairs_alu ?col @ pairs_shift ?col @ pairs_amo ?col"
  define gated where "gated = map (\<lambda>(sel, body). poly_mul sel body) pairs"
  define binary where "binary = map (\<lambda>si. poly_mul (?col si) (poly_sub (?col si) one_poly)) selector_column_indices"
  define total where "total = foldl (\<lambda>s si. poly_add s (?col si)) [0] selector_column_indices"
  obtain c ap where c: "fold (add_poly_term alpha) (gated @ binary) ([0], 1) = (c, ap)" by fastforce
  have tn: "total \<noteq> []" using length_foldl_poly_add [of "[0]" ?col selector_column_indices] by (auto simp: total_def)
  have b: "build_constraint_polynomial True cols alpha = Some (poly_add c (poly_scalar_mul (total[0 := total ! 0 - 1]) ap))"
    using assms c tn
    by (simp add: build_constraint_polynomial_def Let_def gated_def binary_def total_def pairs_def del: fold_append_concat_rev split: prod.splits)
  have "eval_poly_at (poly_add c (poly_scalar_mul (total[0 := total ! 0 - 1]) ap)) z =
      eval_poly_at (constraint_values (row_at cols z)) alpha" for z
  proof -
    have g: "map (\<lambda>p. eval_poly_at p z) gated = point_constraints (row_at cols z)"
    proof -
      have "map (\<lambda>p. eval_poly_at p z) gated = gated_values pairs z"
        by (simp add: gated_def gated_values_def comp_def split_beta)
      also have "\<dots> = (gated_values (pairs_branch ?col) z @ gated_values (pairs_jump ?col) z) @
          gated_values (pairs_alu ?col) z @ gated_values (pairs_shift ?col) z @ gated_values (pairs_amo ?col) z"
        by (simp add: pairs_def gated_values_def)
      also have "\<dots> = point_constraints (row_at cols z)"
        unfolding gated_branch [OF assms] gated_alu [OF assms] gated_shift [OF assms] gated_amo [OF assms]
        by (simp add: point_constraints_def)
      finally show ?thesis .
    qed
    have s: "map (\<lambda>si. eval_poly_at (?col si) z) selector_column_indices = map (\<lambda>si. row_at cols z ! si) selector_column_indices"
      using assms selector_indices_less by (auto simp: row_at_nth)
    have bi: "map (\<lambda>p. eval_poly_at p z) binary = map (\<lambda>si. row_at cols z ! si * (row_at cols z ! si - 1)) selector_column_indices"
      using assms selector_indices_less by (auto simp: binary_def row_at_nth)
    have "eval_poly_at total z = sum_list (map (\<lambda>si. row_at cols z ! si) selector_column_indices)"
      by (simp add: total_def eval_foldl_poly_add foldl_add s)
    moreover have "length (point_constraints (row_at cols z)) = length gated" "length binary = length selector_column_indices"
      by (simp_all add: g [symmetric] binary_def)
    ultimately show ?thesis
      using eval_add_poly_term [OF c, of z] tn
      by (simp add: g bi constraint_values_def eval_append eval_update_head power_add algebra_simps)
  qed
  with b show ?thesis by blast
qed

text \<open>
  C15. Prover and verifier check the same constraints. For all 83 column polynomials and every challenge
  the prover's constraint polynomial exists, and at every point it takes the value that the verifier
  computes from the column evaluations there; the same holds for the cross-row constraint, which
  compares the pc at the next domain point. That value is the polynomial in the challenge whose 128
  coefficients are the single constraints.
\<close>

theorem constraint_polynomial_evaluates:
  fixes cols :: "'a::idom list list"
  assumes "length cols = 83"
  shows "(\<exists>p. build_constraint_polynomial True cols alpha = Some p \<and>
      (\<forall>z. evaluate_at_point_extended (row_at cols z) alpha = Some (eval_poly_at p z) \<and>
         eval_poly_at p z = eval_poly_at (constraint_values (row_at cols z)) alpha)) \<and>
    eval_poly_at (build_shifted_constraint_polynomial True cols alpha n omega k) z =
      evaluate_shifted_at_point True (row_at cols z) [row_at cols (omega * z) ! COL_PC] z (omega ^ (n - 1)) alpha k"
proof
  show "\<exists>p. build_constraint_polynomial True cols alpha = Some p \<and>
      (\<forall>z. evaluate_at_point_extended (row_at cols z) alpha = Some (eval_poly_at p z) \<and>
         eval_poly_at p z = eval_poly_at (constraint_values (row_at cols z)) alpha)"
    using build_eval [OF assms, of alpha] assms by (auto simp: evaluate_at_point_values row_at_def)
  show "eval_poly_at (build_shifted_constraint_polynomial True cols alpha n omega k) z =
      evaluate_shifted_at_point True (row_at cols z) [row_at cols (omega * z) ! COL_PC] z (omega ^ (n - 1)) alpha k"
    using assms
    by (simp add: build_shifted_constraint_polynomial_def evaluate_shifted_at_point_def Let_def row_at_nth pow_loop_eq algebra_simps)
qed

theorem constraint_polynomial_evaluates_witness:
  "\<exists>p. build_constraint_polynomial True (replicate 83 [1, 2 :: int]) 3 = Some p \<and>
    evaluate_at_point_extended (row_at (replicate 83 [1, 2]) 5) 3 = Some (eval_poly_at p 5)"
proof -
  have "length (replicate 83 [1, 2 :: int]) = 83" by simp
  from constraint_polynomial_evaluates [OF this, of 3] show ?thesis by blast
qed

end
