(* ===== verification/Zkp_Bytes.thy ===== *)
theory Zkp_Bytes
  imports Rv_Prelude
begin

text \<open>
  Vocabulary shared by the encoders and decoders of \<open>crates/zkp\<close>: slices that panic out of range,
  \<open>usize\<close> addition, big-endian byte strings and their minimal form, results that can also panic.

  Lengths and indices are natural numbers; where the code adds two \<open>usize\<close> values that come from the
  input, the addition is \<open>usize_add\<close>, which wraps at 64 bits. A decoder returns \<open>None\<close> when it panics
  or does not return, \<open>Some (Inl e)\<close> for \<open>Err(e)\<close> and \<open>Some (Inr x)\<close> for \<open>Ok(x)\<close>.
\<close>

section \<open>Results\<close>

type_synonym ('e, 'a) outcome = "('e + 'a) option"

abbreviation Ok :: "'a \<Rightarrow> ('e, 'a) outcome" where
  "Ok x \<equiv> Some (Inr x)"

abbreviation Err :: "'e \<Rightarrow> ('e, 'a) outcome" where
  "Err e \<equiv> Some (Inl e)"

text \<open>\<open>let x = r?; k(x)\<close>.\<close>

definition try_bind :: "('e, 'a) outcome \<Rightarrow> ('a \<Rightarrow> ('e, 'b) outcome) \<Rightarrow> ('e, 'b) outcome" where
  "try_bind r k = (case r of None \<Rightarrow> None | Some (Inl e) \<Rightarrow> Some (Inl e) | Some (Inr x) \<Rightarrow> k x)"

lemma try_bind_simps [simp]:
  "try_bind None k = None" "try_bind (Err e) k = Err e" "try_bind (Ok x) k = k x"
  by (simp_all add: try_bind_def)

lemma try_bind_cong [fundef_cong]:
  "r = r' \<Longrightarrow> (\<And>x. r' = Ok x \<Longrightarrow> k x = k' x) \<Longrightarrow> try_bind r k = try_bind r' k'"
  by (simp add: try_bind_def split: option.split sum.split)

lemma try_bind_OkE:
  assumes "try_bind r k = Ok y"
  obtains x where "r = Ok x" and "k x = Ok y"
  using assms by (auto simp: try_bind_def split: option.splits sum.splits)

lemma try_bind_NoneE:
  assumes "try_bind r k = None"
  obtains "r = None" | x where "r = Ok x" and "k x = None"
  using assms by (auto simp: try_bind_def split: option.splits sum.splits)

lemma try_bind_eq_Ok: "try_bind r k = Ok y \<longleftrightarrow> (\<exists>x. r = Ok x \<and> k x = Ok y)"
  by (auto simp: try_bind_def split: option.splits sum.splits)

lemma try_bind_eq_None: "try_bind r k = None \<longleftrightarrow> r = None \<or> (\<exists>x. r = Ok x \<and> k x = None)"
  by (auto simp: try_bind_def split: option.splits sum.splits)

section \<open>Slices and lengths\<close>

text \<open>\<open>&xs[a..b]\<close>: the slice panics unless \<open>a <= b <= xs.len()\<close>.\<close>

definition slice :: "nat \<Rightarrow> nat \<Rightarrow> 'a list \<Rightarrow> 'a list option" where
  "slice a b xs = (if a \<le> b \<and> b \<le> length xs then Some (take (b - a) (drop a xs)) else None)"

lemma slice_SomeD: "slice a b xs = Some ys \<Longrightarrow> a \<le> b \<and> b \<le> length xs \<and> ys = take (b - a) (drop a xs) \<and> length ys = b - a"
  by (auto simp: slice_def split: if_splits)

lemma slice_eq_None: "slice a b xs = None \<longleftrightarrow> \<not> (a \<le> b \<and> b \<le> length xs)"
  by (simp add: slice_def)

text \<open>Addition of \<open>usize\<close> values in the release profile.\<close>

definition usize_add :: "nat \<Rightarrow> nat \<Rightarrow> nat" where
  "usize_add a b = (a + b) mod 2 ^ 64"

lemma usize_add_exact: "a + b < 2 ^ 64 \<Longrightarrow> usize_add a b = a + b"
  by (simp add: usize_add_def)

section \<open>Big-endian byte strings\<close>

text \<open>The value of a big-endian byte string, and \<open>u64::to_be_bytes\<close>.\<close>

definition be_nat :: "u8 list \<Rightarrow> nat" where
  "be_nat bs = foldl (\<lambda>n b. 256 * n + unat b) 0 bs"

definition to_be_bytes :: "u64 \<Rightarrow> u8 list" where
  "to_be_bytes n = rev (to_le_bytes 8 n)"

lemma be_nat_Nil [simp]: "be_nat [] = 0"
  by (simp add: be_nat_def)

lemma be_nat_snoc [simp]: "be_nat (bs @ [b]) = 256 * be_nat bs + unat b"
  by (simp add: be_nat_def)

lemma unat_byte_less: "unat (b :: u8) < 256"
  using unsigned_less [of b, where ?'a = nat] by simp

lemma be_nat_less: "be_nat bs < 256 ^ length bs"
proof (induction bs rule: rev_induct)
  case (snoc b bs)
  then show ?case using unat_byte_less [of b] by simp
qed simp

lemma be_nat_append: "be_nat (xs @ ys) = be_nat xs * 256 ^ length ys + be_nat ys"
  by (induction ys rule: rev_induct) (simp_all del: append_assoc add: append_assoc [symmetric] algebra_simps)

lemma be_nat_Cons: "be_nat (b # bs) = unat b * 256 ^ length bs + be_nat bs"
  using be_nat_append [of "[b]" bs] by (simp add: be_nat_def)

lemma be_nat_zeros: "be_nat (replicate n 0) = 0"
  by (induction n) (simp_all add: be_nat_Cons)

lemma be_nat_inj: "length xs = length ys \<Longrightarrow> be_nat xs = be_nat ys \<Longrightarrow> xs = ys"
proof (induction xs arbitrary: ys rule: rev_induct)
  case (snoc b bs)
  then obtain c cs where ys: "ys = cs @ [c]" by (metis length_append_singleton length_0_conv nat.simps(3) rev_exhaust)
  have "(256 * be_nat bs + unat b) mod 256 = (256 * be_nat cs + unat c) mod 256"
    "(256 * be_nat bs + unat b) div 256 = (256 * be_nat cs + unat c) div 256"
    using snoc.prems(2) ys by simp_all
  then have "unat b = unat c" "be_nat bs = be_nat cs"
    using unat_byte_less [of b] unat_byte_less [of c] by simp_all
  with snoc ys show ?case by (simp add: word_unat_eq_iff)
qed simp

lemma be_nat_dropWhile [simp]: "be_nat (dropWhile (\<lambda>b. b = 0) bs) = be_nat bs"
  by (induction bs) (simp_all add: be_nat_Cons)

lemma be_nat_ge: "bs \<noteq> [] \<Longrightarrow> hd bs \<noteq> 0 \<Longrightarrow> 256 ^ (length bs - 1) \<le> be_nat bs"
  by (cases bs) (simp_all add: be_nat_Cons unat_gt_0 trans_le_add1 Suc_le_eq)

text \<open>Byte strings without leading zeros are determined by their value.\<close>

lemma be_nat_minimal_inj:
  assumes "xs = [] \<or> hd xs \<noteq> 0" and "ys = [] \<or> hd ys \<noteq> 0" and e: "be_nat xs = be_nat ys"
  shows "xs = ys"
proof -
  have lt: False if "ys' \<noteq> []" "hd ys' \<noteq> 0" "length xs' < length ys'" "be_nat xs' = be_nat ys'" for xs' ys'
  proof -
    have "(256 :: nat) ^ length xs' \<le> 256 ^ (length ys' - 1)"
      using that(3) by (intro power_increasing) auto
    with be_nat_less [of xs'] be_nat_ge [OF that(1,2)] that(4) show False by linarith
  qed
  have "length xs = length ys"
    using lt [of ys xs] lt [of xs ys] assms by (metis length_0_conv linorder_neqE_nat not_less_zero)
  then show ?thesis using e by (rule be_nat_inj)
qed

lemma length_to_be_bytes [simp]: "length (to_be_bytes n) = 8"
  by (simp add: to_be_bytes_def)

lemma unat_from_le_bytes: "unat (from_le_bytes bs :: u64) = be_nat (rev bs)" if "length bs \<le> 8"
  using that
proof (induction bs)
  case (Cons b bs)
  have lt: "be_nat (rev bs) < 256 ^ 7"
    using Cons.prems be_nat_less [of "rev bs"] power_increasing [of "length bs" 7 "256 :: nat"] by simp
  have "(ucast b :: u64) AND push_bit 8 (from_le_bytes bs) = 0"
    using bit_imp_le_length [of b] by (auto intro!: bit_word_eqI simp: bit_and_iff bit_push_bit_iff bit_ucast_iff) force
  then have "(ucast b :: u64) OR push_bit 8 (from_le_bytes bs) = ucast b + push_bit 8 (from_le_bytes bs)"
    by (simp add: disjunctive_add_eq_or)
  moreover have "unat (push_bit 8 (from_le_bytes bs) :: u64) = 256 * be_nat (rev bs)"
    using Cons lt by (simp add: push_bit_eq_mult unat_word_ariths)
  moreover have "unat (ucast b :: u64) = unat b"
    using unat_byte_less [of b] by (simp add: unsigned_ucast_eq take_bit_eq_mod)
  ultimately show ?case
    using lt unat_byte_less [of b] by (simp add: unat_word_ariths)
qed simp

lemma be_nat_to_be_bytes [simp]: "be_nat (to_be_bytes n) = unat n"
  using unat_from_le_bytes [of "to_le_bytes 8 n"] by (simp add: to_be_bytes_def from_le_to_le_bytes)


section \<open>Blocks\<close>

text \<open>A byte string cut into blocks of \<open>n\<close> bytes, the last one possibly shorter.\<close>

function chunks :: "nat \<Rightarrow> 'a list \<Rightarrow> 'a list list" where
  "chunks n xs = (if n = 0 \<or> xs = [] then [] else take n xs # chunks n (drop n xs))"
  by pat_completeness auto
termination by (relation "measure (\<lambda>(n, xs). length xs)") auto

declare chunks.simps [simp del]

lemma chunks_single: "length xs = n \<Longrightarrow> 0 < n \<Longrightarrow> chunks n xs = [xs]"
  by (auto simp: chunks.simps [of n xs] chunks.simps [of n "[]"])

lemma chunks_step:
  assumes "n \<le> length xs" and "0 < n"
  shows "chunks n (xs @ ys) = take n xs # chunks n (drop n xs @ ys)"
  using assms by (subst chunks.simps) auto

lemma concat_chunks: "0 < n \<Longrightarrow> concat (chunks n xs) = xs"
  by (induction n xs rule: chunks.induct) (subst chunks.simps, simp)

end
