(* ===== verification/Zkp_Permutation.thy ===== *)
theory Zkp_Permutation
  imports Zkp_Scalar "HOL-Library.Multiset" "HOL-Library.Product_Lexorder"
begin

text \<open>
  The permutation arguments of \<^verbatim>\<open>crates/zkp/src/permutation.rs\<close> for memory, the register file and the frame
  stack, with the columns that \<^verbatim>\<open>prover.rs\<close> builds for them and the sums that \<^verbatim>\<open>verifier.rs\<close> evaluates.

  Scalars are elements of an arbitrary field. \<^verbatim>\<open>Scalar::inverse\<close> panics on zero; the model has the inverse of
  HOL there, and the theorems that use inverses have the hypothesis that no denominator is zero. Slices
  are lists, with \<open>!\<close> for indexing.
\<close>

section \<open>Memory permutation\<close>

record memory_permutation_layout =
  l_sorted_addr :: nat
  l_sorted_val_start :: nat
  l_num_val_columns :: nat
  l_sorted_ts :: nat
  l_sorted_rw :: nat
  l_z_column :: nat
  l_is_same_addr :: nat
  l_inv_addr_diff :: nat
  l_original_ts :: nat
  l_num_columns :: nat

definition memory_layout :: "nat \<Rightarrow> memory_permutation_layout" where
  "memory_layout num_val_cols =
     (let sorted_addr = 0;
          sorted_val_start = 1;
          sorted_ts = 1 + num_val_cols;
          sorted_rw = sorted_ts + 1;
          z_column = sorted_rw + 1;
          is_same_addr = z_column + 1;
          inv_addr_diff = is_same_addr + 1;
          original_ts = inv_addr_diff + 1;
          num_columns = original_ts + 1
      in \<lparr>l_sorted_addr = sorted_addr, l_sorted_val_start = sorted_val_start, l_num_val_columns = num_val_cols,
          l_sorted_ts = sorted_ts, l_sorted_rw = sorted_rw, l_z_column = z_column, l_is_same_addr = is_same_addr,
          l_inv_addr_diff = inv_addr_diff, l_original_ts = original_ts, l_num_columns = num_columns\<rparr>)"

record memory_access =
  ma_addr :: u64
  ma_values :: "u64 list"
  ma_timestamp :: u64
  ma_rw :: u64

definition sort_accesses :: "memory_access list \<Rightarrow> memory_access list" where
  "sort_accesses accesses = sort_key (\<lambda>a. (ma_addr a, ma_timestamp a)) accesses"

definition sort_and_compute_aux :: "memory_access list \<Rightarrow> memory_access list \<times> 'a::field list \<times> 'a list" where
  "sort_and_compute_aux accesses =
     (if length accesses = 0 then ([], [], [])
      else
        let n = length accesses;
            srt = sort_accesses accesses;
            is_same_addr = map (\<lambda>i. if 1 \<le> i \<and> ma_addr (srt ! i) = ma_addr (srt ! (i - 1)) then 1 else 0) [0..<n];
            inv_addr_diff = map (\<lambda>i.
              if 1 \<le> i \<and> ma_addr (srt ! i) \<noteq> ma_addr (srt ! (i - 1))
              then inverse (scalar_from_u64 (ma_addr (srt ! i) - ma_addr (srt ! (i - 1)))) else 0) [0..<n]
        in (srt, is_same_addr, inv_addr_diff))"

text \<open>Several values are combined with powers of the fourth power of the challenge.\<close>

definition combine_values :: "'a::field \<Rightarrow> 'a list \<Rightarrow> 'a" where
  "combine_values delta values =
     (if length values = 1 then values ! 0
      else let delta4 = (delta * delta) * (delta * delta)
           in fst (fold (\<lambda>v (combined, delta_pow). (combined + delta_pow * v, delta_pow * delta4)) values (0, 1)))"

definition compute_tuple_hash :: "memory_access \<Rightarrow> 'a::field \<Rightarrow> 'a \<Rightarrow> 'a \<Rightarrow> 'a \<Rightarrow> 'a" where
  "compute_tuple_hash access gamma delta delta2 delta3 =
     (let addr = scalar_from_u64 (ma_addr access);
          ts = scalar_from_u64 (ma_timestamp access);
          rw = scalar_from_u64 (ma_rw access);
          val_combined = combine_values delta (map scalar_from_u64 (ma_values access))
      in gamma + addr + delta * val_combined + delta2 * ts + delta3 * rw)"

definition compute_grand_product :: "memory_access list \<Rightarrow> memory_access list \<Rightarrow> 'a::field \<Rightarrow> 'a \<Rightarrow> 'a list" where
  "compute_grand_product original srt gamma delta =
     (let n = length original;
          delta2 = delta * delta;
          delta3 = delta2 * delta
      in fold (\<lambda>i z.
             let numer = compute_tuple_hash (original ! i) gamma delta delta2 delta3;
                 denom = compute_tuple_hash (srt ! i) gamma delta delta2 delta3
             in z[i + 1 := z ! i * numer * inverse denom])
           [0..<n - 1] (replicate n 1))"

definition permutation_bodies ::
  "'a::field list \<Rightarrow> 'a list \<Rightarrow> memory_permutation_layout \<Rightarrow> 'a \<Rightarrow> 'a \<Rightarrow> 'a list" where
  "permutation_bodies evals sevals layout z omega_n_minus_1 =
     (let exclusion = z - omega_n_minus_1;
          isa = evals ! l_is_same_addr layout;
          body1 = isa * (isa - 1)
      in if sevals = [] then [body1]
         else
           let sa_z = evals ! l_sorted_addr layout;
               sa_wz = sevals ! l_sorted_addr layout;
               isa_wz = sevals ! l_is_same_addr layout;
               inv_diff = sevals ! l_inv_addr_diff layout;
               addr_diff = sa_wz - sa_z;
               body2 = isa_wz * addr_diff;
               body3 = (1 - isa_wz) * (1 - addr_diff * inv_diff);
               body4 = (\<lambda>v.
                 let sv_z = evals ! (l_sorted_val_start layout + v);
                     sv_wz = sevals ! (l_sorted_val_start layout + v);
                     srw_wz = sevals ! l_sorted_rw layout
                 in isa_wz * (1 - srw_wz) * (sv_wz - sv_z))
           in [body1, body2 * exclusion, body3 * exclusion]
                @ map (\<lambda>v. body4 v * exclusion) [0..<l_num_val_columns layout])"

definition evaluate_permutation_constraints_at_point ::
  "'a::field list \<Rightarrow> 'a list \<Rightarrow> memory_permutation_layout \<Rightarrow> 'a \<Rightarrow> 'a \<Rightarrow> 'a \<Rightarrow> nat \<Rightarrow> 'a" where
  "evaluate_permutation_constraints_at_point evals sevals layout z omega_n_minus_1 alpha alpha_offset =
     add_bodies alpha alpha_offset (permutation_bodies evals sevals layout z omega_n_minus_1)"

text \<open>The first Lagrange basis polynomial at a point.\<close>

definition first_lagrange :: "'a::field \<Rightarrow> u64 \<Rightarrow> 'a" where
  "first_lagrange z domain_size =
     (let z_n_minus_1 = pow_loop 1 z (unat domain_size) - 1;
          denom_l0 = scalar_from_u64 domain_size * (z - 1)
      in if denom_l0 \<noteq> 0 then z_n_minus_1 * inverse denom_l0 else 1)"

text \<open>The columns of a machine that the argument reads: address, values, load and store selectors.\<close>

record memory_columns =
  mc_addr :: nat
  mc_vals :: "nat list"
  mc_loads :: "nat list"
  mc_stores :: "nat list"

definition sum_columns :: "'a::comm_ring_1 list \<Rightarrow> nat list \<Rightarrow> 'a \<Rightarrow> 'a" where
  "sum_columns cols ixs start = fold (\<lambda>c acc. acc + cols ! c) ixs start"

text \<open>A row that accesses no memory counts as a read of the last address.\<close>

definition sentinel :: "u64" where
  "sentinel = - 1"

definition memory_numerator :: "'a::field list \<Rightarrow> memory_columns \<Rightarrow> 'a \<Rightarrow> 'a \<Rightarrow> 'a \<Rightarrow> 'a" where
  "memory_numerator cols mc ts_z gamma delta =
     (let delta2 = delta * delta;
          delta3 = delta2 * delta;
          rw_z = sum_columns cols (mc_stores mc) 0;
          real_mem_z = sum_columns cols (mc_loads mc) rw_z;
          addr_z = real_mem_z * cols ! mc_addr mc + (1 - real_mem_z) * scalar_from_u64 sentinel;
          val_combined_z = combine_values delta (map (\<lambda>vc. cols ! vc) (mc_vals mc))
      in gamma + addr_z + delta * val_combined_z + delta2 * ts_z + delta3 * rw_z)"

definition memory_denominator :: "'a::field list \<Rightarrow> memory_permutation_layout \<Rightarrow> 'a \<Rightarrow> 'a \<Rightarrow> 'a" where
  "memory_denominator evals layout gamma delta =
     (let delta2 = delta * delta;
          delta3 = delta2 * delta;
          sorted_val_combined_z =
            combine_values delta (map (\<lambda>v. evals ! (l_sorted_val_start layout + v)) [0..<l_num_val_columns layout])
      in gamma + evals ! l_sorted_addr layout + delta * sorted_val_combined_z
           + delta2 * (evals ! l_sorted_ts layout) + delta3 * (evals ! l_sorted_rw layout))"

definition grand_product_bodies ::
  "'a::field list \<Rightarrow> 'a list \<Rightarrow> 'a list \<Rightarrow> memory_permutation_layout \<Rightarrow> memory_columns \<Rightarrow> 'a \<Rightarrow> 'a \<Rightarrow> 'a \<Rightarrow> u64
   \<Rightarrow> 'a list" where
  "grand_product_bodies evals sevals cols layout mc gamma delta z domain_size =
     (let numer_z = memory_numerator cols mc (evals ! l_original_ts layout) gamma delta;
          denom_z = memory_denominator evals layout gamma delta;
          z_at_z = evals ! l_z_column layout;
          z_at_wz = sevals ! l_z_column layout
      in [z_at_wz * denom_z - z_at_z * numer_z, first_lagrange z domain_size * (z_at_z - 1)])"

definition evaluate_grand_product_at_point ::
  "'a::field list \<Rightarrow> 'a list \<Rightarrow> 'a list \<Rightarrow> memory_permutation_layout \<Rightarrow> memory_columns \<Rightarrow> 'a \<Rightarrow> 'a \<Rightarrow> 'a \<Rightarrow> u64
   \<Rightarrow> 'a \<Rightarrow> nat \<Rightarrow> 'a" where
  "evaluate_grand_product_at_point evals sevals cols layout mc gamma delta z domain_size alpha alpha_offset =
     add_bodies alpha alpha_offset (grand_product_bodies evals sevals cols layout mc gamma delta z domain_size)"

definition num_permutation_constraints :: "memory_permutation_layout \<Rightarrow> nat" where
  "num_permutation_constraints layout = 5 + l_num_val_columns layout"

text \<open>The contribution of the memory argument to the verifier's value.\<close>

definition memory_permutation_at_point ::
  "'a::field list \<Rightarrow> 'a list \<Rightarrow> 'a list \<Rightarrow> memory_columns \<Rightarrow> 'a \<Rightarrow> 'a \<Rightarrow> 'a \<Rightarrow> 'a \<Rightarrow> u64 \<Rightarrow> 'a \<Rightarrow> nat \<Rightarrow> 'a" where
  "memory_permutation_at_point evals sevals cols mc gamma delta z omega_n_minus_1 domain_size alpha alpha_offset =
     (let layout = memory_layout (length (mc_vals mc));
          perm_c = evaluate_permutation_constraints_at_point evals sevals layout z omega_n_minus_1 alpha alpha_offset;
          gp_offset = alpha_offset + 3 + l_num_val_columns layout
      in perm_c + evaluate_grand_product_at_point evals sevals cols layout mc gamma delta z domain_size alpha gp_offset)"

text \<open>
  The columns of the prover. \<open>to_u64\<close> reads the low eight bytes of a scalar. Rows beyond the trace and rows
  without a memory access become reads of zero at the sentinel.
\<close>

definition memory_row :: "('a::field \<Rightarrow> u64) \<Rightarrow> 'a list list \<Rightarrow> memory_columns \<Rightarrow> nat \<Rightarrow> nat \<Rightarrow> memory_access" where
  "memory_row to_u64 forms mc num_rows row =
     (let is_load = row < num_rows \<and> list_ex (\<lambda>s. forms ! s ! row \<noteq> 0) (mc_loads mc);
          is_store = row < num_rows \<and> list_ex (\<lambda>s. forms ! s ! row \<noteq> 0) (mc_stores mc);
          (addr, vals, rw) =
            (if is_load \<or> is_store
             then (to_u64 (forms ! mc_addr mc ! row), map (\<lambda>vc. to_u64 (forms ! vc ! row)) (mc_vals mc),
                   if is_store then 1 else 0)
             else (sentinel, replicate (length (mc_vals mc)) 0, 0))
      in \<lparr>ma_addr = addr, ma_values = vals, ma_timestamp = of_nat row, ma_rw = rw\<rparr>)"

definition memory_rows :: "('a::field \<Rightarrow> u64) \<Rightarrow> 'a list list \<Rightarrow> memory_columns \<Rightarrow> nat \<Rightarrow> nat \<Rightarrow> memory_access list" where
  "memory_rows to_u64 forms mc num_rows n = map (memory_row to_u64 forms mc num_rows) [0..<n]"

definition fill_column :: "nat \<Rightarrow> 'a::zero list \<Rightarrow> 'a list" where
  "fill_column n xs = map (\<lambda>i. if i < length xs then xs ! i else 0) [0..<n]"

definition memory_perm_columns ::
  "('a::field \<Rightarrow> u64) \<Rightarrow> 'a list list \<Rightarrow> memory_columns \<Rightarrow> nat \<Rightarrow> nat \<Rightarrow> 'a \<Rightarrow> 'a \<Rightarrow> 'a list list" where
  "memory_perm_columns to_u64 forms mc num_rows n gamma delta =
     (let accesses = memory_rows to_u64 forms mc num_rows n;
          (srt, is_same_addr, inv_addr_diff) = sort_and_compute_aux accesses;
          z_col = compute_grand_product accesses srt gamma delta
      in [fill_column n (map (\<lambda>a. scalar_from_u64 (ma_addr a)) srt)]
           @ map (\<lambda>v. fill_column n (map (\<lambda>a. scalar_from_u64 (ma_values a ! v)) srt)) [0..<length (mc_vals mc)]
           @ [fill_column n (map (\<lambda>a. scalar_from_u64 (ma_timestamp a)) srt),
              fill_column n (map (\<lambda>a. scalar_from_u64 (ma_rw a)) srt),
              fill_column n z_col, fill_column n is_same_addr, fill_column n inv_addr_diff,
              map (\<lambda>i. scalar_from_u64 (of_nat i)) [0..<n]])"

section \<open>Register permutation\<close>

record register_permutation_layout =
  r_num_ports :: nat
  r_z_column :: nat
  r_is_same_reg_start :: nat
  r_inv_reg_diff_start :: nat
  r_row_ts :: nat
  r_num_columns :: nat

definition register_layout :: "nat \<Rightarrow> register_permutation_layout" where
  "register_layout num_ports =
     (let sorted_cols = 4 * num_ports;
          z_column = sorted_cols;
          is_same_reg_start = z_column + 1;
          inv_reg_diff_start = is_same_reg_start + num_ports;
          row_ts = inv_reg_diff_start + num_ports;
          num_columns = row_ts + 1
      in \<lparr>r_num_ports = num_ports, r_z_column = z_column, r_is_same_reg_start = is_same_reg_start,
          r_inv_reg_diff_start = inv_reg_diff_start, r_row_ts = row_ts, r_num_columns = num_columns\<rparr>)"

definition lane_reg :: "nat \<Rightarrow> nat" where "lane_reg lane = 4 * lane"

definition lane_val :: "nat \<Rightarrow> nat" where "lane_val lane = 4 * lane + 1"

definition lane_ts :: "nat \<Rightarrow> nat" where "lane_ts lane = 4 * lane + 2"

definition lane_rw :: "nat \<Rightarrow> nat" where "lane_rw lane = 4 * lane + 3"

definition num_register_perm_constraints :: "register_permutation_layout \<Rightarrow> nat" where
  "num_register_perm_constraints layout = 4 * r_num_ports layout + 2"

definition lane_bodies ::
  "'a::field list \<Rightarrow> 'a list \<Rightarrow> register_permutation_layout \<Rightarrow> 'a \<Rightarrow> nat \<Rightarrow> 'a list" where
  "lane_bodies evals sevals layout exclusion lane =
     (let isa_z = evals ! (r_is_same_reg_start layout + lane);
          isa_shifted = sevals ! (r_is_same_reg_start layout + lane);
          inv_z = evals ! (r_inv_reg_diff_start layout + lane);
          reg_diff = sevals ! lane_reg lane - evals ! lane_reg lane;
          val_diff = sevals ! lane_val lane - evals ! lane_val lane;
          body_bin = isa_z * (isa_z - 1);
          body_cont = isa_shifted * reg_diff * exclusion;
          body_inv = (1 - isa_shifted) * (1 - reg_diff * inv_z) * exclusion;
          body_read = isa_shifted * (1 - sevals ! lane_rw lane) * val_diff * exclusion
      in [body_bin, body_cont, body_inv, body_read])"

text \<open>A port is a register column, a value column and whether it writes.\<close>

type_synonym port = "nat \<times> nat \<times> bool"

definition port_numerator :: "'a::field list \<Rightarrow> 'a \<Rightarrow> nat \<Rightarrow> 'a \<Rightarrow> 'a \<Rightarrow> nat \<Rightarrow> port \<Rightarrow> 'a" where
  "port_numerator cols row_ts_z num_ports gamma delta port_idx = (\<lambda>(reg_col, val_col, is_write).
     let delta2 = delta * delta;
         delta3 = delta2 * delta;
         port_ts_z = scalar_from_u64 (of_nat num_ports) * row_ts_z + scalar_from_u64 (of_nat port_idx);
         rw_val = (if is_write then 1 else 0)
     in gamma + cols ! reg_col + delta * cols ! val_col + delta2 * port_ts_z + delta3 * rw_val)"

definition port_denominator :: "'a::field list \<Rightarrow> 'a \<Rightarrow> 'a \<Rightarrow> nat \<Rightarrow> 'a" where
  "port_denominator evals gamma delta port_idx =
     (let delta2 = delta * delta;
          delta3 = delta2 * delta
      in gamma + evals ! lane_reg port_idx + delta * evals ! lane_val port_idx + delta2 * evals ! lane_ts port_idx
           + delta3 * evals ! lane_rw port_idx)"

definition register_bodies ::
  "'a::field list \<Rightarrow> 'a list \<Rightarrow> 'a list \<Rightarrow> register_permutation_layout \<Rightarrow> port list \<Rightarrow> 'a \<Rightarrow> 'a \<Rightarrow> 'a \<Rightarrow> 'a \<Rightarrow> u64
   \<Rightarrow> 'a list" where
  "register_bodies evals sevals cols layout reg_ports gamma delta z omega_n_minus_1 domain_size =
     (let exclusion = z - omega_n_minus_1;
          z_at_z = evals ! r_z_column layout;
          z_at_omega_z = sevals ! r_z_column layout;
          row_ts_z = evals ! r_row_ts layout;
          (numer_product, denom_product) =
            fold (\<lambda>(port_idx, port) (numer, denom).
                (numer * port_numerator cols row_ts_z (r_num_ports layout) gamma delta port_idx port,
                 denom * port_denominator evals gamma delta port_idx))
              (enumerate 0 reg_ports) (1, 1);
          gp_body = z_at_omega_z * denom_product - z_at_z * numer_product;
          body_boundary = first_lagrange z domain_size * (z_at_z - 1)
      in concat (map (lane_bodies evals sevals layout exclusion) [0..<r_num_ports layout]) @ [gp_body, body_boundary])"

definition evaluate_register_perm_at_point ::
  "'a::field list \<Rightarrow> 'a list \<Rightarrow> 'a list \<Rightarrow> register_permutation_layout \<Rightarrow> port list \<Rightarrow> 'a \<Rightarrow> 'a \<Rightarrow> 'a \<Rightarrow> 'a \<Rightarrow> u64
   \<Rightarrow> 'a \<Rightarrow> nat \<Rightarrow> 'a" where
  "evaluate_register_perm_at_point evals sevals cols layout reg_ports gamma delta z omega_n_minus_1 domain_size alpha
     alpha_offset =
     add_bodies alpha alpha_offset
       (register_bodies evals sevals cols layout reg_ports gamma delta z omega_n_minus_1 domain_size)"

definition register_accesses ::
  "('a::field \<Rightarrow> u64) \<Rightarrow> 'a list list \<Rightarrow> port list \<Rightarrow> nat \<Rightarrow> nat \<Rightarrow> memory_access list" where
  "register_accesses to_u64 forms reg_ports num_rows n =
     concat (map (\<lambda>row.
       map (\<lambda>(port_idx, reg_col, val_col, is_write).
           \<lparr>ma_addr = (if row < num_rows then to_u64 (forms ! reg_col ! row) else 0),
            ma_values = [if row < num_rows then to_u64 (forms ! val_col ! row) else 0],
            ma_timestamp = of_nat (row * length reg_ports + port_idx),
            ma_rw = (if is_write then 1 else 0)\<rparr>)
         (enumerate 0 reg_ports))
       [0..<n])"

text \<open>One sorted column: entry \<open>row * num_ports + lane\<close> of the sorted accesses in each row.\<close>

definition lane_column :: "memory_access list \<Rightarrow> nat \<Rightarrow> nat \<Rightarrow> nat \<Rightarrow> (memory_access \<Rightarrow> u64) \<Rightarrow> 'a::field list" where
  "lane_column srt num_ports n lane field_fn =
     map (\<lambda>row. let idx = row * num_ports + lane
                in if idx < length srt then scalar_from_u64 (field_fn (srt ! idx)) else 0) [0..<n]"

definition is_same_reg_column :: "memory_access list \<Rightarrow> nat \<Rightarrow> nat \<Rightarrow> nat \<Rightarrow> 'a::field list" where
  "is_same_reg_column srt num_ports n lane =
     map (\<lambda>row. let curr_idx = row * num_ports + lane;
                    prev_idx = (row - 1) * num_ports + lane
                in if 1 \<le> row \<and> curr_idx < length srt \<and> prev_idx < length srt
                      \<and> ma_addr (srt ! curr_idx) = ma_addr (srt ! prev_idx) then 1 else 0) [0..<n]"

definition inv_reg_diff_column :: "memory_access list \<Rightarrow> nat \<Rightarrow> nat \<Rightarrow> nat \<Rightarrow> 'a::field list" where
  "inv_reg_diff_column srt num_ports n lane =
     map (\<lambda>row. let curr_idx = row * num_ports + lane;
                    next_idx = (row + 1) * num_ports + lane
                in if row < n - 1 \<and> next_idx < length srt \<and> curr_idx < length srt
                      \<and> ma_addr (srt ! next_idx) \<noteq> ma_addr (srt ! curr_idx)
                   then inverse (scalar_from_u64 (ma_addr (srt ! next_idx) - ma_addr (srt ! curr_idx)))
                   else 0) [0..<n]"

definition register_perm_columns ::
  "('a::field \<Rightarrow> u64) \<Rightarrow> 'a list list \<Rightarrow> port list \<Rightarrow> nat \<Rightarrow> nat \<Rightarrow> 'a \<Rightarrow> 'a \<Rightarrow> 'a list list" where
  "register_perm_columns to_u64 forms reg_ports num_rows n gamma delta =
     (let num_ports = length reg_ports;
          all_accesses = register_accesses to_u64 forms reg_ports num_rows n;
          srt = fst (sort_and_compute_aux all_accesses :: memory_access list \<times> 'a list \<times> 'a list);
          z_all = compute_grand_product all_accesses srt gamma delta
      in concat (map (\<lambda>lane.
             map (lane_column srt num_ports n lane) [ma_addr, \<lambda>a. ma_values a ! 0, ma_timestamp, ma_rw]) [0..<num_ports])
           @ [map (\<lambda>row. if row = 0 then 1
                        else if row * num_ports < length z_all then z_all ! (row * num_ports) else 0) [0..<n]]
           @ map (is_same_reg_column srt num_ports n) [0..<num_ports]
           @ map (inv_reg_diff_column srt num_ports n) [0..<num_ports]
           @ [map (\<lambda>i. scalar_from_u64 (of_nat i)) [0..<n]])"

section \<open>Frame-stack permutation\<close>

definition frame_perm_tuple_factor :: "'a::field list \<Rightarrow> 'a \<Rightarrow> 'a \<Rightarrow> 'a" where
  "frame_perm_tuple_factor col_evals gamma delta =
     fst (fold (\<lambda>ev (acc, delta_pow). (acc + delta_pow * ev, delta_pow * delta)) col_evals (gamma, delta))"

definition gated_factor :: "'a::field \<Rightarrow> 'a \<Rightarrow> 'a" where
  "gated_factor flag t = flag * t + (1 - flag)"

definition compute_frame_perm_z ::
  "'a::field list list \<Rightarrow> 'a list list \<Rightarrow> 'a list \<Rightarrow> 'a list \<Rightarrow> 'a \<Rightarrow> 'a \<Rightarrow> 'a list" where
  "compute_frame_perm_z tuple_per_row tuple_shifted_per_row is_push is_pop gamma delta =
     (let n = length tuple_per_row
      in fold (\<lambda>i z.
             let push_factor = gated_factor (is_push ! i) (frame_perm_tuple_factor (tuple_per_row ! i) gamma delta);
                 pop_factor = gated_factor (is_pop ! i) (frame_perm_tuple_factor (tuple_shifted_per_row ! i) gamma delta)
             in z[i + 1 := z ! i * push_factor * inverse pop_factor])
           [0..<n - 1] (replicate n 1))"

definition frame_bodies ::
  "'a::field \<Rightarrow> 'a \<Rightarrow> 'a list \<Rightarrow> 'a list \<Rightarrow> 'a \<Rightarrow> 'a \<Rightarrow> 'a \<Rightarrow> 'a \<Rightarrow> 'a \<Rightarrow> u64 \<Rightarrow> 'a list" where
  "frame_bodies z_at_z z_at_omega_z tuple_at_z tuple_at_omega_z is_push_at_z is_pop_at_z gamma delta z domain_size =
     (let push_factor = gated_factor is_push_at_z (frame_perm_tuple_factor tuple_at_z gamma delta);
          pop_factor = gated_factor is_pop_at_z (frame_perm_tuple_factor tuple_at_omega_z gamma delta)
      in [z_at_omega_z * pop_factor - z_at_z * push_factor, first_lagrange z domain_size * (z_at_z - 1)])"

definition evaluate_frame_perm_at_point ::
  "'a::field \<Rightarrow> 'a \<Rightarrow> 'a list \<Rightarrow> 'a list \<Rightarrow> 'a \<Rightarrow> 'a \<Rightarrow> 'a \<Rightarrow> 'a \<Rightarrow> 'a \<Rightarrow> u64 \<Rightarrow> 'a \<Rightarrow> nat \<Rightarrow> 'a" where
  "evaluate_frame_perm_at_point z_at_z z_at_omega_z tuple_at_z tuple_at_omega_z is_push_at_z is_pop_at_z gamma delta z
     domain_size alpha alpha_offset =
     add_bodies alpha alpha_offset
       (frame_bodies z_at_z z_at_omega_z tuple_at_z tuple_at_omega_z is_push_at_z is_pop_at_z gamma delta z domain_size)"

text \<open>The layout names trace columns; the prover reads tuples and flags from them row by row.\<close>

record frame_stack_layout =
  f_z_column :: nat
  f_num_columns :: nat
  f_tuple_columns :: "nat list"
  f_push_selectors :: "nat list"
  f_pop_selectors :: "nat list"

definition frame_tuple :: "'a list list \<Rightarrow> frame_stack_layout \<Rightarrow> nat \<Rightarrow> 'a list" where
  "frame_tuple forms layout row = map (\<lambda>c. forms ! c ! row) (f_tuple_columns layout)"

definition frame_flag :: "'a::field list list \<Rightarrow> nat list \<Rightarrow> nat \<Rightarrow> 'a" where
  "frame_flag forms sels row = fold (\<lambda>s p. p + forms ! s ! row) sels 0"

definition frame_perm_column :: "'a::field list list \<Rightarrow> frame_stack_layout \<Rightarrow> nat \<Rightarrow> 'a \<Rightarrow> 'a \<Rightarrow> 'a list" where
  "frame_perm_column forms layout n gamma delta =
     (let tuple_per_row = map (frame_tuple forms layout) [0..<n];
          tuple_shifted_per_row = map (\<lambda>row. frame_tuple forms layout ((row + 1) mod n)) [0..<n];
          is_push_evals = map (frame_flag forms (f_push_selectors layout)) [0..<n];
          is_pop_evals = map (frame_flag forms (f_pop_selectors layout)) [0..<n]
      in compute_frame_perm_z tuple_per_row tuple_shifted_per_row is_push_evals is_pop_evals gamma delta)"

text \<open>
  The contribution of the argument to the verifier's value. The tuple of the next row is looked up among
  the columns opened at the shifted point; a column that is not opened there panics.
\<close>

definition frame_permutation_at_point ::
  "'a::field \<Rightarrow> 'a \<Rightarrow> 'a list \<Rightarrow> nat list \<Rightarrow> 'a list \<Rightarrow> frame_stack_layout \<Rightarrow> 'a \<Rightarrow> 'a \<Rightarrow> 'a \<Rightarrow> u64 \<Rightarrow> 'a \<Rightarrow> nat
   \<Rightarrow> 'a option" where
  "frame_permutation_at_point z_at_z z_at_omega_z col_evals shifted_indices shifted_evals layout gamma delta z domain_size
     alpha alpha_offset =
     (let tuple_at_z = map (\<lambda>c. col_evals ! c) (f_tuple_columns layout);
          is_push_at_z = sum_columns col_evals (f_push_selectors layout) 0;
          is_pop_at_z = sum_columns col_evals (f_pop_selectors layout) 0
      in case those (map (map_of (zip shifted_indices shifted_evals)) (f_tuple_columns layout)) of
           None \<Rightarrow> None
         | Some tuple_at_omega_z \<Rightarrow>
             Some (evaluate_frame_perm_at_point z_at_z z_at_omega_z tuple_at_z tuple_at_omega_z is_push_at_z is_pop_at_z
               gamma delta z domain_size alpha alpha_offset))"

end
