(* ===== verification/Zkp_Permutation_Sound.thy ===== *)
theory Zkp_Permutation_Sound
  imports Zkp_Permutation
begin

text \<open>
  What the permutation arguments establish. Accepted grand products for enough challenges make the two
  multisets of tuples equal; honest columns are accepted. The memory argument checks neither the order
  of the sorted columns nor the timestamps, and its columns are committed after the challenges are
  drawn: for every trace there are columns that are accepted.
\<close>

section \<open>Domains\<close>

text \<open>The evaluation domain of size \<open>n\<close>: \<open>omega\<close> is a primitive root, and \<open>n\<close> is not zero in the field.\<close>

definition root_domain :: "'a::field \<Rightarrow> nat \<Rightarrow> bool" where
  "root_domain omega n \<longleftrightarrow>
     0 < n \<and> n < 2 ^ 64 \<and> omega ^ n = 1 \<and> list_all (\<lambda>i. omega ^ i \<noteq> 1) [1..<n] \<and> (of_nat n :: 'a) \<noteq> 0"

lemma unat_of_nat_u64: "n < 2 ^ 64 \<Longrightarrow> unat (of_nat n :: u64) = n"
  by (simp add: unat_of_nat)

lemma scalar_of_nat: "n < 2 ^ 64 \<Longrightarrow> scalar_from_u64 (of_nat n) = (of_nat n :: 'a::comm_ring_1)"
proof -
  assume "n < 2 ^ 64"
  then have "uint (of_nat n :: u64) = int n" by (simp only: uint_nat unat_of_nat_u64)
  then show ?thesis by (simp only: scalar_from_u64_def of_int_of_nat_eq)
qed

lemma root_powers_distinct:
  assumes "root_domain omega n" and "i < n" and "j < n" and "omega ^ i = omega ^ j"
  shows "i = j"
proof -
  have nz: "omega \<noteq> 0" using assms(1) by (auto simp: root_domain_def power_0_left)
  have "a = b" if "a \<le> b" and "b < n" and "omega ^ a = omega ^ b" for a b
  proof -
    have "omega ^ b = omega ^ a * omega ^ (b - a)" using that(1) by (simp flip: power_add)
    then have "omega ^ (b - a) = 1" using that(3) nz by simp
    then have "b - a \<notin> {1..<n}" using assms(1) by (auto simp: root_domain_def list_all_iff)
    then show ?thesis using that by auto
  qed
  then show ?thesis using assms by (metis nat_le_linear)
qed

lemma first_lagrange_domain:
  assumes "root_domain omega n" and "i < n"
  shows "first_lagrange (omega ^ i) (of_nat n) = (if i = 0 then 1 else 0)"
proof -
  have n: "n < 2 ^ 64" using assms(1) by (simp add: root_domain_def)
  then have u: "unat (of_nat n :: u64) = n" by (rule unat_of_nat_u64)
  have "omega ^ i \<noteq> 1" if "i \<noteq> 0" using root_powers_distinct [OF assms(1), of i 0] assms that by auto
  moreover have "(omega ^ i) ^ n = 1"
    using assms(1) by (metis mult.commute power_mult power_one root_domain_def)
  ultimately show ?thesis
    using assms(1) by (simp add: first_lagrange_def pow_loop_eq scalar_of_nat [OF n] u root_domain_def)
qed

lemma exclusion_domain:
  assumes "root_domain omega n" and "i < n"
  shows "omega ^ i - omega ^ (n - 1) = 0 \<longleftrightarrow> i = n - 1"
  using root_powers_distinct [OF assms(1), of i "n - 1"] assms by auto

section \<open>Grand products\<close>

text \<open>An accumulator that starts at one and closes cyclically equates the two products.\<close>

lemma closed_accumulator:
  fixes N D Z :: "nat \<Rightarrow> 'a::comm_ring_1"
  assumes "0 < n" and "Z 0 = 1" and step: "\<And>i. i < n \<Longrightarrow> Z (Suc i mod n) * D i = Z i * N i"
  shows "(\<Prod>i<n. D i) = (\<Prod>i<n. N i)"
proof -
  have "Z (k mod n) * (\<Prod>i<k. D i) = (\<Prod>i<k. N i)" if "k \<le> n" for k
    using that
  proof (induction k)
    case (Suc k)
    have "Z (Suc k mod n) * (\<Prod>i<Suc k. D i) = (Z k * N k) * (\<Prod>i<k. D i)"
      using arg_cong [OF step [of k], of "\<lambda>x. x * (\<Prod>i<k. D i)"] Suc.prems by (simp add: ac_simps)
    also have "\<dots> = (\<Prod>i<Suc k. N i)" using Suc by (simp add: algebra_simps)
    finally show ?case .
  qed (use assms in simp)
  from this [of n] show ?thesis using assms by simp
qed

text \<open>The polynomial with coefficient list \<open>monic_poly xs\<close> is the product of the factors \<open>g + x\<close>.\<close>

definition monic_poly :: "'a::field list \<Rightarrow> 'a list" where
  "monic_poly xs = fold (\<lambda>x p. poly_mul_linear p (- x)) xs [1]"

lemma eval_monic_fold:
  "eval_poly_at (fold (\<lambda>x p. poly_mul_linear p (- x)) xs p) g = eval_poly_at p g * (\<Prod>x\<leftarrow>xs. g + x)"
  by (induction xs arbitrary: p) (simp_all add: mult.assoc)

lemma eval_monic: "eval_poly_at (monic_poly xs) g = (\<Prod>x\<leftarrow>xs. g + x)"
  by (simp add: monic_poly_def eval_monic_fold)

lemma length_monic: "length (monic_poly xs) = Suc (length xs)"
proof -
  have "p \<noteq> [] \<Longrightarrow> length (fold (\<lambda>x p. poly_mul_linear p (- x)) xs p) = length p + length xs" for p
  proof (induction xs arbitrary: p)
    case (Cons x xs)
    have len: "length (poly_mul_linear p (- x)) = Suc (length p)" using Cons.prems by (simp add: coeff_mul_linear(2))
    then have "poly_mul_linear p (- x) \<noteq> []" by (metis list.size(3) nat.distinct(1))
    then show ?case using Cons.IH len by simp
  qed simp
  then show ?thesis by (simp add: monic_poly_def)
qed

lemma products_agree_everywhere:
  fixes xs ys :: "'a::field list"
  assumes "finite G" and "length xs < card G" and "length ys < card G"
    and "\<And>g. g \<in> G \<Longrightarrow> (\<Prod>x\<leftarrow>xs. g + x) = (\<Prod>y\<leftarrow>ys. g + y)"
  shows "(\<Prod>x\<leftarrow>xs. g + x) = (\<Prod>y\<leftarrow>ys. g + y)"
proof -
  have "set (poly_sub (monic_poly xs) (monic_poly ys)) \<subseteq> {0}"
    using assms by (intro many_roots_zero [of G]) (simp_all add: length_monic eval_monic)
  from eval_zero [OF this, of g] show ?thesis by (simp add: eval_monic)
qed

lemma products_determine_multiset:
  fixes xs ys :: "'a::field list"
  assumes "finite G" and "length xs < card G" and "length ys < card G"
    and "\<And>g. g \<in> G \<Longrightarrow> (\<Prod>x\<leftarrow>xs. g + x) = (\<Prod>y\<leftarrow>ys. g + y)"
  shows "mset xs = mset ys"
  using assms
proof (induction xs arbitrary: ys G)
  case Nil
  then have "(\<Prod>y\<leftarrow>ys. g + y) = 1" for g using products_agree_everywhere [of G "[]" ys g] by simp
  from this [of "- hd ys"] show ?case by (cases ys) simp_all
next
  case (Cons x xs)
  have "(\<Prod>y\<leftarrow>ys. - x + y) = 0"
    using products_agree_everywhere [of G "x # xs" ys "- x"] Cons.prems by simp
  then have "x \<in> set ys" by (auto simp: prod_list_zero_iff add_eq_0_iff)
  then obtain us vs where ys: "ys = us @ x # vs" by (meson split_list)
  have "mset xs = mset (us @ vs)"
  proof (rule Cons.IH [of "G - {- x}"])
    show "length xs < card (G - {- x})" and "length (us @ vs) < card (G - {- x})"
      using Cons.prems(1-3) ys by (auto simp: card_Diff_singleton_if)
    show "(\<Prod>x\<leftarrow>xs. g + x) = (\<Prod>y\<leftarrow>us @ vs. g + y)" if "g \<in> G - {- x}" for g
    proof -
      have "(g + x) * (\<Prod>x\<leftarrow>xs. g + x) = (g + x) * (\<Prod>y\<leftarrow>us @ vs. g + y)"
        using Cons.prems(4) [of g] that ys by (simp add: algebra_simps)
      moreover have "g + x \<noteq> 0" using that by (auto simp: add_eq_0_iff2)
      ultimately show ?thesis by simp
    qed
  qed (use Cons.prems in simp)
  then show ?case using ys by simp
qed

section \<open>Separating challenges\<close>

text \<open>Tuples are hashed as values of polynomials; enough challenges tell different tuples apart.\<close>

lemma colliding_challenges:
  fixes p q :: "'a::field list"
  assumes "finite D" and "length p = m" and "length q = m" and "p \<noteq> q"
  shows "card {delta \<in> D. eval_poly_at p delta = eval_poly_at q delta} < m"
proof (rule ccontr)
  assume "\<not> ?thesis"
  then have "set (poly_sub p q) \<subseteq> {0}"
    using assms(1-3) by (intro many_roots_zero [of "{delta \<in> D. eval_poly_at p delta = eval_poly_at q delta}"]) auto
  then have "coeff_at (poly_sub p q) k = 0" for k by (metis coeff_at_def nth_mem singletonD subsetD)
  then have "coeff_at p k = coeff_at q k" for k by (metis coeff_poly_sub eq_iff_diff_eq_0)
  then have "p = q" using assms(2,3) by (intro list_eq_coeffI) simp_all
  then show False using assms(4) by simp
qed

lemma separating_challenge:
  fixes T :: "'a::field list set"
  assumes "finite T" and "finite D" and "\<And>t. t \<in> T \<Longrightarrow> length t = m" and "card T * card T * m < card D"
  shows "\<exists>delta\<in>D. inj_on (\<lambda>p. eval_poly_at p delta) T"
proof -
  define P where "P = {(s, t). s \<in> T \<and> t \<in> T \<and> s \<noteq> t}"
  define bad where "bad = (\<Union>(s, t)\<in>P. {delta \<in> D. eval_poly_at s delta = eval_poly_at t delta})"
  have sub: "P \<subseteq> T \<times> T" and TT: "finite (T \<times> T)" using assms(1) by (auto simp: P_def)
  have fin: "finite P" by (rule finite_subset [OF sub TT])
  have P: "card P \<le> card T * card T" using card_mono [OF TT sub] by (simp only: card_cartesian_product)
  have "card bad \<le> (\<Sum>p\<in>P. card {delta \<in> D. eval_poly_at (fst p) delta = eval_poly_at (snd p) delta})"
    unfolding bad_def case_prod_beta by (rule card_UN_le [OF fin])
  also have "\<dots> \<le> (\<Sum>p\<in>P. m)"
  proof (rule sum_mono)
    fix p assume "p \<in> P"
    then have "fst p \<in> T" and "snd p \<in> T" and "fst p \<noteq> snd p" by (auto simp: P_def)
    then show "card {delta \<in> D. eval_poly_at (fst p) delta = eval_poly_at (snd p) delta} \<le> m"
      using colliding_challenges [OF assms(2), of "fst p" m "snd p"] assms(3) by (simp add: less_imp_le)
  qed
  also have "\<dots> \<le> card T * card T * m" using P by (simp only: sum_constant of_nat_id mult_le_mono1)
  finally have "card bad < card D" using assms(4) by linarith
  moreover have "finite bad" unfolding bad_def using fin assms(2) by auto
  ultimately obtain delta where "delta \<in> D" and "delta \<notin> bad" by (meson card_mono linorder_not_le subsetI)
  then have "s = t" if "s \<in> T" and "t \<in> T" and "eval_poly_at s delta = eval_poly_at t delta" for s t
    using that unfolding bad_def P_def by blast
  then show ?thesis using \<open>delta \<in> D\<close> by (intro bexI inj_onI)
qed

lemma mset_map_inj:
  assumes "inj_on f (set xs \<union> set ys)" and "mset (map f xs) = mset (map f ys)"
  shows "mset xs = mset ys"
proof -
  let ?g = "the_inv_into (set xs \<union> set ys) f"
  have "map ?g (map f zs) = zs" if "set zs \<subseteq> set xs \<union> set ys" for zs
    using that the_inv_into_f_f [OF assms(1)] by (auto intro!: map_idI)
  then show ?thesis using assms(2) by (metis Un_upper1 Un_upper2 mset_map)
qed

text \<open>Equal multisets of hashes for enough challenges are equal multisets of coefficient lists.\<close>

lemma polys_determined:
  fixes xs ys :: "'a::field list list"
  assumes "finite D" and "length xs \<le> n" and "length ys \<le> n" and "\<And>t. t \<in> set xs \<union> set ys \<Longrightarrow> length t = m"
    and "4 * n * n * m < card D"
    and "\<And>delta. delta \<in> D \<Longrightarrow> mset (map (\<lambda>p. eval_poly_at p delta) xs) = mset (map (\<lambda>p. eval_poly_at p delta) ys)"
  shows "mset xs = mset ys"
proof -
  let ?T = "set xs \<union> set ys"
  have "card ?T \<le> card (set xs) + card (set ys)" by (rule card_Un_le)
  then have T: "card ?T \<le> 2 * n" using assms(2,3) card_length [of xs] card_length [of ys] by linarith
  then have "card ?T * card ?T * m \<le> (2 * n) * (2 * n) * m" by (intro mult_le_mono) auto
  also have "\<dots> < card D" using assms(5) by (simp add: algebra_simps)
  finally have "card ?T * card ?T * m < card D" .
  moreover have "finite ?T" by simp
  ultimately have "\<exists>delta\<in>D. inj_on (\<lambda>p. eval_poly_at p delta) ?T" using assms(1,4) by (intro separating_challenge)
  then obtain delta where d: "delta \<in> D" and "inj_on (\<lambda>p. eval_poly_at p delta) ?T" ..
  from this(2) assms(6) [OF d] show ?thesis by (rule mset_map_inj)
qed

section \<open>Tuples\<close>

text \<open>An access as scalars: address, values, timestamp, write flag; its hash is a polynomial in the challenge.\<close>

type_synonym 'a access_tuple = "'a \<times> 'a list \<times> 'a \<times> 'a"

fun tuple_coeffs :: "'a::zero access_tuple \<Rightarrow> 'a list" where
  "tuple_coeffs (a, [], t, r) = [a, 0, t, r]"
| "tuple_coeffs (a, v # vs, t, r) = [a, v, t, r] @ concat (map (\<lambda>w. [0, w, 0, 0]) vs)"

definition tuple_key :: "'a::comm_ring_1 \<Rightarrow> 'a access_tuple \<Rightarrow> 'a" where
  "tuple_key delta t = eval_poly_at (tuple_coeffs t) delta"

lemma combine_values_eval: "combine_values delta vs = eval_poly_at vs (delta ^ 4)"
proof -
  have gen: "fst (fold (\<lambda>v (c, p). (c + p * v, p * d)) vs (c, p)) = c + p * eval_poly_at vs d" for c p d :: 'a
    by (induction vs arbitrary: c p) (simp_all add: eval_Cons algebra_simps)
  have pow: "delta * delta * (delta * delta) = delta ^ 4" by (simp add: power4_eq_xxxx mult.assoc)
  show ?thesis
  proof (cases "length vs = 1")
    case True
    then show ?thesis by (auto simp: combine_values_def length_Suc_conv eval_Cons)
  next
    case False
    then show ?thesis by (simp only: combine_values_def Let_def pow gen if_False) simp
  qed
qed

lemma tuple_key_eq:
  "tuple_key delta (a, vs, t, r)
   = a + delta * combine_values delta vs + (delta * delta) * t + (delta * delta * delta) * r"
proof -
  have "eval_poly_at (concat (map (\<lambda>w. [0, w, 0, 0]) ws)) delta = delta * eval_poly_at ws (delta ^ 4)" for ws
    by (induction ws) (simp_all add: eval_Cons power4_eq_xxxx algebra_simps)
  then show ?thesis
    by (cases vs) (simp_all add: tuple_key_def combine_values_eval eval_Cons power4_eq_xxxx algebra_simps)
qed

lemma length_tuple_coeffs: "length (tuple_coeffs (a, vs, t, r)) = 4 * max 1 (length vs)"
proof -
  have "length (concat (map (\<lambda>w. [0, w, 0, 0 :: 'a]) ws)) = 4 * length ws" for ws by (induction ws) simp_all
  then show ?thesis by (cases vs) simp_all
qed

lemma spread_inject:
  "length xs = length ys \<Longrightarrow> concat (map (\<lambda>w. [0, w, 0, 0]) xs) = concat (map (\<lambda>w. [0, w, 0, 0]) ys) \<Longrightarrow> xs = ys"
  by (induction xs ys rule: list_induct2) auto

lemma tuple_coeffs_inject:
  assumes "length vs = length ws" and "tuple_coeffs (a, vs, t, r) = tuple_coeffs (b, ws, u, q)"
  shows "(a, vs, t, r) = (b, ws, u, q)"
proof (cases vs)
  case Nil
  then show ?thesis using assms by simp
next
  case (Cons v vs')
  moreover from this obtain w ws' where "ws = w # ws'" using assms(1) by (cases ws) auto
  ultimately show ?thesis using assms spread_inject [of vs' ws'] by simp
qed

lemma tuples_determined:
  fixes xs ys :: "'a::field access_tuple list"
  assumes "finite D" and "length xs = n" and "length ys = n"
    and "\<And>t. t \<in> set xs \<union> set ys \<Longrightarrow> length (fst (snd t)) = v"
    and "16 * n * n * (v + 1) < card D"
    and "\<And>delta. delta \<in> D \<Longrightarrow> mset (map (tuple_key delta) xs) = mset (map (tuple_key delta) ys)"
  shows "mset xs = mset ys"
proof (rule mset_map_inj)
  show "inj_on tuple_coeffs (set xs \<union> set ys)"
  proof (rule inj_onI)
    fix s t assume st: "s \<in> set xs \<union> set ys" "t \<in> set xs \<union> set ys" "tuple_coeffs s = tuple_coeffs t"
    obtain a vs x r b ws y q where eq: "s = (a, vs, x, r)" "t = (b, ws, y, q)" by (metis surj_pair)
    moreover have "length vs = length ws" using assms(4) [OF st(1)] assms(4) [OF st(2)] eq by simp
    ultimately show "s = t" using st(3) tuple_coeffs_inject [of vs ws a x r b y q] by simp
  qed
  have bound: "4 * n * n * (4 * max 1 v) \<le> 16 * n * n * (v + 1)" by simp
  show "mset (map tuple_coeffs xs) = mset (map tuple_coeffs ys)"
  proof (rule polys_determined [OF assms(1), of _ n _ "4 * max 1 v"])
    show "length t = 4 * max 1 v" if "t \<in> set (map tuple_coeffs xs) \<union> set (map tuple_coeffs ys)" for t
    proof -
      obtain u where "t = tuple_coeffs u" and u: "u \<in> set xs \<union> set ys" using \<open>t \<in> _\<close> by auto
      moreover obtain a vs x r where "u = (a, vs, x, r)" by (metis surj_pair)
      ultimately show ?thesis using assms(4) [OF u] length_tuple_coeffs [of a vs x r] by simp
    qed
    show "4 * n * n * (4 * max 1 v) < card D" using bound assms(5) by linarith
    show "mset (map (\<lambda>p. eval_poly_at p delta) (map tuple_coeffs xs)) = mset (map (\<lambda>p. eval_poly_at p delta) (map tuple_coeffs ys))"
      if "delta \<in> D" for delta
      using assms(6) [OF that] by (simp add: tuple_key_def [abs_def] comp_def)
  qed (use assms in simp_all)
qed

section \<open>Memory argument at a row\<close>

lemma memory_layout_simps [simp]:
  "l_sorted_addr (memory_layout v) = 0" "l_sorted_val_start (memory_layout v) = 1" "l_num_val_columns (memory_layout v) = v"
  "l_sorted_ts (memory_layout v) = 1 + v" "l_sorted_rw (memory_layout v) = 2 + v" "l_z_column (memory_layout v) = 3 + v"
  "l_is_same_addr (memory_layout v) = 4 + v" "l_inv_addr_diff (memory_layout v) = 5 + v"
  "l_original_ts (memory_layout v) = 6 + v" "l_num_columns (memory_layout v) = 7 + v"
  by (simp_all add: memory_layout_def)

lemma register_layout_simps [simp]:
  "r_num_ports (register_layout p) = p" "r_z_column (register_layout p) = 4 * p" "r_is_same_reg_start (register_layout p) = 4 * p + 1"
  "r_inv_reg_diff_start (register_layout p) = 5 * p + 1" "r_row_ts (register_layout p) = 6 * p + 1"
  by (simp_all add: register_layout_def Let_def)

text \<open>The columns opened at the shifted point are looked up by their position among \<open>indices\<close>.\<close>

lemma shifted_lookup:
  "list_all (\<lambda>c. c \<in> set indices) cs \<Longrightarrow> those (map (map_of (zip indices (map f indices))) cs) = Some (map f cs)"
  by (induction cs) (simp_all add: map_of_zip_map)

text \<open>The values of a list of columns in a row, and acceptance of all rows of a domain.\<close>

definition row_of :: "'a list list \<Rightarrow> nat \<Rightarrow> 'a list" where
  "row_of cols i = map (\<lambda>c. c ! i) cols"

definition memory_accepts ::
  "'a::field list list \<Rightarrow> 'a list list \<Rightarrow> memory_columns \<Rightarrow> 'a \<Rightarrow> 'a \<Rightarrow> 'a \<Rightarrow> nat \<Rightarrow> 'a set \<Rightarrow> nat \<Rightarrow> bool" where
  "memory_accepts forms perm mc gamma delta omega n A off \<longleftrightarrow>
     (\<forall>i<n. \<forall>alpha\<in>A.
        memory_permutation_at_point (row_of perm i) (row_of perm (Suc i mod n)) (row_of forms i) mc gamma delta
          (omega ^ i) (omega ^ (n - 1)) (of_nat n) alpha off = 0)"

text \<open>The access that the trace columns describe in a row, and the one of the sorted columns.\<close>

definition trace_tuple :: "'a::field list \<Rightarrow> memory_columns \<Rightarrow> 'a \<Rightarrow> 'a access_tuple" where
  "trace_tuple cols mc ts =
     (let rw = sum_columns cols (mc_stores mc) 0;
          real_mem = sum_columns cols (mc_loads mc) rw
      in (real_mem * cols ! mc_addr mc + (1 - real_mem) * scalar_from_u64 sentinel,
          map (\<lambda>vc. cols ! vc) (mc_vals mc), ts, rw))"

definition sorted_tuple :: "'a list list \<Rightarrow> nat \<Rightarrow> nat \<Rightarrow> 'a access_tuple" where
  "sorted_tuple perm v i =
     (perm ! 0 ! i, map (\<lambda>k. perm ! (1 + k) ! i) [0..<v], perm ! (1 + v) ! i, perm ! (2 + v) ! i)"

lemma memory_numerator_key: "memory_numerator cols mc ts gamma delta = gamma + tuple_key delta (trace_tuple cols mc ts)"
  by (simp add: memory_numerator_def trace_tuple_def tuple_key_eq Let_def algebra_simps)

lemma memory_denominator_key:
  assumes "length perm = 7 + v"
  shows "memory_denominator (row_of perm i) (memory_layout v) gamma delta = gamma + tuple_key delta (sorted_tuple perm v i)"
proof -
  have row: "row_of perm i ! c = perm ! c ! i" if "c < 7 + v" for c using assms that by (simp add: row_of_def)
  have vals: "map (\<lambda>k. row_of perm i ! (1 + k)) [0..<v] = map (\<lambda>k. perm ! (1 + k) ! i) [0..<v]"
    by (intro map_cong refl row) simp
  have "memory_denominator (row_of perm i) (memory_layout v) gamma delta
    = gamma + row_of perm i ! 0 + delta * combine_values delta (map (\<lambda>k. row_of perm i ! (1 + k)) [0..<v])
      + delta * delta * (row_of perm i ! (1 + v)) + delta * delta * delta * (row_of perm i ! (2 + v))"
    by (simp add: memory_denominator_def Let_def)
  then show ?thesis unfolding vals by (simp add: row sorted_tuple_def tuple_key_eq)
qed

definition memory_bodies ::
  "'a::field list \<Rightarrow> 'a list \<Rightarrow> 'a list \<Rightarrow> memory_columns \<Rightarrow> 'a \<Rightarrow> 'a \<Rightarrow> 'a \<Rightarrow> 'a \<Rightarrow> u64 \<Rightarrow> 'a list" where
  "memory_bodies evals sevals cols mc gamma delta z omega_n_minus_1 domain_size =
     permutation_bodies evals sevals (memory_layout (length (mc_vals mc))) z omega_n_minus_1
       @ grand_product_bodies evals sevals cols (memory_layout (length (mc_vals mc))) mc gamma delta z domain_size"

lemma length_memory_bodies:
  "sevals \<noteq> [] \<Longrightarrow> length (memory_bodies evals sevals cols mc gamma delta z om dsize) = 5 + length (mc_vals mc)"
  by (simp add: memory_bodies_def permutation_bodies_def grand_product_bodies_def Let_def)

lemma memory_permutation_at_point_bodies:
  assumes "sevals \<noteq> []"
  shows "memory_permutation_at_point evals sevals cols mc gamma delta z om dsize alpha off
         = add_bodies alpha off (memory_bodies evals sevals cols mc gamma delta z om dsize)"
proof -
  have "length (permutation_bodies evals sevals (memory_layout v) z om) = 3 + v" for v
    using assms by (simp add: permutation_bodies_def Let_def)
  then show ?thesis
    by (simp add: memory_permutation_at_point_def memory_bodies_def add_bodies_append Let_def
      evaluate_permutation_constraints_at_point_def evaluate_grand_product_at_point_def add.assoc)
qed

text \<open>The conditions that the constraints express in row \<open>i\<close>, with \<open>j\<close> the next row.\<close>

definition memory_row_ok ::
  "'a::field list list \<Rightarrow> 'a list list \<Rightarrow> memory_columns \<Rightarrow> 'a \<Rightarrow> 'a \<Rightarrow> nat \<Rightarrow> nat \<Rightarrow> bool" where
  "memory_row_ok forms perm mc gamma delta n i \<longleftrightarrow>
     (let v = length (mc_vals mc);
          j = Suc i mod n;
          isa = perm ! (4 + v) ! j;
          diff = perm ! 0 ! j - perm ! 0 ! i
      in perm ! (4 + v) ! i * (perm ! (4 + v) ! i - 1) = 0
         \<and> (i \<noteq> n - 1 \<longrightarrow> isa * diff = 0 \<and> (1 - isa) * (1 - diff * perm ! (5 + v) ! j) = 0
              \<and> (\<forall>k<v. isa * (1 - perm ! (2 + v) ! j) * (perm ! (1 + k) ! j - perm ! (1 + k) ! i) = 0))
         \<and> perm ! (3 + v) ! j * (gamma + tuple_key delta (sorted_tuple perm v i))
             = perm ! (3 + v) ! i * (gamma + tuple_key delta (trace_tuple (row_of forms i) mc (perm ! (6 + v) ! i)))
         \<and> (i = 0 \<longrightarrow> perm ! (3 + v) ! i = 1))"

lemma memory_bodies_iff:
  assumes "root_domain omega n" and "i < n" and "length perm = 7 + length (mc_vals mc)"
  shows "set (memory_bodies (row_of perm i) (row_of perm (Suc i mod n)) (row_of forms i) mc gamma delta (omega ^ i)
             (omega ^ (n - 1)) (of_nat n)) \<subseteq> {0}
         \<longleftrightarrow> memory_row_ok forms perm mc gamma delta n i"
proof -
  let ?v = "length (mc_vals mc)"
  have row: "row_of perm j ! c = perm ! c ! j" if "c < 7 + ?v" for c j using assms(3) that by (simp add: row_of_def)
  have ne: "row_of perm j \<noteq> []" for j using assms(3) by (auto simp: row_of_def)
  have ex: "omega ^ i - omega ^ (n - 1) = 0 \<longleftrightarrow> i = n - 1" by (rule exclusion_domain [OF assms(1,2)])
  note l0 = first_lagrange_domain [OF assms(1,2)]
  have perm: "set (permutation_bodies (row_of perm i) (row_of perm (Suc i mod n)) (memory_layout ?v) (omega ^ i) (omega ^ (n - 1))) \<subseteq> {0}
    \<longleftrightarrow> (let j = Suc i mod n; isa = perm ! (4 + ?v) ! j; diff = perm ! 0 ! j - perm ! 0 ! i
      in perm ! (4 + ?v) ! i * (perm ! (4 + ?v) ! i - 1) = 0
         \<and> (i \<noteq> n - 1 \<longrightarrow> isa * diff = 0 \<and> (1 - isa) * (1 - diff * perm ! (5 + ?v) ! j) = 0
              \<and> (\<forall>k<?v. isa * (1 - perm ! (2 + ?v) ! j) * (perm ! (1 + k) ! j - perm ! (1 + k) ! i) = 0)))"
    unfolding permutation_bodies_def Let_def
    using ne ex by (auto simp: row image_subset_iff)
  have gp: "grand_product_bodies (row_of perm i) (row_of perm (Suc i mod n)) (row_of forms i) (memory_layout ?v) mc gamma delta
      (omega ^ i) (of_nat n)
    = [perm ! (3 + ?v) ! (Suc i mod n) * (gamma + tuple_key delta (sorted_tuple perm ?v i))
         - perm ! (3 + ?v) ! i * (gamma + tuple_key delta (trace_tuple (row_of forms i) mc (perm ! (6 + ?v) ! i))),
       (if i = 0 then 1 else 0) * (perm ! (3 + ?v) ! i - 1)]"
    by (simp add: grand_product_bodies_def memory_numerator_key memory_denominator_key [OF assms(3)] row l0 Let_def)
  show ?thesis
    unfolding memory_bodies_def set_append Un_subset_iff perm gp memory_row_ok_def Let_def by simp
qed

lemma row_ne: "cols \<noteq> [] \<Longrightarrow> row_of cols i \<noteq> []"
  by (simp add: row_of_def)

lemma rows_ok_accepts:
  assumes "root_domain omega n" and "length perm = 7 + length (mc_vals mc)"
    and "\<And>i. i < n \<Longrightarrow> memory_row_ok forms perm mc gamma delta n i"
  shows "memory_accepts forms perm mc gamma delta omega n A off"
proof -
  have "perm \<noteq> []" using assms(2) by auto
  then show ?thesis
    unfolding memory_accepts_def
    using memory_bodies_iff [OF assms(1) _ assms(2)] assms(3)
    by (simp add: memory_permutation_at_point_bodies row_ne add_bodies_zero)
qed

lemma accepts_rows_ok:
  assumes "root_domain omega n" and "length perm = 7 + length (mc_vals mc)"
    and "finite A" and "5 + length (mc_vals mc) \<le> card A" and "0 \<notin> A"
    and "memory_accepts forms perm mc gamma delta omega n A off" and "i < n"
  shows "memory_row_ok forms perm mc gamma delta n i"
proof -
  let ?b = "memory_bodies (row_of perm i) (row_of perm (Suc i mod n)) (row_of forms i) mc gamma delta (omega ^ i)
    (omega ^ (n - 1)) (of_nat n)"
  have ne: "row_of perm j \<noteq> []" for j using assms(2) by (auto simp: row_of_def)
  have "add_bodies alpha off ?b = 0" if "alpha \<in> A" for alpha
    using assms(6,7) that unfolding memory_accepts_def memory_permutation_at_point_bodies [OF ne] by blast
  then have "set ?b \<subseteq> {0}"
    using assms(3-5) by (intro add_bodies_separate [of A]) (simp_all add: length_memory_bodies ne)
  then show ?thesis using memory_bodies_iff [OF assms(1,7,2)] by blast
qed

section \<open>Soundness and its limits\<close>

lemma sorted_row_reads:
  assumes "memory_row_ok forms perm mc gamma delta n i" and "Suc i < n"
    and "perm ! 0 ! Suc i = perm ! 0 ! i" and "perm ! (2 + length (mc_vals mc)) ! Suc i \<noteq> 1" and "k < length (mc_vals mc)"
  shows "perm ! (1 + k) ! Suc i = perm ! (1 + k) ! i"
  using assms by (auto simp: memory_row_ok_def Let_def)

lemma sorted_tuple_update: "sorted_tuple (perm[3 + v := zcol]) v i = sorted_tuple perm v i"
  by (simp add: sorted_tuple_def)

lemma prod_list_lessThan: "(\<Prod>i\<leftarrow>[0..<n]. g i) = (\<Prod>i<n. g i)"
  by (induction n) simp_all

text \<open>
  C7. Soundness of the memory argument: if for enough challenges there is an accumulator column that makes
  the verifier's value vanish in every row, the sorted columns hold exactly the accesses of the trace, and
  a read that follows an access to the same address in the sorted columns has the same value.
\<close>
theorem memory_argument_sound:
  fixes forms perm :: "'a::field list list"
  assumes dom: "root_domain omega n" and perm: "length perm = 7 + length (mc_vals mc)"
    and A: "finite A" "5 + length (mc_vals mc) \<le> card A" "0 \<notin> A"
    and G: "finite G" "n < card G"
    and D: "finite D" "16 * n * n * (length (mc_vals mc) + 1) < card D"
    and acc: "\<forall>delta\<in>D. \<forall>gamma\<in>G. \<exists>zcol.
      memory_accepts forms (perm[3 + length (mc_vals mc) := zcol]) mc gamma delta omega n A off"
  shows "mset (map (\<lambda>i. trace_tuple (row_of forms i) mc (perm ! (6 + length (mc_vals mc)) ! i)) [0..<n])
           = mset (map (sorted_tuple perm (length (mc_vals mc))) [0..<n])
         \<and> (\<forall>i k. Suc i < n \<longrightarrow> k < length (mc_vals mc) \<longrightarrow> perm ! 0 ! Suc i = perm ! 0 ! i
               \<longrightarrow> perm ! (2 + length (mc_vals mc)) ! Suc i \<noteq> 1 \<longrightarrow> perm ! (1 + k) ! Suc i = perm ! (1 + k) ! i)"
proof -
  let ?v = "length (mc_vals mc)"
  let ?t = "\<lambda>i. trace_tuple (row_of forms i) mc (perm ! (6 + ?v) ! i)"
  let ?s = "sorted_tuple perm ?v"
  have ok: "\<exists>zcol. \<forall>i<n. memory_row_ok forms (perm[3 + ?v := zcol]) mc gamma delta n i" if "delta \<in> D" and "gamma \<in> G" for gamma delta
    using acc that accepts_rows_ok [OF dom _ A] perm by (metis length_list_update)
  have keys: "mset (map (tuple_key delta) (map ?s [0..<n])) = mset (map (tuple_key delta) (map ?t [0..<n]))" if d: "delta \<in> D" for delta
  proof (rule products_determine_multiset [OF G(1)])
    fix gamma assume "gamma \<in> G"
    then obtain zcol where "\<forall>i<n. memory_row_ok forms (perm[3 + ?v := zcol]) mc gamma delta n i" using ok [OF d] by blast
    then have step: "zcol ! (Suc i mod n) * (gamma + tuple_key delta (?s i)) = zcol ! i * (gamma + tuple_key delta (?t i))"
      and init: "zcol ! 0 = 1" if "i < n" for i
      using that perm dom by (auto simp: memory_row_ok_def Let_def sorted_tuple_update root_domain_def)
    have "(\<Prod>i<n. gamma + tuple_key delta (?s i)) = (\<Prod>i<n. gamma + tuple_key delta (?t i))"
      using dom init step by (intro closed_accumulator [of n "\<lambda>i. zcol ! i"]) (auto simp: root_domain_def)
    then show "(\<Prod>x\<leftarrow>map (tuple_key delta) (map ?s [0..<n]). gamma + x) = (\<Prod>x\<leftarrow>map (tuple_key delta) (map ?t [0..<n]). gamma + x)"
      by (simp only: map_map prod_list_lessThan comp_def)
  qed (use G in simp_all)
  have "mset (map ?s [0..<n]) = mset (map ?t [0..<n])"
    using keys D by (intro tuples_determined [of D _ n _ ?v]) (auto simp: trace_tuple_def sorted_tuple_def Let_def)
  moreover have "perm ! (1 + k) ! Suc i = perm ! (1 + k) ! i"
    if i: "Suc i < n" and r: "k < ?v" "perm ! 0 ! Suc i = perm ! 0 ! i" "perm ! (2 + ?v) ! Suc i \<noteq> 1" for i k
  proof -
    have "D \<noteq> {}" and "G \<noteq> {}" using D G by auto
    then obtain gamma delta zcol where "memory_row_ok forms (perm[3 + ?v := zcol]) mc gamma delta n i" using ok i by (meson Suc_lessD all_not_in_conv)
    from sorted_row_reads [OF this i, of k] r show ?thesis by simp
  qed
  ultimately show ?thesis by auto
qed

text \<open>Two rows: a store of 7 at address 5 and a load of it.\<close>

lemma root_domain_2: "root_domain (- 1 :: rat) 2"
  by (simp add: root_domain_def upt_rec)

theorem memory_argument_sound_witness:
  "(let mc = \<lparr>mc_addr = 0, mc_vals = [1], mc_loads = [2], mc_stores = [3]\<rparr>;
        forms = [[5, 5], [7, 7], [0, 1], [1, 0]] :: rat list list;
        perm = [[5, 5], [7, 7], [0, 1], [1, 0], [1, 1], [0, 1], [0, 0], [0, 1]]
    in mset (map (\<lambda>i. trace_tuple (row_of forms i) mc (perm ! 7 ! i)) [0..<2]) = mset (map (sorted_tuple perm 1) [0..<2])
       \<and> perm ! 1 ! 1 = perm ! 1 ! 0)"
proof -
  let ?mc = "\<lparr>mc_addr = 0, mc_vals = [1], mc_loads = [2], mc_stores = [3]\<rparr>"
  let ?forms = "[[5, 5], [7, 7], [0, 1], [1, 0]] :: rat list list"
  let ?perm = "[[5, 5], [7, 7], [0, 1], [1, 0], [1, 1], [0, 1], [0, 0], [0, 1]] :: rat list list"
  let ?S = "\<lambda>k::nat. rat_of_nat ` {1..k}"
  have card: "card (?S k) = k" for k by (simp add: card_image)
  have rows: "memory_row_ok ?forms ?perm ?mc gamma delta 2 i" if "i < 2" for gamma delta i
  proof -
    have "i = 0 \<or> i = 1" using that by linarith
    then show ?thesis
      by (elim disjE) (simp_all add: memory_row_ok_def sorted_tuple_def trace_tuple_def row_of_def sum_columns_def)
  qed
  have "memory_accepts ?forms ?perm ?mc gamma delta (- 1) 2 (?S 10) 0" for gamma delta
    by (rule rows_ok_accepts [OF root_domain_2 _ rows]) simp_all
  then have acc: "\<forall>delta\<in>?S 200. \<forall>gamma\<in>?S 10. \<exists>zcol.
      memory_accepts ?forms (?perm[3 + length (mc_vals ?mc) := zcol]) ?mc gamma delta (- 1) 2 (?S 10) 0"
    by (intro ballI exI [of _ "[1, 1]"]) simp
  have nz: "0 \<notin> ?S 10" by auto
  have "length ?perm = 7 + length (mc_vals ?mc)" and "5 + length (mc_vals ?mc) \<le> card (?S 10)" and "2 < card (?S 10)"
    and "16 * 2 * 2 * (length (mc_vals ?mc) + 1) < card (?S 200)"
    by (simp_all only: card) simp_all
  from memory_argument_sound [OF root_domain_2 this(1) _ this(2) nz _ this(3) _ this(4) acc]
  have "mset (map (\<lambda>i. trace_tuple (row_of ?forms i) ?mc (?perm ! (6 + length (mc_vals ?mc)) ! i)) [0..<2])
        = mset (map (sorted_tuple ?perm (length (mc_vals ?mc))) [0..<2])"
    and "Suc 0 < 2 \<longrightarrow> 0 < length (mc_vals ?mc) \<longrightarrow> ?perm ! 0 ! Suc 0 = ?perm ! 0 ! 0
      \<longrightarrow> ?perm ! (2 + length (mc_vals ?mc)) ! Suc 0 \<noteq> 1 \<longrightarrow> ?perm ! (1 + 0) ! Suc 0 = ?perm ! (1 + 0) ! 0"
    by blast+
  then show ?thesis by (simp only: Let_def) simp
qed

text \<open>Columns chosen after the challenges are known: row numbers as addresses, values that match the hashes.\<close>

definition forged_columns ::
  "'a::field list list \<Rightarrow> memory_columns \<Rightarrow> nat \<Rightarrow> 'a \<Rightarrow> 'a list list" where
  "forged_columns forms mc n delta =
     (let key = (\<lambda>i. tuple_key delta (trace_tuple (row_of forms i) mc 0))
      in [map of_nat [0..<n], map (\<lambda>i. (key i - of_nat i) / delta) [0..<n]]
           @ replicate (length (mc_vals mc) + 1) (replicate n 0)
           @ [replicate n 1, replicate n 0, replicate n 1, replicate n 0])"

lemma forged_nth:
  fixes forms :: "'a::field list list" and delta :: 'a
  assumes "i < n" and "0 < length (mc_vals mc)"
  defines "v \<equiv> length (mc_vals mc)" and "F \<equiv> forged_columns forms mc n delta"
  shows "F ! 0 ! i = of_nat i"
    and "F ! 1 ! i = (tuple_key delta (trace_tuple (row_of forms i) mc 0) - of_nat i) / delta"
    and "2 \<le> c \<Longrightarrow> c < v + 3 \<Longrightarrow> F ! c ! i = 0"
    and "F ! (3 + v) ! i = 1" and "F ! (4 + v) ! i = 0" and "F ! (5 + v) ! i = 1" and "F ! (6 + v) ! i = 0"
    and "length F = 7 + v"
proof -
  show "2 \<le> c \<Longrightarrow> c < v + 3 \<Longrightarrow> F ! c ! i = 0"
  proof -
    assume "2 \<le> c" and "c < v + 3"
    then obtain d where "c = Suc (Suc d)" and "d < Suc v" by (intro that [of "c - 2"]) linarith+
    then show ?thesis using assms(1) by (cases d) (simp_all add: F_def forged_columns_def nth_append v_def)
  qed
qed (use assms in \<open>simp_all add: F_def v_def forged_columns_def nth_append numeral_eq_Suc\<close>)

lemma forged_sorted_key:
  assumes "i < n" and "0 < length (mc_vals mc)" and "delta \<noteq> 0"
  shows "tuple_key delta (sorted_tuple (forged_columns forms mc n delta) (length (mc_vals mc)) i)
         = tuple_key delta (trace_tuple (row_of forms i) mc 0)"
proof -
  let ?v = "length (mc_vals mc)" and ?F = "forged_columns forms mc n delta"
  note F = forged_nth [where forms = forms and delta = delta, OF assms(1,2)]
  let ?x = "(tuple_key delta (trace_tuple (row_of forms i) mc 0) - of_nat i) / delta"
  have "map (\<lambda>k. ?F ! (1 + k) ! i) [0..<?v] = ?x # replicate (?v - 1) 0"
  proof (rule nth_equalityI)
    show "map (\<lambda>k. ?F ! (1 + k) ! i) [0..<?v] ! k = (?x # replicate (?v - 1) 0) ! k"
      if "k < length (map (\<lambda>k. ?F ! (1 + k) ! i) [0..<?v])" for k
      using that F(2) F(3) [of "1 + k"] by (cases k) simp_all
  qed (use assms in simp)
  moreover have "eval_poly_at (replicate m (0 :: 'a)) z = 0" for m z by (intro eval_zero) auto
  ultimately have "tuple_key delta (sorted_tuple ?F ?v i) = of_nat i + delta * ?x"
    using F(1) F(3) [of "1 + ?v"] F(3) [of "2 + ?v"] assms(2)
    by (simp add: sorted_tuple_def tuple_key_eq combine_values_eval eval_Cons)
  then show ?thesis using assms(3) by simp
qed

text \<open>
  C6. The challenges of the memory argument are drawn before its columns are committed, and neither the order
  nor the timestamps of the sorted columns are checked: for every trace, and every pair of challenges with
  a non-zero second one, there are columns that make the verifier's value vanish in every row, whatever
  the loads of the trace return.
\<close>
theorem memory_argument_forgeable:
  fixes forms :: "'a::field list list"
  assumes "root_domain omega n" and "mc_vals mc \<noteq> []" and "delta \<noteq> 0"
  shows "\<exists>perm. length perm = l_num_columns (memory_layout (length (mc_vals mc)))
           \<and> memory_accepts forms perm mc gamma delta omega n UNIV off"
proof (intro exI conjI)
  let ?F = "forged_columns forms mc n delta"
  have v: "0 < length (mc_vals mc)" using assms(2) by simp
  have n: "0 < n" using assms(1) by (simp add: root_domain_def)
  show "length ?F = l_num_columns (memory_layout (length (mc_vals mc)))"
    using forged_nth(8) [OF n v] by simp
  show "memory_accepts forms ?F mc gamma delta omega n UNIV off"
  proof (rule rows_ok_accepts [OF assms(1) forged_nth(8) [OF n v]])
    fix i assume i: "i < n"
    have j: "Suc i mod n < n" using n by simp
    have "of_nat (Suc i mod n) - (of_nat i :: 'a) = 1" if "i \<noteq> n - 1" using that i by simp
    then show "memory_row_ok forms ?F mc gamma delta n i"
      using forged_nth [where forms = forms and delta = delta, OF i v] forged_nth [where forms = forms and delta = delta, OF j v]
        forged_sorted_key [OF i v assms(3), of forms]
      unfolding memory_row_ok_def Let_def by (intro conjI impI allI) simp_all
  qed
qed

theorem memory_argument_forgeable_witness:
  "\<exists>perm. length perm = 8 \<and>
     memory_accepts [[5, 5], [7, 9], [0, 1], [1, 0 :: rat]] perm \<lparr>mc_addr = 0, mc_vals = [1], mc_loads = [2], mc_stores = [3]\<rparr>
       11 13 (- 1) 2 UNIV 0"
  using memory_argument_forgeable [OF root_domain_2, of "\<lparr>mc_addr = 0, mc_vals = [1], mc_loads = [2], mc_stores = [3]\<rparr>" 13
    "[[5, 5], [7, 9], [0, 1], [1, 0]]" 11 0] by simp

end
