(* ===== verification/Zkp_Lookup.thy ===== *)
theory Zkp_Lookup
  imports Zkp_Bytes Zkp_Permutation_Sound
begin

text \<open>
  The range checks of \<^verbatim>\<open>crates/zkp/src/lookup.rs\<close> as wired in \<^verbatim>\<open>prover.rs\<close> and \<^verbatim>\<open>verifier.rs\<close>: declared columns
  are split into byte limbs, and a running sum of inverses (LogUp) compares the limbs with the table of the
  256 bytes.

  Columns are lists of scalars over the domain, one value per row; a row of the auxiliary columns is laid
  out as \<open>limbs | f | t | u_t | h | m\<close>. Scalars are elements of an abstract field; the conversions of \<^verbatim>\<open>field.rs\<close> to
  machine integers and bytes wrap third-party crates and are the parameters \<open>to_u64\<close> and \<open>to_bytes\<close>. The
  inverse of zero is not used by an accepted row.
\<close>

section \<open>Declarations and groups\<close>

record lookup_declaration =
  ld_column_index :: nat
  ld_max_bits :: nat
  ld_selector_column :: "nat option"

record logup_group =
  lg_column_index :: nat
  lg_max_bits :: nat
  lg_num_limbs :: nat
  lg_selectors :: "nat list"

text \<open>The entry of an ordered map: keys are pairs in lexicographic order, a missing key gets an empty vector.\<close>

fun group_entry :: "nat \<times> nat \<Rightarrow> (nat list \<Rightarrow> nat list) \<Rightarrow> ((nat \<times> nat) \<times> nat list) list \<Rightarrow> ((nat \<times> nat) \<times> nat list) list" where
  "group_entry k f [] = [(k, f [])]"
| "group_entry k f ((k', v) # rest) =
     (if k = k' then (k', f v) # rest
      else if fst k < fst k' \<or> fst k = fst k' \<and> snd k < snd k' then (k, f []) # (k', v) # rest
      else (k', v) # group_entry k f rest)"

definition push_selector :: "nat option \<Rightarrow> nat list \<Rightarrow> nat list" where
  "push_selector sel entry = (case sel of None \<Rightarrow> entry | Some s \<Rightarrow> if s \<in> set entry then entry else entry @ [s])"

definition group_declarations :: "(lookup_declaration \<times> nat) list \<Rightarrow> logup_group list" where
  "group_declarations declarations =
     (let groups = fold (\<lambda>(decl, table_idx).
            group_entry (ld_column_index decl, ld_max_bits decl) (push_selector (ld_selector_column decl))) declarations []
      in map (\<lambda>((col_idx, max_bits), selectors).
           \<lparr>lg_column_index = col_idx, lg_max_bits = max_bits, lg_num_limbs = (max_bits + 7) div 8, lg_selectors = selectors\<rparr>)
         groups)"

section \<open>Layouts\<close>

record logup_layout =
  ll_limb_offsets :: "(nat \<times> nat) list"
  ll_h_column :: nat
  ll_m_column :: nat
  ll_num_columns :: nat

record extended_logup_layout =
  xl_limb_offsets :: "(nat \<times> nat) list"
  xl_f_offsets :: "(nat \<times> nat) list"
  xl_t_column :: nat
  xl_u_t_column :: nat
  xl_h_column :: nat
  xl_m_column :: nat
  xl_num_columns :: nat

text \<open>The loop that hands out limb columns from an offset on, with the offset after it.\<close>

fun limb_offsets :: "nat \<Rightarrow> logup_group list \<Rightarrow> (nat \<times> nat) list \<times> nat" where
  "limb_offsets offset [] = ([], offset)"
| "limb_offsets offset (grp # groups) =
     (case limb_offsets (offset + lg_num_limbs grp) groups of (offs, stop) \<Rightarrow> ((offset, lg_num_limbs grp) # offs, stop))"

definition logup_column_layout :: "logup_group list \<Rightarrow> logup_layout" where
  "logup_column_layout groups =
     (case limb_offsets 0 groups of (offs, offset) \<Rightarrow>
        \<lparr>ll_limb_offsets = offs, ll_h_column = offset, ll_m_column = offset + 1, ll_num_columns = offset + 2\<rparr>)"

definition extended_logup_column_layout :: "logup_group list \<Rightarrow> extended_logup_layout" where
  "extended_logup_column_layout groups =
     (case limb_offsets 0 groups of (limb_offs, offset) \<Rightarrow>
      case limb_offsets offset groups of (f_offs, offset) \<Rightarrow>
        \<lparr>xl_limb_offsets = limb_offs, xl_f_offsets = f_offs, xl_t_column = offset, xl_u_t_column = offset + 1,
         xl_h_column = offset + 2, xl_m_column = offset + 3, xl_num_columns = offset + 4\<rparr>)"

definition total_num_limbs :: "logup_group list \<Rightarrow> nat" where
  "total_num_limbs groups = sum_list (map lg_num_limbs groups)"

definition num_logup_constraints :: "logup_group list \<Rightarrow> nat" where
  "num_logup_constraints groups = length groups + 1"

definition num_extended_logup_constraints :: "logup_group list \<Rightarrow> nat" where
  "num_extended_logup_constraints groups = length groups + sum_list (map lg_num_limbs groups) + 3"

section \<open>The range table\<close>

definition RANGE_TABLE_SIZE :: nat where
  "RANGE_TABLE_SIZE = 256"

definition range_table_column :: "nat \<Rightarrow> 'a::field list" where
  "range_table_column domain_size =
     fold (\<lambda>i t. t[i := scalar_from_u64 (of_nat i)]) [0..<min domain_size RANGE_TABLE_SIZE] (replicate domain_size 0)"

text \<open>The search for the row of a domain point: the loop \<^verbatim>\<open>for i in 0..domain_size\<close> with its running power.\<close>

fun find_power :: "'a::field \<Rightarrow> 'a \<Rightarrow> 'a \<Rightarrow> nat list \<Rightarrow> nat option" where
  "find_power z omega pow [] = None"
| "find_power z omega pow (i # is) = (if pow - z = 0 then Some i else find_power z omega (pow * omega) is)"

definition evaluate_range_table_at_point :: "'a::field \<Rightarrow> 'a \<Rightarrow> nat \<Rightarrow> 'a" where
  "evaluate_range_table_at_point z omega domain_size =
     (let z_n = pow_loop 1 z domain_size;
          z_h = z_n - 1
      in if z_h = 0 then
           (case find_power z omega 1 [0..<domain_size] of
              None \<Rightarrow> 0
            | Some i \<Rightarrow> if i < RANGE_TABLE_SIZE then scalar_from_u64 (of_nat i) else 0)
         else
           let n_inv = inverse (scalar_from_u64 (of_nat domain_size));
               common = z_h * n_inv;
               (acc, omega_i) = fold (\<lambda>i (acc, omega_i).
                 (if 0 < i then acc + scalar_from_u64 (of_nat i) * omega_i * inverse (z - omega_i) else acc, omega_i * omega))
                 [0..<min domain_size RANGE_TABLE_SIZE] (0, 1)
           in common * acc)"

section \<open>The witness\<close>

definition decompose_to_bytes :: "u64 \<Rightarrow> nat \<Rightarrow> u8 list" where
  "decompose_to_bytes v num_limbs = map (\<lambda>i. if i < 8 then to_le_bytes 8 v ! i else 0) [0..<num_limbs]"

definition decompose_scalar_to_bytes :: "('a \<Rightarrow> u8 list) \<Rightarrow> 'a \<Rightarrow> nat \<Rightarrow> u8 list" where
  "decompose_scalar_to_bytes to_bytes v num_limbs =
     (let be_bytes = to_bytes v; acc = length be_bytes
      in map (\<lambda>i. if i < acc then be_bytes ! (acc - 1 - i) else 0) [0..<num_limbs])"

definition group_active :: "'a::field list list \<Rightarrow> logup_group \<Rightarrow> nat \<Rightarrow> bool" where
  "group_active cols grp row =
     (if lg_selectors grp = [] then True else list_ex (\<lambda>sel. cols ! sel ! row \<noteq> 0) (lg_selectors grp))"

definition row_bytes :: "('a::field \<Rightarrow> u64) \<Rightarrow> ('a \<Rightarrow> u8 list) \<Rightarrow> 'a list list \<Rightarrow> logup_group \<Rightarrow> nat \<Rightarrow> u8 list" where
  "row_bytes to_u64 to_bytes cols grp row =
     (let v = cols ! lg_column_index grp ! row
      in if lg_max_bits grp \<le> 64 then decompose_to_bytes (to_u64 v) (lg_num_limbs grp)
         else decompose_scalar_to_bytes to_bytes v (lg_num_limbs grp))"

definition group_limbs :: "('a::field \<Rightarrow> u64) \<Rightarrow> ('a \<Rightarrow> u8 list) \<Rightarrow> 'a list list \<Rightarrow> nat \<Rightarrow> logup_group \<Rightarrow> 'a list list" where
  "group_limbs to_u64 to_bytes cols domain_size grp =
     map (\<lambda>limb_idx. map (\<lambda>row. scalar_from_u64 (zx (row_bytes to_u64 to_bytes cols grp row ! limb_idx))) [0..<domain_size])
       [0..<lg_num_limbs grp]"

definition byte_counts :: "('a::field \<Rightarrow> u64) \<Rightarrow> ('a \<Rightarrow> u8 list) \<Rightarrow> 'a list list \<Rightarrow> logup_group list \<Rightarrow> nat \<Rightarrow> u64 list" where
  "byte_counts to_u64 to_bytes cols groups domain_size =
     fold (\<lambda>grp. fold (\<lambda>row counts.
         if group_active cols grp row
         then fold (\<lambda>b c. c[unat b := c ! unat b + 1]) (row_bytes to_u64 to_bytes cols grp row) counts
         else counts) [0..<domain_size]) groups (replicate 256 0)"

text \<open>What row \<open>i\<close> adds to the running sum: the inverses of the active limbs less the share of the table.\<close>

definition limb_sum :: "'a::field list list \<Rightarrow> logup_group list \<Rightarrow> 'a list list list \<Rightarrow> 'a \<Rightarrow> nat \<Rightarrow> 'a \<Rightarrow> 'a" where
  "limb_sum cols groups limb_columns gamma i acc =
     fold (\<lambda>g_idx s.
       let grp = groups ! g_idx
       in if group_active cols grp i then
            fold (\<lambda>limb_idx s. let denom = gamma - limb_columns ! g_idx ! limb_idx ! i
                               in if denom \<noteq> 0 then s + inverse denom else s) [0..<lg_num_limbs grp] s
          else s) [0..<length groups] acc"

definition h_step :: "'a::field list list \<Rightarrow> logup_group list \<Rightarrow> 'a list list list \<Rightarrow> 'a list \<Rightarrow> 'a \<Rightarrow> nat \<Rightarrow> 'a \<Rightarrow> 'a" where
  "h_step cols groups limb_columns m_column gamma i h =
     (let acc = limb_sum cols groups limb_columns gamma i h
      in if m_column ! i \<noteq> 0 then
           let table_denom = gamma - scalar_from_u64 (of_nat i)
           in if table_denom \<noteq> 0 then acc - m_column ! i * inverse table_denom else acc
         else acc)"

record 'a logup_witness =
  lw_limb_columns :: "'a list list list"
  lw_h_column :: "'a list"
  lw_m_column :: "'a list"

definition compute_logup_witness ::
  "('a::field \<Rightarrow> u64) \<Rightarrow> ('a \<Rightarrow> u8 list) \<Rightarrow> 'a list list \<Rightarrow> logup_group list \<Rightarrow> 'a \<Rightarrow> nat \<Rightarrow> 'a logup_witness" where
  "compute_logup_witness to_u64 to_bytes cols groups gamma domain_size =
     (let limb_columns = map (group_limbs to_u64 to_bytes cols domain_size) groups;
          counts = byte_counts to_u64 to_bytes cols groups domain_size;
          m_column = fold (\<lambda>i m. if i < domain_size then m[i := scalar_from_u64 (counts ! i)] else m) [0..<256]
            (replicate domain_size 0);
          h_column = fold (\<lambda>i h. h[i := h_step cols groups limb_columns m_column gamma (i - 1) (h ! (i - 1))])
            [1..<domain_size] (replicate domain_size 0)
      in \<lparr>lw_limb_columns = limb_columns, lw_h_column = h_column, lw_m_column = m_column\<rparr>)"

record 'a extended_logup_witness =
  xw_limb_columns :: "'a list list list"
  xw_f_columns :: "'a list list list"
  xw_t_column :: "'a list"
  xw_u_t_column :: "'a list"
  xw_h_column :: "'a list"
  xw_m_column :: "'a list"

definition compute_extended_logup_witness ::
  "('a::field \<Rightarrow> u64) \<Rightarrow> ('a \<Rightarrow> u8 list) \<Rightarrow> 'a list list \<Rightarrow> logup_group list \<Rightarrow> 'a \<Rightarrow> nat \<Rightarrow> 'a extended_logup_witness" where
  "compute_extended_logup_witness to_u64 to_bytes cols groups gamma domain_size =
     (let base = compute_logup_witness to_u64 to_bytes cols groups gamma domain_size;
          f_columns = map (\<lambda>(g_idx, grp). map (\<lambda>limb_idx.
              map (\<lambda>i. inverse (gamma - lw_limb_columns base ! g_idx ! limb_idx ! i)) [0..<domain_size])
            [0..<lg_num_limbs grp]) (zip [0..<length groups] groups);
          t_column = range_table_column domain_size;
          u_t_column = map (\<lambda>i. inverse (gamma - t_column ! i)) [0..<domain_size]
      in \<lparr>xw_limb_columns = lw_limb_columns base, xw_f_columns = f_columns, xw_t_column = t_column,
          xw_u_t_column = u_t_column, xw_h_column = lw_h_column base, xw_m_column = lw_m_column base\<rparr>)"

text \<open>The order in which the prover commits the columns.\<close>

definition logup_columns :: "'a extended_logup_witness \<Rightarrow> 'a list list" where
  "logup_columns w =
     concat (xw_limb_columns w) @ concat (xw_f_columns w) @
       [xw_t_column w, xw_u_t_column w, xw_h_column w, xw_m_column w]"

section \<open>The verifier's values\<close>

definition evaluate_decomposition_at_point :: "'a::field \<Rightarrow> 'a list \<Rightarrow> 'a option \<Rightarrow> 'a" where
  "evaluate_decomposition_at_point value_at_z limb_evals_at_z selector_at_z =
     (let (recomposed, power) = fold (\<lambda>limb (recomposed, power). (recomposed + limb * power, power * scalar_from_u64 256))
            limb_evals_at_z (0, 1);
          diff = value_at_z - recomposed
      in case selector_at_z of Some sel \<Rightarrow> sel * diff | None \<Rightarrow> diff)"

definition evaluate_inverse_at_point :: "'a::field \<Rightarrow> 'a \<Rightarrow> 'a \<Rightarrow> 'a" where
  "evaluate_inverse_at_point f_at_z value_at_z gamma = (let denom = gamma - value_at_z; prod = f_at_z * denom in prod - 1)"

definition evaluate_transition_at_point :: "'a::field \<Rightarrow> 'a \<Rightarrow> ('a \<times> 'a list) list \<Rightarrow> 'a \<Rightarrow> 'a \<Rightarrow> 'a" where
  "evaluate_transition_at_point h_at_z h_at_omega_z active_and_fs m_at_z u_t_at_z =
     (let lhs = fold (\<lambda>(active, f_evals) lhs.
            let group_sum = fold (\<lambda>f s. s + f) f_evals 0 in lhs - active * group_sum) active_and_fs (h_at_omega_z - h_at_z)
      in lhs + m_at_z * u_t_at_z)"

definition selector_sum :: "'a::field list \<Rightarrow> logup_group \<Rightarrow> 'a" where
  "selector_sum col_evals grp = fold (\<lambda>sel_idx s. s + col_evals ! sel_idx) (lg_selectors grp) 0"

text \<open>
  The values that the verifier adds up, in its order: decompositions, boundary, limb inverses, table
  inverse and transition, the last three under its tests of the number of evaluations.
\<close>

definition logup_bodies :: "logup_group list \<Rightarrow> 'a::field list \<Rightarrow> 'a list \<Rightarrow> 'a list \<Rightarrow> 'a \<Rightarrow> 'a \<Rightarrow> u64 \<Rightarrow> 'a list" where
  "logup_bodies groups logup_evals h_shifted_evals col_evals gamma z domain_size =
     (let layout = extended_logup_column_layout groups;
          h_idx = xl_h_column layout; m_idx = xl_m_column layout; t_idx = xl_t_column layout; u_t_idx = xl_u_t_column layout;
          len = length logup_evals
      in map (\<lambda>(grp, (start_offset, num_limbs)).
             evaluate_decomposition_at_point (col_evals ! lg_column_index grp)
               (map (\<lambda>l. logup_evals ! (start_offset + l)) [0..<num_limbs])
               (if lg_selectors grp \<noteq> [] then Some (selector_sum col_evals grp) else None))
           (zip groups (xl_limb_offsets layout))
         @ (if h_idx < len then [first_lagrange z domain_size * (logup_evals ! h_idx)] else [])
         @ concat (map (\<lambda>((limb_start, num_limbs), (f_start, _)).
             map (\<lambda>l. evaluate_inverse_at_point (logup_evals ! (f_start + l)) (logup_evals ! (limb_start + l)) gamma)
               [0..<num_limbs]) (zip (xl_limb_offsets layout) (xl_f_offsets layout)))
         @ (if u_t_idx < len \<and> t_idx < len
            then [evaluate_inverse_at_point (logup_evals ! u_t_idx) (logup_evals ! t_idx) gamma] else [])
         @ (if h_idx < len \<and> m_idx < len \<and> u_t_idx < len \<and> h_shifted_evals \<noteq> []
            then [evaluate_transition_at_point (logup_evals ! h_idx) (h_shifted_evals ! 0)
                    (map (\<lambda>(grp, (f_start, num_limbs)).
                       (if lg_selectors grp = [] then 1 else selector_sum col_evals grp,
                        map (\<lambda>l. logup_evals ! (f_start + l)) [0..<num_limbs])) (zip groups (xl_f_offsets layout)))
                    (logup_evals ! m_idx) (logup_evals ! u_t_idx)] else []))"

definition logup_at_point ::
  "logup_group list \<Rightarrow> 'a::field list \<Rightarrow> 'a list \<Rightarrow> 'a list \<Rightarrow> 'a \<Rightarrow> 'a \<Rightarrow> 'a \<Rightarrow> nat \<Rightarrow> u64 \<Rightarrow> 'a" where
  "logup_at_point groups logup_evals h_shifted_evals col_evals gamma z alpha alpha_offset domain_size =
     add_bodies alpha alpha_offset (logup_bodies groups logup_evals h_shifted_evals col_evals gamma z domain_size)"

end
