(* ===== verification/Rv_Soundness.thy ===== *)
theory Rv_Soundness
  imports Rv_Constraints Rv_Alu Zkp_Scalar Zkp_Lookup
begin

text \<open>
  What the constraints of \<^verbatim>\<open>crates/riscv/src/constraints\<close> enforce. If the verifier's combination vanishes
  for enough challenges, every single constraint vanishes; then exactly one selector is set, and for the
  instruction classes whose constraints are kept apart from each other the row describes the
  instruction. The theory also shows where adding two checks into one constraint loses them.
\<close>

section \<open>From the combination to single constraints\<close>

lemma constraints_vanish:
  fixes cs :: "'a::idom list"
  assumes "length cs = 83" and "finite S" and "128 \<le> card S"
    and "\<And>alpha. alpha \<in> S \<Longrightarrow> evaluate_at_point_extended cs alpha = Some 0"
  shows "set (constraint_values cs) \<subseteq> {0}"
  using assms
  by (intro many_roots_zero [of S]) (simp_all add: length_constraint_values evaluate_at_point_values)

lemma selector_indices: "selector_column_indices = [19..<83]"
  by code_simp

lemma one_hot:
  fixes cs :: "'a::idom list"
  assumes "set (constraint_values cs) \<subseteq> {0}" and "char_above TYPE('a) (2 ^ 130)"
  shows "\<exists>k\<in>{19..<83}. \<forall>j\<in>{19..<83}. cs ! j = (if j = k then 1 else 0)"
proof -
  have "cs ! j * (cs ! j - 1) = 0" if "j \<in> {19..<83}" for j
    using assms(1) that by (simp add: constraint_values_def selector_indices image_subset_iff del: upt_rec_numeral)
  then have bin: "cs ! j = 0 \<or> cs ! j = 1" if "j \<in> {19..<83}" for j using that by fastforce
  define K where "K = {j \<in> {19..<83}. cs ! j = 1}"
  have "sum_list (map (\<lambda>si. cs ! si) [19..<83]) = (\<Sum>j\<in>{19..<83}. cs ! j)" by (simp add: interv_sum_list_conv_sum_set_nat del: upt_rec_numeral)
  also have "\<dots> = (\<Sum>j\<in>K. 1)"
    by (rule sum.mono_neutral_cong_right) (use bin in \<open>fastforce simp: K_def\<close>)+
  finally have "sum_list (map (\<lambda>si. cs ! si) [19..<83]) = of_nat (card K)" by simp
  moreover have "sum_list (map (\<lambda>si. cs ! si) [19..<83]) - 1 = 0"
    using assms(1) by (simp add: constraint_values_def selector_indices del: upt_rec_numeral)
  ultimately have "(of_int (int (card K) - 1) :: 'a) = 0" by simp
  moreover have "card K \<le> card {19..<83 :: nat}" unfolding K_def by (intro card_mono) auto
  ultimately have "card K = 1" using char_aboveD [OF assms(2), of "int (card K) - 1"] by simp
  then obtain k where "K = {k}" by (auto simp: card_1_singleton_iff)
  then have K: "j \<in> {19..<83} \<and> cs ! j = 1 \<longleftrightarrow> j = k" for j by (auto simp: K_def)
  then have "\<forall>j\<in>{19..<83}. cs ! j = (if j = k then 1 else 0)" using bin by (metis (full_types))
  moreover have "k \<in> {19..<83}" using K by blast
  ultimately show ?thesis by blast
qed

section \<open>Single instructions\<close>

lemma u64_range: "0 \<le> uint v" "uint v \<le> 18446744073709551615" for v :: u64
  using uint_lt2p [of v] by simp_all

lemma pow_numerals: "(2 :: int) ^ 64 = 18446744073709551616" "(2 :: int) ^ 130 = 1361129467683753853853498429727072845824"
  by simp_all

text \<open>A sum of two words with a carry bit is their sum modulo \<open>2^64\<close>.\<close>

lemma carry_sum:
  fixes x :: "'a::idom"
  assumes "char_above TYPE('a) (2 ^ 130)" and "x * (x - 1) = 0"
    and "scalar_from_u64 a + scalar_from_u64 b - (x * two_pow_64 + scalar_from_u64 d) = 0"
  shows "d = a + b"
proof -
  have "x = 0 \<or> x = 1" using assms(2) by simp
  then obtain c :: int where c: "x = of_int c" "c = 0 \<or> c = 1" by (metis of_int_0 of_int_1)
  have "(of_int (uint a + uint b - (c * 2 ^ 64 + uint d)) :: 'a) = 0"
    using assms(3) by (simp add: c(1) scalar_from_u64_def two_pow_64_def)
  moreover have "\<bar>uint a + uint b - (c * 2 ^ 64 + uint d)\<bar> < 2 ^ 130"
    unfolding pow_numerals using c(2) u64_range [of a] u64_range [of b] u64_range [of d] by arith
  ultimately have "uint d = uint a + uint b - c * 2 ^ 64"
    using char_aboveD [OF assms(1)] by fastforce
  then have "d = word_of_int (uint a + uint b - c * 2 ^ 64)" by (metis word_of_int_uint)
  also have "\<dots> = a + b" using c(2) by (auto simp: word_of_int_eq_iff take_bit_eq_mod wi_hom_syms)
  finally show ?thesis .
qed

text \<open>A product split into two words at \<open>2^64\<close>.\<close>

lemma product_split_unique:
  assumes "char_above TYPE('a::idom) (2 ^ 130)"
    and "scalar_from_u64 a * scalar_from_u64 b - (scalar_from_u64 hi * two_pow_64 + scalar_from_u64 lo) = (0 :: 'a)"
  shows "lo = a * b \<and> hi = mulhu a b"
proof -
  have "(of_int (uint a * uint b - (uint hi * 2 ^ 64 + uint lo)) :: 'a) = 0"
    using assms(2) by (simp add: scalar_from_u64_def two_pow_64_def)
  moreover have "\<bar>uint a * uint b - (uint hi * 2 ^ 64 + uint lo)\<bar> < 2 ^ 130"
  proof -
    have "0 \<le> uint a * uint b" by simp
    moreover have "uint a * uint b \<le> 18446744073709551615 * 18446744073709551615"
      by (rule mult_mono) (use u64_range [of a] u64_range [of b] in auto)
    ultimately show ?thesis unfolding pow_numerals using u64_range [of hi] u64_range [of lo] by arith
  qed
  ultimately have eq: "uint hi * 2 ^ 64 + uint lo = uint (mulhu a b) * 2 ^ 64 + uint (a * b)"
    using char_aboveD [OF assms(1)] mulhu_product [of a b] by fastforce
  then have "(uint hi * 2 ^ 64 + uint lo) mod 2 ^ 64 = (uint (mulhu a b) * 2 ^ 64 + uint (a * b)) mod 2 ^ 64" by simp
  then have "uint lo = uint (a * b)" using uint_lt2p [of lo] uint_lt2p [of "a * b"] by simp
  with eq have "uint hi = uint (mulhu a b)" by simp
  with \<open>uint lo = uint (a * b)\<close> show ?thesis by (simp add: word_uint_eq_iff)
qed

text \<open>The gated constraints, as facts about the selected class.\<close>

lemma selected_zero:
  assumes "set (constraint_values cs) \<subseteq> {0}"
  shows "cs ! COL_SEL_R_ALU_ADD = 1 \<Longrightarrow> evaluate_alu_r_add_main_raw cs = 0 \<and> evaluate_aux0_binary_raw cs = 0"
    "cs ! COL_SEL_R_ALU_SUB = 1 \<Longrightarrow> evaluate_alu_r_sub_main_raw cs = 0 \<and> evaluate_aux0_binary_raw cs = 0"
    "cs ! COL_SEL_I_ALU_ADD = 1 \<Longrightarrow> evaluate_alu_i_add_main_raw cs = 0 \<and> evaluate_aux0_binary_raw cs = 0"
    "cs ! COL_SEL_MUL = 1 \<Longrightarrow> evaluate_mul_raw cs = 0"
    "cs ! COL_SEL_MULHU = 1 \<Longrightarrow> evaluate_mulhu_raw cs = 0"
    "cs ! COL_SEL_LUI = 1 \<Longrightarrow> evaluate_lui_raw cs = 0"
    "cs ! COL_SEL_LOAD + cs ! COL_SEL_STORE = 1 \<Longrightarrow> evaluate_memory_ops_raw cs = 0"
    "seq_sel cs = 1 \<Longrightarrow> evaluate_sequential_pc_raw cs = 0"
  using assms
  by (simp_all add: constraint_values_def point_constraints_def point_constraints_flow_def point_constraints_alu_def
      point_constraints_shift_def)

lemma seq_sel_one_hot:
  assumes "\<forall>j\<in>{19..<83}. cs ! j = (if j = k then 1 else 0)" and "k \<in> set (COL_SEL_R_ALU_ADD # seq_selectors)"
  shows "seq_sel cs = 1"
proof -
  have "distinct (COL_SEL_R_ALU_ADD # seq_selectors)" by (simp add: seq_selectors_def)
  moreover have "list_all (\<lambda>j. 19 \<le> j \<and> j < 83) (COL_SEL_R_ALU_ADD # seq_selectors)" by (simp add: seq_selectors_def)
  moreover have "seq_sel cs = sum_list (map (\<lambda>j. cs ! j) (COL_SEL_R_ALU_ADD # seq_selectors))"
    by (simp add: seq_sel_def foldl_add)
  moreover have "\<dots> = sum_list (map (\<lambda>j. if j = k then 1 else 0) (COL_SEL_R_ALU_ADD # seq_selectors))"
    if "list_all (\<lambda>j. 19 \<le> j \<and> j < 83) (COL_SEL_R_ALU_ADD # seq_selectors)"
    using that assms(1) by (intro arg_cong [of _ _ sum_list] map_cong refl) (auto simp: list_all_iff)
  ultimately show ?thesis using assms(2) by (simp only: sum_list_map_eq_sum_count2 sum_list_distinct_conv_sum_set sum.delta' sum.delta finite_set if_True)
qed

definition branch_classes :: "nat set" where
  "branch_classes = {COL_SEL_BEQ, COL_SEL_BNE, COL_SEL_BLTU, COL_SEL_BGEU, COL_SEL_BLT, COL_SEL_BGE, COL_SEL_JAL, COL_SEL_JALR}"

lemma sequential_classes:
  "k \<in> {19..<83} \<Longrightarrow> k \<notin> branch_classes \<Longrightarrow> k \<noteq> COL_SEL_SYSTEM \<Longrightarrow> k \<in> set (COL_SEL_R_ALU_ADD # seq_selectors)"
proof -
  have "list_all (\<lambda>k. k \<in> branch_classes \<or> k = COL_SEL_SYSTEM \<or> k \<in> set (COL_SEL_R_ALU_ADD # seq_selectors)) selector_column_indices"
    by (simp add: branch_classes_def seq_selectors_def selector_column_indices_def)
  then show "k \<in> {19..<83} \<Longrightarrow> k \<notin> branch_classes \<Longrightarrow> k \<noteq> COL_SEL_SYSTEM \<Longrightarrow> k \<in> set (COL_SEL_R_ALU_ADD # seq_selectors)"
    by (auto simp: selector_indices list_all_iff simp del: upt_rec_numeral)
qed

section \<open>Range checks\<close>

text \<open>
  \<^verbatim>\<open>lookup_declarations\<close> of the extended system: the column, the width and the selector of each range check, with
  the number of its table. Register values are checked in every row, \<^verbatim>\<open>aux0\<close> for the named classes only; program counters,
  addresses and immediates are not checked.
\<close>

definition riscv_lookup_declarations :: "(lookup_declaration \<times> nat) list" where
  "riscv_lookup_declarations =
     [(\<lparr>ld_column_index = COL_AUX0, ld_max_bits = 64, ld_selector_column = Some COL_SEL_MUL\<rparr>, 0),
      (\<lparr>ld_column_index = COL_AUX0, ld_max_bits = 64, ld_selector_column = Some COL_SEL_MULHU\<rparr>, 0),
      (\<lparr>ld_column_index = COL_AUX0, ld_max_bits = 64, ld_selector_column = Some COL_SEL_DIV\<rparr>, 0),
      (\<lparr>ld_column_index = COL_AUX0, ld_max_bits = 64, ld_selector_column = Some COL_SEL_REM\<rparr>, 0),
      (\<lparr>ld_column_index = COL_AUX0, ld_max_bits = 32, ld_selector_column = Some COL_SEL_W_ALU_ADD\<rparr>, 0),
      (\<lparr>ld_column_index = COL_AUX0, ld_max_bits = 32, ld_selector_column = Some COL_SEL_W_ALU_SUB\<rparr>, 0),
      (\<lparr>ld_column_index = COL_AUX0, ld_max_bits = 32, ld_selector_column = Some COL_SEL_W_ALU_ADDI\<rparr>, 0),
      (\<lparr>ld_column_index = COL_RD_VAL_AFTER, ld_max_bits = 64, ld_selector_column = None\<rparr>, 0),
      (\<lparr>ld_column_index = COL_RS1_VAL, ld_max_bits = 64, ld_selector_column = None\<rparr>, 0),
      (\<lparr>ld_column_index = COL_RS2_VAL, ld_max_bits = 64, ld_selector_column = None\<rparr>, 0)]"

text \<open>A row that passes them.\<close>

definition range_checked :: "'a::comm_ring_1 list \<Rightarrow> bool" where
  "range_checked cs \<longleftrightarrow>
     (\<forall>(decl, table)\<in>set riscv_lookup_declarations.
        (case ld_selector_column decl of None \<Rightarrow> True | Some s \<Rightarrow> cs ! s = 1) \<longrightarrow>
        (\<exists>v < 2 ^ ld_max_bits decl. cs ! ld_column_index decl = of_nat v))"

lemma below_u64: "\<exists>v < 2 ^ 64. x = of_nat v \<Longrightarrow> \<exists>a. x = scalar_from_u64 a"
proof -
  assume "\<exists>v < 2 ^ 64. x = of_nat v"
  then obtain v where "v < 2 ^ 64" "x = of_nat v" by blast
  then have "uint (of_nat v :: u64) = int v" by (simp add: uint_nat unat_of_nat)
  with \<open>x = of_nat v\<close> have "x = scalar_from_u64 (of_nat v)" by (simp only: scalar_from_u64_def of_int_of_nat_eq)
  then show ?thesis by blast
qed

lemma range_checked_columns:
  assumes "range_checked cs"
  shows "\<exists>a. cs ! COL_RS1_VAL = scalar_from_u64 a" "\<exists>b. cs ! COL_RS2_VAL = scalar_from_u64 b"
    "\<exists>d. cs ! COL_RD_VAL_AFTER = scalar_from_u64 d"
    "cs ! COL_SEL_MUL = 1 \<or> cs ! COL_SEL_MULHU = 1 \<Longrightarrow> \<exists>x. cs ! COL_AUX0 = scalar_from_u64 x"
proof -
  have r: "\<exists>a. cs ! c = scalar_from_u64 a"
    if "(\<lparr>ld_column_index = c, ld_max_bits = 64, ld_selector_column = sel\<rparr>, t) \<in> set riscv_lookup_declarations"
      "case sel of None \<Rightarrow> True | Some s \<Rightarrow> cs ! s = 1" for c sel t
    using that assms unfolding range_checked_def by (intro below_u64) fastforce
  show "\<exists>a. cs ! COL_RS1_VAL = scalar_from_u64 a" "\<exists>b. cs ! COL_RS2_VAL = scalar_from_u64 b"
    "\<exists>d. cs ! COL_RD_VAL_AFTER = scalar_from_u64 d"
    using r [of _ None 0] by (simp_all add: riscv_lookup_declarations_def)
  show "\<exists>x. cs ! COL_AUX0 = scalar_from_u64 x" if "cs ! COL_SEL_MUL = 1 \<or> cs ! COL_SEL_MULHU = 1"
    using that r [of COL_AUX0 "Some COL_SEL_MUL" 0] r [of COL_AUX0 "Some COL_SEL_MULHU" 0]
    by (auto simp: riscv_lookup_declarations_def)
qed

text \<open>
  C5. The constraints together with the declared range checks are sound for the classes below. Suppose that the
  verifier's combination vanishes at a row for 128 different challenges, that the row passes the range checks of
  \<^verbatim>\<open>lookup_declarations\<close>, and that the characteristic of the field exceeds \<open>2^130\<close>. Then exactly one selector is one and all others
  are zero, \<^verbatim>\<open>rs1\<close>, \<^verbatim>\<open>rs2\<close> and \<^verbatim>\<open>rd\<close> are 64-bit values, and the value written by ADD, SUB, MUL and MULHU is the
  result of the instruction. The immediate is not range-checked: LUI writes the immediate column, and ADDI writes the
  sum with the immediate provided that its column holds a 64-bit value, without which only the equation
  \<open>rs1 + imm = rd + carry * 2^64\<close> in the field is enforced. Loads and stores use the field element \<open>rs1 + imm\<close> as address, and
  every class except branches, jumps and system instructions continues at \<open>pc + insn_len\<close>, both in the field.
\<close>

theorem constraints_sound:
  fixes cs :: "'a::idom list"
  assumes char: "char_above TYPE('a) (2 ^ 130)" and len: "length cs = 83"
    and S: "finite S" "128 \<le> card S" "\<forall>alpha\<in>S. evaluate_at_point_extended cs alpha = Some 0"
    and range: "range_checked cs"
  shows "\<exists>k\<in>{19..<83}. \<exists>a b d. (\<forall>j\<in>{19..<83}. cs ! j = (if j = k then 1 else 0)) \<and>
    cs ! COL_RS1_VAL = scalar_from_u64 a \<and> cs ! COL_RS2_VAL = scalar_from_u64 b \<and> cs ! COL_RD_VAL_AFTER = scalar_from_u64 d \<and>
    (k = COL_SEL_R_ALU_ADD \<longrightarrow> d = reg_result Add a b) \<and>
    (k = COL_SEL_R_ALU_SUB \<longrightarrow> d = reg_result Sub a b) \<and>
    (k = COL_SEL_MUL \<longrightarrow> mul_result Mul a b = Some d) \<and>
    (k = COL_SEL_MULHU \<longrightarrow> mul_result Mulhu a b = Some d) \<and>
    (k = COL_SEL_LUI \<longrightarrow> cs ! COL_IMMEDIATE = scalar_from_u64 d) \<and>
    (k = COL_SEL_I_ALU_ADD \<longrightarrow>
      (\<exists>carry\<in>{0, 1}. scalar_from_u64 a + cs ! COL_IMMEDIATE = scalar_from_u64 d + carry * two_pow_64) \<and>
      (\<forall>imm. cs ! COL_IMMEDIATE = scalar_from_u64 imm \<longrightarrow> d = a + imm)) \<and>
    (k = COL_SEL_LOAD \<or> k = COL_SEL_STORE \<longrightarrow> cs ! COL_MEM_ADDR = cs ! COL_RS1_VAL + cs ! COL_IMMEDIATE) \<and>
    (k \<notin> branch_classes \<and> k \<noteq> COL_SEL_SYSTEM \<longrightarrow> cs ! COL_NEXT_PC = cs ! COL_PC + cs ! COL_INSN_LEN)"
proof -
  have zero: "set (constraint_values cs) \<subseteq> {0}" using len S by (intro constraints_vanish) auto
  obtain k where k: "k \<in> {19..<83}" and hot: "\<forall>j\<in>{19..<83}. cs ! j = (if j = k then 1 else 0)"
    using one_hot [OF zero char] by blast
  note sel = selected_zero [OF zero]
  obtain a b d where cols: "cs ! COL_RS1_VAL = scalar_from_u64 a" "cs ! COL_RS2_VAL = scalar_from_u64 b"
    "cs ! COL_RD_VAL_AFTER = scalar_from_u64 d"
    using range_checked_columns [OF range] by blast
  let ?x = "cs ! COL_AUX0"
  have aux: "aux0_of cs = ?x" using len by (simp add: col_or_zero_def)
  have "d = reg_result Add a b" if "k = COL_SEL_R_ALU_ADD"
    using sel(1) hot that carry_sum [OF char, of ?x a b d]
    by (simp add: evaluate_alu_r_add_main_raw_def evaluate_aux0_binary_raw_def cols aux Let_def)
  moreover have "d = reg_result Sub a b" if "k = COL_SEL_R_ALU_SUB"
  proof -
    have "a = d + b"
      using sel(2) hot that by (intro carry_sum [OF char, of ?x])
        (simp_all add: evaluate_alu_r_sub_main_raw_def evaluate_aux0_binary_raw_def cols aux Let_def algebra_simps)
    then show ?thesis by simp
  qed
  moreover have "(\<exists>carry\<in>{0, 1}. scalar_from_u64 a + cs ! COL_IMMEDIATE = scalar_from_u64 d + carry * two_pow_64) \<and>
      (\<forall>imm. cs ! COL_IMMEDIATE = scalar_from_u64 imm \<longrightarrow> d = a + imm)" if "k = COL_SEL_I_ALU_ADD"
  proof -
    have bin: "?x * (?x - 1) = 0" and sum: "scalar_from_u64 a + cs ! COL_IMMEDIATE - (?x * two_pow_64 + scalar_from_u64 d) = 0"
      using sel(3) hot that by (simp_all add: evaluate_alu_i_add_main_raw_def evaluate_aux0_binary_raw_def cols aux Let_def)
    have "?x \<in> {0, 1}" using bin by auto
    moreover have "scalar_from_u64 a + cs ! COL_IMMEDIATE = scalar_from_u64 d + ?x * two_pow_64"
      using sum by (simp add: algebra_simps)
    ultimately show ?thesis using carry_sum [OF char bin, of a _ d] sum by auto
  qed
  moreover have "mul_result Mul a b = Some d" if "k = COL_SEL_MUL"
  proof -
    have "cs ! COL_SEL_MUL = 1" using hot that by simp
    then obtain x where "?x = scalar_from_u64 x" using range_checked_columns(4) [OF range] by blast
    then show ?thesis using sel(4) hot that product_split_unique [OF char, of a b x d] by (simp add: evaluate_mul_raw_def cols aux Let_def)
  qed
  moreover have "mul_result Mulhu a b = Some d" if "k = COL_SEL_MULHU"
  proof -
    have "cs ! COL_SEL_MULHU = 1" using hot that by simp
    then obtain x where "?x = scalar_from_u64 x" using range_checked_columns(4) [OF range] by blast
    then show ?thesis using sel(5) hot that product_split_unique [OF char, of a b d x] by (simp add: evaluate_mulhu_raw_def cols aux Let_def)
  qed
  moreover have "cs ! COL_IMMEDIATE = scalar_from_u64 d" if "k = COL_SEL_LUI"
    using sel(6) hot that by (simp add: evaluate_lui_raw_def cols)
  moreover have "cs ! COL_MEM_ADDR = cs ! COL_RS1_VAL + cs ! COL_IMMEDIATE" if "k = COL_SEL_LOAD \<or> k = COL_SEL_STORE"
    using sel(7) hot that by (auto simp: evaluate_memory_ops_raw_def)
  moreover have "cs ! COL_NEXT_PC = cs ! COL_PC + cs ! COL_INSN_LEN" if "k \<notin> branch_classes \<and> k \<noteq> COL_SEL_SYSTEM"
    using sel(8) seq_sel_one_hot [OF hot] sequential_classes [OF k] that by (simp add: evaluate_sequential_pc_raw_def)
  ultimately show ?thesis using k hot cols by blast
qed

lemma vanishes_everywhere:
  assumes "length cs = 83" and "set (constraint_values cs) \<subseteq> {0}"
  shows "evaluate_at_point_extended cs alpha = Some 0"
  using assms eval_zero by (simp add: evaluate_at_point_values)

text \<open>Rows given by the columns that are not zero.\<close>

definition row_with :: "(nat \<times> int) list \<Rightarrow> int list" where
  "row_with kvs = fold (\<lambda>(k, v) cs. cs[k := v]) kvs (replicate 83 0)"

lemma length_row_with [simp]: "length (row_with kvs) = 83"
proof -
  have "length (fold (\<lambda>(k, v) cs. cs[k := v]) kvs cs) = length cs" for cs :: "int list"
    by (induction kvs arbitrary: cs) (auto split: prod.splits)
  then show ?thesis by (simp add: row_with_def)
qed

definition add_row :: "int list" where
  "add_row = row_with [(COL_RS1_VAL, 5), (COL_RS2_VAL, 7), (COL_RD_VAL_AFTER, 12), (COL_NEXT_PC, 4), (COL_INSN_LEN, 4),
     (COL_SEL_R_ALU_ADD, 1)]"

lemma add_row_zero: "set (constraint_values add_row) \<subseteq> {0}"
  by code_simp

theorem constraints_sound_witness:
  "\<exists>k\<in>{19..<83}. \<exists>a b d. (\<forall>j\<in>{19..<83}. add_row ! j = (if j = k then 1 else 0)) \<and>
     add_row ! COL_RS1_VAL = scalar_from_u64 a \<and> add_row ! COL_RS2_VAL = scalar_from_u64 b \<and>
     add_row ! COL_RD_VAL_AFTER = scalar_from_u64 d \<and> (k = COL_SEL_R_ALU_ADD \<longrightarrow> d = reg_result Add a b)"
proof -
  have len: "length add_row = 83" by (simp add: add_row_def)
  have S: "finite (int ` {..<128})" "128 \<le> card (int ` {..<128})" by (simp_all add: card_image)
  have van: "\<forall>alpha\<in>int ` {..<128}. evaluate_at_point_extended add_row alpha = Some 0"
    using vanishes_everywhere [OF len add_row_zero] by blast
  have "\<exists>v<18446744073709551616. x = int v" if "0 \<le> x" "x < 18446744073709551616" for x
    using that by (intro exI [of _ "nat x"]) auto
  then have range: "range_checked add_row"
    by (auto simp: range_checked_def riscv_lookup_declarations_def add_row_def row_with_def)
  show ?thesis using constraints_sound [OF char_above_char_0 len S van range] by blast
qed

section \<open>What the constraints leave open\<close>

text \<open>A row with exactly one selector set, at a given column.\<close>

definition one_hot_at :: "nat \<Rightarrow> 'a::comm_ring_1 list \<Rightarrow> bool" where
  "one_hot_at k cs \<longleftrightarrow> length cs = 83 \<and> k \<in> {19..<83} \<and> (\<forall>j\<in>{19..<83}. cs ! j = (if j = k then 1 else 0))"

lemma one_hot_nth: "one_hot_at k cs \<Longrightarrow> 19 \<le> j \<Longrightarrow> j < 83 \<Longrightarrow> cs ! j = of_bool (j = k)"
  by (simp add: one_hot_at_def)

lemma one_hot_update: "one_hot_at k cs \<Longrightarrow> i < 19 \<Longrightarrow> one_hot_at k (cs[i := v])"
  by (auto simp: one_hot_at_def)

text \<open>Two rows of one class have the same combination when the constraints of the class agree on them.\<close>

lemma same_combination:
  assumes hot: "one_hot_at k cs" "one_hot_at k cs'" and eq: "point_constraints cs' = point_constraints cs"
  shows "evaluate_at_point_extended cs' alpha = evaluate_at_point_extended cs alpha"
proof -
  have "cs' ! j = cs ! j" if "j \<in> set selector_column_indices" for j
    using that one_hot_nth [OF hot(1)] one_hot_nth [OF hot(2)] by (simp add: selector_indices del: upt_rec_numeral)
  then have "constraint_values cs' = constraint_values cs"
    by (simp add: constraint_values_def eq cong: map_cong)
  moreover have "length cs = 83" "length cs' = 83" using hot by (simp_all add: one_hot_at_def)
  ultimately show ?thesis by (simp add: evaluate_at_point_values)
qed

lemma class_constraints:
  assumes "one_hot_at k cs" and "k \<in> {COL_SEL_JAL, COL_SEL_JALR, COL_SEL_LOAD, COL_SEL_STORE}"
  shows "point_constraints cs = (replicate 63 0)[0 := seq_sel cs * evaluate_sequential_pc_raw cs,
    10 := of_bool (k = COL_SEL_JAL) * evaluate_jal_raw cs, 11 := of_bool (k = COL_SEL_JALR) * evaluate_jalr_raw cs,
    14 := of_bool (k \<in> {COL_SEL_LOAD, COL_SEL_STORE}) * evaluate_memory_ops_raw cs]"
proof -
  note nth = one_hot_nth [OF assms(1)]
  have r: "replicate 63 (0 :: 'a) = 0 # 0 # 0 # 0 # 0 # 0 # 0 # 0 # 0 # 0 # 0 # 0 # 0 # 0 # 0 # replicate 48 0"
    by (simp add: eval_nat_numeral)
  have s: "replicate 48 (0 :: 'a) = [0, 0, 0, 0, 0, 0, 0, 0, 0, 0, 0, 0, 0, 0, 0, 0, 0, 0, 0, 0, 0, 0, 0, 0, 0, 0, 0, 0, 0, 0, 0, 0,
      0, 0, 0, 0, 0, 0, 0, 0, 0, 0, 0, 0, 0, 0, 0, 0]"
    by (simp add: eval_nat_numeral)
  show ?thesis
    using assms(2) unfolding r s
    by (auto simp: nth point_constraints_def point_constraints_flow_def point_constraints_alu_def point_constraints_shift_def
        point_constraints_wide_def)
qed

text \<open>The sequential program counter is not demanded of jumps.\<close>

lemma seq_sel_update: "i < 19 \<Longrightarrow> seq_sel (cs[i := v]) = seq_sel cs"
  unfolding seq_sel_def seq_selectors_def by simp

text \<open>
  C36. The combined constraints leave jumps and memory values open. On every row selected as JAL or JALR the link
  register and the target can be moved against each other by any amount without changing the combination, for any
  challenge; on every row selected as a store the stored value, and on every row selected as a load both the loaded
  value and the result, can be replaced by any others. So whenever a row of these classes is accepted, so are
  rows with any other link and target of the same sum, and with any memory values.
\<close>

theorem jumps_and_memory_unconstrained:
  fixes cs :: "'a::comm_ring_1 list"
  shows "(one_hot_at COL_SEL_JAL cs \<or> one_hot_at COL_SEL_JALR cs \<longrightarrow>
      evaluate_at_point_extended (cs[COL_RD_VAL_AFTER := cs ! COL_RD_VAL_AFTER + e, COL_NEXT_PC := cs ! COL_NEXT_PC - e]) alpha =
        evaluate_at_point_extended cs alpha) \<and>
    (one_hot_at COL_SEL_STORE cs \<longrightarrow>
      evaluate_at_point_extended (cs[COL_MEM_VAL := v]) alpha = evaluate_at_point_extended cs alpha) \<and>
    (one_hot_at COL_SEL_LOAD cs \<longrightarrow>
      evaluate_at_point_extended (cs[COL_MEM_VAL := v, COL_RD_VAL_AFTER := w]) alpha = evaluate_at_point_extended cs alpha)"
proof (intro conjI impI)
  assume "one_hot_at COL_SEL_JAL cs \<or> one_hot_at COL_SEL_JALR cs"
  then obtain k where k: "k = COL_SEL_JAL \<or> k = COL_SEL_JALR" and hot: "one_hot_at k cs" by blast
  let ?cs = "cs[COL_RD_VAL_AFTER := cs ! COL_RD_VAL_AFTER + e, COL_NEXT_PC := cs ! COL_NEXT_PC - e]"
  have hot': "one_hot_at k ?cs" using hot by (simp add: one_hot_update)
  have len: "length cs = 83" using hot by (simp add: one_hot_at_def)
  have "seq_sel cs = 0" "seq_sel ?cs = 0"
    using k one_hot_nth [OF hot] one_hot_nth [OF hot'] by (auto simp: seq_sel_def seq_selectors_def)
  moreover have "evaluate_jal_raw ?cs = evaluate_jal_raw cs" "evaluate_jalr_raw ?cs = evaluate_jalr_raw cs"
    using len by (simp_all add: evaluate_jal_raw_def evaluate_jalr_raw_def Let_def algebra_simps)
  ultimately have "point_constraints ?cs = point_constraints cs"
    using k by (auto simp: class_constraints [OF hot] class_constraints [OF hot'])
  from same_combination [OF hot hot' this] show "evaluate_at_point_extended ?cs alpha = evaluate_at_point_extended cs alpha" .
next
  assume hot: "one_hot_at COL_SEL_STORE cs"
  have "point_constraints (cs[COL_MEM_VAL := v]) = point_constraints cs"
    using class_constraints [OF hot] class_constraints [OF one_hot_update [OF hot, of COL_MEM_VAL v]]
    by (simp add: seq_sel_update evaluate_sequential_pc_raw_def evaluate_memory_ops_raw_def)
  from same_combination [OF hot _ this] show "evaluate_at_point_extended (cs[COL_MEM_VAL := v]) alpha = evaluate_at_point_extended cs alpha"
    using hot by (simp add: one_hot_update)
next
  assume hot: "one_hot_at COL_SEL_LOAD cs"
  let ?cs = "cs[COL_MEM_VAL := v, COL_RD_VAL_AFTER := w]"
  have hot': "one_hot_at COL_SEL_LOAD ?cs" using hot by (simp add: one_hot_update)
  have "point_constraints ?cs = point_constraints cs"
    using class_constraints [OF hot] class_constraints [OF hot']
    by (simp add: seq_sel_update evaluate_sequential_pc_raw_def evaluate_memory_ops_raw_def)
  from same_combination [OF hot hot' this] show "evaluate_at_point_extended ?cs alpha = evaluate_at_point_extended cs alpha" .
qed

text \<open>A correct \<open>JAL\<close> row with offset 8 at address 100, and the accepted row with link 1000.\<close>

definition jal_row :: "int list" where
  "jal_row = row_with [(COL_PC, 100), (COL_IMMEDIATE, 8), (COL_INSN_LEN, 4), (COL_RD_VAL_AFTER, 104), (COL_NEXT_PC, 108), (COL_SEL_JAL, 1)]"

lemma jal_row_zero: "set (constraint_values jal_row) \<subseteq> {0}"
  by code_simp

theorem jumps_and_memory_unconstrained_witness:
  "evaluate_at_point_extended (jal_row[COL_RD_VAL_AFTER := 1000, COL_NEXT_PC := - 788]) 7 = Some 0 \<and>
   jal_row ! COL_PC + jal_row ! COL_IMMEDIATE = 108 \<and> jal_row ! COL_PC + jal_row ! COL_INSN_LEN = 104"
proof -
  have "list_all (\<lambda>j. jal_row ! j = (if j = COL_SEL_JAL then 1 else 0)) [19..<83]" by code_simp
  then have "one_hot_at COL_SEL_JAL jal_row"
    by (simp add: one_hot_at_def list_all_iff del: upt_rec_numeral) (simp add: jal_row_def)
  moreover have "evaluate_at_point_extended jal_row 7 = Some 0"
    by (rule vanishes_everywhere) (simp_all add: jal_row_zero, simp add: jal_row_def)
  moreover have "jal_row ! COL_RD_VAL_AFTER = 104" "jal_row ! COL_NEXT_PC = 108" "jal_row ! COL_PC = 100"
    "jal_row ! COL_IMMEDIATE = 8" "jal_row ! COL_INSN_LEN = 4"
    by (simp_all add: jal_row_def row_with_def)
  ultimately show ?thesis
    using jumps_and_memory_unconstrained [of jal_row 896 7] by simp
qed

end
