(* ===== verification/Rv_Columns.thy ===== *)
theory Rv_Columns
  imports Rv_Trace Rv_Constraints Zkp_Scalar
begin

text \<open>
  The layout of the trace between the tracer and the constraint system. The tracer fills the named vectors of
  \<^verbatim>\<open>TraceColumns\<close> (\<^verbatim>\<open>trace.rs\<close>), \<^verbatim>\<open>trace_polys_from_columns\<close> lists them as evaluations of polynomials
  (\<^verbatim>\<open>constraints/mod.rs\<close>), and the constraints address them by the numbers \<^verbatim>\<open>COL_*\<close>. The theory shows that the
  three tables fit together: at the number of a column the constraints find the value of the row that its name
  says, and the selector that is set is the one of the instruction.
\<close>

section \<open>The polynomials of the columns\<close>

text \<open>\<^verbatim>\<open>nearest_power_of_two\<close>: 16 doubled until it reaches \<open>n\<close>. The \<^verbatim>\<open>usize\<close> does not overflow for lengths of vectors.\<close>

function doubled_to :: "nat \<Rightarrow> nat \<Rightarrow> nat" where
  "doubled_to n pw = (if 0 < pw \<and> pw < n then doubled_to n (2 * pw) else pw)"
  by pat_completeness auto
termination
  by (relation "measure (\<lambda>(n, pw). n - pw)") auto

declare doubled_to.simps [simp del]

definition nearest_power_of_two :: "nat \<Rightarrow> nat" where
  "nearest_power_of_two n = doubled_to n 16"

text \<open>\<^verbatim>\<open>Polynomial::from_u64_vec_with_curve\<close>: the evaluations, padded with zeros.\<close>

definition from_u64_vec :: "u64 list \<Rightarrow> 'a::comm_ring_1 list" where
  "from_u64_vec values =
     (let evaluations = map scalar_from_u64 values; padded_len = nearest_power_of_two (length evaluations)
      in take padded_len evaluations @ replicate (padded_len - length evaluations) 0)"

definition trace_polys_from_columns :: "trace_columns \<Rightarrow> 'a::comm_ring_1 list list" where
  "trace_polys_from_columns cols =
     [from_u64_vec (tc_pc cols), from_u64_vec (tc_rd cols), from_u64_vec (tc_rd_val_before cols),
      from_u64_vec (tc_rd_val_after cols), from_u64_vec (tc_rs1 cols), from_u64_vec (tc_rs1_val cols),
      from_u64_vec (tc_rs2 cols), from_u64_vec (tc_rs2_val cols), from_u64_vec (tc_mem_addr cols),
      from_u64_vec (tc_mem_val cols), from_u64_vec (tc_next_pc cols), from_u64_vec (tc_privilege_mode cols),
      from_u64_vec (tc_insn_type cols), from_u64_vec (tc_funct cols), from_u64_vec (tc_immediate cols),
      from_u64_vec (tc_insn_len cols), from_u64_vec (tc_aux0 cols), from_u64_vec (tc_aux1 cols),
      from_u64_vec (tc_aux2 cols), from_u64_vec (tc_sel_r_alu_add cols), from_u64_vec (tc_sel_r_alu_sub cols),
      from_u64_vec (tc_sel_r_and cols), from_u64_vec (tc_sel_r_or cols), from_u64_vec (tc_sel_r_xor cols),
      from_u64_vec (tc_sel_r_sll cols), from_u64_vec (tc_sel_r_srl cols), from_u64_vec (tc_sel_r_sra cols),
      from_u64_vec (tc_sel_r_compare cols), from_u64_vec (tc_sel_i_alu_add cols), from_u64_vec (tc_sel_i_and cols),
      from_u64_vec (tc_sel_i_or cols), from_u64_vec (tc_sel_i_xor cols), from_u64_vec (tc_sel_i_sll cols),
      from_u64_vec (tc_sel_i_srl cols), from_u64_vec (tc_sel_i_sra cols), from_u64_vec (tc_sel_i_compare cols),
      from_u64_vec (tc_sel_w_alu_add cols), from_u64_vec (tc_sel_w_alu_sub cols),
      from_u64_vec (tc_sel_w_alu_addi cols), from_u64_vec (tc_sel_w_sll cols), from_u64_vec (tc_sel_w_srl cols),
      from_u64_vec (tc_sel_w_sra cols), from_u64_vec (tc_sel_w_alu_other cols), from_u64_vec (tc_sel_mul cols),
      from_u64_vec (tc_sel_div cols), from_u64_vec (tc_sel_rem cols), from_u64_vec (tc_sel_muldiv_other cols),
      from_u64_vec (tc_sel_load cols), from_u64_vec (tc_sel_store cols), from_u64_vec (tc_sel_beq cols),
      from_u64_vec (tc_sel_bne cols), from_u64_vec (tc_sel_bltu cols), from_u64_vec (tc_sel_bgeu cols),
      from_u64_vec (tc_sel_blt cols), from_u64_vec (tc_sel_bge cols), from_u64_vec (tc_sel_jal cols),
      from_u64_vec (tc_sel_jalr cols), from_u64_vec (tc_sel_lui cols), from_u64_vec (tc_sel_auipc cols),
      from_u64_vec (tc_sel_csrrw cols), from_u64_vec (tc_sel_csrrs cols), from_u64_vec (tc_sel_csrrc cols),
      from_u64_vec (tc_sel_system cols), from_u64_vec (tc_sel_lr cols), from_u64_vec (tc_sel_sc cols),
      from_u64_vec (tc_sel_amo_swap cols), from_u64_vec (tc_sel_amo_add cols),
      from_u64_vec (tc_sel_amo_bitwise cols), from_u64_vec (tc_sel_amo_compare cols),
      from_u64_vec (tc_sel_atomic_other cols), from_u64_vec (tc_sel_mulhu cols), from_u64_vec (tc_sel_csrrw_i cols),
      from_u64_vec (tc_sel_csrrs_i cols), from_u64_vec (tc_sel_mulh cols), from_u64_vec (tc_sel_mulhsu cols),
      from_u64_vec (tc_sel_mulw cols), from_u64_vec (tc_sel_divw cols), from_u64_vec (tc_sel_remw cols),
      from_u64_vec (tc_sel_amo_or cols), from_u64_vec (tc_sel_amo_xor cols), from_u64_vec (tc_sel_amo_maxu cols),
      from_u64_vec (tc_sel_amo_mins cols), from_u64_vec (tc_sel_amo_maxs cols)]"

lemma doubled_to_ge: "0 < pw \<Longrightarrow> n \<le> doubled_to n pw"
proof (induction n pw rule: doubled_to.induct)
  case (1 n pw)
  then show ?case by (subst doubled_to.simps) auto
qed

lemma from_u64_vec_nth: "j < length values \<Longrightarrow> from_u64_vec values ! j = scalar_from_u64 (values ! j)"
  using doubled_to_ge [of 16 "length values"]
  by (simp add: from_u64_vec_def nearest_power_of_two_def nth_append)

lemma trace_polys_columns: "trace_polys_from_columns cols = map from_u64_vec (tl (all_columns cols))"
  by (simp only: trace_polys_from_columns_def all_columns_def list.sel list.map)

text \<open>The values of the polynomials at the position of a row.\<close>

definition table_row :: "trace_columns \<Rightarrow> nat \<Rightarrow> 'a::comm_ring_1 list" where
  "table_row cols j = map (\<lambda>p. p ! j) (trace_polys_from_columns cols)"

text \<open>The row that the constraints of a trace row are about: its values without the step number, as scalars.\<close>

definition row_scalars :: "trace_row \<Rightarrow> 'a::comm_ring_1 list" where
  "row_scalars r = map scalar_from_u64 (tl (row_values r))"

lemma length_row_scalars [simp]: "length (row_scalars r) = 83"
  by (simp add: row_scalars_def)

lemma table_row_export:
  assumes "j < length rows"
  shows "table_row (export_trace_rows_to_columns rows) j = row_scalars (rows ! j)"
proof (rule nth_equalityI)
  show "length (table_row (export_trace_rows_to_columns rows) j) = length (row_scalars (rows ! j))"
    by (simp add: table_row_def trace_polys_columns row_scalars_def)
  fix k assume "k < length (table_row (export_trace_rows_to_columns rows) j :: 'a list)"
  then have "k < 83" by (simp add: table_row_def trace_polys_columns)
  then show "(table_row (export_trace_rows_to_columns rows) j :: 'a list) ! k = row_scalars (rows ! j) ! k"
    using assms by (simp add: table_row_def trace_polys_columns row_scalars_def nth_tl all_columns_export from_u64_vec_nth
        del: upt_rec_numeral)
qed

lemma row_scalars_nth:
  "row_scalars r ! COL_PC = scalar_from_u64 (tr_pc r)"
  "row_scalars r ! COL_RD = scalar_from_u64 (zx (tr_rd r))"
  "row_scalars r ! COL_RD_VAL_BEFORE = scalar_from_u64 (tr_rd_val_before r)"
  "row_scalars r ! COL_RD_VAL_AFTER = scalar_from_u64 (tr_rd_val_after r)"
  "row_scalars r ! COL_RS1 = scalar_from_u64 (zx (tr_rs1 r))"
  "row_scalars r ! COL_RS1_VAL = scalar_from_u64 (tr_rs1_val r)"
  "row_scalars r ! COL_RS2 = scalar_from_u64 (zx (tr_rs2 r))"
  "row_scalars r ! COL_RS2_VAL = scalar_from_u64 (tr_rs2_val r)"
  "row_scalars r ! COL_MEM_ADDR = scalar_from_u64 (tr_mem_addr r)"
  "row_scalars r ! COL_MEM_VAL = scalar_from_u64 (tr_mem_val r)"
  "row_scalars r ! COL_NEXT_PC = scalar_from_u64 (tr_next_pc r)"
  "row_scalars r ! COL_PRIVILEGE_MODE = scalar_from_u64 (zx (tr_privilege_mode r))"
  "row_scalars r ! COL_IMMEDIATE = scalar_from_u64 (extract_immediate (tr_instruction r))"
  "row_scalars r ! COL_INSN_LEN = scalar_from_u64 (zx (tr_insn_len r))"
  "row_scalars r ! COL_AUX0 = scalar_from_u64 (tr_aux0 r)"
  "row_scalars r ! COL_AUX1 = scalar_from_u64 (tr_aux1 r)"
  "row_scalars r ! COL_AUX2 = scalar_from_u64 (tr_aux2 r)"
  by (simp_all add: row_scalars_def row_values_def split: prod.split)

lemma row_scalars_class:
  "row_scalars r ! COL_INSN_TYPE = scalar_from_u64 (zx (fst (classify_instruction (tr_instruction r))))"
  "row_scalars r ! COL_FUNCT = scalar_from_u64 (zx (snd (classify_instruction (tr_instruction r))))"
  by (simp_all add: row_scalars_def row_values_def split: prod.split)

lemma row_scalars_aux:
  "aux0_of (row_scalars r) = scalar_from_u64 (tr_aux0 r)" "aux1_of (row_scalars r) = scalar_from_u64 (tr_aux1 r)"
  "aux2_of (row_scalars r) = scalar_from_u64 (tr_aux2 r)"
  by (simp_all add: col_or_zero_def row_scalars_nth)

lemma row_scalars_selector:
  assumes "19 \<le> k" and "k < 83"
  shows "row_scalars r ! k = (if k = 19 + row_selector r then 1 else 0)"
  using row_selector_values [of "Suc k" r] assms by (auto simp: row_scalars_def nth_tl scalar_from_u64_def u64_of_bool_def)

section \<open>Instruction classes\<close>

text \<open>
  The class of each instruction, by the name of its selector column; written down from the instruction set,
  without the numbers \<open>(insn_type, funct)\<close> and the table of the exporter.
\<close>

fun class_column :: "instruction \<Rightarrow> nat" where
  "class_column (OpReg op _ _ _) = (case op of
     Add \<Rightarrow> COL_SEL_R_ALU_ADD | Sub \<Rightarrow> COL_SEL_R_ALU_SUB | And \<Rightarrow> COL_SEL_R_AND | Or \<Rightarrow> COL_SEL_R_OR
   | Xor \<Rightarrow> COL_SEL_R_XOR | Sll \<Rightarrow> COL_SEL_R_SLL | Srl \<Rightarrow> COL_SEL_R_SRL | Sra \<Rightarrow> COL_SEL_R_SRA
   | Slt \<Rightarrow> COL_SEL_R_COMPARE | Sltu \<Rightarrow> COL_SEL_R_COMPARE)"
| "class_column (OpImm op _ _ _) = (case op of
     Addi \<Rightarrow> COL_SEL_I_ALU_ADD | Andi \<Rightarrow> COL_SEL_I_AND | Ori \<Rightarrow> COL_SEL_I_OR | Xori \<Rightarrow> COL_SEL_I_XOR
   | Slli \<Rightarrow> COL_SEL_I_SLL | Srli \<Rightarrow> COL_SEL_I_SRL | Srai \<Rightarrow> COL_SEL_I_SRA
   | Slti \<Rightarrow> COL_SEL_I_COMPARE | Sltiu \<Rightarrow> COL_SEL_I_COMPARE)"
| "class_column (OpRegW op _ _ _) = (case op of
     Addw \<Rightarrow> COL_SEL_W_ALU_ADD | Subw \<Rightarrow> COL_SEL_W_ALU_SUB | Sllw \<Rightarrow> COL_SEL_W_SLL | Srlw \<Rightarrow> COL_SEL_W_SRL
   | Sraw \<Rightarrow> COL_SEL_W_SRA)"
| "class_column (OpImmW op _ _ _) = (case op of
     Addiw \<Rightarrow> COL_SEL_W_ALU_ADDI | Slliw \<Rightarrow> COL_SEL_W_SLL | Srliw \<Rightarrow> COL_SEL_W_SRL | Sraiw \<Rightarrow> COL_SEL_W_SRA)"
| "class_column (OpMul op _ _ _) = (case op of
     Mul \<Rightarrow> COL_SEL_MUL | Mulh \<Rightarrow> COL_SEL_MULH | Mulhsu \<Rightarrow> COL_SEL_MULHSU | Mulhu \<Rightarrow> COL_SEL_MULHU
   | Div \<Rightarrow> COL_SEL_DIV | Divu \<Rightarrow> COL_SEL_DIV | Rem \<Rightarrow> COL_SEL_REM | Remu \<Rightarrow> COL_SEL_REM)"
| "class_column (OpMulW op _ _ _) = (case op of
     Mulw \<Rightarrow> COL_SEL_MULW | Divw \<Rightarrow> COL_SEL_DIVW | Divuw \<Rightarrow> COL_SEL_DIVW | Remw \<Rightarrow> COL_SEL_REMW | Remuw \<Rightarrow> COL_SEL_REMW)"
| "class_column (Load _ _ _ _) = COL_SEL_LOAD"
| "class_column (Store _ _ _ _) = COL_SEL_STORE"
| "class_column (Branch op _ _ _) = (case op of
     Beq \<Rightarrow> COL_SEL_BEQ | Bne \<Rightarrow> COL_SEL_BNE | Blt \<Rightarrow> COL_SEL_BLT | Bge \<Rightarrow> COL_SEL_BGE | Bltu \<Rightarrow> COL_SEL_BLTU
   | Bgeu \<Rightarrow> COL_SEL_BGEU)"
| "class_column (JAL _ _) = COL_SEL_JAL"
| "class_column (JALR _ _ _) = COL_SEL_JALR"
| "class_column (LUI _ _) = COL_SEL_LUI"
| "class_column (AUIPC _ _) = COL_SEL_AUIPC"
| "class_column (Csr op _ _ _) = (case op of
     Csrrw \<Rightarrow> COL_SEL_CSRRW | Csrrs \<Rightarrow> COL_SEL_CSRRS | Csrrc \<Rightarrow> COL_SEL_CSRRC)"
| "class_column (CsrI op _ _ _) = (case op of
     Csrrw \<Rightarrow> COL_SEL_CSRRW_I | Csrrs \<Rightarrow> COL_SEL_CSRRS_I | Csrrc \<Rightarrow> COL_SEL_CSRRC)"
| "class_column (Lr _ _ _ _ _) = COL_SEL_LR"
| "class_column (Sc _ _ _ _ _ _) = COL_SEL_SC"
| "class_column (Amo op _ _ _ _ _ _) = (case op of
     AmoSwap \<Rightarrow> COL_SEL_AMO_SWAP | AmoAdd \<Rightarrow> COL_SEL_AMO_ADD | AmoAnd \<Rightarrow> COL_SEL_AMO_BITWISE | AmoOr \<Rightarrow> COL_SEL_AMO_OR
   | AmoXor \<Rightarrow> COL_SEL_AMO_XOR | AmoMax \<Rightarrow> COL_SEL_AMO_MAXS | AmoMin \<Rightarrow> COL_SEL_AMO_MINS
   | AmoMaxu \<Rightarrow> COL_SEL_AMO_MAXU | AmoMinu \<Rightarrow> COL_SEL_AMO_COMPARE)"
| "class_column _ = COL_SEL_SYSTEM"

lemma row_selector_class: "19 + row_selector r = class_column (tr_instruction r)"
proof (cases "tr_instruction r")
  case (Amo op wd rd rs1 rs2 aq rl)
  then show ?thesis by (cases op; cases wd; simp add: row_selector_def selector_index_def)
next
  case (Lr wd rd rs1 aq rl)
  then show ?thesis by (cases wd; simp add: row_selector_def selector_index_def)
next
  case (Sc wd rd rs1 rs2 aq rl)
  then show ?thesis by (cases wd; simp add: row_selector_def selector_index_def)
next
  case (OpReg op rd rs1 rs2)
  then show ?thesis by (cases op; simp add: row_selector_def selector_index_def)
next
  case (OpImm op rd rs1 imm)
  then show ?thesis by (cases op; simp add: row_selector_def selector_index_def)
next
  case (OpMul op rd rs1 rs2)
  then show ?thesis by (cases op; simp add: row_selector_def selector_index_def)
next
  case (OpMulW op rd rs1 rs2)
  then show ?thesis by (cases op; simp add: row_selector_def selector_index_def)
next
  case (OpRegW op rd rs1 rs2)
  then show ?thesis by (cases op; simp add: row_selector_def selector_index_def)
next
  case (OpImmW op rd rs1 imm)
  then show ?thesis by (cases op; simp add: row_selector_def selector_index_def)
next
  case (Branch op rs1 rs2 imm)
  then show ?thesis by (cases op; simp add: row_selector_def selector_index_def)
next
  case (Csr op rd rs1 csr)
  then show ?thesis by (cases op; simp add: row_selector_def selector_index_def)
next
  case (CsrI op rd uimm csr)
  then show ?thesis by (cases op; simp add: row_selector_def selector_index_def)
qed (simp_all add: row_selector_def selector_index_def)

section \<open>Properties\<close>

text \<open>
  C40. The exporter, the polynomials and the constraint system agree on the layout of the trace. For every trace:
  \<^verbatim>\<open>column(k)\<close> is the \<open>k\<close>-th entry of \<^verbatim>\<open>columns()\<close> for each \<open>k < 84\<close> and panics beyond; all columns have one entry per row.
  In the row of each recorded step the constraints find, at the numbers \<^verbatim>\<open>COL_PC\<close> to \<^verbatim>\<open>COL_AUX2\<close>, the values
  of the trace row these names say (as scalars), and of the 64 selectors exactly the one of the instruction's class
  is one and all others are zero.
\<close>

theorem column_layout:
  fixes rows :: "trace_row list"
  defines "cols \<equiv> export_trace_rows_to_columns rows"
  shows "trace_column cols k = (if k < 84 then Some (all_columns cols ! k) else None) \<and>
    (\<forall>col\<in>set (all_columns cols). length col = length rows) \<and> num_steps cols = length rows \<and>
    (j < length rows \<longrightarrow>
      (let row = table_row cols j :: 'a::comm_ring_1 list; r = rows ! j; sc = scalar_from_u64 in
        length row = 83 \<and> row ! COL_PC = sc (tr_pc r) \<and> row ! COL_RD = sc (zx (tr_rd r)) \<and>
        row ! COL_RD_VAL_BEFORE = sc (tr_rd_val_before r) \<and> row ! COL_RD_VAL_AFTER = sc (tr_rd_val_after r) \<and>
        row ! COL_RS1 = sc (zx (tr_rs1 r)) \<and> row ! COL_RS1_VAL = sc (tr_rs1_val r) \<and>
        row ! COL_RS2 = sc (zx (tr_rs2 r)) \<and> row ! COL_RS2_VAL = sc (tr_rs2_val r) \<and>
        row ! COL_MEM_ADDR = sc (tr_mem_addr r) \<and> row ! COL_MEM_VAL = sc (tr_mem_val r) \<and>
        row ! COL_NEXT_PC = sc (tr_next_pc r) \<and> row ! COL_PRIVILEGE_MODE = sc (zx (tr_privilege_mode r)) \<and>
        row ! COL_INSN_TYPE = sc (zx (fst (classify_instruction (tr_instruction r)))) \<and>
        row ! COL_FUNCT = sc (zx (snd (classify_instruction (tr_instruction r)))) \<and>
        row ! COL_IMMEDIATE = sc (extract_immediate (tr_instruction r)) \<and> row ! COL_INSN_LEN = sc (zx (tr_insn_len r)) \<and>
        row ! COL_AUX0 = sc (tr_aux0 r) \<and> row ! COL_AUX1 = sc (tr_aux1 r) \<and> row ! COL_AUX2 = sc (tr_aux2 r) \<and>
        (\<forall>c\<in>{19..<83}. row ! c = (if c = class_column (tr_instruction r) then 1 else 0))))"
proof -
  have len: "length col = length rows" if "col \<in> set (all_columns cols)" for col
    using that by (auto simp: cols_def all_columns_export)
  have steps: "num_steps cols = length rows"
    using len [of "tc_step cols"] by (simp add: num_steps_def all_columns_def)
  have row: "table_row cols j = (row_scalars (rows ! j) :: 'a list)" if "j < length rows"
    using that by (simp add: cols_def table_row_export)
  have sel: "\<forall>c\<in>{19..<83}. (row_scalars r :: 'a list) ! c = (if c = class_column (tr_instruction r) then 1 else 0)" for r
    by (simp add: row_scalars_selector row_selector_class)
  show ?thesis
    using len steps sel
    by (simp add: column_vector Let_def row row_scalars_nth row_scalars_class del: One_nat_def)
qed

text \<open>The row of \<open>ADDI x1, x0, 5\<close> at address zero.\<close>

definition addi_row :: trace_row where
  "addi_row = \<lparr>tr_step = 0, tr_pc = 0, tr_instruction = OpImm Addi 1 0 5, tr_rd = 1, tr_rd_val_before = 0,
     tr_rd_val_after = 5, tr_rs1 = 0, tr_rs1_val = 0, tr_rs2 = 0, tr_rs2_val = 0, tr_mem_addr = 0, tr_mem_val = 0,
     tr_mem_op = MemNone, tr_next_pc = 4, tr_privilege_mode = 3, tr_insn_len = 4, tr_aux0 = 0, tr_aux1 = 0, tr_aux2 = 0\<rparr>"

theorem column_layout_witness:
  "(table_row (export_trace_rows_to_columns [addi_row]) 0 :: int list) ! COL_RD_VAL_AFTER = 5 \<and>
   (table_row (export_trace_rows_to_columns [addi_row]) 0 :: int list) ! COL_SEL_I_ALU_ADD = 1 \<and>
   (table_row (export_trace_rows_to_columns [addi_row]) 0 :: int list) ! COL_SEL_R_ALU_ADD = 0"
  using column_layout [of "[addi_row]" 0 0, where ?'a = int]
  by (simp add: addi_row_def Let_def scalar_from_u64_def)

end
