(* ===== verification/Rv_Completeness.thy ===== *)
theory Rv_Completeness
  imports Rv_Soundness Rv_Columns
begin

unbundle bit_operations_syntax

text \<open>
  Honest execution satisfies the constraints: the rows that the tracer records for arithmetic, logic,
  shift, comparison, multiplication and branch instructions make the verifier's combination vanish for
  every challenge. The auxiliary columns of \<^verbatim>\<open>compute_aux_values\<close> are the integer witnesses the
  constraints need.
\<close>

declare upt_rec_numeral [simp del]

section \<open>Integer identities\<close>

lemma uint_drop_bit: "uint (drop_bit k w) = uint w div 2 ^ k" for w :: "'a::len word"
  by (simp only: unsigned_drop_bit_eq take_bit_int_eq_self [OF uint_ge_0 uint_lt2p]) (rule drop_bit_eq_div)

lemma uint_ucast_64: "uint (ucast w :: u64) = take_bit 64 (uint w)" for w :: u128
  by (simp add: unsigned_ucast_eq)

lemma uint_ucast_128: "uint (ucast (a :: u64) :: u128) = uint a"
  using uint_lt2p [of a] by (simp add: unsigned_ucast_eq take_bit_int_eq_self)

lemma add_identity: "uint a + uint b = uint (ucast (drop_bit 64 (ucast a + ucast b :: u128)) :: u64) * 2 ^ 64 + uint (a + b)"
  for a b :: u64
proof -
  have lt: "uint a + uint b < 2 ^ 65" using uint_lt2p [of a] uint_lt2p [of b] by simp
  then have "uint (ucast a + ucast b :: u128) = uint a + uint b"
    by (simp add: uint_word_ariths uint_ucast_128)
  then have "uint (drop_bit 64 (ucast a + ucast b :: u128)) = (uint a + uint b) div 2 ^ 64"
    by (simp only: uint_drop_bit)
  moreover have "take_bit 64 ((uint a + uint b) div 2 ^ 64) = (uint a + uint b) div 2 ^ 64"
    using lt by (intro take_bit_int_eq_self) (simp_all add: pos_imp_zdiv_nonneg_iff)
  ultimately have "uint (ucast (drop_bit 64 (ucast a + ucast b :: u128)) :: u64) = (uint a + uint b) div 2 ^ 64"
    by (simp only: uint_ucast_64)
  moreover have "uint (a + b) = (uint a + uint b) mod 2 ^ 64" by (simp add: uint_word_ariths)
  ultimately show ?thesis by (simp only: div_mult_mod_eq)
qed

lemma uint_u64_of_bool [simp]: "uint (u64_of_bool P) = of_bool P"
  by (simp add: u64_of_bool_def)

lemma sub_identity: "uint (a - b) + uint b = uint a + uint (borrow_of a b) * 2 ^ 64" for a b :: u64
  by (auto simp: borrow_of_def uint_sub_if' word_less_def word_le_def)

lemma or_identity: "uint (a OR b) = uint a + uint b - uint (a AND b)" for a b :: u64
  using plus_and_or [of "uint a" "uint b"] by (simp add: unsigned_or_eq unsigned_and_eq)

lemma xor_identity: "uint (a XOR b) = uint a + uint b - 2 * uint (a AND b)" for a b :: u64
proof -
  have "(x XOR y) + (x AND y) = x OR y" for x y :: int
  proof -
    have "x OR y = (x XOR y) OR (x AND y)" by (rule bit_eqI) (auto simp: bit_simps)
    also have "\<dots> = (x XOR y) + (x AND y)" by (rule disjunctive_add [symmetric]) (auto simp: bit_simps)
    finally show ?thesis by simp
  qed
  from this [of "uint a" "uint b"] show ?thesis
    using plus_and_or [of "uint a" "uint b"] by (simp add: unsigned_xor_eq unsigned_and_eq)
qed

text \<open>The power of a shift amount below 64.\<close>

lemma uint_power:
  assumes "k < 64"
  shows "uint (push_bit k 1 :: u64) = 2 ^ k"
proof -
  have "(2 :: int) ^ k < 2 ^ 64" using assms by (intro power_strict_increasing) simp_all
  moreover have "push_bit k 1 = (word_of_int (2 ^ k) :: u64)" by (simp add: push_bit_eq_mult)
  ultimately show ?thesis by (simp only: uint_word_of_int) simp
qed

lemma sll_identity:
  fixes a :: u64
  assumes "k < 64"
  shows "uint a * 2 ^ k = uint (ucast (drop_bit 64 (ucast a * ucast (push_bit k 1 :: u64) :: u128)) :: u64) * 2 ^ 64 + uint (push_bit k a)"
proof -
  have "push_bit k a = a * push_bit k 1" by (simp add: push_bit_eq_mult)
  then show ?thesis
    using mulhu_product [of a "push_bit k 1"] uint_power [OF assms] by (simp add: mulhu_def)
qed

lemma srl_identity:
  fixes a :: u64
  assumes "k < 64"
  shows "uint (drop_bit k a) * 2 ^ k + uint (a mod push_bit k 1) = uint a"
proof -
  have "uint (a mod push_bit k 1) = uint a mod 2 ^ k" by (simp only: uint_mod uint_power [OF assms])
  then show ?thesis by (simp only: uint_drop_bit div_mult_mod_eq)
qed

lemma sint_sign: "sint a < 0 \<longleftrightarrow> bit a 63" and uint_sint: "uint a = sint a + of_bool (bit a 63) * 2 ^ 64" for a :: u64
proof -
  have s: "sint a = signed_take_bit 63 (uint a)" by (simp add: sint_uint)
  show "sint a < 0 \<longleftrightarrow> bit a 63" by (simp add: s bit_uint_iff)
  have "take_bit 64 (uint a) = uint a" using uint_lt2p [of a] by (simp add: take_bit_int_eq_self)
  then show "uint a = sint a + of_bool (bit a 63) * 2 ^ 64"
    by (simp add: s signed_take_bit_eq_take_bit_minus bit_uint_iff)
qed

lemma uint_sign_of: "uint (sign_of a) = of_bool (bit a 63)" for a :: u64
proof -
  have "drop_bit 63 a AND 1 = of_bool (bit a 63)"
    by (rule bit_word_eqI) (auto simp: bit_and_iff bit_drop_bit_eq bit_of_bool_iff bit_1_iff)
  then show ?thesis by (simp add: sign_of_def)
qed

lemma sra_identity:
  fixes a :: u64
  assumes "k < 64"
  shows "uint (signed_drop_bit k a) * 2 ^ k + uint (a mod push_bit k 1) = uint a + uint (sign_of a * (push_bit k 1 - 1)) * 2 ^ 64"
proof -
  let ?n = "of_bool (bit a 63) :: int"
  have "bit (signed_drop_bit k a) 63 = bit a 63" by (cases k) (simp_all add: bit_signed_drop_bit_iff)
  then have r: "uint (signed_drop_bit k a) = sint a div 2 ^ k + ?n * 2 ^ 64"
    using uint_sint [of "signed_drop_bit k a"] by (simp add: sint_signed_drop_bit_eq drop_bit_eq_div)
  have "uint a = sint a + ?n * 2 ^ (64 - k) * 2 ^ k"
    using uint_sint [of a] assms by (simp add: mult.assoc flip: power_add)
  then have "sint a mod 2 ^ k = uint a mod 2 ^ k" by (metis mod_mult_self1)
  then have m: "uint (a mod push_bit k 1) = sint a mod 2 ^ k" by (simp only: uint_mod uint_power [OF assms])
  have c: "uint (sign_of a * (push_bit k 1 - 1)) = ?n * (2 ^ k - 1)"
  proof -
    have "uint (1 :: u64) \<le> uint (push_bit k 1 :: u64)" by (simp only: uint_power [OF assms]) simp
    then have "uint ((push_bit k 1 :: u64) - 1) = uint (push_bit k 1 :: u64) - uint (1 :: u64)" by (simp only: uint_sub_if' if_True)
    then have "uint ((push_bit k 1 :: u64) - 1) = 2 ^ k - 1" by (simp only: uint_power [OF assms] uint_1)
    moreover have "sign_of a = of_bool (bit a 63)" by (simp add: word_uint_eq_iff uint_sign_of)
    ultimately show ?thesis by simp
  qed
  have "uint (signed_drop_bit k a) * 2 ^ k + uint (a mod push_bit k 1) = sint a div 2 ^ k * 2 ^ k + sint a mod 2 ^ k + ?n * 2 ^ 64 * 2 ^ k"
    by (simp only: r m distrib_right distrib_left ac_simps)
  also have "\<dots> = sint a + ?n * 2 ^ 64 * 2 ^ k" by (simp only: div_mult_mod_eq)
  also have "\<dots> = uint a + ?n * (2 ^ k - 1) * 2 ^ 64" using uint_sint [of a] by (simp add: algebra_simps)
  finally show ?thesis by (simp only: c)
qed

text \<open>The signed comparison from the borrow and the sign bits.\<close>

lemma signed_lt_identity:
  "signed_lt_of (of_bool (a < b)) (of_bool (bit a 63)) (of_bool (bit b 63)) = (of_bool (sint a < sint b) :: 'a::comm_ring_1)"
  for a b :: u64
proof -
  have "sint a < sint b \<longleftrightarrow> bit a 63 \<and> \<not> bit b 63 \<or> bit a 63 = bit b 63 \<and> a < b"
    using uint_sint [of a] uint_sint [of b] sint_sign [of a] sint_sign [of b] uint_lt2p [of a] uint_lt2p [of b]
    by (auto simp: word_less_def)
  then show ?thesis by (auto simp: signed_lt_of_def Let_def)
qed

section \<open>Rows with one selector\<close>

text \<open>The bodies of the constraints, each with the selector that gates it; loads and stores share the last one.\<close>

definition selected_bodies :: "'a::comm_ring_1 list \<Rightarrow> (nat \<times> 'a) list" where
  "selected_bodies cs =
     [(COL_SEL_R_ALU_ADD, evaluate_alu_r_add_main_raw cs), (COL_SEL_R_ALU_SUB, evaluate_alu_r_sub_main_raw cs),
      (COL_SEL_I_ALU_ADD, evaluate_alu_i_add_main_raw cs), (COL_SEL_BEQ, evaluate_beq_condition_raw cs),
      (COL_SEL_BNE, evaluate_bne_condition_raw cs), (COL_SEL_BLTU, evaluate_bltu_condition_raw cs),
      (COL_SEL_BGEU, evaluate_bgeu_condition_raw cs), (COL_SEL_BLT, evaluate_blt_condition_raw cs),
      (COL_SEL_BGE, evaluate_bge_condition_raw cs), (COL_SEL_JAL, evaluate_jal_raw cs),
      (COL_SEL_JALR, evaluate_jalr_raw cs), (COL_SEL_LUI, evaluate_lui_raw cs),
      (COL_SEL_AUIPC, evaluate_auipc_raw cs), (COL_SEL_R_ALU_ADD, evaluate_aux0_binary_raw cs),
      (COL_SEL_R_ALU_SUB, evaluate_aux0_binary_raw cs), (COL_SEL_I_ALU_ADD, evaluate_aux0_binary_raw cs),
      (COL_SEL_W_ALU_ADD, evaluate_alu_w_addw_raw cs), (COL_SEL_W_ALU_SUB, evaluate_alu_w_subw_raw cs),
      (COL_SEL_W_ALU_ADDI, evaluate_alu_w_addiw_raw cs), (COL_SEL_MUL, evaluate_mul_raw cs),
      (COL_SEL_DIV, evaluate_div_raw cs), (COL_SEL_REM, evaluate_rem_raw cs),
      (COL_SEL_R_AND, evaluate_r_and_raw cs), (COL_SEL_R_OR, evaluate_r_or_raw cs),
      (COL_SEL_R_XOR, evaluate_r_xor_raw cs), (COL_SEL_I_AND, evaluate_i_and_raw cs),
      (COL_SEL_I_OR, evaluate_i_or_raw cs), (COL_SEL_I_XOR, evaluate_i_xor_raw cs),
      (COL_SEL_R_SLL, evaluate_sll_raw cs), (COL_SEL_R_SRL, evaluate_srl_raw cs),
      (COL_SEL_R_SRA, evaluate_sra_raw cs), (COL_SEL_I_SLL, evaluate_sll_raw cs),
      (COL_SEL_I_SRL, evaluate_srl_raw cs), (COL_SEL_I_SRA, evaluate_sra_raw cs),
      (COL_SEL_W_SLL, evaluate_w_sll_raw cs), (COL_SEL_W_SRL, evaluate_w_srl_raw cs),
      (COL_SEL_W_SRA, evaluate_w_sra_raw cs), (COL_SEL_R_COMPARE, evaluate_compare_raw cs),
      (COL_SEL_I_COMPARE, evaluate_compare_raw cs), (COL_SEL_CSRRC, evaluate_csrrc_raw cs),
      (COL_SEL_LR, evaluate_lr_raw cs), (COL_SEL_SC, evaluate_sc_raw cs),
      (COL_SEL_MULHU, evaluate_mulhu_raw cs), (COL_SEL_CSRRW, evaluate_csrrw_raw cs),
      (COL_SEL_CSRRW_I, evaluate_csrrw_i_raw cs), (COL_SEL_CSRRS, evaluate_csrrs_raw cs),
      (COL_SEL_CSRRS_I, evaluate_csrrs_i_raw cs), (COL_SEL_MULH, evaluate_mulh_raw cs),
      (COL_SEL_MULHSU, evaluate_mulhsu_raw cs), (COL_SEL_MULW, evaluate_mulw_raw cs),
      (COL_SEL_DIVW, evaluate_divw_raw cs), (COL_SEL_REMW, evaluate_remw_raw cs),
      (COL_SEL_AMO_SWAP, evaluate_amo_swap_raw cs), (COL_SEL_AMO_ADD, evaluate_amo_add_raw cs),
      (COL_SEL_AMO_BITWISE, evaluate_amo_and_raw cs), (COL_SEL_AMO_OR, evaluate_amo_or_raw cs),
      (COL_SEL_AMO_XOR, evaluate_amo_xor_raw cs), (COL_SEL_AMO_COMPARE, evaluate_amo_minu_raw cs),
      (COL_SEL_AMO_MAXU, evaluate_amo_maxu_raw cs), (COL_SEL_AMO_MINS, evaluate_amo_mins_raw cs),
      (COL_SEL_AMO_MAXS, evaluate_amo_maxs_raw cs),
      (COL_SEL_LOAD, evaluate_memory_ops_raw cs), (COL_SEL_STORE, evaluate_memory_ops_raw cs)]"

lemma selector_constraints_zero:
  fixes cs :: "'a::idom list"
  assumes "one_hot_at k cs"
  shows "set (map (\<lambda>si. cs ! si * (cs ! si - 1)) selector_column_indices @
      [sum_list (map (\<lambda>si. cs ! si) selector_column_indices) - 1]) \<subseteq> {0}"
proof -
  have k: "k \<in> set [19..<83]" using assms by (simp add: one_hot_at_def)
  have eq: "map (\<lambda>si. cs ! si) [19..<83] = map (\<lambda>si. if si = k then 1 else 0) [19..<83]"
    using assms by (intro map_cong) (simp_all add: one_hot_at_def)
  have "sum_list (map (\<lambda>si. if si = k then 1 else 0 :: 'a) [19..<83]) = 1"
    using k by (simp only: sum_list_distinct_conv_sum_set distinct_upt sum.delta' sum.delta finite_set if_True)
  moreover have "cs ! j * (cs ! j - 1) = 0" if "j \<in> set [19..<83]" for j
    using assms that by (auto simp: one_hot_at_def)
  ultimately show ?thesis by (auto simp: selector_indices eq)
qed

lemma seq_sel_not_hot:
  assumes "one_hot_at k cs" and "k \<in> branch_classes \<or> k = COL_SEL_SYSTEM"
  shows "seq_sel cs = 0"
proof -
  have "list_all (\<lambda>j. 19 \<le> j \<and> j < 83 \<and> j \<noteq> k) (COL_SEL_R_ALU_ADD # seq_selectors)"
    using assms(2) by (auto simp: seq_selectors_def branch_classes_def)
  then have "map (\<lambda>j. cs ! j) (COL_SEL_R_ALU_ADD # seq_selectors) = map (\<lambda>_. 0) (COL_SEL_R_ALU_ADD # seq_selectors)"
    using assms(1) by (intro map_cong refl) (auto simp: list_all_iff one_hot_nth)
  moreover have "seq_sel cs = sum_list (map (\<lambda>j. cs ! j) (COL_SEL_R_ALU_ADD # seq_selectors))"
    by (simp add: seq_sel_def foldl_add)
  ultimately show ?thesis by (simp only: sum_list_0)
qed

lemma class_zero:
  fixes cs :: "'a::idom list"
  assumes hot: "one_hot_at k cs"
    and bodies: "list_all (\<lambda>(j, v). j = k \<longrightarrow> v = 0) (selected_bodies cs)"
    and seq: "k \<notin> branch_classes \<Longrightarrow> k \<noteq> COL_SEL_SYSTEM \<Longrightarrow> evaluate_sequential_pc_raw cs = 0"
  shows "evaluate_at_point_extended cs alpha = Some 0"
proof -
  have prod: "cs ! j * v = 0" if "(j, v) \<in> set (selected_bodies cs)" "19 \<le> j" "j < 83" for j v
    using bodies that one_hot_nth [OF hot] by (auto simp: list_all_iff)
  have "seq_sel cs * evaluate_sequential_pc_raw cs = 0"
    using seq seq_sel_not_hot [OF hot] by (cases "k \<in> branch_classes \<or> k = COL_SEL_SYSTEM") auto
  moreover have "list_all (\<lambda>(j, v). 19 \<le> j \<and> j < 83 \<and> cs ! j * v = 0) (selected_bodies cs)"
  proof -
    have "list_all (\<lambda>(j, v). 19 \<le> j \<and> j < 83) (selected_bodies cs)" by (simp add: selected_bodies_def)
    then show ?thesis using prod by (fastforce simp: list_all_iff)
  qed
  ultimately have "set (point_constraints cs) \<subseteq> {0}"
    unfolding point_constraints_def point_constraints_flow_def point_constraints_alu_def point_constraints_shift_def
      point_constraints_wide_def selected_bodies_def by (simp add: distrib_right del: mult_eq_0_iff)
  then have "set (constraint_values cs) \<subseteq> {0}"
    using selector_constraints_zero [OF hot] by (simp add: constraint_values_def)
  then show ?thesis using hot by (intro vanishes_everywhere) (simp_all add: one_hot_at_def)
qed

lemma row_one_hot: "one_hot_at (19 + row_selector r) (row_scalars r :: 'a::comm_ring_1 list)"
proof -
  have "row_selector r < 64" by (simp add: row_selector_def selector_index_less split: prod.split)
  then show ?thesis by (auto simp: one_hot_at_def row_scalars_selector)
qed

section \<open>Honest steps\<close>

lemma step_executes:
  assumes "\<not> privileged s" and "step s = Some (Inr (), s')" and "row_of r s s'"
  shows "execute (tr_instruction r) (s\<lparr>insn_len := tr_insn_len r, last_fetched := Some (tr_instruction r, tr_insn_len r)\<rparr>) = Some (Inr (), s') \<and>
    insn_ok (tr_instruction r)"
proof -
  obtain f where f: "fetch_decode (ram s) (pc (cpu s)) = Inr f" "tr_instruction r = fi_instruction f" "tr_insn_len r = fi_len f"
    using assms(3) by (auto simp: row_of_def)
  have ok: "insn_ok (tr_instruction r)" using fetch_decode_ok(1) [OF f(1)] f(2) by simp
  let ?s = "s\<lparr>insn_len := tr_insn_len r, last_fetched := Some (tr_instruction r, tr_insn_len r)\<rparr>"
  obtain q s3 where ex: "execute (tr_instruction r) ?s = Some (q, s3)" and fr: "vm_frame ?s s3"
    using execute_frame [OF ok, of ?s] by (auto simp: total_frame_def)
  have "\<not> privileged s3" using fr assms(1) by (simp add: vm_frame_def)
  moreover have "step_inner s = Some (Inr (), s')" using assms(1,2) by (simp add: step_def split: if_splits)
  ultimately have "q = Inr ()" "s3 = s'"
    using assms(1) f ex fetch_addr_unprivileged [of "s\<lparr>last_fetched := None\<rparr>"]
    by (auto simp: step_inner_def ok_def split: sum.splits)
  with ex ok show ?thesis by simp
qed

lemma row_values_of:
  assumes "row_of r s s'"
  shows "tr_pc r = pc (cpu s)" "tr_next_pc r = pc (cpu s')" "tr_rd_val_after r = reg_val (cpu s') (reg_or_zero (insn_rd (tr_instruction r)))"
    "tr_rs1_val r = reg_val (cpu s) (reg_or_zero (insn_rs1 (tr_instruction r)))"
    "tr_rs2_val r = reg_val (cpu s) (reg_or_zero (insn_rs2 (tr_instruction r)))"
    "(tr_aux0 r, tr_aux1 r, tr_aux2 r) = compute_aux_values (tr_instruction r) (tr_rs1_val r) (tr_rs2_val r) (tr_rd_val_after r)"
  using assms by (simp_all add: row_of_def)

lemma insn_regs_ok:
  "insn_ok (OpReg op rd rs1 rs2) \<Longrightarrow> rd < 32 \<and> rs1 < 32 \<and> rs2 < 32"
  "insn_ok (OpMul mop rd rs1 rs2) \<Longrightarrow> rd < 32 \<and> rs1 < 32 \<and> rs2 < 32"
  "insn_ok (OpImm iop rd rs1 imm) \<Longrightarrow> rd < 32 \<and> rs1 < 32"
  "insn_ok (LUI rd imm) \<Longrightarrow> rd < 32"
  "insn_ok (Branch bop rs1 rs2 imm) \<Longrightarrow> rs1 < 32 \<and> rs2 < 32"
  by (simp_all add: insn_ok_def regs_ok_def insn_rs2_def)

text \<open>What the row of a step says about the values, for each group of instructions.\<close>

lemma step_row_values:
  assumes "\<not> privileged s" and "step s = Some (Inr (), s')" and "row_of r s s'"
  shows "tr_instruction r = OpReg op rd rs1 rs2 \<Longrightarrow> rd \<noteq> 0 \<Longrightarrow>
      tr_rd_val_after r = reg_result op (tr_rs1_val r) (tr_rs2_val r) \<and> tr_next_pc r = tr_pc r + zx (tr_insn_len r)"
    "tr_instruction r = OpMul mop rd rs1 rs2 \<Longrightarrow> rd \<noteq> 0 \<Longrightarrow>
      mul_result mop (tr_rs1_val r) (tr_rs2_val r) = Some (tr_rd_val_after r) \<and> tr_next_pc r = tr_pc r + zx (tr_insn_len r)"
    "tr_instruction r = OpImm iop rd rs1 imm \<Longrightarrow> rd \<noteq> 0 \<Longrightarrow>
      tr_rd_val_after r = imm_result iop (tr_rs1_val r) imm \<and> tr_next_pc r = tr_pc r + zx (tr_insn_len r)"
    "tr_instruction r = LUI rd imm \<Longrightarrow> rd \<noteq> 0 \<Longrightarrow>
      tr_rd_val_after r = sx imm \<and> tr_next_pc r = tr_pc r + zx (tr_insn_len r)"
    "tr_instruction r = Branch bop rs1 rs2 imm \<Longrightarrow>
      tr_next_pc r = (if branch_taken bop (tr_rs1_val r) (tr_rs2_val r) then tr_pc r + sx imm else tr_pc r + zx (tr_insn_len r))"
proof -
  note ex = step_executes [OF assms] and vals = row_values_of [OF assms(3)]
  note sem = exec_op_reg_def exec_op_mul_def exec_op_imm_def exec_lui_def exec_branch_def finish_def ok_def set_pc_def
    next_pc_def read_reg_ok write_reg_ok reg_or_zero_def insn_rs2_def
  show "tr_instruction r = OpReg op rd rs1 rs2 \<Longrightarrow> rd \<noteq> 0 \<Longrightarrow>
      tr_rd_val_after r = reg_result op (tr_rs1_val r) (tr_rs2_val r) \<and> tr_next_pc r = tr_pc r + zx (tr_insn_len r)"
    using ex insn_regs_ok(1) [of op rd rs1 rs2] by (auto simp: vals sem)
  show "tr_instruction r = OpMul mop rd rs1 rs2 \<Longrightarrow> rd \<noteq> 0 \<Longrightarrow>
      mul_result mop (tr_rs1_val r) (tr_rs2_val r) = Some (tr_rd_val_after r) \<and> tr_next_pc r = tr_pc r + zx (tr_insn_len r)"
    using ex insn_regs_ok(2) [of mop rd rs1 rs2] by (auto simp: vals sem split: bind_splits)
  show "tr_instruction r = OpImm iop rd rs1 imm \<Longrightarrow> rd \<noteq> 0 \<Longrightarrow>
      tr_rd_val_after r = imm_result iop (tr_rs1_val r) imm \<and> tr_next_pc r = tr_pc r + zx (tr_insn_len r)"
    using ex insn_regs_ok(3) [of iop rd rs1 imm] by (auto simp: vals sem)
  show "tr_instruction r = LUI rd imm \<Longrightarrow> rd \<noteq> 0 \<Longrightarrow>
      tr_rd_val_after r = sx imm \<and> tr_next_pc r = tr_pc r + zx (tr_insn_len r)"
    using ex insn_regs_ok(4) [of rd imm] by (auto simp: vals sem)
  show "tr_instruction r = Branch bop rs1 rs2 imm \<Longrightarrow>
      tr_next_pc r = (if branch_taken bop (tr_rs1_val r) (tr_rs2_val r) then tr_pc r + sx imm else tr_pc r + zx (tr_insn_len r))"
    using ex insn_regs_ok(5) [of bop rs1 rs2 imm] by (auto simp: vals sem)
qed

section \<open>Constraint bodies of honest rows\<close>

lemma shift_amount: "unat (b AND 0x3F :: u64) < 64" for b
proof -
  have "unat (b AND 0x3F) = unat b mod 64" using unat_and_pow2_mask [of b 6] by (simp add: mask_eq_exp_minus_1)
  then show ?thesis by simp
qed

lemma mod_power_zero: "k = 0 \<Longrightarrow> a mod push_bit k 1 = (0 :: u64)"
  by (simp add: word_uint_eq_iff uint_mod)

lemma shift_aux:
  "sll_aux a k = (push_bit (unat k) 1, ucast (drop_bit 64 (ucast a * ucast (push_bit (unat k) 1 :: u64) :: u128)), 0)"
  "srl_aux a k = (push_bit (unat k) 1, a mod push_bit (unat k) 1, 0)"
  "sra_aux a k = (push_bit (unat k) 1, a mod push_bit (unat k) 1, sign_of a * (push_bit (unat k) 1 - 1))"
  using mod_power_zero [of 0 a] by (auto simp: sll_aux_def srl_aux_def sra_aux_def Let_def)

text \<open>The value columns of a row.\<close>

definition holds_values :: "'a::comm_ring_1 list \<Rightarrow> u64 \<Rightarrow> u64 \<Rightarrow> u64 \<Rightarrow> u64 \<Rightarrow> u64 \<times> u64 \<times> u64 \<Rightarrow> bool" where
  "holds_values cs a b imm d aux \<longleftrightarrow>
     cs ! COL_RS1_VAL = scalar_from_u64 a \<and> cs ! COL_RS2_VAL = scalar_from_u64 b \<and> cs ! COL_IMMEDIATE = scalar_from_u64 imm \<and>
     cs ! COL_RD_VAL_AFTER = scalar_from_u64 d \<and> length cs = 83 \<and>
     cs ! COL_AUX0 = scalar_from_u64 (fst aux) \<and> cs ! COL_AUX1 = scalar_from_u64 (fst (snd aux)) \<and>
     cs ! COL_AUX2 = scalar_from_u64 (snd (snd aux))"

text \<open>The bodies of the constraints are images of integer expressions.\<close>

lemma body_integers:
  assumes "holds_values cs a b imm d (x, y, z)"
  shows "evaluate_alu_r_add_main_raw cs = of_int (uint a + uint b - (uint x * 2 ^ 64 + uint d))"
    "evaluate_alu_i_add_main_raw cs = of_int (uint a + uint imm - (uint x * 2 ^ 64 + uint d))"
    "evaluate_alu_r_sub_main_raw cs = of_int (uint d + uint b - (uint a + uint x * 2 ^ 64))"
    "evaluate_aux0_binary_raw cs = of_int (uint x * (uint x - 1))"
    "evaluate_r_and_raw cs = of_int (uint d - uint x)"
    "evaluate_i_and_raw cs = of_int (uint d - uint x)"
    "evaluate_r_or_raw cs = of_int (uint d - (uint a + uint b - uint x))"
    "evaluate_i_or_raw cs = of_int (uint d - (uint a + uint imm - uint x))"
    "evaluate_r_xor_raw cs = of_int (uint d - (uint a + uint b - 2 * uint x))"
    "evaluate_i_xor_raw cs = of_int (uint d - (uint a + uint imm - 2 * uint x))"
    "evaluate_sll_raw cs = of_int (uint a * uint x - (uint y * 2 ^ 64 + uint d))"
    "evaluate_srl_raw cs = of_int (uint d * uint x + uint y - uint a)"
    "evaluate_sra_raw cs = of_int (uint d * uint x + uint y - (uint a + uint z * 2 ^ 64))"
    "evaluate_compare_raw cs = of_int (uint d - signed_lt_of (uint x) (uint y) (uint z) + uint x * (uint x - 1) +
       uint y * (uint y - 1) + uint z * (uint z - 1))"
    "evaluate_mul_raw cs = of_int (uint a * uint b - (uint x * 2 ^ 64 + uint d))"
    "evaluate_mulhu_raw cs = of_int (uint a * uint b - (uint d * 2 ^ 64 + uint x))"
    "evaluate_div_raw cs = of_int (uint d * uint b + uint x - uint a)"
    "evaluate_rem_raw cs = of_int (uint x * uint b + uint d - uint a)"
    "evaluate_lui_raw cs = of_int (uint d - uint imm)"
  using assms
  by (simp_all add: holds_values_def evaluate_alu_r_add_main_raw_def evaluate_alu_i_add_main_raw_def
      evaluate_alu_r_sub_main_raw_def evaluate_aux0_binary_raw_def evaluate_r_and_raw_def evaluate_i_and_raw_def
      evaluate_r_or_raw_def evaluate_i_or_raw_def evaluate_r_xor_raw_def evaluate_i_xor_raw_def evaluate_sll_raw_def
      evaluate_srl_raw_def evaluate_sra_raw_def evaluate_compare_raw_def evaluate_mul_raw_def evaluate_mulhu_raw_def
      evaluate_div_raw_def evaluate_rem_raw_def evaluate_lui_raw_def signed_lt_of_def scalar_from_u64_def two_pow_64_def
      col_or_zero_def Let_def)

text \<open>The integer expressions vanish on the results and auxiliary values of the instructions.\<close>

lemma carry_binary: "uint (ucast (drop_bit 64 (ucast a + ucast b :: u128)) :: u64) \<in> {0, 1}" (is "?c \<in> _") for a b :: u64
proof -
  have "?c * 2 ^ 64 \<le> uint a + uint b" using add_identity [of a b] uint_ge_0 [of "a + b"] by linarith
  then have "?c < 2" using uint_lt2p [of a] uint_lt2p [of b] by simp
  then show ?thesis using uint_ge_0 [of "ucast (drop_bit 64 (ucast a + ucast b :: u128)) :: u64"] by (simp only: insert_iff) linarith
qed

lemma compare_identity:
  "of_bool (sint a < sint b) - signed_lt_of (uint (borrow_of a b)) (uint (sign_of a)) (uint (sign_of b)) +
     uint (borrow_of a b) * (uint (borrow_of a b) - 1) + uint (sign_of a) * (uint (sign_of a) - 1) +
     uint (sign_of b) * (uint (sign_of b) - 1) = (0 :: int)" for a b :: u64
  by (simp add: borrow_of_def uint_sign_of signed_lt_identity)

lemma reg_integers:
  assumes "reg_aux op a b = (x, y, z)" and "d = reg_result op a b"
  shows "op = Add \<Longrightarrow> uint a + uint b - (uint x * 2 ^ 64 + uint d) = 0"
    "op = Add \<or> op = Sub \<Longrightarrow> uint x * (uint x - 1) = 0"
    "op = Sub \<Longrightarrow> uint d + uint b - (uint a + uint x * 2 ^ 64) = 0"
    "op = And \<Longrightarrow> uint d - uint x = 0"
    "op = Or \<Longrightarrow> uint d - (uint a + uint b - uint x) = 0"
    "op = Xor \<Longrightarrow> uint d - (uint a + uint b - 2 * uint x) = 0"
    "op = Sll \<Longrightarrow> uint a * uint x - (uint y * 2 ^ 64 + uint d) = 0"
    "op = Srl \<Longrightarrow> uint d * uint x + uint y - uint a = 0"
    "op = Sra \<Longrightarrow> uint d * uint x + uint y - (uint a + uint z * 2 ^ 64) = 0"
    "op = Slt \<or> op = Sltu \<Longrightarrow> uint d - signed_lt_of (uint x) (uint y) (uint z) + uint x * (uint x - 1) +
       uint y * (uint y - 1) + uint z * (uint z - 1) = 0"
proof -
  note k = shift_amount [of b]
  show "op = Add \<Longrightarrow> uint a + uint b - (uint x * 2 ^ 64 + uint d) = 0"
    using assms add_identity [of a b] by auto
  show "op = Add \<or> op = Sub \<Longrightarrow> uint x * (uint x - 1) = 0"
    using assms carry_binary [of a b] by (auto simp: borrow_of_def)
  show "op = Sub \<Longrightarrow> uint d + uint b - (uint a + uint x * 2 ^ 64) = 0"
    using assms sub_identity [of a b] by auto
  show "op = And \<Longrightarrow> uint d - uint x = 0" "op = Or \<Longrightarrow> uint d - (uint a + uint b - uint x) = 0"
    "op = Xor \<Longrightarrow> uint d - (uint a + uint b - 2 * uint x) = 0"
    using assms or_identity [of a b] xor_identity [of a b] by auto
  show "op = Sll \<Longrightarrow> uint a * uint x - (uint y * 2 ^ 64 + uint d) = 0"
    using assms sll_identity [OF k, of a] uint_power [OF k] by (auto simp: shift_aux)
  show "op = Srl \<Longrightarrow> uint d * uint x + uint y - uint a = 0"
    using assms srl_identity [OF k, of a] uint_power [OF k] by (auto simp: shift_aux simp del: uint_mod)
  show "op = Sra \<Longrightarrow> uint d * uint x + uint y - (uint a + uint z * 2 ^ 64) = 0"
    using assms sra_identity [OF k, of a] uint_power [OF k] by (auto simp: shift_aux simp del: uint_mod)
  show "op = Slt \<or> op = Sltu \<Longrightarrow> uint d - signed_lt_of (uint x) (uint y) (uint z) + uint x * (uint x - 1) +
       uint y * (uint y - 1) + uint z * (uint z - 1) = 0"
    using assms compare_identity [of a b] by (auto simp: signed_lt_of_def borrow_of_def)
qed

text \<open>The rows of an instruction class: all bodies with its selector vanish.\<close>

abbreviation bodies_vanish :: "nat \<Rightarrow> 'a::comm_ring_1 list \<Rightarrow> bool" where
  "bodies_vanish k cs \<equiv> list_all (\<lambda>(j, v). j = k \<longrightarrow> v = 0) (selected_bodies cs)"

lemma image_zero: "v = of_int k \<Longrightarrow> k = 0 \<Longrightarrow> v = 0"
  by simp

lemma reg_zero:
  assumes "holds_values cs a b imm (reg_result op a m) (reg_aux op a m)"
  shows "op = Add \<Longrightarrow> m = b \<Longrightarrow> evaluate_alu_r_add_main_raw cs = 0" "op = Add \<Longrightarrow> m = imm \<Longrightarrow> evaluate_alu_i_add_main_raw cs = 0"
    "op = Add \<or> op = Sub \<Longrightarrow> evaluate_aux0_binary_raw cs = 0" "op = Sub \<Longrightarrow> m = b \<Longrightarrow> evaluate_alu_r_sub_main_raw cs = 0"
    "op = And \<Longrightarrow> evaluate_r_and_raw cs = 0 \<and> evaluate_i_and_raw cs = 0"
    "op = Or \<Longrightarrow> m = b \<Longrightarrow> evaluate_r_or_raw cs = 0" "op = Or \<Longrightarrow> m = imm \<Longrightarrow> evaluate_i_or_raw cs = 0"
    "op = Xor \<Longrightarrow> m = b \<Longrightarrow> evaluate_r_xor_raw cs = 0" "op = Xor \<Longrightarrow> m = imm \<Longrightarrow> evaluate_i_xor_raw cs = 0"
    "op = Sll \<Longrightarrow> evaluate_sll_raw cs = 0" "op = Srl \<Longrightarrow> evaluate_srl_raw cs = 0" "op = Sra \<Longrightarrow> evaluate_sra_raw cs = 0"
    "op = Slt \<or> op = Sltu \<Longrightarrow> evaluate_compare_raw cs = 0"
proof -
  obtain x y z where aux: "reg_aux op a m = (x, y, z)" by (cases "reg_aux op a m")
  note ints = body_integers [OF assms [unfolded aux]] and zero = reg_integers [OF aux refl]
  note z = image_zero [OF ints(4) zero(2)] image_zero [OF ints(5) zero(4)] image_zero [OF ints(6) zero(4)]
    image_zero [OF ints(11) zero(7)] image_zero [OF ints(12) zero(8)] image_zero [OF ints(13) zero(9)] image_zero [OF ints(14) zero(10)]
  show "op = Add \<or> op = Sub \<Longrightarrow> evaluate_aux0_binary_raw cs = 0" "op = And \<Longrightarrow> evaluate_r_and_raw cs = 0 \<and> evaluate_i_and_raw cs = 0"
    "op = Sll \<Longrightarrow> evaluate_sll_raw cs = 0" "op = Srl \<Longrightarrow> evaluate_srl_raw cs = 0" "op = Sra \<Longrightarrow> evaluate_sra_raw cs = 0"
    "op = Slt \<or> op = Sltu \<Longrightarrow> evaluate_compare_raw cs = 0" using z by blast+
  show "op = Add \<Longrightarrow> m = b \<Longrightarrow> evaluate_alu_r_add_main_raw cs = 0" using zero(1) by (intro image_zero [OF ints(1)]) simp
  show "op = Add \<Longrightarrow> m = imm \<Longrightarrow> evaluate_alu_i_add_main_raw cs = 0" using zero(1) by (intro image_zero [OF ints(2)]) simp
  show "op = Sub \<Longrightarrow> m = b \<Longrightarrow> evaluate_alu_r_sub_main_raw cs = 0" using zero(3) by (intro image_zero [OF ints(3)]) simp
  show "op = Or \<Longrightarrow> m = b \<Longrightarrow> evaluate_r_or_raw cs = 0" using zero(5) by (intro image_zero [OF ints(7)]) simp
  show "op = Or \<Longrightarrow> m = imm \<Longrightarrow> evaluate_i_or_raw cs = 0" using zero(5) by (intro image_zero [OF ints(8)]) simp
  show "op = Xor \<Longrightarrow> m = b \<Longrightarrow> evaluate_r_xor_raw cs = 0" using zero(6) by (intro image_zero [OF ints(9)]) simp
  show "op = Xor \<Longrightarrow> m = imm \<Longrightarrow> evaluate_i_xor_raw cs = 0" using zero(6) by (intro image_zero [OF ints(10)]) simp
qed

lemma reg_bodies:
  assumes "holds_values cs a b imm (reg_result op a b) (reg_aux op a b)"
  shows "bodies_vanish (19 + selector_index 0 (reg_funct op)) cs"
  using reg_zero [OF assms] by (cases op) (simp_all add: selected_bodies_def selector_index_def del: reg_result.simps reg_aux.simps)

text \<open>An immediate instruction is the register instruction on the extended immediate.\<close>

fun reg_of_imm :: "imm_op \<Rightarrow> reg_op" where
  "reg_of_imm Addi = Add" | "reg_of_imm Slti = Slt" | "reg_of_imm Sltiu = Sltu" | "reg_of_imm Xori = Xor"
| "reg_of_imm Ori = Or" | "reg_of_imm Andi = And" | "reg_of_imm Slli = Sll" | "reg_of_imm Srli = Srl" | "reg_of_imm Srai = Sra"

lemma imm_shift_amount: "unat (sx imm AND 0x3F :: u64) = unat (imm AND 0x3F)" for imm :: i32
proof -
  have m: "(0x3F :: u64) = mask 6" "(0x3F :: i32) = mask 6" by (simp_all add: mask_eq_exp_minus_1)
  have "(sx imm AND 0x3F :: u64) = ucast (imm AND 0x3F)"
    unfolding m by (rule bit_word_eqI) (auto simp: bit_simps)
  moreover have "unat (imm AND 0x3F) < 2 ^ 64" using unsigned_less [of "imm AND 0x3F", where ?'a = nat] by simp
  ultimately show ?thesis by (simp add: unsigned_ucast_eq take_bit_nat_eq_self)
qed

lemma imm_as_reg:
  "imm_result iop a imm = reg_result (reg_of_imm iop) a (sx imm)" "imm_aux iop a imm = reg_aux (reg_of_imm iop) a (sx imm)"
  using imm_shift_amount [of imm] by (cases iop; simp)+

lemma imm_bodies:
  assumes "holds_values cs a b (sx imm) (imm_result iop a imm) (imm_aux iop a imm)"
  shows "bodies_vanish (19 + selector_index 1 (imm_funct iop)) cs"
  using reg_zero [OF assms [unfolded imm_as_reg]]
  by (cases iop) (simp_all add: selected_bodies_def selector_index_def del: reg_result.simps reg_aux.simps)

lemma mul_bodies:
  assumes "holds_values cs a b imm d (mul_aux mop a b)" and res: "mul_result mop a b = Some d"
    and "mop \<in> {Mul, Mulhu, Remu} \<or> mop = Divu \<and> b \<noteq> 0"
  shows "bodies_vanish (19 + selector_index 3 (mul_funct mop)) cs"
proof -
  obtain x y z where aux: "mul_aux mop a b = (x, y, z)" by (cases "mul_aux mop a b")
  note ints = body_integers [OF assms(1) [unfolded aux]]
  have "uint w mod 2 ^ 128 = uint w" for w :: u64 using uint_lt2p [of w] by simp
  then have lo: "ucast (ucast a * ucast b :: u128) = a * b"
    by (simp add: word_uint_eq_iff unsigned_ucast_eq uint_word_ariths uint_ucast_128 take_bit_eq_mod mod_mod_cancel)
  have "uint a div uint b * uint b + uint a mod uint b = uint a" by simp
  then have dv: "uint (a div b) * uint b + uint (a mod b) = uint a" by (simp only: uint_div uint_mod)
  have "mop = Mul \<Longrightarrow> evaluate_mul_raw cs = 0"
    using aux res mulhu_product [of a b] by (intro image_zero [OF ints(15)]) (auto simp: mulhu_def)
  moreover have "mop = Mulhu \<Longrightarrow> evaluate_mulhu_raw cs = 0"
    using aux res mulhu_product [of a b] by (intro image_zero [OF ints(16)]) (auto simp: lo)
  moreover have "mop = Divu \<Longrightarrow> b \<noteq> 0 \<Longrightarrow> evaluate_div_raw cs = 0"
    using aux res dv by (intro image_zero [OF ints(17)]) (auto simp: division_values simp del: uint_div uint_mod)
  moreover have "mop = Remu \<Longrightarrow> evaluate_rem_raw cs = 0"
    using aux res dv by (intro image_zero [OF ints(18)]) (auto simp: division_values simp del: uint_div uint_mod split: if_splits)
  ultimately show ?thesis using assms(3) by (auto simp: selected_bodies_def selector_index_def)
qed

text \<open>
  The auxiliary value of DIVU by zero is zero instead of the dividend, so the honest row violates the division
  constraint unless the dividend is zero.
\<close>

lemma divu_by_zero_row:
  assumes "holds_values cs a 0 imm d (mul_aux Divu a 0)"
  shows "evaluate_div_raw cs = - scalar_from_u64 a"
  using assms by (simp add: holds_values_def evaluate_div_raw_def col_or_zero_def scalar_from_u64_def)

lemma lui_bodies:
  assumes "holds_values cs a b imm imm aux"
  shows "bodies_vanish COL_SEL_LUI cs"
  using assms by (simp add: selected_bodies_def holds_values_def evaluate_lui_raw_def)

section \<open>Branches\<close>

lemma scalar_bits:
  "scalar_from_u64 (sign_of w) = (of_bool (bit w 63) :: 'a::comm_ring_1)" "scalar_from_u64 (u64_of_bool Q) = (of_bool Q :: 'a)" for w :: u64
  using uint_sign_of [of w] by (simp_all only: scalar_from_u64_def uint_u64_of_bool of_int_of_bool)

lemma of_bool_binary: "of_bool Q * (of_bool Q - 1) = (0 :: 'a::comm_ring_1)"
  by simp

lemma signed_branch_zero:
  "n = (if sint a < sint b then p + m else p + l) \<Longrightarrow>
     evaluate_signed_branch_condition p m l n (of_bool (a < b)) (of_bool (bit a 63)) (of_bool (bit b 63)) True = (0 :: 'a::comm_ring_1)"
  "n = (if sint b \<le> sint a then p + m else p + l) \<Longrightarrow>
     evaluate_signed_branch_condition p m l n (of_bool (a < b)) (of_bool (bit a 63)) (of_bool (bit b 63)) False = (0 :: 'a::comm_ring_1)"
  for a b :: u64
  unfolding evaluate_signed_branch_condition_def Let_def signed_lt_identity of_bool_binary by (auto simp: not_le not_less)

lemma branch_bodies:
  assumes "holds_values cs a b imm d (branch_aux bop a b)"
    and "cs ! COL_NEXT_PC = (if branch_taken bop a b then cs ! COL_PC + cs ! COL_IMMEDIATE else cs ! COL_PC + cs ! COL_INSN_LEN)"
  shows "bodies_vanish (19 + selector_index 6 (branch_funct bop)) cs"
proof (cases "bop = Blt \<or> bop = Bge")
  case True
  then have aux: "aux0_of cs = of_bool (a < b)" "aux1_of cs = of_bool (bit a 63)" "aux2_of cs = of_bool (bit b 63)"
    using assms(1) by (auto simp: holds_values_def col_or_zero_def scalar_bits borrow_of_def)
  have "evaluate_blt_condition_raw cs = 0" if "bop = Blt"
    unfolding evaluate_blt_condition_raw_def aux using assms(2) that by (intro signed_branch_zero(1)) simp
  moreover have "evaluate_bge_condition_raw cs = 0" if "bop = Bge"
    unfolding evaluate_bge_condition_raw_def aux using assms(2) that by (intro signed_branch_zero(2)) simp
  ultimately show ?thesis using True by (auto simp: selected_bodies_def selector_index_def)
next
  case False
  then show ?thesis
    using assms
    by (cases bop)
      (auto simp: selected_bodies_def selector_index_def holds_values_def evaluate_beq_condition_raw_def evaluate_bne_condition_raw_def
        evaluate_bltu_condition_raw_def evaluate_bgeu_condition_raw_def scalar_bits borrow_of_def not_le not_less Let_def)
qed

section \<open>Completeness\<close>

text \<open>The instructions whose honest rows are covered, on the values of the row.\<close>

fun covered :: "instruction \<Rightarrow> u64 \<Rightarrow> u64 \<Rightarrow> bool" where
  "covered (OpReg _ rd _ _) _ _ \<longleftrightarrow> rd \<noteq> 0"
| "covered (OpImm _ rd _ _) _ _ \<longleftrightarrow> rd \<noteq> 0"
| "covered (LUI rd _) _ _ \<longleftrightarrow> rd \<noteq> 0"
| "covered (OpMul mop rd _ _) p b \<longleftrightarrow> rd \<noteq> 0 \<and> (mop \<in> {Mul, Mulhu, Remu} \<or> mop = Divu \<and> b \<noteq> 0)"
| "covered (Branch _ _ _ imm) p _ \<longleftrightarrow> uint p + uint (sx imm :: u64) < 2 ^ 64"
| "covered _ _ _ \<longleftrightarrow> False"

lemma scalar_add: "uint p + uint q < 2 ^ 64 \<Longrightarrow> scalar_from_u64 (p + q) = scalar_from_u64 p + (scalar_from_u64 q :: 'a::comm_ring_1)"
proof -
  assume "uint p + uint q < 2 ^ 64"
  then have "uint (p + q) = uint p + uint q" by (simp add: uint_plus_simple_iff uint_word_ariths)
  then show "scalar_from_u64 (p + q) = scalar_from_u64 p + (scalar_from_u64 q :: 'a)" by (simp only: scalar_from_u64_def of_int_add)
qed

lemma row_holds:
  assumes "row_of r s s'"
  shows "holds_values (row_scalars r :: 'a::comm_ring_1 list) (tr_rs1_val r) (tr_rs2_val r) (extract_immediate (tr_instruction r))
    (tr_rd_val_after r) (compute_aux_values (tr_instruction r) (tr_rs1_val r) (tr_rs2_val r) (tr_rd_val_after r))"
  unfolding holds_values_def row_values_of(6) [OF assms, symmetric] by (simp add: row_scalars_nth)

lemma honest_step:
  assumes "\<not> privileged s" and "step s = Some (Inr (), s')" and row: "row_of r s s'"
    and cov: "covered (tr_instruction r) (tr_pc r) (tr_rs2_val r)"
    and nowrap: "uint (tr_pc r) + uint (zx (tr_insn_len r) :: u64) < 2 ^ 64"
  shows "evaluate_at_point_extended (row_scalars r :: 'a::idom list) alpha = Some 0"
proof (rule class_zero [OF row_one_hot])
  let ?cs = "row_scalars r :: 'a list" and ?k = "19 + row_selector r"
  note vals = step_row_values [OF assms(1-3)] and holds = row_holds [OF row, where ?'a = 'a]
  show "bodies_vanish ?k ?cs"
  proof (cases "tr_instruction r")
    case (OpReg op rd rs1 rs2)
    then show ?thesis using cov vals(1) [OF OpReg] holds reg_bodies [of ?cs] by (simp add: row_selector_def)
  next
    case (OpImm iop rd rs1 imm)
    then show ?thesis using cov vals(3) [OF OpImm] holds imm_bodies [of ?cs] by (simp add: row_selector_def)
  next
    case (OpMul mop rd rs1 rs2)
    then show ?thesis using cov vals(2) [OF OpMul] holds mul_bodies [of ?cs] by (auto simp: row_selector_def)
  next
    case (LUI rd imm)
    then show ?thesis using cov vals(4) [OF LUI] holds lui_bodies [of ?cs] by (simp add: row_selector_def selector_index_def)
  next
    case (Branch bop rs1 rs2 imm)
    then have "tr_next_pc r = (if branch_taken bop (tr_rs1_val r) (tr_rs2_val r) then tr_pc r + sx imm else tr_pc r + zx (tr_insn_len r))"
      by (rule vals(5))
    then have "?cs ! COL_NEXT_PC = (if branch_taken bop (tr_rs1_val r) (tr_rs2_val r) then ?cs ! COL_PC + ?cs ! COL_IMMEDIATE
        else ?cs ! COL_PC + ?cs ! COL_INSN_LEN)"
      using Branch cov nowrap by (simp add: row_scalars_nth scalar_add)
    then show ?thesis using Branch holds branch_bodies [of ?cs] by (simp add: row_selector_def)
  qed (use cov in simp_all)
  assume "?k \<notin> branch_classes" "?k \<noteq> COL_SEL_SYSTEM"
  then have "\<not> (\<exists>bop rs1 rs2 imm. tr_instruction r = Branch bop rs1 rs2 imm)"
    by (auto simp: row_selector_def selector_index_def branch_classes_def split: if_splits)
  then have "tr_next_pc r = tr_pc r + zx (tr_insn_len r)"
    using cov vals by (cases "tr_instruction r") auto
  then show "evaluate_sequential_pc_raw ?cs = 0"
    using nowrap by (simp add: evaluate_sequential_pc_raw_def row_scalars_nth scalar_add)
qed

lemma replays_rows:
  "replays s rows t \<Longrightarrow> \<not> privileged s \<Longrightarrow> r \<in> set rows \<Longrightarrow>
    \<exists>u u'. \<not> privileged u \<and> step u = Some (Inr (), u') \<and> row_of r u u'"
proof (induction rule: replays.induct)
  case (replays_step s s' r' rows t)
  then show ?case using step_keeps [OF replays_step.hyps(1)] by (auto simp: vm_frame_def)
qed simp

text \<open>
  C14. The constraints are complete for the rows they are meant for. Take the trace of a run of an unprivileged machine and
  the table of polynomials built from its exported columns. A row of the table makes the verifier's combination
  vanish for every challenge, in every integral domain, when all of the following hold: its instruction is a
  register or immediate instruction, LUI, MUL, MULHU or REMU, or DIVU by a divisor other than zero, each with a destination other
  than \<open>x0\<close>, or a branch; the address after the instruction does not wrap around \<open>2^64\<close>; and for a branch \<open>pc + imm\<close>
  does not wrap either, with \<open>imm\<close> the 64-bit two's complement value. The excluded rows are not claimed: the
  findings list honest rows with destination \<open>x0\<close>, backward branches and divisions by zero that violate the constraints.
\<close>

theorem honest_trace_satisfies:
  assumes "\<not> privileged s" and "tracing_run (tracing_new s) max_steps = Some (res, tv)" and "j < length (tv_trace tv)"
    and "r = tv_trace tv ! j"
    and "covered (tr_instruction r) (tr_pc r) (tr_rs2_val r)" and "uint (tr_pc r) + uint (zx (tr_insn_len r) :: u64) < 2 ^ 64"
  shows "evaluate_at_point_extended (table_row (export_columns tv) j :: 'a::idom list) alpha = Some 0"
proof -
  have "traced_run s (run_batch max_steps 0 s) (tracing_loop max_steps 0 (tracing_new s))"
    using tracing_loop_transparent [of "tracing_new s" s 0 max_steps] assms(1)
    by (simp add: tracing_new_def replays.replays_none)
  then obtain t where rep: "replays s (tv_trace tv) t" using assms(2) by (auto simp: traced_run_def tracing_run_def)
  have "r \<in> set (tv_trace tv)" using assms(3,4) by simp
  from replays_rows [OF rep assms(1) this] obtain u u' where "\<not> privileged u" "step u = Some (Inr (), u')" "row_of r u u'" by blast
  then have "evaluate_at_point_extended (row_scalars r :: 'a list) alpha = Some 0" using assms(5,6) by (rule honest_step)
  then show ?thesis using assms(3,4) by (simp add: export_columns_def table_row_export)
qed

text \<open>A machine that executes \<open>ADDI x1, x0, -1\<close>, \<open>ADDI x2, x0, 2\<close>, \<open>ADD x3, x1, x2\<close>, \<open>BLT x1, x2, 8\<close>.\<close>

declare tracing_loop.simps [code]

definition adding_vm :: vm where
  "adding_vm = vm_new cpu_new (store_word (store_word (store_word (store_word memory_new 0 0xFFF00093) 4 0x00200113) 8 0x002081B3)
     12 0x0020C463)"

lemma adding_trace:
  "case tracing_run (tracing_new adding_vm) 4 of Some (_, tv) \<Rightarrow>
     map tr_instruction (tv_trace tv) = [OpImm Addi 1 0 (- 1), OpImm Addi 2 0 2, OpReg Add 3 1 2, Branch Blt 1 2 8] \<and>
     list_all (\<lambda>r. covered (tr_instruction r) (tr_pc r) (tr_rs2_val r) \<and>
       uint (tr_pc r) + uint (zx (tr_insn_len r) :: u64) < 2 ^ 64) (tv_trace tv) | _ \<Rightarrow> False"
  by code_simp

theorem honest_trace_satisfies_witness:
  "\<exists>res tv. tracing_run (tracing_new adding_vm) 4 = Some (res, tv) \<and> length (tv_trace tv) = 4 \<and>
     (\<forall>j<4. \<forall>alpha. evaluate_at_point_extended (table_row (export_columns tv) j :: int list) alpha = Some 0)"
proof -
  obtain res tv where run: "tracing_run (tracing_new adding_vm) 4 = Some (res, tv)"
    and ins: "map tr_instruction (tv_trace tv) = [OpImm Addi 1 0 (- 1), OpImm Addi 2 0 2, OpReg Add 3 1 2, Branch Blt 1 2 8]"
    and cov: "list_all (\<lambda>r. covered (tr_instruction r) (tr_pc r) (tr_rs2_val r) \<and>
       uint (tr_pc r) + uint (zx (tr_insn_len r) :: u64) < 2 ^ 64) (tv_trace tv)"
    using adding_trace by (auto split: option.splits)
  have len: "length (tv_trace tv) = 4" using arg_cong [OF ins, of length] by simp
  have "\<not> privileged adding_vm" by (simp add: adding_vm_def vm_new_def)
  then have "\<forall>j<4. \<forall>alpha. evaluate_at_point_extended (table_row (export_columns tv) j :: int list) alpha = Some 0"
    using honest_trace_satisfies [OF _ run _ refl, where ?'a = int] cov len by (auto simp: list_all_length)
  then show ?thesis using run len by blast
qed

end
