(* ===== verification/Zkp_Rlp.thy ===== *)
theory Zkp_Rlp
  imports Zkp_Bytes
begin

text \<open>
  The RLP codec of \<^verbatim>\<open>crates/zkp/src/rlp.rs\<close>: the encoder of byte strings, lists and integers, and
  the recursive decoder with its end-of-input and canonicity checks. The results are the round trip
  from items to bytes and back, that the decoder accepts canonical encodings only, that a truncated
  encoding is always reported as such, and where the decoder can panic.
\<close>

section \<open>Items, errors and encoders\<close>

datatype rlp_item = Bytes "u8 list" | List "rlp_item list"

datatype rlp_error = UnexpectedEof | NonCanonical | LengthOverflow

text \<open>
  The leading zeros of the eight big-endian bytes are skipped; of a non-zero value there is always
  a non-zero byte, so the \<open>unwrap\<close> of \<open>position\<close> succeeds.
\<close>

definition minimal_be :: "u64 \<Rightarrow> u8 list" where
  "minimal_be n = (if n = 0 then [] else dropWhile (\<lambda>b. b = 0) (to_be_bytes n))"

definition rlp_encode_bytes :: "u8 list \<Rightarrow> u8 list" where
  "rlp_encode_bytes b =
     (if length b = 1 \<and> b ! 0 < 0x80 then [b ! 0]
      else if length b \<le> 55 then (0x80 + of_nat (length b)) # b
      else let len_be = minimal_be (of_nat (length b))
           in (0xB7 + of_nat (length len_be)) # len_be @ b)"

definition rlp_encode_list :: "u8 list list \<Rightarrow> u8 list" where
  "rlp_encode_list items =
     (let payload_len = sum_list (map length items);
          out = (if payload_len \<le> 55 then [0xC0 + of_nat payload_len]
                 else let len_be = minimal_be (of_nat payload_len)
                      in (0xF7 + of_nat (length len_be)) # len_be)
      in out @ concat items)"

definition rlp_encode_uint :: "u64 \<Rightarrow> u8 list" where
  "rlp_encode_uint n = rlp_encode_bytes (minimal_be n)"

text \<open>The argument of \<open>rlp_encode_u256\<close> is an array of 32 bytes.\<close>

definition rlp_encode_u256 :: "u8 list \<Rightarrow> u8 list" where
  "rlp_encode_u256 be_bytes = rlp_encode_bytes (dropWhile (\<lambda>b. b = 0) be_bytes)"

section \<open>Decoder\<close>

definition decode_be_length :: "u8 list \<Rightarrow> (rlp_error, nat) outcome" where
  "decode_be_length bytes =
     (if bytes = [] then Err NonCanonical
      else if bytes ! 0 = 0 then Err NonCanonical
      else if 8 < length bytes then Err LengthOverflow
      else Ok (unat (foldl (\<lambda>len b. push_bit 8 len OR ucast b) (0 :: u64) bytes)))"

text \<open>
  The two long forms share their header: the length-of-length check, the length, its canonicity
  and the end-of-input check, followed by the slice of the body. The sum \<open>header + len\<close> wraps.
\<close>

definition long_body :: "nat \<Rightarrow> u8 list \<Rightarrow> (rlp_error, u8 list \<times> nat) outcome" where
  "long_body len_of_len input =
     (if 1 + len_of_len > length input then Err UnexpectedEof
      else case slice 1 (1 + len_of_len) input of
        None \<Rightarrow> None
      | Some len_bytes \<Rightarrow>
          try_bind (decode_be_length len_bytes) (\<lambda>len.
            if len \<le> 55 then Err NonCanonical
            else let header = 1 + len_of_len in
              if usize_add header len > length input then Err UnexpectedEof
              else case slice header (usize_add header len) input of
                None \<Rightarrow> None
              | Some body \<Rightarrow> Ok (body, usize_add header len)))"

definition short_body :: "nat \<Rightarrow> u8 list \<Rightarrow> (rlp_error, u8 list \<times> nat) outcome" where
  "short_body len input =
     (if 1 + len > length input then Err UnexpectedEof
      else case slice 1 (1 + len) input of
        None \<Rightarrow> None
      | Some body \<Rightarrow> Ok (body, 1 + len))"

lemma long_body_OkD:
  assumes "long_body k input = Ok (body, n)"
  shows "length body < length input \<and> 0 < n \<and> n \<le> length input"
  using assms
  by (auto simp: long_body_def Let_def try_bind_eq_Ok split: if_splits option.splits dest!: slice_SomeD)

lemma short_body_OkD:
  assumes "short_body k input = Ok (body, n)"
  shows "length body < length input \<and> n = 1 + k \<and> n \<le> length input \<and> body = take k (drop 1 input)"
  using assms by (auto simp: short_body_def split: if_splits option.splits dest!: slice_SomeD)

text \<open>
  The loop of \<open>decode_list_payload\<close> as recursion: an item is decoded, pushed, and the rest of the
  payload is decoded after it. A step that consumed nothing would loop forever, and one that
  consumed too much would panic in the slice; both are \<open>None\<close>.
\<close>

function (sequential) rlp_decode :: "u8 list \<Rightarrow> (rlp_error, rlp_item \<times> nat) outcome"
  and decode_list_payload :: "u8 list \<Rightarrow> (rlp_error, rlp_item list) outcome" where
  "rlp_decode [] = Err UnexpectedEof"
| "rlp_decode (tag # tail) =
     (if tag \<le> 0x7F then Ok (Bytes [tag], 1)
      else if tag \<le> 0xB7 then
        try_bind (short_body (unat (tag - 0x80)) (tag # tail)) (\<lambda>(body, n).
          if unat (tag - 0x80) = 1 \<and> body ! 0 < 0x80 then Err NonCanonical
          else Ok (Bytes body, n))
      else if tag \<le> 0xBF then
        try_bind (long_body (unat (tag - 0xB7)) (tag # tail)) (\<lambda>(body, n). Ok (Bytes body, n))
      else if tag \<le> 0xF7 then
        try_bind (short_body (unat (tag - 0xC0)) (tag # tail)) (\<lambda>(body, n).
          try_bind (decode_list_payload body) (\<lambda>items. Ok (List items, n)))
      else
        try_bind (long_body (unat (tag - 0xF7)) (tag # tail)) (\<lambda>(body, n).
          try_bind (decode_list_payload body) (\<lambda>items. Ok (List items, n))))"
| "decode_list_payload [] = Ok []"
| "decode_list_payload (b # bs) =
     try_bind (rlp_decode (b # bs)) (\<lambda>(item, consumed).
       if consumed = 0 \<or> length (b # bs) < consumed then None
       else try_bind (decode_list_payload (drop consumed (b # bs))) (\<lambda>items. Ok (item # items)))"
  by pat_completeness auto

termination
  by (relation "measure (case_sum (\<lambda>x. 2 * length x) (\<lambda>x. 2 * length x + 1))")
    (auto dest!: short_body_OkD long_body_OkD)

declare rlp_decode.simps(2) [simp del] decode_list_payload.simps(2) [simp del]

section \<open>Item encoder\<close>

text \<open>
  The encoding of an item: the composition of \<open>rlp_encode_bytes\<close> and \<open>rlp_encode_list\<close> that the
  callers of the codec write out for each object.
\<close>

fun rlp_of_item :: "rlp_item \<Rightarrow> u8 list" where
  "rlp_of_item (Bytes b) = rlp_encode_bytes b"
| "rlp_of_item (List items) = rlp_encode_list (map rlp_of_item items)"

section \<open>Length prefixes\<close>

lemma minimal_be_props:
  shows be_nat_minimal_be [simp]: "be_nat (minimal_be n) = unat n"
    and length_minimal_be: "length (minimal_be n) \<le> 8"
    and hd_minimal_be: "n \<noteq> 0 \<Longrightarrow> minimal_be n \<noteq> [] \<and> hd (minimal_be n) \<noteq> 0"
proof -
  show be: "be_nat (minimal_be n) = unat n" by (simp add: minimal_be_def)
  show "length (minimal_be n) \<le> 8"
    using length_dropWhile_le [of "\<lambda>b. b = 0" "to_be_bytes n"] by (simp add: minimal_be_def)
  assume n: "n \<noteq> 0"
  with be have "minimal_be n \<noteq> []" by (auto simp: unat_eq_zero)
  then show "minimal_be n \<noteq> [] \<and> hd (minimal_be n) \<noteq> 0"
    using hd_dropWhile [of "\<lambda>b. b = 0" "to_be_bytes n"] by (auto simp: minimal_be_def n)
qed

lemma minimal_be_unique:
  assumes "bs = [] \<or> hd bs \<noteq> 0" and "be_nat bs < 2 ^ 64"
  shows "minimal_be (of_nat (be_nat bs)) = bs"
proof -
  have "be_nat (minimal_be (of_nat (be_nat bs))) = be_nat bs" using assms(2) by (simp add: unat_of_nat)
  moreover have "minimal_be (of_nat (be_nat bs)) = [] \<or> hd (minimal_be (of_nat (be_nat bs))) \<noteq> 0"
    using hd_minimal_be [of "of_nat (be_nat bs)"] by (cases "(of_nat (be_nat bs) :: u64) = 0") (simp_all add: minimal_be_def)
  ultimately show ?thesis using assms(1) by (intro be_nat_minimal_inj) simp_all
qed

lemma decode_be_length_eq:
  "decode_be_length bs =
     (if bs = [] \<or> hd bs = 0 then Err NonCanonical else if 8 < length bs then Err LengthOverflow
      else Ok (be_nat bs))"
proof -
  have "foldl (\<lambda>len b. push_bit 8 len OR ucast b) 0 bs = (from_le_bytes (rev bs) :: u64)"
    by (induction bs rule: rev_induct) (simp_all add: or.commute)
  then show ?thesis
    using unat_from_le_bytes [of "rev bs"] by (simp add: decode_be_length_def hd_conv_nth)
qed

lemma decode_be_length_minimal:
  assumes "0 < n" and "n < 2 ^ 64"
  shows "decode_be_length (minimal_be (of_nat n)) = Ok n"
proof -
  have "unat (of_nat n :: u64) = n" using assms by (simp add: unat_of_nat)
  moreover from this assms have "(of_nat n :: u64) \<noteq> 0" by (metis less_irrefl unsigned_0)
  ultimately show ?thesis
    using hd_minimal_be [of "of_nat n"] length_minimal_be [of "of_nat n"] by (simp add: decode_be_length_eq)
qed

lemma short_body_append: "short_body (length body) (t # body @ rest) = Ok (body, 1 + length body)"
  by (simp add: short_body_def slice_def)

lemma long_body_append:
  assumes "decode_be_length len_be = Ok (length body)" and "55 < length body"
    and "1 + length len_be + length body < 2 ^ 64"
  shows "long_body (length len_be) (t # len_be @ body @ rest) = Ok (body, 1 + length len_be + length body)"
  using assms by (simp add: long_body_def slice_def usize_add_def)

text \<open>The tag byte: base plus length never leaves its range of tags.\<close>

lemma unat_tag: "unat c + n < 256 \<Longrightarrow> unat (c + of_nat n :: u8) = unat c + n"
  by (rule unat_add_no_wrap) simp

lemma tag_sub: "n < 256 \<Longrightarrow> unat (of_nat n :: u8) = n"
  by (simp add: unat_of_nat)

lemmas tag_simps = word_le_nat_alt word_less_nat_alt unat_tag tag_sub

lemma rlp_decode_encode_bytes:
  assumes "length (rlp_encode_bytes b) < 2 ^ 64"
  shows "rlp_decode (rlp_encode_bytes b @ rest) = Ok (Bytes b, length (rlp_encode_bytes b))"
proof -
  consider (single) "length b = 1 \<and> b ! 0 < 0x80" | (short) "\<not> (length b = 1 \<and> b ! 0 < 0x80)" "length b \<le> 55"
    | (long) "55 < length b" by linarith
  then show ?thesis
  proof cases
    case single
    then obtain x where "b = [x]" by (cases b) auto
    with single show ?thesis
      by (simp add: rlp_encode_bytes_def rlp_decode.simps(2) word_le_nat_alt word_less_nat_alt)
  next
    case short
    then have "rlp_encode_bytes b @ rest = (0x80 + of_nat (length b)) # b @ rest"
      by (auto simp: rlp_encode_bytes_def)
    then show ?thesis
      using short by (auto simp: rlp_decode.simps(2) tag_simps short_body_append rlp_encode_bytes_def)
  next
    case long
    define len_be where "len_be = minimal_be (of_nat (length b))"
    have enc: "rlp_encode_bytes b = (0xB7 + of_nat (length len_be)) # len_be @ b"
      using long by (simp add: rlp_encode_bytes_def len_be_def Let_def)
    have k: "length len_be \<le> 8" and d: "decode_be_length len_be = Ok (length b)"
      using length_minimal_be long assms enc
      by (auto simp: len_be_def intro!: decode_be_length_minimal)
    have k0: "0 < length len_be" using d by (auto simp: decode_be_length_eq split: if_splits)
    show ?thesis
      using k k0 long assms long_body_append [OF d long]
      by (simp add: enc rlp_decode.simps(2) tag_simps)
  qed
qed

lemma rlp_decode_encode_list:
  assumes "length (rlp_encode_list encs) < 2 ^ 64"
  shows "rlp_decode (rlp_encode_list encs @ rest) =
     try_bind (decode_list_payload (concat encs)) (\<lambda>items. Ok (List items, length (rlp_encode_list encs)))"
proof (cases "length (concat encs) \<le> 55")
  case True
  then have enc: "rlp_encode_list encs = (0xC0 + of_nat (length (concat encs))) # concat encs"
    by (simp add: rlp_encode_list_def length_concat)
  then show ?thesis
    using True by (simp add: rlp_decode.simps(2) tag_simps short_body_append)
next
  case False
  define len_be where "len_be = minimal_be (of_nat (length (concat encs)))"
  have enc: "rlp_encode_list encs = (0xF7 + of_nat (length len_be)) # len_be @ concat encs"
    using False by (simp add: rlp_encode_list_def len_be_def Let_def length_concat)
  have k: "length len_be \<le> 8" and d: "decode_be_length len_be = Ok (length (concat encs))"
    using length_minimal_be False assms enc
    by (auto simp: len_be_def intro!: decode_be_length_minimal)
  have k0: "0 < length len_be" using d by (auto simp: decode_be_length_eq split: if_splits)
  show ?thesis
    using k k0 False assms long_body_append [OF d]
    by (simp add: enc rlp_decode.simps(2) tag_simps)
qed

section \<open>Round trip\<close>

lemma decode_list_payload_append:
  assumes "rlp_decode (xs @ rest) = Ok (item, length xs)" and "xs \<noteq> []"
  shows "decode_list_payload (xs @ rest) = try_bind (decode_list_payload rest) (\<lambda>items. Ok (item # items))"
proof -
  obtain b bs where bs: "xs @ rest = b # bs" using assms(2) by (cases xs) auto
  have "drop (length xs) (b # bs) = rest" "length xs \<le> length (b # bs)" unfolding bs [symmetric] by simp_all
  then show ?thesis
    using assms by (simp add: bs decode_list_payload.simps(2))
qed

lemma rlp_encode_nonempty [simp]: "rlp_encode_bytes b \<noteq> []" "rlp_encode_list encs \<noteq> []"
  by (auto simp: rlp_encode_bytes_def rlp_encode_list_def Let_def)

lemma rlp_of_item_nonempty [simp]: "rlp_of_item x \<noteq> []"
  by (cases x) simp_all

lemma length_payload_le: "length (concat encs) \<le> length (rlp_encode_list encs)"
  by (simp add: rlp_encode_list_def Let_def)

lemma rlp_item_roundtrip:
  "length (rlp_of_item x) < 2 ^ 64 \<Longrightarrow>
     rlp_decode (rlp_of_item x @ rest) = Ok (x, length (rlp_of_item x))"
proof (induction x arbitrary: rest)
  case (Bytes b)
  then show ?case using rlp_decode_encode_bytes by simp
next
  case (List items)
  have "length (concat (map rlp_of_item items)) < 2 ^ 64"
    using List.prems length_payload_le [of "map rlp_of_item items"] by simp
  with List.IH have "decode_list_payload (concat (map rlp_of_item items)) = Ok items"
  proof (induction items)
    case (Cons x xs)
    have x: "rlp_decode (rlp_of_item x @ concat (map rlp_of_item xs)) = Ok (x, length (rlp_of_item x))"
      using Cons.prems by simp
    show ?case using Cons by (simp add: decode_list_payload_append [OF x])
  qed simp
  then show ?case
    using List.prems by (simp add: rlp_decode_encode_list)
qed

text \<open>
  C26. Decoding the encoding of an item, whatever follows it, gives the item back and consumes
  exactly its encoding; in particular the encodings of byte strings, of \<open>u64\<close> values and of 32-byte
  integers decode to byte strings with the same contents and value.
\<close>

theorem rlp_roundtrip:
  assumes "length (rlp_of_item x) < 2 ^ 64" and "length be = 32"
  shows "rlp_decode (rlp_of_item x @ rest) = Ok (x, length (rlp_of_item x)) \<and>
    (\<exists>bs. rlp_decode (rlp_encode_uint n @ rest) = Ok (Bytes bs, length (rlp_encode_uint n)) \<and> be_nat bs = unat n) \<and>
    (\<exists>bs. rlp_decode (rlp_encode_u256 be @ rest) = Ok (Bytes bs, length (rlp_encode_u256 be)) \<and> be_nat bs = be_nat be)"
proof (intro conjI)
  show "rlp_decode (rlp_of_item x @ rest) = Ok (x, length (rlp_of_item x))"
    using assms(1) by (rule rlp_item_roundtrip)
  have short: "length (rlp_encode_bytes b) < 2 ^ 64" if "length b \<le> 32" for b :: "u8 list"
    using that by (simp add: rlp_encode_bytes_def)
  show "\<exists>bs. rlp_decode (rlp_encode_uint n @ rest) = Ok (Bytes bs, length (rlp_encode_uint n)) \<and> be_nat bs = unat n"
    unfolding rlp_encode_uint_def
    by (rule exI [of _ "minimal_be n"])
      (use length_minimal_be [of n] in \<open>simp add: rlp_decode_encode_bytes [OF short]\<close>)
  show "\<exists>bs. rlp_decode (rlp_encode_u256 be @ rest) = Ok (Bytes bs, length (rlp_encode_u256 be)) \<and> be_nat bs = be_nat be"
    unfolding rlp_encode_u256_def
    by (rule exI [of _ "dropWhile (\<lambda>b. b = 0) be"])
      (use assms(2) length_dropWhile_le [of "\<lambda>b. b = 0" be] in \<open>simp add: rlp_decode_encode_bytes [OF short]\<close>)
qed

theorem rlp_roundtrip_witness:
  "rlp_decode (rlp_of_item (List [Bytes [0x64, 0x6F, 0x67], List [], Bytes [5]]) @ [1]) =
     Ok (List [Bytes [0x64, 0x6F, 0x67], List [], Bytes [5]], 7)"
  using rlp_roundtrip [of "List [Bytes [0x64, 0x6F, 0x67], List [], Bytes [5]]" "replicate 32 0" "[1]"]
  by (simp add: rlp_encode_list_def rlp_encode_bytes_def)

section \<open>Canonicity\<close>

lemma short_body_OkE:
  assumes "short_body k (t # bs) = Ok (body, n)"
  obtains rest where "bs = body @ rest" and "length body = k" and "n = 1 + k"
  using short_body_OkD [OF assms] that [of "drop k bs"] by (simp add: append_take_drop_id min_def)

lemma be_nat_less_2_64: "length bs \<le> 8 \<Longrightarrow> be_nat bs < 2 ^ 64"
  using be_nat_less [of bs] power_increasing [of "length bs" 8 "256 :: nat"] by simp

lemma slice_no_wrap:
  assumes "slice a (usize_add a l) xs = Some ys" and "a < 2 ^ 64" and "l < 2 ^ 64"
  shows "usize_add a l = a + l"
proof (rule ccontr)
  assume "usize_add a l \<noteq> a + l"
  then have "2 ^ 64 \<le> a + l" by (metis usize_add_exact not_le)
  moreover have "a \<le> usize_add a l" using slice_SomeD [OF assms(1)] by simp
  ultimately show False
    using assms(2,3) by (simp add: usize_add_def mod_if [of "a + l"] split: if_splits)
qed

lemma long_body_OkE:
  assumes "long_body k (t # bs) = Ok (body, n)"
  obtains len_be rest where "bs = len_be @ body @ rest" and "length len_be = k" and "k \<le> 8"
    and "55 < length body" and "len_be = minimal_be (of_nat (length body))"
    and "n = 1 + k + length body"
proof -
  define lb where "lb = take k bs"
  from assms obtain len where k: "k \<le> length bs" and d: "decode_be_length lb = Ok len" and l: "55 < len"
    and s: "slice (1 + k) (usize_add (1 + k) len) (t # bs) = Some body" and n: "n = usize_add (1 + k) len"
    by (auto simp: long_body_def Let_def try_bind_eq_Ok slice_def lb_def split: if_splits)
  from k have lk: "length lb = k" by (simp add: lb_def)
  from d have len: "len = be_nat lb" and lb: "lb \<noteq> []" "hd lb \<noteq> 0" "length lb \<le> 8"
    by (auto simp: decode_be_length_eq split: if_splits)
  have lt: "be_nat lb < 2 ^ 64" using lb by (intro be_nat_less_2_64) simp
  have u: "usize_add (1 + k) len = 1 + k + len"
    using s lb lk lt len by (intro slice_no_wrap [OF s]) simp_all
  from slice_SomeD [OF s, unfolded u] have body: "length body = len" "body = take len (drop k bs)"
    by auto
  show ?thesis
  proof (rule that [of lb "drop (k + len) bs"])
    show "bs = lb @ body @ drop (k + len) bs"
      by (metis lb_def body(2) append_take_drop_id drop_drop add.commute)
    show "lb = minimal_be (of_nat (length body))"
      using minimal_be_unique [of lb] lb lt body len by simp
  qed (use lk lb l body n u in simp_all)
qed

lemma tag_of_sub: "c \<le> tag \<Longrightarrow> unat (tag - c :: u8) = k \<Longrightarrow> tag = c + of_nat k"
  using word_of_nat_eq_iff [of "unat (tag - c)" k] by auto

lemma rlp_encode_bytes_short:
  "unat (tag - 0x80 :: u8) = length b \<Longrightarrow> 0x7F < tag \<Longrightarrow> tag \<le> 0xB7 \<Longrightarrow> \<not> (length b = 1 \<and> b ! 0 < 0x80) \<Longrightarrow>
     rlp_encode_bytes b = tag # b"
  using tag_of_sub [of "0x80" tag "length b"]
  by (auto simp: rlp_encode_bytes_def word_le_nat_alt word_less_nat_alt unat_sub_if_size word_size)


lemma rlp_encode_bytes_long:
  "length (minimal_be (of_nat (length b))) = unat (tag - 0xB7 :: u8) \<Longrightarrow> 0xB7 < tag \<Longrightarrow> 55 < length b \<Longrightarrow>
     rlp_encode_bytes b = tag # minimal_be (of_nat (length b)) @ b"
  using tag_of_sub [of "0xB7" tag "unat (tag - 0xB7)"] by (simp add: rlp_encode_bytes_def)

lemma rlp_encode_list_short:
  "unat (tag - 0xC0 :: u8) = length (concat encs) \<Longrightarrow> 0xBF < tag \<Longrightarrow> tag \<le> 0xF7 \<Longrightarrow>
     rlp_encode_list encs = tag # concat encs"
  using tag_of_sub [of "0xC0" tag "length (concat encs)"]
  by (auto simp: rlp_encode_list_def Let_def length_concat word_le_nat_alt word_less_nat_alt unat_sub_if_size word_size)

lemma rlp_encode_list_long:
  "length (minimal_be (of_nat (length (concat encs)))) = unat (tag - 0xF7 :: u8) \<Longrightarrow> 0xF7 < tag \<Longrightarrow>
     55 < length (concat encs) \<Longrightarrow>
     rlp_encode_list encs = tag # minimal_be (of_nat (length (concat encs))) @ concat encs"
  using tag_of_sub [of "0xF7" tag "unat (tag - 0xF7)"] by (simp add: rlp_encode_list_def length_concat)

text \<open>An accepted input starts with the encoding of the item returned.\<close>

lemma rlp_decode_prefix:
  "rlp_decode input = Ok (x, n) \<Longrightarrow> \<exists>rest. input = rlp_of_item x @ rest \<and> n = length (rlp_of_item x)"
  "decode_list_payload p = Ok items \<Longrightarrow> p = concat (map rlp_of_item items)"
proof (induction input and p arbitrary: x n and items rule: rlp_decode_decode_list_payload.induct)
  case (2 tag bs)
  consider (single) "tag \<le> 0x7F" | (short) "0x7F < tag" "tag \<le> 0xB7" | (long) "0xB7 < tag" "tag \<le> 0xBF"
    | (slist) "0xBF < tag" "tag \<le> 0xF7" | (llist) "0xF7 < tag" by fastforce
  then show ?case
  proof cases
    case single
    with 2 show ?thesis
      by (auto simp: rlp_decode.simps(2) rlp_encode_bytes_def word_le_nat_alt word_less_nat_alt)
  next
    case short
    then have t: "\<not> tag \<le> 0x7F" by (simp_all add: word_le_nat_alt word_less_nat_alt)
    with short 2(3) obtain body where "short_body (unat (tag - 0x80)) (tag # bs) = Ok (body, n)"
      and "x = Bytes body" and "\<not> (unat (tag - 0x80) = 1 \<and> body ! 0 < 0x80)"
      by (auto simp: rlp_decode.simps(2) try_bind_eq_Ok split: if_splits)
    with short show ?thesis
      by (auto simp: rlp_encode_bytes_short elim!: short_body_OkE)
  next
    case long
    then have t: "\<not> tag \<le> 0x7F" "\<not> tag \<le> 0xB7" by (simp_all add: word_le_nat_alt word_less_nat_alt)
    with long 2(3) obtain body where "long_body (unat (tag - 0xB7)) (tag # bs) = Ok (body, n)" and "x = Bytes body"
      by (auto simp: rlp_decode.simps(2) try_bind_eq_Ok split: if_splits)
    with long show ?thesis
      by (auto simp: rlp_encode_bytes_long elim!: long_body_OkE)
  next
    case slist
    then have t: "\<not> tag \<le> 0x7F" "\<not> tag \<le> 0xB7" "\<not> tag \<le> 0xBF" by (simp_all add: word_le_nat_alt word_less_nat_alt)
    with slist 2(3) obtain body items where b: "short_body (unat (tag - 0xC0)) (tag # bs) = Ok (body, n)"
      and d: "decode_list_payload body = Ok items" and x: "x = List items"
      by (auto simp: rlp_decode.simps(2) try_bind_eq_Ok)
    from 2(1) [OF t slist(2) b] d have "body = concat (map rlp_of_item items)" by blast
    with slist b x show ?thesis
      by (auto simp: rlp_encode_list_short elim!: short_body_OkE)
  next
    case llist
    then have t: "\<not> tag \<le> 0x7F" "\<not> tag \<le> 0xB7" "\<not> tag \<le> 0xBF" "\<not> tag \<le> 0xF7" by (simp_all add: word_le_nat_alt word_less_nat_alt)
    with llist 2(3) obtain body items where b: "long_body (unat (tag - 0xF7)) (tag # bs) = Ok (body, n)"
      and d: "decode_list_payload body = Ok items" and x: "x = List items"
      by (auto simp: rlp_decode.simps(2) try_bind_eq_Ok)
    from 2(2) [OF t b] d have "body = concat (map rlp_of_item items)" by blast
    with llist b x show ?thesis
      by (auto simp: rlp_encode_list_long elim!: long_body_OkE)
  qed
next
  case (4 b bs)
  then obtain item consumed rest' where r: "rlp_decode (b # bs) = Ok (item, consumed)"
    and c: "\<not> (consumed = 0 \<or> length (b # bs) < consumed)"
    and d: "decode_list_payload (drop consumed (b # bs)) = Ok rest'" and i: "items = item # rest'"
    by (auto simp: decode_list_payload.simps(2) try_bind_eq_Ok split: if_splits)
  from 4(1) [OF r] obtain rest where "b # bs = rlp_of_item item @ rest" "consumed = length (rlp_of_item item)"
    by blast
  moreover from 4(2) [OF r refl c d] have "drop consumed (b # bs) = concat (map rlp_of_item rest')" .
  ultimately show ?case by (simp add: i)
qed simp_all

text \<open>
  C27. The decoder accepts canonical encodings only: a successful decode returns an item whose
  encoding is exactly the bytes consumed, so no two different byte strings decode to the same item.
\<close>

theorem rlp_decode_canonical:
  assumes "rlp_decode input = Ok (x, n)"
  shows "0 < n \<and> n \<le> length input \<and> take n input = rlp_of_item x"
  using rlp_decode_prefix(1) [OF assms] by auto

theorem rlp_decode_canonical_witness:
  "take 5 [0xC4, 0x82, 0x80, 0x01, 0x07, 0xFF] = rlp_of_item (List [Bytes [0x80, 0x01], Bytes [0x07]])"
  using rlp_decode_canonical [of "[0xC4, 0x82, 0x80, 0x01, 0x07, 0xFF]" "List [Bytes [0x80, 0x01], Bytes [0x07]]" 5]
  by (simp add: rlp_decode.simps(2) decode_list_payload.simps(2) short_body_def slice_def)


section \<open>Truncated input\<close>

lemma long_body_truncated:
  assumes "decode_be_length len_be = Ok (length body)" and "55 < length body"
    and "1 + length len_be + length body < 2 ^ 64" and "k < length len_be + length body"
  shows "long_body (length len_be) (t # take k (len_be @ body)) = Err UnexpectedEof"
proof (cases "k < length len_be")
  case True
  then show ?thesis by (simp add: long_body_def)
next
  case False
  with assms show ?thesis
    by (auto simp: long_body_def slice_def usize_add_def Let_def)
qed

lemma rlp_decode_truncated_short:
  assumes "j < length body" and "length body \<le> 55"
  shows "rlp_decode ((0x80 + of_nat (length body)) # take j body) = Err UnexpectedEof"
    and "rlp_decode ((0xC0 + of_nat (length body)) # take j body) = Err UnexpectedEof"
  using assms by (simp_all add: rlp_decode.simps(2) tag_simps short_body_def)

lemma rlp_decode_truncated_long:
  assumes "j < length len_be + length body" and len_be: "len_be = minimal_be (of_nat (length body))"
    and "55 < length body" and "1 + length len_be + length body < 2 ^ 64"
  shows "rlp_decode ((0xB7 + of_nat (length len_be)) # take j (len_be @ body)) = Err UnexpectedEof"
    and "rlp_decode ((0xF7 + of_nat (length len_be)) # take j (len_be @ body)) = Err UnexpectedEof"
proof -
  have d: "decode_be_length len_be = Ok (length body)"
    using assms unfolding len_be by (intro decode_be_length_minimal) auto
  have "0 < length len_be" using d by (auto simp: decode_be_length_eq split: if_splits)
  moreover have "length len_be \<le> 8" using length_minimal_be by (simp add: len_be)
  ultimately show
    "rlp_decode ((0xB7 + of_nat (length len_be)) # take j (len_be @ body)) = Err UnexpectedEof"
    "rlp_decode ((0xF7 + of_nat (length len_be)) # take j (len_be @ body)) = Err UnexpectedEof"
    using long_body_truncated [OF d assms(3,4,1)] by (simp_all add: rlp_decode.simps(2) tag_simps)
qed

lemma rlp_encode_bytes_cases:
  obtains (single) c where "b = [c]" "rlp_encode_bytes b = [c]"
  | (short) "length b \<le> 55" "rlp_encode_bytes b = (0x80 + of_nat (length b)) # b"
  | (long) "55 < length b"
      "rlp_encode_bytes b = (0xB7 + of_nat (length (minimal_be (of_nat (length b))))) # minimal_be (of_nat (length b)) @ b"
proof (cases "length b = 1 \<and> b ! 0 < 0x80")
  case True
  then show ?thesis using single [of "b ! 0"] by (cases b) (auto simp: rlp_encode_bytes_def)
next
  case False
  then show ?thesis using short long unfolding rlp_encode_bytes_def by (metis not_le)
qed

lemma rlp_encode_list_cases:
  obtains (short) "length (concat encs) \<le> 55" "rlp_encode_list encs = (0xC0 + of_nat (length (concat encs))) # concat encs"
  | (long) "55 < length (concat encs)"
      "rlp_encode_list encs = (0xF7 + of_nat (length (minimal_be (of_nat (length (concat encs))))))
         # minimal_be (of_nat (length (concat encs))) @ concat encs"
  by (cases "length (concat encs) \<le> 55") (simp_all add: rlp_encode_list_def length_concat Let_def)

text \<open>
  Every proper prefix of an encoding is rejected as unexpected end of input, never accepted as a
  shorter item and never reported as another error.
\<close>

theorem rlp_decode_truncated:
  assumes "length (rlp_of_item x) < 2 ^ 64" and "k < length (rlp_of_item x)"
  shows "rlp_decode (take k (rlp_of_item x)) = Err UnexpectedEof"
proof (cases k)
  case (Suc j)
  show ?thesis
  proof (cases x)
    case (Bytes b)
    then show ?thesis
      using assms Suc
      by (cases b rule: rlp_encode_bytes_cases) (simp_all add: rlp_decode_truncated_short rlp_decode_truncated_long del: take_append)
  next
    case (List items)
    then show ?thesis
      using assms Suc
      by (cases "map rlp_of_item items" rule: rlp_encode_list_cases)
        (simp_all add: rlp_decode_truncated_short rlp_decode_truncated_long del: take_append)
  qed
qed simp

theorem rlp_decode_truncated_witness:
  "rlp_decode (take 3 (rlp_of_item (List [Bytes [0x64, 0x6F, 0x67]]))) = Err UnexpectedEof"
  using rlp_decode_truncated [of "List [Bytes [0x64, 0x6F, 0x67]]" 3]
  by (simp add: rlp_encode_list_def rlp_encode_bytes_def)

section \<open>Where the decoder panics\<close>

text \<open>An announced length that wraps when the header is added to it.\<close>

definition wrapping_header :: "u8 list \<Rightarrow> bool" where
  "wrapping_header bs \<longleftrightarrow> 9 \<le> length bs \<and> (bs ! 0 = 0xBF \<or> bs ! 0 = 0xFF) \<and>
     2 ^ 64 \<le> 9 + be_nat (take 8 (drop 1 bs))"

lemma long_body_NoneD:
  assumes "long_body k (t # bs) = None" and "t = 0xB7 + of_nat k \<or> t = 0xF7 + of_nat k"
  shows "wrapping_header (t # bs)"
proof -
  define lb where "lb = take k bs"
  from assms(1) obtain len where k: "k \<le> length bs" and d: "decode_be_length lb = Ok len"
    and s: "\<not> (1 + k \<le> usize_add (1 + k) len \<and> usize_add (1 + k) len \<le> length (t # bs))"
    and e: "usize_add (1 + k) len \<le> length (t # bs)"
    by (auto simp: long_body_def Let_def try_bind_eq_None slice_def lb_def decode_be_length_eq split: if_splits)
  from d have len: "len = be_nat lb" and lb: "lb \<noteq> []" "hd lb \<noteq> 0" "length lb \<le> 8"
    by (auto simp: decode_be_length_eq split: if_splits)
  from k have lk: "length lb = k" by (simp add: lb_def)
  have w: "2 ^ 64 \<le> 1 + k + be_nat lb"
    using s e len by (metis usize_add_exact not_le le_add1)
  have "k = 8"
  proof (rule ccontr)
    assume "k \<noteq> 8"
    with lb lk have "length lb \<le> 7" by simp
    then have "be_nat lb < 256 ^ 7"
      using be_nat_less [of lb] power_increasing [of "length lb" 7 "256 :: nat"] by simp
    with w lb lk show False by simp
  qed
  with assms(2) w k show ?thesis by (auto simp: wrapping_header_def lb_def)
qed

lemma wrapping_header_append: "wrapping_header bs \<Longrightarrow> wrapping_header (bs @ rest)"
  by (cases bs) (auto simp: wrapping_header_def nth_append)

definition has_wrapping_header :: "u8 list \<Rightarrow> bool" where
  "has_wrapping_header bs \<longleftrightarrow> list_ex (\<lambda>i. wrapping_header (drop i bs)) [0..<length bs]"

lemma has_wrapping_headerI: "wrapping_header bs \<Longrightarrow> has_wrapping_header (pre @ bs @ post)"
  by (auto simp: has_wrapping_header_def list_ex_iff wrapping_header_append wrapping_header_def [of "[]"]
      intro!: bexI [of _ "length pre"])

lemma has_wrapping_header_append: "has_wrapping_header bs \<Longrightarrow> has_wrapping_header (pre @ bs @ post)"
proof -
  assume "has_wrapping_header bs"
  then obtain i where "i < length bs" and w: "wrapping_header (drop i bs)"
    by (auto simp: has_wrapping_header_def list_ex_iff)
  have "pre @ bs @ post = (pre @ take i bs) @ drop i bs @ post" by simp
  with has_wrapping_headerI [OF w] show ?thesis by metis
qed

lemma rlp_decode_None:
  "rlp_decode input = None \<Longrightarrow> has_wrapping_header input"
  "decode_list_payload p = None \<Longrightarrow> has_wrapping_header p"
proof (induction input and p rule: rlp_decode_decode_list_payload.induct)
  case (2 tag bs)
  have short: "short_body k (tag # bs) = None \<longleftrightarrow> False" for k by (simp add: short_body_def slice_def)
  have long: "has_wrapping_header (tag # bs)" if "long_body k (tag # bs) = None" "tag = 0xB7 + of_nat k \<or> tag = 0xF7 + of_nat k" for k
    using has_wrapping_headerI [of "tag # bs" "[]" "[]"] long_body_NoneD [OF that] by simp
  consider (bytes) "tag \<le> 0xBF" | (slist) "0xBF < tag" "tag \<le> 0xF7" | (llist) "0xF7 < tag" by fastforce
  then show ?case
  proof cases
    case bytes
    with 2(3) long [of "unat (tag - 0xB7)"] show ?thesis
      by (auto simp: rlp_decode.simps(2) try_bind_eq_None short split: if_splits)
  next
    case slist
    then have t: "\<not> tag \<le> 0x7F" "\<not> tag \<le> 0xB7" "\<not> tag \<le> 0xBF" by (simp_all add: word_le_nat_alt word_less_nat_alt)
    with slist 2(3) obtain body n where b: "short_body (unat (tag - 0xC0)) (tag # bs) = Ok (body, n)"
      and d: "decode_list_payload body = None"
      by (auto simp: rlp_decode.simps(2) try_bind_eq_None short)
    from 2(1) [OF t slist(2) b refl d] b has_wrapping_header_append [of body "[tag]"] show ?thesis
      by (auto elim!: short_body_OkE)
  next
    case llist
    then have t: "\<not> tag \<le> 0x7F" "\<not> tag \<le> 0xB7" "\<not> tag \<le> 0xBF" "\<not> tag \<le> 0xF7" by (simp_all add: word_le_nat_alt word_less_nat_alt)
    show ?thesis
    proof (cases "long_body (unat (tag - 0xF7)) (tag # bs) = None")
      case True
      then show ?thesis by (rule long) simp
    next
      case False
      with t 2(3) obtain body n where b: "long_body (unat (tag - 0xF7)) (tag # bs) = Ok (body, n)"
        and d: "decode_list_payload body = None"
        by (auto simp: rlp_decode.simps(2) try_bind_eq_None)
      from b obtain len_be rest where "bs = len_be @ body @ rest" by (rule long_body_OkE)
      with 2(2) [OF t b refl d] has_wrapping_header_append [of body "tag # len_be"] show ?thesis by simp
    qed
  qed
next
  case (4 b bs)
  show ?case
  proof (cases "rlp_decode (b # bs) = None")
    case True
    then show ?thesis by (rule 4(1))
  next
    case False
    with 4(3) obtain item consumed where r: "rlp_decode (b # bs) = Ok (item, consumed)"
      and d: "(consumed = 0 \<or> length (b # bs) < consumed) \<or> decode_list_payload (drop consumed (b # bs)) = None"
      by (auto simp: decode_list_payload.simps(2) try_bind_eq_None split: if_splits)
    from rlp_decode_prefix(1) [OF r] obtain rest where e: "b # bs = rlp_of_item item @ rest"
      and n: "consumed = length (rlp_of_item item)" by blast
    have c: "\<not> (consumed = 0 \<or> length (b # bs) < consumed)" unfolding e n by simp
    with d have "decode_list_payload (drop consumed (b # bs)) = None" by blast
    from 4(2) [OF r refl c this] have "has_wrapping_header (drop consumed (b # bs))" .
    then have "has_wrapping_header (take consumed (b # bs) @ drop consumed (b # bs) @ [])"
      by (rule has_wrapping_header_append)
    then show ?thesis by simp
  qed
qed simp_all

text \<open>
  The decoder terminates on every input and panics only if some header in the input announces a
  length within nine bytes of \<open>2^64\<close>; such a header at the front of the input does make it panic: the
  sum \<^verbatim>\<open>header + len\<close> wraps, passes the end-of-input check, and the slice is out of order.
\<close>

theorem rlp_decode_panics:
  "(rlp_decode input = None \<longrightarrow> has_wrapping_header input) \<and>
   (wrapping_header input \<longrightarrow> rlp_decode input = None)"
proof (intro conjI impI)
  assume w: "wrapping_header input"
  then obtain t bs where i: "input = t # bs" by (cases input) (auto simp: wrapping_header_def)
  define lb where "lb = take 8 bs"
  from w have t: "t = 0xBF \<or> t = 0xFF" and l: "8 \<le> length bs" and b: "2 ^ 64 \<le> 9 + be_nat lb"
    by (auto simp: wrapping_header_def i lb_def)
  have len: "length lb = 8" using l by (simp add: lb_def)
  have lt: "be_nat lb < 2 ^ 64" using len by (intro be_nat_less_2_64) simp
  have "hd lb \<noteq> 0"
  proof
    assume "hd lb = 0"
    then have "be_nat lb = be_nat (List.tl lb)" using len by (cases lb) (simp_all add: be_nat_Cons)
    also have "\<dots> < 256 ^ 7" using be_nat_less [of "List.tl lb"] len by simp
    finally show False using b by simp
  qed
  then have "decode_be_length lb = Ok (be_nat lb)" using len by (auto simp: decode_be_length_eq)
  moreover have "usize_add 9 (be_nat lb) = 9 + be_nat lb - 2 ^ 64"
    using b lt by (simp add: usize_add_def mod_if [of "9 + be_nat lb"] mod_if [of "be_nat lb + 9"])
  ultimately have "long_body 8 (t # bs) = None"
    using b l lt by (simp add: long_body_def slice_def lb_def)
  then show "rlp_decode input = None"
    using t by (auto simp: i rlp_decode.simps(2))
qed (rule rlp_decode_None)

theorem rlp_decode_panics_witness: "rlp_decode [0xBF, 0xFF, 0xFF, 0xFF, 0xFF, 0xFF, 0xFF, 0xFF, 0xFF] = None"
  using rlp_decode_panics [of "[0xBF, 0xFF, 0xFF, 0xFF, 0xFF, 0xFF, 0xFF, 0xFF, 0xFF]"]
  by (simp add: wrapping_header_def be_nat_def)

end
