(* ===== verification/Zkp_Keccak.thy ===== *)
theory Zkp_Keccak
  imports Zkp_Bytes
begin

text \<open>
  Keccak-256 as \<^verbatim>\<open>crates/zkp/src/keccak.rs\<close> implements it: the five step mappings, the permutation
  Keccak-f[1600], the sponge, and the round and block traces that the arithmetisation is built from.
  The results are that the permutation is a bijection on states, that the sponge absorbs exactly
  the padded message, and that the traces replay the computation and end in the digest.

  A state is a list of five columns of five lanes, \<open>a ! x ! y\<close> for \<open>a[x][y]\<close>. Loops that write every
  lane once from a copy of the old state are written as tables (\<open>mk_state\<close>).
\<close>

section \<open>States\<close>

type_synonym keccak_state = "u64 list list"

definition mk_state :: "(nat \<Rightarrow> nat \<Rightarrow> u64) \<Rightarrow> keccak_state" where
  "mk_state f = map (\<lambda>x. map (f x) [0..<5]) [0..<5]"

definition wf_state :: "keccak_state \<Rightarrow> bool" where
  "wf_state a \<longleftrightarrow> length a = 5 \<and> list_all (\<lambda>c. length c = 5) a"

definition lane_xor :: "keccak_state \<Rightarrow> nat \<Rightarrow> nat \<Rightarrow> u64 \<Rightarrow> keccak_state" where
  "lane_xor a x y w = a[x := (a ! x)[y := a ! x ! y XOR w]]"

section \<open>Permutation\<close>

abbreviation NUM_KECCAK_ROUNDS :: nat where
  "NUM_KECCAK_ROUNDS \<equiv> 24"

definition keccak_round_constants :: "u64 list" where
  "keccak_round_constants =
     [0x0000000000000001, 0x0000000000008082, 0x800000000000808A, 0x8000000080008000,
      0x000000000000808B, 0x0000000080000001, 0x8000000080008081, 0x8000000000008009,
      0x000000000000008A, 0x0000000000000088, 0x0000000080008009, 0x000000008000000A,
      0x000000008000808B, 0x800000000000008B, 0x8000000000008089, 0x8000000000008003,
      0x8000000000008002, 0x8000000000000080, 0x000000000000800A, 0x800000008000000A,
      0x8000000080008081, 0x8000000000008080, 0x0000000080000001, 0x8000000080008008]"

definition RHO_OFFSETS :: "nat list list" where
  "RHO_OFFSETS =
     [[ 0, 36,  3, 41, 18],
      [ 1, 44, 10, 45,  2],
      [62,  6, 43, 15, 61],
      [28, 55, 25, 21, 56],
      [27, 20, 39,  8, 14]]"

definition rotl :: "u64 \<Rightarrow> nat \<Rightarrow> u64" where
  "rotl x n = (if n = 0 then x else word_rotl n x)"

definition theta_c :: "keccak_state \<Rightarrow> u64 list" where
  "theta_c a = map (\<lambda>x. a ! x ! 0 XOR a ! x ! 1 XOR a ! x ! 2 XOR a ! x ! 3 XOR a ! x ! 4) [0..<5]"

definition theta_d :: "u64 list \<Rightarrow> u64 list" where
  "theta_d c = map (\<lambda>x. c ! ((x + 4) mod 5) XOR rotl (c ! ((x + 1) mod 5)) 1) [0..<5]"

definition theta :: "keccak_state \<Rightarrow> keccak_state" where
  "theta a = (let d = theta_d (theta_c a) in mk_state (\<lambda>x y. a ! x ! y XOR d ! x))"

definition rho :: "keccak_state \<Rightarrow> keccak_state" where
  "rho a = mk_state (\<lambda>x y. rotl (a ! x ! y) (RHO_OFFSETS ! x ! y))"

definition pi_step :: "keccak_state \<Rightarrow> keccak_state" where
  "pi_step a = foldl (\<lambda>b (x, y). b[y := (b ! y)[(2 * x + 3 * y) mod 5 := a ! x ! y]])
     (replicate 5 (replicate 5 0)) (List.product [0..<5] [0..<5])"

definition chi :: "keccak_state \<Rightarrow> keccak_state" where
  "chi a = mk_state (\<lambda>x y. a ! x ! y XOR (NOT (a ! ((x + 1) mod 5) ! y) AND a ! ((x + 2) mod 5) ! y))"

definition iota :: "keccak_state \<Rightarrow> nat \<Rightarrow> keccak_state" where
  "iota a r = lane_xor a 0 0 (keccak_round_constants ! r)"

definition keccak_round :: "keccak_state \<Rightarrow> nat \<Rightarrow> keccak_state" where
  "keccak_round a r = iota (chi (pi_step (rho (theta a)))) r"

definition keccak_f1600 :: "keccak_state \<Rightarrow> keccak_state" where
  "keccak_f1600 a = foldl keccak_round a [0..<NUM_KECCAK_ROUNDS]"

section \<open>Sponge\<close>

abbreviation RATE_BYTES :: nat where
  "RATE_BYTES \<equiv> 136"

definition zero_state :: keccak_state where
  "zero_state = replicate 5 (replicate 5 0)"

definition absorb_block :: "keccak_state \<Rightarrow> u8 list \<Rightarrow> keccak_state" where
  "absorb_block a block =
     foldl (\<lambda>a i. lane_xor a (i mod 5) (i div 5) (from_le_bytes (take 8 (drop (i * 8) block)))) a [0..<17]"

text \<open>The loop over full blocks; it leaves the state and the bytes that remain.\<close>

function absorb_full :: "keccak_state \<Rightarrow> u8 list \<Rightarrow> keccak_state \<times> u8 list" where
  "absorb_full a input =
     (if RATE_BYTES \<le> length input
      then absorb_full (keccak_f1600 (absorb_block a (take RATE_BYTES input))) (drop RATE_BYTES input)
      else (a, input))"
  by pat_completeness auto
termination by (relation "measure (\<lambda>(a, input). length input)") auto

declare absorb_full.simps [simp del]

definition final_block :: "u8 list \<Rightarrow> u8 list" where
  "final_block remaining =
     (let block = remaining @ replicate (RATE_BYTES - length remaining) 0;
          block = block[length remaining := block ! length remaining XOR 0x01]
      in block[RATE_BYTES - 1 := block ! (RATE_BYTES - 1) XOR 0x80])"

definition squeeze :: "keccak_state \<Rightarrow> u8 list" where
  "squeeze a = concat (map (\<lambda>i. to_le_bytes 8 (a ! i ! 0)) [0..<4])"

definition keccak256 :: "u8 list \<Rightarrow> u8 list" where
  "keccak256 input =
     (case absorb_full zero_state input of (a, remaining) \<Rightarrow>
        squeeze (keccak_f1600 (absorb_block a (final_block remaining))))"

section \<open>Traces\<close>

record round_trace =
  rt_round :: nat
  rt_before :: keccak_state
  rt_c :: "u64 list"
  rt_d :: "u64 list"
  rt_after_theta :: keccak_state
  rt_after_rho :: keccak_state
  rt_after_pi :: keccak_state
  rt_after_chi :: keccak_state
  rt_after_iota :: keccak_state

definition round_trace_of :: "keccak_state \<Rightarrow> nat \<Rightarrow> round_trace" where
  "round_trace_of before r =
     (let c = theta_c before; d = theta_d c;
          after_theta = mk_state (\<lambda>x y. before ! x ! y XOR d ! x);
          after_rho = rho after_theta; after_pi = pi_step after_rho;
          after_chi = chi after_pi; after_iota = iota after_chi r
      in \<lparr>rt_round = r, rt_before = before, rt_c = c, rt_d = d, rt_after_theta = after_theta,
          rt_after_rho = after_rho, rt_after_pi = after_pi, rt_after_chi = after_chi,
          rt_after_iota = after_iota\<rparr>)"

fun round_traces :: "keccak_state \<Rightarrow> nat list \<Rightarrow> round_trace list" where
  "round_traces a [] = []"
| "round_traces a (r # rs) = (let t = round_trace_of a r in t # round_traces (rt_after_iota t) rs)"

definition keccak_f1600_witness :: "keccak_state \<Rightarrow> round_trace list" where
  "keccak_f1600_witness a = round_traces a [0..<NUM_KECCAK_ROUNDS]"

record block_trace =
  bt_block :: "u8 list"
  bt_state_in :: keccak_state
  bt_state_after_absorb :: keccak_state
  bt_state_out :: keccak_state
  bt_rounds :: "round_trace list"

record hash_trace =
  ht_input_len :: nat
  ht_blocks :: "block_trace list"
  ht_digest :: "u8 list"

definition absorb_and_permute :: "keccak_state \<Rightarrow> u8 list \<Rightarrow> block_trace" where
  "absorb_and_permute a block =
     (let state_after_absorb = absorb_block a block
      in \<lparr>bt_block = block, bt_state_in = a, bt_state_after_absorb = state_after_absorb,
          bt_state_out = keccak_f1600 state_after_absorb,
          bt_rounds = keccak_f1600_witness state_after_absorb\<rparr>)"

function witness_blocks :: "keccak_state \<Rightarrow> u8 list \<Rightarrow> block_trace list" where
  "witness_blocks a input =
     (if RATE_BYTES \<le> length input
      then let t = absorb_and_permute a (take RATE_BYTES input)
           in t # witness_blocks (bt_state_out t) (drop RATE_BYTES input)
      else [absorb_and_permute a (final_block input)])"
  by pat_completeness auto
termination by (relation "measure (\<lambda>(a, input). length input)") auto

declare witness_blocks.simps [simp del]

definition keccak_witness :: "u8 list \<Rightarrow> hash_trace" where
  "keccak_witness input =
     (let blocks = witness_blocks zero_state input
      in \<lparr>ht_input_len = length input, ht_blocks = blocks, ht_digest = squeeze (bt_state_out (last blocks))\<rparr>)"

section \<open>Lanes of the step mappings\<close>

lemma mk_state_nth [simp]: "x < 5 \<Longrightarrow> y < 5 \<Longrightarrow> mk_state f ! x ! y = f x y"
  by (simp add: mk_state_def)

lemma wf_mk_state [simp]: "wf_state (mk_state f)"
  by (simp add: mk_state_def wf_state_def list_all_iff)

lemma wf_stateD: "wf_state a \<Longrightarrow> length a = 5" "wf_state a \<Longrightarrow> x < 5 \<Longrightarrow> length (a ! x) = 5"
  by (auto simp: wf_state_def list_all_length)

lemma wf_state_eqI:
  assumes "wf_state a" and "wf_state b" and "\<And>x y. x < 5 \<Longrightarrow> y < 5 \<Longrightarrow> a ! x ! y = b ! x ! y"
  shows "a = b"
proof (rule nth_equalityI)
  show "length a = length b" using assms by (simp add: wf_stateD)
  fix x assume "x < length a"
  then show "a ! x = b ! x"
    using assms by (intro nth_equalityI) (simp_all add: wf_stateD)
qed

lemma wf_lane_xor [simp]: "wf_state a \<Longrightarrow> x < 5 \<Longrightarrow> wf_state (lane_xor a x y w)"
  by (auto simp: lane_xor_def wf_state_def list_all_length nth_list_update)

lemma lane_xor_nth:
  "wf_state a \<Longrightarrow> x < 5 \<Longrightarrow> y < 5 \<Longrightarrow> i < 5 \<Longrightarrow> j < 5 \<Longrightarrow>
     lane_xor a x y w ! i ! j = (if i = x \<and> j = y then a ! i ! j XOR w else a ! i ! j)"
  by (auto simp: lane_xor_def nth_list_update wf_stateD)

lemma upt_5: "[0..<5] = [0, 1, 2, 3, 4 :: nat]"
  by (simp add: upt_rec)

lemma less_5_cases: "(n :: nat) < 5 \<longleftrightarrow> n = 0 \<or> n = 1 \<or> n = 2 \<or> n = 3 \<or> n = 4"
  by auto

lemma all_less_5: "(\<forall>x<5. P x) \<longleftrightarrow> P 0 \<and> P 1 \<and> P 2 \<and> P 3 \<and> P (4 :: nat)"
  by (auto simp: less_5_cases)

text \<open>The write loop of \<open>pi\<close> reaches every lane once.\<close>

lemma replicate_5: "replicate 5 x = [x, x, x, x, x]"
  by (simp add: eval_nat_numeral)

lemma pi_step_table: "pi_step a = mk_state (\<lambda>x y. a ! ((x + 3 * y) mod 5) ! x)"
  by (simp add: pi_step_def mk_state_def upt_5 replicate_5)

lemma wf_steps [simp]: "wf_state (theta a)" "wf_state (rho a)" "wf_state (pi_step a)" "wf_state (chi a)"
  "wf_state a \<Longrightarrow> wf_state (iota a r)"
  by (simp_all add: theta_def rho_def pi_step_table chi_def iota_def Let_def)

lemma wf_keccak_round [simp]: "wf_state (keccak_round a r)"
  by (simp add: keccak_round_def)

section \<open>The permutation is a bijection\<close>

text \<open>\<open>iota\<close>, \<open>rho\<close> and \<open>pi\<close> only move or complement bits.\<close>

lemma xor_cancel_right [simp]: "x XOR w = y XOR w \<longleftrightarrow> x = y" for x y w :: "'a::len word"
  by (metis xor.assoc xor_self_eq xor.right_neutral)

lemma iota_inj:
  assumes "wf_state a" "wf_state b" "iota a r = iota b r"
  shows "a = b"
proof (rule wf_state_eqI [OF assms(1,2)])
  fix x y :: nat assume xy: "x < 5" "y < 5"
  have "iota a r ! x ! y = iota b r ! x ! y" using assms by simp
  then show "a ! x ! y = b ! x ! y"
    using assms xy by (auto simp: iota_def lane_xor_nth split: if_splits)
qed

lemma rotl_inj [simp]: "rotl x n = rotl y n \<longleftrightarrow> x = y"
  by (auto simp: rotl_def) (metis word_rot_lr)

lemma rho_inj:
  assumes "wf_state a" "wf_state b" "rho a = rho b"
  shows "a = b"
proof (rule wf_state_eqI [OF assms(1,2)])
  fix x y :: nat assume xy: "x < 5" "y < 5"
  have "rho a ! x ! y = rho b ! x ! y" using assms by simp
  then show "a ! x ! y = b ! x ! y" using xy by (simp add: rho_def)
qed

lemma pi_step_inj:
  assumes "wf_state a" "wf_state b" "pi_step a = pi_step b"
  shows "a = b"
proof (rule wf_state_eqI [OF assms(1,2)])
  fix x y :: nat assume xy: "x < 5" "y < 5"
  have "pi_step a ! y ! ((2 * x + 3 * y) mod 5) = pi_step b ! y ! ((2 * x + 3 * y) mod 5)"
    using assms by simp
  moreover have "(y + 3 * ((2 * x + 3 * y) mod 5)) mod 5 = x"
    using xy by (auto simp: less_5_cases)
  ultimately show "a ! x ! y = b ! x ! y" using xy by (simp add: pi_step_table)
qed

text \<open>\<open>chi\<close> acts on each row of five bits; on one row it is injective.\<close>

lemma chi_row_inj:
  fixes a0 a1 a2 a3 a4 b0 b1 b2 b3 b4 :: bool
  assumes "(a0 \<noteq> (\<not> a1 \<and> a2)) = (b0 \<noteq> (\<not> b1 \<and> b2))"
    and "(a1 \<noteq> (\<not> a2 \<and> a3)) = (b1 \<noteq> (\<not> b2 \<and> b3))"
    and "(a2 \<noteq> (\<not> a3 \<and> a4)) = (b2 \<noteq> (\<not> b3 \<and> b4))"
    and "(a3 \<noteq> (\<not> a4 \<and> a0)) = (b3 \<noteq> (\<not> b4 \<and> b0))"
    and "(a4 \<noteq> (\<not> a0 \<and> a1)) = (b4 \<noteq> (\<not> b0 \<and> b1))"
  shows "a0 = b0 \<and> a1 = b1 \<and> a2 = b2 \<and> a3 = b3 \<and> a4 = b4"
  using assms by (cases a0; cases a1; cases a2; cases a3; cases a4) auto


lemma chi_inj:
  assumes "wf_state a" "wf_state b" "chi a = chi b"
  shows "a = b"
proof (rule wf_state_eqI [OF assms(1,2)], rule bit_word_eqI)
  fix x y k :: nat assume xy: "x < 5" "y < 5" "k < LENGTH(64)"
  have "bit (chi a ! i ! y) k = bit (chi b ! i ! y) k" for i using assms by simp
  from this [of 0] this [of 1] this [of 2] this [of 3] this [of 4] xy
  have "(\<forall>x<5. bit (a ! x ! y) k = bit (b ! x ! y) k)"
    unfolding all_less_5 by (intro chi_row_inj) (simp_all add: chi_def bit_xor_iff bit_and_iff bit_not_iff flip: numeral_2_eq_2)
  with xy show "bit (a ! x ! y) k = bit (b ! x ! y) k" by simp
qed

text \<open>
  \<open>theta\<close> acts on the column parities as multiplication by \<open>1 + x^4 + x z\<close> in the group ring of
  \<open>x^5 = 1\<close>, \<open>z^64 = 1\<close> over the bits. Squaring six times removes \<open>z\<close>, and the cube of what is left is \<open>1\<close>,
  so the parities, and with them the state, can be recovered.
\<close>

definition parity_mul :: "nat \<Rightarrow> (nat \<Rightarrow> u64) \<Rightarrow> nat \<Rightarrow> u64" where
  "parity_mul s c x = c x XOR c ((x + 4 * s) mod 5) XOR word_rotl s (c ((x + s) mod 5))"

lemma word_rotl_add: "word_rotl m (word_rotl n w) = word_rotl (m + n) (w :: u64)"
proof -
  have "word_rotr (n + m) (word_rotl m (word_rotl n w)) = w"
    by (simp flip: word_rotr_word_rotr_eq)
  then show ?thesis by (metis add.commute word_rot_rl)
qed

lemma word_rotl_64: "word_rotl 64 w = (w :: u64)"
  by (rule bit_word_eqI) (simp add: bit_word_rotl_iff)

lemma parity_mul_cong: "(\<And>x. x < 5 \<Longrightarrow> c x = c' x) \<Longrightarrow> x < 5 \<Longrightarrow> parity_mul s c x = parity_mul s c' x"
  by (simp add: parity_mul_def)

lemma xor_cross: "(p XOR q XOR r) XOR (q XOR s XOR t) XOR (r XOR t XOR u) = p XOR s XOR u"
  for p q r s t u :: u64
  by (rule bit_word_eqI) (simp add: bit_xor_iff, blast)

lemma parity_mul_square:
  assumes "x < 5"
  shows "parity_mul s (parity_mul s c) x = parity_mul (2 * s) c x"
proof -
  have e: "((x + s) mod 5 + s) mod 5 = (x + 2 * s) mod 5" "((x + 4 * s) mod 5 + 4 * s) mod 5 = (x + 4 * (2 * s)) mod 5"
    "((x + 4 * s) mod 5 + s) mod 5 = x" "((x + s) mod 5 + 4 * s) mod 5 = x"
    using assms by (simp_all add: mod_add_left_eq [of _ 5] add.assoc mult_2)
  show ?thesis
    unfolding parity_mul_def e word_rot_logs word_rotl_add xor_cross mult_2 [symmetric] ..
qed

lemma parity_mul_64: "parity_mul 64 c x = c x XOR c ((x + 1) mod 5) XOR c ((x + 4) mod 5)"
proof -
  have "(x + 4 * 64) mod 5 = (x + 1) mod 5" "(x + 64) mod 5 = (x + 4) mod 5"
    using mod_add_right_eq [of x 256 5] mod_add_right_eq [of x 64 5] by simp_all
  then show ?thesis by (simp add: parity_mul_def word_rotl_64)
qed

lemma parity_mul_cube: "x < 5 \<Longrightarrow> parity_mul 64 (parity_mul 64 (parity_mul 64 c)) x = c x"
  by (auto simp: less_5_cases parity_mul_64 ac_simps simp flip: numeral_2_eq_2)

lemma parity_mul_inj:
  assumes "\<And>x. x < 5 \<Longrightarrow> parity_mul 1 c x = parity_mul 1 c' x" and "x < 5"
  shows "c x = c' x"
proof -
  have pow: "\<forall>x<5. parity_mul (2 ^ k) c x = parity_mul (2 ^ k) c' x" for k
  proof (induction k)
    case (Suc k)
    have "parity_mul (2 ^ k) (parity_mul (2 ^ k) c) x = parity_mul (2 ^ k) (parity_mul (2 ^ k) c') x" if "x < 5" for x
      by (rule parity_mul_cong) (use Suc that in simp_all)
    then show ?case by (simp add: parity_mul_square)
  qed (use assms(1) in simp)
  have "parity_mul 64 c y = parity_mul 64 c' y" if "y < 5" for y
    using pow [of 6] that by simp
  then have "parity_mul 64 (parity_mul 64 c) y = parity_mul 64 (parity_mul 64 c') y" if "y < 5" for y
    using that by (rule parity_mul_cong)
  then have "parity_mul 64 (parity_mul 64 (parity_mul 64 c)) x = parity_mul 64 (parity_mul 64 (parity_mul 64 c')) x"
    using assms(2) by (rule parity_mul_cong)
  with assms(2) show ?thesis by (simp add: parity_mul_cube)
qed

lemma xor_five: "(p XOR d) XOR (q XOR d) XOR (r XOR d) XOR (s XOR d) XOR (t XOR d) = (p XOR q XOR r XOR s XOR t) XOR d"
  for p q r s t d :: u64
  by (rule bit_word_eqI) (simp add: bit_xor_iff, blast)

lemma theta_parity:
  assumes "x < 5"
  shows "theta_c (theta a) ! x = parity_mul 1 ((!) (theta_c a)) x"
proof -
  have "theta_c (theta a) ! x = theta_c a ! x XOR theta_d (theta_c a) ! x"
    using assms by (simp add: theta_c_def theta_def Let_def xor_five)
  then show ?thesis
    using assms by (simp add: theta_d_def parity_mul_def rotl_def)
qed

lemma theta_inj:
  assumes "wf_state a" "wf_state b" "theta a = theta b"
  shows "a = b"
proof (rule wf_state_eqI [OF assms(1,2)])
  have "parity_mul 1 ((!) (theta_c a)) x = parity_mul 1 ((!) (theta_c b)) x" if "x < 5" for x
    using theta_parity [OF that, of a] theta_parity [OF that, of b] assms by simp
  from parity_mul_inj [OF this] have "theta_c a = theta_c b"
    by (intro nth_equalityI) (simp_all add: theta_c_def)
  moreover fix x y :: nat assume xy: "x < 5" "y < 5"
  moreover have "theta a ! x ! y = theta b ! x ! y" using assms by simp
  ultimately show "a ! x ! y = b ! x ! y" by (simp add: theta_def Let_def)
qed


lemma keccak_round_inj:
  assumes "wf_state a" "wf_state b" "keccak_round a r = keccak_round b r"
  shows "a = b"
proof -
  have "chi (pi_step (rho (theta a))) = chi (pi_step (rho (theta b)))"
    using assms(3) unfolding keccak_round_def by (rule iota_inj [rotated 2]) simp_all
  then have "pi_step (rho (theta a)) = pi_step (rho (theta b))" by (rule chi_inj [rotated 2]) simp_all
  then have "rho (theta a) = rho (theta b)" by (rule pi_step_inj [rotated 2]) simp_all
  then have "theta a = theta b" by (rule rho_inj [rotated 2]) simp_all
  with assms(1,2) show ?thesis by (rule theta_inj)
qed

lemma wf_rounds: "wf_state a \<Longrightarrow> wf_state (foldl keccak_round a rs)"
  by (induction rs arbitrary: a) simp_all

lemma rounds_inj: "wf_state a \<Longrightarrow> wf_state b \<Longrightarrow> foldl keccak_round a rs = foldl keccak_round b rs \<Longrightarrow> a = b"
proof (induction rs arbitrary: a b)
  case (Cons r rs)
  then have "keccak_round a r = keccak_round b r" by simp
  with Cons.prems(1,2) show ?case by (rule keccak_round_inj)
qed simp

lemma wf_keccak_f1600 [simp]: "wf_state a \<Longrightarrow> wf_state (keccak_f1600 a)"
  by (simp add: keccak_f1600_def wf_rounds)

lemma finite_wf_state: "finite {a. wf_state a}"
proof -
  have "{a. wf_state a} \<subseteq> {a. set a \<subseteq> {c. set c \<subseteq> UNIV \<and> length c = 5} \<and> length a = 5}"
    by (auto simp: wf_state_def list_all_iff)
  moreover have "finite {a :: keccak_state. set a \<subseteq> {c. set c \<subseteq> UNIV \<and> length c = 5} \<and> length a = 5}"
    by (intro finite_lists_length_eq) simp_all
  ultimately show ?thesis by (rule finite_subset)
qed

text \<open>
  Keccak-f[1600] is a permutation of the 1600-bit states: all 24 rounds of theta, rho, pi, chi
  and iota together map the well-formed states one to one onto themselves.
\<close>

theorem keccak_f1600_bijective: "bij_betw keccak_f1600 {a. wf_state a} {a. wf_state a}"
proof -
  have inj: "inj_on keccak_f1600 {a. wf_state a}"
    using rounds_inj by (auto simp: inj_on_def keccak_f1600_def)
  moreover have "keccak_f1600 ` {a. wf_state a} \<subseteq> {a. wf_state a}" by auto
  ultimately show ?thesis
    using endo_inj_surj [OF finite_wf_state] by (simp add: bij_betw_def)
qed

section \<open>The sponge absorbs the padded message\<close>

text \<open>The reference padding: \<^verbatim>\<open>0x01\<close>, zeros, and \<^verbatim>\<open>0x80\<close> in the last byte, merged when they coincide.\<close>

definition keccak_padding :: "nat \<Rightarrow> u8 list" where
  "keccak_padding len =
     (let k = RATE_BYTES - len mod RATE_BYTES
      in if k = 1 then [0x81] else [0x01] @ replicate (k - 2) 0 @ [0x80])"

definition sponge :: "u8 list list \<Rightarrow> keccak_state" where
  "sponge = foldl (\<lambda>a b. keccak_f1600 (absorb_block a b)) zero_state"

lemma final_block_eq:
  assumes "length rem < RATE_BYTES"
  shows "final_block rem = rem @ keccak_padding (length rem)"
proof -
  obtain k where k: "RATE_BYTES - length rem = Suc k" using assms by (metis Suc_diff_Suc)
  show ?thesis
  proof (cases k)
    case 0
    with k assms have "length rem = 135" by simp
    then show ?thesis using k by (simp add: final_block_def keccak_padding_def list_update_append nth_append)
  next
    case (Suc j)
    with k assms have l: "length rem = 134 - j" "j \<le> 134" by simp_all
    have "(replicate (Suc j) 0)[j := 0x80] = replicate j 0 @ [0x80 :: u8]"
      by (induction j) simp_all
    moreover have "(0 # replicate j 0) ! j = (0 :: u8)" using nth_replicate [of j "Suc j" "0 :: u8"] by simp
    ultimately show ?thesis
      using k l Suc assms by (simp add: final_block_def keccak_padding_def Let_def list_update_append nth_append)
  qed
qed


lemma length_final_block: "length rem < RATE_BYTES \<Longrightarrow> length (final_block rem) = RATE_BYTES"
  by (simp add: final_block_def Let_def)

lemma keccak_padding_drop: "RATE_BYTES \<le> length xs \<Longrightarrow> keccak_padding (length xs - RATE_BYTES) = keccak_padding (length xs)"
  by (simp add: keccak_padding_def le_mod_geq)

lemmas chunks_padded_step = chunks_step [where n = RATE_BYTES, simplified]

lemma chunks_padded_last:
  assumes "length input < RATE_BYTES"
  shows "chunks RATE_BYTES (input @ keccak_padding (length input)) = [final_block input]"
  using length_final_block [OF assms] unfolding final_block_eq [OF assms] by (intro chunks_single) simp_all

lemma absorb_full_sponge:
  "(case absorb_full a input of (a', rem) \<Rightarrow> keccak_f1600 (absorb_block a' (final_block rem))) =
     foldl (\<lambda>a b. keccak_f1600 (absorb_block a b)) a
       (chunks RATE_BYTES (input @ keccak_padding (length input)))"
proof (induction a input rule: absorb_full.induct)
  case (1 a input)
  show ?case
  proof (cases "RATE_BYTES \<le> length input")
    case True
    then show ?thesis
      using 1 by (subst absorb_full.simps) (simp add: chunks_padded_step keccak_padding_drop)
  next
    case False
    then show ?thesis
      by (subst absorb_full.simps) (simp add: chunks_padded_last)
  qed
qed

lemma keccak256_sponge: "keccak256 input = squeeze (sponge (chunks RATE_BYTES (input @ keccak_padding (length input))))"
  using absorb_full_sponge [of zero_state input] by (simp add: keccak256_def sponge_def split: prod.splits)

section \<open>The traces replay the hash\<close>

lemma round_trace_of_simps:
  "rt_round (round_trace_of a r) = r" "rt_before (round_trace_of a r) = a"
  "rt_c (round_trace_of a r) = theta_c a" "rt_d (round_trace_of a r) = theta_d (theta_c a)"
  "rt_after_theta (round_trace_of a r) = theta a"
  "rt_after_rho (round_trace_of a r) = rho (theta a)"
  "rt_after_pi (round_trace_of a r) = pi_step (rho (theta a))"
  "rt_after_chi (round_trace_of a r) = chi (pi_step (rho (theta a)))"
  "rt_after_iota (round_trace_of a r) = keccak_round a r"
  by (simp_all add: round_trace_of_def Let_def theta_def keccak_round_def)

definition round_ok :: "round_trace \<Rightarrow> bool" where
  "round_ok t \<longleftrightarrow> rt_c t = theta_c (rt_before t) \<and> rt_d t = theta_d (rt_c t) \<and>
     rt_after_theta t = theta (rt_before t) \<and> rt_after_rho t = rho (rt_after_theta t) \<and>
     rt_after_pi t = pi_step (rt_after_rho t) \<and> rt_after_chi t = chi (rt_after_pi t) \<and>
     rt_after_iota t = iota (rt_after_chi t) (rt_round t)"

definition block_ok :: "block_trace \<Rightarrow> bool" where
  "block_ok b \<longleftrightarrow> length (bt_block b) = RATE_BYTES \<and>
     bt_state_after_absorb b = absorb_block (bt_state_in b) (bt_block b) \<and>
     map rt_round (bt_rounds b) = [0..<NUM_KECCAK_ROUNDS] \<and> list_all round_ok (bt_rounds b) \<and>
     rt_before (hd (bt_rounds b)) = bt_state_after_absorb b \<and>
     successively (\<lambda>t u. rt_before u = rt_after_iota t) (bt_rounds b) \<and>
     rt_after_iota (last (bt_rounds b)) = bt_state_out b"

lemma round_traces_ok:
  "map rt_round (round_traces a rs) = rs" "list_all round_ok (round_traces a rs)"
  "successively (\<lambda>t u. rt_before u = rt_after_iota t) (round_traces a rs)"
  "rs \<noteq> [] \<Longrightarrow> rt_before (hd (round_traces a rs)) = a"
  "rs \<noteq> [] \<Longrightarrow> rt_after_iota (last (round_traces a rs)) = foldl keccak_round a rs"
proof (induction rs arbitrary: a)
  case (Cons r rs)
  { case 1 show ?case using Cons.IH(1) by (simp add: Let_def round_trace_of_simps) }
  { case 2 show ?case using Cons.IH(2) by (simp add: Let_def round_trace_of_simps round_ok_def keccak_round_def) }
  { case 3 show ?case using Cons.IH(3,4) by (cases rs) (simp_all add: Let_def round_trace_of_simps) }
  { case 4 show ?case by (simp add: Let_def round_trace_of_simps) }
  { case 5 show ?case using Cons.IH(5) by (cases rs) (simp_all add: Let_def round_trace_of_simps) }
qed simp_all

lemma block_ok_absorb_and_permute: "length block = RATE_BYTES \<Longrightarrow> block_ok (absorb_and_permute a block)"
  using round_traces_ok [where a = "absorb_block a block" and rs = "[0..<NUM_KECCAK_ROUNDS]"]
  by (simp add: block_ok_def absorb_and_permute_def keccak_f1600_witness_def keccak_f1600_def Let_def)

lemma absorb_and_permute_simps:
  "bt_block (absorb_and_permute a block) = block" "bt_state_in (absorb_and_permute a block) = a"
  "bt_state_out (absorb_and_permute a block) = keccak_f1600 (absorb_block a block)"
  by (simp_all add: absorb_and_permute_def Let_def)

lemma witness_blocks_ok:
  "list_all block_ok (witness_blocks a input)"
  "successively (\<lambda>b c. bt_state_in c = bt_state_out b) (witness_blocks a input)"
  "map bt_block (witness_blocks a input) = chunks RATE_BYTES (input @ keccak_padding (length input))"
  "witness_blocks a input \<noteq> []" "bt_state_in (hd (witness_blocks a input)) = a"
  "bt_state_out (last (witness_blocks a input)) =
     foldl (\<lambda>a b. keccak_f1600 (absorb_block a b)) a (chunks RATE_BYTES (input @ keccak_padding (length input)))"
proof (induction a input rule: witness_blocks.induct)
  case (1 a input)
  note simps = witness_blocks.simps [of a input] Let_def absorb_and_permute_simps
  note IH = 1 [OF _ refl, unfolded absorb_and_permute_simps]
  show "witness_blocks a input \<noteq> []" "bt_state_in (hd (witness_blocks a input)) = a"
    by (simp_all add: simps)
  show "list_all block_ok (witness_blocks a input)"
    using IH(1) by (simp add: simps block_ok_absorb_and_permute length_final_block)
  show "successively (\<lambda>b c. bt_state_in c = bt_state_out b) (witness_blocks a input)"
    using IH(2,4,5) by (auto simp: simps successively_Cons)
  show "map bt_block (witness_blocks a input) = chunks RATE_BYTES (input @ keccak_padding (length input))"
    using IH(3) by (simp add: simps chunks_padded_step chunks_padded_last keccak_padding_drop)
  show "bt_state_out (last (witness_blocks a input)) =
     foldl (\<lambda>a b. keccak_f1600 (absorb_block a b)) a (chunks RATE_BYTES (input @ keccak_padding (length input)))"
    using IH(4,6) by (simp add: simps chunks_padded_step chunks_padded_last keccak_padding_drop)
qed


lemma keccak_padding_length: "(length input + length (keccak_padding (length input))) mod RATE_BYTES = 0"
proof -
  have "length (keccak_padding (length input)) = RATE_BYTES - length input mod RATE_BYTES"
    using mod_less_divisor [of RATE_BYTES "length input"] by (auto simp: keccak_padding_def Let_def)
  moreover have "length input = RATE_BYTES * (length input div RATE_BYTES) + length input mod RATE_BYTES" by simp
  moreover have "length input mod RATE_BYTES < RATE_BYTES" by simp
  ultimately have "length input + length (keccak_padding (length input)) = RATE_BYTES * (length input div RATE_BYTES) + RATE_BYTES"
    by linarith
  then show ?thesis by simp
qed

text \<open>
  Keccak-256 is the sponge over the \<^verbatim>\<open>10*1\<close>-padded message: the digest squeezed from the state
  that absorbs the 136-byte blocks of the message and its padding in order. The trace the prover
  records replays it: same digest, blocks that spell the padded message, states that chain from the
  zero state, and in each block 24 chained rounds of the five step mappings that end in its output.
\<close>

theorem keccak_witness_replays_sponge:
  "keccak256 input = squeeze (sponge (chunks RATE_BYTES (input @ keccak_padding (length input)))) \<and>
   (length input + length (keccak_padding (length input))) mod RATE_BYTES = 0 \<and>
   ht_digest (keccak_witness input) = keccak256 input \<and> ht_input_len (keccak_witness input) = length input \<and>
   concat (map bt_block (ht_blocks (keccak_witness input))) = input @ keccak_padding (length input) \<and>
   bt_state_in (hd (ht_blocks (keccak_witness input))) = zero_state \<and>
   successively (\<lambda>b c. bt_state_in c = bt_state_out b) (ht_blocks (keccak_witness input)) \<and>
   list_all block_ok (ht_blocks (keccak_witness input))"
  using witness_blocks_ok [of zero_state input]
  by (simp add: keccak_witness_def keccak256_sponge keccak_padding_length sponge_def concat_chunks)

lemma length_squeeze [simp]: "length (squeeze a) = 32"
  by (simp add: squeeze_def length_concat upt_rec)

lemma length_keccak256 [simp]: "length (keccak256 input) = 32"
  by (simp add: keccak256_def split: prod.split)

lemma wf_zero_state [simp]: "wf_state zero_state"
  by (simp add: zero_state_def wf_state_def list_all_length)

text \<open>The rate lanes are the first 17 in the order \<open>x + 5 y\<close>; the eight capacity lanes keep their value.\<close>

lemma absorb_block_lane:
  assumes "wf_state a" "x < 5" "y < 5"
  shows "absorb_block a block ! x ! y =
     (if x + 5 * y < 17 then a ! x ! y XOR from_le_bytes (take 8 (drop ((x + 5 * y) * 8) block)) else a ! x ! y)"
proof -
  define f where "f = (\<lambda>a i. lane_xor a (i mod 5) (i div 5) (from_le_bytes (take 8 (drop (i * 8) block))))"
  have wf: "wf_state (foldl f a [0..<n])" for n
    by (induction n) (simp_all add: assms(1) f_def)
  have "n \<le> 25 \<Longrightarrow> foldl f a [0..<n] ! x ! y =
      (if x + 5 * y < n then a ! x ! y XOR from_le_bytes (take 8 (drop ((x + 5 * y) * 8) block)) else a ! x ! y)" for n
  proof (induction n)
    case (Suc n)
    have "n div 5 < 5" using Suc.prems by (simp add: less_mult_imp_div_less)
    moreover have "x = n mod 5 \<and> y = n div 5 \<longleftrightarrow> x + 5 * y = n" using assms by auto
    ultimately show ?case
      using Suc assms wf [of n] by (auto simp: f_def lane_xor_nth less_Suc_eq)
  qed simp
  from this [of 17] show ?thesis by (simp add: absorb_block_def f_def)
qed

end
