(* ===== verification/Zkp_Mpt.thy ===== *)
theory Zkp_Mpt
  imports Zkp_Rlp Zkp_Keccak
begin

text \<open>
  Merkle-Patricia tries of \<^verbatim>\<open>crates/zkp/src/mpt.rs\<close>: nibble paths with their hex-prefix encoding,
  trie nodes and their RLP form, the fixture tries, and the verifier of inclusion proofs. The
  results are the round trips of paths and nodes, completeness of the verifier on every path of a
  trie, and that under one root a key has at most one value (unless Keccak-256 collides).
\<close>

section \<open>Nibble paths\<close>

type_synonym nibbles = "u8 list"

definition nibbles_from_bytes :: "u8 list \<Rightarrow> nibbles" where
  "nibbles_from_bytes bytes = concat (map (\<lambda>b. [drop_bit 4 b, b AND 0x0F]) bytes)"

definition common_prefix_len :: "nibbles \<Rightarrow> nibbles \<Rightarrow> nat" where
  "common_prefix_len self other = length (takeWhile (\<lambda>(a, b). a = b) (zip self other))"

text \<open>\<open>chunks(2)\<close> of a path of even length, packed two nibbles per byte.\<close>

fun pack_nibbles :: "nibbles \<Rightarrow> u8 list" where
  "pack_nibbles (a # b # rest) = (push_bit 4 a OR b) # pack_nibbles rest"
| "pack_nibbles _ = []"

definition leaf_flag :: "bool \<Rightarrow> u8" where
  "leaf_flag is_leaf = push_bit 5 (if is_leaf then 1 else 0)"

definition to_encoded_path :: "nibbles \<Rightarrow> bool \<Rightarrow> u8 list" where
  "to_encoded_path self is_leaf =
     (if length self mod 2 = 1
      then (leaf_flag is_leaf OR 0x10 OR self ! 0) # pack_nibbles (drop 1 self)
      else leaf_flag is_leaf # pack_nibbles self)"

definition from_encoded_path :: "u8 list \<Rightarrow> (nibbles \<times> bool) option" where
  "from_encoded_path encoded =
     (case encoded of [] \<Rightarrow> None
      | first # rest \<Rightarrow>
          Some ((if first AND 0x10 \<noteq> 0 then [first AND 0x0F] else []) @ nibbles_from_bytes rest,
                first AND 0x20 \<noteq> 0))"

section \<open>Nodes\<close>

type_synonym hash32 = "u8 list"

datatype mpt_node =
    Leaf (leaf_path: nibbles) (leaf_value: "u8 list")
  | Extension (ext_path: nibbles) (ext_child: hash32)
  | Branch (br_children: "hash32 option list") (br_value: "u8 list option")

definition mpt_node_rlp :: "mpt_node \<Rightarrow> u8 list" where
  "mpt_node_rlp node =
     (case node of
        Leaf path value \<Rightarrow>
          rlp_encode_list [rlp_encode_bytes (to_encoded_path path True), rlp_encode_bytes value]
      | Extension path child \<Rightarrow>
          rlp_encode_list [rlp_encode_bytes (to_encoded_path path False), rlp_encode_bytes child]
      | Branch children value \<Rightarrow>
          rlp_encode_list
            (map (\<lambda>c. case c of Some h \<Rightarrow> rlp_encode_bytes h | None \<Rightarrow> rlp_encode_bytes []) children @
             [case value of Some v \<Rightarrow> rlp_encode_bytes v | None \<Rightarrow> rlp_encode_bytes []]))"

definition mpt_node_hash :: "mpt_node \<Rightarrow> hash32" where
  "mpt_node_hash node = keccak256 (mpt_node_rlp node)"

definition empty_trie_root :: hash32 where
  "empty_trie_root = keccak256 (rlp_encode_bytes [])"

definition single_leaf_trie :: "u8 list \<Rightarrow> u8 list \<Rightarrow> hash32 \<times> u8 list list" where
  "single_leaf_trie key value =
     (let leaf_rlp = mpt_node_rlp (Leaf (nibbles_from_bytes key) value)
      in (keccak256 leaf_rlp, [leaf_rlp]))"

text \<open>The two assertions of \<open>two_leaf_trie_distinct_first_nibble\<close> panic (\<open>None\<close>).\<close>

definition two_leaf_trie :: "u8 list \<Rightarrow> u8 list \<Rightarrow> u8 list \<Rightarrow> u8 list \<Rightarrow> (hash32 \<times> u8 list list) option" where
  "two_leaf_trie key1 value1 key2 value2 =
     (let nibs1 = nibbles_from_bytes key1; nibs2 = nibbles_from_bytes key2 in
      if nibs1 = [] \<or> nibs2 = [] then None
      else if nibs1 ! 0 = nibs2 ! 0 then None
      else
        let leaf1_rlp = mpt_node_rlp (Leaf (drop 1 nibs1) value1);
            leaf2_rlp = mpt_node_rlp (Leaf (drop 1 nibs2) value2);
            children = (replicate 16 None)[unat (nibs1 ! 0) := Some (keccak256 leaf1_rlp),
                                           unat (nibs2 ! 0) := Some (keccak256 leaf2_rlp)];
            branch_rlp = mpt_node_rlp (Branch children None)
        in Some (keccak256 branch_rlp, [branch_rlp, leaf1_rlp]))"

section \<open>Decoding nodes and verifying proofs\<close>

datatype decoded_node =
    DLeaf nibbles "u8 list"
  | DExtension nibbles hash32
  | DBranch "hash32 option list" "u8 list option"

definition as_bytes :: "rlp_item \<Rightarrow> u8 list option" where
  "as_bytes item = (case item of Bytes b \<Rightarrow> Some b | List _ \<Rightarrow> None)"

definition decode_child :: "rlp_item \<Rightarrow> hash32 option option" where
  "decode_child slot =
     (case as_bytes slot of
        None \<Rightarrow> None
      | Some b \<Rightarrow> if b = [] then Some None else if length b = 32 then Some (Some b) else None)"

definition decode_node :: "rlp_item \<Rightarrow> decoded_node option" where
  "decode_node item =
     (case item of
        Bytes _ \<Rightarrow> None
      | List list \<Rightarrow>
          if length list = 2 then do {
            hp \<leftarrow> as_bytes (list ! 0);
            (nibbles, is_leaf) \<leftarrow> from_encoded_path hp;
            child \<leftarrow> as_bytes (list ! 1);
            if is_leaf then Some (DLeaf nibbles child)
            else if length child \<noteq> 32 then None
            else Some (DExtension nibbles child)
          }
          else if length list = 17 then do {
            children \<leftarrow> those (map decode_child (take 16 list));
            v \<leftarrow> as_bytes (list ! 16);
            Some (DBranch children (if v = [] then None else Some v))
          }
          else None)"

text \<open>
  The loop of \<open>verify_mpt_inclusion\<close>, with the path still to be matched and the hash expected of
  the next node; \<open>None\<close> is a panic, of the RLP decoder or of the index into the children.
\<close>

fun mpt_walk :: "nibbles \<Rightarrow> hash32 \<Rightarrow> u8 list \<Rightarrow> u8 list list \<Rightarrow> bool option" where
  "mpt_walk path expected_hash value [] = Some False"
| "mpt_walk path expected_hash value (encoded # proof) =
     (if keccak256 encoded \<noteq> expected_hash then Some False
      else case rlp_decode encoded of
        None \<Rightarrow> None
      | Some (Inl _) \<Rightarrow> Some False
      | Some (Inr (item, consumed)) \<Rightarrow>
          if consumed \<noteq> length encoded then Some False
          else case decode_node item of
            None \<Rightarrow> Some False
          | Some (DLeaf p v) \<Rightarrow> Some (proof = [] \<and> path = p \<and> v = value)
          | Some (DExtension p child) \<Rightarrow>
              if length path < length p \<or> take (length p) path \<noteq> p then Some False
              else mpt_walk (drop (length p) path) child value proof
          | Some (DBranch children v) \<Rightarrow>
              if path = [] then Some (proof = [] \<and> v = Some value)
              else if unat (path ! 0) < length children then
                case children ! unat (path ! 0) of
                  Some h \<Rightarrow> mpt_walk (drop 1 path) h value proof
                | None \<Rightarrow> Some False
              else None)"

definition verify_mpt_inclusion :: "hash32 \<Rightarrow> u8 list \<Rightarrow> u8 list \<Rightarrow> u8 list list \<Rightarrow> bool option" where
  "verify_mpt_inclusion root key value proof = mpt_walk (nibbles_from_bytes key) root value proof"

section \<open>Paths: packing and hex-prefix round trip\<close>

abbreviation is_nibble :: "u8 \<Rightarrow> bool" where
  "is_nibble n \<equiv> n < 16"

lemma nibble_bits: "is_nibble n \<Longrightarrow> bit n k \<Longrightarrow> k < 4"
proof -
  assume "is_nibble n" and k: "bit n k"
  then have "unat (n AND mask 4) = unat n" by (simp only: unat_and_pow2_mask word_less_nat_alt) simp
  then have "n AND mask 4 = n" by (simp only: word_unat_eq_iff)
  with k show ?thesis by (metis bit_and_iff bit_mask_iff)
qed

lemma bit_0xF: "bit (0xF :: int) k \<longleftrightarrow> k < 4" "bit (0x10 :: int) k \<longleftrightarrow> k = 4"
  using bit_mask_iff [of 4 k, where ?'a = int] bit_exp_iff [of 4 k, where ?'a = int]
  by (auto simp: mask_eq_exp_minus_1)

lemma nibble_split:
  assumes "is_nibble a" and "is_nibble b"
  shows "drop_bit 4 (push_bit 4 a OR b) = a" and "(push_bit 4 a OR b) AND 0xF = b"
proof -
  have hi: "drop_bit 4 b = 0" using nibble_bits [OF assms(2)] by (intro bit_word_eqI) (force simp: bit_drop_bit_eq)
  show "drop_bit 4 (push_bit 4 a OR b) = a"
    using nibble_bits [OF assms(1)] by (intro bit_word_eqI) (auto simp: hi bit_drop_bit_eq bit_push_bit_iff)
  show "(push_bit 4 a OR b) AND 0xF = b"
    using nibble_bits [OF assms(2)] by (intro bit_word_eqI) (auto simp: bit_and_iff bit_or_iff bit_push_bit_iff bit_0xF)
qed

lemma nibbles_pack:
  "even (length p) \<Longrightarrow> list_all is_nibble p \<Longrightarrow> nibbles_from_bytes (pack_nibbles p) = p"
  by (induction p rule: pack_nibbles.induct)
    (simp_all add: nibbles_from_bytes_def nibble_split [simplified] nibble_split)

lemma nibbles_from_bytes_nibble: "list_all is_nibble (nibbles_from_bytes bs)"
proof (induction bs)
  case (Cons b bs)
  have "unat (drop_bit 4 b) < 16" "unat (b AND 0xF) < 16"
    using unat_byte_less [of b] unat_and_pow2_mask [of b 4]
    by (simp_all only: unat_drop_bit_eq drop_bit_eq_div [of 4 "unat b"]) (simp_all add: mask_eq_exp_minus_1)
  with Cons show ?case by (simp add: nibbles_from_bytes_def word_less_nat_alt)
qed (simp add: nibbles_from_bytes_def)

lemma first_byte_fields:
  assumes "is_nibble n"
  shows "leaf_flag l AND 0x10 = 0" "leaf_flag l AND 0x20 = 0 \<longleftrightarrow> \<not> l"
    "(leaf_flag l OR 0x10 OR n) AND 0x10 \<noteq> 0" "(leaf_flag l OR 0x10 OR n) AND 0x20 = 0 \<longleftrightarrow> \<not> l"
    "(leaf_flag l OR 0x10 OR n) AND 0x0F = n"
proof -
  note hi = nibble_bits [OF assms]
  have n45: "\<not> bit n 4" "\<not> bit n 5" using hi [of 4] hi [of 5] by auto
  have b: "bit (0x10 :: u8) k \<longleftrightarrow> k = 4" "(x AND 0x10 = 0) = (\<not> bit x 4)" "(x AND 0x20 = 0) = (\<not> bit x 5)"
    for k and x :: u8
    using bit_push_bit_one [of 4 k, where ?'a = 8] and_push_bit_one [of x 4] and_push_bit_one [of x 5] by simp_all
  have f: "bit (leaf_flag l) k \<longleftrightarrow> l \<and> k = 5" for k
    using bit_push_bit_one [of 5 k, where ?'a = 8] by (simp add: leaf_flag_def)
  show "leaf_flag l AND 0x10 = 0" "leaf_flag l AND 0x20 = 0 \<longleftrightarrow> \<not> l"
    "(leaf_flag l OR 0x10 OR n) AND 0x10 \<noteq> 0" "(leaf_flag l OR 0x10 OR n) AND 0x20 = 0 \<longleftrightarrow> \<not> l"
    using n45 by (simp_all only: b f bit_or_iff) simp_all
  show "(leaf_flag l OR 0x10 OR n) AND 0x0F = n"
    using hi by (intro bit_word_eqI) (auto simp: bit_and_iff bit_or_iff b(1) f bit_0xF)
qed

lemma hp_roundtrip:
  assumes "list_all is_nibble p"
  shows "from_encoded_path (to_encoded_path p leaf) = Some (p, leaf)"
proof (cases "length p mod 2 = 1")
  case True
  then obtain n q where p: "p = n # q" by (cases p) auto
  with True have "even (length q)" by (simp add: mod2_eq_if split: if_splits)
  with assms p True show ?thesis
    by (simp add: to_encoded_path_def from_encoded_path_def first_byte_fields nibbles_pack)
next
  case False
  then have "even (length p)" by presburger
  with assms False first_byte_fields [of 0] show ?thesis
    by (simp add: to_encoded_path_def from_encoded_path_def nibbles_pack)
qed


section \<open>Nodes: RLP round trip\<close>

abbreviation opt_bytes :: "u8 list option \<Rightarrow> u8 list" where
  "opt_bytes v \<equiv> (case v of Some b \<Rightarrow> b | None \<Rightarrow> [])"

fun node_item :: "mpt_node \<Rightarrow> rlp_item" where
  "node_item (Leaf p v) = List [Bytes (to_encoded_path p True), Bytes v]"
| "node_item (Extension p c) = List [Bytes (to_encoded_path p False), Bytes c]"
| "node_item (Branch cs v) = List (map (\<lambda>c. Bytes (opt_bytes c)) cs @ [Bytes (opt_bytes v)])"

fun decoded :: "mpt_node \<Rightarrow> decoded_node" where
  "decoded (Leaf p v) = DLeaf p v"
| "decoded (Extension p c) = DExtension p c"
| "decoded (Branch cs v) = DBranch cs v"

text \<open>
  What the Rust types say of a node (nibbles below 16, 16 children, hashes of 32 bytes), that its
  encoding fits into memory, and that a branch does not hold an empty value, which its encoding
  cannot tell from no value.
\<close>

fun wf_shape :: "mpt_node \<Rightarrow> bool" where
  "wf_shape (Leaf p v) = list_all is_nibble p"
| "wf_shape (Extension p c) = (list_all is_nibble p \<and> length c = 32)"
| "wf_shape (Branch cs v) =
     (length cs = 16 \<and> list_all (\<lambda>c. case c of None \<Rightarrow> True | Some h \<Rightarrow> length h = 32) cs \<and> v \<noteq> Some [])"

definition wf_node :: "mpt_node \<Rightarrow> bool" where
  "wf_node node \<longleftrightarrow> wf_shape node \<and> length (mpt_node_rlp node) < 2 ^ 64"

lemma mpt_node_rlp_item: "mpt_node_rlp node = rlp_of_item (node_item node)"
  by (cases node) (auto simp: mpt_node_rlp_def intro!: arg_cong [where f = rlp_encode_list] split: option.split)

lemma those_decode_children:
  "list_all (\<lambda>c. case c of None \<Rightarrow> True | Some h \<Rightarrow> length h = 32) cs \<Longrightarrow>
     those (map (\<lambda>c. decode_child (Bytes (opt_bytes c))) cs) = Some cs"
  by (induction cs) (auto simp: decode_child_def as_bytes_def split: option.splits)

lemma decode_node_item: "wf_shape node \<Longrightarrow> decode_node (node_item node) = Some (decoded node)"
proof (cases node)
  case (Branch cs v)
  moreover assume "wf_shape node"
  ultimately show ?thesis
    using those_decode_children [of cs]
    by (auto simp: decode_node_def as_bytes_def nth_append comp_def split: option.split)
qed (auto simp: decode_node_def as_bytes_def hp_roundtrip)

lemma decode_node_rlp:
  assumes "wf_node node"
  shows "rlp_decode (mpt_node_rlp node) = Ok (node_item node, length (mpt_node_rlp node))"
  using assms rlp_item_roundtrip [of "node_item node" "[]"] by (simp add: wf_node_def mpt_node_rlp_item)

text \<open>
  A hex-prefix path decodes to the nibbles and the leaf flag it was made from, and the RLP of a
  trie node decodes, with all bytes consumed, to an item that is read back as that node.
\<close>

theorem mpt_encoding_roundtrip:
  assumes "list_all is_nibble p" and "wf_node node"
  shows "from_encoded_path (to_encoded_path p leaf) = Some (p, leaf) \<and>
    (\<exists>item. rlp_decode (mpt_node_rlp node) = Ok (item, length (mpt_node_rlp node)) \<and>
       decode_node item = Some (decoded node))"
  using assms hp_roundtrip decode_node_rlp decode_node_item by (auto simp: wf_node_def)

theorem mpt_encoding_roundtrip_witness:
  "from_encoded_path (to_encoded_path [1, 2, 15] True) = Some ([1, 2, 15], True) \<and>
    (\<exists>item. rlp_decode (mpt_node_rlp (Leaf [10, 3] [7, 8])) = Ok (item, length (mpt_node_rlp (Leaf [10, 3] [7, 8]))) \<and>
       decode_node item = Some (decoded (Leaf [10, 3] [7, 8])))"
proof -
  have "wf_node (Leaf [10, 3] [7, 8])"
    by (simp add: wf_node_def mpt_node_rlp_def rlp_encode_list_def rlp_encode_bytes_def to_encoded_path_def)
  then show ?thesis using mpt_encoding_roundtrip [of "[1, 2, 15]" "Leaf [10, 3] [7, 8]" True] by simp
qed

section \<open>Completeness of the verifier\<close>

text \<open>
  \<open>trie_path n key v ns\<close>: below node \<open>n\<close> of a trie, whose nodes refer to their children by hash, the
  nibbles \<open>key\<close> lead through the nodes \<open>ns\<close> (starting with \<open>n\<close>) to the value \<open>v\<close>.
\<close>

inductive trie_path :: "mpt_node \<Rightarrow> nibbles \<Rightarrow> u8 list \<Rightarrow> mpt_node list \<Rightarrow> bool" where
  at_leaf: "trie_path (Leaf p v) p v [Leaf p v]"
| at_branch: "trie_path (Branch cs (Some v)) [] v [Branch cs (Some v)]"
| via_extension: "trie_path n key v ns \<Longrightarrow>
    trie_path (Extension p (mpt_node_hash n)) (p @ key) v (Extension p (mpt_node_hash n) # ns)"
| via_branch: "trie_path n key v ns \<Longrightarrow> cs ! unat nib = Some (mpt_node_hash n) \<Longrightarrow>
    trie_path (Branch cs bv) (nib # key) v (Branch cs bv # ns)"

lemma mpt_walk_node:
  assumes "wf_node node"
  shows "mpt_walk path (mpt_node_hash node) value (mpt_node_rlp node # proof) =
    (case decoded node of
       DLeaf p v \<Rightarrow> Some (proof = [] \<and> path = p \<and> v = value)
     | DExtension p child \<Rightarrow>
         if length path < length p \<or> take (length p) path \<noteq> p then Some False
         else mpt_walk (drop (length p) path) child value proof
     | DBranch children v \<Rightarrow>
         if path = [] then Some (proof = [] \<and> v = Some value)
         else if unat (path ! 0) < length children then
           case children ! unat (path ! 0) of
             Some h \<Rightarrow> mpt_walk (drop 1 path) h value proof
           | None \<Rightarrow> Some False
         else None)"
  using assms decode_node_rlp [OF assms] decode_node_item [of node]
  by (simp add: mpt_node_hash_def wf_node_def)

lemma mpt_walk_complete:
  "trie_path n key v ns \<Longrightarrow> list_all wf_node ns \<Longrightarrow> list_all is_nibble key \<Longrightarrow>
     mpt_walk key (mpt_node_hash n) v (map mpt_node_rlp ns) = Some True"
proof (induction rule: trie_path.induct)
  case (via_branch n key v ns cs nib bv)
  then have "length cs = 16" by (simp add: wf_node_def)
  with via_branch show ?case by (simp add: mpt_walk_node word_less_nat_alt del: mpt_walk.simps)
qed (simp_all add: mpt_walk_node del: mpt_walk.simps)

lemma length_rlp_encode_bytes: "length (rlp_encode_bytes b) \<le> length b + 9"
  using length_minimal_be [of "of_nat (length b)"] by (auto simp: rlp_encode_bytes_def Let_def)

lemma length_rlp_encode_list: "length (rlp_encode_list encs) \<le> sum_list (map length encs) + 9"
  using length_minimal_be [of "of_nat (sum_list (map length encs))"]
  by (auto simp: rlp_encode_list_def Let_def length_concat)

lemma wf_node_branch:
  assumes "length cs = 16" and "list_all (\<lambda>c. case c of None \<Rightarrow> True | Some h \<Rightarrow> length h = 32) cs"
  shows "wf_node (Branch cs None)"
proof -
  define enc where "enc = (\<lambda>c. case c of Some h \<Rightarrow> rlp_encode_bytes h | None \<Rightarrow> rlp_encode_bytes [])"
  have "length (enc c) \<le> 41" if "c \<in> set cs" for c
    using assms(2) that length_rlp_encode_bytes
    by (auto simp: enc_def list_all_iff rlp_encode_bytes_def split: option.splits)
  then have "sum_list (map (length \<circ> enc) cs) \<le> sum_list (map (\<lambda>_. 41) cs)"
    by (intro sum_list_mono) simp
  then have "length (mpt_node_rlp (Branch cs None)) < 2 ^ 64"
    using length_rlp_encode_list [of "map enc cs @ [rlp_encode_bytes []]"] length_rlp_encode_bytes [of "[]"] assms(1)
    by (simp add: mpt_node_rlp_def enc_def [symmetric] sum_list_triv) (simp add: enc_def)
  with assms show ?thesis by (simp add: wf_node_def)
qed

lemma verify_single_leaf:
  assumes "wf_node (Leaf (nibbles_from_bytes key) v)"
  shows "verify_mpt_inclusion (fst (single_leaf_trie key v)) key v (snd (single_leaf_trie key v)) = Some True"
proof -
  have "mpt_walk (nibbles_from_bytes key) (mpt_node_hash (Leaf (nibbles_from_bytes key) v)) v
      (map mpt_node_rlp [Leaf (nibbles_from_bytes key) v]) = Some True"
    using assms by (intro mpt_walk_complete nibbles_from_bytes_nibble trie_path.intros) simp
  then show ?thesis by (simp add: verify_mpt_inclusion_def single_leaf_trie_def mpt_node_hash_def Let_def)
qed

lemma wf_example_leaf: "wf_node (Leaf (nibbles_from_bytes [0xAB]) [1])"
  by (simp add: wf_node_def mpt_node_rlp_def rlp_encode_list_def rlp_encode_bytes_def to_encoded_path_def nibbles_from_bytes_def)

text \<open>
  The verifier accepts every genuine path: if the nibbles of a key lead through well-formed
  nodes of a trie to a value, the encodings of these nodes are a valid proof under the root hash. In
  particular the proofs of the one-leaf and two-leaf fixture tries verify.
\<close>

theorem verify_mpt_inclusion_complete:
  "(trie_path n (nibbles_from_bytes key) v ns \<and> list_all wf_node ns \<longrightarrow>
      verify_mpt_inclusion (mpt_node_hash n) key v (map mpt_node_rlp ns) = Some True) \<and>
   (wf_node (Leaf (nibbles_from_bytes key) v) \<longrightarrow>
      verify_mpt_inclusion (fst (single_leaf_trie key v)) key v (snd (single_leaf_trie key v)) = Some True) \<and>
   (two_leaf_trie key v key' v' = Some (root, proof) \<and> wf_node (Leaf (drop 1 (nibbles_from_bytes key)) v) \<longrightarrow>
      verify_mpt_inclusion root key v proof = Some True)"
proof (intro conjI impI, goal_cases)
  case 1
  then show ?case
    using mpt_walk_complete [OF _ _ nibbles_from_bytes_nibble] by (simp add: verify_mpt_inclusion_def)
next
  case 2
  then show ?case by (rule verify_single_leaf)
next
  case 3
  define leaf where "leaf = Leaf (drop 1 (nibbles_from_bytes key)) v"
  define leaf' where "leaf' = Leaf (drop 1 (nibbles_from_bytes key')) v'"
  from 3 obtain m m' where k: "nibbles_from_bytes key \<noteq> []" "m = nibbles_from_bytes key ! 0"
      "nibbles_from_bytes key' \<noteq> []" "m' = nibbles_from_bytes key' ! 0" "m \<noteq> m'"
    and root: "root = mpt_node_hash (Branch ((replicate 16 None)[unat m := Some (mpt_node_hash leaf), unat m' := Some (mpt_node_hash leaf')]) None)"
    and pr: "proof = map mpt_node_rlp [Branch ((replicate 16 None)[unat m := Some (mpt_node_hash leaf), unat m' := Some (mpt_node_hash leaf')]) None, leaf]"
    by (auto simp: two_leaf_trie_def Let_def leaf_def leaf'_def mpt_node_hash_def split: if_splits)
  define cs where "cs = (replicate 16 None)[unat m := Some (mpt_node_hash leaf), unat m' := Some (mpt_node_hash leaf')]"
  have "is_nibble m" using nibbles_from_bytes_nibble [of key] k by (cases "nibbles_from_bytes key") simp_all
  moreover have "unat m' \<noteq> unat m" using k(5) by (metis word_unat_eq_iff)
  ultimately have c: "cs ! unat m = Some (mpt_node_hash leaf)"
    by (simp add: cs_def word_less_nat_alt)
  have "list_all (\<lambda>c. case c of None \<Rightarrow> True | Some h \<Rightarrow> length h = 32) cs"
    by (auto simp: cs_def list_all_iff mpt_node_hash_def split: option.split
        dest!: set_update_subset_insert [THEN subsetD])
  then have wf: "wf_node (Branch cs None)" by (intro wf_node_branch) (simp_all add: cs_def)
  have "trie_path (Branch cs None) (m # drop 1 (nibbles_from_bytes key)) v [Branch cs None, leaf]"
    using via_branch [OF at_leaf c [unfolded leaf_def]] by (simp add: leaf_def)
  moreover have "m # drop 1 (nibbles_from_bytes key) = nibbles_from_bytes key" using k by (cases "nibbles_from_bytes key") simp_all
  ultimately have "mpt_walk (nibbles_from_bytes key) (mpt_node_hash (Branch cs None)) v (map mpt_node_rlp [Branch cs None, leaf]) = Some True"
    using 3 wf by (intro mpt_walk_complete nibbles_from_bytes_nibble) (simp_all add: leaf_def)
  then show ?case by (simp add: verify_mpt_inclusion_def root pr cs_def del: mpt_walk.simps)
qed

theorem verify_mpt_inclusion_complete_witness:
  "verify_mpt_inclusion (fst (single_leaf_trie [0xAB] [1])) [0xAB] [1] (snd (single_leaf_trie [0xAB] [1])) = Some True"
  using verify_mpt_inclusion_complete wf_example_leaf by blast

section \<open>Binding\<close>

lemma mpt_walk_unique:
  assumes "mpt_walk path h v p = Some True" and "mpt_walk path h v' p' = Some True"
    and "inj_on keccak256 (set p \<union> set p')"
  shows "p = p' \<and> v = v'"
  using assms
proof (induction p arbitrary: path h p')
  case (Cons e p)
  then obtain e' q where p': "p' = e' # q" by (cases p') simp_all
  from Cons.prems p' have "keccak256 e = keccak256 e'" by (simp split: if_splits)
  moreover have "e \<in> set (e # p) \<union> set p'" "e' \<in> set (e # p) \<union> set p'" using p' by simp_all
  ultimately have e: "e' = e" using Cons.prems(3) by (metis inj_onD)
  have inj: "inj_on keccak256 (set p \<union> set q)" using Cons.prems(3) p' by (auto intro: inj_on_subset)
  note IH = Cons.IH [OF _ _ inj]
  from Cons.prems(1,2) show ?case
    unfolding p' e by (auto split: if_splits option.splits sum.splits decoded_node.splits dest: IH)
qed simp

text \<open>
  C10. A root commits to at most one value per key: two accepted proofs for the same root and key are
  the same proof of the same value, provided no two of their nodes collide under Keccak-256.
\<close>

theorem mpt_inclusion_binding:
  assumes "verify_mpt_inclusion root key v p = Some True"
    and "verify_mpt_inclusion root key v' p' = Some True"
    and "inj_on keccak256 (set p \<union> set p')"
  shows "v = v' \<and> p = p'"
  using mpt_walk_unique assms unfolding verify_mpt_inclusion_def by blast

theorem mpt_inclusion_binding_witness:
  "\<exists>root p. verify_mpt_inclusion root [0xAB] [1] p = Some True \<and>
     (\<forall>v. verify_mpt_inclusion root [0xAB] v p = Some True \<longrightarrow> v = [1])"
proof -
  define root p where "root = fst (single_leaf_trie [0xAB] [1])" and "p = snd (single_leaf_trie [0xAB] [1])"
  have inj: "inj_on keccak256 (set p \<union> set p)" by (simp add: p_def single_leaf_trie_def Let_def)
  have v: "verify_mpt_inclusion root [0xAB] [1] p = Some True"
    unfolding root_def p_def using wf_example_leaf by (rule verify_single_leaf)
  show ?thesis using v mpt_inclusion_binding [OF v _ inj] by blast
qed

end
