(* ===== verification/Zkp_Objects.thy ===== *)
theory Zkp_Objects
  imports Zkp_Mpt
begin

text \<open>
  The execution-layer objects of \<open>crates/zkp\<close> that are committed through RLP and Keccak-256: accounts
  (\<^verbatim>\<open>account.rs\<close>), withdrawals (\<^verbatim>\<open>withdrawal.rs\<close>), legacy and EIP-1559 transactions
  (\<^verbatim>\<open>transaction.rs\<close>), receipts (\<^verbatim>\<open>receipt.rs\<close>), block headers (\<^verbatim>\<open>block_header.rs\<close>), and the oracles that
  check their inclusion under the roots of a block (\<^verbatim>\<open>tx_trie.rs\<close>, \<^verbatim>\<open>receipt_trie.rs\<close>,
  \<^verbatim>\<open>withdrawal_trie.rs\<close>). The wire encodings are injective on objects of the right shape, so an
  inclusion proof determines the object; the locale \<open>committed\<close> states what the tries need of an
  encoding and is interpreted for each kind of object.

  Arrays of fixed size are byte lists, with their size in the \<open>wf\<close> predicates. A rejected proof is the
  left value \<open>()\<close> of the result, which stands for the message.
\<close>

section \<open>Encoding a \<open>u64\<close>\<close>

definition rlp_encode_u64 :: "u64 \<Rightarrow> u8 list" where
  "rlp_encode_u64 value =
     (if value = 0 then [0x80]
      else if value < 0x80 then [ucast value]
      else let significant = dropWhile (\<lambda>b. b = 0) (to_be_bytes value)
           in (0x80 + of_nat (length significant)) # significant)"

section \<open>Accounts\<close>

record account =
  acc_nonce :: u64
  acc_balance :: "u8 list"
  acc_storage_root :: hash32
  acc_code_hash :: hash32

definition empty_storage_root :: hash32 where
  "empty_storage_root =
     [0x56, 0xe8, 0x1f, 0x17, 0x1b, 0xcc, 0x55, 0xa6, 0xff, 0x83, 0x45,
      0xe6, 0x92, 0xc0, 0xf8, 0x6e, 0x5b, 0x48, 0xe0, 0x1b, 0x99, 0x6c,
      0xad, 0xc0, 0x01, 0x62, 0x2f, 0xb5, 0xe3, 0x63, 0xb4, 0x21]"

definition empty_code_hash :: hash32 where
  "empty_code_hash = keccak256 []"

definition account_default :: account where
  "account_default = \<lparr>acc_nonce = 0, acc_balance = replicate 32 0,
     acc_storage_root = empty_storage_root, acc_code_hash = empty_code_hash\<rparr>"

definition account_rlp :: "account \<Rightarrow> u8 list" where
  "account_rlp a = rlp_encode_list
     [rlp_encode_uint (acc_nonce a), rlp_encode_u256 (acc_balance a),
      rlp_encode_bytes (acc_storage_root a), rlp_encode_bytes (acc_code_hash a)]"

definition account_trie_key :: "u8 list \<Rightarrow> hash32" where
  "account_trie_key address = keccak256 address"

text \<open>The common shape of the inclusion oracles: the verifier's answer as a result.\<close>

definition inclusion_result :: "bool option \<Rightarrow> (unit, unit) outcome" where
  "inclusion_result r = (case r of None \<Rightarrow> None | Some ok \<Rightarrow> if ok then Ok () else Err ())"

definition verify_account_inclusion_oracle :: "hash32 \<Rightarrow> u8 list \<Rightarrow> account \<Rightarrow> u8 list list \<Rightarrow> (unit, unit) outcome" where
  "verify_account_inclusion_oracle state_root address account proof =
     inclusion_result (verify_mpt_inclusion state_root (account_trie_key address) (account_rlp account) proof)"

section \<open>Withdrawals\<close>

record withdrawal =
  wd_index :: u64
  wd_validator_index :: u64
  wd_address :: "u8 list"
  wd_amount :: u64

definition withdrawal_rlp :: "withdrawal \<Rightarrow> u8 list" where
  "withdrawal_rlp w = rlp_encode_list
     [rlp_encode_u64 (wd_index w), rlp_encode_u64 (wd_validator_index w),
      rlp_encode_bytes (wd_address w), rlp_encode_u64 (wd_amount w)]"

definition withdrawal_hash :: "withdrawal \<Rightarrow> hash32" where
  "withdrawal_hash w = keccak256 (withdrawal_rlp w)"

definition verify_withdrawal_rlp_composition :: "withdrawal \<Rightarrow> (unit, u8 list) outcome" where
  "verify_withdrawal_rlp_composition w =
     (let canonical = withdrawal_rlp w;
          assembled = rlp_encode_list
            [rlp_encode_u64 (wd_index w), rlp_encode_u64 (wd_validator_index w),
             rlp_encode_bytes (wd_address w), rlp_encode_u64 (wd_amount w)]
      in if assembled \<noteq> canonical then Err () else Ok assembled)"

definition withdrawal_trie_key :: "u64 \<Rightarrow> u8 list" where
  "withdrawal_trie_key index = rlp_encode_uint index"

definition compute_single_withdrawal_root :: "u64 \<Rightarrow> withdrawal \<Rightarrow> hash32 \<times> u8 list list" where
  "compute_single_withdrawal_root index w = single_leaf_trie (withdrawal_trie_key index) (withdrawal_rlp w)"

definition verify_withdrawal_inclusion :: "hash32 \<Rightarrow> u64 \<Rightarrow> withdrawal \<Rightarrow> u8 list list \<Rightarrow> (unit, unit) outcome" where
  "verify_withdrawal_inclusion withdrawals_root index w proof =
     inclusion_result (verify_mpt_inclusion withdrawals_root (withdrawal_trie_key index) (withdrawal_rlp w) proof)"

section \<open>Transactions\<close>

datatype tx_type = TxLegacy | TxAccessList | TxEip1559 | TxEip4844

definition tx_type_byte :: "tx_type \<Rightarrow> u8 option" where
  "tx_type_byte ty = (case ty of TxLegacy \<Rightarrow> None | TxAccessList \<Rightarrow> Some 0x01 | TxEip1559 \<Rightarrow> Some 0x02 | TxEip4844 \<Rightarrow> Some 0x03)"

record legacy_tx =
  ltx_nonce :: u64
  ltx_gas_price :: "u8 list"
  ltx_gas_limit :: u64
  ltx_to :: "u8 list option"
  ltx_value :: "u8 list"
  ltx_data :: "u8 list"
  ltx_v :: u64
  ltx_r :: "u8 list"
  ltx_s :: "u8 list"

definition legacy_tx_rlp :: "legacy_tx \<Rightarrow> u8 list" where
  "legacy_tx_rlp tx = rlp_encode_list
     [rlp_encode_uint (ltx_nonce tx), rlp_encode_u256 (ltx_gas_price tx), rlp_encode_uint (ltx_gas_limit tx),
      rlp_encode_bytes (opt_bytes (ltx_to tx)), rlp_encode_u256 (ltx_value tx), rlp_encode_bytes (ltx_data tx),
      rlp_encode_uint (ltx_v tx), rlp_encode_u256 (ltx_r tx), rlp_encode_u256 (ltx_s tx)]"

definition legacy_tx_hash :: "legacy_tx \<Rightarrow> hash32" where
  "legacy_tx_hash tx = keccak256 (legacy_tx_rlp tx)"

record eip1559_tx =
  tx2_chain_id :: u64
  tx2_nonce :: u64
  tx2_max_priority_fee_per_gas :: "u8 list"
  tx2_max_fee_per_gas :: "u8 list"
  tx2_gas_limit :: u64
  tx2_to :: "u8 list option"
  tx2_value :: "u8 list"
  tx2_data :: "u8 list"
  tx2_access_list_rlp :: "u8 list"
  tx2_y_parity :: u64
  tx2_r :: "u8 list"
  tx2_s :: "u8 list"

definition eip1559_rlp_body :: "eip1559_tx \<Rightarrow> u8 list" where
  "eip1559_rlp_body tx = rlp_encode_list
     [rlp_encode_uint (tx2_chain_id tx), rlp_encode_uint (tx2_nonce tx),
      rlp_encode_u256 (tx2_max_priority_fee_per_gas tx), rlp_encode_u256 (tx2_max_fee_per_gas tx),
      rlp_encode_uint (tx2_gas_limit tx), rlp_encode_bytes (opt_bytes (tx2_to tx)), rlp_encode_u256 (tx2_value tx),
      rlp_encode_bytes (tx2_data tx), tx2_access_list_rlp tx, rlp_encode_uint (tx2_y_parity tx),
      rlp_encode_u256 (tx2_r tx), rlp_encode_u256 (tx2_s tx)]"

definition eip1559_wire :: "eip1559_tx \<Rightarrow> u8 list" where
  "eip1559_wire tx = 0x02 # eip1559_rlp_body tx"

definition eip1559_hash :: "eip1559_tx \<Rightarrow> hash32" where
  "eip1559_hash tx = keccak256 (eip1559_wire tx)"

datatype transaction = Legacy legacy_tx | Eip1559 eip1559_tx

definition tx_ty :: "transaction \<Rightarrow> tx_type" where
  "tx_ty tx = (case tx of Legacy _ \<Rightarrow> TxLegacy | Eip1559 _ \<Rightarrow> TxEip1559)"

definition tx_wire_encoding :: "transaction \<Rightarrow> u8 list" where
  "tx_wire_encoding tx = (case tx of Legacy t \<Rightarrow> legacy_tx_rlp t | Eip1559 t \<Rightarrow> eip1559_wire t)"

definition tx_hash :: "transaction \<Rightarrow> hash32" where
  "tx_hash tx = keccak256 (tx_wire_encoding tx)"

definition tx_trie_key :: "u64 \<Rightarrow> u8 list" where
  "tx_trie_key index = rlp_encode_uint index"

definition verify_transaction_inclusion_oracle :: "hash32 \<Rightarrow> u64 \<Rightarrow> transaction \<Rightarrow> u8 list list \<Rightarrow> (unit, unit) outcome" where
  "verify_transaction_inclusion_oracle transactions_root tx_index tx proof =
     inclusion_result (verify_mpt_inclusion transactions_root (tx_trie_key tx_index) (tx_wire_encoding tx) proof)"

definition verify_tx_root_single :: "hash32 \<Rightarrow> u64 \<Rightarrow> transaction \<Rightarrow> u8 list list \<Rightarrow> (unit, unit) outcome" where
  "verify_tx_root_single transactions_root tx_index tx proof =
     verify_transaction_inclusion_oracle transactions_root tx_index tx proof"

definition compute_single_leaf_tx_root :: "u64 \<Rightarrow> transaction \<Rightarrow> hash32 \<times> u8 list list" where
  "compute_single_leaf_tx_root tx_index tx = single_leaf_trie (tx_trie_key tx_index) (tx_wire_encoding tx)"

section \<open>Receipts\<close>

record log =
  log_address :: "u8 list"
  log_topics :: "u8 list list"
  log_data :: "u8 list"

definition log_rlp :: "log \<Rightarrow> u8 list" where
  "log_rlp l = rlp_encode_list
     [rlp_encode_bytes (log_address l), rlp_encode_list (map rlp_encode_bytes (log_topics l)), rlp_encode_bytes (log_data l)]"

datatype receipt_type = RcLegacy | RcAccessList | RcEip1559 | RcEip4844

definition receipt_type_byte :: "receipt_type \<Rightarrow> u8 option" where
  "receipt_type_byte ty = (case ty of RcLegacy \<Rightarrow> None | RcAccessList \<Rightarrow> Some 0x01 | RcEip1559 \<Rightarrow> Some 0x02 | RcEip4844 \<Rightarrow> Some 0x03)"

record receipt =
  rc_ty :: receipt_type
  rc_status :: u8
  rc_cumulative_gas_used :: u64
  rc_logs_bloom :: "u8 list"
  rc_logs :: "log list"

definition receipt_rlp_body :: "receipt \<Rightarrow> u8 list" where
  "receipt_rlp_body r = rlp_encode_list
     [rlp_encode_bytes [rc_status r], rlp_encode_uint (rc_cumulative_gas_used r),
      rlp_encode_bytes (rc_logs_bloom r), rlp_encode_list (map log_rlp (rc_logs r))]"

definition receipt_wire_encoding :: "receipt \<Rightarrow> u8 list" where
  "receipt_wire_encoding r =
     (let body = receipt_rlp_body r
      in case receipt_type_byte (rc_ty r) of None \<Rightarrow> body | Some type_byte \<Rightarrow> type_byte # body)"

definition receipt_hash :: "receipt \<Rightarrow> hash32" where
  "receipt_hash r = keccak256 (receipt_wire_encoding r)"

definition receipt_trie_key :: "u64 \<Rightarrow> u8 list" where
  "receipt_trie_key tx_index = rlp_encode_uint tx_index"

definition verify_receipt_inclusion_oracle :: "hash32 \<Rightarrow> u64 \<Rightarrow> receipt \<Rightarrow> u8 list list \<Rightarrow> (unit, unit) outcome" where
  "verify_receipt_inclusion_oracle receipts_root tx_index receipt proof =
     inclusion_result (verify_mpt_inclusion receipts_root (receipt_trie_key tx_index) (receipt_wire_encoding receipt) proof)"

definition verify_receipts_root_single :: "hash32 \<Rightarrow> u64 \<Rightarrow> receipt \<Rightarrow> u8 list list \<Rightarrow> (unit, unit) outcome" where
  "verify_receipts_root_single receipts_root tx_index receipt proof =
     verify_receipt_inclusion_oracle receipts_root tx_index receipt proof"

definition compute_single_leaf_receipts_root :: "u64 \<Rightarrow> receipt \<Rightarrow> hash32 \<times> u8 list list" where
  "compute_single_leaf_receipts_root tx_index receipt =
     single_leaf_trie (receipt_trie_key tx_index) (receipt_wire_encoding receipt)"

section \<open>Block headers\<close>

record block_header =
  bh_parent_hash :: hash32
  bh_ommers_hash :: hash32
  bh_beneficiary :: "u8 list"
  bh_state_root :: hash32
  bh_transactions_root :: hash32
  bh_receipts_root :: hash32
  bh_logs_bloom :: "u8 list"
  bh_difficulty :: "u8 list"
  bh_number :: u64
  bh_gas_limit :: u64
  bh_gas_used :: u64
  bh_timestamp :: u64
  bh_extra_data :: "u8 list"
  bh_mix_hash :: hash32
  bh_nonce :: "u8 list"
  bh_base_fee_per_gas :: "u8 list option"
  bh_withdrawals_root :: "hash32 option"
  bh_blob_gas_used :: "u64 option"
  bh_excess_blob_gas :: "u64 option"
  bh_parent_beacon_block_root :: "hash32 option"

definition block_header_default :: block_header where
  "block_header_default = \<lparr>bh_parent_hash = replicate 32 0, bh_ommers_hash = replicate 32 0,
     bh_beneficiary = replicate 20 0, bh_state_root = replicate 32 0, bh_transactions_root = replicate 32 0,
     bh_receipts_root = replicate 32 0, bh_logs_bloom = replicate 256 0, bh_difficulty = replicate 32 0,
     bh_number = 0, bh_gas_limit = 0, bh_gas_used = 0, bh_timestamp = 0, bh_extra_data = [],
     bh_mix_hash = replicate 32 0, bh_nonce = replicate 8 0, bh_base_fee_per_gas = None,
     bh_withdrawals_root = None, bh_blob_gas_used = None, bh_excess_blob_gas = None,
     bh_parent_beacon_block_root = None\<rparr>"

text \<open>The nested \<open>if let\<close>s emit the optional fields in order and stop at the first \<open>None\<close>.\<close>

definition fork_fields :: "block_header \<Rightarrow> u8 list list" where
  "fork_fields h =
     (case bh_base_fee_per_gas h of None \<Rightarrow> [] | Some base_fee \<Rightarrow> rlp_encode_u256 base_fee #
       (case bh_withdrawals_root h of None \<Rightarrow> [] | Some wr \<Rightarrow> rlp_encode_bytes wr #
         (case bh_blob_gas_used h of None \<Rightarrow> [] | Some bgu \<Rightarrow> rlp_encode_uint bgu #
           (case bh_excess_blob_gas h of None \<Rightarrow> [] | Some ebg \<Rightarrow> rlp_encode_uint ebg #
             (case bh_parent_beacon_block_root h of None \<Rightarrow> [] | Some pbbr \<Rightarrow> [rlp_encode_bytes pbbr])))))"

definition block_header_rlp :: "block_header \<Rightarrow> u8 list" where
  "block_header_rlp h = rlp_encode_list
     ([rlp_encode_bytes (bh_parent_hash h), rlp_encode_bytes (bh_ommers_hash h),
       rlp_encode_bytes (bh_beneficiary h), rlp_encode_bytes (bh_state_root h),
       rlp_encode_bytes (bh_transactions_root h), rlp_encode_bytes (bh_receipts_root h),
       rlp_encode_bytes (bh_logs_bloom h), rlp_encode_u256 (bh_difficulty h),
       rlp_encode_uint (bh_number h), rlp_encode_uint (bh_gas_limit h), rlp_encode_uint (bh_gas_used h),
       rlp_encode_uint (bh_timestamp h), rlp_encode_bytes (bh_extra_data h),
       rlp_encode_bytes (bh_mix_hash h), rlp_encode_bytes (bh_nonce h)] @ fork_fields h)"

definition block_header_hash :: "block_header \<Rightarrow> hash32" where
  "block_header_hash h = keccak256 (block_header_rlp h)"

definition empty_list_hash :: hash32 where
  "empty_list_hash = keccak256 [0xC0]"


section \<open>Injective encodings\<close>

lemma rlp_of_item_inj:
  assumes "length (rlp_of_item x) < 2 ^ 64" and "rlp_of_item x = rlp_of_item y"
  shows "x = y"
  using assms rlp_item_roundtrip [of x "[]"] rlp_item_roundtrip [of y "[]"] by simp

lemma minimal_be_inj [simp]: "minimal_be n = minimal_be m \<longleftrightarrow> n = m"
  by (metis be_nat_minimal_be word_unat_eq_iff)

definition strip_zeros :: "u8 list \<Rightarrow> u8 list" where
  "strip_zeros bs = dropWhile (\<lambda>b. b = 0) bs"

lemma strip_zeros_inj: "length bs = length cs \<Longrightarrow> strip_zeros bs = strip_zeros cs \<longleftrightarrow> bs = cs"
  by (metis be_nat_dropWhile be_nat_inj strip_zeros_def)

lemma rlp_encode_list_first: "rlp_encode_list encs = t # ts \<Longrightarrow> 0xC0 \<le> t"
proof (cases encs rule: rlp_encode_list_cases)
  case short
  moreover assume "rlp_encode_list encs = t # ts"
  ultimately show ?thesis by (auto simp: word_le_nat_alt unat_tag)
next
  case long
  moreover assume "rlp_encode_list encs = t # ts"
  ultimately show ?thesis
    using length_minimal_be [of "of_nat (length (concat encs))"] by (auto simp: word_le_nat_alt unat_tag)
qed

text \<open>The stand-alone integer encoder of the withdrawal path agrees with the RLP module on every value.\<close>

lemma rlp_encode_u64_eq: "rlp_encode_u64 v = rlp_encode_uint v"
proof -
  define sig where "sig = dropWhile (\<lambda>b. b = 0) (to_be_bytes v)"
  have be: "be_nat sig = unat v" by (simp add: sig_def)
  have len: "length sig \<le> 8"
    using length_dropWhile_le [of "\<lambda>b. b = 0" "to_be_bytes v"] by (simp add: sig_def)
  consider "v = 0" | "v \<noteq> 0" "v < 0x80" | "\<not> v < 0x80" by blast
  then show ?thesis
  proof cases
    case 2
    have "sig = [ucast v]"
    proof (rule be_nat_minimal_inj)
      have "unat v < 128" using 2 by (simp add: word_less_nat_alt)
      then have "unat (ucast v :: u8) = unat v" by (simp add: unsigned_ucast_eq take_bit_eq_mod)
      then show "be_nat sig = be_nat [ucast v]" and "[ucast v] = [] \<or> hd [ucast v :: u8] \<noteq> 0"
        using be 2 by (auto simp: be_nat_Cons unat_eq_zero)
      show "sig = [] \<or> hd sig \<noteq> 0" using hd_minimal_be [of v] 2 by (auto simp: sig_def minimal_be_def)
    qed
    moreover have "(ucast v :: u8) < 0x80"
      using 2 by (simp add: word_less_nat_alt unsigned_ucast_eq take_bit_eq_mod)
    ultimately show ?thesis
      using 2 by (simp add: rlp_encode_u64_def rlp_encode_uint_def minimal_be_def sig_def rlp_encode_bytes_def)
  next
    case 3
    have "\<not> (length sig = 1 \<and> sig ! 0 < 0x80)"
    proof
      assume "length sig = 1 \<and> sig ! 0 < 0x80"
      then obtain b where "sig = [b]" "b < 0x80" by (cases sig) auto
      with be 3 show False by (simp add: be_nat_Cons word_less_nat_alt)
    qed
    with 3 len show ?thesis
      by (auto simp: rlp_encode_u64_def rlp_encode_uint_def minimal_be_def sig_def [symmetric] rlp_encode_bytes_def)
  qed (simp add: rlp_encode_u64_def rlp_encode_uint_def minimal_be_def rlp_encode_bytes_def)
qed


lemmas rlp_encode_item = rlp_encode_uint_def rlp_encode_u256_def strip_zeros_def rlp_encode_u64_eq

section \<open>Committed objects\<close>

text \<open>
  What the hashes and tries of a block need of the encoding of an object: it is injective on
  well-formed objects, and short enough for a trie node that holds it to fit into memory.
\<close>

locale committed =
  fixes encode :: "'a \<Rightarrow> u8 list" and wf :: "'a \<Rightarrow> bool"
  assumes encode_inj: "wf x \<Longrightarrow> wf y \<Longrightarrow> encode x = encode y \<Longrightarrow> x = y"
    and encode_bounded: "wf x \<Longrightarrow> length (encode x) < 2 ^ 63"
begin

lemma hash_binds:
  assumes "wf x" and "wf y" and "inj_on keccak256 {encode x, encode y}"
    and "keccak256 (encode x) = keccak256 (encode y)"
  shows "x = y"
proof (rule encode_inj [OF assms(1,2)])
  show "encode x = encode y" using assms(3,4) by (auto dest: inj_onD)
qed

lemma inclusion_binds:
  assumes "wf x" and "wf y" and "inj_on keccak256 (set p \<union> set q)"
    and "inclusion_result (verify_mpt_inclusion root key (encode x) p) = Ok ()"
    and "inclusion_result (verify_mpt_inclusion root key (encode y) q) = Ok ()"
  shows "x = y"
proof (rule encode_inj [OF assms(1,2)])
  show "encode x = encode y"
    using assms(3-5) mpt_walk_unique
    by (auto simp: inclusion_result_def verify_mpt_inclusion_def split: option.splits if_splits)
qed

lemma single_leaf_included:
  assumes "wf x" and "length key < 2 ^ 32"
  shows "inclusion_result (verify_mpt_inclusion (fst (single_leaf_trie key (encode x))) key (encode x)
    (snd (single_leaf_trie key (encode x)))) = Ok ()"
proof -
  have pack: "length (pack_nibbles p) \<le> length p" for p by (induction p rule: pack_nibbles.induct) simp_all
  have nibs: "length (nibbles_from_bytes key) = 2 * length key"
    by (induction key) (simp_all add: nibbles_from_bytes_def)
  define hp where "hp = to_encoded_path (nibbles_from_bytes key) True"
  have "length hp \<le> 2 * length key + 1"
    using pack [of "nibbles_from_bytes key"] pack [of "drop 1 (nibbles_from_bytes key)"] nibs
    by (auto simp: hp_def to_encoded_path_def)
  then have "length (rlp_encode_list [rlp_encode_bytes hp, rlp_encode_bytes (encode x)]) < 2 ^ 64"
    using length_rlp_encode_list [of "[rlp_encode_bytes hp, rlp_encode_bytes (encode x)]"]
      length_rlp_encode_bytes [of hp] length_rlp_encode_bytes [of "encode x"] encode_bounded [OF assms(1)] assms(2)
    by simp
  then have "wf_node (mpt_node.Leaf (nibbles_from_bytes key) (encode x))"
    by (simp add: wf_node_def mpt_node_rlp_def hp_def nibbles_from_bytes_nibble)
  from verify_single_leaf [OF this] show ?thesis by (simp add: inclusion_result_def)
qed

end

lemma key_bound: "length (rlp_encode_uint n) < 2 ^ 32"
  using length_rlp_encode_bytes [of "minimal_be n"] length_minimal_be [of n] by (simp add: rlp_encode_uint_def)

subsection \<open>Accounts and withdrawals\<close>

definition wf_account :: "account \<Rightarrow> bool" where
  "wf_account a \<longleftrightarrow> length (acc_balance a) = 32 \<and> length (acc_storage_root a) = 32 \<and> length (acc_code_hash a) = 32"

definition wf_withdrawal :: "withdrawal \<Rightarrow> bool" where
  "wf_withdrawal w \<longleftrightarrow> length (wd_address w) = 20"

definition account_item :: "account \<Rightarrow> rlp_item" where
  "account_item a = List [Bytes (minimal_be (acc_nonce a)), Bytes (strip_zeros (acc_balance a)),
     Bytes (acc_storage_root a), Bytes (acc_code_hash a)]"

definition withdrawal_item :: "withdrawal \<Rightarrow> rlp_item" where
  "withdrawal_item w = List [Bytes (minimal_be (wd_index w)), Bytes (minimal_be (wd_validator_index w)),
     Bytes (wd_address w), Bytes (minimal_be (wd_amount w))]"

lemma account_rlp_item: "account_rlp a = rlp_of_item (account_item a)"
  by (simp add: account_rlp_def account_item_def rlp_encode_item)

lemma withdrawal_rlp_item: "withdrawal_rlp w = rlp_of_item (withdrawal_item w)"
  by (simp add: withdrawal_rlp_def withdrawal_item_def rlp_encode_item)

text \<open>Upper bound of the length of an encoding.\<close>

fun item_bound :: "rlp_item \<Rightarrow> nat" where
  "item_bound (Bytes b) = length b + 9"
| "item_bound (List xs) = sum_list (map item_bound xs) + 9"

lemma length_rlp_of_item: "length (rlp_of_item x) \<le> item_bound x"
proof (induction x)
  case (List xs)
  then have "sum_list (map (length \<circ> rlp_of_item) xs) \<le> sum_list (map item_bound xs)"
    by (intro sum_list_mono) simp
  then show ?case using length_rlp_encode_list [of "map rlp_of_item xs"] by simp
qed (simp add: length_rlp_encode_bytes)

lemma length_strip_zeros: "length (strip_zeros bs) \<le> length bs"
  by (simp add: strip_zeros_def length_dropWhile_le)

lemma item_inj_bounded:
  assumes "item_bound x < 2 ^ 64" and "rlp_of_item x = rlp_of_item y"
  shows "x = y"
  using assms length_rlp_of_item [of x] by (intro rlp_of_item_inj) simp_all

lemma account_item_bound: "wf_account a \<Longrightarrow> item_bound (account_item a) < 2 ^ 63"
  using length_minimal_be [of "acc_nonce a"] length_strip_zeros [of "acc_balance a"]
  by (simp add: account_item_def wf_account_def)

lemma withdrawal_item_bound: "wf_withdrawal w \<Longrightarrow> item_bound (withdrawal_item w) < 2 ^ 63"
  using length_minimal_be [of "wd_index w"] length_minimal_be [of "wd_validator_index w"] length_minimal_be [of "wd_amount w"]
  by (simp add: withdrawal_item_def wf_withdrawal_def)

interpretation account_enc: committed account_rlp wf_account
proof
  fix a b :: account
  show "length (account_rlp a) < 2 ^ 63" if "wf_account a" for a
    using account_item_bound [OF that] length_rlp_of_item [of "account_item a"] by (simp add: account_rlp_item)
  assume wf: "wf_account a" "wf_account b" and e: "account_rlp a = account_rlp b"
  have "account_item a = account_item b"
    using account_item_bound [OF wf(1)] e by (intro item_inj_bounded) (simp_all add: account_rlp_item)
  with wf show "a = b"
    by (simp add: account_item_def wf_account_def strip_zeros_inj account.equality)
qed

interpretation withdrawal_enc: committed withdrawal_rlp wf_withdrawal
proof
  fix w u :: withdrawal
  show "length (withdrawal_rlp w) < 2 ^ 63" if "wf_withdrawal w" for w
    using withdrawal_item_bound [OF that] length_rlp_of_item [of "withdrawal_item w"] by (simp add: withdrawal_rlp_item)
  assume "wf_withdrawal w" and e: "withdrawal_rlp w = withdrawal_rlp u"
  then have "withdrawal_item w = withdrawal_item u"
    using withdrawal_item_bound [of w] by (intro item_inj_bounded) (simp_all add: withdrawal_rlp_item)
  then show "w = u" by (simp add: withdrawal_item_def withdrawal.equality)
qed


subsection \<open>Transactions\<close>

definition wf_to :: "u8 list option \<Rightarrow> bool" where
  "wf_to to = (case to of None \<Rightarrow> True | Some a \<Rightarrow> length a = 20)"

lemma opt_to_inj: "wf_to a \<Longrightarrow> wf_to b \<Longrightarrow> opt_bytes a = opt_bytes b \<longleftrightarrow> a = b"
  by (auto simp: wf_to_def split: option.splits)

lemma opt_to_length: "wf_to a \<Longrightarrow> length (opt_bytes a) \<le> 20"
  by (auto simp: wf_to_def split: option.splits)

definition wf_legacy :: "legacy_tx \<Rightarrow> bool" where
  "wf_legacy tx \<longleftrightarrow> length (ltx_gas_price tx) = 32 \<and> wf_to (ltx_to tx) \<and> length (ltx_value tx) = 32 \<and>
     length (ltx_r tx) = 32 \<and> length (ltx_s tx) = 32 \<and> length (ltx_data tx) < 2 ^ 60"

definition legacy_item :: "legacy_tx \<Rightarrow> rlp_item" where
  "legacy_item tx = List [Bytes (minimal_be (ltx_nonce tx)), Bytes (strip_zeros (ltx_gas_price tx)),
     Bytes (minimal_be (ltx_gas_limit tx)), Bytes (opt_bytes (ltx_to tx)), Bytes (strip_zeros (ltx_value tx)),
     Bytes (ltx_data tx), Bytes (minimal_be (ltx_v tx)), Bytes (strip_zeros (ltx_r tx)), Bytes (strip_zeros (ltx_s tx))]"

text \<open>The access list is kept already encoded; it has to be the encoding of one item.\<close>

definition access_item :: "u8 list \<Rightarrow> rlp_item" where
  "access_item bs = (case rlp_decode bs of Some (Inr (x, n)) \<Rightarrow> x | _ \<Rightarrow> List [])"

definition wf_eip1559 :: "eip1559_tx \<Rightarrow> bool" where
  "wf_eip1559 tx \<longleftrightarrow> length (tx2_max_priority_fee_per_gas tx) = 32 \<and> length (tx2_max_fee_per_gas tx) = 32 \<and>
     wf_to (tx2_to tx) \<and> length (tx2_value tx) = 32 \<and> length (tx2_r tx) = 32 \<and> length (tx2_s tx) = 32 \<and>
     rlp_of_item (access_item (tx2_access_list_rlp tx)) = tx2_access_list_rlp tx \<and>
     length (tx2_data tx) < 2 ^ 60 \<and> length (tx2_access_list_rlp tx) < 2 ^ 60"

definition eip1559_item :: "eip1559_tx \<Rightarrow> rlp_item" where
  "eip1559_item tx = List [Bytes (minimal_be (tx2_chain_id tx)), Bytes (minimal_be (tx2_nonce tx)),
     Bytes (strip_zeros (tx2_max_priority_fee_per_gas tx)), Bytes (strip_zeros (tx2_max_fee_per_gas tx)),
     Bytes (minimal_be (tx2_gas_limit tx)), Bytes (opt_bytes (tx2_to tx)), Bytes (strip_zeros (tx2_value tx)),
     Bytes (tx2_data tx), access_item (tx2_access_list_rlp tx), Bytes (minimal_be (tx2_y_parity tx)),
     Bytes (strip_zeros (tx2_r tx)), Bytes (strip_zeros (tx2_s tx))]"

definition wf_tx :: "transaction \<Rightarrow> bool" where
  "wf_tx tx = (case tx of Legacy t \<Rightarrow> wf_legacy t | Eip1559 t \<Rightarrow> wf_eip1559 t)"

lemma legacy_rlp_item: "legacy_tx_rlp tx = rlp_of_item (legacy_item tx)"
  by (simp add: legacy_tx_rlp_def legacy_item_def rlp_encode_item)

lemma eip1559_rlp_item: "wf_eip1559 tx \<Longrightarrow> eip1559_rlp_body tx = rlp_of_item (eip1559_item tx)"
  by (simp add: eip1559_rlp_body_def eip1559_item_def wf_eip1559_def rlp_encode_item)

lemma legacy_length: "wf_legacy tx \<Longrightarrow> length (rlp_of_item (legacy_item tx)) < 2 ^ 62"
  using length_minimal_be [of "ltx_nonce tx"] length_minimal_be [of "ltx_gas_limit tx"] length_minimal_be [of "ltx_v tx"]
    length_strip_zeros [of "ltx_gas_price tx"] length_strip_zeros [of "ltx_value tx"] length_strip_zeros [of "ltx_r tx"]
    length_strip_zeros [of "ltx_s tx"] opt_to_length [of "ltx_to tx"] length_rlp_of_item [of "legacy_item tx"]
  by (simp add: legacy_item_def wf_legacy_def)

lemma eip1559_length:
  assumes "wf_eip1559 tx"
  shows "length (eip1559_rlp_body tx) < 2 ^ 62"
proof -
  have u: "length (rlp_encode_uint n) \<le> 17" for n
    using length_rlp_encode_bytes [of "minimal_be n"] length_minimal_be [of n] by (simp add: rlp_encode_uint_def)
  have w: "length (rlp_encode_u256 b) \<le> length b + 9" for b
    using length_rlp_encode_bytes [of "strip_zeros b"] length_strip_zeros [of b] by (simp add: rlp_encode_item)
  have "length (eip1559_rlp_body tx) \<le> 9 + 4 * 17 + 5 * 41 + (20 + 9) + (length (tx2_data tx) + 9) + length (tx2_access_list_rlp tx)"
    using assms u [of "tx2_chain_id tx"] u [of "tx2_nonce tx"] u [of "tx2_gas_limit tx"] u [of "tx2_y_parity tx"]
      w [of "tx2_max_priority_fee_per_gas tx"] w [of "tx2_max_fee_per_gas tx"] w [of "tx2_value tx"]
      w [of "tx2_r tx"] w [of "tx2_s tx"] opt_to_length [of "tx2_to tx"]
      length_rlp_encode_bytes [of "opt_bytes (tx2_to tx)"] length_rlp_encode_bytes [of "tx2_data tx"]
    unfolding eip1559_rlp_body_def wf_eip1559_def by (intro order.trans [OF length_rlp_encode_list]) simp
  with assms show ?thesis by (simp add: wf_eip1559_def)
qed

lemma legacy_inj:
  assumes "wf_legacy t" "wf_legacy u" "legacy_tx_rlp t = legacy_tx_rlp u"
  shows "t = u"
proof -
  have "legacy_item t = legacy_item u"
    using assms legacy_length [of t] by (intro rlp_of_item_inj) (simp_all add: legacy_rlp_item)
  with assms(1,2) show ?thesis
    by (simp add: legacy_item_def wf_legacy_def strip_zeros_inj opt_to_inj legacy_tx.equality)
qed

lemma eip1559_inj:
  assumes "wf_eip1559 t" "wf_eip1559 u" "eip1559_rlp_body t = eip1559_rlp_body u"
  shows "t = u"
proof -
  have "eip1559_item t = eip1559_item u"
    using assms eip1559_length [of t] by (intro rlp_of_item_inj) (simp_all add: eip1559_rlp_item)
  moreover from this have "access_item (tx2_access_list_rlp t) = access_item (tx2_access_list_rlp u)"
    by (simp add: eip1559_item_def)
  then have "tx2_access_list_rlp t = tx2_access_list_rlp u"
    using assms(1,2) unfolding wf_eip1559_def by metis
  ultimately show ?thesis using assms(1,2)
    by (simp add: eip1559_item_def wf_eip1559_def strip_zeros_inj opt_to_inj eip1559_tx.equality)
qed

lemma type_byte_not_rlp: "t < 0xC0 \<Longrightarrow> rlp_encode_list encs \<noteq> t # xs"
  using rlp_encode_list_first [of encs t xs] by auto

lemma legacy_not_typed: "legacy_tx_rlp tx \<noteq> 2 # xs"
  unfolding legacy_tx_rlp_def by (rule type_byte_not_rlp) simp

interpretation tx_enc: committed tx_wire_encoding wf_tx
proof
  fix x y :: transaction
  show "length (tx_wire_encoding x) < 2 ^ 63" if "wf_tx x" for x
    using that legacy_length eip1559_length
    by (fastforce simp: wf_tx_def tx_wire_encoding_def eip1559_wire_def legacy_rlp_item split: transaction.splits)
  assume "wf_tx x" "wf_tx y" "tx_wire_encoding x = tx_wire_encoding y"
  then show "x = y"
    using legacy_inj eip1559_inj legacy_not_typed
    by (auto simp: wf_tx_def tx_wire_encoding_def eip1559_wire_def legacy_not_typed [symmetric] split: transaction.splits)
qed


subsection \<open>Receipts\<close>

definition wf_receipt :: "receipt \<Rightarrow> bool" where
  "wf_receipt r \<longleftrightarrow> length (rc_logs_bloom r) = 256 \<and> length (receipt_rlp_body r) < 2 ^ 62"

definition log_item :: "log \<Rightarrow> rlp_item" where
  "log_item l = List [Bytes (log_address l), List (map Bytes (log_topics l)), Bytes (log_data l)]"

definition receipt_item :: "receipt \<Rightarrow> rlp_item" where
  "receipt_item r = List [Bytes [rc_status r], Bytes (minimal_be (rc_cumulative_gas_used r)),
     Bytes (rc_logs_bloom r), List (map log_item (rc_logs r))]"

lemma log_rlp_item: "log_rlp = (\<lambda>l. rlp_of_item (log_item l))"
  by (simp add: log_rlp_def log_item_def comp_def fun_eq_iff)

lemma receipt_rlp_item: "receipt_rlp_body r = rlp_of_item (receipt_item r)"
  by (simp add: receipt_rlp_body_def receipt_item_def rlp_encode_item log_rlp_item comp_def)

lemma log_item_inj: "inj log_item"
  by (rule injI) (auto simp: log_item_def inj_map_eq_map inj_def intro!: log.equality)

lemma receipt_inj:
  assumes "wf_receipt r" "rc_ty r = rc_ty q" "receipt_rlp_body r = receipt_rlp_body q"
  shows "r = q"
proof -
  have "receipt_item r = receipt_item q"
    using assms by (intro rlp_of_item_inj) (simp_all add: receipt_rlp_item wf_receipt_def)
  with assms(2) show ?thesis
    by (simp add: receipt_item_def inj_map_eq_map [OF log_item_inj] receipt.equality)
qed

lemma receipt_type_byte_inj: "receipt_type_byte a = receipt_type_byte b \<Longrightarrow> a = b"
  by (cases a; cases b) (simp_all add: receipt_type_byte_def)

lemma receipt_type_byte_less: "receipt_type_byte a = Some t \<Longrightarrow> t < 0xC0"
  by (cases a) (auto simp: receipt_type_byte_def)

lemma receipt_wire_types:
  assumes "receipt_wire_encoding r = receipt_wire_encoding q"
  shows "rc_ty r = rc_ty q \<and> receipt_rlp_body r = receipt_rlp_body q"
proof -
  have n: "receipt_rlp_body r \<noteq> t # xs" if "receipt_type_byte a = Some t" for r a t xs
    unfolding receipt_rlp_body_def by (intro type_byte_not_rlp receipt_type_byte_less [OF that])
  have "receipt_type_byte (rc_ty r) = receipt_type_byte (rc_ty q) \<and> receipt_rlp_body r = receipt_rlp_body q"
    using assms n [of "rc_ty r"] n [of "rc_ty q"]
    by (auto simp: receipt_wire_encoding_def Let_def split: option.splits dest: sym)
  then show ?thesis using receipt_type_byte_inj by blast
qed

interpretation receipt_enc: committed receipt_wire_encoding wf_receipt
proof
  fix x y :: receipt
  show "length (receipt_wire_encoding x) < 2 ^ 63" if "wf_receipt x"
    using that by (auto simp: wf_receipt_def receipt_wire_encoding_def Let_def split: option.split)
  assume "wf_receipt x" "receipt_wire_encoding x = receipt_wire_encoding y"
  then show "x = y" using receipt_inj receipt_wire_types by blast
qed

subsection \<open>Block headers\<close>

text \<open>The optional fields are monotonic: once one is missing, so are the later ones.\<close>

definition fork_monotonic :: "block_header \<Rightarrow> bool" where
  "fork_monotonic h \<longleftrightarrow>
     (bh_base_fee_per_gas h = None \<longrightarrow> bh_withdrawals_root h = None) \<and>
     (bh_withdrawals_root h = None \<longrightarrow> bh_blob_gas_used h = None) \<and>
     (bh_blob_gas_used h = None \<longrightarrow> bh_excess_blob_gas h = None) \<and>
     (bh_excess_blob_gas h = None \<longrightarrow> bh_parent_beacon_block_root h = None)"

definition wf_header :: "block_header \<Rightarrow> bool" where
  "wf_header h \<longleftrightarrow> length (bh_difficulty h) = 32 \<and>
     (case bh_base_fee_per_gas h of None \<Rightarrow> True | Some b \<Rightarrow> length b = 32) \<and>
     fork_monotonic h \<and> length (block_header_rlp h) < 2 ^ 63"

definition fork_items :: "block_header \<Rightarrow> rlp_item list" where
  "fork_items h =
     (case bh_base_fee_per_gas h of None \<Rightarrow> [] | Some base_fee \<Rightarrow> Bytes (strip_zeros base_fee) #
       (case bh_withdrawals_root h of None \<Rightarrow> [] | Some wr \<Rightarrow> Bytes wr #
         (case bh_blob_gas_used h of None \<Rightarrow> [] | Some bgu \<Rightarrow> Bytes (minimal_be bgu) #
           (case bh_excess_blob_gas h of None \<Rightarrow> [] | Some ebg \<Rightarrow> Bytes (minimal_be ebg) #
             (case bh_parent_beacon_block_root h of None \<Rightarrow> [] | Some pbbr \<Rightarrow> [Bytes pbbr])))))"

definition header_item :: "block_header \<Rightarrow> rlp_item" where
  "header_item h = List
     ([Bytes (bh_parent_hash h), Bytes (bh_ommers_hash h), Bytes (bh_beneficiary h), Bytes (bh_state_root h),
       Bytes (bh_transactions_root h), Bytes (bh_receipts_root h), Bytes (bh_logs_bloom h),
       Bytes (strip_zeros (bh_difficulty h)), Bytes (minimal_be (bh_number h)), Bytes (minimal_be (bh_gas_limit h)),
       Bytes (minimal_be (bh_gas_used h)), Bytes (minimal_be (bh_timestamp h)), Bytes (bh_extra_data h),
       Bytes (bh_mix_hash h), Bytes (bh_nonce h)] @ fork_items h)"

lemma fork_fields_items: "fork_fields h = map rlp_of_item (fork_items h)"
  by (simp add: fork_fields_def fork_items_def rlp_encode_item split: option.split)

lemma header_rlp_item: "block_header_rlp h = rlp_of_item (header_item h)"
  by (simp add: block_header_rlp_def header_item_def fork_fields_items rlp_encode_item)

lemma fork_items_inj:
  assumes "wf_header h" "wf_header g" "fork_items h = fork_items g"
  shows "bh_base_fee_per_gas h = bh_base_fee_per_gas g \<and> bh_withdrawals_root h = bh_withdrawals_root g \<and>
    bh_blob_gas_used h = bh_blob_gas_used g \<and> bh_excess_blob_gas h = bh_excess_blob_gas g \<and>
    bh_parent_beacon_block_root h = bh_parent_beacon_block_root g"
  using assms unfolding wf_header_def fork_monotonic_def
  by (auto simp: fork_items_def strip_zeros_inj split: option.splits)

interpretation header_enc: committed block_header_rlp wf_header
proof
  fix h g :: block_header
  show "length (block_header_rlp h) < 2 ^ 63" if "wf_header h" using that by (simp add: wf_header_def)
  assume wf: "wf_header h" "wf_header g" and e: "block_header_rlp h = block_header_rlp g"
  have i: "header_item h = header_item g"
    using wf e by (intro rlp_of_item_inj) (simp_all add: header_rlp_item wf_header_def)
  moreover from i have "fork_items h = fork_items g" by (simp add: header_item_def)
  note fork_items_inj [OF wf this]
  ultimately show "h = g"
    using wf by (simp add: header_item_def wf_header_def strip_zeros_inj block_header.equality)
qed


section \<open>What a block commits to\<close>

text \<open>
  An inclusion proof determines the object it proves: under one state, transactions, receipts or
  withdrawals root, and for one address or index, at most one well-formed account, transaction,
  receipt or withdrawal is accepted, as long as the proof nodes do not collide under Keccak-256.
\<close>

theorem inclusion_determines_object:
  assumes "inj_on keccak256 (set p \<union> set q)"
  shows "(wf_account a \<and> wf_account b \<and> verify_account_inclusion_oracle root address a p = Ok () \<and>
      verify_account_inclusion_oracle root address b q = Ok () \<longrightarrow> a = b) \<and>
    (wf_tx x \<and> wf_tx y \<and> verify_tx_root_single root i x p = Ok () \<and>
      verify_tx_root_single root i y q = Ok () \<longrightarrow> x = y) \<and>
    (wf_receipt r \<and> wf_receipt s \<and> verify_receipts_root_single root i r p = Ok () \<and>
      verify_receipts_root_single root i s q = Ok () \<longrightarrow> r = s) \<and>
    (wf_withdrawal w \<and> wf_withdrawal u \<and> verify_withdrawal_inclusion root i w p = Ok () \<and>
      verify_withdrawal_inclusion root i u q = Ok () \<longrightarrow> w = u)"
proof (intro conjI impI; elim conjE)
  assume "wf_account a" "wf_account b" "verify_account_inclusion_oracle root address a p = Ok ()"
    "verify_account_inclusion_oracle root address b q = Ok ()"
  then show "a = b"
    unfolding verify_account_inclusion_oracle_def by (rule account_enc.inclusion_binds [OF _ _ assms])
next
  assume "wf_tx x" "wf_tx y" "verify_tx_root_single root i x p = Ok ()" "verify_tx_root_single root i y q = Ok ()"
  then show "x = y"
    unfolding verify_tx_root_single_def verify_transaction_inclusion_oracle_def
    by (rule tx_enc.inclusion_binds [OF _ _ assms])
next
  assume "wf_receipt r" "wf_receipt s" "verify_receipts_root_single root i r p = Ok ()" "verify_receipts_root_single root i s q = Ok ()"
  then show "r = s"
    unfolding verify_receipts_root_single_def verify_receipt_inclusion_oracle_def
    by (rule receipt_enc.inclusion_binds [OF _ _ assms])
next
  assume "wf_withdrawal w" "wf_withdrawal u" "verify_withdrawal_inclusion root i w p = Ok ()" "verify_withdrawal_inclusion root i u q = Ok ()"
  then show "w = u"
    unfolding verify_withdrawal_inclusion_def by (rule withdrawal_enc.inclusion_binds [OF _ _ assms])
qed

theorem inclusion_determines_object_witness:
  "\<exists>root w p. verify_withdrawal_inclusion root 3 w p = Ok () \<and>
     (\<forall>u. wf_withdrawal u \<and> verify_withdrawal_inclusion root 3 u p = Ok () \<longrightarrow> u = w)"
proof -
  define w where "w = \<lparr>wd_index = 7, wd_validator_index = 9, wd_address = replicate 20 1, wd_amount = 1000\<rparr>"
  define t where "t = compute_single_withdrawal_root 3 w"
  have wf: "wf_withdrawal w" by (simp add: w_def wf_withdrawal_def)
  have v: "verify_withdrawal_inclusion (fst t) 3 w (snd t) = Ok ()"
    using withdrawal_enc.single_leaf_included [OF wf key_bound]
    by (simp add: t_def verify_withdrawal_inclusion_def compute_single_withdrawal_root_def withdrawal_trie_key_def)
  have inj: "inj_on keccak256 (set (snd t) \<union> set (snd t))"
    by (simp add: t_def compute_single_withdrawal_root_def single_leaf_trie_def Let_def)
  show ?thesis using wf v inclusion_determines_object [OF inj] by blast
qed

text \<open>
  The roots computed for a single transaction, receipt or withdrawal come with a proof that the
  corresponding verifier accepts, and the one-leaf state trie of an account verifies.
\<close>

theorem single_leaf_roots_verify:
  "(wf_tx x \<longrightarrow> verify_tx_root_single (fst (compute_single_leaf_tx_root i x)) i x (snd (compute_single_leaf_tx_root i x)) = Ok ()) \<and>
   (wf_receipt r \<longrightarrow> verify_receipts_root_single (fst (compute_single_leaf_receipts_root i r)) i r (snd (compute_single_leaf_receipts_root i r)) = Ok ()) \<and>
   (wf_withdrawal w \<longrightarrow> verify_withdrawal_inclusion (fst (compute_single_withdrawal_root i w)) i w (snd (compute_single_withdrawal_root i w)) = Ok ()) \<and>
   (wf_account a \<longrightarrow> verify_account_inclusion_oracle (fst (single_leaf_trie (account_trie_key addr) (account_rlp a))) addr a
      (snd (single_leaf_trie (account_trie_key addr) (account_rlp a))) = Ok ())"
proof (intro conjI impI)
  assume "wf_tx x"
  from tx_enc.single_leaf_included [OF this key_bound]
  show "verify_tx_root_single (fst (compute_single_leaf_tx_root i x)) i x (snd (compute_single_leaf_tx_root i x)) = Ok ()"
    unfolding verify_tx_root_single_def verify_transaction_inclusion_oracle_def compute_single_leaf_tx_root_def tx_trie_key_def .
next
  assume "wf_receipt r"
  from receipt_enc.single_leaf_included [OF this key_bound]
  show "verify_receipts_root_single (fst (compute_single_leaf_receipts_root i r)) i r (snd (compute_single_leaf_receipts_root i r)) = Ok ()"
    unfolding verify_receipts_root_single_def verify_receipt_inclusion_oracle_def compute_single_leaf_receipts_root_def receipt_trie_key_def .
next
  assume "wf_withdrawal w"
  from withdrawal_enc.single_leaf_included [OF this key_bound]
  show "verify_withdrawal_inclusion (fst (compute_single_withdrawal_root i w)) i w (snd (compute_single_withdrawal_root i w)) = Ok ()"
    unfolding verify_withdrawal_inclusion_def compute_single_withdrawal_root_def withdrawal_trie_key_def .
next
  assume "wf_account a"
  moreover have "length (account_trie_key addr) < 2 ^ 32" by (simp add: account_trie_key_def)
  ultimately show "verify_account_inclusion_oracle (fst (single_leaf_trie (account_trie_key addr) (account_rlp a))) addr a
      (snd (single_leaf_trie (account_trie_key addr) (account_rlp a))) = Ok ()"
    unfolding verify_account_inclusion_oracle_def by (rule account_enc.single_leaf_included)
qed

lemma wf_account_default: "wf_account account_default"
  by (simp add: wf_account_def account_default_def empty_storage_root_def empty_code_hash_def)

theorem single_leaf_roots_verify_witness:
  "verify_account_inclusion_oracle (fst (single_leaf_trie (account_trie_key (replicate 20 5)) (account_rlp account_default)))
     (replicate 20 5) account_default (snd (single_leaf_trie (account_trie_key (replicate 20 5)) (account_rlp account_default))) = Ok ()"
  using single_leaf_roots_verify wf_account_default by blast

text \<open>
  C11. A block hash determines the block header, and through it the account state: two headers with
  the same hash are equal, and accounts proved under their state roots for the same address agree,
  barring collisions of Keccak-256 among the two header encodings and the proof nodes.
\<close>

theorem block_hash_determines_account:
  assumes "wf_header h" and "wf_header g" and "block_header_hash h = block_header_hash g"
    and "inj_on keccak256 ({block_header_rlp h, block_header_rlp g} \<union> set p \<union> set q)"
    and "wf_account a" and "wf_account b"
    and "verify_account_inclusion_oracle (bh_state_root h) address a p = Ok ()"
    and "verify_account_inclusion_oracle (bh_state_root g) address b q = Ok ()"
  shows "h = g \<and> a = b"
proof -
  have "inj_on keccak256 {block_header_rlp h, block_header_rlp g}" and inj: "inj_on keccak256 (set p \<union> set q)"
    using assms(4) by (auto intro: inj_on_subset)
  with assms(1-3) have "h = g" by (intro header_enc.hash_binds) (simp_all add: block_header_hash_def)
  with assms(5-8) inj show ?thesis
    unfolding verify_account_inclusion_oracle_def using account_enc.inclusion_binds [OF _ _ inj] by blast
qed

lemma wf_header_example:
  assumes "length r = 32"
  shows "wf_header (block_header_default\<lparr>bh_state_root := r\<rparr>)"
proof -
  define h where "h = block_header_default\<lparr>bh_state_root := r\<rparr>"
  have "item_bound (header_item h) < 2 ^ 63"
    using assms by (simp add: h_def header_item_def block_header_default_def fork_items_def strip_zeros_def minimal_be_def)
  then have "length (block_header_rlp h) < 2 ^ 63"
    using length_rlp_of_item [of "header_item h"] by (simp add: header_rlp_item)
  then show ?thesis
    unfolding h_def [symmetric] by (simp add: wf_header_def fork_monotonic_def) (simp add: h_def block_header_default_def)
qed

theorem block_hash_determines_account_witness:
  "\<exists>root p. verify_account_inclusion_oracle root (replicate 20 5) account_default p = Ok () \<and>
     wf_header (block_header_default\<lparr>bh_state_root := root\<rparr>) \<and>
     (\<forall>a. wf_account a \<and> verify_account_inclusion_oracle root (replicate 20 5) a p = Ok () \<and>
        inj_on keccak256 ({block_header_rlp (block_header_default\<lparr>bh_state_root := root\<rparr>)} \<union> set p) \<longrightarrow> a = account_default)"
proof -
  define t where "t = single_leaf_trie (account_trie_key (replicate 20 5)) (account_rlp account_default)"
  define h where "h = block_header_default\<lparr>bh_state_root := fst t\<rparr>"
  have k: "length (account_trie_key (replicate 20 5)) < 2 ^ 32" by (simp add: account_trie_key_def)
  have v: "verify_account_inclusion_oracle (fst t) (replicate 20 5) account_default (snd t) = Ok ()"
    unfolding t_def verify_account_inclusion_oracle_def using wf_account_default k by (rule account_enc.single_leaf_included)
  have wf: "wf_header h" unfolding h_def by (rule wf_header_example) (simp add: t_def single_leaf_trie_def Let_def)
  have s: "bh_state_root h = fst t" by (simp add: h_def)
  have "a = account_default" if "wf_account a" "verify_account_inclusion_oracle (fst t) (replicate 20 5) a (snd t) = Ok ()"
    "inj_on keccak256 ({block_header_rlp h} \<union> set (snd t))" for a
    using block_hash_determines_account [OF wf wf refl _ that(1) wf_account_default, of "snd t" "snd t" "replicate 20 5"] that v
    by (simp add: s)
  then show ?thesis using v wf unfolding h_def by blast
qed

text \<open>
  The status byte of a receipt is encoded as a byte string. This is the canonical integer
  encoding, the one the receipt chain of the prover expects, exactly for a non-zero status: the receipt
  of a failed transaction is encoded differently.
\<close>

theorem receipt_status_encoding:
  assumes "wf_receipt r"
  shows "receipt_rlp_body r = rlp_encode_list
     [rlp_encode_u64 (ucast (rc_status r)), rlp_encode_uint (rc_cumulative_gas_used r),
      rlp_encode_bytes (rc_logs_bloom r), rlp_encode_list (map log_rlp (rc_logs r))] \<longleftrightarrow> rc_status r \<noteq> 0"
proof -
  have m: "minimal_be (ucast s) = [s] \<longleftrightarrow> s \<noteq> 0" for s :: u8
  proof (cases "s = 0")
    case False
    have "minimal_be (of_nat (be_nat [s])) = [s]"
      using False unat_byte_less [of s] by (intro minimal_be_unique) (simp_all add: be_nat_Cons)
    then show ?thesis using False by (simp add: be_nat_Cons)
  qed (simp add: minimal_be_def)
  define other where "other = List [Bytes (minimal_be (ucast (rc_status r))), Bytes (minimal_be (rc_cumulative_gas_used r)),
     Bytes (rc_logs_bloom r), List (map log_item (rc_logs r))]"
  have "rlp_encode_list [rlp_encode_u64 (ucast (rc_status r)), rlp_encode_uint (rc_cumulative_gas_used r),
      rlp_encode_bytes (rc_logs_bloom r), rlp_encode_list (map log_rlp (rc_logs r))] = rlp_of_item other"
    by (simp add: other_def rlp_encode_item log_rlp_item comp_def)
  moreover have "receipt_rlp_body r = rlp_of_item other \<longleftrightarrow> receipt_item r = other"
    using assms rlp_of_item_inj [of "receipt_item r" other] by (auto simp: wf_receipt_def receipt_rlp_item)
  ultimately show ?thesis using m [of "rc_status r"] by (auto simp: other_def receipt_item_def)
qed


theorem receipt_status_encoding_witness:
  "receipt_rlp_body \<lparr>rc_ty = RcLegacy, rc_status = 0, rc_cumulative_gas_used = 0, rc_logs_bloom = replicate 256 0, rc_logs = []\<rparr> \<noteq>
     rlp_encode_list [rlp_encode_u64 0, rlp_encode_uint 0, rlp_encode_bytes (replicate 256 0), rlp_encode_list []]"
proof -
  define r where "r = \<lparr>rc_ty = RcLegacy, rc_status = 0, rc_cumulative_gas_used = 0, rc_logs_bloom = replicate 256 0, rc_logs = []\<rparr>"
  have "item_bound (receipt_item r) < 2 ^ 62" by (simp add: r_def receipt_item_def minimal_be_def)
  then have "wf_receipt r"
    using length_rlp_of_item [of "receipt_item r"] by (simp add: wf_receipt_def receipt_rlp_item) (simp add: r_def)
  from receipt_status_encoding [OF this] show ?thesis by (simp add: r_def)
qed

end
