(* ===== verification/Zkp_Sha256.thy ===== *)
theory Zkp_Sha256
  imports Zkp_Bytes
begin

text \<open>
  SHA-256 of \<^verbatim>\<open>crates/zkp/src/sha256.rs\<close>: the compression function, the hash with its padding of the
  last one or two blocks, and the round and block traces for the arithmetisation. The results are
  that the hash is the Merkle-Damgard iteration over the padded message and that the traces replay it.

  The eight words of a chaining state are a tuple \<open>(a, ..., h)\<close>.
\<close>

section \<open>Compression function\<close>

type_synonym sha_state = "u32 \<times> u32 \<times> u32 \<times> u32 \<times> u32 \<times> u32 \<times> u32 \<times> u32"

abbreviation NUM_SHA_ROUNDS :: nat where
  "NUM_SHA_ROUNDS \<equiv> 64"

definition INITIAL_HASH :: sha_state where
  "INITIAL_HASH = (0x6a09e667, 0xbb67ae85, 0x3c6ef372, 0xa54ff53a, 0x510e527f, 0x9b05688c, 0x1f83d9ab, 0x5be0cd19)"

definition sha_round_constants :: "u32 list" where
  "sha_round_constants = concat
     [[0x428a2f98, 0x71374491, 0xb5c0fbcf, 0xe9b5dba5],
      [0x3956c25b, 0x59f111f1, 0x923f82a4, 0xab1c5ed5],
      [0xd807aa98, 0x12835b01, 0x243185be, 0x550c7dc3],
      [0x72be5d74, 0x80deb1fe, 0x9bdc06a7, 0xc19bf174],
      [0xe49b69c1, 0xefbe4786, 0x0fc19dc6, 0x240ca1cc],
      [0x2de92c6f, 0x4a7484aa, 0x5cb0a9dc, 0x76f988da],
      [0x983e5152, 0xa831c66d, 0xb00327c8, 0xbf597fc7],
      [0xc6e00bf3, 0xd5a79147, 0x06ca6351, 0x14292967],
      [0x27b70a85, 0x2e1b2138, 0x4d2c6dfc, 0x53380d13],
      [0x650a7354, 0x766a0abb, 0x81c2c92e, 0x92722c85],
      [0xa2bfe8a1, 0xa81a664b, 0xc24b8b70, 0xc76c51a3],
      [0xd192e819, 0xd6990624, 0xf40e3585, 0x106aa070],
      [0x19a4c116, 0x1e376c08, 0x2748774c, 0x34b0bcb5],
      [0x391c0cb3, 0x4ed8aa4a, 0x5b9cca4f, 0x682e6ff3],
      [0x748f82ee, 0x78a5636f, 0x84c87814, 0x8cc70208],
      [0x90befffa, 0xa4506ceb, 0xbef9a3f7, 0xc67178f2]]"

definition ch :: "u32 \<Rightarrow> u32 \<Rightarrow> u32 \<Rightarrow> u32" where
  "ch x y z = (x AND y) XOR (NOT x AND z)"

definition maj :: "u32 \<Rightarrow> u32 \<Rightarrow> u32 \<Rightarrow> u32" where
  "maj x y z = (x AND y) XOR (x AND z) XOR (y AND z)"

definition big_sigma0 :: "u32 \<Rightarrow> u32" where
  "big_sigma0 x = word_rotr 2 x XOR word_rotr 13 x XOR word_rotr 22 x"

definition big_sigma1 :: "u32 \<Rightarrow> u32" where
  "big_sigma1 x = word_rotr 6 x XOR word_rotr 11 x XOR word_rotr 25 x"

definition small_sigma0 :: "u32 \<Rightarrow> u32" where
  "small_sigma0 x = word_rotr 7 x XOR word_rotr 18 x XOR drop_bit 3 x"

definition small_sigma1 :: "u32 \<Rightarrow> u32" where
  "small_sigma1 x = word_rotr 17 x XOR word_rotr 19 x XOR drop_bit 10 x"

text \<open>\<open>u32::from_be_bytes\<close> and \<open>u32::to_be_bytes\<close>.\<close>

definition u32_from_be_bytes :: "u8 list \<Rightarrow> u32" where
  "u32_from_be_bytes bs = from_le_bytes (rev bs)"

definition u32_to_be_bytes :: "u32 \<Rightarrow> u8 list" where
  "u32_to_be_bytes w = rev (to_le_bytes 4 w)"

text \<open>The words of the schedule are filled in one by one.\<close>

definition message_schedule :: "u8 list \<Rightarrow> u32 list" where
  "message_schedule block =
     foldl (\<lambda>w t. w @ [small_sigma1 (w ! (t - 2)) + w ! (t - 7) + small_sigma0 (w ! (t - 15)) + w ! (t - 16)])
       (map (\<lambda>i. u32_from_be_bytes (take 4 (drop (i * 4) block))) [0..<16]) [16..<NUM_SHA_ROUNDS]"

definition sha_round :: "u32 list \<Rightarrow> sha_state \<Rightarrow> nat \<Rightarrow> sha_state" where
  "sha_round w vars t = (case vars of (a, b, c, d, e, f, g, h) \<Rightarrow>
     let t1 = h + big_sigma1 e + ch e f g + sha_round_constants ! t + w ! t;
         t2 = big_sigma0 a + maj a b c
     in (t1 + t2, a, b, c, d + t1, e, f, g))"

definition sha_add :: "sha_state \<Rightarrow> sha_state \<Rightarrow> sha_state" where
  "sha_add x y = (case (x, y) of ((a, b, c, d, e, f, g, h), (a', b', c', d', e', f', g', h')) \<Rightarrow>
     (a + a', b + b', c + c', d + d', e + e', f + f', g + g', h + h'))"

definition sha256_compress :: "sha_state \<Rightarrow> u8 list \<Rightarrow> sha_state" where
  "sha256_compress state block =
     (let w = message_schedule block
      in sha_add state (foldl (sha_round w) state [0..<NUM_SHA_ROUNDS]))"

section \<open>The hash\<close>

function sha_absorb_full :: "sha_state \<Rightarrow> u8 list \<Rightarrow> sha_state \<times> u8 list" where
  "sha_absorb_full state input =
     (if 64 \<le> length input then sha_absorb_full (sha256_compress state (take 64 input)) (drop 64 input)
      else (state, input))"
  by pat_completeness auto
termination by (relation "measure (\<lambda>(s, input). length input)") auto

declare sha_absorb_full.simps [simp del]

text \<open>The padded tail: an array of 128 zero bytes of which one or two blocks are used.\<close>

definition sha_tail_blocks :: "nat \<Rightarrow> u8 list \<Rightarrow> u8 list list" where
  "sha_tail_blocks input_len remaining =
     (let bit_len = of_nat input_len * 8 :: u64;
          tail = remaining @ [0x80] @ replicate (127 - length remaining) 0;
          pad_to_blocks = (if length remaining + 1 + 8 \<le> 64 then 1 else 2);
          total = pad_to_blocks * 64;
          tail = take (total - 8) tail @ to_be_bytes bit_len @ drop total tail
      in map (\<lambda>i. take 64 (drop (i * 64) tail)) [0..<pad_to_blocks])"

definition sha_digest :: "sha_state \<Rightarrow> u8 list" where
  "sha_digest state = (case state of (a, b, c, d, e, f, g, h) \<Rightarrow>
     concat (map u32_to_be_bytes [a, b, c, d, e, f, g, h]))"

definition sha256 :: "u8 list \<Rightarrow> u8 list" where
  "sha256 input =
     (case sha_absorb_full INITIAL_HASH input of (state, remaining) \<Rightarrow>
        sha_digest (foldl sha256_compress state (sha_tail_blocks (length input) remaining)))"

definition sha256_pair :: "u8 list \<Rightarrow> u8 list \<Rightarrow> u8 list" where
  "sha256_pair left right = sha256 (left @ right)"

section \<open>Traces\<close>

record sha_round_trace =
  st_round :: nat
  st_w :: u32
  st_k :: u32
  st_before :: sha_state
  st_big_sigma1_e :: u32
  st_ch_efg :: u32
  st_big_sigma0_a :: u32
  st_maj_abc :: u32
  st_t1 :: u32
  st_t2 :: u32
  st_after :: sha_state

definition sha_round_trace_of :: "u32 list \<Rightarrow> sha_state \<Rightarrow> nat \<Rightarrow> sha_round_trace" where
  "sha_round_trace_of w_sched vars t = (case vars of (a, b, c, d, e, f, g, h) \<Rightarrow>
     let big_sigma1_e = big_sigma1 e; ch_efg = ch e f g; big_sigma0_a = big_sigma0 a; maj_abc = maj a b c;
         t1 = h + big_sigma1_e + ch_efg + sha_round_constants ! t + w_sched ! t;
         t2 = big_sigma0_a + maj_abc;
         new_a = t1 + t2; new_e = d + t1
     in \<lparr>st_round = t, st_w = w_sched ! t, st_k = sha_round_constants ! t, st_before = vars,
         st_big_sigma1_e = big_sigma1_e, st_ch_efg = ch_efg, st_big_sigma0_a = big_sigma0_a,
         st_maj_abc = maj_abc, st_t1 = t1, st_t2 = t2, st_after = (new_a, a, b, c, new_e, e, f, g)\<rparr>)"

fun sha_round_traces :: "u32 list \<Rightarrow> sha_state \<Rightarrow> nat list \<Rightarrow> sha_round_trace list" where
  "sha_round_traces w vars [] = []"
| "sha_round_traces w vars (t # ts) =
     (let r = sha_round_trace_of w vars t in r # sha_round_traces w (st_after r) ts)"

definition sha256_compress_witness :: "sha_state \<Rightarrow> u8 list \<Rightarrow> sha_round_trace list" where
  "sha256_compress_witness state block = sha_round_traces (message_schedule block) state [0..<NUM_SHA_ROUNDS]"

record sha_block_trace =
  sb_block :: "u8 list"
  sb_state_in :: sha_state
  sb_state_out :: sha_state
  sb_rounds :: "sha_round_trace list"

record sha_hash_trace =
  sh_input_len :: nat
  sh_blocks :: "sha_block_trace list"
  sh_digest :: "u8 list"

definition sha_block_trace_of :: "sha_state \<Rightarrow> u8 list \<Rightarrow> sha_block_trace" where
  "sha_block_trace_of state block =
     \<lparr>sb_block = block, sb_state_in = state, sb_state_out = sha256_compress state block,
      sb_rounds = sha256_compress_witness state block\<rparr>"

fun sha_block_traces :: "sha_state \<Rightarrow> u8 list list \<Rightarrow> sha_block_trace list" where
  "sha_block_traces state [] = []"
| "sha_block_traces state (b # bs) =
     (let t = sha_block_trace_of state b in t # sha_block_traces (sb_state_out t) bs)"

text \<open>The loop over the full blocks: their traces, the state after them and the bytes that remain.\<close>

function sha_full_traces :: "sha_state \<Rightarrow> u8 list \<Rightarrow> sha_block_trace list \<times> sha_state \<times> u8 list" where
  "sha_full_traces state input =
     (if 64 \<le> length input
      then let t = sha_block_trace_of state (take 64 input)
           in case sha_full_traces (sb_state_out t) (drop 64 input) of (ts, rest) \<Rightarrow> (t # ts, rest)
      else ([], state, input))"
  by pat_completeness auto
termination by (relation "measure (\<lambda>(s, input). length input)") auto

declare sha_full_traces.simps [simp del]

definition sha256_witness :: "u8 list \<Rightarrow> sha_hash_trace" where
  "sha256_witness input =
     (case sha_full_traces INITIAL_HASH input of (full, state, remaining) \<Rightarrow>
        let tail_blocks = sha_tail_blocks (length input) remaining;
            blocks = full @ sha_block_traces state tail_blocks
        in \<lparr>sh_input_len = length input, sh_blocks = blocks,
            sh_digest = sha_digest (foldl sha256_compress state tail_blocks)\<rparr>)"

section \<open>Merkle-Damgard iteration\<close>

text \<open>The reference padding: \<^verbatim>\<open>0x80\<close>, zeros, and the length in bits as eight big-endian bytes.\<close>

definition sha_padding :: "nat \<Rightarrow> u8 list" where
  "sha_padding len = [0x80] @ replicate ((119 - len mod 64) mod 64) 0 @ to_be_bytes (of_nat len * 8)"

lemma sha_padding_length: "(len + length (sha_padding len)) mod 64 = 0"
proof -
  define r where "r = len mod 64"
  have "r < 64" by (simp add: r_def)
  then have "(r + 9 + (119 - r) mod 64) mod 64 = 0"
    by (cases "r \<le> 55") (simp_all add: le_mod_geq)
  then have "(len mod 64 + (9 + (119 - r) mod 64)) mod 64 = 0" by (simp add: r_def add.assoc)
  then show ?thesis by (simp only: mod_add_left_eq) (simp add: sha_padding_def r_def [symmetric] add.commute add.left_commute)
qed

lemma sha_tail_blocks_padding:
  assumes "length rem < 64" and "len mod 64 = length rem"
  shows "sha_tail_blocks len rem = chunks 64 (rem @ sha_padding len)"
proof (cases "length rem + 9 \<le> 64")
  case True
  have z: "(119 - len mod 64) mod 64 = 55 - length rem" using True assms by (simp add: le_mod_geq)
  have "chunks 64 (rem @ sha_padding len) = [rem @ sha_padding len]"
    using True by (intro chunks_single) (simp_all add: sha_padding_def z)
  moreover have "take 56 (rem @ 0x80 # replicate (127 - length rem) 0) = rem @ 0x80 # replicate (55 - length rem) (0 :: u8)"
    using True by (simp add: take_Cons' min_def)
  ultimately show ?thesis
    using True by (simp add: sha_tail_blocks_def sha_padding_def z)
next
  case False
  have z: "(119 - len mod 64) mod 64 = 119 - length rem" using False assms by simp
  define blk where "blk = rem @ sha_padding len"
  have l: "length blk = 128" using False assms by (simp add: blk_def sha_padding_def z)
  have "chunks 64 blk = [take 64 blk, drop 64 blk]"
    using l by (subst chunks.simps, simp, intro conjI) (auto intro!: chunks_single)
  moreover have tail: "take (2 * 64 - 8) (rem @ [0x80] @ replicate (127 - length rem) 0) @ to_be_bytes (of_nat len * 8) @
      drop (2 * 64) (rem @ [0x80] @ replicate (127 - length rem) 0) = blk"
    using False assms by (simp add: blk_def sha_padding_def z take_Cons' drop_Cons' min_def)
  have "\<not> length rem + 1 + 8 \<le> 64" using False by simp
  then have "sha_tail_blocks len rem = map (\<lambda>i. take 64 (drop (i * 64) blk)) [0..<2]"
    by (simp only: sha_tail_blocks_def Let_def if_False tail)
  ultimately show ?thesis using l by (simp add: upt_rec blk_def)
qed


lemma sha_absorb_full_iterate:
  "(case sha_absorb_full s input of (s', rem) \<Rightarrow> foldl sha256_compress s' (sha_tail_blocks len rem)) =
     foldl sha256_compress s (chunks 64 (input @ sha_padding len))" if "len mod 64 = length input mod 64"
  using that
proof (induction s input rule: sha_absorb_full.induct)
  case (1 s input)
  show ?case
  proof (cases "64 \<le> length input")
    case True
    then have "len mod 64 = length (drop 64 input) mod 64" using 1(2) by (simp add: le_mod_geq)
    with 1(1) True show ?thesis
      by (subst sha_absorb_full.simps) (simp add: chunks_step)
  next
    case False
    then show ?thesis
      using 1(2) by (subst sha_absorb_full.simps) (simp add: sha_tail_blocks_padding)
  qed
qed

lemma sha256_iterate: "sha256 input = sha_digest (foldl sha256_compress INITIAL_HASH (chunks 64 (input @ sha_padding (length input))))"
  using sha_absorb_full_iterate [of "length input" input INITIAL_HASH]
  by (cases "sha_absorb_full INITIAL_HASH input") (simp add: sha256_def)

section \<open>The traces replay the hash\<close>

lemma sha_round_trace_simps:
  "st_round (sha_round_trace_of w v t) = t" "st_before (sha_round_trace_of w v t) = v"
  "st_w (sha_round_trace_of w v t) = w ! t" "st_k (sha_round_trace_of w v t) = sha_round_constants ! t"
  "st_after (sha_round_trace_of w v t) = sha_round w v t"
  by (simp_all add: sha_round_trace_of_def sha_round_def Let_def split: prod.splits)

text \<open>What the arithmetisation of a round constrains.\<close>

definition sha_round_ok :: "u32 list \<Rightarrow> sha_round_trace \<Rightarrow> bool" where
  "sha_round_ok w r \<longleftrightarrow> (case st_before r of (a, b, c, d, e, f, g, h) \<Rightarrow>
     st_w r = w ! st_round r \<and> st_k r = sha_round_constants ! st_round r \<and>
     st_t1 r = h + st_big_sigma1_e r + st_ch_efg r + st_k r + st_w r \<and>
     st_t2 r = st_big_sigma0_a r + st_maj_abc r \<and>
     st_big_sigma1_e r = big_sigma1 e \<and> st_ch_efg r = ch e f g \<and>
     st_big_sigma0_a r = big_sigma0 a \<and> st_maj_abc r = maj a b c \<and>
     st_after r = (st_t1 r + st_t2 r, a, b, c, d + st_t1 r, e, f, g))"

lemma sha_round_ok_trace: "sha_round_ok w (sha_round_trace_of w v t)"
  by (simp add: sha_round_ok_def sha_round_trace_of_def Let_def split: prod.splits)

definition sha_block_ok :: "sha_block_trace \<Rightarrow> bool" where
  "sha_block_ok b \<longleftrightarrow> length (sb_block b) = 64 \<and>
     map st_round (sb_rounds b) = [0..<NUM_SHA_ROUNDS] \<and>
     list_all (sha_round_ok (message_schedule (sb_block b))) (sb_rounds b) \<and>
     st_before (hd (sb_rounds b)) = sb_state_in b \<and>
     successively (\<lambda>r s. st_before s = st_after r) (sb_rounds b) \<and>
     sb_state_out b = sha_add (sb_state_in b) (st_after (last (sb_rounds b)))"

lemma sha_round_traces_ok:
  "map st_round (sha_round_traces w v ts) = ts" "list_all (sha_round_ok w) (sha_round_traces w v ts)"
  "successively (\<lambda>r s. st_before s = st_after r) (sha_round_traces w v ts)"
  "ts \<noteq> [] \<Longrightarrow> st_before (hd (sha_round_traces w v ts)) = v"
  "ts \<noteq> [] \<Longrightarrow> st_after (last (sha_round_traces w v ts)) = foldl (sha_round w) v ts"
proof (induction ts arbitrary: v)
  case (Cons t ts)
  { case 1 show ?case using Cons.IH(1) by (simp add: Let_def sha_round_trace_simps) }
  { case 2 show ?case using Cons.IH(2) by (simp add: Let_def sha_round_ok_trace) }
  { case 3 show ?case using Cons.IH(3,4) by (cases ts) (simp_all add: Let_def sha_round_trace_simps) }
  { case 4 show ?case by (simp add: Let_def sha_round_trace_simps) }
  { case 5 show ?case using Cons.IH(5) by (cases ts) (simp_all add: Let_def sha_round_trace_simps) }
qed simp_all

lemma sha_block_ok_trace: "length b = 64 \<Longrightarrow> sha_block_ok (sha_block_trace_of s b)"
  using sha_round_traces_ok [where w = "message_schedule b" and v = s and ts = "[0..<NUM_SHA_ROUNDS]"]
  by (simp add: sha_block_ok_def sha_block_trace_of_def sha256_compress_witness_def sha256_compress_def Let_def)

lemma sha_block_traces_ok:
  "list_all (\<lambda>b. length b = 64) bs \<Longrightarrow> list_all sha_block_ok (sha_block_traces s bs)"
  "map sb_block (sha_block_traces s bs) = bs"
  "successively (\<lambda>b c. sb_state_in c = sb_state_out b) (sha_block_traces s bs)"
  "bs \<noteq> [] \<Longrightarrow> sb_state_in (hd (sha_block_traces s bs)) = s"
proof (induction bs arbitrary: s)
  case (Cons b bs)
  { case 1 then show ?case using Cons.IH(1) by (simp add: Let_def sha_block_ok_trace) }
  { case 2 show ?case using Cons.IH(2) by (simp add: Let_def sha_block_trace_of_def) }
  { case 3 show ?case using Cons.IH(3,4) by (cases bs) (simp_all add: Let_def sha_block_trace_of_def) }
  { case 4 show ?case by (simp add: Let_def sha_block_trace_of_def) }
qed simp_all

lemma sha_full_traces_absorb: "snd (sha_full_traces s input) = sha_absorb_full s input"
proof (induction s input rule: sha_full_traces.induct)
  case (1 s input)
  then show ?case
    by (subst sha_full_traces.simps, subst sha_absorb_full.simps)
      (auto simp: Let_def sha_block_trace_of_def split: prod.splits)
qed

lemma sha_full_traces_blocks:
  assumes "len mod 64 = length input mod 64"
  shows "(case sha_full_traces s input of (ts, s', rem) \<Rightarrow> ts @ sha_block_traces s' (sha_tail_blocks len rem)) =
     sha_block_traces s (chunks 64 (input @ sha_padding len))"
  using assms
proof (induction s input rule: sha_full_traces.induct)
  case (1 s input)
  show ?case
  proof (cases "64 \<le> length input")
    case True
    then have "len mod 64 = length (drop 64 input) mod 64" using 1(2) by (simp add: le_mod_geq)
    from 1(1) [OF True refl this] True show ?thesis
      by (subst sha_full_traces.simps)
        (cases "sha_full_traces (sb_state_out (sha_block_trace_of s (take 64 input))) (drop 64 input)", simp add: chunks_step Let_def)
  next
    case False
    then show ?thesis
      using 1(2) by (subst sha_full_traces.simps) (simp add: sha_tail_blocks_padding)
  qed
qed

lemma sha256_witness_eq:
  "sha256_witness input = \<lparr>sh_input_len = length input,
     sh_blocks = sha_block_traces INITIAL_HASH (chunks 64 (input @ sha_padding (length input))),
     sh_digest = sha256 input\<rparr>"
  using sha_full_traces_blocks [of "length input" input INITIAL_HASH] sha_full_traces_absorb [of INITIAL_HASH input]
  by (cases "sha_full_traces INITIAL_HASH input") (auto simp: sha256_witness_def sha256_def Let_def split: prod.splits)

lemma chunks_exact: "length xs mod n = 0 \<Longrightarrow> list_all (\<lambda>b. length b = n) (chunks n xs)"
proof (induction n xs rule: chunks.induct)
  case (1 n xs)
  show ?case
  proof (cases "n = 0 \<or> xs = []")
    case False
    then have "n \<le> length xs" using 1(2) by (metis length_0_conv mod_less not_le)
    with 1 False show ?thesis by (subst chunks.simps) (simp add: le_mod_geq)
  qed (subst chunks.simps, simp)
qed

text \<open>
  SHA-256 is the iteration of the compression function over the 64-byte blocks of the padded
  message, for every message length, whether the padding takes one block or two. The trace recorded
  for the prover has the same digest; its blocks spell the padded message, chain from the initial
  value, and each has 64 chained rounds that satisfy the round equations and end in its output.
\<close>

theorem sha256_witness_replays:
  "sha256 input = sha_digest (foldl sha256_compress INITIAL_HASH (chunks 64 (input @ sha_padding (length input)))) \<and>
   (length input + length (sha_padding (length input))) mod 64 = 0 \<and>
   sh_digest (sha256_witness input) = sha256 input \<and> sh_input_len (sha256_witness input) = length input \<and>
   concat (map sb_block (sh_blocks (sha256_witness input))) = input @ sha_padding (length input) \<and>
   sb_state_in (hd (sh_blocks (sha256_witness input))) = INITIAL_HASH \<and>
   successively (\<lambda>b c. sb_state_in c = sb_state_out b) (sh_blocks (sha256_witness input)) \<and>
   list_all sha_block_ok (sh_blocks (sha256_witness input))"
proof -
  define bs where "bs = chunks 64 (input @ sha_padding (length input))"
  have c: "concat bs = input @ sha_padding (length input)" by (simp add: bs_def concat_chunks)
  then have "bs \<noteq> []" by (auto simp: sha_padding_def)
  moreover have "list_all (\<lambda>b. length b = 64) bs"
    unfolding bs_def by (rule chunks_exact) (simp add: sha_padding_length)
  ultimately show ?thesis
    using c sha_block_traces_ok [where bs = bs and s = INITIAL_HASH] sha_padding_length
    by (simp add: sha256_witness_eq sha256_iterate bs_def [symmetric])
qed

lemma length_sha256 [simp]: "length (sha256 input) = 32"
  by (simp add: sha256_iterate sha_digest_def u32_to_be_bytes_def split: prod.split)

end
