(* ===== verification/Zkp_Ssz.thy ===== *)
theory Zkp_Ssz
  imports Zkp_Sha256
begin

text \<open>
  SSZ merkleization of \<^verbatim>\<open>crates/zkp/src/ssz.rs\<close>: packing into 32-byte chunks, the sparse bottom-up
  computation of Merkle roots, and the hash-tree-root functions built on it. The sparse computation is
  shown equal to the root of the full binary tree over the zero-padded chunks.

  The \<open>u64\<close> values of the code (chunk limits, lengths, depths) are natural numbers; the one operation
  on them that can wrap is the shift of \<open>next_pow_of_two\<close>, which is written out.
\<close>

type_synonym ssz_chunk = "u8 list"

definition ZERO_CHUNK :: ssz_chunk where
  "ZERO_CHUNK = replicate 32 0"

section \<open>Powers of two\<close>

fun bitlen :: "nat \<Rightarrow> nat" where
  "bitlen n = (if n = 0 then 0 else Suc (bitlen (n div 2)))"

declare bitlen.simps [simp del]

text \<open>\<open>u64::leading_zeros\<close> and \<open>u64::trailing_zeros\<close>.\<close>

definition leading_zeros :: "nat \<Rightarrow> nat" where
  "leading_zeros n = 64 - bitlen n"

function trailing_zeros :: "nat \<Rightarrow> nat" where
  "trailing_zeros n = (if n = 0 then 64 else if odd n then 0 else Suc (trailing_zeros (n div 2)))"
  by pat_completeness auto
termination by (relation "measure id") (auto elim: evenE)

declare trailing_zeros.simps [simp del]

text \<open>A shift by 64, which happens above \<open>2^63\<close>, is a shift by 0 in the release profile.\<close>

definition next_pow_of_two :: "nat \<Rightarrow> nat" where
  "next_pow_of_two n = (if n \<le> 1 then 1 else 2 ^ ((64 - leading_zeros (n - 1)) mod 64))"

definition zero_hash :: "nat \<Rightarrow> ssz_chunk" where
  "zero_hash depth = ((\<lambda>z. sha256_pair z z) ^^ depth) ZERO_CHUNK"

section \<open>Packing and merkleization\<close>

definition pack :: "ssz_chunk list \<Rightarrow> ssz_chunk list" where
  "pack leaves = leaves"

definition div_ceil :: "nat \<Rightarrow> nat \<Rightarrow> nat" where
  "div_ceil a b = (a + b - 1) div b"

definition pack_bytes :: "u8 list \<Rightarrow> ssz_chunk list" where
  "pack_bytes bytes =
     map (\<lambda>i. let start = i * 32; end' = min (start + 32) (length bytes)
              in take (end' - start) (drop start bytes) @ replicate (32 - (end' - start)) 0)
       [0..<div_ceil (length bytes) 32]"

text \<open>One layer of the tree: neighbours are paired, a last single node with the zero hash.\<close>

fun pair_layer :: "ssz_chunk \<Rightarrow> ssz_chunk list \<Rightarrow> ssz_chunk list" where
  "pair_layer zh [] = []"
| "pair_layer zh [x] = [sha256_pair x zh]"
| "pair_layer zh (x # y # rest) = sha256_pair x y # pair_layer zh rest"

definition inner_layers :: "nat \<Rightarrow> ssz_chunk list \<Rightarrow> ssz_chunk list" where
  "inner_layers inner_depth leaves = foldl (\<lambda>layer d. pair_layer (zero_hash d) layer) leaves [0..<inner_depth]"

definition merkleize_chunks :: "ssz_chunk list \<Rightarrow> nat option \<Rightarrow> ssz_chunk" where
  "merkleize_chunks leaves limit =
     (let effective_len = (case limit of Some n \<Rightarrow> max (length leaves) n | None \<Rightarrow> length leaves);
          padded = next_pow_of_two effective_len;
          full_depth = trailing_zeros padded
      in if padded = 1 then (case leaves of [] \<Rightarrow> ZERO_CHUNK | x # _ \<Rightarrow> x)
         else
           let n = length leaves;
               inner_depth = (if n = 0 then 0 else trailing_zeros (next_pow_of_two n));
               node = (if n = 0 then ZERO_CHUNK else inner_layers inner_depth leaves ! 0)
           in foldl (\<lambda>node d. sha256_pair node (zero_hash d)) node [inner_depth..<full_depth])"

section \<open>Hash-tree roots\<close>

definition le_chunk :: "u64 \<Rightarrow> ssz_chunk" where
  "le_chunk v = to_le_bytes 8 v @ replicate 24 0"

definition mix_in_length :: "ssz_chunk \<Rightarrow> u64 \<Rightarrow> ssz_chunk" where
  "mix_in_length root len = sha256_pair root (le_chunk len)"

definition mix_in_selector :: "ssz_chunk \<Rightarrow> u64 \<Rightarrow> ssz_chunk" where
  "mix_in_selector root selector = sha256_pair root (le_chunk selector)"

definition hash_tree_root_uint :: "u64 \<Rightarrow> ssz_chunk" where
  "hash_tree_root_uint value = le_chunk value"

definition hash_tree_root_bool :: "bool \<Rightarrow> ssz_chunk" where
  "hash_tree_root_bool value = (if value then 1 else 0) # replicate 31 0"

definition hash_tree_root_bytes :: "u8 list \<Rightarrow> ssz_chunk" where
  "hash_tree_root_bytes bytes = merkleize_chunks (pack_bytes bytes) None"

definition hash_tree_root_bytes_fixed :: "u8 list \<Rightarrow> nat \<Rightarrow> ssz_chunk" where
  "hash_tree_root_bytes_fixed bytes chunks_limit = merkleize_chunks (pack_bytes bytes) (Some chunks_limit)"

definition hash_tree_root_list_bytes :: "u8 list \<Rightarrow> nat \<Rightarrow> ssz_chunk" where
  "hash_tree_root_list_bytes bytes max_length_bytes =
     (let chunks_limit = div_ceil max_length_bytes 32;
          root = merkleize_chunks (pack_bytes bytes) (Some chunks_limit)
      in mix_in_length root (of_nat (length bytes)))"

definition bitlist_data :: "u8 list \<Rightarrow> nat \<Rightarrow> u8 list" where
  "bitlist_data bits bit_length =
     (let data_bytes_len = div_ceil bit_length 8; data = replicate data_bytes_len 0
      in if 0 < bit_length then
           let copy_n = min data_bytes_len (length bits);
               data = take copy_n bits @ drop copy_n data;
               tail_bit = bit_length mod 8
           in if tail_bit \<noteq> 0 then
                let mask = push_bit tail_bit 1 - 1; idx = data_bytes_len - 1
                in data[idx := data ! idx AND mask]
              else data
         else data)"

definition hash_tree_root_bitlist :: "u8 list \<Rightarrow> nat \<Rightarrow> nat \<Rightarrow> ssz_chunk" where
  "hash_tree_root_bitlist bits bit_length max_bits =
     (let chunks_limit = div_ceil max_bits 256;
          root = merkleize_chunks (pack_bytes (bitlist_data bits bit_length)) (Some chunks_limit)
      in mix_in_length root (of_nat bit_length))"

definition hash_tree_root_container :: "ssz_chunk list \<Rightarrow> ssz_chunk" where
  "hash_tree_root_container field_roots = merkleize_chunks field_roots None"

section \<open>The reference tree\<close>

text \<open>
  \<open>tree_root k d xs\<close> is the root of the full binary tree of height \<open>d\<close> whose leaves are the nodes
  \<open>xs\<close> of level \<open>k\<close>, followed by as many zero subtrees of level \<open>k\<close> as are missing. At level 0 this is
  the tree over the chunks padded with zero chunks to \<open>2^d\<close>.
\<close>

fun tree_root :: "nat \<Rightarrow> nat \<Rightarrow> ssz_chunk list \<Rightarrow> ssz_chunk" where
  "tree_root k 0 xs = (case xs of [] \<Rightarrow> zero_hash k | x # _ \<Rightarrow> x)"
| "tree_root k (Suc d) xs = sha256_pair (tree_root k d (take (2 ^ d) xs)) (tree_root k d (drop (2 ^ d) xs))"

lemma zero_hash_0 [simp]: "zero_hash 0 = ZERO_CHUNK"
  by (simp add: zero_hash_def)

lemma zero_hash_Suc [simp]: "zero_hash (Suc d) = sha256_pair (zero_hash d) (zero_hash d)"
  by (simp add: zero_hash_def)

text \<open>The missing leaves are zero chunks: the tree is the same if they are written out.\<close>

lemma tree_root_padded: "length xs + m \<le> 2 ^ d \<Longrightarrow> tree_root 0 d (xs @ replicate m ZERO_CHUNK) = tree_root 0 d xs"
proof (induction d arbitrary: xs m)
  case 0
  then show ?case by (cases xs; cases m) simp_all
next
  case (Suc d)
  have "take (2 ^ d) (xs @ replicate m ZERO_CHUNK) = take (2 ^ d) xs @ replicate (min m (2 ^ d - length xs)) ZERO_CHUNK"
    by (simp add: min.commute)
  moreover have "drop (2 ^ d) (xs @ replicate m ZERO_CHUNK) = drop (2 ^ d) xs @ replicate (m - (2 ^ d - length xs)) ZERO_CHUNK"
    by simp
  moreover have "length (take (2 ^ d) xs) + min m (2 ^ d - length xs) \<le> 2 ^ d" by auto
  moreover have "length (drop (2 ^ d) xs) + (m - (2 ^ d - length xs)) \<le> 2 ^ d" using Suc.prems by auto
  ultimately show ?case by (simp only: tree_root.simps Suc.IH)
qed

lemma tree_root_Nil: "tree_root k d [] = zero_hash (k + d)"
  by (induction d) simp_all

lemma tree_root_single: "tree_root k (Suc d) [x] = sha256_pair (tree_root k d [x]) (zero_hash (k + d))"
  by (simp add: tree_root_Nil)

lemma pair_layer_take: "pair_layer zh (take (2 * m) xs) = take m (pair_layer zh xs)"
proof (induction zh xs arbitrary: m rule: pair_layer.induct)
  case (3 zh x y rest)
  then show ?case by (cases m) simp_all
qed (auto simp: take_Cons')

lemma pair_layer_drop: "pair_layer zh (drop (2 * m) xs) = drop m (pair_layer zh xs)"
proof (induction zh xs arbitrary: m rule: pair_layer.induct)
  case (3 zh x y rest)
  then show ?case by (cases m) simp_all
qed (auto simp: drop_Cons')

lemma tree_root_layer: "tree_root k (Suc d) xs = tree_root (Suc k) d (pair_layer (zero_hash k) xs)"
proof (induction d arbitrary: xs)
  case 0
  then show ?case by (cases "(zero_hash k, xs)" rule: pair_layer.cases) simp_all
next
  case (Suc d)
  have "tree_root k (Suc (Suc d)) xs =
      sha256_pair (tree_root k (Suc d) (take (2 * 2 ^ d) xs)) (tree_root k (Suc d) (drop (2 * 2 ^ d) xs))" by simp
  also have "\<dots> = tree_root (Suc k) (Suc d) (pair_layer (zero_hash k) xs)"
    unfolding Suc.IH pair_layer_take pair_layer_drop by simp
  finally show ?case .
qed

lemma inner_layers_Suc: "inner_layers (Suc d) xs = pair_layer (zero_hash d) (inner_layers d xs)"
  by (simp add: inner_layers_def)

lemma tree_root_inner: "tree_root 0 (i + d) xs = tree_root i d (inner_layers i xs)"
proof (induction i arbitrary: d)
  case 0
  then show ?case by (simp add: inner_layers_def)
next
  case (Suc i)
  then show ?case using Suc [of "Suc d"] by (simp add: inner_layers_Suc tree_root_layer del: tree_root.simps)
qed

lemma length_pair_layer: "length (pair_layer zh xs) = (length xs + 1) div 2"
  by (induction zh xs rule: pair_layer.induct) simp_all

lemma inner_layers_length: "length xs \<le> 2 ^ (i + d) \<Longrightarrow> length (inner_layers i xs) \<le> 2 ^ d"
proof (induction i arbitrary: d)
  case (Suc i)
  have "length (inner_layers i xs) \<le> 2 ^ Suc d" using Suc.IH [of "Suc d"] Suc.prems by simp
  then show ?case by (simp add: inner_layers_Suc length_pair_layer)
qed (simp add: inner_layers_def)

lemma inner_layers_nonempty: "xs \<noteq> [] \<Longrightarrow> inner_layers i xs \<noteq> []"
proof (induction i)
  case (Suc i)
  then have "0 < length (pair_layer (zero_hash i) (inner_layers i xs))" by (simp add: length_pair_layer Suc_le_eq)
  then show ?case by (simp add: inner_layers_Suc)
qed (simp add: inner_layers_def)

lemma extend_tree: "foldl (\<lambda>node d. sha256_pair node (zero_hash d)) x [i..<i + e] = tree_root i e [x]"
  by (induction e) (simp_all add: tree_root_single del: tree_root.simps(2))


section \<open>Sparse merkleization computes the root of the full tree\<close>

lemma bitlen_le_iff: "bitlen n \<le> k \<longleftrightarrow> n < 2 ^ k"
proof (induction n arbitrary: k rule: bitlen.induct)
  case (1 n)
  show ?case
  proof (cases k)
    case 0
    then show ?thesis by (subst bitlen.simps) simp
  next
    case (Suc j)
    then show ?thesis using 1 [of j] by (subst bitlen.simps) auto
  qed
qed

lemma trailing_zeros_pow2 [simp]: "trailing_zeros (2 ^ d) = d"
  by (induction d) (subst trailing_zeros.simps, simp)+

lemma next_pow_of_two_least:
  assumes "n \<le> 2 ^ 63"
  obtains d where "next_pow_of_two n = 2 ^ d" and "d \<le> 63" and "n \<le> 2 ^ d" and "\<And>k. n \<le> 2 ^ k \<Longrightarrow> d \<le> k"
proof (cases "n \<le> 1")
  case True
  then show ?thesis using that [of 0] by (simp add: next_pow_of_two_def)
next
  case False
  define d where "d = bitlen (n - 1)"
  have d: "d \<le> k \<longleftrightarrow> n \<le> 2 ^ k" for k using False by (auto simp: d_def bitlen_le_iff)
  have "d \<le> 63" using d assms by blast
  moreover have "next_pow_of_two n = 2 ^ d"
    using False \<open>d \<le> 63\<close> by (simp add: next_pow_of_two_def leading_zeros_def d_def)
  ultimately show ?thesis using that [of d] d by blast
qed

lemma merkleize_chunks_tree:
  assumes "max (length cs) (case limit of None \<Rightarrow> 0 | Some n \<Rightarrow> n) \<le> 2 ^ 63"
  obtains d where "merkleize_chunks cs limit = tree_root 0 d cs"
    and "max (length cs) (case limit of None \<Rightarrow> 0 | Some n \<Rightarrow> n) \<le> 2 ^ d"
    and "\<And>k. max (length cs) (case limit of None \<Rightarrow> 0 | Some n \<Rightarrow> n) \<le> 2 ^ k \<Longrightarrow> d \<le> k"
proof -
  define len where "len = max (length cs) (case limit of None \<Rightarrow> 0 | Some n \<Rightarrow> n)"
  have len: "(case limit of Some n \<Rightarrow> max (length cs) n | None \<Rightarrow> length cs) = len"
    by (simp add: len_def split: option.split)
  obtain d where d: "next_pow_of_two len = 2 ^ d" "len \<le> 2 ^ d" and least: "\<And>k. len \<le> 2 ^ k \<Longrightarrow> d \<le> k"
    using next_pow_of_two_least [of len] assms unfolding len_def by blast
  have "length cs \<le> 2 ^ 63" using assms by simp
  then obtain i where i: "next_pow_of_two (length cs) = 2 ^ i" "length cs \<le> 2 ^ i"
    and iless: "\<And>k. length cs \<le> 2 ^ k \<Longrightarrow> i \<le> k"
    using next_pow_of_two_least [of "length cs"] by blast
  have "i \<le> d" using iless d(2) by (simp add: len_def)
  then obtain e where e: "d = i + e" by (auto simp: le_iff_add)
  have mc: "merkleize_chunks cs limit =
     (if (2 :: nat) ^ d = 1 then (case cs of [] \<Rightarrow> ZERO_CHUNK | x # _ \<Rightarrow> x)
      else foldl (\<lambda>node d. sha256_pair node (zero_hash d))
        (if length cs = 0 then ZERO_CHUNK else inner_layers (if length cs = 0 then 0 else i) cs ! 0)
        [if length cs = 0 then 0 else i..<d])"
    by (simp only: merkleize_chunks_def len d i Let_def trailing_zeros_pow2)
  have "merkleize_chunks cs limit = tree_root 0 d cs"
  proof (cases "d = 0")
    case True
    then show ?thesis by (simp add: mc split: list.split)
  next
    case False
    then have p: "(2 :: nat) ^ d \<noteq> 1" by simp
    show ?thesis
    proof (cases "cs = []")
      case True
      have "foldl (\<lambda>node d. sha256_pair node (zero_hash d)) ZERO_CHUNK [0..<d] = tree_root 0 d [ZERO_CHUNK]"
        using extend_tree [of ZERO_CHUNK 0 d] by simp
      also have "\<dots> = tree_root 0 d []" using tree_root_padded [of "[]" 1 d] by simp
      finally show ?thesis using p unfolding mc by (simp add: True)
    next
      case nonempty: False
      have "length (inner_layers i cs) \<le> 1" using inner_layers_length [of cs i 0] i by simp
      moreover have "inner_layers i cs \<noteq> []" by (rule inner_layers_nonempty [OF nonempty])
      ultimately obtain x where x: "inner_layers i cs = [x]"
        by (cases "inner_layers i cs") auto
      have "merkleize_chunks cs limit = foldl (\<lambda>node d. sha256_pair node (zero_hash d)) x [i..<i + e]"
        using nonempty p by (auto simp: mc x e)
      also have "\<dots> = tree_root 0 d cs" by (simp add: extend_tree tree_root_inner e x)
      finally show ?thesis .
    qed
  qed
  with d(2) least show ?thesis using that [of d] unfolding len_def by blast
qed


section \<open>Packing and bit lists\<close>

lemma length_pack_bytes: "length (pack_bytes bs) = (length bs + 31) div 32"
  by (simp add: pack_bytes_def div_ceil_def)

text \<open>The chunks are the bytes, padded with zeros to a multiple of 32.\<close>

lemma pack_bytes_step:
  assumes "32 \<le> length bs"
  shows "pack_bytes bs = take 32 bs # pack_bytes (drop 32 bs)"
proof (rule nth_equalityI, goal_cases)
  case 1
  then show ?case using assms by (simp add: length_pack_bytes le_div_geq)
next
  case (2 i)
  then have "i < (length bs + 31) div 32" by (simp add: length_pack_bytes)
  then show ?case
    using assms by (cases i) (auto simp: pack_bytes_def div_ceil_def Let_def min_def add.commute)
qed

lemma concat_pack_bytes:
  "concat (pack_bytes bs) = bs @ replicate (32 * ((length bs + 31) div 32) - length bs) 0"
proof (induction "length bs" arbitrary: bs rule: less_induct)
  case less
  show ?case
  proof (cases "32 \<le> length bs")
    case True
    have "(length bs + 31) div 32 = Suc ((length (drop 32 bs) + 31) div 32)" using True by (simp add: le_div_geq)
    then show ?thesis
      using True less [of "drop 32 bs"] by (simp add: pack_bytes_step del: append_assoc add: append_assoc [symmetric])
  next
    case False
    then have "(length bs + 31) div 32 = (if bs = [] then 0 else 1)" by (cases bs) (simp_all add: div_if)
    then show ?thesis using False by (auto simp: pack_bytes_def div_ceil_def min_def Let_def add.commute [of 31])
  qed
qed

lemma pack_bytes_lengths: "list_all (\<lambda>c. length c = 32) (pack_bytes bs)"
proof -
  have "length (take (min (i * 32 + 32) (length bs) - i * 32) (drop (i * 32) bs)) = min (i * 32 + 32) (length bs) - i * 32" for i
    by auto
  then show ?thesis by (auto simp: pack_bytes_def list_all_iff Let_def min_def)
qed

text \<open>Bit \<open>j\<close> of a little-endian bit string.\<close>

definition bit_of :: "u8 list \<Rightarrow> nat \<Rightarrow> bool" where
  "bit_of bs j \<longleftrightarrow> bit (bs ! (j div 8)) (j mod 8)"

lemma div_ceil_bounds: "n \<le> 8 * div_ceil n 8" "8 * div_ceil n 8 < n + 8"
proof -
  have "n + 7 = 8 * ((n + 7) div 8) + (n + 7) mod 8" "(n + 7) mod 8 < 8" by simp_all
  moreover have "div_ceil n 8 = (n + 7) div 8" by (simp add: div_ceil_def)
  ultimately show "n \<le> 8 * div_ceil n 8" "8 * div_ceil n 8 < n + 8" by linarith+
qed

lemma bitlist_data_eq:
  assumes "n \<le> 8 * length bits"
  shows "bitlist_data bits n =
    (if n = 0 \<or> n mod 8 = 0 then take (div_ceil n 8) bits
     else (take (div_ceil n 8) bits)[div_ceil n 8 - 1 := take (div_ceil n 8) bits ! (div_ceil n 8 - 1) AND mask (n mod 8)])"
proof -
  have "div_ceil n 8 \<le> length bits" using assms div_ceil_bounds(2) [of n] by linarith
  then have "min (div_ceil n 8) (length bits) = div_ceil n 8" by simp
  moreover have "push_bit (n mod 8) 1 - 1 = (mask (n mod 8) :: u8)" by (simp add: mask_eq_exp_minus_1 push_bit_eq_mult)
  moreover have "div_ceil 0 8 = 0" by (simp add: div_ceil_def)
  ultimately show ?thesis by (simp add: bitlist_data_def Let_def)
qed

lemma bitlist_data_bits:
  assumes "n \<le> 8 * length bits"
  shows "length (bitlist_data bits n) = div_ceil n 8"
    and "j < 8 * div_ceil n 8 \<Longrightarrow> bit_of (bitlist_data bits n) j \<longleftrightarrow> j < n \<and> bit_of bits j"
proof -
  define m where "m = div_ceil n 8"
  have m: "n \<le> 8 * m" "8 * m < n + 8" unfolding m_def by (rule div_ceil_bounds)+
  have ml: "m \<le> length bits" using assms m by linarith
  show "length (bitlist_data bits n) = div_ceil n 8"
    using ml by (simp add: bitlist_data_eq [OF assms] m_def)
  assume "j < 8 * div_ceil n 8"
  then have jm: "j div 8 < m" unfolding m_def by (simp add: less_mult_imp_div_less mult.commute)
  show "bit_of (bitlist_data bits n) j \<longleftrightarrow> j < n \<and> bit_of bits j"
  proof (cases "n mod 8 = 0")
    case True
    then obtain q where "n = 8 * q" by (auto simp: mod_eq_0_iff_dvd)
    then have "8 * m = n" using m by simp
    then have "j < n" using jm by linarith
    then show ?thesis
      using True jm by (simp add: bitlist_data_eq [OF assms] bit_of_def m_def [symmetric])
  next
    case False
    have "n = 8 * (n div 8) + n mod 8" by simp
    with False m have "n div 8 = m - 1" by linarith
    then have n: "n = 8 * (m - 1) + n mod 8" by (metis mult_div_mod_eq)
    have d: "j = 8 * (j div 8) + j mod 8" "j mod 8 < 8" "n mod 8 < 8" by simp_all
    have jn: "j < n \<longleftrightarrow> j div 8 < m - 1 \<or> (j div 8 = m - 1 \<and> j mod 8 < n mod 8)"
      using n jm d by linarith
    have "n \<noteq> 0" using False by (metis mod_0)
    then have "bitlist_data bits n = (take m bits)[m - 1 := take m bits ! (m - 1) AND mask (n mod 8)]"
      using False by (simp add: bitlist_data_eq [OF assms] m_def [symmetric])
    then have "bit_of (bitlist_data bits n) j \<longleftrightarrow> bit (if j div 8 = m - 1 then bits ! (m - 1) AND mask (n mod 8) else bits ! (j div 8)) (j mod 8)"
      using jm ml by (simp add: bit_of_def nth_list_update)
    then show ?thesis
      using jn jm by (auto simp: bit_of_def bit_and_iff bit_mask_iff)
  qed
qed

lemma bitlist_data_cong:
  assumes "n \<le> 8 * length bits" and "n \<le> 8 * length bits'" and "\<And>j. j < n \<Longrightarrow> bit_of bits j = bit_of bits' j"
  shows "bitlist_data bits n = bitlist_data bits' n"
proof (rule nth_equalityI)
  show "length (bitlist_data bits n) = length (bitlist_data bits' n)"
    using assms by (simp add: bitlist_data_bits)
  fix i assume "i < length (bitlist_data bits n)"
  then have i: "i < div_ceil n 8" using assms by (simp add: bitlist_data_bits)
  show "bitlist_data bits n ! i = bitlist_data bits' n ! i"
  proof (rule bit_word_eqI)
    fix k assume "k < LENGTH(8)"
    then have k: "k < 8" by simp
    then have "bit_of (bitlist_data bits n) (8 * i + k) = bit_of (bitlist_data bits' n) (8 * i + k)"
      using assms i by (auto simp: bitlist_data_bits)
    then show "bit (bitlist_data bits n ! i) k = bit (bitlist_data bits' n ! i) k"
      using k by (simp add: bit_of_def)
  qed
qed

text \<open>
  C29. The sparse bottom-up merkleization returns the root of the full binary tree over the chunks
  padded with zero chunks, at the least height whose width covers the chunks and the limit; packing
  cuts the zero-padded bytes into 32-byte chunks; and the root of a bit list depends on its data bits
  only, not on the sentinel or the bits behind it.
\<close>

theorem merkleize_chunks_full_tree:
  assumes "max (length cs) (case limit of None \<Rightarrow> 0 | Some n \<Rightarrow> n) \<le> 2 ^ 63"
    and "n \<le> 8 * length bits" and "n \<le> 8 * length bits'" and "\<forall>j<n. bit_of bits j = bit_of bits' j"
  shows "(\<exists>d. max (length cs) (case limit of None \<Rightarrow> 0 | Some n \<Rightarrow> n) \<le> 2 ^ d \<and>
      (\<forall>k. max (length cs) (case limit of None \<Rightarrow> 0 | Some n \<Rightarrow> n) \<le> 2 ^ k \<longrightarrow> d \<le> k) \<and>
      merkleize_chunks cs limit = tree_root 0 d (cs @ replicate (2 ^ d - length cs) ZERO_CHUNK)) \<and>
    concat (pack_bytes bs) = bs @ replicate (32 * ((length bs + 31) div 32) - length bs) 0 \<and>
    list_all (\<lambda>c. length c = 32) (pack_bytes bs) \<and>
    hash_tree_root_bitlist bits n max_bits = hash_tree_root_bitlist bits' n max_bits"
proof (intro conjI)
  obtain d where d: "merkleize_chunks cs limit = tree_root 0 d cs"
    "max (length cs) (case limit of None \<Rightarrow> 0 | Some n \<Rightarrow> n) \<le> 2 ^ d"
    "\<And>k. max (length cs) (case limit of None \<Rightarrow> 0 | Some n \<Rightarrow> n) \<le> 2 ^ k \<Longrightarrow> d \<le> k"
    using merkleize_chunks_tree [OF assms(1)] by blast
  then have "merkleize_chunks cs limit = tree_root 0 d (cs @ replicate (2 ^ d - length cs) ZERO_CHUNK)"
    using tree_root_padded [of cs "2 ^ d - length cs" d] by simp
  with d(2,3) show "\<exists>d. max (length cs) (case limit of None \<Rightarrow> 0 | Some n \<Rightarrow> n) \<le> 2 ^ d \<and>
      (\<forall>k. max (length cs) (case limit of None \<Rightarrow> 0 | Some n \<Rightarrow> n) \<le> 2 ^ k \<longrightarrow> d \<le> k) \<and>
      merkleize_chunks cs limit = tree_root 0 d (cs @ replicate (2 ^ d - length cs) ZERO_CHUNK)" by blast
  show "hash_tree_root_bitlist bits n max_bits = hash_tree_root_bitlist bits' n max_bits"
    using bitlist_data_cong [of n bits bits'] assms(2-4) by (simp add: hash_tree_root_bitlist_def)
qed (simp_all add: concat_pack_bytes pack_bytes_lengths)

theorem merkleize_chunks_full_tree_witness:
  "(\<exists>d. merkleize_chunks [ZERO_CHUNK, le_chunk 5, le_chunk 7] (Some 4) =
      tree_root 0 d ([ZERO_CHUNK, le_chunk 5, le_chunk 7] @ replicate (2 ^ d - length [ZERO_CHUNK, le_chunk 5, le_chunk 7]) ZERO_CHUNK)) \<and>
    hash_tree_root_bitlist [0x0D] 3 8 = hash_tree_root_bitlist [0x05] 3 8"
proof -
  have "\<forall>j<3. bit_of [0x0D] j = bit_of [0x05] j"
    by (auto simp: bit_of_def numeral_3_eq_3 less_Suc_eq)
  moreover have "max (length [ZERO_CHUNK, le_chunk 5, le_chunk 7]) (case Some 4 of None \<Rightarrow> 0 | Some n \<Rightarrow> n) \<le> 2 ^ 63"
    "(3 :: nat) \<le> 8 * length [0x0D :: u8]" "(3 :: nat) \<le> 8 * length [0x05 :: u8]" by simp_all
  ultimately show ?thesis
    using merkleize_chunks_full_tree [of "[ZERO_CHUNK, le_chunk 5, le_chunk 7]" "Some 4" 3 "[0x0D]" "[0x05]" "[]" 8] by blast
qed

end
