(* ===== verification/Zkp_Beacon.thy ===== *)
theory Zkp_Beacon
  imports Zkp_Ssz
begin

text \<open>
  Beacon-chain containers and their SSZ roots (\<^verbatim>\<open>crates/zkp/src/beacon.rs\<close>), the slot and epoch
  arithmetic (\<^verbatim>\<open>epoch.rs\<close>) and the validator-set helpers (\<^verbatim>\<open>validator_set.rs\<close>). Equal container roots
  mean equal containers, or a SHA-256 collision among the nodes of the two Merkle trees.

  Slots, epochs and balances are \<open>u64\<close> words; epoch arithmetic wraps as in the release profile.
\<close>

section \<open>Containers\<close>

type_synonym gwei = u64

abbreviation MAX_VALIDATORS_PER_COMMITTEE :: nat where
  "MAX_VALIDATORS_PER_COMMITTEE \<equiv> 2048"

definition VALIDATOR_REGISTRY_LIMIT :: nat where
  "VALIDATOR_REGISTRY_LIMIT = 2 ^ 40"

definition hash_tree_root_list_uint64 :: "u64 list \<Rightarrow> nat \<Rightarrow> ssz_chunk" where
  "hash_tree_root_list_uint64 values max_length =
     (let buf = concat (map (to_le_bytes 8) values);
          chunks_limit = div_ceil (max_length * 8 mod 2 ^ 64) 32;
          root = merkleize_chunks (pack_bytes buf) (Some chunks_limit)
      in mix_in_length root (of_nat (length values)))"

record checkpoint =
  cp_epoch :: u64
  cp_root :: "u8 list"

definition checkpoint_root :: "checkpoint \<Rightarrow> ssz_chunk" where
  "checkpoint_root c = merkleize_chunks [hash_tree_root_uint (cp_epoch c), cp_root c] None"

record attestation_data =
  ad_slot :: u64
  ad_index :: u64
  ad_beacon_block_root :: "u8 list"
  ad_source :: checkpoint
  ad_target :: checkpoint

definition attestation_data_root :: "attestation_data \<Rightarrow> ssz_chunk" where
  "attestation_data_root a = hash_tree_root_container
     [hash_tree_root_uint (ad_slot a), hash_tree_root_uint (ad_index a), ad_beacon_block_root a,
      checkpoint_root (ad_source a), checkpoint_root (ad_target a)]"

record validator =
  v_pubkey :: "u8 list"
  v_withdrawal_credentials :: "u8 list"
  v_effective_balance :: gwei
  v_slashed :: bool
  v_activation_eligibility_epoch :: u64
  v_activation_epoch :: u64
  v_exit_epoch :: u64
  v_withdrawable_epoch :: u64

definition validator_default :: validator where
  "validator_default = \<lparr>v_pubkey = replicate 48 0, v_withdrawal_credentials = replicate 32 0,
     v_effective_balance = 0, v_slashed = False, v_activation_eligibility_epoch = 0,
     v_activation_epoch = 0, v_exit_epoch = 0, v_withdrawable_epoch = 0\<rparr>"

definition with_pubkey :: "validator \<Rightarrow> u8 list \<Rightarrow> validator" where
  "with_pubkey v pk = v\<lparr>v_pubkey := pk\<rparr>"

definition validator_root :: "validator \<Rightarrow> ssz_chunk" where
  "validator_root v = hash_tree_root_container
     [hash_tree_root_bytes_fixed (v_pubkey v) 2, v_withdrawal_credentials v,
      hash_tree_root_uint (v_effective_balance v), hash_tree_root_bool (v_slashed v),
      hash_tree_root_uint (v_activation_eligibility_epoch v), hash_tree_root_uint (v_activation_epoch v),
      hash_tree_root_uint (v_exit_epoch v), hash_tree_root_uint (v_withdrawable_epoch v)]"

record beacon_block_header =
  bb_slot :: u64
  bb_proposer_index :: u64
  bb_parent_root :: "u8 list"
  bb_state_root :: "u8 list"
  bb_body_root :: "u8 list"

definition beacon_header_root :: "beacon_block_header \<Rightarrow> ssz_chunk" where
  "beacon_header_root h = hash_tree_root_container
     [hash_tree_root_uint (bb_slot h), hash_tree_root_uint (bb_proposer_index h),
      bb_parent_root h, bb_state_root h, bb_body_root h]"

record signed_beacon_block_header =
  sbh_message :: beacon_block_header
  sbh_signature :: "u8 list"

definition signed_header_default :: signed_beacon_block_header where
  "signed_header_default =
     \<lparr>sbh_message = \<lparr>bb_slot = 0, bb_proposer_index = 0, bb_parent_root = ZERO_CHUNK, bb_state_root = ZERO_CHUNK, bb_body_root = ZERO_CHUNK\<rparr>,
      sbh_signature = replicate 96 0\<rparr>"

definition signed_header_root :: "signed_beacon_block_header \<Rightarrow> ssz_chunk" where
  "signed_header_root s = hash_tree_root_container
     [beacon_header_root (sbh_message s), hash_tree_root_bytes_fixed (sbh_signature s) 3]"

record indexed_attestation =
  ia_attesting_indices :: "u64 list"
  ia_data :: attestation_data
  ia_signature :: "u8 list"

definition indexed_attestation_default :: indexed_attestation where
  "indexed_attestation_default =
     (let zero = \<lparr>cp_epoch = 0, cp_root = ZERO_CHUNK\<rparr>
      in \<lparr>ia_attesting_indices = [],
          ia_data = \<lparr>ad_slot = 0, ad_index = 0, ad_beacon_block_root = ZERO_CHUNK, ad_source = zero, ad_target = zero\<rparr>,
          ia_signature = replicate 96 0\<rparr>)"

definition indexed_attestation_root :: "indexed_attestation \<Rightarrow> ssz_chunk" where
  "indexed_attestation_root a = hash_tree_root_container
     [hash_tree_root_list_uint64 (ia_attesting_indices a) MAX_VALIDATORS_PER_COMMITTEE,
      attestation_data_root (ia_data a), hash_tree_root_bytes_fixed (ia_signature a) 3]"

record gasper_state_view =
  gs_validators :: "validator list"
  gs_balances :: "gwei list"
  gs_justification_bits :: u8
  gs_previous_justified :: checkpoint
  gs_current_justified :: checkpoint
  gs_finalized :: checkpoint

definition validators_root :: "gasper_state_view \<Rightarrow> ssz_chunk" where
  "validators_root g =
     mix_in_length (merkleize_chunks (map validator_root (gs_validators g)) (Some VALIDATOR_REGISTRY_LIMIT))
       (of_nat (length (gs_validators g)))"

definition balances_root :: "gasper_state_view \<Rightarrow> ssz_chunk" where
  "balances_root g = hash_tree_root_list_uint64 (gs_balances g) VALIDATOR_REGISTRY_LIMIT"

definition justification_bits_root :: "gasper_state_view \<Rightarrow> ssz_chunk" where
  "justification_bits_root g = hash_tree_root_bytes [gs_justification_bits g AND 0x0F]"

definition gasper_root :: "gasper_state_view \<Rightarrow> ssz_chunk" where
  "gasper_root g = hash_tree_root_container
     [validators_root g, balances_root g, justification_bits_root g,
      checkpoint_root (gs_previous_justified g), checkpoint_root (gs_current_justified g),
      checkpoint_root (gs_finalized g)]"

section \<open>Slots and epochs\<close>

abbreviation SLOTS_PER_EPOCH :: u64 where
  "SLOTS_PER_EPOCH \<equiv> 32"

abbreviation SECONDS_PER_SLOT :: u64 where
  "SECONDS_PER_SLOT \<equiv> 12"

abbreviation GENESIS_TIME :: u64 where
  "GENESIS_TIME \<equiv> 1606824023"

definition slot_to_epoch :: "u64 \<Rightarrow> u64" where
  "slot_to_epoch slot = slot div SLOTS_PER_EPOCH"

definition epoch_start_slot :: "u64 \<Rightarrow> u64" where
  "epoch_start_slot epoch = epoch * SLOTS_PER_EPOCH"

definition epoch_end_slot :: "u64 \<Rightarrow> u64" where
  "epoch_end_slot epoch = epoch_start_slot (epoch + 1) - 1"

definition is_epoch_boundary :: "u64 \<Rightarrow> bool" where
  "is_epoch_boundary slot \<longleftrightarrow> slot mod SLOTS_PER_EPOCH = 0"

definition slot_to_timestamp :: "u64 \<Rightarrow> u64" where
  "slot_to_timestamp slot = GENESIS_TIME + slot * SECONDS_PER_SLOT"

definition timestamp_to_slot :: "u64 \<Rightarrow> u64 option" where
  "timestamp_to_slot timestamp =
     (if timestamp < GENESIS_TIME then None else Some ((timestamp - GENESIS_TIME) div SECONDS_PER_SLOT))"

definition slots_since_epoch_start :: "u64 \<Rightarrow> u64" where
  "slots_since_epoch_start slot = slot mod SLOTS_PER_EPOCH"

definition verify_slot_epoch_consistency :: "u64 \<Rightarrow> u64 \<Rightarrow> unit + unit" where
  "verify_slot_epoch_consistency slot claimed_epoch =
     (if slot_to_epoch slot \<noteq> claimed_epoch then Inl () else Inr ())"

text \<open>Every slot lies in its epoch, and timestamps round-trip, as long as the products do not wrap.\<close>

lemma slot_in_epoch:
  assumes "unat slot + 32 < 2 ^ 64"
  shows "epoch_start_slot (slot_to_epoch slot) \<le> slot" and "slot \<le> epoch_end_slot (slot_to_epoch slot)"
    and "is_epoch_boundary slot \<longleftrightarrow> slot = epoch_start_slot (slot_to_epoch slot)"
proof -
  define q where "q = unat slot div 32"
  have s: "unat slot = 32 * q + unat slot mod 32" "unat slot mod 32 < 32" by (simp_all add: q_def)
  have e: "unat (slot_to_epoch slot) = q" by (simp add: slot_to_epoch_def q_def unat_div)
  have st: "unat (epoch_start_slot (slot_to_epoch slot)) = 32 * q"
    using assms s by (simp add: epoch_start_slot_def unat_word_ariths e)
  have mul: "unat (x * 32) = unat x * 32" if "unat x * 32 < 2 ^ 64" for x :: u64
    using that by (simp add: unat_word_ariths)
  have n: "unat (slot_to_epoch slot + 1) = q + 1" using assms s by (simp add: unat_word_ariths e)
  have "unat (epoch_start_slot (slot_to_epoch slot + 1)) = 32 * q + 32"
    unfolding epoch_start_slot_def using assms s by (subst mul) (simp_all only: n, simp_all)
  then have en: "unat (epoch_end_slot (slot_to_epoch slot)) = 32 * q + 31"
    by (simp add: epoch_end_slot_def unat_sub_if_size word_size)
  show "epoch_start_slot (slot_to_epoch slot) \<le> slot" "slot \<le> epoch_end_slot (slot_to_epoch slot)"
    using s by (simp_all only: word_le_nat_alt st en)
  have "is_epoch_boundary slot \<longleftrightarrow> unat slot mod 32 = 0"
    by (simp add: is_epoch_boundary_def word_unat_eq_iff unat_mod)
  also have "\<dots> \<longleftrightarrow> slot = epoch_start_slot (slot_to_epoch slot)"
    using s by (simp only: word_unat_eq_iff st) linarith
  finally show "is_epoch_boundary slot \<longleftrightarrow> slot = epoch_start_slot (slot_to_epoch slot)" .
qed

lemma timestamp_roundtrip:
  assumes "unat slot * 12 + 1606824023 < 2 ^ 64"
  shows "timestamp_to_slot (slot_to_timestamp slot) = Some slot"
proof -
  have t: "unat (slot_to_timestamp slot) = 1606824023 + unat slot * 12"
    using assms by (simp add: slot_to_timestamp_def unat_word_ariths)
  then have g: "\<not> slot_to_timestamp slot < GENESIS_TIME" by (simp add: word_less_nat_alt)
  have "unat (slot_to_timestamp slot - GENESIS_TIME) = unat slot * 12"
    using t by (simp add: unat_sub_if_size word_size)
  then have "unat ((slot_to_timestamp slot - GENESIS_TIME) div SECONDS_PER_SLOT) = unat slot"
    by (simp only: unat_div) simp
  with g show ?thesis by (simp add: timestamp_to_slot_def word_unat_eq_iff)
qed

section \<open>Validator-set helpers\<close>

record validator_state =
  vs_pubkey :: "u8 list"
  vs_effective_balance :: u64
  vs_slashed :: bool
  vs_activation_epoch :: u64
  vs_exit_epoch :: u64

definition is_active_at :: "validator_state \<Rightarrow> u64 \<Rightarrow> bool" where
  "is_active_at v epoch \<longleftrightarrow> vs_activation_epoch v \<le> epoch \<and> epoch < vs_exit_epoch v"

definition is_eligible_attester :: "validator_state \<Rightarrow> u64 \<Rightarrow> bool" where
  "is_eligible_attester v epoch \<longleftrightarrow> is_active_at v epoch \<and> \<not> vs_slashed v"

text \<open>\<open>sum\<close> of \<open>u64\<close> values wraps in the release profile; the length assertion panics.\<close>

definition set_total_active_balance :: "validator_state list \<Rightarrow> u64 \<Rightarrow> u64" where
  "set_total_active_balance vs epoch = sum_list (map vs_effective_balance (filter (\<lambda>v. is_active_at v epoch) vs))"

definition total_attesting_balance :: "validator_state list \<Rightarrow> bool list \<Rightarrow> u64 \<Rightarrow> u64 option" where
  "total_attesting_balance vs participating epoch =
     (if length vs \<noteq> length participating then None
      else Some (sum_list (map (vs_effective_balance \<circ> fst) (filter (\<lambda>(v, p). p \<and> is_eligible_attester v epoch) (zip vs participating)))))"

definition is_supermajority :: "u64 \<Rightarrow> u64 \<Rightarrow> bool" where
  "is_supermajority attesting total_balance \<longleftrightarrow> attesting * 3 \<ge> total_balance * 2"

section \<open>Roots bind their trees\<close>

text \<open>The inputs of the hash at the inner nodes of a tree.\<close>

fun tree_nodes :: "nat \<Rightarrow> nat \<Rightarrow> ssz_chunk list \<Rightarrow> u8 list list" where
  "tree_nodes k 0 xs = []"
| "tree_nodes k (Suc d) xs =
     (tree_root k d (take (2 ^ d) xs) @ tree_root k d (drop (2 ^ d) xs)) #
     tree_nodes k d (take (2 ^ d) xs) @ tree_nodes k d (drop (2 ^ d) xs)"

definition collision :: "u8 list list \<Rightarrow> bool" where
  "collision ns \<longleftrightarrow> list_ex (\<lambda>x. list_ex (\<lambda>y. x \<noteq> y \<and> sha256 x = sha256 y) ns) ns"

lemma collision_mono: "collision ns \<Longrightarrow> set ns \<subseteq> set ms \<Longrightarrow> collision ms"
  by (auto simp: collision_def list_ex_iff)

lemma no_collisionD: "\<not> collision ns \<Longrightarrow> x \<in> set ns \<Longrightarrow> y \<in> set ns \<Longrightarrow> sha256 x = sha256 y \<Longrightarrow> x = y"
  by (auto simp: collision_def list_ex_iff)

lemma length_zero_hash: "length (zero_hash k) = 32"
  by (cases k) (simp_all add: ZERO_CHUNK_def sha256_pair_def)

lemma length_tree_root: "list_all (\<lambda>c. length c = 32) xs \<Longrightarrow> length (tree_root k d xs) = 32"
  by (cases d) (auto simp: length_zero_hash sha256_pair_def split: list.split)

lemma tree_root_binds:
  assumes "tree_root 0 d xs = tree_root 0 d ys" and "length xs = length ys" and "length xs \<le> 2 ^ d"
    and "list_all (\<lambda>c. length c = 32) xs" and "list_all (\<lambda>c. length c = 32) ys"
    and "\<not> collision (tree_nodes 0 d xs @ tree_nodes 0 d ys)"
  shows "xs = ys"
  using assms
proof (induction d arbitrary: xs ys)
  case 0
  then show ?case by (cases xs; cases ys) auto
next
  case (Suc d)
  define xl xr yl yr where "xl = take (2 ^ d) xs" and "xr = drop (2 ^ d) xs" and "yl = take (2 ^ d) ys" and "yr = drop (2 ^ d) ys"
  note defs = xl_def xr_def yl_def yr_def
  have len: "length xl = length yl" "length xr = length yr" "length xl \<le> 2 ^ d" "length xr \<le> 2 ^ d"
    using Suc.prems(2,3) by (auto simp: defs)
  have all: "list_all (\<lambda>c. length c = 32) xl" "list_all (\<lambda>c. length c = 32) xr"
    "list_all (\<lambda>c. length c = 32) yl" "list_all (\<lambda>c. length c = 32) yr"
    using Suc.prems(4,5) by (auto simp: defs list_all_iff dest: in_set_takeD in_set_dropD)
  have e: "sha256 (tree_root 0 d xl @ tree_root 0 d xr) = sha256 (tree_root 0 d yl @ tree_root 0 d yr)"
    using Suc.prems(1) by (simp add: sha256_pair_def defs)
  have "tree_root 0 d xl @ tree_root 0 d xr = tree_root 0 d yl @ tree_root 0 d yr"
    by (rule no_collisionD [OF Suc.prems(6) _ _ e]) (simp_all add: defs)
  then have eq: "tree_root 0 d xl = tree_root 0 d yl" "tree_root 0 d xr = tree_root 0 d yr"
    using all by (simp_all add: length_tree_root)
  have sub: "set (tree_nodes 0 d xl @ tree_nodes 0 d yl) \<subseteq> set (tree_nodes 0 (Suc d) xs @ tree_nodes 0 (Suc d) ys)"
    "set (tree_nodes 0 d xr @ tree_nodes 0 d yr) \<subseteq> set (tree_nodes 0 (Suc d) xs @ tree_nodes 0 (Suc d) ys)"
    by (auto simp: defs)
  have nc: "\<not> collision (tree_nodes 0 d xl @ tree_nodes 0 d yl)" "\<not> collision (tree_nodes 0 d xr @ tree_nodes 0 d yr)"
    using Suc.prems(6) sub collision_mono by blast+
  have "xl = yl" "xr = yr"
    using Suc.IH [OF eq(1) len(1,3) all(1,3) nc(1)] Suc.IH [OF eq(2) len(2,4) all(2,4) nc(2)] .
  then show ?case unfolding defs by (metis append_take_drop_id)
qed


lemma merkleize_depth:
  assumes "length cs \<le> 2 ^ d" and "2 ^ d < 2 * length cs" and "d \<le> 63"
  shows "merkleize_chunks cs None = tree_root 0 d cs"
proof -
  have "length cs \<le> 2 ^ 63"
    using assms(1) power_increasing [OF assms(3), of "2 :: nat"] by simp
  then obtain e where e: "merkleize_chunks cs None = tree_root 0 e cs" "length cs \<le> 2 ^ e"
    and least: "\<And>k. length cs \<le> 2 ^ k \<Longrightarrow> e \<le> k"
    using merkleize_chunks_tree [of cs None] by auto
  have "e \<le> d" using assms(1) by (rule least)
  moreover have "\<not> e < d"
  proof
    assume "e < d"
    then have "(2 :: nat) ^ Suc e \<le> 2 ^ d" by (intro power_increasing) simp_all
    with e(2) assms(2) show False by simp
  qed
  ultimately show ?thesis using e(1) by simp
qed

lemma le_chunk_inj [simp]: "le_chunk v = le_chunk w \<longleftrightarrow> v = w"
proof -
  have r: "from_le_bytes (to_le_bytes 8 u) = u" for u :: u64 by (rule from_le_to_le_bytes) simp
  have "le_chunk v = le_chunk w \<longleftrightarrow> to_le_bytes 8 v = to_le_bytes 8 w" unfolding le_chunk_def by (rule append_same_eq)
  also have "\<dots> \<longleftrightarrow> v = w" by (metis r)
  finally show ?thesis .
qed

lemma length_le_chunk [simp]: "length (le_chunk v) = 32"
  by (simp add: le_chunk_def)

definition wf_checkpoint :: "checkpoint \<Rightarrow> bool" where
  "wf_checkpoint c \<longleftrightarrow> length (cp_root c) = 32"

definition wf_attestation_data :: "attestation_data \<Rightarrow> bool" where
  "wf_attestation_data a \<longleftrightarrow> length (ad_beacon_block_root a) = 32 \<and> wf_checkpoint (ad_source a) \<and> wf_checkpoint (ad_target a)"

definition wf_beacon_header :: "beacon_block_header \<Rightarrow> bool" where
  "wf_beacon_header h \<longleftrightarrow> length (bb_parent_root h) = 32 \<and> length (bb_state_root h) = 32 \<and> length (bb_body_root h) = 32"

abbreviation checkpoint_leaves :: "checkpoint \<Rightarrow> ssz_chunk list" where
  "checkpoint_leaves c \<equiv> [le_chunk (cp_epoch c), cp_root c]"

definition attestation_leaves :: "attestation_data \<Rightarrow> ssz_chunk list" where
  "attestation_leaves a = [le_chunk (ad_slot a), le_chunk (ad_index a), ad_beacon_block_root a,
     checkpoint_root (ad_source a), checkpoint_root (ad_target a)]"

definition header_leaves :: "beacon_block_header \<Rightarrow> ssz_chunk list" where
  "header_leaves h = [le_chunk (bb_slot h), le_chunk (bb_proposer_index h), bb_parent_root h, bb_state_root h, bb_body_root h]"

text \<open>The hash inputs behind the root of an attestation and of a header.\<close>

definition attestation_nodes :: "attestation_data \<Rightarrow> u8 list list" where
  "attestation_nodes a = tree_nodes 0 3 (attestation_leaves a) @ tree_nodes 0 1 (checkpoint_leaves (ad_source a)) @
     tree_nodes 0 1 (checkpoint_leaves (ad_target a))"

definition header_nodes :: "beacon_block_header \<Rightarrow> u8 list list" where
  "header_nodes h = tree_nodes 0 3 (header_leaves h)"

lemma checkpoint_root_tree: "checkpoint_root c = tree_root 0 1 (checkpoint_leaves c)"
  unfolding checkpoint_root_def hash_tree_root_uint_def by (rule merkleize_depth) simp_all

lemma attestation_root_tree: "attestation_data_root a = tree_root 0 3 (attestation_leaves a)"
  unfolding attestation_data_root_def hash_tree_root_uint_def hash_tree_root_container_def attestation_leaves_def
  by (rule merkleize_depth) simp_all

lemma header_root_tree: "beacon_header_root h = tree_root 0 3 (header_leaves h)"
  unfolding beacon_header_root_def hash_tree_root_uint_def hash_tree_root_container_def header_leaves_def
  by (rule merkleize_depth) simp_all

lemma length_checkpoint_root: "wf_checkpoint c \<Longrightarrow> length (checkpoint_root c) = 32"
  unfolding checkpoint_root_tree by (rule length_tree_root) (simp add: wf_checkpoint_def)

lemma checkpoint_root_binds:
  assumes "wf_checkpoint c" "wf_checkpoint e" "checkpoint_root c = checkpoint_root e"
    and "\<not> collision (tree_nodes 0 1 (checkpoint_leaves c) @ tree_nodes 0 1 (checkpoint_leaves e))"
  shows "c = e"
proof -
  have "checkpoint_leaves c = checkpoint_leaves e"
  proof (rule tree_root_binds)
    show "tree_root 0 1 (checkpoint_leaves c) = tree_root 0 1 (checkpoint_leaves e)"
      using assms(3) by (simp only: checkpoint_root_tree)
    show "\<not> collision (tree_nodes 0 1 (checkpoint_leaves c) @ tree_nodes 0 1 (checkpoint_leaves e))" by (rule assms(4))
  qed (use assms in \<open>simp_all add: wf_checkpoint_def\<close>)
  then show ?thesis by (simp add: checkpoint.equality)
qed

text \<open>
  The SSZ roots bind their containers: two attestations, or two block headers, with the same
  root are equal, or two different nodes of their Merkle trees collide under SHA-256.
\<close>

theorem container_roots_bind:
  "(wf_attestation_data a \<and> wf_attestation_data b \<and> attestation_data_root a = attestation_data_root b \<longrightarrow>
      a = b \<or> collision (attestation_nodes a @ attestation_nodes b)) \<and>
   (wf_beacon_header h \<and> wf_beacon_header g \<and> beacon_header_root h = beacon_header_root g \<longrightarrow>
      h = g \<or> collision (header_nodes h @ header_nodes g))"
proof (intro conjI impI)
  assume A: "wf_attestation_data a \<and> wf_attestation_data b \<and> attestation_data_root a = attestation_data_root b"
  show "a = b \<or> collision (attestation_nodes a @ attestation_nodes b)"
  proof (rule disjCI)
    assume nc: "\<not> collision (attestation_nodes a @ attestation_nodes b)"
    have nc': "\<not> collision ns" if "set ns \<subseteq> set (attestation_nodes a @ attestation_nodes b)" for ns
      using nc that collision_mono by blast
    have "attestation_leaves a = attestation_leaves b"
    proof (rule tree_root_binds)
      show "tree_root 0 3 (attestation_leaves a) = tree_root 0 3 (attestation_leaves b)"
        using A by (simp only: attestation_root_tree)
      show "\<not> collision (tree_nodes 0 3 (attestation_leaves a) @ tree_nodes 0 3 (attestation_leaves b))"
        by (rule nc') (auto simp: attestation_nodes_def)
    qed (use A in \<open>simp_all add: attestation_leaves_def wf_attestation_data_def length_checkpoint_root\<close>)
    then have leaves: "ad_slot a = ad_slot b" "ad_index a = ad_index b" "ad_beacon_block_root a = ad_beacon_block_root b"
      and roots: "checkpoint_root (ad_source a) = checkpoint_root (ad_source b)" "checkpoint_root (ad_target a) = checkpoint_root (ad_target b)"
      by (simp_all add: attestation_leaves_def)
    have "ad_source a = ad_source b"
      using A roots(1) by (intro checkpoint_root_binds nc') (auto simp: wf_attestation_data_def attestation_nodes_def)
    moreover have "ad_target a = ad_target b"
      using A roots(2) by (intro checkpoint_root_binds nc') (auto simp: wf_attestation_data_def attestation_nodes_def)
    ultimately show "a = b" using leaves by (simp add: attestation_data.equality)
  qed
next
  assume A: "wf_beacon_header h \<and> wf_beacon_header g \<and> beacon_header_root h = beacon_header_root g"
  show "h = g \<or> collision (header_nodes h @ header_nodes g)"
  proof (rule disjCI)
    assume nc: "\<not> collision (header_nodes h @ header_nodes g)"
    have "header_leaves h = header_leaves g"
    proof (rule tree_root_binds)
      show "tree_root 0 3 (header_leaves h) = tree_root 0 3 (header_leaves g)"
        using A by (simp only: header_root_tree)
      show "\<not> collision (tree_nodes 0 3 (header_leaves h) @ tree_nodes 0 3 (header_leaves g))"
        using nc unfolding header_nodes_def .
    qed (use A in \<open>simp_all add: header_leaves_def wf_beacon_header_def\<close>)
    then show "h = g" by (simp add: header_leaves_def beacon_block_header.equality)
  qed
qed

theorem container_roots_bind_witness:
  "\<exists>h g. wf_beacon_header h \<and> wf_beacon_header g \<and> beacon_header_root h = beacon_header_root g \<and>
     (h = g \<or> collision (header_nodes h @ header_nodes g))"
proof -
  define h where "h = \<lparr>bb_slot = 1, bb_proposer_index = 2, bb_parent_root = replicate 32 3, bb_state_root = replicate 32 4, bb_body_root = replicate 32 5\<rparr>"
  have "wf_beacon_header h" by (simp add: h_def wf_beacon_header_def)
  then show ?thesis using container_roots_bind by blast
qed

end
