(* ===== verification/Zkp_Finality.thy ===== *)
theory Zkp_Finality
  imports Zkp_Beacon
begin

text \<open>
  Casper FFG justification and finalization of \<^verbatim>\<open>crates/zkp/src/finality.rs\<close>: the validator registry,
  the slashing conditions, the per-epoch update of the justification store, and the stake-weighted
  output. The runs of the update are an inductive relation; the invariant of the store and the
  accountability of conflicting justifications are proved over it.

  \<open>u64\<close> sums wrap, except where the code saturates.
\<close>

section \<open>Registry\<close>

datatype finality_error = NoActiveValidators | ValidatorIndexOutOfRange u64

record validator_registry =
  vr_validators :: "validator list"
  vr_balances :: "gwei list"

definition registry_new :: "validator list \<Rightarrow> gwei list \<Rightarrow> validator_registry" where
  "registry_new validators balances = \<lparr>vr_validators = validators, vr_balances = balances\<rparr>"

definition active_indices :: "validator_registry \<Rightarrow> u64 \<Rightarrow> u64 list" where
  "active_indices r epoch =
     map of_nat (filter (\<lambda>i. v_activation_epoch (vr_validators r ! i) \<le> epoch \<and> epoch < v_exit_epoch (vr_validators r ! i))
       [0..<length (vr_validators r)])"

definition total_active_balance :: "validator_registry \<Rightarrow> u64 \<Rightarrow> gwei" where
  "total_active_balance r epoch =
     sum_list (map (\<lambda>i. v_effective_balance (vr_validators r ! unat i)) (active_indices r epoch))"

text \<open>\<open>saturating_add\<close> and \<open>saturating_mul\<close>.\<close>

definition sat_add :: "u64 \<Rightarrow> u64 \<Rightarrow> u64" where
  "sat_add a b = (if unat a + unat b < 2 ^ 64 then a + b else - 1)"

definition sat_mul :: "u64 \<Rightarrow> u64 \<Rightarrow> u64" where
  "sat_mul a b = (if unat a * unat b < 2 ^ 64 then a * b else - 1)"

text \<open>One index of an attestation: it counts once, and only if it is in range.\<close>

definition add_attester :: "validator list \<Rightarrow> bool list \<times> gwei \<Rightarrow> u64 \<Rightarrow> bool list \<times> gwei" where
  "add_attester vs st idx = (case st of (seen, total_bal) \<Rightarrow>
     let i = unat idx in
     if length vs \<le> i \<or> seen ! i then (seen, total_bal)
     else (seen[i := True], sat_add total_bal (v_effective_balance (vs ! i))))"

definition total_balance :: "validator_registry \<Rightarrow> u64 list \<Rightarrow> gwei" where
  "total_balance r indices =
     snd (foldl (add_attester (vr_validators r)) (replicate (length (vr_validators r)) False, 0) indices)"

definition registry_get :: "validator_registry \<Rightarrow> u64 \<Rightarrow> finality_error + validator" where
  "registry_get r idx =
     (if unat idx < length (vr_validators r) then Inr (vr_validators r ! unat idx)
      else Inl (ValidatorIndexOutOfRange idx))"

section \<open>Slashing\<close>

definition is_slashable_attestation_data :: "attestation_data \<Rightarrow> attestation_data \<Rightarrow> bool" where
  "is_slashable_attestation_data a1 a2 =
     (if a1 = a2 then False
      else if cp_epoch (ad_target a1) = cp_epoch (ad_target a2) then True
      else if cp_epoch (ad_source a1) < cp_epoch (ad_source a2) \<and> cp_epoch (ad_target a2) < cp_epoch (ad_target a1) then True
      else if cp_epoch (ad_source a2) < cp_epoch (ad_source a1) \<and> cp_epoch (ad_target a1) < cp_epoch (ad_target a2) then True
      else False)"

section \<open>Justification and finalization\<close>

record justification_store =
  js_previous_justified :: checkpoint
  js_current_justified :: checkpoint
  js_finalized :: checkpoint
  js_bits :: "bool list"

definition genesis_checkpoint :: checkpoint where
  "genesis_checkpoint = \<lparr>cp_epoch = 0, cp_root = replicate 32 0\<rparr>"

definition store_genesis :: justification_store where
  "store_genesis = \<lparr>js_previous_justified = genesis_checkpoint, js_current_justified = genesis_checkpoint,
     js_finalized = genesis_checkpoint, js_bits = replicate 4 False\<rparr>"

definition add_attestation :: "validator list \<Rightarrow> checkpoint \<Rightarrow> bool list \<times> gwei \<Rightarrow> indexed_attestation \<Rightarrow> bool list \<times> gwei" where
  "add_attestation vs target st att =
     (if ad_target (ia_data att) \<noteq> target then st else foldl (add_attester vs) st (ia_attesting_indices att))"

definition attesting_balance_for_target :: "validator_registry \<Rightarrow> indexed_attestation list \<Rightarrow> checkpoint \<Rightarrow> gwei" where
  "attesting_balance_for_target r atts target =
     snd (foldl (add_attestation (vr_validators r) target) (replicate (length (vr_validators r)) False, 0) atts)"

definition supermajority :: "validator_registry \<Rightarrow> gwei \<Rightarrow> indexed_attestation list \<Rightarrow> checkpoint \<Rightarrow> bool" where
  "supermajority r total_active atts target \<longleftrightarrow>
     sat_mul (attesting_balance_for_target r atts target) 3 \<ge> sat_mul total_active 2"

text \<open>The four finalization rules in the order of the code; a later rule overwrites an earlier one.\<close>

definition finalize :: "checkpoint \<Rightarrow> checkpoint \<Rightarrow> u64 \<Rightarrow> bool list \<Rightarrow> checkpoint \<Rightarrow> checkpoint" where
  "finalize old_previous old_current current_epoch bits f0 =
     (let f1 = (if bits ! 1 \<and> bits ! 2 \<and> bits ! 3 \<and> cp_epoch old_previous + 3 = current_epoch then old_previous else f0);
          f2 = (if bits ! 1 \<and> bits ! 2 \<and> cp_epoch old_previous + 2 = current_epoch then old_previous else f1);
          f3 = (if bits ! 0 \<and> bits ! 1 \<and> bits ! 2 \<and> cp_epoch old_current + 2 = current_epoch then old_current else f2)
      in if bits ! 0 \<and> bits ! 1 \<and> cp_epoch old_current + 1 = current_epoch then old_current else f3)"

definition process_justification_and_finalization ::
  "justification_store \<Rightarrow> u64 \<Rightarrow> checkpoint \<Rightarrow> checkpoint \<Rightarrow> indexed_attestation list \<Rightarrow> indexed_attestation list \<Rightarrow>
     validator_registry \<Rightarrow> finality_error + justification_store" where
  "process_justification_and_finalization store current_epoch current_target previous_target prev_atts curr_atts r =
     (let total_active = total_active_balance r current_epoch in
      if total_active = 0 then Inl NoActiveValidators
      else
        let old_previous = js_previous_justified store;
            old_current = js_current_justified store;
            old_bits = js_bits store;
            bits = [False, old_bits ! 0, old_bits ! 1, old_bits ! 2];
            prev_ok = supermajority r total_active prev_atts previous_target;
            justified = (if prev_ok then previous_target else old_current);
            bits = (if prev_ok then bits[1 := True] else bits);
            curr_ok = supermajority r total_active curr_atts current_target;
            justified = (if curr_ok then current_target else justified);
            bits = (if curr_ok then bits[0 := True] else bits)
        in Inr \<lparr>js_previous_justified = old_current, js_current_justified = justified,
                js_finalized = finalize old_previous old_current current_epoch bits (js_finalized store),
                js_bits = bits\<rparr>)"

section \<open>Stake-weighted output\<close>

record finality_output =
  fo_finalized_block_root :: "u8 list"
  fo_total_effective_balance_weight :: gwei
  fo_num_unique_attesters :: u64

definition count_attester :: "validator list \<Rightarrow> (bool list \<times> gwei) \<times> u64 \<Rightarrow> u64 \<Rightarrow> (bool list \<times> gwei) \<times> u64" where
  "count_attester vs st idx = (case st of ((seen, total_bal), count) \<Rightarrow>
     let i = unat idx in
     if length vs \<le> i \<or> seen ! i then st
     else ((seen[i := True], sat_add total_bal (v_effective_balance (vs ! i))), count + 1))"

definition stake_weighted_finalization_check :: "checkpoint \<Rightarrow> validator_registry \<Rightarrow> indexed_attestation list \<Rightarrow> finality_output" where
  "stake_weighted_finalization_check finalized r atts =
     (let vs = vr_validators r;
          res = foldl (\<lambda>st att. if ad_target (ia_data att) \<noteq> finalized then st
                         else foldl (count_attester vs) st (ia_attesting_indices att))
            ((replicate (length vs) False, 0), 0) atts
      in \<lparr>fo_finalized_block_root = cp_root finalized,
          fo_total_effective_balance_weight = snd (fst res),
          fo_num_unique_attesters = snd res\<rparr>)"

section \<open>Runs\<close>

text \<open>
  \<open>gasper e s J\<close>: the update has been run for the epochs up to \<open>e\<close>, with targets of the current and
  the previous epoch and any registries and attestations, and has left the store \<open>s\<close>; \<open>J\<close> are the
  checkpoints that had a supermajority on the way, and the genesis checkpoint.
\<close>

inductive gasper :: "nat \<Rightarrow> justification_store \<Rightarrow> checkpoint set \<Rightarrow> bool" where
  start: "gasper 0 store_genesis {genesis_checkpoint}"
| epoch: "gasper e s J \<Longrightarrow> e + 5 < 2 ^ 64 \<Longrightarrow>
    cp_epoch ct = of_nat (e + 1) \<Longrightarrow> cp_epoch pt = of_nat e \<Longrightarrow>
    process_justification_and_finalization s (of_nat (e + 1)) ct pt patts catts r = Inr s' \<Longrightarrow>
    J' = J \<union> {c \<in> {pt}. supermajority r (total_active_balance r (of_nat (e + 1))) patts pt}
           \<union> {c \<in> {ct}. supermajority r (total_active_balance r (of_nat (e + 1))) catts ct} \<Longrightarrow>
    gasper (e + 1) s' J'"


section \<open>Invariant of the store\<close>

abbreviation ep :: "checkpoint \<Rightarrow> nat" where
  "ep c \<equiv> unat (cp_epoch c)"

definition store_ok :: "nat \<Rightarrow> justification_store \<Rightarrow> checkpoint set \<Rightarrow> bool" where
  "store_ok e s J \<longleftrightarrow> length (js_bits s) = 4 \<and>
     ep (js_finalized s) \<le> ep (js_previous_justified s) \<and>
     ep (js_previous_justified s) \<le> ep (js_current_justified s) \<and> ep (js_current_justified s) \<le> e \<and>
     {js_finalized s, js_previous_justified s, js_current_justified s} \<subseteq> J \<and>
     (\<forall>i<4. js_bits s ! i \<longrightarrow> i \<le> e \<and> (\<exists>c\<in>J. ep c = e - i))"

lemma process_InrD:
  assumes "process_justification_and_finalization s N ct pt patts catts r = Inr s'"
  defines "pk \<equiv> supermajority r (total_active_balance r N) patts pt"
    and "ck \<equiv> supermajority r (total_active_balance r N) catts ct"
  defines "bits \<equiv> [ck, pk \<or> js_bits s ! 0, js_bits s ! 1, js_bits s ! 2]"
  shows "total_active_balance r N \<noteq> 0" and "js_previous_justified s' = js_current_justified s"
    and "js_current_justified s' = (if ck then ct else if pk then pt else js_current_justified s)"
    and "js_bits s' = bits"
    and "js_finalized s' = finalize (js_previous_justified s) (js_current_justified s) N bits (js_finalized s)"
  using assms(1) unfolding process_justification_and_finalization_def bits_def pk_def ck_def
  by (auto simp: Let_def split: if_splits)

lemma finalize_cases:
  obtains (same) "finalize p c N bits f = f"
  | (previous) k where "finalize p c N bits f = p" "bits ! (k - 1)" "cp_epoch p + of_nat k = N" "k = 2 \<or> k = 3"
  | (current) k where "finalize p c N bits f = c" "bits ! (k - 1)" "cp_epoch c + of_nat k = N" "k = 1 \<or> k = 2"
proof -
  define A B C D where "A \<longleftrightarrow> bits ! 0 \<and> bits ! 1 \<and> cp_epoch c + 1 = N"
    and "B \<longleftrightarrow> bits ! 0 \<and> bits ! 1 \<and> bits ! 2 \<and> cp_epoch c + 2 = N"
    and "C \<longleftrightarrow> bits ! 1 \<and> bits ! 2 \<and> cp_epoch p + 2 = N"
    and "D \<longleftrightarrow> bits ! 1 \<and> bits ! 2 \<and> bits ! 3 \<and> cp_epoch p + 3 = N"
  have fin: "finalize p c N bits f = (if A then c else if B then c else if C then p else if D then p else f)"
    by (simp only: finalize_def Let_def A_def B_def C_def D_def)
  consider A | "\<not> A" B | "\<not> A" "\<not> B" C | "\<not> A" "\<not> B" "\<not> C" D | "\<not> A" "\<not> B" "\<not> C" "\<not> D" by blast
  then show ?thesis
  proof cases
    case 1
    then show ?thesis by (intro current [of 1]) (simp_all add: fin A_def)
  next
    case 2
    then show ?thesis by (intro current [of 2]) (simp_all add: fin B_def)
  next
    case 3
    then show ?thesis by (intro previous [of 2]) (simp_all add: fin C_def)
  next
    case 4
    then show ?thesis by (intro previous [of 3]) (simp_all add: fin D_def)
  qed (simp add: same fin)
qed

lemma unat_of_nat_eq: "n < 2 ^ 64 \<Longrightarrow> unat (of_nat n :: u64) = n"
  by (simp add: unat_of_nat)

lemma epoch_add:
  assumes "cp_epoch c + of_nat k = of_nat (e + 1)" and "ep c \<le> e" and "e + 5 < 2 ^ 64" and "k \<le> 3"
  shows "ep c + k = e + 1"
proof -
  have "unat (cp_epoch c + of_nat k) = ep c + k"
    using assms(2-4) by (intro unat_add_no_wrap) simp
  moreover have "unat (of_nat (e + 1) :: u64) = e + 1" using assms(3) by (intro unat_of_nat_eq) simp
  ultimately show ?thesis using assms(1) by metis
qed

lemma store_ok_genesis: "store_ok 0 store_genesis {genesis_checkpoint}"
  by (auto simp: store_ok_def store_genesis_def genesis_checkpoint_def)

lemma store_ok_step:
  assumes "store_ok e s J" and "e + 5 < 2 ^ 64" and "cp_epoch ct = of_nat (e + 1)" and "cp_epoch pt = of_nat e"
    and p: "process_justification_and_finalization s (of_nat (e + 1)) ct pt patts catts r = Inr s'"
    and J': "J' = J \<union> {c \<in> {pt}. supermajority r (total_active_balance r (of_nat (e + 1))) patts pt}
           \<union> {c \<in> {ct}. supermajority r (total_active_balance r (of_nat (e + 1))) catts ct}"
  shows "store_ok (e + 1) s' J'" and "ep (js_finalized s) \<le> ep (js_finalized s')"
    and "js_finalized s' \<noteq> js_finalized s \<Longrightarrow> \<exists>c\<in>J'. ep c = ep (js_finalized s') + 1"
proof -
  define pk ck where "pk = supermajority r (total_active_balance r (of_nat (e + 1))) patts pt"
    and "ck = supermajority r (total_active_balance r (of_nat (e + 1))) catts ct"
  note P = process_InrD [OF p, folded pk_def ck_def]
  have e: "ep ct = e + 1" "ep pt = e" using assms(2) unfolding assms(3,4) by (intro unat_of_nat_eq; simp)+
  have I: "ep (js_finalized s) \<le> ep (js_previous_justified s)" "ep (js_previous_justified s) \<le> ep (js_current_justified s)"
    "ep (js_current_justified s) \<le> e" "js_finalized s \<in> J" "js_previous_justified s \<in> J" "js_current_justified s \<in> J"
    and old: "\<And>i. i < 4 \<Longrightarrow> js_bits s ! i \<Longrightarrow> i \<le> e \<and> (\<exists>c\<in>J. ep c = e - i)"
    using assms(1) by (simp_all add: store_ok_def)
  have J: "J \<subseteq> J'" "pk \<Longrightarrow> pt \<in> J'" "ck \<Longrightarrow> ct \<in> J'" by (auto simp: J' pk_def ck_def)
  have sh: "js_bits s' ! Suc j \<longleftrightarrow> j = 0 \<and> pk \<or> js_bits s ! j" if "j < 3" for j
    unfolding P(4) using that by (auto simp: less_Suc_eq numeral_3_eq_3 numeral_2_eq_2)
  have bits: "i \<le> e + 1 \<and> (\<exists>c\<in>J'. ep c = e + 1 - i)" if i: "i < 4" "js_bits s' ! i" for i
  proof (cases i)
    case 0
    then have ck using i P(4) by simp
    then show ?thesis using 0 e J(3) by auto
  next
    case (Suc j)
    with i have j: "j < 3" "j < 4" by simp_all
    consider "j = 0" pk | "js_bits s ! j" using sh [OF j(1)] i Suc by blast
    then show ?thesis
    proof cases
      case 1
      then show ?thesis using Suc e J(2) by auto
    next
      case 2
      then show ?thesis using old [OF j(2)] J(1) Suc by auto
    qed
  qed
  have fin: "js_finalized s' = js_finalized s \<or>
      (js_finalized s' = js_previous_justified s \<or> js_finalized s' = js_current_justified s) \<and> (\<exists>c\<in>J'. ep c = ep (js_finalized s') + 1)"
  proof (cases rule: finalize_cases [of "js_previous_justified s" "js_current_justified s" "of_nat (e + 1)" "js_bits s'" "js_finalized s"])
    case same
    then show ?thesis using P(4,5) by simp
  next
    case (previous k)
    have "ep (js_previous_justified s) \<le> e" using I(2,3) by simp
    then have k: "ep (js_previous_justified s) + k = e + 1"
      using previous(3) assms(2) previous(4) by (intro epoch_add) auto
    have "k - 1 < 4" "e + 1 - (k - 1) = ep (js_previous_justified s) + 1" using previous(4) k by auto
    then have "\<exists>c\<in>J'. ep c = ep (js_previous_justified s) + 1" using bits [OF _ previous(2)] by simp
    then show ?thesis using previous(1) P(4,5) by simp
  next
    case (current k)
    have k: "ep (js_current_justified s) + k = e + 1"
      using current(3) I(3) assms(2) current(4) by (intro epoch_add) auto
    have "k - 1 < 4" "e + 1 - (k - 1) = ep (js_current_justified s) + 1" using current(4) k by auto
    then have "\<exists>c\<in>J'. ep c = ep (js_current_justified s) + 1" using bits [OF _ current(2)] by simp
    then show ?thesis using current(1) P(4,5) by simp
  qed
  then show "ep (js_finalized s) \<le> ep (js_finalized s')"
    "js_finalized s' \<noteq> js_finalized s \<Longrightarrow> \<exists>c\<in>J'. ep c = ep (js_finalized s') + 1"
    using I by auto
  have 1: "js_finalized s' \<in> J'" "ep (js_finalized s') \<le> ep (js_current_justified s)"
    using fin I J(1) by auto
  have 2: "js_current_justified s' \<in> J'" "ep (js_current_justified s) \<le> ep (js_current_justified s')"
    "ep (js_current_justified s') \<le> e + 1" "js_current_justified s \<in> J'"
    unfolding P(3) using I J e by auto
  have "length (js_bits s') = 4" by (simp add: P(4))
  then show "store_ok (e + 1) s' J'"
    unfolding store_ok_def P(2) using 1 2 bits by blast
qed

lemma gasper_store_ok: "gasper e s J \<Longrightarrow> store_ok e s J"
  by (induction rule: gasper.induct) (blast intro: store_ok_genesis store_ok_step(1))+


text \<open>
  C28. In every run of the per-epoch update the finalized, previously justified and currently
  justified checkpoints are in order of their epochs, none is ahead of the current epoch, and each is
  the genesis checkpoint or had a supermajority. An update never moves finality back, and it moves it
  only to a checkpoint on top of which the next epoch is justified too.
\<close>

theorem gasper_invariant:
  assumes "gasper e s J"
  shows "ep (js_finalized s) \<le> ep (js_previous_justified s) \<and>
    ep (js_previous_justified s) \<le> ep (js_current_justified s) \<and> ep (js_current_justified s) \<le> e \<and>
    {js_finalized s, js_previous_justified s, js_current_justified s} \<subseteq> J \<and>
    (e + 5 < 2 ^ 64 \<and> cp_epoch ct = of_nat (e + 1) \<and> cp_epoch pt = of_nat e \<and>
      process_justification_and_finalization s (of_nat (e + 1)) ct pt patts catts r = Inr s' \<longrightarrow>
      ep (js_finalized s) \<le> ep (js_finalized s') \<and>
      (js_finalized s' \<noteq> js_finalized s \<longrightarrow>
         (\<exists>J'. gasper (e + 1) s' J' \<and> (\<exists>c\<in>J'. ep c = ep (js_finalized s') + 1))))"
proof (intro conjI impI)
  note ok = gasper_store_ok [OF assms]
  from ok show "ep (js_finalized s) \<le> ep (js_previous_justified s)" "ep (js_previous_justified s) \<le> ep (js_current_justified s)"
    "ep (js_current_justified s) \<le> e" "{js_finalized s, js_previous_justified s, js_current_justified s} \<subseteq> J"
    by (simp_all add: store_ok_def)
  assume A: "e + 5 < 2 ^ 64 \<and> cp_epoch ct = of_nat (e + 1) \<and> cp_epoch pt = of_nat e \<and>
      process_justification_and_finalization s (of_nat (e + 1)) ct pt patts catts r = Inr s'"
  then have A': "e + 5 < 2 ^ 64" "cp_epoch ct = of_nat (e + 1)" "cp_epoch pt = of_nat e"
    "process_justification_and_finalization s (of_nat (e + 1)) ct pt patts catts r = Inr s'" by blast+
  note step = store_ok_step [OF ok A' refl]
  show "ep (js_finalized s) \<le> ep (js_finalized s')" by (rule step(2))
  assume "js_finalized s' \<noteq> js_finalized s"
  from step(3) [OF this] gasper.epoch [OF assms A' refl]
  show "\<exists>J'. gasper (e + 1) s' J' \<and> (\<exists>c\<in>J'. ep c = ep (js_finalized s') + 1)" by blast
qed

section \<open>Weights\<close>

definition weight :: "validator list \<Rightarrow> nat set \<Rightarrow> nat" where
  "weight vs S = (\<Sum>i\<in>S. unat (v_effective_balance (vs ! i)))"

definition attesters :: "validator_registry \<Rightarrow> indexed_attestation list \<Rightarrow> checkpoint \<Rightarrow> nat list" where
  "attesters r atts target =
     filter (\<lambda>i. list_ex (\<lambda>a. ad_target (ia_data a) = target \<and> list_ex (\<lambda>x. unat x = i) (ia_attesting_indices a)) atts)
       [0..<length (vr_validators r)]"

definition active :: "validator_registry \<Rightarrow> u64 \<Rightarrow> nat list" where
  "active r epoch =
     filter (\<lambda>i. v_activation_epoch (vr_validators r ! i) \<le> epoch \<and> epoch < v_exit_epoch (vr_validators r ! i))
       [0..<length (vr_validators r)]"

text \<open>The stake of all validators stays far below the overflow of the products in the comparison.\<close>

definition bounded_stake :: "validator_registry \<Rightarrow> bool" where
  "bounded_stake r \<longleftrightarrow> length (vr_validators r) < 2 ^ 64 \<and>
     3 * sum_list (map (unat \<circ> v_effective_balance) (vr_validators r)) < 2 ^ 64"

lemma weight_all: "weight vs {..<length vs} = sum_list (map (unat \<circ> v_effective_balance) vs)"
  by (simp add: weight_def sum_list_sum_nth atLeast0LessThan)

lemma weight_mono: "S \<subseteq> T \<Longrightarrow> finite T \<Longrightarrow> weight vs S \<le> weight vs T"
  unfolding weight_def by (rule sum_mono2) simp_all

lemma weight_bound: "bounded_stake r \<Longrightarrow> S \<subseteq> {..<length (vr_validators r)} \<Longrightarrow> 3 * weight (vr_validators r) S < 2 ^ 64"
  using weight_mono [of S "{..<length (vr_validators r)}" "vr_validators r"]
  by (simp add: bounded_stake_def weight_all)

definition tally_ok :: "validator list \<Rightarrow> bool list \<times> gwei \<Rightarrow> bool" where
  "tally_ok vs st \<longleftrightarrow> length (fst st) = length vs \<and> unat (snd st) = weight vs {i. i < length vs \<and> fst st ! i}"

lemma tally_init: "tally_ok vs (replicate (length vs) False, 0)"
proof -
  have e: "{i. i < length vs \<and> replicate (length vs) False ! i} = {}" by auto
  show ?thesis unfolding tally_ok_def fst_conv snd_conv e by (simp add: weight_def)
qed

lemma tally_step:
  assumes "tally_ok vs st" and "weight vs {..<length vs} < 2 ^ 64"
  shows "tally_ok vs (add_attester vs st idx)"
    and "i < length vs \<Longrightarrow> fst (add_attester vs st idx) ! i \<longleftrightarrow> fst st ! i \<or> unat idx = i"
proof -
  obtain seen tot where st: "st = (seen, tot)" by (cases st)
  define k where "k = unat idx"
  show "i < length vs \<Longrightarrow> fst (add_attester vs st idx) ! i \<longleftrightarrow> fst st ! i \<or> unat idx = i"
    using assms(1) by (auto simp: add_attester_def st tally_ok_def nth_list_update Let_def)
  show "tally_ok vs (add_attester vs st idx)"
  proof (cases "length vs \<le> k \<or> seen ! k")
    case True
    then show ?thesis using assms(1) by (simp add: add_attester_def st k_def)
  next
    case False
    have len: "length seen = length vs" and tot: "unat tot = weight vs {i. i < length vs \<and> seen ! i}"
      using assms(1) by (simp_all add: tally_ok_def st)
    have set: "{i. i < length vs \<and> seen[k := True] ! i} = insert k {i. i < length vs \<and> seen ! i}"
      using False len by (auto simp: nth_list_update split: if_splits)
    have w: "weight vs (insert k {i. i < length vs \<and> seen ! i}) = unat (v_effective_balance (vs ! k)) + unat tot"
      using False tot by (simp add: weight_def)
    moreover have "weight vs (insert k {i. i < length vs \<and> seen ! i}) \<le> weight vs {..<length vs}"
      using False by (intro weight_mono) auto
    ultimately have "unat tot + unat (v_effective_balance (vs ! k)) < 2 ^ 64" using assms(2) by simp
    then have "unat (sat_add tot (v_effective_balance (vs ! k))) = unat (v_effective_balance (vs ! k)) + unat tot"
      by (simp add: sat_add_def unat_word_ariths)
    then show ?thesis
      using False w set len by (simp add: add_attester_def st k_def [symmetric] Let_def tally_ok_def)
  qed
qed

lemma tally_indices:
  assumes "tally_ok vs st" and "weight vs {..<length vs} < 2 ^ 64"
  shows "tally_ok vs (foldl (add_attester vs) st idxs) \<and>
    (\<forall>i<length vs. fst (foldl (add_attester vs) st idxs) ! i \<longleftrightarrow> fst st ! i \<or> list_ex (\<lambda>x. unat x = i) idxs)"
  using assms(1)
proof (induction idxs arbitrary: st)
  case (Cons x xs)
  then show ?case using tally_step [OF Cons.prems assms(2), where idx = x] by auto
qed simp

lemma tally_attestations:
  assumes "tally_ok vs st" and "weight vs {..<length vs} < 2 ^ 64"
  shows "tally_ok vs (foldl (add_attestation vs target) st atts) \<and>
    (\<forall>i<length vs. fst (foldl (add_attestation vs target) st atts) ! i \<longleftrightarrow>
       fst st ! i \<or> list_ex (\<lambda>a. ad_target (ia_data a) = target \<and> list_ex (\<lambda>x. unat x = i) (ia_attesting_indices a)) atts)"
  using assms(1)
proof (induction atts arbitrary: st)
  case (Cons a atts)
  then show ?case
    using tally_indices [OF Cons.prems assms(2), of "ia_attesting_indices a"] by (auto simp: add_attestation_def)
qed simp

lemma attesting_balance_weight:
  assumes "bounded_stake r"
  shows "unat (attesting_balance_for_target r atts target) = weight (vr_validators r) (set (attesters r atts target))"
proof -
  define vs where "vs = vr_validators r"
  have "weight vs {..<length vs} < 2 ^ 64" using weight_bound [OF assms, of "{..<length vs}"] by (simp add: vs_def)
  from tally_attestations [OF tally_init [of vs] this, of target atts]
  have t: "tally_ok vs (foldl (add_attestation vs target) (replicate (length vs) False, 0) atts)"
    and s: "\<forall>i<length vs. fst (foldl (add_attestation vs target) (replicate (length vs) False, 0) atts) ! i \<longleftrightarrow>
       list_ex (\<lambda>a. ad_target (ia_data a) = target \<and> list_ex (\<lambda>x. unat x = i) (ia_attesting_indices a)) atts"
    by auto
  have "{i. i < length vs \<and> fst (foldl (add_attestation vs target) (replicate (length vs) False, 0) atts) ! i} = set (attesters r atts target)"
    using s by (auto simp: attesters_def vs_def)
  with t show ?thesis by (simp add: tally_ok_def attesting_balance_for_target_def vs_def)
qed

lemma unat_sum_list:
  fixes ws :: "u64 list"
  shows "sum_list (map unat ws) < 2 ^ 64 \<Longrightarrow> unat (sum_list ws) = sum_list (map unat ws)"
  by (induction ws) (simp_all add: unat_word_ariths)

lemma total_active_weight:
  assumes "bounded_stake r"
  shows "unat (total_active_balance r epoch) = weight (vr_validators r) (set (active r epoch))"
proof -
  define vs where "vs = vr_validators r"
  define as where "as = active r epoch"
  have sub: "set as \<subseteq> {..<length vs}" by (auto simp: as_def active_def vs_def)
  have "unat (of_nat i :: u64) = i" if "i \<in> set as" for i
    using that sub assms by (intro unat_of_nat_eq) (auto simp: bounded_stake_def vs_def)
  then have "map (\<lambda>i. v_effective_balance (vs ! unat i)) (map of_nat as :: u64 list) = map (\<lambda>i. v_effective_balance (vs ! i)) as"
    by simp
  moreover have "active_indices r epoch = map of_nat as" by (simp add: active_indices_def as_def active_def)
  ultimately have t: "total_active_balance r epoch = sum_list (map (\<lambda>i. v_effective_balance (vs ! i)) as)"
    by (simp only: total_active_balance_def vs_def)
  have "distinct as" by (simp add: as_def active_def)
  then have w: "sum_list (map unat (map (\<lambda>i. v_effective_balance (vs ! i)) as)) = weight vs (set as)"
    by (simp add: weight_def comp_def sum_list_distinct_conv_sum_set)
  moreover have "weight vs (set as) < 2 ^ 64"
    using weight_bound [OF assms sub [unfolded vs_def]] by (simp add: vs_def)
  ultimately show ?thesis using unat_sum_list by (simp add: t as_def vs_def)
qed


section \<open>Accountability\<close>

lemma supermajority_weight:
  assumes "bounded_stake r"
  shows "supermajority r (total_active_balance r epoch) atts target \<longleftrightarrow>
    2 * weight (vr_validators r) (set (active r epoch)) \<le> 3 * weight (vr_validators r) (set (attesters r atts target))"
proof -
  have "set (active r epoch) \<subseteq> {..<length (vr_validators r)}" "set (attesters r atts target) \<subseteq> {..<length (vr_validators r)}"
    by (auto simp: active_def attesters_def)
  note b = this [THEN weight_bound [OF assms]]
  have "unat (sat_mul (attesting_balance_for_target r atts target) 3) = 3 * weight (vr_validators r) (set (attesters r atts target))"
    "unat (sat_mul (total_active_balance r epoch) 2) = 2 * weight (vr_validators r) (set (active r epoch))"
    using b by (simp_all add: sat_mul_def unat_word_ariths attesting_balance_weight [OF assms] total_active_weight [OF assms])
  then show ?thesis by (simp add: supermajority_def word_le_nat_alt)
qed

lemma attestersD: "i \<in> set (attesters r atts c) \<Longrightarrow> \<exists>a\<in>set atts. ad_target (ia_data a) = c \<and> i \<in> unat ` set (ia_attesting_indices a)"
  by (auto simp: attesters_def list_ex_iff)

text \<open>
  C13. Conflicting justifications are accountable: if two different checkpoints of the same epoch both
  get a supermajority from validators that are active, the validators that attested to both hold at
  least a third of the active stake, and each of them has signed two attestations that the slashing
  condition catches.
\<close>

theorem conflicting_justification_slashable:
  assumes "bounded_stake r" and "c \<noteq> d" and "cp_epoch c = cp_epoch d"
    and "supermajority r (total_active_balance r epoch) atts c"
    and "supermajority r (total_active_balance r epoch) atts' d"
    and "set (attesters r atts c) \<subseteq> set (active r epoch)" and "set (attesters r atts' d) \<subseteq> set (active r epoch)"
  shows "unat (total_active_balance r epoch) \<le> 3 * weight (vr_validators r) (set (attesters r atts c) \<inter> set (attesters r atts' d)) \<and>
    (\<forall>i \<in> set (attesters r atts c) \<inter> set (attesters r atts' d). \<exists>a\<in>set atts. \<exists>b\<in>set atts'.
       i \<in> unat ` set (ia_attesting_indices a) \<and> i \<in> unat ` set (ia_attesting_indices b) \<and>
       is_slashable_attestation_data (ia_data a) (ia_data b))"
proof (intro conjI ballI)
  let ?w = "weight (vr_validators r)" and ?A = "set (attesters r atts c)" and ?B = "set (attesters r atts' d)"
  have "?w (?A \<union> ?B) + ?w (?A \<inter> ?B) = ?w ?A + ?w ?B"
    by (simp add: weight_def sum.union_inter)
  moreover have "?w (?A \<union> ?B) \<le> ?w (set (active r epoch))" using assms(6,7) by (intro weight_mono) auto
  moreover have "2 * ?w (set (active r epoch)) \<le> 3 * ?w ?A" "2 * ?w (set (active r epoch)) \<le> 3 * ?w ?B"
    using assms(4,5) supermajority_weight [OF assms(1)] by blast+
  ultimately show "unat (total_active_balance r epoch) \<le> 3 * ?w (?A \<inter> ?B)"
    unfolding total_active_weight [OF assms(1)] by linarith
  fix i assume "i \<in> ?A \<inter> ?B"
  then obtain a b where ab: "a \<in> set atts" "ad_target (ia_data a) = c" "i \<in> unat ` set (ia_attesting_indices a)"
    "b \<in> set atts'" "ad_target (ia_data b) = d" "i \<in> unat ` set (ia_attesting_indices b)"
    using attestersD [of i r atts c] attestersD [of i r atts' d] by blast
  moreover have "is_slashable_attestation_data (ia_data a) (ia_data b)"
    using ab assms(2,3) by (auto simp: is_slashable_attestation_data_def)
  ultimately show "\<exists>a\<in>set atts. \<exists>b\<in>set atts'. i \<in> unat ` set (ia_attesting_indices a) \<and>
      i \<in> unat ` set (ia_attesting_indices b) \<and> is_slashable_attestation_data (ia_data a) (ia_data b)" by blast
qed

section \<open>Progress\<close>

lemma justified_in_time:
  assumes "bounded_stake r"
    and "0 < weight (vr_validators r) (set (active r N))"
    and "2 * weight (vr_validators r) (set (active r N)) \<le> 3 * weight (vr_validators r) (set (attesters r catts ct))"
  shows "\<exists>s'. process_justification_and_finalization s N ct pt patts catts r = Inr s' \<and>
    js_current_justified s' = ct \<and> js_bits s' ! 0 \<and>
    (js_bits s ! 0 \<and> cp_epoch (js_current_justified s) + 1 = N \<longrightarrow> js_finalized s' = js_current_justified s)"
proof -
  have "total_active_balance r N \<noteq> 0"
    using assms(2) total_active_weight [OF assms(1), of N] by auto
  then obtain s' where s': "process_justification_and_finalization s N ct pt patts catts r = Inr s'"
    by (simp add: process_justification_and_finalization_def Let_def)
  have "supermajority r (total_active_balance r N) catts ct"
    using assms(3) supermajority_weight [OF assms(1)] by blast
  with process_InrD(3-5) [OF s'] s' show ?thesis
    by (intro exI [of _ s']) (simp add: finalize_def)
qed

text \<open>
  C39. Finality makes progress: from every store that a run can reach, if validators with two thirds of
  the active stake attest in time to the targets of two successive epochs, both updates succeed and
  the second one finalizes the first of the two targets, whatever was justified before.
\<close>

theorem finality_progress:
  assumes "gasper e s J" and "e + 6 < 2 ^ 64"
    and "cp_epoch c0 = of_nat e" and "cp_epoch c1 = of_nat (e + 1)" and "cp_epoch c2 = of_nat (e + 2)"
    and "bounded_stake r1" and "0 < weight (vr_validators r1) (set (active r1 (of_nat (e + 1))))"
    and "2 * weight (vr_validators r1) (set (active r1 (of_nat (e + 1)))) \<le> 3 * weight (vr_validators r1) (set (attesters r1 atts1 c1))"
    and "bounded_stake r2" and "0 < weight (vr_validators r2) (set (active r2 (of_nat (e + 2))))"
    and "2 * weight (vr_validators r2) (set (active r2 (of_nat (e + 2)))) \<le> 3 * weight (vr_validators r2) (set (attesters r2 atts2 c2))"
  shows "\<exists>s1 s2 J'. process_justification_and_finalization s (of_nat (e + 1)) c1 c0 patts1 atts1 r1 = Inr s1 \<and>
    process_justification_and_finalization s1 (of_nat (e + 2)) c2 c1 patts2 atts2 r2 = Inr s2 \<and>
    gasper (e + 2) s2 J' \<and> js_finalized s2 = c1 \<and> js_current_justified s2 = c2"
proof -
  obtain s1 where s1: "process_justification_and_finalization s (of_nat (e + 1)) c1 c0 patts1 atts1 r1 = Inr s1"
    "js_current_justified s1 = c1" "js_bits s1 ! 0"
    using justified_in_time [OF assms(6-8)] by blast
  obtain s2 where s2: "process_justification_and_finalization s1 (of_nat (e + 2)) c2 c1 patts2 atts2 r2 = Inr s2"
    "js_current_justified s2 = c2"
    and fin: "cp_epoch (js_current_justified s1) + 1 = of_nat (e + 2) \<longrightarrow> js_finalized s2 = js_current_justified s1"
    using justified_in_time [OF assms(9-11)] s1(3) by blast
  have "js_finalized s2 = c1" using fin s1(2) assms(4) by simp
  moreover obtain J1 where J1: "gasper (e + 1) s1 J1"
    using gasper.epoch [OF assms(1) _ assms(4,3) s1(1) refl] assms(2) by auto
  obtain J2 where "gasper (e + 1 + 1) s2 J2"
    using gasper.epoch [OF J1, of c2 c1 patts2 atts2 r2 s2] assms(2,4,5) s2(1) by (auto simp: add.assoc)
  ultimately show ?thesis using s1(1) s2 by (intro exI [of _ s1] exI [of _ s2] exI [of _ J2]) (simp add: add.assoc)
qed

section \<open>Examples\<close>

definition demo_validator :: "u64 \<Rightarrow> validator" where
  "demo_validator exit_epoch = validator_default\<lparr>v_effective_balance := 32, v_exit_epoch := exit_epoch\<rparr>"

definition demo_registry :: validator_registry where
  "demo_registry = registry_new [demo_validator 100, demo_validator 100, demo_validator 100] [32, 32, 32]"

definition demo_checkpoint :: "u8 \<Rightarrow> checkpoint" where
  "demo_checkpoint b = \<lparr>cp_epoch = 1, cp_root = [b]\<rparr>"

definition demo_attestation :: "u64 list \<Rightarrow> checkpoint \<Rightarrow> indexed_attestation" where
  "demo_attestation is c = \<lparr>ia_attesting_indices = is,
     ia_data = \<lparr>ad_slot = 32, ad_index = 0, ad_beacon_block_root = [], ad_source = genesis_checkpoint, ad_target = c\<rparr>,
     ia_signature = []\<rparr>"

lemmas demo_defs = demo_validator_def demo_registry_def demo_checkpoint_def demo_attestation_def registry_new_def
  validator_default_def genesis_checkpoint_def

lemma demo_upt3: "[0..<3] = [0, 1, 2 :: nat]" "[0..<Suc (Suc (Suc 0))] = [0, 1, 2 :: nat]"
  by (simp_all add: upt_rec)

theorem conflicting_justification_slashable_witness:
  "unat (total_active_balance demo_registry 1) \<le>
     3 * weight (vr_validators demo_registry) (set (attesters demo_registry [demo_attestation [0, 1] (demo_checkpoint 1)] (demo_checkpoint 1)) \<inter>
       set (attesters demo_registry [demo_attestation [1, 2] (demo_checkpoint 2)] (demo_checkpoint 2)))"
proof -
  have b: "bounded_stake demo_registry" by (simp add: bounded_stake_def demo_defs)
  have act: "active demo_registry 1 = [0, 1, 2]" by (simp add: active_def demo_defs demo_upt3)
  have att: "attesters demo_registry [demo_attestation [0, 1] (demo_checkpoint 1)] (demo_checkpoint 1) = [0, 1]"
    "attesters demo_registry [demo_attestation [1, 2] (demo_checkpoint 2)] (demo_checkpoint 2) = [1, 2]"
    by (simp_all add: attesters_def demo_defs demo_upt3)
  have sup: "supermajority demo_registry (total_active_balance demo_registry 1) [demo_attestation [0, 1] (demo_checkpoint 1)] (demo_checkpoint 1)"
    "supermajority demo_registry (total_active_balance demo_registry 1) [demo_attestation [1, 2] (demo_checkpoint 2)] (demo_checkpoint 2)"
    unfolding supermajority_weight [OF b] act att by (simp_all add: weight_def demo_defs)
  have "demo_checkpoint 1 \<noteq> demo_checkpoint 2" "cp_epoch (demo_checkpoint 1) = cp_epoch (demo_checkpoint 2)"
    by (simp_all add: demo_checkpoint_def)
  from conflicting_justification_slashable [OF b this sup] show ?thesis by (simp add: act att)
qed

theorem gasper_invariant_witness:
  "\<exists>s J. gasper 1 s J \<and> js_current_justified s = demo_checkpoint 1 \<and> ep (js_finalized s) \<le> ep (js_current_justified s) \<and>
     js_current_justified s \<in> J"
proof -
  have b: "bounded_stake demo_registry" by (simp add: bounded_stake_def demo_defs)
  have act: "active demo_registry 1 = [0, 1, 2]" by (simp add: active_def demo_defs demo_upt3)
  have att: "attesters demo_registry [demo_attestation [0, 1] (demo_checkpoint 1)] (demo_checkpoint 1) = [0, 1]"
    by (simp add: attesters_def demo_defs demo_upt3)
  have sup: "supermajority demo_registry (total_active_balance demo_registry 1) [demo_attestation [0, 1] (demo_checkpoint 1)] (demo_checkpoint 1)"
    unfolding supermajority_weight [OF b] act att by (simp add: weight_def demo_defs)
  have "unat (total_active_balance demo_registry 1) = 96"
    unfolding total_active_weight [OF b] act by (simp add: weight_def demo_defs)
  then have "total_active_balance demo_registry 1 \<noteq> 0" by (metis unsigned_0 zero_neq_numeral)
  then obtain s where s: "process_justification_and_finalization store_genesis (of_nat (0 + 1)) (demo_checkpoint 1) genesis_checkpoint
      [] [demo_attestation [0, 1] (demo_checkpoint 1)] demo_registry = Inr s"
    by (simp add: process_justification_and_finalization_def Let_def)
  have "js_current_justified s = demo_checkpoint 1"
    using process_InrD(3) [OF s] sup by simp
  moreover have "\<exists>J. gasper (0 + 1) s J"
    by (rule exI, rule gasper.epoch [OF gasper.start _ _ _ s refl])
      (simp_all add: demo_checkpoint_def genesis_checkpoint_def)
  then obtain J where J: "gasper 1 s J" by auto
  ultimately show ?thesis using gasper_invariant [OF J] by (meson insert_subset le_trans)
qed

theorem finality_progress_witness:
  "\<exists>s1 s2. process_justification_and_finalization store_genesis 1 (demo_checkpoint 1) genesis_checkpoint []
        [demo_attestation [0, 1] (demo_checkpoint 1)] demo_registry = Inr s1 \<and>
    process_justification_and_finalization s1 2 \<lparr>cp_epoch = 2, cp_root = [7]\<rparr> (demo_checkpoint 1) []
        [demo_attestation [1, 2] \<lparr>cp_epoch = 2, cp_root = [7]\<rparr>] demo_registry = Inr s2 \<and>
    js_finalized s2 = demo_checkpoint 1"
proof -
  have b: "bounded_stake demo_registry" by (simp add: bounded_stake_def demo_defs)
  have act: "active demo_registry 1 = [0, 1, 2]" "active demo_registry 2 = [0, 1, 2]"
    by (simp_all add: active_def demo_defs demo_upt3)
  have att: "attesters demo_registry [demo_attestation [0, 1] (demo_checkpoint 1)] (demo_checkpoint 1) = [0, 1]"
    "attesters demo_registry [demo_attestation [1, 2] \<lparr>cp_epoch = 2, cp_root = [7]\<rparr>] \<lparr>cp_epoch = 2, cp_root = [7]\<rparr> = [1, 2]"
    by (simp_all add: attesters_def demo_defs demo_upt3)
  have w: "weight (vr_validators demo_registry) (set [0, 1, 2]) = 96" "weight (vr_validators demo_registry) (set [0, 1]) = 64"
    "weight (vr_validators demo_registry) (set [1, 2]) = 64"
    by (simp_all add: weight_def demo_defs)
  have e: "of_nat (0 + 1) = (1 :: u64)" "of_nat (0 + 2) = (2 :: u64)" "(0 :: nat) + 6 < 2 ^ 64"
    "cp_epoch genesis_checkpoint = of_nat 0" "cp_epoch (demo_checkpoint 1) = 1" "cp_epoch \<lparr>cp_epoch = 2, cp_root = [7]\<rparr> = 2"
    by (simp_all add: demo_checkpoint_def genesis_checkpoint_def)
  have "\<exists>s1 s2 J'. process_justification_and_finalization store_genesis (of_nat (0 + 1)) (demo_checkpoint 1) genesis_checkpoint []
        [demo_attestation [0, 1] (demo_checkpoint 1)] demo_registry = Inr s1 \<and>
    process_justification_and_finalization s1 (of_nat (0 + 2)) \<lparr>cp_epoch = 2, cp_root = [7]\<rparr> (demo_checkpoint 1) []
        [demo_attestation [1, 2] \<lparr>cp_epoch = 2, cp_root = [7]\<rparr>] demo_registry = Inr s2 \<and>
    gasper (0 + 2) s2 J' \<and> js_finalized s2 = demo_checkpoint 1 \<and> js_current_justified s2 = \<lparr>cp_epoch = 2, cp_root = [7]\<rparr>"
    by (rule finality_progress [OF gasper.start], unfold e act att w) (simp_all add: b)
  then show ?thesis unfolding e by blast
qed

text \<open>
  The attesting balance is not restricted to active validators: the stake of validators that have
  left the set justifies a checkpoint although no active validator voted for it.
\<close>

lemma inactive_stake_justifies:
  "let r = registry_new [demo_validator 1, demo_validator 1, demo_validator 100] [32, 32, 32];
       c = demo_checkpoint 1
   in active r 1 = [2] \<and> attesters r [demo_attestation [0, 1] c] c = [0, 1] \<and>
      supermajority r (total_active_balance r 1) [demo_attestation [0, 1] c] c"
proof -
  define r where "r = registry_new [demo_validator 1, demo_validator 1, demo_validator 100] [32, 32, 32]"
  have b: "bounded_stake r" by (simp add: r_def bounded_stake_def demo_defs)
  have act: "active r 1 = [2]" by (simp add: r_def active_def demo_defs demo_upt3)
  have att: "attesters r [demo_attestation [0, 1] (demo_checkpoint 1)] (demo_checkpoint 1) = [0, 1]"
    by (simp add: r_def attesters_def demo_defs demo_upt3)
  have "supermajority r (total_active_balance r 1) [demo_attestation [0, 1] (demo_checkpoint 1)] (demo_checkpoint 1)"
    unfolding supermajority_weight [OF b] act att by (simp add: r_def weight_def demo_defs)
  with act att show ?thesis by (simp add: r_def Let_def)
qed

end
