(* ===== verification/Zkp_Bloom.thy ===== *)
theory Zkp_Bloom
  imports Zkp_Keccak
begin

text \<open>
  The logs bloom filter of \<^verbatim>\<open>crates/zkp/src/bloom.rs\<close>. A bit of the filter of a block is set exactly
  if it is one of the three bits of some address or topic of its logs, so a query never misses one.

  A filter is a list of 256 bytes; bit 0 is the lowest bit of the last byte. Indices are \<open>u16\<close> words
  below 2048: both callers mask them to eleven bits, so the byte index stays in range.
\<close>

type_synonym u16_index = u16
type_synonym bloom = "u8 list"

abbreviation BLOOM_BYTE_LENGTH :: nat where
  "BLOOM_BYTE_LENGTH \<equiv> 256"

definition bloom_set_bit :: "bloom \<Rightarrow> u16_index \<Rightarrow> bloom" where
  "bloom_set_bit bloom idx =
     (let byte_index = BLOOM_BYTE_LENGTH - 1 - unat idx div 8; bit_mask = push_bit (unat idx mod 8) 1
      in bloom[byte_index := bloom ! byte_index OR bit_mask])"

definition bloom_get_bit :: "bloom \<Rightarrow> u16_index \<Rightarrow> bool" where
  "bloom_get_bit bloom idx =
     (let byte_index = BLOOM_BYTE_LENGTH - 1 - unat idx div 8; bit_mask = push_bit (unat idx mod 8) 1
      in bloom ! byte_index AND bit_mask \<noteq> 0)"

definition u16_from_be :: "u8 \<Rightarrow> u8 \<Rightarrow> u16" where
  "u16_from_be hi lo = from_le_bytes [lo, hi]"

definition indices_from_hash :: "u8 list \<Rightarrow> u16_index \<times> u16_index \<times> u16_index" where
  "indices_from_hash hash =
     (u16_from_be (hash ! 0) (hash ! 1) AND 0x07FF,
      u16_from_be (hash ! 2) (hash ! 3) AND 0x07FF,
      u16_from_be (hash ! 4) (hash ! 5) AND 0x07FF)"

definition zero_bloom :: bloom where
  "zero_bloom = replicate BLOOM_BYTE_LENGTH 0"

definition bloom_m3_2048 :: "u8 list \<Rightarrow> bloom" where
  "bloom_m3_2048 item =
     (case indices_from_hash (keccak256 item) of (i0, i1, i2) \<Rightarrow>
        bloom_set_bit (bloom_set_bit (bloom_set_bit zero_bloom i0) i1) i2)"

definition or_into :: "bloom \<Rightarrow> bloom \<Rightarrow> bloom" where
  "or_into dst src = map (\<lambda>i. dst ! i OR src ! i) [0..<BLOOM_BYTE_LENGTH]"

definition logs_bloom_for_log :: "u8 list \<Rightarrow> u8 list list \<Rightarrow> bloom" where
  "logs_bloom_for_log address topics = foldl (\<lambda>bloom t. or_into bloom (bloom_m3_2048 t)) (bloom_m3_2048 address) topics"

definition logs_bloom_for_block :: "(u8 list \<times> u8 list list) list \<Rightarrow> bloom" where
  "logs_bloom_for_block logs =
     foldl (\<lambda>bloom (addr, topics). or_into bloom (logs_bloom_for_log addr topics)) zero_bloom logs"

definition bloom_contains :: "bloom \<Rightarrow> u8 list \<Rightarrow> bool" where
  "bloom_contains bloom item =
     (case indices_from_hash (keccak256 item) of (i0, i1, i2) \<Rightarrow>
        bloom_get_bit bloom i0 \<and> bloom_get_bit bloom i1 \<and> bloom_get_bit bloom i2)"

definition popcount :: "bloom \<Rightarrow> nat" where
  "popcount bloom = sum_list (map (\<lambda>b. length (filter (bit b) [0..<8])) bloom)"

section \<open>Bits of a filter\<close>

abbreviation bloom_index :: "u16_index \<Rightarrow> bool" where
  "bloom_index i \<equiv> unat i < 2048"

definition item_bits :: "u8 list \<Rightarrow> u16_index list" where
  "item_bits item = (case indices_from_hash (keccak256 item) of (i0, i1, i2) \<Rightarrow> [i0, i1, i2])"

lemma index_bounded: "bloom_index (w AND 0x07FF)"
  using unat_and_pow2_mask [of w 11] by (simp add: mask_eq_exp_minus_1)

lemma item_bits_bounded: "list_all bloom_index (item_bits item)"
  by (simp add: item_bits_def indices_from_hash_def index_bounded)

lemma get_bit_iff: "bloom_get_bit b i \<longleftrightarrow> bit (b ! (255 - unat i div 8)) (unat i mod 8)"
  unfolding bloom_get_bit_def Let_def and_push_bit_one by simp

lemma length_set_bit [simp]: "length (bloom_set_bit b i) = length b"
  by (simp add: bloom_set_bit_def Let_def)

lemma length_bloom [simp]: "length zero_bloom = 256" "length (or_into a b) = 256" "length (bloom_m3_2048 item) = 256"
  by (simp_all add: zero_bloom_def or_into_def bloom_m3_2048_def split: prod.split)

lemma get_set_bit:
  assumes "length b = 256" and "bloom_index i" and "bloom_index j"
  shows "bloom_get_bit (bloom_set_bit b i) j \<longleftrightarrow> j = i \<or> bloom_get_bit b j"
proof -
  have q: "unat i div 8 < 256" "unat j div 8 < 256" using assms(2,3) by (simp_all add: less_mult_imp_div_less)
  have "j = i \<longleftrightarrow> unat i div 8 = unat j div 8 \<and> unat i mod 8 = unat j mod 8"
    by (metis mult_div_mod_eq word_unat_eq_iff)
  moreover have "255 - unat i div 8 = 255 - unat j div 8 \<longleftrightarrow> unat i div 8 = unat j div 8" using q by linarith
  moreover have "bit (push_bit (unat i mod 8) 1 :: u8) (unat j mod 8) \<longleftrightarrow> unat i mod 8 = unat j mod 8"
    unfolding bit_push_bit_one by auto
  ultimately show ?thesis
    using assms(1) q unfolding get_bit_iff bloom_set_bit_def Let_def
    by (auto simp: nth_list_update bit_or_iff simp del: push_bit_of_1)
qed

lemma get_or_into: "bloom_index j \<Longrightarrow> bloom_get_bit (or_into a b) j \<longleftrightarrow> bloom_get_bit a j \<or> bloom_get_bit b j"
  unfolding get_bit_iff or_into_def
  by (subst nth_map) (simp_all add: bit_or_iff)

lemma get_zero_bloom: "bloom_index j \<Longrightarrow> \<not> bloom_get_bit zero_bloom j"
  by (simp add: get_bit_iff zero_bloom_def)

lemma get_m3: "bloom_index j \<Longrightarrow> bloom_get_bit (bloom_m3_2048 item) j \<longleftrightarrow> j \<in> set (item_bits item)"
  using item_bits_bounded [of item]
  by (auto simp: bloom_m3_2048_def item_bits_def get_set_bit get_zero_bloom split: prod.splits)

lemma get_log_bloom:
  assumes "bloom_index j"
  shows "bloom_get_bit (logs_bloom_for_log address topics) j \<longleftrightarrow> list_ex (\<lambda>x. j \<in> set (item_bits x)) (address # topics)"
proof -
  have "bloom_get_bit (foldl (\<lambda>bloom t. or_into bloom (bloom_m3_2048 t)) b topics) j \<longleftrightarrow>
      bloom_get_bit b j \<or> list_ex (\<lambda>x. j \<in> set (item_bits x)) topics" for b
    by (induction topics arbitrary: b) (auto simp: get_or_into get_m3 assms)
  then show ?thesis by (simp add: logs_bloom_for_log_def get_m3 assms)
qed

lemma get_block_bloom:
  assumes "bloom_index j"
  shows "bloom_get_bit (logs_bloom_for_block logs) j \<longleftrightarrow>
    list_ex (\<lambda>(a, ts). list_ex (\<lambda>x. j \<in> set (item_bits x)) (a # ts)) logs"
proof -
  have "bloom_get_bit (foldl (\<lambda>bloom (addr, topics). or_into bloom (logs_bloom_for_log addr topics)) b logs) j \<longleftrightarrow>
      bloom_get_bit b j \<or> list_ex (\<lambda>(a, ts). list_ex (\<lambda>x. j \<in> set (item_bits x)) (a # ts)) logs" for b
  proof (induction logs arbitrary: b)
    case (Cons l logs)
    obtain a ts where l: "l = (a, ts)" by (cases l)
    show ?case
      by (simp only: l foldl.simps(2) prod.case Cons.IH get_or_into [OF assms] get_log_bloom [OF assms] list_ex_Cons_iff disj_assoc)
  qed simp
  then show ?thesis by (simp add: logs_bloom_for_block_def get_zero_bloom assms)
qed

lemma bloom_contains_bits: "bloom_contains b item \<longleftrightarrow> list_all (bloom_get_bit b) (item_bits item)"
  by (simp add: bloom_contains_def item_bits_def split: prod.split)

text \<open>
  The bloom filter of a block has no false negatives: the query for the address or a topic of any
  of its logs succeeds. A bit is set exactly if it belongs to some address or topic of the logs.
\<close>

theorem bloom_no_false_negatives:
  "(bloom_index j \<longrightarrow> (bloom_get_bit (logs_bloom_for_block logs) j \<longleftrightarrow>
      list_ex (\<lambda>(a, ts). list_ex (\<lambda>x. j \<in> set (item_bits x)) (a # ts)) logs)) \<and>
   ((a, ts) \<in> set logs \<and> x \<in> set (a # ts) \<longrightarrow> bloom_contains (logs_bloom_for_block logs) x)"
proof (intro conjI impI)
  assume A: "(a, ts) \<in> set logs \<and> x \<in> set (a # ts)"
  show "bloom_contains (logs_bloom_for_block logs) x"
    unfolding bloom_contains_bits list_all_iff
  proof
    fix j assume j: "j \<in> set (item_bits x)"
    then have "bloom_index j" using item_bits_bounded [of x] by (simp add: list_all_iff)
    then show "bloom_get_bit (logs_bloom_for_block logs) j"
      using A j by (fastforce simp: get_block_bloom list_ex_iff)
  qed
qed (rule get_block_bloom)

theorem bloom_no_false_negatives_witness:
  "bloom_contains (logs_bloom_for_block [(replicate 20 1, [replicate 32 2]), (replicate 20 3, [])]) (replicate 32 2)"
  using bloom_no_false_negatives [of 0 "[(replicate 20 1, [replicate 32 2]), (replicate 20 3, [])]" "replicate 20 1" "[replicate 32 2]" "replicate 32 2"]
  by simp

end
