(* ===== verification/Core_Share.thy ===== *)
theory Core_Share
  imports Complex_Main Rv_Prelude Zkp_Poly
begin

text \<open>
  Shamir secret sharing of \<^verbatim>\<open>crates/core/src/share.rs\<close>. Enough shares reconstruct the secret, sums and
  multiples of shares are shares of sums and multiples, and fewer shares than the threshold are
  consistent with every secret.

  \<^verbatim>\<open>FieldElement\<close> wraps the scalars of a third-party curve crate; the model takes any field for it. What
  the code relies on is the remark of \<^verbatim>\<open>field.rs\<close> that all \<^verbatim>\<open>u64\<close> values fit without reduction, the
  hypothesis \<open>u64_fits\<close>. The draws of the random generator are an argument.
\<close>

section \<open>Operations\<close>

definition fe_from_u64 :: "u64 \<Rightarrow> 'a::field" where
  "fe_from_u64 val = of_nat (unat val)"

record 'a share =
  sh_id :: u64
  sh_value :: 'a

text \<open>The evaluation loop of \<open>share\<close>, with the running power of \<open>x\<close>.\<close>

definition share_value :: "'a::field list \<Rightarrow> nat \<Rightarrow> 'a \<Rightarrow> 'a" where
  "share_value coeffs t x =
     fst (fold (\<lambda>j (result, x_pow). (result + coeffs ! j * x_pow, x_pow * x)) [1..<t] (coeffs ! 0, x))"

text \<open>\<open>draws j\<close> is the \<open>j\<close>-th random coefficient; the two assertions panic.\<close>

definition share_secret :: "'a::field \<Rightarrow> nat \<Rightarrow> nat \<Rightarrow> (nat \<Rightarrow> 'a) \<Rightarrow> 'a share list option" where
  "share_secret secret n t draws =
     (if t < 1 \<or> n < t then None
      else let coeffs = secret # map draws [1..<t]
           in Some (map (\<lambda>i. \<lparr>sh_id = of_nat i, sh_value = share_value coeffs t (fe_from_u64 (of_nat i))\<rparr>) [1..<Suc n]))"

text \<open>The inner loop of \<open>reconstruct\<close>: the numerator and denominator of a Lagrange coefficient at zero.\<close>

definition lagrange_parts :: "'a::field share list \<Rightarrow> nat \<Rightarrow> 'a \<times> 'a" where
  "lagrange_parts shares j =
     fold (\<lambda>k (num, den).
         if j \<noteq> k then
           let xk = fe_from_u64 (sh_id (shares ! k)) in (num * xk, den * (xk - fe_from_u64 (sh_id (shares ! j))))
         else (num, den))
       [0..<length shares] (1, 1)"

definition reconstruct :: "'a::field share list \<Rightarrow> 'a" where
  "reconstruct shares =
     fold (\<lambda>j result.
         let (num, den) = lagrange_parts shares j; lagrange_coeff = num * inverse den
         in result + lagrange_coeff * sh_value (shares ! j))
       [0..<length shares] 0"

text \<open>The assertions on lengths and identifiers panic.\<close>

definition share_add :: "'a::field share list \<Rightarrow> 'a share list \<Rightarrow> 'a share list option" where
  "share_add a b =
     (if length a \<noteq> length b \<or> list_ex (\<lambda>(ai, bi). sh_id ai \<noteq> sh_id bi) (zip a b) then None
      else Some (map (\<lambda>(ai, bi). \<lparr>sh_id = sh_id ai, sh_value = sh_value ai + sh_value bi\<rparr>) (zip a b)))"

definition share_sub :: "'a::field share list \<Rightarrow> 'a share list \<Rightarrow> 'a share list option" where
  "share_sub a b =
     (if length a \<noteq> length b \<or> list_ex (\<lambda>(ai, bi). sh_id ai \<noteq> sh_id bi) (zip a b) then None
      else Some (map (\<lambda>(ai, bi). \<lparr>sh_id = sh_id ai, sh_value = sh_value ai - sh_value bi\<rparr>) (zip a b)))"

definition share_mul_const :: "'a::field share list \<Rightarrow> 'a \<Rightarrow> 'a share list" where
  "share_mul_const shares c = map (\<lambda>s. \<lparr>sh_id = sh_id s, sh_value = sh_value s * c\<rparr>) shares"

definition share_add_const :: "'a::field share list \<Rightarrow> 'a \<Rightarrow> 'a share list" where
  "share_add_const shares c = map (\<lambda>s. \<lparr>sh_id = sh_id s, sh_value = sh_value s + c\<rparr>) shares"

text \<open>What the code relies on of the field: \<^verbatim>\<open>u64\<close> values are not reduced.\<close>

definition u64_fits :: "'a::field itself \<Rightarrow> bool" where
  "u64_fits T \<longleftrightarrow> inj (fe_from_u64 :: u64 \<Rightarrow> 'a)"

section \<open>Interpolation\<close>

text \<open>The polynomial with roots \<open>x k\<close>, \<open>k \<noteq> j\<close>, and the Lagrange interpolant of values \<open>f\<close>.\<close>

definition basis_poly :: "(nat \<Rightarrow> 'a::field) \<Rightarrow> nat \<Rightarrow> nat \<Rightarrow> 'a list" where
  "basis_poly x n j = fold (\<lambda>k p. poly_mul_linear p (x k)) (filter (\<lambda>k. k \<noteq> j) [0..<n]) [1]"

definition interpolant :: "(nat \<Rightarrow> 'a::field) \<Rightarrow> (nat \<Rightarrow> 'a) \<Rightarrow> nat \<Rightarrow> 'a list" where
  "interpolant x f n =
     foldr poly_add (map (\<lambda>j. poly_scalar_mul (basis_poly x n j) (f j / eval_poly_at (basis_poly x n j) (x j))) [0..<n]) []"

lemma eval_linear_fold:
  "eval_poly_at (fold (\<lambda>k p. poly_mul_linear p (x k)) ks p) z = eval_poly_at p z * (\<Prod>k\<leftarrow>ks. z - x k)"
  by (induction ks arbitrary: p) (simp_all add: mult.assoc)

lemma length_linear_fold:
  "p \<noteq> [] \<Longrightarrow> length (fold (\<lambda>k p. poly_mul_linear p (x k)) ks p) = length p + length ks"
proof (induction ks arbitrary: p)
  case (Cons k ks)
  then have "length (poly_mul_linear p (x k)) = Suc (length p)" by (simp add: coeff_mul_linear(2))
  then have "poly_mul_linear p (x k) \<noteq> []" by (metis list.size(3) nat.distinct(1))
  then show ?case using Cons \<open>length (poly_mul_linear p (x k)) = Suc (length p)\<close> by simp
qed simp

lemma eval_basis: "eval_poly_at (basis_poly x n j) z = (\<Prod>k\<in>{..<n} - {j}. z - x k)"
proof -
  have "distinct (filter (\<lambda>k. k \<noteq> j) [0..<n])" by simp
  moreover have "set (filter (\<lambda>k. k \<noteq> j) [0..<n]) = {..<n} - {j}" by auto
  ultimately show ?thesis by (simp add: basis_poly_def eval_linear_fold prod.distinct_set_conv_list [symmetric])
qed

lemma length_basis: "j < n \<Longrightarrow> length (basis_poly x n j) = n"
proof -
  assume "j < n"
  have "length (filter (\<lambda>k. k \<noteq> j) [0..<n]) = card ({..<n} - {j})"
    by (subst distinct_card [symmetric]) (auto intro: arg_cong [of _ _ card])
  then show ?thesis using \<open>j < n\<close> by (simp add: basis_poly_def length_linear_fold)
qed

lemma eval_sum_polys: "eval_poly_at (foldr poly_add ps []) z = (\<Sum>p\<leftarrow>ps. eval_poly_at p z)"
  by (induction ps) simp_all

lemma length_sum_polys: "(\<And>p. p \<in> set ps \<Longrightarrow> length p \<le> n) \<Longrightarrow> length (foldr poly_add ps []) \<le> n"
  by (induction ps) simp_all

lemma eval_interpolant:
  "eval_poly_at (interpolant x f n) z = (\<Sum>j<n. f j * (\<Prod>k\<in>{..<n} - {j}. (z - x k) / (x j - x k)))"
  by (simp add: interpolant_def eval_sum_polys o_def eval_basis interv_sum_list_conv_sum_set_nat prod_dividef
      lessThan_atLeast0 ac_simps)

lemma length_interpolant: "length (interpolant x f n) \<le> n"
  unfolding interpolant_def by (rule length_sum_polys) (auto simp: poly_scalar_mul_def length_basis)

lemma interpolant_at:
  assumes "inj_on x {..<n}" and "i < n"
  shows "eval_poly_at (interpolant x f n) (x i) = f i"
proof -
  have "(\<Prod>k\<in>{..<n} - {j}. (x i - x k) / (x j - x k)) = of_bool (i = j)" if "j < n" for j
  proof (cases "i = j")
    case True
    have "(x i - x k) / (x j - x k) = 1" if "k \<in> {..<n} - {j}" for k
      using True that assms \<open>j < n\<close> by (auto simp: inj_on_def)
    with True show ?thesis by simp
  next
    case False
    then show ?thesis using assms(2) by (auto intro!: bexI [of _ i])
  qed
  then have "(\<Sum>j<n. f j * (\<Prod>k\<in>{..<n} - {j}. (x i - x k) / (x j - x k))) = (\<Sum>j<n. if j = i then f j else 0)"
    by (intro sum.cong) auto
  then show ?thesis using assms(2) by (simp add: eval_interpolant)
qed

text \<open>Interpolation is exact for polynomials with at most \<open>n\<close> coefficients.\<close>

lemma lagrange:
  fixes x :: "nat \<Rightarrow> 'a::field"
  assumes inj: "inj_on x {..<n}" and len: "length p \<le> n"
  shows "eval_poly_at p z = (\<Sum>j<n. eval_poly_at p (x j) * (\<Prod>k\<in>{..<n} - {j}. (z - x k) / (x j - x k)))"
proof -
  let ?q = "interpolant x (\<lambda>j. eval_poly_at p (x j)) n"
  have "length (poly_sub ?q p) \<le> card (x ` {..<n})"
    using len length_interpolant [of x "\<lambda>j. eval_poly_at p (x j)" n] by (simp add: card_image [OF inj])
  then have "set (poly_sub ?q p) \<subseteq> {0}"
    using interpolant_at [OF inj] by (intro many_roots_zero [of "x ` {..<n}"]) auto
  then have "eval_poly_at (poly_sub ?q p) z = 0" by (rule eval_zero)
  then show ?thesis by (simp add: eval_interpolant)
qed

section \<open>Shares are evaluations\<close>

lemma share_value_eval:
  assumes "coeffs \<noteq> []"
  shows "share_value coeffs (length coeffs) x = eval_poly_at coeffs x"
proof -
  have "fold (\<lambda>j (result, x_pow). (result + coeffs ! j * x_pow, x_pow * x)) [1..<Suc t] (coeffs ! 0, x) =
      (\<Sum>i<Suc t. coeffs ! i * x ^ i, x ^ Suc t)" for t
    by (induction t) (simp_all add: ac_simps)
  from this [of "length coeffs - 1"] show ?thesis
    using assms eval_sum [of coeffs "length coeffs" x] by (simp add: share_value_def coeff_at_def)
qed

text \<open>\<open>sharing p n\<close>: the shares of polynomial \<open>p\<close> for \<open>n\<close> parties.\<close>

definition sharing :: "'a::field list \<Rightarrow> nat \<Rightarrow> 'a share list" where
  "sharing p n = map (\<lambda>i. \<lparr>sh_id = of_nat i, sh_value = eval_poly_at p (fe_from_u64 (of_nat i))\<rparr>) [1..<Suc n]"

lemma share_secret_sharing:
  "share_secret secret n t draws = (if t < 1 \<or> n < t then None else Some (sharing (secret # map draws [1..<t]) n))"
proof -
  have "share_value (secret # map draws [1..<t]) t x = eval_poly_at (secret # map draws [1..<t]) x" if "\<not> t < 1" for x
    using share_value_eval [of "secret # map draws [1..<t]" x] that by simp
  then show ?thesis unfolding share_secret_def sharing_def Let_def by (cases "t < 1 \<or> n < t") (simp_all del: upt_Suc)
qed

lemma sharing_value: "s \<in> set (sharing p n) \<Longrightarrow> sh_value s = eval_poly_at p (fe_from_u64 (sh_id s))"
  by (auto simp: sharing_def)

lemma sharing_ids: "inj_on sh_id (set (sharing p n))"
  by (rule inj_onI) (auto simp: sharing_def)

lemma sharing_nonzero:
  assumes "n < 2 ^ 64" and "s \<in> set (sharing p n)"
  shows "sh_id s \<noteq> 0"
proof -
  obtain i where i: "sh_id s = of_nat i" "1 \<le> i" "i \<le> n" using assms(2) by (auto simp: sharing_def)
  then have "unat (sh_id s) = i" using assms(1) by (simp add: unat_of_nat take_bit_nat_eq_self)
  with i(2) show ?thesis by auto
qed

lemma lagrange_parts_prod:
  "lagrange_parts shares j =
     (\<Prod>k\<in>{..<length shares} - {j}. fe_from_u64 (sh_id (shares ! k)),
      \<Prod>k\<in>{..<length shares} - {j}. fe_from_u64 (sh_id (shares ! k)) - fe_from_u64 (sh_id (shares ! j)))"
proof -
  let ?x = "\<lambda>k. fe_from_u64 (sh_id (shares ! k))"
  have "fold (\<lambda>k (num, den). if j \<noteq> k then let xk = ?x k in (num * xk, den * (xk - ?x j)) else (num, den)) [0..<n] (1, 1) =
      (\<Prod>k\<in>{..<n} - {j}. ?x k, \<Prod>k\<in>{..<n} - {j}. ?x k - ?x j)" for n
  proof (induction n)
    case (Suc n)
    have "{..<Suc n} - {j} = (if n = j then {..<n} - {j} else insert n ({..<n} - {j}))" by auto
    with Suc show ?case by (auto simp: Let_def ac_simps)
  qed simp
  then show ?thesis by (simp add: lagrange_parts_def)
qed

lemma reconstruct_sum:
  "reconstruct shares = (\<Sum>j<length shares. sh_value (shares ! j) *
     (\<Prod>k\<in>{..<length shares} - {j}. (0 - fe_from_u64 (sh_id (shares ! k))) /
        (fe_from_u64 (sh_id (shares ! j)) - fe_from_u64 (sh_id (shares ! k)))))"
proof -
  let ?x = "\<lambda>k. fe_from_u64 (sh_id (shares ! k)) :: 'a" and ?n = "length shares"
  let ?w = "\<lambda>j. \<Prod>k\<in>{..<?n} - {j}. (0 - ?x k) / (?x j - ?x k)"
  have w: "(\<Prod>k\<in>{..<?n} - {j}. ?x k) * inverse (\<Prod>k\<in>{..<?n} - {j}. ?x k - ?x j) = ?w j" for j
  proof -
    have "(0 - ?x k) / (?x j - ?x k) = ?x k / (?x k - ?x j)" for k
      by (metis minus_diff_eq minus_divide_divide diff_0)
    then show ?thesis by (simp only: prod_dividef) (simp only: divide_inverse)
  qed
  have "fold (\<lambda>j result. let (num, den) = lagrange_parts shares j; lagrange_coeff = num * inverse den
      in result + lagrange_coeff * sh_value (shares ! j)) [0..<m] 0 = (\<Sum>j<m. sh_value (shares ! j) * ?w j)" for m
    by (induction m) (simp_all add: lagrange_parts_prod w ac_simps)
  then show ?thesis by (simp add: reconstruct_def)
qed

lemma reconstruct_eval:
  assumes fits: "u64_fits TYPE('a::field)" and vals: "\<And>s. s \<in> set xs \<Longrightarrow> sh_value s = eval_poly_at p (fe_from_u64 (sh_id s) :: 'a)"
    and "distinct (map sh_id xs)" and len: "length p \<le> length xs"
  shows "reconstruct xs = eval_poly_at p 0"
proof -
  have "inj_on (\<lambda>k. fe_from_u64 (sh_id (xs ! k)) :: 'a) {..<length xs}"
    using assms(1,3) by (auto simp: inj_on_def u64_fits_def inj_def distinct_conv_nth)
  from lagrange [OF this len, of 0] show ?thesis using vals by (simp add: reconstruct_sum)
qed

section \<open>Correctness and secrecy\<close>

text \<open>\<open>recovers t C v\<close>: any \<open>t\<close> or more different shares of \<open>C\<close> give \<open>v\<close>.\<close>

definition recovers :: "nat \<Rightarrow> 'a::field share list \<Rightarrow> 'a \<Rightarrow> bool" where
  "recovers t shares v \<longleftrightarrow> (\<forall>xs. distinct xs \<and> set xs \<subseteq> set shares \<and> t \<le> length xs \<longrightarrow> reconstruct xs = v)"

lemma sharing_recovers:
  assumes "u64_fits TYPE('a::field)" and "length p = t"
  shows "recovers t (sharing p n) (eval_poly_at p (0 :: 'a))"
  unfolding recovers_def
proof (intro allI impI)
  fix xs assume xs: "distinct xs \<and> set xs \<subseteq> set (sharing p n) \<and> t \<le> length xs"
  then have "inj_on sh_id (set xs)" using sharing_ids [of p n] by (blast intro: inj_on_subset)
  with xs show "reconstruct xs = eval_poly_at p 0"
    using assms sharing_value [of _ p n] by (intro reconstruct_eval) (auto simp: distinct_map)
qed

lemma sharing_combine:
  "share_add (sharing p n) (sharing q n) = Some (sharing (poly_add p q) n)"
  "share_sub (sharing p n) (sharing q n) = Some (sharing (poly_sub p q) n)"
  "share_mul_const (sharing p n) c = sharing (poly_scalar_mul p c) n"
  "share_add_const (sharing p n) c = sharing (poly_add p [c]) n"
  by (auto simp: share_add_def share_sub_def share_mul_const_def share_add_const_def sharing_def list_ex_iff zip_map_map
      zip_same_conv_map o_def simp del: upt_Suc)

text \<open>
  C21. Secret sharing round trip: when the sharing does not panic, any \<open>t\<close> or more different shares, in any
  order, reconstruct the secret; adding or subtracting the shares of two secrets, and scaling or shifting
  by a public constant, are local operations that share the result.
\<close>

theorem shamir_roundtrip:
  fixes a b :: "'a::field"
  assumes "u64_fits TYPE('a)" and "share_secret a n t draws_a = Some A" and "share_secret b n t draws_b = Some B"
  shows "recovers t A a \<and> (\<exists>C. share_add A B = Some C \<and> recovers t C (a + b)) \<and>
    (\<exists>D. share_sub A B = Some D \<and> recovers t D (a - b)) \<and>
    recovers t (share_mul_const A c) (a * c) \<and> recovers t (share_add_const A c) (a + c)"
proof -
  let ?p = "a # map draws_a [1..<t]" and ?q = "b # map draws_b [1..<t]"
  have A: "A = sharing ?p n" and B: "B = sharing ?q n" and t: "1 \<le> t"
    using assms(2,3) by (auto simp: share_secret_sharing split: if_splits)
  have "length ?p = t" "length (poly_add ?p ?q) = t" "length (poly_sub ?p ?q) = t" "length (poly_scalar_mul ?p c) = t"
    "length (poly_add ?p [c]) = t"
    using t by (simp_all add: poly_scalar_mul_def)
  note r = this [THEN sharing_recovers [OF assms(1), of _ t n]]
  show ?thesis using r unfolding A B sharing_combine by (simp add: eval_Cons)
qed

lemma u64_fits_rat: "u64_fits TYPE(rat)"
  unfolding u64_fits_def fe_from_u64_def inj_def of_nat_eq_iff by (simp add: word_unat_eq_iff)

theorem shamir_roundtrip_witness:
  "\<exists>A B. share_secret (42 :: rat) 5 3 (\<lambda>j. 7) = Some A \<and> share_secret 10 5 3 of_nat = Some B \<and> length A = 5 \<and>
     recovers 3 A 42 \<and> (\<exists>C. share_add A B = Some C \<and> recovers 3 C 52)"
proof -
  obtain A B where AB: "share_secret (42 :: rat) 5 3 (\<lambda>j. 7) = Some A" "share_secret (10 :: rat) 5 3 of_nat = Some B"
    by (simp add: share_secret_def)
  moreover have "length A = 5" using AB(1) by (auto simp: share_secret_def)
  ultimately show ?thesis using shamir_roundtrip [OF u64_fits_rat AB] by auto
qed

text \<open>A polynomial with \<open>t\<close> coefficients through fewer than \<open>t\<close> shares and a given value at zero.\<close>

lemma poly_through:
  fixes v :: "'a::field"
  assumes fits: "u64_fits TYPE('a)" and ids: "distinct (map sh_id ys)" and nz: "0 \<notin> sh_id ` set ys" and few: "length ys < t"
  shows "\<exists>cs. eval_poly_at (v # map cs [1..<t]) 0 = v \<and>
    (\<forall>s\<in>set ys. eval_poly_at (v # map cs [1..<t]) (fe_from_u64 (sh_id s)) = sh_value s)"
proof -
  define x where "x j = (if j = 0 then 0 else fe_from_u64 (sh_id (ys ! (j - 1))) :: 'a)" for j
  define f where "f j = (if j = 0 then v else sh_value (ys ! (j - 1)))" for j
  let ?q = "interpolant x f (Suc (length ys))"
  have zero: "fe_from_u64 w = (0 :: 'a) \<longleftrightarrow> w = 0" and eq: "fe_from_u64 w = (fe_from_u64 w' :: 'a) \<longleftrightarrow> w = w'" for w w'
    using fits inj_eq [of "fe_from_u64 :: u64 \<Rightarrow> 'a" w 0] inj_eq [of "fe_from_u64 :: u64 \<Rightarrow> 'a" w w']
    by (simp_all add: u64_fits_def fe_from_u64_def)
  have pos: "x (Suc k) \<noteq> x 0" if "k < length ys" for k
    using nz that nth_mem [OF that] by (auto simp: x_def zero image_iff)
  have suc: "x (Suc k) = x (Suc l) \<longleftrightarrow> k = l" if "k < length ys" "l < length ys" for k l
    using that nth_eq_iff_index_eq [OF ids, of k l] by (simp add: x_def eq)
  have "i = j" if "i < Suc (length ys)" "j < Suc (length ys)" "x i = x j" for i j
    using that pos [of "i - 1"] pos [of "j - 1"] suc [of "i - 1" "j - 1"] by (cases i; cases j) simp_all
  then have at: "eval_poly_at ?q (x i) = f i" if "i < Suc (length ys)" for i
    using that by (intro interpolant_at inj_onI) simp_all
  have val: "eval_poly_at (map (coeff_at ?q) [0..<t]) z = eval_poly_at ?q z" for z
    using few length_interpolant [of x f "Suc (length ys)"] eval_sum [of ?q t z] eval_sum [of "map (coeff_at ?q) [0..<t]" t z]
    by (simp add: coeff_at_def [of "map (coeff_at ?q) [0..<t]"])
  have "coeff_at ?q 0 = eval_poly_at ?q 0" by (cases ?q) (simp_all add: coeff_at_def eval_Cons)
  then have c0: "coeff_at ?q 0 = v" using at [of 0] by (simp add: x_def f_def)
  have split: "map (coeff_at ?q) [0..<t] = v # map (coeff_at ?q) [1..<t]" using few by (simp add: upt_conv_Cons c0)
  have "eval_poly_at ?q (fe_from_u64 (sh_id s)) = sh_value s" if s: "s \<in> set ys" for s
  proof -
    obtain j where "j < length ys" "s = ys ! j" using s by (auto simp: in_set_conv_nth)
    then show ?thesis using at [of "Suc j"] by (simp add: x_def f_def)
  qed
  moreover have "eval_poly_at (v # map (coeff_at ?q) [1..<t]) z = eval_poly_at ?q z" for z using val [of z] unfolding split .
  ultimately show ?thesis by (intro exI [of _ "coeff_at ?q"]) (simp add: eval_Cons)
qed

text \<open>
  C34. Fewer shares than the threshold reveal nothing: whatever the secret was, any \<open>t - 1\<close> or fewer of its
  shares are also shares of every other secret, for suitable random coefficients.
\<close>

theorem shamir_hides:
  fixes secret secret' :: "'a::field"
  assumes fits: "u64_fits TYPE('a)" and sh: "share_secret secret n t draws = Some shares" and n: "n < 2 ^ 64"
    and xs: "set xs \<subseteq> set shares" and few: "card (set xs) < t"
  shows "\<exists>draws' shares'. share_secret secret' n t draws' = Some shares' \<and> set xs \<subseteq> set shares'"
proof -
  let ?p = "secret # map draws [1..<t]"
  have shares: "shares = sharing ?p n" and t: "\<not> (t < 1 \<or> n < t)" using sh by (auto simp: share_secret_sharing split: if_splits)
  obtain ys where ys: "distinct ys" "set ys = set xs" using finite_distinct_list [of "set xs"] by auto
  have len: "length ys < t" using few ys distinct_card [of ys] by simp
  have "inj_on sh_id (set ys)" using xs sharing_ids [of ?p n] unfolding ys(2) shares by (rule inj_on_subset [rotated])
  then have ids: "distinct (map sh_id ys)" using ys(1) by (simp add: distinct_map)
  have nz: "0 \<notin> sh_id ` set ys" using subsetD [OF xs [unfolded shares]] sharing_nonzero [OF n, of _ ?p] unfolding ys(2) by (auto simp: image_iff)
  obtain cs where cs: "\<forall>s\<in>set ys. eval_poly_at (secret' # map cs [1..<t]) (fe_from_u64 (sh_id s)) = sh_value s"
    using poly_through [OF fits ids nz len, of secret'] by (elim exE conjE) blast
  have "set xs \<subseteq> set (sharing (secret' # map cs [1..<t]) n)"
  proof
    fix s assume s: "s \<in> set xs"
    then obtain i where i: "i \<in> set [1..<Suc n]" "s = \<lparr>sh_id = of_nat i, sh_value = eval_poly_at ?p (fe_from_u64 (of_nat i))\<rparr>"
      using xs unfolding shares sharing_def by (auto simp del: upt_Suc)
    then have "s = \<lparr>sh_id = of_nat i, sh_value = eval_poly_at (secret' # map cs [1..<t]) (fe_from_u64 (of_nat i))\<rparr>"
      using bspec [OF cs, of s] s ys(2) by simp
    with i(1) show "s \<in> set (sharing (secret' # map cs [1..<t]) n)" unfolding sharing_def set_map by (rule image_eqI [rotated])
  qed
  moreover have "share_secret secret' n t cs = Some (sharing (secret' # map cs [1..<t]) n)" using t by (simp only: share_secret_sharing if_False)
  ultimately show ?thesis by blast
qed

theorem shamir_hides_witness:
  "\<exists>shares. share_secret (42 :: rat) 5 3 (\<lambda>j. 7) = Some shares \<and>
     (\<exists>draws' shares'. share_secret (99 :: rat) 5 3 draws' = Some shares' \<and> set (take 2 shares) \<subseteq> set shares')"
proof -
  obtain A where A: "share_secret (42 :: rat) 5 3 (\<lambda>j. 7) = Some A" by (simp add: share_secret_def)
  have "card (set (take 2 A)) \<le> length (take 2 A)" by (rule card_length)
  then have "card (set (take 2 A)) < 3" by simp
  moreover have "(5 :: nat) < 2 ^ 64" by simp
  ultimately show ?thesis using shamir_hides [OF u64_fits_rat A _ set_take_subset, of 2 99] A by blast
qed

end
