(* ===== verification/Core_Transcript.thy ===== *)
theory Core_Transcript
  imports Rv_Prelude
begin

text \<open>
  The Fiat-Shamir transcript of \<^verbatim>\<open>crates/core/src/transcript.rs\<close>: how labels, messages and challenges are
  framed for the hash function. The theory shows that the framing is unambiguous: the bytes absorbed
  determine the domain label and the whole sequence of operations, so a challenge depends on all of them.

  SHA3-256 and the reduction of 32 bytes to a field element come from third-party crates; they are the
  parameters \<open>sha3\<close>, a function of all bytes absorbed, and \<open>reduce\<close>. The hasher is the list of bytes that it has
  absorbed, and \<^verbatim>\<open>clone\<close> copies it.
\<close>

section \<open>Operations\<close>

text \<open>Byte-string literals.\<close>

definition bstr :: "string \<Rightarrow> u8 list" where
  "bstr s = map of_char s"

text \<open>\<^verbatim>\<open>(label.len() as u32).to_le_bytes()\<close> followed by the label.\<close>

definition framed :: "u8 list \<Rightarrow> u8 list" where
  "framed bs = to_le_bytes 4 (of_nat (length bs) :: u32) @ bs"

record transcript =
  hasher :: "u8 list"

definition transcript_new :: "u8 list \<Rightarrow> transcript" where
  "transcript_new label = \<lparr>hasher = bstr ''metavm-transcript'' @ framed label\<rparr>"

definition append_message :: "u8 list \<Rightarrow> u8 list \<Rightarrow> transcript \<Rightarrow> transcript" where
  "append_message label message t = t\<lparr>hasher := hasher t @ bstr ''append'' @ framed label @ framed message\<rparr>"

definition append_u64 :: "u8 list \<Rightarrow> u64 \<Rightarrow> transcript \<Rightarrow> transcript" where
  "append_u64 label value t = append_message label (to_le_bytes 8 value) t"

text \<open>\<open>to_bytes\<close> is the encoding of a field element.\<close>

definition append_field_element :: "('f \<Rightarrow> u8 list) \<Rightarrow> u8 list \<Rightarrow> 'f \<Rightarrow> transcript \<Rightarrow> transcript" where
  "append_field_element to_bytes label element t = append_message label (to_bytes element) t"

definition challenge :: "(u8 list \<Rightarrow> u8 list) \<Rightarrow> (u8 list \<Rightarrow> 'f) \<Rightarrow> u8 list \<Rightarrow> transcript \<Rightarrow> 'f \<times> transcript" where
  "challenge sha3 reduce label t =
     (let bytes = sha3 (hasher t @ bstr ''challenge'' @ framed label)
      in (reduce bytes, t\<lparr>hasher := hasher t @ bstr ''challenge-output'' @ bytes\<rparr>))"

definition challenge_bytes :: "(u8 list \<Rightarrow> u8 list) \<Rightarrow> u8 list \<Rightarrow> transcript \<Rightarrow> u8 list \<times> transcript" where
  "challenge_bytes sha3 label t =
     (let bytes = sha3 (hasher t @ bstr ''challenge-bytes'' @ framed label)
      in (bytes, t\<lparr>hasher := hasher t @ bstr ''challenge-bytes-output'' @ bytes\<rparr>))"

section \<open>Sequences of operations\<close>

datatype transcript_op = AppendMessage "u8 list" "u8 list" | Challenge "u8 list" | ChallengeBytes "u8 list"

fun apply_op :: "(u8 list \<Rightarrow> u8 list) \<Rightarrow> transcript_op \<Rightarrow> transcript \<Rightarrow> transcript" where
  "apply_op sha3 (AppendMessage l m) t = append_message l m t"
| "apply_op sha3 (Challenge l) t = snd (challenge sha3 id l t)"
| "apply_op sha3 (ChallengeBytes l) t = snd (challenge_bytes sha3 l t)"

definition replay_ops :: "(u8 list \<Rightarrow> u8 list) \<Rightarrow> u8 list \<Rightarrow> transcript_op list \<Rightarrow> transcript" where
  "replay_ops sha3 label ops = fold (apply_op sha3) ops (transcript_new label)"

text \<open>Lengths that fit the 32-bit length field, as every slice of the callers does.\<close>

definition short :: "u8 list \<Rightarrow> bool" where
  "short bs \<longleftrightarrow> length bs < 2 ^ 32"

fun op_short :: "transcript_op \<Rightarrow> bool" where
  "op_short (AppendMessage l m) \<longleftrightarrow> short l \<and> short m"
| "op_short (Challenge l) \<longleftrightarrow> short l"
| "op_short (ChallengeBytes l) \<longleftrightarrow> short l"

text \<open>The inputs on which an operation evaluates the hash function, and those of a sequence.\<close>

fun op_query :: "transcript_op \<Rightarrow> u8 list \<Rightarrow> u8 list set" where
  "op_query (AppendMessage l m) h = {}"
| "op_query (Challenge l) h = {h @ bstr ''challenge'' @ framed l}"
| "op_query (ChallengeBytes l) h = {h @ bstr ''challenge-bytes'' @ framed l}"

fun queries :: "(u8 list \<Rightarrow> u8 list) \<Rightarrow> transcript_op list \<Rightarrow> transcript \<Rightarrow> u8 list set" where
  "queries sha3 [] t = {}"
| "queries sha3 (p # ops) t = op_query p (hasher t) \<union> queries sha3 ops (apply_op sha3 p t)"

section \<open>Unique decoding\<close>

lemma framed_inject:
  assumes "short a" and "short b" and "framed a @ r = framed b @ s"
  shows "a = b \<and> r = s"
proof -
  let ?l = "\<lambda>bs :: u8 list. to_le_bytes 4 (of_nat (length bs) :: u32)"
  have "?l a @ (a @ r) = ?l b @ (b @ s)" using assms(3) by (simp only: framed_def append_assoc)
  then have l: "?l a = ?l b" and ab: "a @ r = b @ s" by (simp_all only: append_eq_append_conv length_to_le_bytes simp_thms)
  have "from_le_bytes (?l bs) = (of_nat (length bs) :: u32)" for bs by (rule from_le_to_le_bytes) simp
  with l have "(of_nat (length a) :: u32) = of_nat (length b)" by metis
  then have "length a = length b"
    using assms(1,2) by (simp add: short_def word_of_nat_eq_iff take_bit_nat_eq_self)
  with ab show ?thesis by simp
qed

text \<open>The bytes that an operation absorbs.\<close>

definition op_bytes :: "(u8 list \<Rightarrow> u8 list) \<Rightarrow> transcript_op \<Rightarrow> u8 list \<Rightarrow> u8 list" where
  "op_bytes sha3 p h = (case p of AppendMessage l m \<Rightarrow> bstr ''append'' @ framed l @ framed m
     | Challenge l \<Rightarrow> bstr ''challenge-output'' @ sha3 (h @ bstr ''challenge'' @ framed l)
     | ChallengeBytes l \<Rightarrow> bstr ''challenge-bytes-output'' @ sha3 (h @ bstr ''challenge-bytes'' @ framed l))"

lemma hasher_apply_op [simp]: "hasher (apply_op sha3 p t) = hasher t @ op_bytes sha3 p (hasher t)"
  by (cases p) (simp_all add: append_message_def challenge_def challenge_bytes_def Let_def op_bytes_def)

declare apply_op.simps [simp del]

lemma op_bytes_nonempty: "op_bytes sha3 p h \<noteq> []"
  by (cases p) (simp_all add: op_bytes_def bstr_def)

lemma hasher_grows: "\<exists>r. hasher (fold (apply_op sha3) ops t) = hasher t @ r"
proof (induction ops arbitrary: t)
  case (Cons p ops)
  obtain r where "hasher (fold (apply_op sha3) ops (apply_op sha3 p t)) = hasher (apply_op sha3 p t) @ r" using Cons by blast
  then show ?case by simp
qed simp

lemma fold_cons_grows: "\<exists>r. hasher (fold (apply_op sha3) (p # ops) t) = hasher t @ op_bytes sha3 p (hasher t) @ r"
  using hasher_grows [of sha3 ops "apply_op sha3 p t"] by simp

text \<open>The tags tell the operations apart; after them, lengths and the 32 bytes of a digest do.\<close>

lemma tags_differ:
  "bstr ''append'' @ u \<noteq> bstr ''challenge-output'' @ v" "bstr ''append'' @ u \<noteq> bstr ''challenge-bytes-output'' @ v"
  "bstr ''challenge-output'' @ u \<noteq> bstr ''challenge-bytes-output'' @ v"
  by (simp_all add: bstr_def)

lemma digest_inject:
  assumes "\<forall>x. length (sha3 x) = 32" and "inj_on sha3 {h @ tag @ framed l, h @ tag @ framed l'}" and "short l" "short l'"
    and "sha3 (h @ tag @ framed l) @ r = sha3 (h @ tag @ framed l') @ s"
  shows "l = l' \<and> r = s"
proof -
  have "sha3 (h @ tag @ framed l) = sha3 (h @ tag @ framed l')" "r = s" using assms(1,5) by (simp_all add: append_eq_append_conv)
  moreover from this(1) have "h @ tag @ framed l = h @ tag @ framed l'" by (rule inj_onD [OF assms(2)]) simp_all
  ultimately show ?thesis using framed_inject [OF assms(3,4), of "[]" "[]"] by simp
qed

lemma op_inject:
  assumes len: "\<forall>x. length (sha3 x) = 32" and sh: "op_short p" "op_short q"
    and inj: "inj_on sha3 (op_query p h \<union> op_query q h)"
    and eq: "op_bytes sha3 p h @ r = op_bytes sha3 q h @ s"
  shows "p = q"
proof (cases p; cases q)
  fix l m l' m' assume p: "p = AppendMessage l m" and q: "q = AppendMessage l' m'"
  have "framed l @ (framed m @ r) = framed l' @ (framed m' @ s)" using eq p q by (simp add: op_bytes_def)
  then show "p = q" using framed_inject [of l l' "framed m @ r" "framed m' @ s"] framed_inject [of m m' r s] sh p q by simp
next
  fix l l' assume p: "p = Challenge l" and q: "q = Challenge l'"
  then show "p = q"
    using digest_inject [OF len, of h "bstr ''challenge''" l l' r s] sh inj eq by (simp add: op_bytes_def insert_commute)
next
  fix l l' assume p: "p = ChallengeBytes l" and q: "q = ChallengeBytes l'"
  then show "p = q"
    using digest_inject [OF len, of h "bstr ''challenge-bytes''" l l' r s] sh inj eq by (simp add: op_bytes_def insert_commute)
qed (use eq tags_differ tags_differ [symmetric] in \<open>simp_all add: op_bytes_def\<close>)

lemma ops_inject:
  assumes len: "\<forall>x. length (sha3 x) = 32"
  shows "list_all op_short ps \<Longrightarrow> list_all op_short qs \<Longrightarrow> inj_on sha3 (queries sha3 ps t \<union> queries sha3 qs t) \<Longrightarrow>
    hasher (fold (apply_op sha3) ps t) = hasher (fold (apply_op sha3) qs t) \<Longrightarrow> ps = qs"
proof (induction ps arbitrary: qs t)
  case Nil
  show ?case
  proof (cases qs)
    case (Cons q qs')
    then show ?thesis using Nil.prems(4) fold_cons_grows [of sha3 q qs' t] op_bytes_nonempty by auto
  qed simp
next
  case (Cons p ps)
  obtain r where r: "hasher (fold (apply_op sha3) (p # ps) t) = hasher t @ op_bytes sha3 p (hasher t) @ r"
    using fold_cons_grows by blast
  show ?case
  proof (cases qs)
    case Nil
    then show ?thesis using Cons.prems(4) r op_bytes_nonempty by auto
  next
    case qs: (Cons q qs')
    obtain s where s: "hasher (fold (apply_op sha3) (q # qs') t) = hasher t @ op_bytes sha3 q (hasher t) @ s"
      using fold_cons_grows by blast
    have "inj_on sha3 (op_query p (hasher t) \<union> op_query q (hasher t))"
      using Cons.prems(3) qs by (auto intro: inj_on_subset)
    then have pq: "p = q"
      using Cons.prems qs r s by (intro op_inject [OF len, of p q "hasher t" r s]) simp_all
    have "inj_on sha3 (queries sha3 ps (apply_op sha3 p t) \<union> queries sha3 qs' (apply_op sha3 p t))"
      using Cons.prems(3) qs pq by (auto intro: inj_on_subset)
    then have "ps = qs'" using Cons.prems qs pq by (intro Cons.IH [of qs' "apply_op sha3 p t"]) simp_all
    with pq qs show ?thesis by simp
  qed
qed

text \<open>
  C35. The transcript binds: if two sequences of operations, started with two domain labels, lead to the
  same hasher state, then the labels and all operations with their labels and messages are the same,
  barring a collision of the hash function among the challenges drawn.
\<close>

theorem transcript_binds:
  assumes "\<forall>x. length (sha3 x) = 32" and "short la" and "short lb" and "list_all op_short ps" and "list_all op_short qs"
    and "inj_on sha3 (queries sha3 ps (transcript_new la) \<union> queries sha3 qs (transcript_new lb))"
    and "hasher (replay_ops sha3 la ps) = hasher (replay_ops sha3 lb qs)"
  shows "la = lb \<and> ps = qs"
proof -
  obtain r s where "hasher (replay_ops sha3 la ps) = hasher (transcript_new la) @ r"
    and "hasher (replay_ops sha3 lb qs) = hasher (transcript_new lb) @ s"
    using hasher_grows [of sha3 ps "transcript_new la"] hasher_grows [of sha3 qs "transcript_new lb"] by (auto simp: replay_ops_def)
  then have "framed la @ r = framed lb @ s" using assms(7) by (simp add: transcript_new_def)
  then have "la = lb" using framed_inject assms(2,3) by blast
  with ops_inject [OF assms(1,4,5), of "transcript_new la"] assms(6,7) show ?thesis by (simp add: replay_ops_def)
qed

definition demo_digest :: "u8 list \<Rightarrow> u8 list" where
  "demo_digest bs = to_le_bytes 8 (of_nat (length bs) :: u64) @ replicate 24 0"

definition demo_ops :: "transcript_op list" where
  "demo_ops = [AppendMessage [1] [2, 3], Challenge [4], ChallengeBytes []]"

lemma demo_queries:
  "inj_on demo_digest (queries demo_digest demo_ops (transcript_new [7]) \<union> queries demo_digest [Challenge [4, 5]] (transcript_new [7]))"
  by code_simp

theorem transcript_binds_witness:
  "hasher (replay_ops demo_digest [7] demo_ops) \<noteq> hasher (replay_ops demo_digest [7] [Challenge [4, 5]])"
proof
  assume eq: "hasher (replay_ops demo_digest [7] demo_ops) = hasher (replay_ops demo_digest [7] [Challenge [4, 5]])"
  have "\<forall>x. length (demo_digest x) = 32" "short [7]" "list_all op_short demo_ops" "list_all op_short [Challenge [4, 5]]"
    by (simp_all add: demo_digest_def short_def demo_ops_def)
  from transcript_binds [OF this(1,2,2,3,4) demo_queries eq] show False by (simp add: demo_ops_def)
qed

end
