(* ===== verification/Zkp_Permutation_Honest.thy ===== *)
theory Zkp_Permutation_Honest
  imports Zkp_Permutation_Sound
begin

text \<open>
  The columns of the honest prover: consistent memory satisfies the memory argument, balanced calls and
  returns satisfy the frame-stack argument, and the register argument refuses honest traces because its
  lanes compare accesses that are not neighbours in the sorted order.
\<close>

section \<open>Running products\<close>

lemma running_product:
  fixes f :: "nat \<Rightarrow> 'a::comm_monoid_mult"
  assumes "m < n"
  shows "length (fold (\<lambda>i z. z[i + 1 := z ! i * f i]) [0..<m] (replicate n 1)) = n
         \<and> (\<forall>k\<le>m. fold (\<lambda>i z. z[i + 1 := z ! i * f i]) [0..<m] (replicate n 1) ! k = (\<Prod>i<k. f i))"
  using assms
proof (induction m)
  case (Suc m)
  then have "length (fold (\<lambda>i z. z[i + 1 := z ! i * f i]) [0..<m] (replicate n 1)) = n"
    and "\<forall>k\<le>m. fold (\<lambda>i z. z[i + 1 := z ! i * f i]) [0..<m] (replicate n 1) ! k = (\<Prod>i<k. f i)" by simp_all
  then show ?case using Suc.prems by (auto simp: nth_list_update le_Suc_eq)
qed simp

text \<open>The accumulator of the prover closes when the two products agree.\<close>

lemma running_product_closes:
  fixes N D :: "nat \<Rightarrow> 'a::field"
  assumes "0 < n" and "\<And>i. i < n \<Longrightarrow> D i \<noteq> 0" and "(\<Prod>i<n. N i) = (\<Prod>i<n. D i)" and "i < n"
  defines "z \<equiv> fold (\<lambda>i z. z[i + 1 := z ! i * (N i * inverse (D i))]) [0..<n - 1] (replicate n 1)"
  shows "z ! (Suc i mod n) * D i = z ! i * N i" and "z ! 0 = 1" and "length z = n"
proof -
  have z: "length z = n" "\<And>k. k < n \<Longrightarrow> z ! k = (\<Prod>i<k. N i * inverse (D i))"
    using running_product [of "n - 1" n "\<lambda>i. N i * inverse (D i)"] assms(1) unfolding z_def by auto
  then show "z ! 0 = 1" and "length z = n" using assms(1) by simp_all
  show "z ! (Suc i mod n) * D i = z ! i * N i"
  proof (cases "Suc i = n")
    case True
    have "(\<Prod>j<Suc i. N j * inverse (D j)) = (\<Prod>j<n. N j) / (\<Prod>j<n. D j)"
      by (simp only: True divide_inverse prod.distrib prod_inversef [symmetric] comp_def)
    also have "\<dots> = 1" using assms(2,3) by simp
    finally have "z ! i * (N i * inverse (D i)) = 1" using z(2) [OF assms(4)] by simp
    then have "z ! i * (N i * inverse (D i)) * D i = D i" by simp
    then have "z ! i * N i = D i" using assms(2) [OF assms(4)] by (simp add: mult.assoc)
    then show ?thesis using True z(2) [of 0] assms(1) by simp
  next
    case False
    then have "Suc i < n" using assms(4) by simp
    then show ?thesis using z(2) [of "Suc i"] z(2) [of i] assms(2,4) by simp
  qed
qed

section \<open>Honest memory columns\<close>

definition access_tuple :: "memory_access \<Rightarrow> 'a::comm_ring_1 access_tuple" where
  "access_tuple a =
     (scalar_from_u64 (ma_addr a), map scalar_from_u64 (ma_values a), scalar_from_u64 (ma_timestamp a), scalar_from_u64 (ma_rw a))"

lemma compute_tuple_hash_key:
  "compute_tuple_hash a gamma delta (delta * delta) (delta * delta * delta) = gamma + tuple_key delta (access_tuple a)"
  by (simp add: compute_tuple_hash_def access_tuple_def tuple_key_eq algebra_simps)

lemma length_sort_accesses [simp]: "length (sort_accesses accs) = length accs"
  by (simp add: sort_accesses_def)

lemma mset_sort_accesses [simp]: "mset (sort_accesses accs) = mset accs"
  by (simp add: sort_accesses_def)

lemma prod_list_nth: "(\<Prod>x\<leftarrow>xs. h x) = (\<Prod>i<length xs. h (xs ! i))"
proof -
  have eq: "map h xs = map (\<lambda>i. h (xs ! i)) [0..<length xs]" by (intro nth_equalityI) simp_all
  show ?thesis unfolding eq by (rule prod_list_lessThan)
qed

lemma grand_product_closes:
  fixes gamma delta :: "'a::field"
  assumes "accs \<noteq> []" and "\<And>a. a \<in> set accs \<Longrightarrow> gamma + tuple_key delta (access_tuple a) \<noteq> 0" and "i < length accs"
  defines "z \<equiv> compute_grand_product accs (sort_accesses accs) gamma delta"
  shows "z ! (Suc i mod length accs) * (gamma + tuple_key delta (access_tuple (sort_accesses accs ! i)))
           = z ! i * (gamma + tuple_key delta (access_tuple (accs ! i)))"
    and "z ! 0 = 1" and "length z = length accs"
proof -
  define h where "h a = gamma + tuple_key delta (access_tuple a)" for a
  let ?n = "length accs"
  have "prod_list (map h accs) = prod_list (map h (sort_accesses accs))"
    by (metis mset_map mset_sort_accesses prod_mset_prod_list)
  then have prods: "(\<Prod>i<?n. h (accs ! i)) = (\<Prod>i<?n. h (sort_accesses accs ! i))"
    by (simp add: prod_list_nth)
  have nz: "h (sort_accesses accs ! i) \<noteq> 0" if "i < ?n" for i
    using assms(2) that unfolding h_def by (metis length_sort_accesses mset_sort_accesses nth_mem set_mset_mset)
  have z: "z = fold (\<lambda>i z. z[i + 1 := z ! i * (h (accs ! i) * inverse (h (sort_accesses accs ! i)))]) [0..<?n - 1] (replicate ?n 1)"
    unfolding z_def compute_grand_product_def Let_def compute_tuple_hash_key h_def by (simp only: mult.assoc)
  have n: "0 < ?n" using assms(1) by simp
  from running_product_closes [OF n nz prods assms(3), folded z]
  show "z ! (Suc i mod ?n) * (gamma + tuple_key delta (access_tuple (sort_accesses accs ! i)))
           = z ! i * (gamma + tuple_key delta (access_tuple (accs ! i)))"
    and "z ! 0 = 1" and "length z = ?n"
    by (simp_all add: h_def)
qed

text \<open>Every read returns the values of the last access to its address, if there is one.\<close>

definition memory_consistent :: "memory_access list \<Rightarrow> bool" where
  "memory_consistent accs \<longleftrightarrow>
     (\<forall>i<length accs. ma_rw (accs ! i) = 0 \<longrightarrow>
        (\<forall>j<i. ma_addr (accs ! j) = ma_addr (accs ! i)
           \<and> (\<forall>k. j < k \<and> k < i \<longrightarrow> ma_addr (accs ! k) \<noteq> ma_addr (accs ! i))
           \<longrightarrow> ma_values (accs ! j) = ma_values (accs ! i)))"

lemma sorted_neighbours:
  assumes ts: "\<And>i. i < length accs \<Longrightarrow> ma_timestamp (accs ! i) = of_nat i" and len: "length accs < 2 ^ 64"
    and con: "memory_consistent accs" and i: "Suc i < length accs"
  defines "srt \<equiv> sort_accesses accs"
  assumes same: "ma_addr (srt ! Suc i) = ma_addr (srt ! i)" and rw: "ma_rw (srt ! Suc i) = 0"
  shows "ma_values (srt ! Suc i) = ma_values (srt ! i)"
proof -
  let ?key = "\<lambda>a. (ma_addr a, ma_timestamp a)"
  have sorted: "?key (srt ! a) \<le> ?key (srt ! b)" if "a \<le> b" and "b < length accs" for a b
    using sorted_nth_mono [of "map ?key srt" a b] that unfolding srt_def sort_accesses_def by simp
  have lt: "(of_nat a :: u64) < of_nat b \<longleftrightarrow> a < b" if "a < length accs" and "b < length accs" for a b
    using that len by (simp add: word_less_nat_alt unat_of_nat)
  have "set srt = set accs" by (simp add: srt_def sort_accesses_def)
  then have "\<exists>p<length accs. srt ! m = accs ! p" if "m < length accs" for m
    using that by (metis in_set_conv_nth length_sort_accesses srt_def)
  then obtain p q where p: "p < length accs" "srt ! i = accs ! p" and q: "q < length accs" "srt ! Suc i = accs ! q"
    using i by (meson Suc_lessD)
  have "distinct accs"
    unfolding distinct_conv_nth using ts lt by (metis less_irrefl linorder_neqE_nat)
  then have "distinct srt" by (simp add: srt_def sort_accesses_def)
  then have "p \<noteq> q" using p q i by (metis Suc_lessD length_sort_accesses n_not_Suc_n nth_eq_iff_index_eq srt_def)
  moreover have "\<not> q < p"
    using sorted [of i "Suc i"] i same p q ts lt [of q p] by (auto simp: less_eq_prod_def)
  ultimately have pq: "p < q" by simp
  have "ma_addr (accs ! k) \<noteq> ma_addr (accs ! q)" if k: "p < k" "k < q" for k
  proof
    assume a: "ma_addr (accs ! k) = ma_addr (accs ! q)"
    have kl: "k < length accs" using k q by simp
    then obtain m where m: "m < length accs" "srt ! m = accs ! k"
      by (metis \<open>set srt = set accs\<close> in_set_conv_nth length_sort_accesses srt_def nth_mem)
    have "ma_timestamp (srt ! i) < ma_timestamp (srt ! m)" and "ma_timestamp (srt ! m) < ma_timestamp (srt ! Suc i)"
      using k lt [OF p(1) kl] lt [OF kl q(1)] ts p q m kl by simp_all
    moreover have "ma_addr (srt ! m) = ma_addr (srt ! i)" and "ma_addr (srt ! m) = ma_addr (srt ! Suc i)"
      using a m p q same by simp_all
    ultimately have "\<not> m \<le> i" and "\<not> Suc i \<le> m" using sorted [of m i] sorted [of "Suc i" m] i m by (auto simp: less_eq_prod_def)
    then show False by simp
  qed
  then have "ma_values (accs ! p) = ma_values (accs ! q)" using con pq p q rw same unfolding memory_consistent_def by metis
  then show ?thesis using p q by simp
qed

text \<open>
  Well-formed trace columns: in a row either no selector is set and the value columns are zero, or the row is
  within the trace, exactly one selector is set, and address and values are those of machine words.
\<close>

definition idle_row :: "'a::field list \<Rightarrow> memory_columns \<Rightarrow> bool" where
  "idle_row cols mc \<longleftrightarrow> list_all (\<lambda>s. cols ! s = 0) (mc_loads mc @ mc_stores mc @ mc_vals mc)"

definition active_row :: "('a::field \<Rightarrow> u64) \<Rightarrow> 'a list \<Rightarrow> memory_columns \<Rightarrow> bool" where
  "active_row to_u64 cols mc \<longleftrightarrow>
     map (\<lambda>s. cols ! s) (filter (\<lambda>s. cols ! s \<noteq> 0) (mc_loads mc @ mc_stores mc)) = [1]
     \<and> list_all (\<lambda>c. scalar_from_u64 (to_u64 (cols ! c)) = cols ! c) (mc_addr mc # mc_vals mc)"

definition memory_trace_wf ::
  "('a::field \<Rightarrow> u64) \<Rightarrow> 'a list list \<Rightarrow> memory_columns \<Rightarrow> nat \<Rightarrow> nat \<Rightarrow> bool" where
  "memory_trace_wf to_u64 forms mc num_rows n \<longleftrightarrow>
     list_all (\<lambda>c. c < length forms) (mc_addr mc # mc_vals mc @ mc_loads mc @ mc_stores mc)
     \<and> list_all (\<lambda>i. idle_row (row_of forms i) mc \<or> i < num_rows \<and> active_row to_u64 (row_of forms i) mc) [0..<n]"

lemma sum_columns_filter: "sum_columns cols ixs start = start + sum_list (map (\<lambda>s. cols ! s) (filter (\<lambda>s. cols ! s \<noteq> 0) ixs))"
  unfolding sum_columns_def by (induction ixs arbitrary: start) (simp_all add: add.assoc)

lemma filter_Nil_list_ex: "filter P xs = [] \<longleftrightarrow> \<not> list_ex P xs"
  by (auto simp: filter_empty_conv list_ex_iff)

text \<open>In a well-formed row the verifier reads the access that the prover recorded.\<close>

lemma trace_tuple_honest:
  assumes wf: "memory_trace_wf to_u64 forms mc num_rows n" and i: "i < n"
  shows "trace_tuple (row_of forms i) mc (scalar_from_u64 (of_nat i)) = access_tuple (memory_row to_u64 forms mc num_rows i)"
    and "length (ma_values (memory_row to_u64 forms mc num_rows i)) = length (mc_vals mc)"
proof -
  let ?cols = "row_of forms i"
  let ?f = "\<lambda>ixs. map (\<lambda>s. ?cols ! s) (filter (\<lambda>s. ?cols ! s \<noteq> 0) ixs)"
  have col: "?cols ! c = forms ! c ! i" if "c = mc_addr mc \<or> c \<in> set (mc_vals mc) \<union> set (mc_loads mc) \<union> set (mc_stores mc)" for c
    using wf that by (auto simp: row_of_def memory_trace_wf_def list_all_iff)
  have ex: "list_ex (\<lambda>s. forms ! s ! i \<noteq> 0) ixs \<longleftrightarrow> ?f ixs \<noteq> []" if "ixs = mc_loads mc \<or> ixs = mc_stores mc" for ixs
  proof -
    have "list_ex (\<lambda>s. forms ! s ! i \<noteq> 0) ixs \<longleftrightarrow> list_ex (\<lambda>s. ?cols ! s \<noteq> 0) ixs"
      using that by (auto simp: list_ex_iff col)
    then show ?thesis by (simp add: filter_Nil_list_ex)
  qed
  show "length (ma_values (memory_row to_u64 forms mc num_rows i)) = length (mc_vals mc)"
    by (simp add: memory_row_def Let_def)
  consider (idle) "idle_row ?cols mc" | (act) "i < num_rows" "active_row to_u64 ?cols mc"
    using wf i unfolding memory_trace_wf_def list_all_iff by (metis atLeastLessThan_iff atLeastLessThan_upt le0)
  then show "trace_tuple ?cols mc (scalar_from_u64 (of_nat i)) = access_tuple (memory_row to_u64 forms mc num_rows i)"
  proof cases
    case idle
    then have "?f (mc_loads mc) = []" and "?f (mc_stores mc) = []" and z: "\<And>vc. vc \<in> set (mc_vals mc) \<Longrightarrow> ?cols ! vc = 0"
      by (auto simp: idle_row_def list_all_iff filter_empty_conv)
    moreover have "map (\<lambda>vc. ?cols ! vc) (mc_vals mc) = replicate (length (mc_vals mc)) 0"
      using z by (intro map_replicate_const [THEN [2] trans] map_cong) simp_all
    ultimately show ?thesis
      by (simp add: trace_tuple_def access_tuple_def memory_row_def Let_def ex sum_columns_filter scalar_from_u64_def)
  next
    case act
    have "?f (mc_loads mc) @ ?f (mc_stores mc) = [1]" using act(2) by (simp add: active_row_def)
    then consider (load) "?f (mc_loads mc) = [1]" "?f (mc_stores mc) = []" | (store) "?f (mc_loads mc) = []" "?f (mc_stores mc) = [1]"
      by (auto simp: append_eq_Cons_conv)
    moreover have vals: "scalar_from_u64 (to_u64 (forms ! c ! i)) = ?cols ! c" if "c \<in> set (mc_addr mc # mc_vals mc)" for c
      using act(2) that col [of c] by (auto simp: active_row_def list_all_iff)
    ultimately show ?thesis
      using act(1)
      by cases (simp_all add: trace_tuple_def access_tuple_def memory_row_def Let_def ex sum_columns_filter scalar_from_u64_def [of 0]
        scalar_from_u64_def [of 1])
  qed
qed

lemma nth_fill_column: "length xs = n \<Longrightarrow> i < n \<Longrightarrow> fill_column n xs ! i = xs ! i"
  by (simp add: fill_column_def)

lemma aux_columns:
  assumes "accs \<noteq> []" and "i < length accs"
  shows "fst (sort_and_compute_aux accs :: _ \<times> 'a::field list \<times> 'a list) = sort_accesses accs"
    and "fst (snd (sort_and_compute_aux accs)) ! i
         = (if 0 < i \<and> ma_addr (sort_accesses accs ! i) = ma_addr (sort_accesses accs ! (i - 1)) then 1 else (0 :: 'a))"
    and "snd (snd (sort_and_compute_aux accs)) ! i
         = (if 0 < i \<and> ma_addr (sort_accesses accs ! i) \<noteq> ma_addr (sort_accesses accs ! (i - 1))
            then inverse (scalar_from_u64 (ma_addr (sort_accesses accs ! i) - ma_addr (sort_accesses accs ! (i - 1)))) else (0 :: 'a))"
    and "length (fst (snd (sort_and_compute_aux accs)) :: 'a list) = length accs"
    and "length (snd (snd (sort_and_compute_aux accs)) :: 'a list) = length accs"
  using assms by (simp_all add: sort_and_compute_aux_def Let_def)

lemma honest_columns_nth:
  fixes forms :: "'a::field list list" and gamma delta :: 'a and mc :: memory_columns and to_u64 :: "'a \<Rightarrow> u64" and num_rows :: nat
  assumes "i < n"
  defines "v \<equiv> length (mc_vals mc)" and "accs \<equiv> memory_rows to_u64 forms mc num_rows n"
    and "P \<equiv> memory_perm_columns to_u64 forms mc num_rows n gamma delta"
  assumes z: "length (compute_grand_product accs (sort_accesses accs) gamma delta) = n"
  shows "P ! 0 ! i = scalar_from_u64 (ma_addr (sort_accesses accs ! i))"
    and "k < v \<Longrightarrow> P ! (1 + k) ! i = scalar_from_u64 (ma_values (sort_accesses accs ! i) ! k)"
    and "P ! (1 + v) ! i = scalar_from_u64 (ma_timestamp (sort_accesses accs ! i))"
    and "P ! (2 + v) ! i = scalar_from_u64 (ma_rw (sort_accesses accs ! i))"
    and "P ! (3 + v) ! i = compute_grand_product accs (sort_accesses accs) gamma delta ! i"
    and "P ! (4 + v) ! i = (if 0 < i \<and> ma_addr (sort_accesses accs ! i) = ma_addr (sort_accesses accs ! (i - 1)) then 1 else 0)"
    and "P ! (5 + v) ! i = (if 0 < i \<and> ma_addr (sort_accesses accs ! i) \<noteq> ma_addr (sort_accesses accs ! (i - 1))
            then inverse (scalar_from_u64 (ma_addr (sort_accesses accs ! i) - ma_addr (sort_accesses accs ! (i - 1)))) else 0)"
    and "P ! (6 + v) ! i = scalar_from_u64 (of_nat i)"
    and "length P = 7 + v"
proof -
  have len: "length accs = n" by (simp add: accs_def memory_rows_def)
  then have ne: "accs \<noteq> []" and il: "i < length accs" using assms(1) by auto
  obtain isa inv where aux: "sort_and_compute_aux accs = (sort_accesses accs, isa, inv :: 'a list)"
    using aux_columns(1) [OF ne il] by (metis prod.collapse)
  note aux_i = aux_columns [where 'a = 'a, OF ne il, unfolded aux fst_conv snd_conv]
  define vcols where "vcols = map (\<lambda>k. fill_column n (map (\<lambda>a. scalar_from_u64 (ma_values a ! k) :: 'a) (sort_accesses accs))) [0..<v]"
  have P: "P = fill_column n (map (\<lambda>a. scalar_from_u64 (ma_addr a)) (sort_accesses accs)) # vcols
      @ [fill_column n (map (\<lambda>a. scalar_from_u64 (ma_timestamp a)) (sort_accesses accs)),
         fill_column n (map (\<lambda>a. scalar_from_u64 (ma_rw a)) (sort_accesses accs)),
         fill_column n (compute_grand_product accs (sort_accesses accs) gamma delta), fill_column n isa, fill_column n inv,
         map (\<lambda>i. scalar_from_u64 (of_nat i)) [0..<n]]"
    by (simp add: P_def memory_perm_columns_def accs_def [symmetric] aux vcols_def v_def)
  have lv: "length vcols = v" by (simp add: vcols_def)
  have la: "length (sort_accesses accs) = n" using len by simp
  note simps = P nth_append lv nth_fill_column la numeral_eq_Suc len z assms(1)
  show "P ! 0 ! i = scalar_from_u64 (ma_addr (sort_accesses accs ! i))" by (simp add: simps)
  show "k < v \<Longrightarrow> P ! (1 + k) ! i = scalar_from_u64 (ma_values (sort_accesses accs ! i) ! k)"
    by (simp add: simps) (simp add: vcols_def nth_fill_column len assms(1))
  show "P ! (1 + v) ! i = scalar_from_u64 (ma_timestamp (sort_accesses accs ! i))" by (simp add: simps)
  show "P ! (2 + v) ! i = scalar_from_u64 (ma_rw (sort_accesses accs ! i))" by (simp add: simps)
  show "P ! (3 + v) ! i = compute_grand_product accs (sort_accesses accs) gamma delta ! i" by (simp add: simps)
  show "P ! (4 + v) ! i = (if 0 < i \<and> ma_addr (sort_accesses accs ! i) = ma_addr (sort_accesses accs ! (i - 1)) then 1 else 0)"
    using aux_i(2,4) by (simp add: simps)
  show "P ! (5 + v) ! i = (if 0 < i \<and> ma_addr (sort_accesses accs ! i) \<noteq> ma_addr (sort_accesses accs ! (i - 1))
            then inverse (scalar_from_u64 (ma_addr (sort_accesses accs ! i) - ma_addr (sort_accesses accs ! (i - 1)))) else 0)"
    using aux_i(3,5) by (simp add: simps)
  show "P ! (6 + v) ! i = scalar_from_u64 (of_nat i)" by (simp add: simps)
  show "length P = 7 + v" by (simp add: P lv)
qed

lemma scalar_diff:
  assumes "char_above TYPE('a::field) (2 ^ 64)" and "b < a"
  shows "scalar_from_u64 (a - b) = scalar_from_u64 a - (scalar_from_u64 b :: 'a)" and "scalar_from_u64 (a - b) \<noteq> (0 :: 'a)"
proof -
  have eq: "uint (a - b) = uint a - uint b" using assms(2) by (simp add: uint_sub_if' word_less_def)
  then show "scalar_from_u64 (a - b) = scalar_from_u64 a - (scalar_from_u64 b :: 'a)"
    by (simp only: scalar_from_u64_def of_int_diff)
  have "0 < uint (a - b)" and "uint (a - b) < 2 ^ 64" using eq assms(2) uint_lt2p [of "a - b"] by (simp_all add: word_less_def)
  then show "scalar_from_u64 (a - b) \<noteq> (0 :: 'a)"
    using char_aboveD [OF assms(1), of "uint (a - b)"] unfolding scalar_from_u64_def by force
qed

lemma sorted_transition:
  assumes char: "char_above TYPE('a::field) (2 ^ 64)"
    and ts: "\<And>i. i < length accs \<Longrightarrow> ma_timestamp (accs ! i) = of_nat i" and len: "length accs < 2 ^ 64"
    and con: "memory_consistent accs" and rw: "\<And>a. a \<in> set accs \<Longrightarrow> ma_rw a = 0 \<or> ma_rw a = 1" and i: "Suc i < length accs"
  defines "a \<equiv> sort_accesses accs ! i" and "b \<equiv> sort_accesses accs ! Suc i"
  shows "ma_addr b \<noteq> ma_addr a
         \<Longrightarrow> (scalar_from_u64 (ma_addr b) - scalar_from_u64 (ma_addr a)) * inverse (scalar_from_u64 (ma_addr b - ma_addr a)) = (1 :: 'a)"
    and "ma_addr b = ma_addr a
         \<Longrightarrow> (1 - scalar_from_u64 (ma_rw b)) * (scalar_from_u64 (ma_values b ! k) - scalar_from_u64 (ma_values a ! k)) = (0 :: 'a)"
proof -
  assume "ma_addr b \<noteq> ma_addr a"
  moreover have "(ma_addr a, ma_timestamp a) \<le> (ma_addr b, ma_timestamp b)"
    using sorted_nth_mono [of "map (\<lambda>a. (ma_addr a, ma_timestamp a)) (sort_accesses accs)" i "Suc i"] i
    unfolding sort_accesses_def a_def b_def by simp
  ultimately have "ma_addr a < ma_addr b" by (auto simp: less_eq_prod_def)
  from scalar_diff [OF char this]
  show "(scalar_from_u64 (ma_addr b) - scalar_from_u64 (ma_addr a)) * inverse (scalar_from_u64 (ma_addr b - ma_addr a)) = (1 :: 'a)"
    by simp
next
  assume same: "ma_addr b = ma_addr a"
  have "b \<in> set accs" using i unfolding b_def by (metis length_sort_accesses mset_sort_accesses nth_mem set_mset_mset)
  then consider "ma_rw b = 0" | "ma_rw b = 1" using rw by blast
  then show "(1 - scalar_from_u64 (ma_rw b)) * (scalar_from_u64 (ma_values b ! k) - scalar_from_u64 (ma_values a ! k)) = (0 :: 'a)"
  proof cases
    case 1
    then have "ma_values b = ma_values a"
      using sorted_neighbours [OF ts len con i] same unfolding a_def b_def by blast
    then show ?thesis by simp
  qed (simp add: scalar_from_u64_def)
qed

text \<open>
  C16. Completeness of the memory argument: if the trace columns are well-formed and every read returns the
  value of the last access to its address, the columns of the prover make the verifier's value vanish in
  every row and for every challenge, provided no hash of an access is zero.
\<close>
theorem memory_argument_complete:
  fixes forms :: "'a::field list list" and to_u64 :: "'a \<Rightarrow> u64"
  assumes dom: "root_domain omega n" and char: "char_above TYPE('a) (2 ^ 64)"
    and wf: "memory_trace_wf to_u64 forms mc num_rows n"
    and con: "memory_consistent (memory_rows to_u64 forms mc num_rows n)"
    and nz: "\<forall>a\<in>set (memory_rows to_u64 forms mc num_rows n). compute_tuple_hash a gamma delta (delta * delta) (delta * delta * delta) \<noteq> 0"
  shows "memory_accepts forms (memory_perm_columns to_u64 forms mc num_rows n gamma delta) mc gamma delta omega n UNIV off"
proof -
  define accs where "accs = memory_rows to_u64 forms mc num_rows n"
  note con = con [folded accs_def] and nz = nz [folded accs_def]
  let ?v = "length (mc_vals mc)" and ?P = "memory_perm_columns to_u64 forms mc num_rows n gamma delta"
  let ?s = "sort_accesses accs" and ?z = "compute_grand_product accs (sort_accesses accs) gamma delta"
  have n: "0 < n" "n < 2 ^ 64" using dom by (simp_all add: root_domain_def)
  have len: "length accs = n" by (simp add: accs_def memory_rows_def)
  then have ne: "accs \<noteq> []" using n by auto
  have acc: "accs ! i = memory_row to_u64 forms mc num_rows i" if "i < n" for i
    using that by (simp add: accs_def memory_rows_def)
  have ts: "ma_timestamp (accs ! i) = of_nat i" if "i < length accs" for i
    using that len acc by (simp add: memory_row_def Let_def split: prod.splits)
  have vals: "length (ma_values (?s ! i)) = ?v" if "i < n" for i
  proof -
    have "?s ! i \<in> set accs" using that len by (metis length_sort_accesses mset_sort_accesses nth_mem set_mset_mset)
    then show ?thesis using trace_tuple_honest(2) [OF wf] len acc by (metis in_set_conv_nth)
  qed
  note gp = grand_product_closes [OF ne, of gamma delta, unfolded len]
  have nz': "gamma + tuple_key delta (access_tuple a) \<noteq> 0" if "a \<in> set accs" for a
    using nz that by (simp add: compute_tuple_hash_key)
  have lz: "length ?z = n" by (rule gp(3) [OF nz' n(1)])
  note cols = honest_columns_nth [where forms = forms and gamma = gamma and delta = delta and mc = mc and ?to_u64.0 = to_u64
      and num_rows = num_rows, of _ n, folded accs_def, OF _ lz]
  have rw: "ma_rw a = 0 \<or> ma_rw a = 1" if "a \<in> set accs" for a
    using that by (auto simp: accs_def memory_rows_def memory_row_def Let_def)
  note tr = sorted_transition [OF char ts _ con rw, unfolded len, OF _ n(2)]
  have "memory_row_ok forms ?P mc gamma delta n i" if i: "i < n" for i
  proof -
    have j: "Suc i mod n < n" using n by simp
    have key: "sorted_tuple ?P ?v m = access_tuple (?s ! m)" if "m < n" for m
      using cols [OF that] vals [OF that] by (auto simp: sorted_tuple_def access_tuple_def intro!: nth_equalityI)
    have step: "?P ! (3 + ?v) ! (Suc i mod n) * (gamma + tuple_key delta (sorted_tuple ?P ?v i))
      = ?P ! (3 + ?v) ! i * (gamma + tuple_key delta (trace_tuple (row_of forms i) mc (?P ! (6 + ?v) ! i)))"
      unfolding cols(5) [OF i] cols(5) [OF j] cols(8) [OF i] key [OF i] trace_tuple_honest(1) [OF wf i] acc [OF i, symmetric]
      by (rule gp(1) [OF nz' i])
    have init: "?P ! (3 + ?v) ! 0 = 1" unfolding cols(5) [OF n(1)] by (rule gp(2) [OF nz' n(1)])
    have bin: "?P ! (4 + ?v) ! i * (?P ! (4 + ?v) ! i - 1) = 0" unfolding cols(6) [OF i] by simp
    have "?P ! (4 + ?v) ! Suc i * (?P ! 0 ! Suc i - ?P ! 0 ! i) = 0
      \<and> (1 - ?P ! (4 + ?v) ! Suc i) * (1 - (?P ! 0 ! Suc i - ?P ! 0 ! i) * ?P ! (5 + ?v) ! Suc i) = 0
      \<and> (\<forall>k<?v. ?P ! (4 + ?v) ! Suc i * (1 - ?P ! (2 + ?v) ! Suc i) * (?P ! (1 + k) ! Suc i - ?P ! (1 + k) ! i) = 0)"
      if si: "Suc i < n"
    proof (cases "ma_addr (?s ! Suc i) = ma_addr (?s ! i)")
      case True
      then show ?thesis
        using tr(2) [of i] si cols(1,6) [OF si] cols(1,2) [OF i] cols(2,4) [OF si] by simp
    next
      case False
      then show ?thesis using tr(1) [of i] si cols(1,6,7) [OF si] cols(1) [OF i] by simp
    qed
    then show ?thesis
      using step init bin i unfolding memory_row_ok_def Let_def by (auto simp: mod_less)
  qed
  then show ?thesis by (intro rows_ok_accepts [OF dom]) (simp_all add: cols(9) [OF n(1)])
qed

theorem memory_argument_complete_witness:
  "memory_accepts [[5, 5], [7, 7], [0, 1], [1, 0 :: rat]]
     (memory_perm_columns (\<lambda>x. of_int \<lfloor>x\<rfloor>) [[5, 5], [7, 7], [0, 1], [1, 0]]
        \<lparr>mc_addr = 0, mc_vals = [1], mc_loads = [2], mc_stores = [3]\<rparr> 2 2 1 1)
     \<lparr>mc_addr = 0, mc_vals = [1], mc_loads = [2], mc_stores = [3]\<rparr> 1 1 (- 1) 2 UNIV 0"
proof (rule memory_argument_complete [OF root_domain_2 char_above_char_0])
  let ?mc = "\<lparr>mc_addr = 0, mc_vals = [1], mc_loads = [2], mc_stores = [3]\<rparr>"
  let ?forms = "[[5, 5], [7, 7], [0, 1], [1, 0]] :: rat list list"
  have up: "[0..<2] = [0, 1 :: nat]" by (simp add: upt_rec)
  show "memory_trace_wf (\<lambda>x. of_int \<lfloor>x\<rfloor>) ?forms ?mc 2 2"
    by (simp add: memory_trace_wf_def up idle_row_def active_row_def row_of_def scalar_from_u64_def)
  have rows: "memory_rows (\<lambda>x. of_int \<lfloor>x\<rfloor>) ?forms ?mc 2 2
    = [\<lparr>ma_addr = 5, ma_values = [7], ma_timestamp = 0, ma_rw = 1\<rparr>, \<lparr>ma_addr = 5, ma_values = [7], ma_timestamp = 1, ma_rw = 0\<rparr>]"
    by (simp add: memory_rows_def up memory_row_def)
  show "memory_consistent (memory_rows (\<lambda>x. of_int \<lfloor>x\<rfloor>) ?forms ?mc 2 2)"
    unfolding rows memory_consistent_def by (auto simp: less_Suc_eq)
  show "\<forall>a\<in>set (memory_rows (\<lambda>x. of_int \<lfloor>x\<rfloor>) ?forms ?mc 2 2). compute_tuple_hash a 1 1 (1 * 1) (1 * 1 * 1) \<noteq> (0 :: rat)"
    unfolding rows by (simp add: compute_tuple_hash_def combine_values_def scalar_from_u64_def)
qed

section \<open>Frame stack\<close>

lemma frame_factor_eval: "frame_perm_tuple_factor t gamma delta = gamma + eval_poly_at (0 # t) delta"
proof -
  have "fst (fold (\<lambda>ev (acc, p). (acc + p * ev, p * delta)) t (acc, p)) = acc + p * eval_poly_at t delta" for acc p
    by (induction t arbitrary: acc p) (simp_all add: eval_Cons algebra_simps)
  then show ?thesis by (simp add: frame_perm_tuple_factor_def eval_Cons)
qed

text \<open>A row of the domain as the verifier sees it, and acceptance of all rows.\<close>

definition frame_row_value ::
  "'a::field list list \<Rightarrow> nat list \<Rightarrow> frame_stack_layout \<Rightarrow> 'a list \<Rightarrow> 'a \<Rightarrow> 'a \<Rightarrow> 'a \<Rightarrow> nat \<Rightarrow> 'a \<Rightarrow> nat \<Rightarrow> nat
   \<Rightarrow> 'a option" where
  "frame_row_value forms indices layout z gamma delta omega n alpha off i =
     frame_permutation_at_point (z ! i) (z ! (Suc i mod n)) (row_of forms i) indices
       (map (\<lambda>c. forms ! c ! (Suc i mod n)) indices) layout gamma delta (omega ^ i) (of_nat n) alpha off"

definition frame_accepts ::
  "'a::field list list \<Rightarrow> nat list \<Rightarrow> frame_stack_layout \<Rightarrow> 'a list \<Rightarrow> 'a \<Rightarrow> 'a \<Rightarrow> 'a \<Rightarrow> nat \<Rightarrow> 'a set \<Rightarrow> nat \<Rightarrow> bool" where
  "frame_accepts forms indices layout z gamma delta omega n A off \<longleftrightarrow>
     (\<forall>i<n. \<forall>alpha\<in>A. frame_row_value forms indices layout z gamma delta omega n alpha off i = Some 0)"

text \<open>The rows that save a frame and the rows that restore one; flags are binary and columns are opened.\<close>

definition pushes :: "'a::field list list \<Rightarrow> frame_stack_layout \<Rightarrow> nat \<Rightarrow> nat list" where
  "pushes forms layout n = filter (\<lambda>i. frame_flag forms (f_push_selectors layout) i = 1) [0..<n]"

definition pops :: "'a::field list list \<Rightarrow> frame_stack_layout \<Rightarrow> nat \<Rightarrow> nat list" where
  "pops forms layout n = filter (\<lambda>i. frame_flag forms (f_pop_selectors layout) i = 1) [0..<n]"

definition frame_trace_wf :: "'a::field list list \<Rightarrow> nat list \<Rightarrow> frame_stack_layout \<Rightarrow> nat \<Rightarrow> bool" where
  "frame_trace_wf forms indices layout n \<longleftrightarrow>
     list_all (\<lambda>c. c < length forms) (f_tuple_columns layout @ f_push_selectors layout @ f_pop_selectors layout)
     \<and> list_all (\<lambda>c. c \<in> set indices) (f_tuple_columns layout)
     \<and> list_all (\<lambda>i. frame_flag forms (f_push_selectors layout) i \<in> {0, 1} \<and> frame_flag forms (f_pop_selectors layout) i \<in> {0, 1})
         [0..<n]"

definition push_factor :: "'a::field list list \<Rightarrow> frame_stack_layout \<Rightarrow> 'a \<Rightarrow> 'a \<Rightarrow> nat \<Rightarrow> 'a" where
  "push_factor forms layout gamma delta i =
     gated_factor (frame_flag forms (f_push_selectors layout) i) (gamma + eval_poly_at (0 # frame_tuple forms layout i) delta)"

definition pop_factor :: "'a::field list list \<Rightarrow> frame_stack_layout \<Rightarrow> 'a \<Rightarrow> 'a \<Rightarrow> nat \<Rightarrow> nat \<Rightarrow> 'a" where
  "pop_factor forms layout gamma delta n i =
     gated_factor (frame_flag forms (f_pop_selectors layout) i)
       (gamma + eval_poly_at (0 # frame_tuple forms layout (Suc i mod n)) delta)"

lemma sum_columns_flag: "list_all (\<lambda>c. c < length forms) sels \<Longrightarrow> sum_columns (row_of forms i) sels 0 = frame_flag forms sels i"
proof -
  assume "list_all (\<lambda>c. c < length forms) sels"
  then have "fold (\<lambda>c acc. acc + row_of forms i ! c) sels x = fold (\<lambda>s p. p + forms ! s ! i) sels x" for x
    by (induction sels arbitrary: x) (simp_all add: row_of_def)
  then show ?thesis by (simp add: sum_columns_def frame_flag_def)
qed

lemma frame_row_value_eq:
  assumes "root_domain omega n" and "i < n" and wf: "frame_trace_wf forms indices layout n"
  shows "frame_row_value forms indices layout z gamma delta omega n alpha off i
         = Some (add_bodies alpha off
             [z ! (Suc i mod n) * pop_factor forms layout gamma delta n i - z ! i * push_factor forms layout gamma delta i,
              (if i = 0 then 1 else 0) * (z ! i - 1)])"
proof -
  have cols: "list_all (\<lambda>c. c < length forms) (f_tuple_columns layout)" "list_all (\<lambda>c. c < length forms) (f_push_selectors layout)"
    "list_all (\<lambda>c. c < length forms) (f_pop_selectors layout)" and opened: "list_all (\<lambda>c. c \<in> set indices) (f_tuple_columns layout)"
    using wf by (simp_all add: frame_trace_wf_def)
  have here: "map (\<lambda>c. row_of forms i ! c) (f_tuple_columns layout) = frame_tuple forms layout i"
    using cols(1) by (simp add: frame_tuple_def row_of_def list_all_iff)
  show ?thesis
    unfolding frame_row_value_def frame_permutation_at_point_def Let_def shifted_lookup [OF opened] option.case here
      sum_columns_flag [OF cols(2)] sum_columns_flag [OF cols(3)] evaluate_frame_perm_at_point_def frame_bodies_def
      first_lagrange_domain [OF assms(1,2)] frame_factor_eval push_factor_def pop_factor_def
    by (simp only: frame_tuple_def)
qed

lemma gated_product:
  assumes "\<And>i. i \<in> set is \<Longrightarrow> flag i \<in> {0, 1 :: 'a::field}"
  shows "(\<Prod>i\<leftarrow>is. gated_factor (flag i) (gamma + f i)) = (\<Prod>x\<leftarrow>map f (filter (\<lambda>i. flag i = 1) is). gamma + x)"
  using assms
proof (induction "is")
  case (Cons i js)
  then have "flag i = 0 \<or> flag i = 1" by simp
  then show ?case using Cons by (elim disjE) (simp_all add: gated_factor_def)
qed simp

lemma frame_products:
  assumes "frame_trace_wf forms indices layout n"
  shows "(\<Prod>i<n. push_factor forms layout gamma delta i)
           = (\<Prod>x\<leftarrow>map (\<lambda>i. eval_poly_at (0 # frame_tuple forms layout i) delta) (pushes forms layout n). gamma + x)"
    and "(\<Prod>i<n. pop_factor forms layout gamma delta n i)
           = (\<Prod>x\<leftarrow>map (\<lambda>i. eval_poly_at (0 # frame_tuple forms layout (Suc i mod n)) delta) (pops forms layout n). gamma + x)"
proof -
  have flags: "frame_flag forms (f_push_selectors layout) i \<in> {0, 1}" "frame_flag forms (f_pop_selectors layout) i \<in> {0, 1}"
    if "i \<in> set [0..<n]" for i
    using assms that unfolding frame_trace_wf_def list_all_iff by metis+
  show "(\<Prod>i<n. push_factor forms layout gamma delta i)
      = (\<Prod>x\<leftarrow>map (\<lambda>i. eval_poly_at (0 # frame_tuple forms layout i) delta) (pushes forms layout n). gamma + x)"
    unfolding push_factor_def prod_list_lessThan [symmetric] pushes_def by (rule gated_product) (rule flags)
  show "(\<Prod>i<n. pop_factor forms layout gamma delta n i)
      = (\<Prod>x\<leftarrow>map (\<lambda>i. eval_poly_at (0 # frame_tuple forms layout (Suc i mod n)) delta) (pops forms layout n). gamma + x)"
    unfolding pop_factor_def prod_list_lessThan [symmetric] pops_def by (rule gated_product) (rule flags)
qed

text \<open>Every frame saved is restored: the frames at calls and the frames after returns are the same multiset.\<close>

definition frames_balanced :: "'a::field list list \<Rightarrow> frame_stack_layout \<Rightarrow> nat \<Rightarrow> bool" where
  "frames_balanced forms layout n \<longleftrightarrow>
     mset (map (frame_tuple forms layout) (pushes forms layout n))
       = mset (map (\<lambda>i. frame_tuple forms layout (Suc i mod n)) (pops forms layout n))"

lemma prod_list_mset_cong:
  fixes f :: "'b \<Rightarrow> 'a::comm_monoid_mult"
  shows "mset xs = mset ys \<Longrightarrow> (\<Prod>x\<leftarrow>xs. f x) = (\<Prod>x\<leftarrow>ys. f x)"
proof -
  assume "mset xs = mset ys"
  then have "prod_mset (mset (map f xs)) = prod_mset (mset (map f ys))" by (simp only: mset_map)
  then show ?thesis by (simp only: prod_mset_prod_list)
qed

lemma length_events: "length (pushes forms layout n) \<le> n" "length (pops forms layout n) \<le> n"
  unfolding pushes_def pops_def by (metis diff_zero length_filter_le length_upt)+

lemma frames_balanced_if_accepted:
  fixes forms :: "'a::field list list"
  assumes dom: "root_domain omega n" and wf: "frame_trace_wf forms indices layout n"
    and A: "finite A" "2 \<le> card A" "0 \<notin> A" and G: "finite G" "n < card G"
    and D: "finite D" "4 * n * n * (length (f_tuple_columns layout) + 1) < card D"
    and acc: "\<And>delta gamma. delta \<in> D \<Longrightarrow> gamma \<in> G \<Longrightarrow> \<exists>z. frame_accepts forms indices layout z gamma delta omega n A off"
  shows "frames_balanced forms layout n"
proof -
  let ?t = "frame_tuple forms layout"
  let ?xs = "map (\<lambda>i. 0 # ?t i) (pushes forms layout n)" and ?ys = "map (\<lambda>i. 0 # ?t (Suc i mod n)) (pops forms layout n)"
  have len: "length (pops forms layout n) < card G" "length (pushes forms layout n) < card G"
    using length_events [of forms layout n] G(2) by linarith+
  have "mset ?ys = mset ?xs"
  proof (rule polys_determined [OF D(1), of _ n _ "length (f_tuple_columns layout) + 1"])
    fix delta assume d: "delta \<in> D"
    have "mset (map (\<lambda>i. eval_poly_at (0 # ?t (Suc i mod n)) delta) (pops forms layout n))
      = mset (map (\<lambda>i. eval_poly_at (0 # ?t i) delta) (pushes forms layout n))"
    proof (rule products_determine_multiset [OF G(1)])
      fix gamma assume g: "gamma \<in> G"
      obtain z where z: "frame_accepts forms indices layout z gamma delta omega n A off" using acc [OF d g] ..
      have rows: "set [z ! (Suc i mod n) * pop_factor forms layout gamma delta n i - z ! i * push_factor forms layout gamma delta i,
          (if i = 0 then 1 else 0) * (z ! i - 1)] \<subseteq> {0}" if "i < n" for i
      proof (rule add_bodies_separate [OF A(1) _ A(3)])
        fix alpha assume "alpha \<in> A"
        then have "frame_row_value forms indices layout z gamma delta omega n alpha off i = Some 0"
          using z that unfolding frame_accepts_def by blast
        then show "add_bodies alpha off [z ! (Suc i mod n) * pop_factor forms layout gamma delta n i
            - z ! i * push_factor forms layout gamma delta i, (if i = 0 then 1 else 0) * (z ! i - 1)] = 0"
          unfolding frame_row_value_eq [OF dom that wf] by (simp only: option.inject)
      qed (use A in simp)
      have "(\<Prod>i<n. pop_factor forms layout gamma delta n i) = (\<Prod>i<n. push_factor forms layout gamma delta i)"
      proof (rule closed_accumulator [of n "\<lambda>i. z ! i"])
        show "0 < n" using dom by (simp add: root_domain_def)
        then show "z ! 0 = 1" using rows [of 0] by simp
        show "z ! (Suc i mod n) * pop_factor forms layout gamma delta n i = z ! i * push_factor forms layout gamma delta i" if "i < n" for i
          using rows [OF that] by simp
      qed
      then show "(\<Prod>x\<leftarrow>map (\<lambda>i. eval_poly_at (0 # ?t (Suc i mod n)) delta) (pops forms layout n). gamma + x)
        = (\<Prod>x\<leftarrow>map (\<lambda>i. eval_poly_at (0 # ?t i) delta) (pushes forms layout n). gamma + x)"
        unfolding frame_products [OF wf] .
    qed (use len in simp_all)
    then show "mset (map (\<lambda>p. eval_poly_at p delta) ?ys) = mset (map (\<lambda>p. eval_poly_at p delta) ?xs)"
      by (simp only: map_map comp_def)
  qed (use D length_events [of forms layout n] in \<open>auto simp: frame_tuple_def\<close>)
  then have "mset (map (\<lambda>t. 0 # t) (map (\<lambda>i. ?t (Suc i mod n)) (pops forms layout n))) = mset (map (\<lambda>t. 0 # t) (map ?t (pushes forms layout n)))"
    by (simp only: map_map comp_def)
  from mset_map_inj [OF _ this] show ?thesis by (simp add: frames_balanced_def inj_on_def)
qed

lemma balanced_frames_accepted:
  fixes forms :: "'a::field list list"
  assumes dom: "root_domain omega n" and wf: "frame_trace_wf forms indices layout n" and bal: "frames_balanced forms layout n"
    and nz: "\<And>i. i < n \<Longrightarrow> pop_factor forms layout gamma delta n i \<noteq> 0"
  shows "frame_accepts forms indices layout (frame_perm_column forms layout n gamma delta) gamma delta omega n UNIV off"
proof -
  let ?N = "push_factor forms layout gamma delta" and ?D = "pop_factor forms layout gamma delta n"
  let ?k = "\<lambda>t. eval_poly_at (0 # t) delta"
  have n: "0 < n" using dom by (simp add: root_domain_def)
  define z where "z = fold (\<lambda>i z. z[i + 1 := z ! i * (?N i * inverse (?D i))]) [0..<n - 1] (replicate n 1)"
  have z: "frame_perm_column forms layout n gamma delta = z"
    unfolding frame_perm_column_def compute_frame_perm_z_def Let_def z_def length_map length_upt diff_zero
  proof (rule fold_cong [OF refl refl])
    fix i assume "i \<in> set [0..<n - 1]"
    then have i: "i < n" by simp
    show "(\<lambda>z. z[i + 1 := z ! i * gated_factor (map (frame_flag forms (f_push_selectors layout)) [0..<n] ! i)
              (frame_perm_tuple_factor (map (frame_tuple forms layout) [0..<n] ! i) gamma delta)
            * inverse (gated_factor (map (frame_flag forms (f_pop_selectors layout)) [0..<n] ! i)
              (frame_perm_tuple_factor (map (\<lambda>row. frame_tuple forms layout ((row + 1) mod n)) [0..<n] ! i) gamma delta))])
        = (\<lambda>z. z[i + 1 := z ! i * (?N i * inverse (?D i))])"
      using i by (simp add: push_factor_def pop_factor_def frame_factor_eval mult.assoc)
  qed
  have "mset (map ?k (map (frame_tuple forms layout) (pushes forms layout n)))
      = mset (map ?k (map (\<lambda>i. frame_tuple forms layout (Suc i mod n)) (pops forms layout n)))"
    using bal unfolding frames_balanced_def by (metis mset_map)
  then have "mset (map (\<lambda>i. ?k (frame_tuple forms layout i)) (pushes forms layout n))
      = mset (map (\<lambda>i. ?k (frame_tuple forms layout (Suc i mod n))) (pops forms layout n))"
    by (simp only: map_map comp_def)
  then have "(\<Prod>i<n. ?N i) = (\<Prod>i<n. ?D i)"
    unfolding frame_products [OF wf] by (rule prod_list_mset_cong)
  note prods = this
  have close: "z ! (Suc i mod n) * ?D i = z ! i * ?N i" and init: "z ! 0 = 1" if "i < n" for i
    unfolding z_def by (rule running_product_closes [OF n nz prods that], assumption)+
  show ?thesis
    unfolding frame_accepts_def z
  proof (intro allI impI ballI)
    fix i alpha assume i: "i < n"
    show "frame_row_value forms indices layout z gamma delta omega n alpha off i = Some 0"
      unfolding frame_row_value_eq [OF dom i wf] close [OF i]
      using init [OF n] by (simp add: add_bodies_zero)
  qed
qed

text \<open>
  C17. The frame-stack argument is exact: if for enough challenges there is an accumulator column that the
  verifier accepts in every row, the frames saved at calls and the frames restored after returns are the
  same multiset; and if they are, the accumulator column of the prover is accepted for every challenge,
  provided no factor is zero.
\<close>
theorem frame_argument:
  fixes forms :: "'a::field list list"
  assumes "root_domain omega n" and "frame_trace_wf forms indices layout n"
    and "finite A" "2 \<le> card A" "0 \<notin> A" and "finite G" "n < card G"
    and "finite D" "4 * n * n * (length (f_tuple_columns layout) + 1) < card D"
  shows "((\<forall>delta\<in>D. \<forall>gamma\<in>G. \<exists>z. frame_accepts forms indices layout z gamma delta omega n A off)
            \<longrightarrow> frames_balanced forms layout n)
         \<and> (frames_balanced forms layout n \<longrightarrow> (\<forall>i<n. pop_factor forms layout gamma delta n i \<noteq> 0)
            \<longrightarrow> frame_accepts forms indices layout (frame_perm_column forms layout n gamma delta) gamma delta omega n UNIV off)"
proof (intro conjI impI)
  assume "\<forall>delta\<in>D. \<forall>gamma\<in>G. \<exists>z. frame_accepts forms indices layout z gamma delta omega n A off"
  then show "frames_balanced forms layout n" using assms by (intro frames_balanced_if_accepted) blast+
next
  assume "frames_balanced forms layout n" and nz: "\<forall>i<n. pop_factor forms layout gamma delta n i \<noteq> 0"
  then show "frame_accepts forms indices layout (frame_perm_column forms layout n gamma delta) gamma delta omega n UNIV off"
    using assms(1,2) by (intro balanced_frames_accepted) simp_all
qed

text \<open>A call in row 0 and the return in row 1.\<close>

theorem frame_argument_witness:
  "(let forms = [[3, 5], [1, 0], [0, 1]] :: rat list list;
        layout = \<lparr>f_z_column = 0, f_num_columns = 1, f_tuple_columns = [0], f_push_selectors = [1], f_pop_selectors = [2]\<rparr>
    in frames_balanced forms layout 2
       \<and> frame_accepts forms [0] layout (frame_perm_column forms layout 2 1 1) 1 1 (- 1) 2 UNIV 0)"
proof -
  let ?forms = "[[3, 5], [1, 0], [0, 1]] :: rat list list"
  let ?l = "\<lparr>f_z_column = 0, f_num_columns = 1, f_tuple_columns = [0], f_push_selectors = [1], f_pop_selectors = [2]\<rparr>"
  let ?S = "\<lambda>k::nat. rat_of_nat ` {1..k}"
  have card: "card (?S k) = k" for k by (simp add: card_image)
  have up: "[0..<2] = [0, 1 :: nat]" by (simp add: upt_rec)
  have wf: "frame_trace_wf ?forms [0] ?l 2" by (simp add: frame_trace_wf_def up frame_flag_def)
  have bal: "frames_balanced ?forms ?l 2"
    by (simp add: frames_balanced_def pushes_def pops_def up frame_flag_def frame_tuple_def)
  have nz: "\<forall>i<2. pop_factor ?forms ?l 1 1 2 i \<noteq> 0"
    by (auto simp: pop_factor_def gated_factor_def frame_flag_def frame_tuple_def eval_Cons less_2_cases_iff)
  have "2 \<le> card (?S 10)" and "2 < card (?S 10)" and "4 * 2 * 2 * (length (f_tuple_columns ?l) + 1) < card (?S 200)"
    by (simp_all only: card) simp_all
  moreover have "0 \<notin> ?S 10" by auto
  ultimately show ?thesis
    using frame_argument [OF root_domain_2 wf, of "?S 10" "?S 10" "?S 200" 0 1 1] bal nz by (simp only: Let_def) simp
qed

section \<open>Registers\<close>

lemma nth_concat_blocks:
  assumes "\<And>l. l < p \<Longrightarrow> length (f l) = b" and "l < p" and "k < b"
  shows "concat (map f [0..<p]) ! (b * l + k) = f l ! k" and "length (concat (map f [0..<p])) = b * p"
proof -
  have len: "length (concat (map f [0..<q])) = b * q" if "q \<le> p" for q
    using that assms(1) by (induction q) simp_all
  then show "length (concat (map f [0..<p])) = b * p" by simp
  have "concat (map f [0..<q]) ! (b * l + k) = f l ! k" if "l < q" and "q \<le> p" for q
    using that
  proof (induction q)
    case (Suc q)
    show ?case
    proof (cases "l < q")
      case True
      have "b * l + k < b * Suc l" using assms(3) by simp
      also have "\<dots> \<le> b * q" using True by (intro mult_le_mono2) simp
      finally show ?thesis using Suc True len [of q] by (simp add: nth_append)
    next
      case False
      then have "l = q" using Suc.prems by simp
      then show ?thesis using len [of q] Suc.prems by (simp add: nth_append)
    qed
  qed simp
  then show "concat (map f [0..<p]) ! (b * l + k) = f l ! k" using assms(2) by simp
qed

lemma register_columns_nth:
  fixes forms :: "'a::field list list" and ports :: "port list" and rd :: "'a \<Rightarrow> u64" and num_rows n :: nat and gamma delta :: 'a
  assumes "lane < length ports"
  defines "srt \<equiv> sort_accesses (register_accesses rd forms ports num_rows n)"
    and "P \<equiv> register_perm_columns rd forms ports num_rows n gamma delta"
  shows "P ! lane_val lane = lane_column srt (length ports) n lane (\<lambda>a. ma_values a ! 0)"
    and "P ! lane_rw lane = lane_column srt (length ports) n lane ma_rw"
    and "P ! (4 * length ports + 1 + lane) = is_same_reg_column srt (length ports) n lane"
    and "length P = 6 * length ports + 2"
proof -
  let ?p = "length ports"
  let ?f = "\<lambda>lane. map (lane_column srt ?p n lane :: (memory_access \<Rightarrow> u64) \<Rightarrow> 'a list) [ma_addr, \<lambda>a. ma_values a ! 0, ma_timestamp, ma_rw]"
  have "fst (sort_and_compute_aux accs :: _ \<times> 'a list \<times> 'a list) = sort_accesses accs" for accs
    by (simp add: sort_and_compute_aux_def Let_def sort_accesses_def)
  then obtain zc where P: "P = concat (map ?f [0..<?p]) @ [zc] @ map (is_same_reg_column srt ?p n) [0..<?p]
      @ map (inv_reg_diff_column srt ?p n) [0..<?p] @ [map (\<lambda>i. scalar_from_u64 (of_nat i)) [0..<n]]"
    by (simp add: P_def register_perm_columns_def srt_def Let_def)
  have lf: "length (?f l) = 4" for l by simp
  have len: "length (concat (map ?f [0..<?p])) = 4 * ?p"
    by (rule nth_concat_blocks(2) [where f = ?f and b = 4 and k = 0, OF lf assms(1)]) simp
  have at: "P ! (4 * lane + k) = ?f lane ! k" if "k < 4" for k
  proof -
    have "4 * lane + k < 4 * ?p" using assms(1) that by linarith
    then show ?thesis
      using nth_concat_blocks(1) [where f = ?f and b = 4, OF lf assms(1) that] len by (simp only: P nth_append if_True)
  qed
  show "P ! lane_val lane = lane_column srt ?p n lane (\<lambda>a. ma_values a ! 0)" unfolding lane_val_def using at [of 1] by simp
  show "P ! lane_rw lane = lane_column srt ?p n lane ma_rw" unfolding lane_rw_def using at [of 3] by simp
  show "P ! (4 * ?p + 1 + lane) = is_same_reg_column srt ?p n lane"
    unfolding P using assms(1) len by (simp add: nth_append)
  show "length P = 6 * ?p + 2" unfolding P using len by simp
qed

lemma length_register_accesses: "length (register_accesses rd forms ports num_rows n) = n * length ports"
  by (induction n) (simp_all add: register_accesses_def)

lemma length_register_bodies:
  "length (register_bodies evals sevals cols (register_layout p) ports gamma delta z om dsize) = 4 * p + 2"
proof -
  have "length (concat (map (lane_bodies evals sevals layout ex) [0..<p])) = 4 * p" for layout ex
    by (induction p) (simp_all add: lane_bodies_def Let_def)
  then show ?thesis by (simp add: register_bodies_def Let_def case_prod_beta)
qed

lemma lane_read_body:
  "lane < p \<Longrightarrow> sevals ! (4 * p + 1 + lane) * (1 - sevals ! lane_rw lane) * (sevals ! lane_val lane - evals ! lane_val lane) * (z - om)
     \<in> set (register_bodies evals sevals cols (register_layout p) ports gamma delta z om dsize)"
  unfolding register_bodies_def Let_def case_prod_beta
  by (simp add: lane_bodies_def Let_def) (rule disjI2, rule disjI2, rule bexI [of _ lane], simp_all)

text \<open>
  The lanes of the register argument compare each sorted access with the one in the same lane of the row
  before, which is as many places away as there are ports: whenever those two concern the same register
  and the later one is a read of another value, the honest columns violate a constraint, even if the register
  file is consistent. Two additions that double the same register are such a trace.
\<close>
theorem register_argument_rejects:
  fixes forms :: "'a::field list list" and rd :: "'a \<Rightarrow> u64"
  assumes dom: "root_domain omega n" and r: "Suc r < n" and lane: "lane < length ports"
    and same: "ma_addr (sort_accesses (register_accesses rd forms ports num_rows n) ! (Suc r * length ports + lane))
               = ma_addr (sort_accesses (register_accesses rd forms ports num_rows n) ! (r * length ports + lane))"
    and read: "ma_rw (sort_accesses (register_accesses rd forms ports num_rows n) ! (Suc r * length ports + lane)) = 0"
    and differ: "(scalar_from_u64 (ma_values (sort_accesses (register_accesses rd forms ports num_rows n) ! (Suc r * length ports + lane)) ! 0) :: 'a)
                 \<noteq> scalar_from_u64 (ma_values (sort_accesses (register_accesses rd forms ports num_rows n) ! (r * length ports + lane)) ! 0)"
    and A: "finite A" "4 * length ports + 2 \<le> card A" "0 \<notin> A"
  shows "\<exists>alpha\<in>A.
    evaluate_register_perm_at_point (row_of (register_perm_columns rd forms ports num_rows n gamma delta) r)
      (row_of (register_perm_columns rd forms ports num_rows n gamma delta) (Suc r)) (row_of forms r)
      (register_layout (length ports)) ports gamma delta (omega ^ r) (omega ^ (n - 1)) (of_nat n) alpha off \<noteq> 0"
proof (rule ccontr)
  let ?p = "length ports" and ?s = "sort_accesses (register_accesses rd forms ports num_rows n)"
  let ?P = "register_perm_columns rd forms ports num_rows n gamma delta"
  let ?b = "register_bodies (row_of ?P r) (row_of ?P (Suc r)) (row_of forms r) (register_layout ?p) ports gamma delta (omega ^ r)
    (omega ^ (n - 1)) (of_nat n)"
  note P = register_columns_nth [where forms = forms and rd = rd and num_rows = num_rows and n = n and gamma = gamma and delta = delta,
      OF lane]
  assume "\<not> ?thesis"
  then have "set ?b \<subseteq> {0}"
    using A by (intro add_bodies_separate [of A _ off]) (simp_all add: length_register_bodies evaluate_register_perm_at_point_def)
  then have zero: "row_of ?P (Suc r) ! (4 * ?p + 1 + lane) * (1 - row_of ?P (Suc r) ! lane_rw lane)
      * (row_of ?P (Suc r) ! lane_val lane - row_of ?P r ! lane_val lane) * (omega ^ r - omega ^ (n - 1)) = 0"
    using lane_read_body [OF lane] by blast
  have idx: "Suc r * ?p + lane < length ?s" "r * ?p + lane < length ?s"
  proof -
    have "Suc r * ?p + lane < Suc (Suc r) * ?p" using lane by simp
    also have "\<dots> \<le> n * ?p" using r by (intro mult_le_mono1) simp
    finally show "Suc r * ?p + lane < length ?s" and "r * ?p + lane < length ?s" by (simp_all add: length_register_accesses)
  qed
  have row: "row_of ?P i ! c = ?P ! c ! i" if "c < 6 * ?p + 2" for c i using that P(4) by (simp add: row_of_def)
  have bounds: "4 * ?p + 1 + lane < 6 * ?p + 2" "lane_rw lane < 6 * ?p + 2" "lane_val lane < 6 * ?p + 2"
    using lane by (simp_all add: lane_rw_def lane_val_def)
  have "row_of ?P (Suc r) ! (4 * ?p + 1 + lane) = 1"
    unfolding row [OF bounds(1)] P(3) is_same_reg_column_def using r idx same by simp
  moreover have "row_of ?P (Suc r) ! lane_rw lane = 0"
    unfolding row [OF bounds(2)] P(2) lane_column_def using r idx read by (simp add: scalar_from_u64_def)
  moreover have "row_of ?P (Suc r) ! lane_val lane - row_of ?P r ! lane_val lane \<noteq> 0"
    unfolding row [OF bounds(3)] P(1) lane_column_def using r idx differ by simp
  moreover have "omega ^ r - omega ^ (n - 1) \<noteq> 0" using exclusion_domain [OF dom, of r] r by simp
  ultimately show False using zero by simp
qed

text \<open>Two rows of \<^verbatim>\<open>add x1, x1, x1\<close> from the value 1.\<close>

theorem register_argument_rejects_witness:
  "(let forms = [[1, 1], [1, 2], [1, 1], [1, 2], [1, 1], [2, 4]] :: rat list list;
        ports = [(0, 1, False), (2, 3, False), (4, 5, True)];
        rd = (\<lambda>x. of_int \<lfloor>x\<rfloor>);
        cols = register_perm_columns rd forms ports 2 2 1 1
    in memory_consistent (register_accesses rd forms ports 2 2)
       \<and> (\<exists>alpha. evaluate_register_perm_at_point (row_of cols 0) (row_of cols 1) (row_of forms 0) (register_layout 3) ports 1 1
             1 (- 1) 2 alpha 0 \<noteq> 0))"
proof -
  let ?forms = "[[1, 1], [1, 2], [1, 1], [1, 2], [1, 1], [2, 4]] :: rat list list"
  let ?ports = "[(0, 1, False), (2, 3, False), (4, 5, True)] :: port list"
  let ?rd = "\<lambda>x :: rat. of_int \<lfloor>x\<rfloor> :: u64"
  let ?acc = "\<lambda>v t w. \<lparr>ma_addr = 1, ma_values = [v], ma_timestamp = t, ma_rw = w\<rparr>"
  have up: "[0..<2] = [0, 1 :: nat]" by (simp add: upt_rec)
  have acc: "register_accesses ?rd ?forms ?ports 2 2 = [?acc 1 0 0, ?acc 1 1 0, ?acc 2 2 1, ?acc 2 3 0, ?acc 2 4 0, ?acc 4 5 1]"
    by (simp add: register_accesses_def up numeral_eq_Suc)
  then have srt: "sort_accesses (register_accesses ?rd ?forms ?ports 2 2) = register_accesses ?rd ?forms ?ports 2 2"
    unfolding sort_accesses_def by (intro sort_key_id_if_sorted) simp
  have con: "memory_consistent (register_accesses ?rd ?forms ?ports 2 2)"
  proof -
    let ?xs = "[?acc 1 0 0, ?acc 1 1 0, ?acc 2 2 1, ?acc 2 3 0, ?acc 2 4 0, ?acc 4 5 1]"
    have addr: "ma_addr (?xs ! i) = 1" if "i < 6" for i
      using that nth_mem [of i ?xs] by auto
    have nxt: "ma_rw (?xs ! Suc j) = 0 \<longrightarrow> ma_values (?xs ! j) = ma_values (?xs ! Suc j)" if "j < 5" for j
    proof -
      have "j \<in> {0, 1, 2, 3, 4}" using that by auto
      then show ?thesis by auto
    qed
    have "ma_values (?xs ! j) = ma_values (?xs ! i)" if "i < 6" and "ma_rw (?xs ! i) = 0" and "j < i"
      and "\<forall>k. j < k \<and> k < i \<longrightarrow> ma_addr (?xs ! k) \<noteq> ma_addr (?xs ! i)" for i j
    proof -
      have "\<not> Suc j < i" using that addr [of "Suc j"] addr [of i] by force
      then have "i = Suc j" using that by simp
      then show ?thesis using nxt [of j] that by simp
    qed
    then show ?thesis unfolding acc memory_consistent_def by auto
  qed
  let ?A = "rat_of_nat ` {1..14}"
  have nz: "0 \<notin> ?A" by auto
  have "card ?A = 14" by (simp add: card_image)
  then have A: "4 * length ?ports + 2 \<le> card ?A" by simp
  have "\<exists>alpha\<in>?A. evaluate_register_perm_at_point (row_of (register_perm_columns ?rd ?forms ?ports 2 2 1 1) 0)
      (row_of (register_perm_columns ?rd ?forms ?ports 2 2 1 1) (Suc 0)) (row_of ?forms 0)
      (register_layout (length ?ports)) ?ports 1 1 ((- 1) ^ 0) ((- 1) ^ (2 - 1)) (of_nat 2) alpha 0 \<noteq> 0"
    by (rule register_argument_rejects [OF root_domain_2, where lane = 0])
       (unfold acc, unfold srt [unfolded acc], use A nz in \<open>simp_all add: scalar_from_u64_def\<close>)
  then have "\<exists>alpha. evaluate_register_perm_at_point (row_of (register_perm_columns ?rd ?forms ?ports 2 2 1 1) 0)
      (row_of (register_perm_columns ?rd ?forms ?ports 2 2 1 1) 1) (row_of ?forms 0) (register_layout 3) ?ports 1 1
      1 (- 1) 2 alpha 0 \<noteq> 0" by (auto simp: numeral_eq_Suc)
  then show ?thesis using con by (simp only: Let_def)
qed

end
