(* ===== verification/Zkp_Permutation_Poly.thy ===== *)
theory Zkp_Permutation_Poly
  imports Zkp_Permutation_Sound
begin

text \<open>
  The polynomials that the prover adds for the permutation arguments, in coefficient form:
  \<^verbatim>\<open>build_frame_perm_polynomial\<close> of \<^verbatim>\<open>permutation.rs\<close> and the corresponding parts of \<^verbatim>\<open>prover.rs\<close> for memory
  and registers. The theory shows that their values at a point are what the verifier computes from the
  values of the columns there.
\<close>

section \<open>Polynomials of the prover\<close>

text \<open>\<^verbatim>\<open>vec![zero; n]\<close> with the constant coefficient set, and a constant added to a polynomial.\<close>

definition const_poly :: "nat \<Rightarrow> 'a::comm_ring_1 \<Rightarrow> 'a list" where
  "const_poly n c = (replicate n 0)[0 := c]"

definition add_const :: "'a::comm_ring_1 list \<Rightarrow> 'a \<Rightarrow> 'a list" where
  "add_const p c = p[0 := p ! 0 + c]"

definition sum_polys :: "'a::comm_ring_1 list list \<Rightarrow> nat list \<Rightarrow> 'a list \<Rightarrow> 'a list" where
  "sum_polys cols ixs start = fold (\<lambda>c acc. poly_add acc (cols ! c)) ixs start"

text \<open>The first Lagrange polynomial has all coefficients \<open>1 / n\<close>.\<close>

definition boundary_poly :: "nat \<Rightarrow> 'a::field list \<Rightarrow> 'a list" where
  "boundary_poly n z_coeffs =
     (let n_inv = inverse (scalar_from_u64 (of_nat n));
          l0_coeffs = replicate n n_inv;
          z_minus_one = poly_sub z_coeffs (const_poly n 1)
      in poly_mul l0_coeffs z_minus_one)"

text \<open>Value columns enter with consecutive powers; the last product of the loop is not formed.\<close>

definition add_val_polys :: "'a::field \<Rightarrow> 'a list list \<Rightarrow> 'a list \<Rightarrow> 'a list" where
  "add_val_polys delta polys start =
     (if length polys = 1 then poly_add start (poly_scalar_mul (polys ! 0) delta)
      else
        let delta4 = (delta * delta) * (delta * delta)
        in fst (fold (\<lambda>(v_idx, p) (acc, dp).
               (poly_add acc (poly_scalar_mul p dp), if v_idx < length polys - 1 then dp * delta4 else dp))
             (enumerate 0 polys) (start, delta)))"

definition memory_numer_poly ::
  "'a::field list list \<Rightarrow> memory_columns \<Rightarrow> 'a list \<Rightarrow> nat \<Rightarrow> 'a \<Rightarrow> 'a \<Rightarrow> 'a list" where
  "memory_numer_poly cols mc ts_coeffs n gamma delta =
     (let delta2 = delta * delta;
          delta3 = delta2 * delta;
          real_mem_poly = sum_polys cols (mc_stores mc) (sum_polys cols (mc_loads mc) [0]);
          one_minus_real_mem = poly_sub (const_poly n 1) real_mem_poly;
          real_addr_term = poly_mul real_mem_poly (cols ! mc_addr mc);
          sentinel_term = poly_mul one_minus_real_mem (const_poly n (scalar_from_u64 sentinel));
          numer_poly = poly_add (const_poly n gamma) (poly_add real_addr_term sentinel_term);
          numer_poly = add_val_polys delta (map (\<lambda>vc. cols ! vc) (mc_vals mc)) numer_poly;
          numer_poly = poly_add numer_poly (poly_scalar_mul ts_coeffs delta2);
          rw_coeffs = sum_polys cols (mc_stores mc) [0]
      in poly_add numer_poly (poly_scalar_mul rw_coeffs delta3))"

definition memory_denom_poly :: "'a::field list list \<Rightarrow> memory_permutation_layout \<Rightarrow> nat \<Rightarrow> 'a \<Rightarrow> 'a \<Rightarrow> 'a list" where
  "memory_denom_poly perm layout n gamma delta =
     (let delta2 = delta * delta;
          delta3 = delta2 * delta;
          denom_poly = poly_add (const_poly n gamma) (perm ! l_sorted_addr layout);
          denom_poly = add_val_polys delta
            (map (\<lambda>v. perm ! (l_sorted_val_start layout + v)) [0..<l_num_val_columns layout]) denom_poly;
          denom_poly = poly_add denom_poly (poly_scalar_mul (perm ! l_sorted_ts layout) delta2)
      in poly_add denom_poly (poly_scalar_mul (perm ! l_sorted_rw layout) delta3))"

definition memory_body_polys ::
  "'a::field list list \<Rightarrow> 'a list list \<Rightarrow> memory_columns \<Rightarrow> 'a \<Rightarrow> 'a \<Rightarrow> 'a \<Rightarrow> nat \<Rightarrow> 'a list list" where
  "memory_body_polys perm cols mc gamma delta omega n =
     (let layout = memory_layout (length (mc_vals mc));
          omega_n_minus_1 = pow_loop 1 omega (n - 1);
          isa_coeffs = perm ! l_is_same_addr layout;
          one_poly = const_poly n 1;
          body1 = poly_mul isa_coeffs (poly_sub isa_coeffs one_poly);
          isa_shifted = poly_shift isa_coeffs omega;
          sa_coeffs = perm ! l_sorted_addr layout;
          addr_diff = poly_sub (poly_shift sa_coeffs omega) sa_coeffs;
          body2 = poly_mul_linear (poly_mul isa_shifted addr_diff) omega_n_minus_1;
          one_minus_isa_shifted = poly_sub one_poly isa_shifted;
          inv_diff_shifted = poly_shift (perm ! l_inv_addr_diff layout) omega;
          one_minus_prod = poly_sub one_poly (poly_mul addr_diff inv_diff_shifted);
          body3 = poly_mul_linear (poly_mul one_minus_isa_shifted one_minus_prod) omega_n_minus_1;
          srw_shifted = poly_shift (perm ! l_sorted_rw layout) omega;
          isa_times_rw = poly_mul isa_shifted (poly_sub one_poly srw_shifted);
          body4 = (\<lambda>v.
            let sv_coeffs = perm ! (l_sorted_val_start layout + v);
                val_diff = poly_sub (poly_shift sv_coeffs omega) sv_coeffs
            in poly_mul_linear (poly_mul isa_times_rw val_diff) omega_n_minus_1);
          z_coeffs = perm ! l_z_column layout;
          numer_poly = memory_numer_poly cols mc (perm ! l_original_ts layout) n gamma delta;
          denom_poly = memory_denom_poly perm layout n gamma delta;
          body_gp = poly_sub (poly_mul (poly_shift z_coeffs omega) denom_poly) (poly_mul z_coeffs numer_poly)
      in [body1, body2, body3] @ map body4 [0..<l_num_val_columns layout] @ [body_gp, boundary_poly n z_coeffs])"

text \<open>The part of the prover that adds the memory argument to the polynomial \<open>c_intra\<close>.\<close>

definition add_memory_perm_polynomial ::
  "'a::field list \<Rightarrow> 'a list list \<Rightarrow> 'a list list \<Rightarrow> memory_columns \<Rightarrow> 'a \<Rightarrow> 'a \<Rightarrow> 'a \<Rightarrow> nat \<Rightarrow> 'a \<Rightarrow> nat \<Rightarrow> 'a list" where
  "add_memory_perm_polynomial c_intra perm cols mc gamma delta omega n alpha alpha_offset =
     fst (fold (add_poly_term alpha) (memory_body_polys perm cols mc gamma delta omega n)
       (c_intra, alpha_power alpha alpha_offset))"

section \<open>Values at a point\<close>

lemma eval_const_poly [simp]: "0 < n \<Longrightarrow> eval_poly_at (const_poly n c) z = c"
proof -
  assume "0 < n"
  then obtain m where "n = Suc m" by (cases n) auto
  moreover have "eval_poly_at (replicate m (0 :: 'a)) z = 0" by (intro eval_zero) auto
  ultimately show ?thesis by (simp add: const_poly_def eval_Cons)
qed

lemma eval_add_const [simp]: "p \<noteq> [] \<Longrightarrow> eval_poly_at (add_const p c) z = eval_poly_at p z + c"
  by (cases p) (simp_all add: add_const_def eval_Cons)

lemma eval_sum_polys_ixs:
  "list_all (\<lambda>c. c < length cols) ixs \<Longrightarrow>
   eval_poly_at (sum_polys cols ixs start) z = sum_columns (map (\<lambda>p. eval_poly_at p z) cols) ixs (eval_poly_at start z)"
  unfolding sum_polys_def sum_columns_def by (induction ixs arbitrary: start) simp_all

lemma eval_add_val_polys:
  "eval_poly_at (add_val_polys delta polys start) z
   = eval_poly_at start z + delta * combine_values delta (map (\<lambda>p. eval_poly_at p z) polys)"
proof (cases "length polys = 1")
  case True
  then show ?thesis by (auto simp: add_val_polys_def combine_values_def length_Suc_conv)
next
  case False
  have gen: "eval_poly_at (fst (fold (\<lambda>(i, p) (acc, dp). (poly_add acc (poly_scalar_mul p dp), if i < N then dp * d else dp))
      (enumerate k ps) (acc, dp))) z = eval_poly_at acc z + dp * eval_poly_at (map (\<lambda>p. eval_poly_at p z) ps) d"
    if "k + length ps = Suc N \<or> ps = []" for N k ps acc dp and d :: 'a
    using that
  proof (induction ps arbitrary: k acc dp)
    case (Cons p ps)
    show ?case
    proof (cases "ps = []")
      case False
      then have "k < N" and "Suc k + length ps = Suc N" using Cons.prems by (auto simp: neq_Nil_conv)
      then show ?thesis using Cons.IH [of "Suc k"] by (simp add: eval_Cons algebra_simps)
    qed (simp add: eval_Cons algebra_simps)
  qed simp
  have "0 + length polys = Suc (length polys - 1) \<or> polys = []" by (cases polys) auto
  moreover have "delta * delta * (delta * delta) = delta ^ 4" by (simp add: power4_eq_xxxx mult.assoc)
  ultimately show ?thesis
    using False by (simp only: add_val_polys_def Let_def if_False gen combine_values_eval)
qed

lemma eval_boundary:
  fixes z :: "'a::field"
  assumes "0 < n" and "n < 2 ^ 64" and "(of_nat n :: 'a) \<noteq> 0"
  shows "eval_poly_at (boundary_poly n p) z = first_lagrange z (of_nat n) * (eval_poly_at p z - 1)"
proof -
  have "eval_poly_at (replicate m c) z = c * (\<Sum>k<m. z ^ k)" for m and c :: 'a
    by (subst eval_sum [of _ m]) (simp_all add: coeff_at_def sum_distrib_left)
  moreover have "first_lagrange z (of_nat n) = inverse (of_nat n) * (\<Sum>k<n. z ^ k)"
  proof (cases "z = 1")
    case True
    then show ?thesis using assms by (simp add: first_lagrange_def scalar_of_nat)
  next
    case False
    then have "(\<Sum>k<n. z ^ k) = (z ^ n - 1) / (z - 1)" by (simp add: geometric_sum)
    then show ?thesis
      using False assms(3) by (simp add: first_lagrange_def scalar_of_nat [OF assms(2)] unat_of_nat_u64 [OF assms(2)] pow_loop_eq divide_inverse)
  qed
  ultimately show ?thesis using assms by (simp add: boundary_poly_def scalar_of_nat Let_def)
qed

lemma sum_columns_sum_list: "sum_columns cols ixs start = start + (\<Sum>c\<leftarrow>ixs. cols ! c)"
  unfolding sum_columns_def by (induction ixs arbitrary: start) (simp_all add: add.assoc)

lemma eval_memory_numer:
  assumes "0 < n" and "list_all (\<lambda>c. c < length cols) (mc_addr mc # mc_vals mc @ mc_loads mc @ mc_stores mc)"
  shows "eval_poly_at (memory_numer_poly cols mc ts n gamma delta) z
         = memory_numerator (map (\<lambda>p. eval_poly_at p z) cols) mc (eval_poly_at ts z) gamma delta"
proof -
  let ?e = "map (\<lambda>p. eval_poly_at p z) cols"
  have ixs: "list_all (\<lambda>c. c < length cols) (mc_loads mc)" "list_all (\<lambda>c. c < length cols) (mc_stores mc)"
    and addr: "mc_addr mc < length cols" using assms(2) by simp_all
  have vals: "map (\<lambda>p. eval_poly_at p z) (map (\<lambda>vc. cols ! vc) (mc_vals mc)) = map (\<lambda>vc. ?e ! vc) (mc_vals mc)"
    using assms(2) by (simp add: list_all_iff)
  have sums: "sum_columns ?e (mc_stores mc) (sum_columns ?e (mc_loads mc) 0) = sum_columns ?e (mc_loads mc) (sum_columns ?e (mc_stores mc) 0)"
    by (simp only: sum_columns_sum_list add_0 add.commute)
  show ?thesis
    unfolding memory_numer_poly_def memory_numerator_def Let_def eval_poly_add eval_add_val_polys vals
    using assms(1) ixs addr by (simp add: eval_sum_polys_ixs sums algebra_simps)
qed

lemma eval_memory_denom:
  assumes "0 < n" and "length perm = 7 + v"
  shows "eval_poly_at (memory_denom_poly perm (memory_layout v) n gamma delta) z
         = memory_denominator (map (\<lambda>p. eval_poly_at p z) perm) (memory_layout v) gamma delta"
proof -
  have vals: "map (\<lambda>p. eval_poly_at p z) (map (\<lambda>k. perm ! (1 + k)) [0..<v]) = map (\<lambda>k. map (\<lambda>p. eval_poly_at p z) perm ! (1 + k)) [0..<v]"
    using assms(2) by simp
  show ?thesis
    unfolding memory_denom_poly_def memory_denominator_def Let_def memory_layout_simps eval_poly_add eval_add_val_polys vals
    using assms by (simp add: algebra_simps)
qed

lemma eval_memory_bodies:
  fixes z :: "'a::field"
  assumes n: "0 < n" "n < 2 ^ 64" "(of_nat n :: 'a) \<noteq> 0" and perm: "length perm = 7 + length (mc_vals mc)"
    and cols: "list_all (\<lambda>c. c < length cols) (mc_addr mc # mc_vals mc @ mc_loads mc @ mc_stores mc)"
  shows "map (\<lambda>p. eval_poly_at p z) (memory_body_polys perm cols mc gamma delta omega n)
         = memory_bodies (map (\<lambda>p. eval_poly_at p z) perm) (map (\<lambda>p. eval_poly_at p (omega * z)) perm) (map (\<lambda>p. eval_poly_at p z) cols)
             mc gamma delta z (omega ^ (n - 1)) (of_nat n)"
proof -
  let ?v = "length (mc_vals mc)"
  have at: "map f perm ! c = f (perm ! c)" if "c < 7 + ?v" for c and f :: "'a list \<Rightarrow> 'a" using that perm by simp
  have "map f perm \<noteq> []" for f :: "'a list \<Rightarrow> 'a" using perm by auto
  then show ?thesis
    unfolding memory_body_polys_def memory_bodies_def permutation_bodies_def grand_product_bodies_def Let_def memory_layout_simps
    using n by (simp add: at pow_loop_eq eval_boundary eval_memory_numer [OF n(1) cols] eval_memory_denom [OF n(1) perm] mult.assoc)
qed

lemma eval_add_terms:
  "eval_poly_at (fst (fold (add_poly_term alpha) ps (c, alpha_power alpha off))) z
   = eval_poly_at c z + add_bodies alpha off (map (\<lambda>p. eval_poly_at p z) ps)"
  using eval_add_poly_term [of alpha ps c "alpha_power alpha off" "fst (fold (add_poly_term alpha) ps (c, alpha_power alpha off))"
      "snd (fold (add_poly_term alpha) ps (c, alpha_power alpha off))" z]
  by (simp add: add_bodies_eq alpha_power_eq)

lemma memory_polynomial_evaluates:
  fixes z :: "'a::field"
  assumes n: "0 < n" "n < 2 ^ 64" "(of_nat n :: 'a) \<noteq> 0" and perm: "length perm = 7 + length (mc_vals mc)"
    and cols: "list_all (\<lambda>c. c < length cols) (mc_addr mc # mc_vals mc @ mc_loads mc @ mc_stores mc)"
  shows "eval_poly_at (add_memory_perm_polynomial c perm cols mc gamma delta omega n alpha off) z
         = eval_poly_at c z
           + memory_permutation_at_point (map (\<lambda>p. eval_poly_at p z) perm) (map (\<lambda>p. eval_poly_at p (omega * z)) perm)
               (map (\<lambda>p. eval_poly_at p z) cols) mc gamma delta z (omega ^ (n - 1)) (of_nat n) alpha off"
proof -
  have ne: "map (\<lambda>p. eval_poly_at p (omega * z)) perm \<noteq> []" using perm by auto
  show ?thesis
    by (simp only: add_memory_perm_polynomial_def eval_add_terms eval_memory_bodies [OF assms] memory_permutation_at_point_bodies [OF ne])
qed

section \<open>Registers\<close>

definition lane_body_polys ::
  "'a::field list list \<Rightarrow> register_permutation_layout \<Rightarrow> 'a \<Rightarrow> 'a \<Rightarrow> nat \<Rightarrow> nat \<Rightarrow> 'a list list" where
  "lane_body_polys reg_cols layout omega omega_n_minus_1 n lane =
     (let one_poly = const_poly n 1;
          isa_coeffs = reg_cols ! (r_is_same_reg_start layout + lane);
          inv_coeffs = reg_cols ! (r_inv_reg_diff_start layout + lane);
          sr_coeffs = reg_cols ! lane_reg lane;
          sv_coeffs = reg_cols ! lane_val lane;
          srw_coeffs = reg_cols ! lane_rw lane;
          body_bin = poly_mul isa_coeffs (poly_sub isa_coeffs one_poly);
          isa_shifted = poly_shift isa_coeffs omega;
          reg_diff = poly_sub (poly_shift sr_coeffs omega) sr_coeffs;
          body2 = poly_mul_linear (poly_mul isa_shifted reg_diff) omega_n_minus_1;
          one_minus_isa = poly_sub one_poly isa_shifted;
          one_minus_prod = poly_sub one_poly (poly_mul reg_diff inv_coeffs);
          body3 = poly_mul_linear (poly_mul one_minus_isa one_minus_prod) omega_n_minus_1;
          isa_times_rw = poly_mul isa_shifted (poly_sub one_poly (poly_shift srw_coeffs omega));
          val_diff = poly_sub (poly_shift sv_coeffs omega) sv_coeffs;
          body4 = poly_mul_linear (poly_mul isa_times_rw val_diff) omega_n_minus_1
      in [body_bin, body2, body3, body4])"

definition port_numer_poly ::
  "'a::field list list \<Rightarrow> 'a list \<Rightarrow> nat \<Rightarrow> nat \<Rightarrow> 'a \<Rightarrow> 'a \<Rightarrow> nat \<Rightarrow> port \<Rightarrow> 'a list" where
  "port_numer_poly cols row_ts_coeffs num_ports n gamma delta port_idx = (\<lambda>(reg_col, val_col, is_write).
     let delta2 = delta * delta;
         delta3 = delta2 * delta;
         numer_p = poly_add (const_poly n gamma) (cols ! reg_col);
         numer_p = poly_add numer_p (poly_scalar_mul (cols ! val_col) delta);
         p_row_ts = poly_scalar_mul row_ts_coeffs (scalar_from_u64 (of_nat num_ports));
         p_row_ts_plus_p = add_const p_row_ts (scalar_from_u64 (of_nat port_idx));
         numer_p = poly_add numer_p (poly_scalar_mul p_row_ts_plus_p delta2);
         rw_val = (if is_write then 1 else 0)
     in add_const numer_p (delta3 * rw_val))"

definition port_denom_poly :: "'a::field list list \<Rightarrow> nat \<Rightarrow> 'a \<Rightarrow> 'a \<Rightarrow> nat \<Rightarrow> 'a list" where
  "port_denom_poly reg_cols n gamma delta port_idx =
     (let delta2 = delta * delta;
          delta3 = delta2 * delta;
          denom_p = poly_add (const_poly n gamma) (reg_cols ! lane_reg port_idx);
          denom_p = poly_add denom_p (poly_scalar_mul (reg_cols ! lane_val port_idx) delta);
          denom_p = poly_add denom_p (poly_scalar_mul (reg_cols ! lane_ts port_idx) delta2)
      in poly_add denom_p (poly_scalar_mul (reg_cols ! lane_rw port_idx) delta3))"

definition register_body_polys ::
  "'a::field list list \<Rightarrow> 'a list list \<Rightarrow> port list \<Rightarrow> 'a \<Rightarrow> 'a \<Rightarrow> 'a \<Rightarrow> nat \<Rightarrow> 'a list list" where
  "register_body_polys reg_cols cols reg_ports gamma delta omega n =
     (let layout = register_layout (length reg_ports);
          omega_n_minus_1 = pow_loop 1 omega (n - 1);
          z_coeffs = reg_cols ! r_z_column layout;
          row_ts_coeffs = reg_cols ! r_row_ts layout;
          (numer_product, denom_product) =
            fold (\<lambda>(port_idx, port) (numer, denom).
                (poly_mul numer (port_numer_poly cols row_ts_coeffs (r_num_ports layout) n gamma delta port_idx port),
                 poly_mul denom (port_denom_poly reg_cols n gamma delta port_idx)))
              (enumerate 0 reg_ports) (const_poly n 1, const_poly n 1);
          body_gp = poly_sub (poly_mul (poly_shift z_coeffs omega) denom_product) (poly_mul z_coeffs numer_product)
      in concat (map (lane_body_polys reg_cols layout omega omega_n_minus_1 n) [0..<r_num_ports layout])
           @ [body_gp, boundary_poly n z_coeffs])"

definition add_register_perm_polynomial ::
  "'a::field list \<Rightarrow> 'a list list \<Rightarrow> 'a list list \<Rightarrow> port list \<Rightarrow> 'a \<Rightarrow> 'a \<Rightarrow> 'a \<Rightarrow> nat \<Rightarrow> 'a \<Rightarrow> nat \<Rightarrow> 'a list" where
  "add_register_perm_polynomial c_intra reg_cols cols reg_ports gamma delta omega n alpha alpha_offset =
     fst (fold (add_poly_term alpha) (register_body_polys reg_cols cols reg_ports gamma delta omega n)
       (c_intra, alpha_power alpha alpha_offset))"

text \<open>The products over the ports, at a point.\<close>

lemma eval_port_products:
  assumes "\<And>i p. (i, p) \<in> set ps \<Longrightarrow> eval_poly_at (f i p) z = f' i p \<and> eval_poly_at (g i) z = g' i"
    and "fold (\<lambda>(i, p) (a, b). (poly_mul a (f i p), poly_mul b (g i))) ps (a, b) = (x, y)"
    and "fold (\<lambda>(i, p) (a, b). (a * f' i p, b * g' i)) ps (eval_poly_at a z, eval_poly_at b z) = (x', y')"
  shows "eval_poly_at x z = x' \<and> eval_poly_at y z = (y' :: 'a::field)"
  using assms
proof (induction ps arbitrary: a b)
  case (Cons q ps)
  obtain i p where q: "q = (i, p)" by fastforce
  have e: "eval_poly_at (f i p) z = f' i p" "eval_poly_at (g i) z = g' i" using Cons.prems(1) [of i p] q by simp_all
  show ?case
    by (rule Cons.IH [of "poly_mul a (f i p)" "poly_mul b (g i)"]) (use Cons.prems q e in auto)
qed simp

lemma eval_register_bodies:
  fixes z :: "'a::field"
  assumes n: "0 < n" "n < 2 ^ 64" "(of_nat n :: 'a) \<noteq> 0" and len: "length reg_cols = 6 * length ports + 2"
    and ts: "reg_cols ! (6 * length ports + 1) \<noteq> []"
    and cols: "list_all (\<lambda>(r, v, _). r < length cols \<and> v < length cols) ports"
  shows "map (\<lambda>p. eval_poly_at p z) (register_body_polys reg_cols cols ports gamma delta omega n)
         = register_bodies (map (\<lambda>p. eval_poly_at p z) reg_cols) (map (\<lambda>p. eval_poly_at p (omega * z)) reg_cols)
             (map (\<lambda>p. eval_poly_at p z) cols) (register_layout (length ports)) ports gamma delta z (omega ^ (n - 1)) (of_nat n)"
proof -
  let ?p = "length ports" and ?e = "map (\<lambda>p. eval_poly_at p z) reg_cols" and ?s = "map (\<lambda>p. eval_poly_at p (omega * z)) reg_cols"
  let ?c = "map (\<lambda>p. eval_poly_at p z) cols"
  have at: "map f reg_cols ! c = f (reg_cols ! c)" if "c < 6 * ?p + 2" for c and f :: "'a list \<Rightarrow> 'a" using that len by simp
  have lanes: "map (\<lambda>p. eval_poly_at p z) (concat (map (lane_body_polys reg_cols (register_layout ?p) omega (pow_loop 1 omega (n - 1)) n) [0..<?p]))
    = concat (map (lane_bodies ?e ?s (register_layout ?p) (z - omega ^ (n - 1))) [0..<?p])"
  proof -
    have "map (\<lambda>p. eval_poly_at p z) (lane_body_polys reg_cols (register_layout ?p) omega (pow_loop 1 omega (n - 1)) n l)
      = lane_bodies ?e ?s (register_layout ?p) (z - omega ^ (n - 1)) l" if "l < ?p" for l
      using that n(1)
      by (simp add: lane_body_polys_def lane_bodies_def Let_def register_layout_simps lane_reg_def lane_val_def lane_rw_def at pow_loop_eq mult.assoc)
    then show ?thesis unfolding map_concat map_map comp_def by (intro arg_cong [of _ _ concat] map_cong refl) simp
  qed
  define F where "F = (\<lambda>i p. port_numer_poly cols (reg_cols ! (6 * ?p + 1)) ?p n gamma delta i p)"
  define G where "G = (\<lambda>i. port_denom_poly reg_cols n gamma delta i)"
  define F' where "F' = (\<lambda>i p. port_numerator ?c (?e ! (6 * ?p + 1)) ?p gamma delta i p)"
  define G' where "G' = (\<lambda>i. port_denominator ?e gamma delta i)"
  obtain x y where xy: "fold (\<lambda>(i, p) (a, b). (poly_mul a (F i p), poly_mul b (G i))) (enumerate 0 ports) (const_poly n 1, const_poly n 1) = (x, y)"
    by fastforce
  obtain x' y' where xy': "fold (\<lambda>(i, p) (a, b). (a * F' i p, b * G' i)) (enumerate 0 ports) (1, 1) = (x', y')" by fastforce
  have ports: "eval_poly_at (F i p) z = F' i p \<and> eval_poly_at (G i) z = G' i" if "(i, p) \<in> set (enumerate 0 ports)" for i p
  proof -
    obtain r v w where p: "p = (r, v, w)" by (metis surj_pair)
    have i: "i < ?p" and "p \<in> set ports" using that by (auto simp: in_set_enumerate_eq)
    then have rv: "r < length cols" "v < length cols" using cols p by (auto simp: list_all_iff)
    have ne: "poly_add q (poly_scalar_mul (add_const (poly_scalar_mul (reg_cols ! (6 * ?p + 1)) c) d) e) \<noteq> []" for q c d e
    proof -
      have "length (add_const (poly_scalar_mul (reg_cols ! (6 * ?p + 1)) c) d) = length (reg_cols ! (6 * ?p + 1))"
        by (simp add: add_const_def poly_scalar_mul_def)
      then have "0 < length (poly_add q (poly_scalar_mul (add_const (poly_scalar_mul (reg_cols ! (6 * ?p + 1)) c) d) e))"
        using ts by (simp add: poly_scalar_mul_def) (metis length_greater_0_conv less_max_iff_disj)
      then show ?thesis unfolding length_greater_0_conv .
    qed
    have ne': "poly_scalar_mul (reg_cols ! (6 * ?p + 1)) c \<noteq> []" for c using ts by (simp add: poly_scalar_mul_def)
    show ?thesis
      unfolding F_def F'_def G_def G'_def p port_numer_poly_def port_numerator_def port_denom_poly_def port_denominator_def Let_def prod.case
        eval_add_const [OF ne] eval_poly_add eval_poly_scalar_mul eval_add_const [OF ne']
      using n(1) rv i by (simp add: at lane_reg_def lane_val_def lane_ts_def lane_rw_def algebra_simps)
  qed
  have prods: "eval_poly_at x z = x'" "eval_poly_at y z = y'"
    using eval_port_products [OF ports xy, of x' y'] xy' n(1) by simp_all
  show ?thesis
    unfolding register_body_polys_def register_bodies_def Let_def register_layout_simps F_def [symmetric] G_def [symmetric]
      F'_def [symmetric] G'_def [symmetric] xy xy' prod.case map_append lanes
    using n by (simp add: at prods eval_boundary)
qed

lemma register_polynomial_evaluates:
  fixes z :: "'a::field"
  assumes "0 < n" "n < 2 ^ 64" "(of_nat n :: 'a) \<noteq> 0" and "length reg_cols = 6 * length ports + 2"
    and "reg_cols ! (6 * length ports + 1) \<noteq> []" and "list_all (\<lambda>(r, v, _). r < length cols \<and> v < length cols) ports"
  shows "eval_poly_at (add_register_perm_polynomial c reg_cols cols ports gamma delta omega n alpha off) z
         = eval_poly_at c z
           + evaluate_register_perm_at_point (map (\<lambda>p. eval_poly_at p z) reg_cols) (map (\<lambda>p. eval_poly_at p (omega * z)) reg_cols)
               (map (\<lambda>p. eval_poly_at p z) cols) (register_layout (length ports)) ports gamma delta z (omega ^ (n - 1)) (of_nat n)
               alpha off"
  by (simp only: add_register_perm_polynomial_def eval_add_terms eval_register_bodies [OF assms] evaluate_register_perm_at_point_def)

section \<open>Frame stack\<close>

definition build_tuple_poly :: "'a::field list \<Rightarrow> 'a \<Rightarrow> 'a list list \<Rightarrow> 'a list" where
  "build_tuple_poly gamma_poly delta cols =
     fst (fold (\<lambda>c (acc, delta_pow). (poly_add acc (poly_scalar_mul c delta_pow), delta_pow * delta)) cols (gamma_poly, delta))"

definition build_frame_perm_polynomial ::
  "'a::field list \<Rightarrow> 'a list \<Rightarrow> 'a list list \<Rightarrow> 'a list list \<Rightarrow> 'a list \<Rightarrow> 'a list \<Rightarrow> 'a \<Rightarrow> 'a \<Rightarrow> nat \<Rightarrow> 'a \<Rightarrow> nat \<Rightarrow> 'a list" where
  "build_frame_perm_polynomial z_coeffs z_shifted_coeffs tuple_cs tuple_shifted_cs is_push_coeffs is_pop_coeffs gamma delta n
     alpha alpha_offset =
     (let ap = alpha_power alpha alpha_offset;
          one_poly = const_poly n 1;
          gamma_poly = const_poly n gamma;
          t_push_poly = build_tuple_poly gamma_poly delta tuple_cs;
          t_pop_poly = build_tuple_poly gamma_poly delta tuple_shifted_cs;
          push_poly = poly_add (poly_mul is_push_coeffs t_push_poly) (poly_sub one_poly is_push_coeffs);
          pop_poly = poly_add (poly_mul is_pop_coeffs t_pop_poly) (poly_sub one_poly is_pop_coeffs);
          body_gp = poly_sub (poly_mul z_shifted_coeffs pop_poly) (poly_mul z_coeffs push_poly);
          acc = poly_scalar_mul body_gp ap;
          ap = ap * alpha
      in poly_add acc (poly_scalar_mul (boundary_poly n z_coeffs) ap))"

text \<open>The part of the prover that adds the frame-stack argument.\<close>

definition add_frame_perm_polynomial ::
  "'a::field list \<Rightarrow> 'a list \<Rightarrow> 'a list list \<Rightarrow> frame_stack_layout \<Rightarrow> 'a \<Rightarrow> 'a \<Rightarrow> 'a \<Rightarrow> nat \<Rightarrow> 'a \<Rightarrow> nat \<Rightarrow> 'a list" where
  "add_frame_perm_polynomial c_intra z_coeffs cols layout gamma delta omega n alpha alpha_offset =
     (let z_shifted_coeffs = poly_shift z_coeffs omega;
          tuple_cs = map (\<lambda>c. cols ! c) (f_tuple_columns layout);
          tuple_shifted_cs = map (\<lambda>c. poly_shift c omega) tuple_cs;
          zero_poly = replicate n 0;
          is_push_coeffs = sum_polys cols (f_push_selectors layout) zero_poly;
          is_pop_coeffs = sum_polys cols (f_pop_selectors layout) zero_poly
      in poly_add c_intra
           (build_frame_perm_polynomial z_coeffs z_shifted_coeffs tuple_cs tuple_shifted_cs is_push_coeffs is_pop_coeffs
             gamma delta n alpha alpha_offset))"

lemma eval_build_tuple_poly:
  "eval_poly_at (build_tuple_poly p delta cs) z = frame_perm_tuple_factor (map (\<lambda>c. eval_poly_at c z) cs) (eval_poly_at p z) delta"
proof -
  have "eval_poly_at (fst (fold (\<lambda>c (acc, dp). (poly_add acc (poly_scalar_mul c dp), dp * delta)) cs (acc, dp))) z
    = fst (fold (\<lambda>ev (acc, dp). (acc + dp * ev, dp * delta)) (map (\<lambda>c. eval_poly_at c z) cs) (eval_poly_at acc z, dp))" for acc dp
    by (induction cs arbitrary: acc dp) (simp_all add: mult.commute)
  then show ?thesis by (simp add: build_tuple_poly_def frame_perm_tuple_factor_def)
qed

lemma frame_polynomial_evaluates:
  fixes z :: "'a::field"
  assumes n: "0 < n" "n < 2 ^ 64" "(of_nat n :: 'a) \<noteq> 0"
    and cols: "list_all (\<lambda>c. c < length cols) (f_tuple_columns layout @ f_push_selectors layout @ f_pop_selectors layout)"
    and opened: "list_all (\<lambda>c. c \<in> set indices) (f_tuple_columns layout)"
  shows "Some (eval_poly_at (add_frame_perm_polynomial c z_coeffs cols layout gamma delta omega n alpha off) z)
         = map_option (\<lambda>v. eval_poly_at c z + v)
             (frame_permutation_at_point (eval_poly_at z_coeffs z) (eval_poly_at z_coeffs (omega * z)) (map (\<lambda>p. eval_poly_at p z) cols)
               indices (map (\<lambda>i. eval_poly_at (cols ! i) (omega * z)) indices) layout gamma delta z (of_nat n) alpha off)"
proof -
  let ?c = "map (\<lambda>p. eval_poly_at p z) cols"
  have sel: "list_all (\<lambda>c. c < length cols) (f_push_selectors layout)" "list_all (\<lambda>c. c < length cols) (f_pop_selectors layout)"
    using cols by simp_all
  have zero: "eval_poly_at (replicate n (0 :: 'a)) z = 0" by (intro eval_zero) auto
  have here: "map (\<lambda>c. eval_poly_at c z) (map (\<lambda>c. cols ! c) (f_tuple_columns layout)) = map (\<lambda>c. ?c ! c) (f_tuple_columns layout)"
    using cols by (simp add: list_all_iff)
  have there: "map (\<lambda>c. eval_poly_at c z) (map (\<lambda>c. poly_shift c omega) (map (\<lambda>c. cols ! c) (f_tuple_columns layout)))
    = map (\<lambda>i. eval_poly_at (cols ! i) (omega * z)) (f_tuple_columns layout)" by simp
  let ?gp = "const_poly n gamma" and ?t = "map (\<lambda>c. cols ! c) (f_tuple_columns layout)"
  have push: "eval_poly_at (build_tuple_poly ?gp delta ?t) z = frame_perm_tuple_factor (map (\<lambda>c. ?c ! c) (f_tuple_columns layout)) gamma delta"
    and pop: "eval_poly_at (build_tuple_poly ?gp delta (map (\<lambda>c. poly_shift c omega) ?t)) z
      = frame_perm_tuple_factor (map (\<lambda>i. eval_poly_at (cols ! i) (omega * z)) (f_tuple_columns layout)) gamma delta"
    unfolding eval_build_tuple_poly here there eval_const_poly [OF n(1)] by (rule refl)+
  show ?thesis
    unfolding frame_permutation_at_point_def Let_def shifted_lookup [OF opened] option.case option.map evaluate_frame_perm_at_point_def
      add_frame_perm_polynomial_def build_frame_perm_polynomial_def frame_bodies_def
    using n sel by (simp add: push pop eval_boundary eval_sum_polys_ixs zero gated_factor_def add_bodies_eq alpha_power_eq
      eval_Cons algebra_simps del: map_map)
qed

text \<open>
  C18. Prover and verifier agree on the permutation arguments: at every point, the polynomials that the prover
  adds for memory, registers and the frame stack take the values that the verifier computes from the
  values of the columns at the point and at the shifted point.
\<close>
theorem permutation_polynomials_evaluate:
  fixes z :: "'a::field"
  assumes "0 < n" "n < 2 ^ 64" "(of_nat n :: 'a) \<noteq> 0"
    and "length perm = 7 + length (mc_vals mc)"
    and "list_all (\<lambda>c. c < length cols) (mc_addr mc # mc_vals mc @ mc_loads mc @ mc_stores mc)"
    and "length reg_cols = 6 * length ports + 2" and "reg_cols ! (6 * length ports + 1) \<noteq> []"
    and "list_all (\<lambda>(r, v, _). r < length cols \<and> v < length cols) ports"
    and "list_all (\<lambda>c. c < length cols) (f_tuple_columns layout @ f_push_selectors layout @ f_pop_selectors layout)"
    and "list_all (\<lambda>c. c \<in> set indices) (f_tuple_columns layout)"
  shows "eval_poly_at (add_memory_perm_polynomial c perm cols mc gamma delta omega n alpha off) z
           = eval_poly_at c z
             + memory_permutation_at_point (map (\<lambda>p. eval_poly_at p z) perm) (map (\<lambda>p. eval_poly_at p (omega * z)) perm)
                 (map (\<lambda>p. eval_poly_at p z) cols) mc gamma delta z (omega ^ (n - 1)) (of_nat n) alpha off
         \<and> eval_poly_at (add_register_perm_polynomial c reg_cols cols ports gamma delta omega n alpha off) z
           = eval_poly_at c z
             + evaluate_register_perm_at_point (map (\<lambda>p. eval_poly_at p z) reg_cols) (map (\<lambda>p. eval_poly_at p (omega * z)) reg_cols)
                 (map (\<lambda>p. eval_poly_at p z) cols) (register_layout (length ports)) ports gamma delta z (omega ^ (n - 1)) (of_nat n)
                 alpha off
         \<and> Some (eval_poly_at (add_frame_perm_polynomial c z_coeffs cols layout gamma delta omega n alpha off) z)
           = map_option (\<lambda>v. eval_poly_at c z + v)
               (frame_permutation_at_point (eval_poly_at z_coeffs z) (eval_poly_at z_coeffs (omega * z)) (map (\<lambda>p. eval_poly_at p z) cols)
                 indices (map (\<lambda>i. eval_poly_at (cols ! i) (omega * z)) indices) layout gamma delta z (of_nat n) alpha off)"
  using memory_polynomial_evaluates [OF assms(1-5)] register_polynomial_evaluates [OF assms(1-3,6-8)]
    frame_polynomial_evaluates [OF assms(1-3,9,10)]
  by (intro conjI)

theorem permutation_polynomials_evaluate_witness:
  "(let perm = replicate 8 [1, 2]; cols = [[1, 2], [3], [0, 1], [1 :: rat]];
        mc = \<lparr>mc_addr = 0, mc_vals = [1], mc_loads = [2], mc_stores = [3]\<rparr>
    in eval_poly_at (add_memory_perm_polynomial [4] perm cols mc 2 3 (- 1) 2 7 0) 5
       = 4 + memory_permutation_at_point (map (\<lambda>p. eval_poly_at p 5) perm) (map (\<lambda>p. eval_poly_at p (- 5)) perm)
           (map (\<lambda>p. eval_poly_at p 5) cols) mc 2 3 5 (- 1) 2 7 0)"
  using permutation_polynomials_evaluate [of 2 "replicate 8 [1, 2]" "\<lparr>mc_addr = 0, mc_vals = [1], mc_loads = [2], mc_stores = [3]\<rparr>"
      "[[1, 2], [3], [0, 1], [1 :: rat]]" "replicate 8 [1, 1]" "[(0, 1, True)]"
      "\<lparr>f_z_column = 0, f_num_columns = 1, f_tuple_columns = [0], f_push_selectors = [2], f_pop_selectors = [3]\<rparr>" "[0]" "[4]" 2 3 "- 1"
      7 0 5 "[1, 1]"]
  by (simp add: Let_def)

end
