(* ===== verification/Evm_Code.thy ===== *)
theory Evm_Code
  imports Zkp_Bytes
begin

text \<open>
  The bytecode analyses of \<^verbatim>\<open>crates/evm\<close>: the scan for valid jump destinations
  (\<^verbatim>\<open>jumpdest.rs\<close>), the size of an instruction (\<^verbatim>\<open>pc_continuity.rs\<close>) and the bytecode table that
  the trace is looked up in (\<^verbatim>\<open>bytecode_table.rs\<close>).

  The specification is the inductive predicate \<open>instr_start\<close>: the positions that are reached from
  position zero by stepping over whole instructions. The scan returns exactly the \<open>JUMPDEST\<close> bytes at such
  positions, and the table has one entry for each byte of the code, in order.

  Positions are natural numbers. A slice of a Rust program has fewer than \<open>2 ^ 63\<close> bytes, so
  \<^verbatim>\<open>pc += 1 + n\<close> with \<open>n \<le> 32\<close> does not wrap, and \<^verbatim>\<open>pc as u64\<close> is \<open>of_nat\<close>.
\<close>

section \<open>Jump destinations\<close>

definition OPCODE_JUMPDEST :: u8 where
  "OPCODE_JUMPDEST = 0x5B"

definition OPCODE_PUSH1 :: u8 where
  "OPCODE_PUSH1 = 0x60"

definition OPCODE_PUSH32 :: u8 where
  "OPCODE_PUSH32 = 0x7F"

text \<open>The scan loop, from position \<open>pc\<close> on.\<close>

function jumpdest_loop :: "u8 list \<Rightarrow> nat \<Rightarrow> nat list" where
  "jumpdest_loop bytecode pc =
     (if pc < length bytecode then
        let op = bytecode ! pc
        in if op = OPCODE_JUMPDEST then pc # jumpdest_loop bytecode (pc + 1)
           else if OPCODE_PUSH1 \<le> op \<and> op \<le> OPCODE_PUSH32 then
             let n = unat (op - OPCODE_PUSH1) + 1 in jumpdest_loop bytecode (pc + (1 + n))
           else jumpdest_loop bytecode (pc + 1)
      else [])"
  by pat_completeness auto
termination by (relation "measure (\<lambda>(bytecode, pc). length bytecode - pc)") auto

declare jumpdest_loop.simps [simp del]

definition valid_jumpdest_positions :: "u8 list \<Rightarrow> nat list" where
  "valid_jumpdest_positions bytecode = jumpdest_loop bytecode 0"

definition valid_jumpdest_bitmap :: "u8 list \<Rightarrow> bool list" where
  "valid_jumpdest_bitmap bytecode =
     fold (\<lambda>pc bitmap. bitmap[pc := True]) (valid_jumpdest_positions bytecode) (replicate (length bytecode) False)"

definition is_valid_jumpdest :: "u8 list \<Rightarrow> nat \<Rightarrow> bool" where
  "is_valid_jumpdest bytecode target =
     (if length bytecode \<le> target then False else valid_jumpdest_bitmap bytecode ! target)"

section \<open>The size of an instruction\<close>

definition instruction_size :: "u8 \<Rightarrow> u64" where
  "instruction_size opcode = (if 0x60 \<le> opcode \<and> opcode \<le> 0x7F then 1 + zx (opcode - 0x60 + 1) else 1)"

section \<open>The bytecode table\<close>

record bytecode_entry =
  be_pc :: u64
  be_opcode :: u8
  be_is_jumpdest :: bool

text \<open>The entries of the immediate bytes: the loop over \<open>1..=push_size\<close>.\<close>

definition push_entries :: "u8 list \<Rightarrow> nat \<Rightarrow> nat \<Rightarrow> bytecode_entry list" where
  "push_entries bytecode pc push_size =
     concat (map (\<lambda>k. if pc + k < length bytecode
          then [\<lparr>be_pc = of_nat (pc + k), be_opcode = bytecode ! (pc + k), be_is_jumpdest = False\<rparr>] else [])
        [1..<push_size + 1])"

function table_loop :: "u8 list \<Rightarrow> nat set \<Rightarrow> nat \<Rightarrow> bytecode_entry list" where
  "table_loop bytecode jumpdests pc =
     (if pc < length bytecode then
        let opcode = bytecode ! pc;
            entry = \<lparr>be_pc = of_nat pc, be_opcode = opcode, be_is_jumpdest = (pc \<in> jumpdests)\<rparr>
        in if 0x60 \<le> opcode \<and> opcode \<le> 0x7F then
             let push_size = unat (opcode - 0x60 + 1)
             in entry # push_entries bytecode pc push_size @ table_loop bytecode jumpdests (pc + (1 + push_size))
           else entry # table_loop bytecode jumpdests (pc + 1)
      else [])"
  by pat_completeness auto
termination by (relation "measure (\<lambda>(bytecode, jumpdests, pc). length bytecode - pc)") auto

declare table_loop.simps [simp del]

definition build_bytecode_table :: "u8 list \<Rightarrow> bytecode_entry list" where
  "build_bytecode_table bytecode = table_loop bytecode (set (valid_jumpdest_positions bytecode)) 0"

section \<open>The instruction stream\<close>

text \<open>The positions reached by stepping over whole instructions. A truncated push ends the stream.\<close>

inductive instr_start :: "u8 list \<Rightarrow> nat \<Rightarrow> bool" for bytecode where
  start: "instr_start bytecode 0"
| advance: "instr_start bytecode pc \<Longrightarrow> pc < length bytecode \<Longrightarrow>
    instr_start bytecode (pc + unat (instruction_size (bytecode ! pc)))"

inductive_cases instr_startE: "instr_start bytecode pc"

abbreviation jump_target :: "u8 list \<Rightarrow> nat \<Rightarrow> bool" where
  "jump_target bytecode pc \<equiv> pc < length bytecode \<and> instr_start bytecode pc \<and> bytecode ! pc = OPCODE_JUMPDEST"

lemmas opcode_defs = OPCODE_JUMPDEST_def OPCODE_PUSH1_def OPCODE_PUSH32_def

lemma push_range: "(0x60 \<le> op \<and> op \<le> (0x7F :: u8)) \<longleftrightarrow> 0x60 \<le> unat op \<and> unat op \<le> 0x7F"
  by (simp add: word_le_nat_alt)

lemma push_count:
  assumes "0x60 \<le> op" "op \<le> (0x7F :: u8)"
  shows "unat (op - 0x60 + 1) = unat op - 0x5F" "unat (op - 0x60) = unat op - 0x60"
    "unat (instruction_size op) = unat op - 0x5E"
proof -
  have b: "0x60 \<le> unat op" "unat op \<le> 0x7F" using assms by (simp_all add: word_le_nat_alt)
  show d: "unat (op - 0x60) = unat op - 0x60" using assms by (simp add: unat_sub)
  show s: "unat (op - 0x60 + 1) = unat op - 0x5F"
  proof -
    have "unat (op - 0x60 + 1) = unat (op - 0x60) + 1"
      using b d by (subst unat_plus_if_size) (simp add: word_size)
    with b d show ?thesis by simp
  qed
  show "unat (instruction_size op) = unat op - 0x5E"
  proof -
    have z: "unat (zx (op - 0x60 + 1)) = unat op - 0x5F"
      using b by (simp only: unsigned_ucast_eq s) (simp add: take_bit_nat_eq_self)
    have "unat (1 + zx (op - 0x60 + 1)) = 1 + unat (zx (op - 0x60 + 1))"
      using b z by (subst unat_plus_if_size) (simp add: word_size)
    with assms b z show ?thesis by (simp add: instruction_size_def)
  qed
qed

lemma instruction_size_other: "\<not> (0x60 \<le> op \<and> op \<le> 0x7F) \<Longrightarrow> unat (instruction_size op) = 1"
  by (auto simp: instruction_size_def)

lemma instruction_size_pos: "0 < unat (instruction_size op)"
proof (cases "0x60 \<le> op \<and> op \<le> 0x7F")
  case True
  then show ?thesis using push_count(3) [of op] push_range [of op] by auto
qed (simp add: instruction_size_other)

text \<open>One step of the scan, over \<open>instruction_size\<close>.\<close>

lemma jumpdest_loop_step:
  "pc < length bc \<Longrightarrow> jumpdest_loop bc pc =
     (if bc ! pc = OPCODE_JUMPDEST then [pc] else []) @ jumpdest_loop bc (pc + unat (instruction_size (bc ! pc)))"
proof -
  assume pc: "pc < length bc"
  consider "bc ! pc = 0x5B" | "bc ! pc \<noteq> 0x5B" "0x60 \<le> bc ! pc" "bc ! pc \<le> 0x7F"
    | "bc ! pc \<noteq> 0x5B" "\<not> (0x60 \<le> bc ! pc \<and> bc ! pc \<le> 0x7F)" by blast
  then show ?thesis
  proof cases
    case 2
    then have "1 + (unat (bc ! pc - 0x60) + 1) = unat (instruction_size (bc ! pc))"
      using push_count [of "bc ! pc"] push_range [of "bc ! pc"] by auto
    with 2 pc show ?thesis by (subst jumpdest_loop.simps) (simp only: opcode_defs Let_def if_True if_False simp_thms append_Nil)
  qed (use pc in \<open>subst jumpdest_loop.simps; auto simp: opcode_defs instruction_size_other Let_def\<close>)+
qed

lemma jumpdest_loop_end: "length bc \<le> pc \<Longrightarrow> jumpdest_loop bc pc = []"
  by (subst jumpdest_loop.simps) simp

text \<open>No instruction starts inside another one.\<close>

lemma instr_start_gap_aux:
  assumes q: "\<And>p. instr_start bc p \<Longrightarrow> p < length bc \<Longrightarrow> p < q \<Longrightarrow> p + unat (instruction_size (bc ! p)) \<le> q"
    and p: "instr_start bc p" and "q < p"
  shows "q + unat (instruction_size (bc ! q)) \<le> p"
  using p \<open>q < p\<close>
proof (induction rule: instr_start.induct)
  case (advance p)
  consider "p < q" | "p = q" | "q < p" by linarith
  then show ?case
  proof cases
    case 1
    with q [OF advance.hyps] advance.prems show ?thesis by simp
  qed (use advance in simp_all)
qed simp

lemma instr_start_gap:
  assumes "instr_start bc q" and "instr_start bc p" and "p < length bc" and "p < q"
  shows "p + unat (instruction_size (bc ! p)) \<le> q"
  using assms
proof (induction arbitrary: p rule: instr_start.induct)
  case (advance q)
  consider "p < q" | "p = q" | "q < p" by linarith
  then show ?case
  proof cases
    case 1
    with advance show ?thesis by (meson le_add1 order_trans)
  next
    case 3
    with instr_start_gap_aux [OF advance.IH advance.prems(1)] advance.prems show ?thesis by simp
  qed simp
qed simp

section \<open>The scan and the table are correct\<close>

lemma no_start_inside:
  assumes "instr_start bc pc" and "pc < length bc" and "pc < j" and "j < pc + unat (instruction_size (bc ! pc))"
  shows "\<not> instr_start bc j"
  using instr_start_gap [OF _ assms(1-3)] assms(4) by auto

lemma jumpdest_loop_filter:
  "instr_start bc pc \<Longrightarrow> jumpdest_loop bc pc = filter (jump_target bc) [pc..<length bc]"
proof (induction "length bc - pc" arbitrary: pc rule: less_induct)
  case less
  show ?case
  proof (cases "pc < length bc")
    case True
    define s where "s = unat (instruction_size (bc ! pc))"
    define e where "e = min (pc + s) (length bc)"
    have s: "0 < s" and st: "instr_start bc (pc + s)"
      using instruction_size_pos [of "bc ! pc"] instr_start.advance [OF less.prems True] by (simp_all add: s_def)
    have "filter (jump_target bc) [Suc pc..<e] = []"
      using no_start_inside [OF less.prems True] by (auto simp: filter_empty_conv e_def s_def)
    moreover have "[pc..<length bc] = pc # [Suc pc..<e] @ [e..<length bc]"
      using True s upt_add_eq_append [of "Suc pc" e "length bc - e"] by (simp add: e_def upt_conv_Cons)
    moreover have "jumpdest_loop bc (pc + s) = filter (jump_target bc) [e..<length bc]"
      using less.hyps [OF _ st] True s jumpdest_loop_end [of bc "pc + s"] by (cases "pc + s < length bc") (auto simp: e_def)
    ultimately show ?thesis
      using jumpdest_loop_step [OF True] less.prems True by (simp add: s_def)
  qed (simp add: jumpdest_loop_end)
qed

lemma positions_filter: "valid_jumpdest_positions bc = filter (jump_target bc) [0..<length bc]"
  unfolding valid_jumpdest_positions_def by (rule jumpdest_loop_filter) (rule instr_start.start)

lemma fold_set_bits:
  "length (fold (\<lambda>pc bitmap. bitmap[pc := True]) ps bm) = length bm"
  "i < length bm \<Longrightarrow> fold (\<lambda>pc bitmap. bitmap[pc := True]) ps bm ! i = (bm ! i \<or> i \<in> set ps)"
proof -
  show len: "length (fold (\<lambda>pc bitmap. bitmap[pc := True]) ps bm) = length bm" for ps and bm :: "bool list"
    by (induction ps arbitrary: bm) simp_all
  show "i < length bm \<Longrightarrow> fold (\<lambda>pc bitmap. bitmap[pc := True]) ps bm ! i = (bm ! i \<or> i \<in> set ps)"
  proof (induction ps rule: rev_induct)
    case (snoc p ps)
    then show ?case by (cases "p = i") (auto simp: len)
  qed simp
qed

lemma is_valid_jumpdest_target: "is_valid_jumpdest bc pc = jump_target bc pc"
  by (auto simp: is_valid_jumpdest_def valid_jumpdest_bitmap_def fold_set_bits positions_filter)

text \<open>
  C23. The scan for jump destinations returns, in increasing order, exactly the positions of \<open>JUMPDEST\<close> bytes at
  which an instruction of the stream starts; the bitmap has one bit for each byte and the single query
  agrees with both, also for a target past the end of the code.
\<close>

theorem jumpdest_scan_correct:
  "valid_jumpdest_positions bc = filter (jump_target bc) [0..<length bc]
   \<and> valid_jumpdest_bitmap bc = map (jump_target bc) [0..<length bc]
   \<and> is_valid_jumpdest bc t = jump_target bc t"
proof -
  have "valid_jumpdest_bitmap bc = map (jump_target bc) [0..<length bc]"
    by (rule nth_equalityI) (auto simp: valid_jumpdest_bitmap_def fold_set_bits positions_filter)
  then show ?thesis by (simp add: positions_filter is_valid_jumpdest_target)
qed

definition table_entry :: "u8 list \<Rightarrow> nat \<Rightarrow> bytecode_entry" where
  "table_entry bc pc = \<lparr>be_pc = of_nat pc, be_opcode = bc ! pc, be_is_jumpdest = is_valid_jumpdest bc pc\<rparr>"

lemma push_entries_map:
  assumes "\<And>j. pc < j \<Longrightarrow> j < pc + n + 1 \<Longrightarrow> j < length bc \<Longrightarrow> \<not> is_valid_jumpdest bc j"
  shows "push_entries bc pc n = map (table_entry bc) [Suc pc..<min (pc + n + 1) (length bc)]"
  using assms
proof (induction n)
  case (Suc n)
  have "push_entries bc pc (Suc n) = push_entries bc pc n @
      (if pc + Suc n < length bc then [table_entry bc (pc + Suc n)] else [])"
    using Suc.prems [of "pc + Suc n"] by (simp add: push_entries_def table_entry_def)
  also have "push_entries bc pc n = map (table_entry bc) [Suc pc..<min (pc + n + 1) (length bc)]"
    using Suc by simp
  finally show ?case by (auto simp: min_def)
qed (simp add: push_entries_def)

lemma table_loop_map:
  "instr_start bc pc \<Longrightarrow> table_loop bc (set (valid_jumpdest_positions bc)) pc = map (table_entry bc) [pc..<length bc]"
proof (induction "length bc - pc" arbitrary: pc rule: less_induct)
  case less
  show ?case
  proof (cases "pc < length bc")
    case True
    define s where "s = unat (instruction_size (bc ! pc))"
    define e where "e = min (pc + s) (length bc)"
    have s: "0 < s" and st: "instr_start bc (pc + s)"
      using instruction_size_pos [of "bc ! pc"] instr_start.advance [OF less.prems True] by (simp_all add: s_def)
    have mem: "(pc \<in> set (valid_jumpdest_positions bc)) = is_valid_jumpdest bc pc"
      using True by (simp add: positions_filter is_valid_jumpdest_target)
    have rest: "table_loop bc (set (valid_jumpdest_positions bc)) (pc + s) = map (table_entry bc) [e..<length bc]"
      using less.hyps [OF _ st] True s
      by (cases "pc + s < length bc") (auto simp: e_def table_loop.simps [of bc _ "pc + s"])
    have inner: "push_entries bc pc (s - 1) = map (table_entry bc) [Suc pc..<e]"
    proof -
      have "\<not> is_valid_jumpdest bc j" if "pc < j" "j < pc + (s - 1) + 1" for j
        using no_start_inside [OF less.prems True, of j] that by (simp add: s_def is_valid_jumpdest_target)
      then show ?thesis using push_entries_map [of pc "s - 1" bc] s by (simp add: e_def)
    qed
    have split: "[pc..<length bc] = pc # [Suc pc..<e] @ [e..<length bc]"
      using True s upt_add_eq_append [of "Suc pc" e "length bc - e"] by (simp add: e_def upt_conv_Cons)
    show ?thesis
    proof (cases "0x60 \<le> bc ! pc \<and> bc ! pc \<le> 0x7F")
      case push: True
      then have "s = 1 + unat (bc ! pc - 0x60 + 1)"
        using push_count [of "bc ! pc"] push_range [of "bc ! pc"] by (auto simp: s_def)
      with push True rest inner show ?thesis
        unfolding split by (subst table_loop.simps) (simp add: Let_def mem table_entry_def [of bc pc])
    next
      case False
      with instruction_size_other have "s = 1" by (auto simp: s_def)
      moreover from this have "[Suc pc..<e] = []" by (simp add: e_def)
      ultimately show ?thesis
        using False True rest unfolding split
        by (subst table_loop.simps) (auto simp: Let_def mem table_entry_def [of bc pc])
    qed
  qed (simp add: table_loop.simps)
qed

text \<open>
  C30. The bytecode table has one entry for each byte of the code, in order, immediate bytes included, and
  its flag is the answer of the jump destination query.
\<close>

theorem bytecode_table_correct:
  "build_bytecode_table bc =
     map (\<lambda>pc. \<lparr>be_pc = of_nat pc, be_opcode = bc ! pc, be_is_jumpdest = is_valid_jumpdest bc pc\<rparr>) [0..<length bc]"
  using table_loop_map [OF instr_start.start] by (simp add: build_bytecode_table_def table_entry_def [abs_def])

end
