(* ===== verification/Evm_Fees.thy ===== *)
theory Evm_Fees
  imports Zkp_Bytes
begin

text \<open>
  Gas and fee arithmetic of \<^verbatim>\<open>crates/evm\<close>: memory expansion (\<^verbatim>\<open>memory_expansion.rs\<close>), static costs
  (\<^verbatim>\<open>gas_cost.rs\<close>), refunds (\<^verbatim>\<open>gas_refund.rs\<close>), the fee market (\<^verbatim>\<open>eip1559_fee.rs\<close>,
  \<^verbatim>\<open>tx_fee_verification.rs\<close>, \<^verbatim>\<open>gas_summary.rs\<close>) and blob gas (\<^verbatim>\<open>blob_gas.rs\<close>).

  All amounts are \<open>u64\<close> and plain operators wrap, as in the release profile; \<^verbatim>\<open>checked_mul\<close> and
  \<^verbatim>\<open>checked_add\<close> return \<open>None\<close> on overflow. The theorems say under which bounds the results are the
  exact natural numbers, and what happens beyond them. Error messages are the constructors of \<open>fee_error\<close>.
\<close>

section \<open>Integer operations\<close>

definition checked_mul :: "u64 \<Rightarrow> u64 \<Rightarrow> u64 option" where
  "checked_mul a b = (if unat a * unat b < 2 ^ 64 then Some (a * b) else None)"

definition checked_add :: "u64 \<Rightarrow> u64 \<Rightarrow> u64 option" where
  "checked_add a b = (if unat a + unat b < 2 ^ 64 then Some (a + b) else None)"

definition saturating_add :: "u64 \<Rightarrow> u64 \<Rightarrow> u64" where
  "saturating_add a b = (if unat a + unat b < 2 ^ 64 then a + b else - 1)"

definition saturating_sub :: "u64 \<Rightarrow> u64 \<Rightarrow> u64" where
  "saturating_sub a b = (if b \<le> a then a - b else 0)"

text \<open>\<^verbatim>\<open>ok_or(e)?\<close>.\<close>

definition ok_or :: "'e \<Rightarrow> 'a option \<Rightarrow> ('e, 'a) outcome" where
  "ok_or e r = (case r of None \<Rightarrow> Err e | Some x \<Rightarrow> Ok x)"

section \<open>Memory expansion\<close>

definition memory_word_count :: "u64 \<Rightarrow> u64" where
  "memory_word_count byte_size = (byte_size + 31) div 32"

definition memory_gas_cost :: "u64 \<Rightarrow> u64" where
  "memory_gas_cost word_count = 3 * word_count + word_count * word_count div 512"

definition memory_expansion_cost :: "u64 \<Rightarrow> u64 \<Rightarrow> u64" where
  "memory_expansion_cost old_byte_size new_byte_size =
     (if new_byte_size \<le> old_byte_size then 0
      else
        let old_words = memory_word_count old_byte_size;
            new_words = memory_word_count new_byte_size
        in memory_gas_cost new_words - memory_gas_cost old_words)"

definition required_memory_size :: "u64 \<Rightarrow> u64 \<Rightarrow> u64" where
  "required_memory_size offset len = (if len = 0 then 0 else saturating_add offset len)"

section \<open>Static gas costs\<close>

definition static_gas_cost :: "u8 \<Rightarrow> u64 option" where
  "static_gas_cost opcode =
     (if opcode = 0x00 then Some 0
      else if opcode \<in> {0x01, 0x03, 0x10, 0x11, 0x12, 0x13, 0x14, 0x15, 0x16, 0x17, 0x18, 0x19, 0x1A, 0x1B, 0x1C, 0x1D, 0x35}
        then Some 3
      else if opcode = 0x50 then Some 2
      else if opcode = 0x5F then Some 2
      else if 0x60 \<le> opcode \<and> opcode \<le> 0x7F then Some 3
      else if 0x80 \<le> opcode \<and> opcode \<le> 0x9F then Some 3
      else if opcode \<in> {0x02, 0x04, 0x05, 0x06, 0x07, 0x0B, 0x47} then Some 5
      else if opcode \<in> {0x08, 0x09, 0x56} then Some 8
      else if opcode = 0x57 then Some 10
      else if opcode \<in> {0x30, 0x32, 0x33, 0x34, 0x36, 0x38, 0x3A, 0x3D, 0x41, 0x42, 0x43, 0x44, 0x45, 0x46, 0x48, 0x49,
                          0x4A, 0x58, 0x59, 0x5A} then Some 2
      else if opcode = 0x5B then Some 1
      else None)"

definition has_static_gas_cost :: "u8 \<Rightarrow> bool" where
  "has_static_gas_cost opcode = (static_gas_cost opcode \<noteq> None)"

section \<open>Refunds\<close>

datatype fee_error = MaxFeeBelowBase u64 u64 | GasUsedMismatch u64 u64 | GasCostOverflow | DebitOverflow
  | SenderDebitMismatch u64 u64 u64 u64 u64 | Overflow | TotalOverflow | ExpectedOverflow | FeeInvariant u64 u64
  | DebitInvariant u64 u64 | ExcessBlobGas u64 u64 | BlobGasExceedsMax u64 u64 | BlobGasNotMultiple u64 u64

definition MAX_REFUND_QUOTIENT :: u64 where
  "MAX_REFUND_QUOTIENT = 5"

definition effective_gas_used :: "u64 \<Rightarrow> u64 \<Rightarrow> u64 \<Rightarrow> u64" where
  "effective_gas_used gas_limit gas_remaining refund =
     (let gas_used = gas_limit - gas_remaining;
          max_refund = gas_used div MAX_REFUND_QUOTIENT;
          actual_refund = min refund max_refund
      in gas_used - actual_refund)"

definition verify_receipt_gas_used :: "u64 \<Rightarrow> u64 \<Rightarrow> u64 \<Rightarrow> u64 \<Rightarrow> u64 \<Rightarrow> (fee_error, unit) outcome" where
  "verify_receipt_gas_used gas_limit gas_remaining refund receipt_cumulative_gas prior_cumulative_gas =
     (let effective = effective_gas_used gas_limit gas_remaining refund;
          tx_gas_used = receipt_cumulative_gas - prior_cumulative_gas
      in if tx_gas_used \<noteq> effective then Err (GasUsedMismatch tx_gas_used effective) else Ok ())"

section \<open>The fee market\<close>

definition effective_gas_price :: "u64 \<Rightarrow> u64 \<Rightarrow> u64 \<Rightarrow> (fee_error, u64) outcome" where
  "effective_gas_price base_fee_per_gas max_fee_per_gas max_priority_fee_per_gas =
     (if max_fee_per_gas < base_fee_per_gas then Err (MaxFeeBelowBase max_fee_per_gas base_fee_per_gas)
      else
        let priority_fee = min max_priority_fee_per_gas (max_fee_per_gas - base_fee_per_gas)
        in Ok (base_fee_per_gas + priority_fee))"

definition priority_fee :: "u64 \<Rightarrow> u64 \<Rightarrow> u64" where
  "priority_fee base_fee_per_gas effective_price = saturating_sub effective_price base_fee_per_gas"

definition base_fee_burned :: "u64 \<Rightarrow> u64 \<Rightarrow> u64" where
  "base_fee_burned base_fee_per_gas gas_used = base_fee_per_gas * gas_used"

definition miner_tip :: "u64 \<Rightarrow> u64 \<Rightarrow> u64" where
  "miner_tip priority_fee_per_gas gas_used = priority_fee_per_gas * gas_used"

text \<open>The division panics when the target is zero.\<close>

definition next_base_fee :: "u64 \<Rightarrow> u64 \<Rightarrow> u64 \<Rightarrow> u64 option" where
  "next_base_fee parent_base_fee parent_gas_used parent_gas_target =
     (if parent_gas_used = parent_gas_target then Some parent_base_fee
      else if parent_gas_target = 0 then None
      else if parent_gas_target < parent_gas_used then
        let delta = parent_gas_used - parent_gas_target;
            fee_delta = max (parent_base_fee * delta div parent_gas_target) 1
        in Some (parent_base_fee + fee_delta)
      else
        let delta = parent_gas_target - parent_gas_used;
            fee_delta = parent_base_fee * delta div parent_gas_target
        in Some (saturating_sub parent_base_fee fee_delta))"

datatype tx_fee_witness = Legacy (w_gas_price: u64)
  | Eip1559 (w_max_fee: u64) (w_max_priority_fee: u64) (w_base_fee: u64)

fun compute_effective_gas_price :: "tx_fee_witness \<Rightarrow> (fee_error, u64) outcome" where
  "compute_effective_gas_price (Legacy gas_price) = Ok gas_price"
| "compute_effective_gas_price (Eip1559 max_fee max_priority_fee base_fee) =
     effective_gas_price base_fee max_fee max_priority_fee"

definition verify_sender_debit :: "tx_fee_witness \<Rightarrow> u64 \<Rightarrow> u64 \<Rightarrow> u64 \<Rightarrow> (fee_error, unit) outcome" where
  "verify_sender_debit w gas_used value_sent sender_balance_delta =
     try_bind (compute_effective_gas_price w) (\<lambda>price.
     try_bind (ok_or GasCostOverflow (checked_mul price gas_used)) (\<lambda>cost.
     try_bind (ok_or DebitOverflow (checked_add cost value_sent)) (\<lambda>expected.
       if sender_balance_delta \<noteq> expected
       then Err (SenderDebitMismatch sender_balance_delta expected gas_used price value_sent) else Ok ())))"

definition miner_fee_amount :: "tx_fee_witness \<Rightarrow> u64 \<Rightarrow> (fee_error, u64) outcome" where
  "miner_fee_amount w gas_used =
     try_bind (compute_effective_gas_price w) (\<lambda>price.
       case w of Legacy _ \<Rightarrow> ok_or Overflow (checked_mul price gas_used)
       | Eip1559 _ _ base_fee \<Rightarrow>
           let priority = price - base_fee in ok_or Overflow (checked_mul priority gas_used))"

section \<open>The gas summary of a transaction\<close>

record tx_gas_summary =
  s_fee_witness :: tx_fee_witness
  s_gas_limit :: u64
  s_gas_remaining :: u64
  s_refund :: u64
  s_value_sent :: u64

record gas_computed =
  g_effective_gas_price :: u64
  g_effective_gas_used :: u64
  g_sender_debit :: u64
  g_miner_fee :: u64
  g_base_fee_burned :: u64

definition compute_gas_summary :: "tx_gas_summary \<Rightarrow> (fee_error, gas_computed) outcome" where
  "compute_gas_summary s =
     try_bind (compute_effective_gas_price (s_fee_witness s)) (\<lambda>price.
     let used = effective_gas_used (s_gas_limit s) (s_gas_remaining s) (s_refund s) in
     try_bind (ok_or DebitOverflow (checked_mul price used)) (\<lambda>cost.
     try_bind (ok_or DebitOverflow (checked_add cost (s_value_sent s))) (\<lambda>debit.
       let (base, priority) =
             (case s_fee_witness s of Legacy gas_price \<Rightarrow> (0, gas_price) | Eip1559 _ _ base_fee \<Rightarrow> (base_fee, price - base_fee));
           burned = base_fee_burned base used;
           tip = miner_tip priority used
       in Ok \<lparr>g_effective_gas_price = price, g_effective_gas_used = used, g_sender_debit = debit,
              g_miner_fee = tip, g_base_fee_burned = burned\<rparr>)))"

definition verify_gas_summary_consistency :: "tx_gas_summary \<Rightarrow> (fee_error, unit) outcome" where
  "verify_gas_summary_consistency s =
     try_bind (compute_gas_summary s) (\<lambda>g.
     try_bind (ok_or TotalOverflow (checked_add (g_miner_fee g) (g_base_fee_burned g))) (\<lambda>total_paid.
     try_bind (ok_or ExpectedOverflow (checked_mul (g_effective_gas_price g) (g_effective_gas_used g))) (\<lambda>expected.
       if total_paid \<noteq> expected then Err (FeeInvariant total_paid expected)
       else
         let expected_debit = expected + s_value_sent s
         in if g_sender_debit g \<noteq> expected_debit then Err (DebitInvariant (g_sender_debit g) expected_debit)
            else Ok ())))"

section \<open>Blob gas\<close>

definition TARGET_BLOB_GAS_PER_BLOCK :: u64 where
  "TARGET_BLOB_GAS_PER_BLOCK = 393216"

definition MAX_BLOB_GAS_PER_BLOCK :: u64 where
  "MAX_BLOB_GAS_PER_BLOCK = 786432"

definition BLOB_GAS_PER_BLOB :: u64 where
  "BLOB_GAS_PER_BLOB = 131072"

definition calc_excess_blob_gas :: "u64 \<Rightarrow> u64 \<Rightarrow> u64" where
  "calc_excess_blob_gas parent_excess parent_used =
     (let total = parent_excess + parent_used
      in if total < TARGET_BLOB_GAS_PER_BLOCK then 0 else total - TARGET_BLOB_GAS_PER_BLOCK)"

definition blob_count_from_gas :: "u64 \<Rightarrow> u64" where
  "blob_count_from_gas blob_gas_used = blob_gas_used div BLOB_GAS_PER_BLOB"

definition verify_blob_gas_fields :: "u64 \<Rightarrow> u64 \<Rightarrow> u64 \<Rightarrow> u64 \<Rightarrow> (fee_error, unit) outcome" where
  "verify_blob_gas_fields parent_excess_blob_gas parent_blob_gas_used current_excess_blob_gas current_blob_gas_used =
     (let expected_excess = calc_excess_blob_gas parent_excess_blob_gas parent_blob_gas_used
      in if current_excess_blob_gas \<noteq> expected_excess then Err (ExcessBlobGas expected_excess current_excess_blob_gas)
         else if MAX_BLOB_GAS_PER_BLOCK < current_blob_gas_used
           then Err (BlobGasExceedsMax current_blob_gas_used MAX_BLOB_GAS_PER_BLOCK)
         else if current_blob_gas_used mod BLOB_GAS_PER_BLOB \<noteq> 0
           then Err (BlobGasNotMultiple current_blob_gas_used BLOB_GAS_PER_BLOB)
         else Ok ())"

section \<open>Exact values\<close>

named_theorems exact

lemma unat_add_exact [exact]: "unat a + unat b < 2 ^ 64 \<Longrightarrow> unat (a + b :: u64) = unat a + unat b"
  by (simp add: unat_word_ariths)

lemma unat_mul_exact [exact]: "unat a * unat b < 2 ^ 64 \<Longrightarrow> unat (a * b :: u64) = unat a * unat b"
  by (simp add: unat_word_ariths)

lemma unat_sub_exact [exact]: "unat b \<le> unat a \<Longrightarrow> unat (a - b :: u64) = unat a - unat b"
  by (simp add: unat_sub word_le_nat_alt)

lemma unat_max_u64: "unat (- 1 :: u64) = 2 ^ 64 - 1"
  by (simp add: unsigned_minus_1_eq_mask mask_eq_exp_minus_1)

lemma unat_min: "unat (min a b :: u64) = min (unat a) (unat b)"
  by (simp add: min_def word_le_nat_alt)

lemma unat_max: "unat (max a b :: u64) = max (unat a) (unat b)"
  by (simp add: max_def word_le_nat_alt)

lemma ok_or_Some [simp]: "ok_or e (Some x) = Ok x" "ok_or e None = Err e"
  by (simp_all add: ok_or_def)

lemma checked_mul_SomeE:
  assumes "checked_mul a b = Some c"
  obtains "unat c = unat a * unat b" "c = a * b"
  using assms by (auto simp: checked_mul_def unat_mul_exact split: if_splits)

lemma checked_add_SomeE:
  assumes "checked_add a b = Some c"
  obtains "unat c = unat a + unat b" "c = a + b"
  using assms by (auto simp: checked_add_def unat_add_exact split: if_splits)

lemma ok_or_OkD: "ok_or e r = Ok x \<Longrightarrow> r = Some x"
  by (cases r) simp_all

text \<open>The cost of a memory of \<open>n\<close> bytes, on natural numbers.\<close>

definition memory_words :: "nat \<Rightarrow> nat" where
  "memory_words n = (n + 31) div 32"

definition memory_cost :: "nat \<Rightarrow> nat" where
  "memory_cost n = 3 * memory_words n + memory_words n * memory_words n div 512"

lemma memory_cost_mono: "a \<le> b \<Longrightarrow> memory_cost a \<le> memory_cost b"
proof -
  assume "a \<le> b"
  then have "memory_words a \<le> memory_words b" by (simp add: memory_words_def div_le_mono)
  then show ?thesis by (simp add: memory_cost_def add_mono div_le_mono mult_le_mono)
qed

text \<open>The largest memory whose word count has a square that fits in 64 bits.\<close>

abbreviation exact_memory :: "u64 \<Rightarrow> bool" where
  "exact_memory n \<equiv> unat n \<le> 32 * (2 ^ 32 - 1)"

lemma unat_memory_word_count: "exact_memory n \<Longrightarrow> unat (memory_word_count n) = memory_words (unat n)"
  by (simp add: memory_word_count_def memory_words_def unat_div exact)

lemma memory_words_less: "exact_memory n \<Longrightarrow> memory_words (unat n) < 2 ^ 32"
  by (simp add: memory_words_def)

lemma unat_memory_gas_cost: "exact_memory n \<Longrightarrow> unat (memory_gas_cost (memory_word_count n)) = memory_cost (unat n)"
proof -
  assume n: "exact_memory n"
  define w where "w = memory_word_count n"
  have w: "unat w < 2 ^ 32" "unat w = memory_words (unat n)"
    using n unat_memory_word_count [of n] memory_words_less [of n] by (simp_all add: w_def)
  have sq: "unat w * unat w < 2 ^ 64"
  proof -
    have "unat w * unat w \<le> (2 ^ 32 - 1) * (2 ^ 32 - 1)" using w(1) by (intro mult_le_mono) simp_all
    then show ?thesis by simp
  qed
  have "unat (w * w div 512) = unat w * unat w div 512" using sq by (simp add: unat_div exact)
  moreover have "unat (3 * w) = 3 * unat w" using w(1) by (simp add: unat_word_ariths)
  moreover have "unat w * unat w div 512 \<le> 2 ^ 55" using sq by simp
  ultimately have "unat (3 * w + w * w div 512) = 3 * unat w + unat w * unat w div 512"
    using w(1) by (subst unat_add_exact) simp_all
  then show ?thesis using w(2) by (simp add: memory_gas_cost_def memory_cost_def w_def [symmetric])
qed

lemma unat_memory_expansion_cost:
  assumes "exact_memory old" and "exact_memory new"
  shows "unat (memory_expansion_cost old new) = memory_cost (unat new) - memory_cost (unat old)"
proof (cases "new \<le> old")
  case True
  then show ?thesis
    using memory_cost_mono [of "unat new" "unat old"] by (simp add: memory_expansion_cost_def word_le_nat_alt)
next
  case False
  then have "memory_cost (unat old) \<le> memory_cost (unat new)"
    by (intro memory_cost_mono) (simp add: word_le_nat_alt)
  with False assms show ?thesis
    by (simp add: memory_expansion_cost_def Let_def unat_sub_exact unat_memory_gas_cost)
qed

text \<open>
  C32. For memories of at most \<open>32 * (2 ^ 32 - 1)\<close> bytes the charge is exactly the difference of the
  costs of the two sizes on natural numbers, so growing in two steps costs as much as growing at once. The bound
  is needed: an access whose end saturates or reaches the last 31 addresses asks for more than
  \<open>2 ^ 64 - 32\<close> bytes, the word count wraps to zero, and from an empty memory the charge is zero.
\<close>

theorem memory_expansion_charges:
  assumes "exact_memory a" and "exact_memory b" and "exact_memory c" and "a \<le> b" and "b \<le> c"
    and "len \<noteq> 0" and "2 ^ 64 - 32 < unat offset + unat len"
  shows "unat (memory_expansion_cost a c) = memory_cost (unat c) - memory_cost (unat a)
    \<and> memory_expansion_cost a b + memory_expansion_cost b c = memory_expansion_cost a c
    \<and> memory_expansion_cost 0 (required_memory_size offset len) = 0"
proof (intro conjI)
  show exactness: "unat (memory_expansion_cost a c) = memory_cost (unat c) - memory_cost (unat a)"
    using assms(1,3) by (rule unat_memory_expansion_cost)
  have "memory_cost (unat a) \<le> memory_cost (unat b)" "memory_cost (unat b) \<le> memory_cost (unat c)"
    using assms(4,5) by (simp_all add: memory_cost_mono word_le_nat_alt)
  then show "memory_expansion_cost a b + memory_expansion_cost b c = memory_expansion_cost a c"
    using exactness unat_memory_expansion_cost [OF assms(1,2)] unat_memory_expansion_cost [OF assms(2,3)]
      unsigned_less [of "memory_expansion_cost a c", where ?'a = nat]
    by (simp add: word_unat_eq_iff unat_add_exact)
  define n where "n = required_memory_size offset len"
  have n: "2 ^ 64 - 32 < unat n"
    using assms(6,7) by (auto simp: n_def required_memory_size_def saturating_add_def unat_add_exact unat_max_u64)
  have "unat (n + 31) = unat n + 31 - 2 ^ 64"
    using n unsigned_less [of n, where ?'a = nat] by (simp add: unat_word_ariths mod_if)
  then have "memory_word_count n = 0"
    using unsigned_less [of n, where ?'a = nat] by (simp add: memory_word_count_def word_unat_eq_iff unat_div)
  then show "memory_expansion_cost 0 (required_memory_size offset len) = 0"
    by (simp add: memory_expansion_cost_def Let_def memory_gas_cost_def n_def [symmetric] memory_word_count_def)
qed

theorem memory_expansion_charges_witness:
  "unat (memory_expansion_cost 32 1024) = memory_cost 1024 - memory_cost 32
    \<and> memory_expansion_cost 32 64 + memory_expansion_cost 64 1024 = memory_expansion_cost 32 1024
    \<and> memory_expansion_cost 0 (required_memory_size (- 1) 1) = 0"
proof -
  have "2 ^ 64 - 32 < unat (- 1 :: u64) + unat (1 :: u64)" by (simp add: unat_max_u64)
  then show ?thesis using memory_expansion_charges [of 32 64 1024 1 "- 1"] by simp
qed

section \<open>Prices and refunds\<close>

lemma effective_gas_price_value:
  "effective_gas_price base mx prio = Ok p \<longleftrightarrow> base \<le> mx \<and> unat p = min (unat mx) (unat base + unat prio)"
proof (cases "mx < base")
  case False
  then have le: "unat base \<le> unat mx" by (simp add: word_less_nat_alt)
  have "unat (base + min prio (mx - base)) = min (unat mx) (unat base + unat prio)"
    using le unsigned_less [of mx, where ?'a = nat]
    by (subst unat_add_exact) (auto simp: unat_min unat_sub_exact)
  with False show ?thesis by (auto simp: effective_gas_price_def Let_def word_unat_eq_iff not_less)
qed (simp add: effective_gas_price_def not_le)

lemma unat_effective_gas_used:
  assumes "remaining \<le> limit"
  shows "unat (effective_gas_used limit remaining refund) =
    (unat limit - unat remaining) - min (unat refund) ((unat limit - unat remaining) div 5)"
  using assms
  by (simp add: effective_gas_used_def Let_def MAX_REFUND_QUOTIENT_def unat_sub_exact unat_min unat_div word_le_nat_alt min_def)

lemma effective_gas_used_bounds:
  assumes "remaining \<le> limit"
  shows "4 * (unat limit - unat remaining) \<le> 5 * unat (effective_gas_used limit remaining refund)
    \<and> unat (effective_gas_used limit remaining refund) \<le> unat limit - unat remaining"
  unfolding unat_effective_gas_used [OF assms] by auto

lemma price_split:
  assumes "compute_effective_gas_price w = Ok price"
    and "(base, priority) = (case w of Legacy gas_price \<Rightarrow> (0, gas_price) | Eip1559 _ _ base_fee \<Rightarrow> (base_fee, price - base_fee))"
  shows "unat price = unat priority + unat base"
proof (cases w)
  case (Eip1559 mx prio b)
  then have "unat b \<le> unat price" using assms(1) by (auto simp: effective_gas_price_value word_le_nat_alt)
  with Eip1559 assms(2) show ?thesis by (simp add: unat_sub_exact)
qed (use assms in simp)

lemma compute_gas_summary_OkE:
  assumes "compute_gas_summary s = Ok g"
  obtains base priority where
    "compute_effective_gas_price (s_fee_witness s) = Ok (g_effective_gas_price g)"
    "g_effective_gas_used g = effective_gas_used (s_gas_limit s) (s_gas_remaining s) (s_refund s)"
    "unat (g_sender_debit g) =
       unat (g_effective_gas_price g) * unat (g_effective_gas_used g) + unat (s_value_sent s)"
    "unat (g_effective_gas_price g) = unat priority + unat base"
    "g_miner_fee g = priority * g_effective_gas_used g" "g_base_fee_burned g = base * g_effective_gas_used g"
proof -
  define used where "used = effective_gas_used (s_gas_limit s) (s_gas_remaining s) (s_refund s)"
  from assms obtain price where price: "compute_effective_gas_price (s_fee_witness s) = Ok price"
    and rest: "try_bind (ok_or DebitOverflow (checked_mul price used)) (\<lambda>cost.
      try_bind (ok_or DebitOverflow (checked_add cost (s_value_sent s))) (\<lambda>debit.
        let (base, priority) =
              (case s_fee_witness s of Legacy gas_price \<Rightarrow> (0, gas_price) | Eip1559 _ _ base_fee \<Rightarrow> (base_fee, price - base_fee));
            burned = base_fee_burned base used; tip = miner_tip priority used
        in Ok \<lparr>g_effective_gas_price = price, g_effective_gas_used = used, g_sender_debit = debit,
               g_miner_fee = tip, g_base_fee_burned = burned\<rparr>)) = Ok g"
    unfolding compute_gas_summary_def used_def [symmetric] Let_def [of used] by (rule try_bind_OkE)
  obtain base priority where bp: "(case s_fee_witness s of Legacy gas_price \<Rightarrow> (0, gas_price)
      | Eip1559 _ _ base_fee \<Rightarrow> (base_fee, price - base_fee)) = (base, priority)"
    by (rule prod.exhaust)
  from rest obtain cost debit where "checked_mul price used = Some cost" "checked_add cost (s_value_sent s) = Some debit"
    and g: "g = \<lparr>g_effective_gas_price = price, g_effective_gas_used = used, g_sender_debit = debit,
      g_miner_fee = miner_tip priority used, g_base_fee_burned = base_fee_burned base used\<rparr>"
    unfolding bp Let_def prod.case by (elim try_bind_OkE) (auto dest!: ok_or_OkD)
  then have "unat debit = unat price * unat used + unat (s_value_sent s)"
    by (elim checked_mul_SomeE checked_add_SomeE) simp
  with price price_split [OF price bp [symmetric]] show ?thesis
    by (intro that [of priority base]) (simp_all add: g used_def base_fee_burned_def miner_tip_def)
qed

lemma split_exact:
  assumes "unat price = unat priority + unat base" and "unat price * unat used < 2 ^ 64"
  shows "unat (priority * used) + unat (base * used) = unat price * unat (used :: u64)"
proof -
  have "unat priority * unat used \<le> unat price * unat used" and "unat base * unat used \<le> unat price * unat used"
    using assms(1) by (intro mult_le_mono1, simp)+
  from this [THEN le_less_trans, OF assms(2), THEN unat_mul_exact]
  have "unat (priority * used) = unat priority * unat used" "unat (base * used) = unat base * unat used" .
  with assms(1) show ?thesis by (simp add: add_mult_distrib)
qed

text \<open>
  C31. When the gas summary of a transaction is computed, the consistency check passes, so the check only fails
  where the computation does: the sender pays exactly price times gas plus the value sent, on natural numbers,
  that gas cost is the sum of the miner fee and the burned base fee, and, for gas remaining within the limit, the gas
  charged is between four fifths of the gas used and all of it.
\<close>

theorem gas_summary_consistent:
  assumes "compute_gas_summary s = Ok g" and "s_gas_remaining s \<le> s_gas_limit s"
  shows "verify_gas_summary_consistency s = Ok ()
    \<and> unat (g_sender_debit g) = unat (g_effective_gas_price g) * unat (g_effective_gas_used g) + unat (s_value_sent s)
    \<and> unat (g_miner_fee g) + unat (g_base_fee_burned g) = unat (g_effective_gas_price g) * unat (g_effective_gas_used g)
    \<and> 4 * (unat (s_gas_limit s) - unat (s_gas_remaining s)) \<le> 5 * unat (g_effective_gas_used g)
    \<and> unat (g_effective_gas_used g) \<le> unat (s_gas_limit s) - unat (s_gas_remaining s)"
proof -
  obtain base priority where used: "g_effective_gas_used g = effective_gas_used (s_gas_limit s) (s_gas_remaining s) (s_refund s)"
    and debit: "unat (g_sender_debit g) =
       unat (g_effective_gas_price g) * unat (g_effective_gas_used g) + unat (s_value_sent s)"
    and price: "unat (g_effective_gas_price g) = unat priority + unat base"
    and fees: "g_miner_fee g = priority * g_effective_gas_used g" "g_base_fee_burned g = base * g_effective_gas_used g"
    using assms(1) by (rule compute_gas_summary_OkE)
  have cost: "unat (g_effective_gas_price g) * unat (g_effective_gas_used g) < 2 ^ 64"
    using debit unsigned_less [of "g_sender_debit g", where ?'a = nat] by simp
  note total = split_exact [OF price cost, folded fees]
  have "checked_mul (g_effective_gas_price g) (g_effective_gas_used g) = Some (g_effective_gas_price g * g_effective_gas_used g)"
    "checked_add (g_miner_fee g) (g_base_fee_burned g) = Some (g_miner_fee g + g_base_fee_burned g)"
    using cost total by (simp_all add: checked_mul_def checked_add_def)
  moreover have "g_miner_fee g + g_base_fee_burned g = g_effective_gas_price g * g_effective_gas_used g"
    using cost total by (simp add: word_unat_eq_iff unat_add_exact unat_mul_exact)
  moreover have "g_sender_debit g = g_effective_gas_price g * g_effective_gas_used g + s_value_sent s"
    using debit cost unsigned_less [of "g_sender_debit g", where ?'a = nat]
    by (simp add: word_unat_eq_iff unat_add_exact unat_mul_exact)
  ultimately have "verify_gas_summary_consistency s = Ok ()"
    by (simp add: verify_gas_summary_consistency_def assms(1))
  with debit total used effective_gas_used_bounds [OF assms(2)] show ?thesis by simp
qed

theorem gas_summary_consistent_witness:
  "(let s = \<lparr>s_fee_witness = Eip1559 20 5 10, s_gas_limit = 100000, s_gas_remaining = 50000, s_refund = 90000,
              s_value_sent = 7\<rparr>;
        g = \<lparr>g_effective_gas_price = 15, g_effective_gas_used = 40000, g_sender_debit = 600007, g_miner_fee = 200000,
              g_base_fee_burned = 400000\<rparr>
    in compute_gas_summary s = Ok g \<and> verify_gas_summary_consistency s = Ok ()
       \<and> unat (g_miner_fee g) + unat (g_base_fee_burned g) = 15 * 40000)"
  using gas_summary_consistent [of "\<lparr>s_fee_witness = Eip1559 20 5 10, s_gas_limit = 100000, s_gas_remaining = 50000,
      s_refund = 90000, s_value_sent = 7\<rparr>" "\<lparr>g_effective_gas_price = 15, g_effective_gas_used = 40000,
      g_sender_debit = 600007, g_miner_fee = 200000, g_base_fee_burned = 400000\<rparr>"]
  by (simp add: compute_gas_summary_def effective_gas_price_def effective_gas_used_def MAX_REFUND_QUOTIENT_def
      checked_mul_def checked_add_def min_def Let_def base_fee_burned_def miner_tip_def)

section \<open>The base fee of the next block\<close>

text \<open>The update rule of EIP-1559, on natural numbers, with its change denominator of eight.\<close>

definition eip1559_next_base_fee :: "nat \<Rightarrow> nat \<Rightarrow> nat \<Rightarrow> nat" where
  "eip1559_next_base_fee p used target =
     (if used = target then p
      else if target < used then p + max (p * (used - target) div target div 8) 1
      else p - p * (target - used) div target div 8)"

text \<open>The rule that the code computes, exact where nothing wraps: the same rule without the denominator.\<close>

lemma next_base_fee_value:
  assumes "0 < target" and "unat p * unat used < 2 ^ 63" and "unat p * unat target < 2 ^ 63"
    and "unat p < 2 ^ 63"
  shows "map_option unat (next_base_fee p used target) = Some
    (if used = target then unat p
     else if target < used then unat p + max (unat p * (unat used - unat target) div unat target) 1
     else unat p - unat p * (unat target - unat used) div unat target)"
proof -
  have t: "0 < unat target" using assms(1) by (simp add: word_less_nat_alt)
  consider "used = target" | "target < used" | "used < target" by (rule linorder_cases)
  then show ?thesis
  proof cases
    case 2
    then have lt: "unat target < unat used" by (simp add: word_less_nat_alt)
    have m: "unat p * (unat used - unat target) < 2 ^ 63"
      using assms(2) by (rule le_less_trans [OF mult_le_mono2, rotated]) simp
    have q: "unat p * (unat used - unat target) div unat target < 2 ^ 63"
      using m by (rule le_less_trans [OF div_le_dividend])
    have d: "unat (max (p * (used - target) div target) 1) = max (unat p * (unat used - unat target) div unat target) 1"
      using lt m by (simp add: unat_max unat_div unat_mul_exact unat_sub_exact)
    have "unat (p + max (p * (used - target) div target) 1) = unat p + max (unat p * (unat used - unat target) div unat target) 1"
      using assms(4) q d by (subst unat_add_exact) (simp_all add: max_def)
    with 2 assms(1) show ?thesis by (auto simp: next_base_fee_def Let_def)
  next
    case 3
    then have lt: "unat used < unat target" by (simp add: word_less_nat_alt)
    have m: "unat p * (unat target - unat used) < 2 ^ 63"
      using assms(3) by (rule le_less_trans [OF mult_le_mono2, rotated]) simp
    have "unat (p * (target - used) div target) = unat p * (unat target - unat used) div unat target"
      using lt m by (simp add: unat_div unat_mul_exact unat_sub_exact)
    moreover from this have "unat (p * (target - used) div target) \<le> unat p"
      using t div_le_mono [of "unat p * (unat target - unat used)" "unat p * unat target" "unat target"] by simp
    ultimately show ?thesis
      using 3 assms(1) by (auto simp: next_base_fee_def Let_def saturating_sub_def unat_sub_exact word_le_nat_alt)
  qed (simp add: next_base_fee_def)
qed

text \<open>
  The base fee update has no change denominator: a block with twice the target of gas doubles the fee and an empty
  block takes it to zero, where the rule of EIP-1559 moves it by at most one eighth.
\<close>

theorem next_base_fee_unbounded_change:
  assumes "0 < target" and "unat p * (2 * unat target) < 2 ^ 63" and "2 * unat target < 2 ^ 64" and "8 \<le> p" and "unat p < 2 ^ 63"
  shows "map_option unat (next_base_fee p (2 * target) target) = Some (2 * unat p)
    \<and> next_base_fee p 0 target = Some 0
    \<and> eip1559_next_base_fee (unat p) (2 * unat target) (unat target) = unat p + unat p div 8
    \<and> eip1559_next_base_fee (unat p) 0 (unat target) = unat p - unat p div 8"
proof -
  have t: "0 < unat target" and p: "8 \<le> unat p" using assms(1,4) by (simp_all add: word_less_nat_alt word_le_nat_alt)
  have d: "unat (2 * target) = 2 * unat target" using assms(3) by (simp add: unat_word_ariths)
  then have ne: "2 * target \<noteq> target" "target < 2 * target" "target \<noteq> 0"
    using t by (auto simp: word_less_nat_alt word_unat_eq_iff)
  have b: "unat p * unat target < 2 ^ 63" using assms(2) by simp
  have "map_option unat (next_base_fee p (2 * target) target) =
      Some (unat p + max (unat p * (unat (2 * target) - unat target) div unat target) 1)"
    using next_base_fee_value [of target p "2 * target"] assms(1,2,5) b d ne(1,2) by simp
  also have "unat p * (unat (2 * target) - unat target) div unat target = unat p" using d t by simp
  also have "unat p + max (unat p) 1 = 2 * unat p" using p by simp
  finally have full: "map_option unat (next_base_fee p (2 * target) target) = Some (2 * unat p)" .
  have "map_option unat (next_base_fee p 0 target) =
      Some (unat p - unat p * (unat target - unat (0 :: u64)) div unat target)"
    using next_base_fee_value [of target p 0] assms(1,5) b ne(3) by simp
  also have "unat p - unat p * (unat target - unat (0 :: u64)) div unat target = 0" using t by simp
  finally have "next_base_fee p 0 target = Some 0" by (auto simp: word_unat_eq_iff)
  moreover have "1 \<le> unat p div 8" using p by (simp add: less_eq_div_iff_mult_less_eq)
  ultimately show ?thesis using t full by (simp add: eip1559_next_base_fee_def)
qed

theorem next_base_fee_unbounded_change_witness:
  "map_option unat (next_base_fee 1000 30000000 15000000) = Some 2000
    \<and> next_base_fee 1000 0 15000000 = Some 0
    \<and> eip1559_next_base_fee 1000 30000000 15000000 = 1125
    \<and> eip1559_next_base_fee 1000 0 15000000 = 875"
  using next_base_fee_unbounded_change [of 15000000 1000] by simp

section \<open>Blob gas fields\<close>

lemma verify_blob_gas_fields_Ok:
  assumes "verify_blob_gas_fields pe pu ce cu = Ok ()" and "unat pe + unat pu < 2 ^ 64"
  shows "unat ce = unat pe + unat pu - 393216 \<and> unat cu = 131072 * unat (blob_count_from_gas cu)
    \<and> unat (blob_count_from_gas cu) \<le> 6"
proof -
  from assms(1) have ce: "ce = calc_excess_blob_gas pe pu" and cu: "cu \<le> 786432" "cu mod 131072 = 0"
    by (auto simp: verify_blob_gas_fields_def Let_def MAX_BLOB_GAS_PER_BLOCK_def BLOB_GAS_PER_BLOB_def split: if_splits)
  have "unat ce = unat pe + unat pu - 393216"
    using assms(2) unfolding ce calc_excess_blob_gas_def TARGET_BLOB_GAS_PER_BLOCK_def Let_def
    by (auto simp: word_less_nat_alt unat_add_exact unat_sub_exact)
  moreover have "unat cu mod 131072 = 0" "unat cu \<le> 786432"
    using cu unat_mod [of cu 131072] by (simp_all add: word_le_nat_alt)
  moreover have "unat (blob_count_from_gas cu) = unat cu div 131072"
    by (simp add: blob_count_from_gas_def BLOB_GAS_PER_BLOB_def unat_div)
  ultimately show ?thesis by auto
qed

end
