(* ===== verification/Evm_Oracles.thy ===== *)
theory Evm_Oracles
  imports Evm_Code Evm_Fees Zkp_Bloom
begin

text \<open>
  The host-side oracles of \<^verbatim>\<open>crates/evm\<close> that check an execution trace before it is proved:
  jump targets (\<^verbatim>\<open>jumpdest_validity.rs\<close>), program counter (\<^verbatim>\<open>pc_continuity.rs\<close>), stack depth
  (\<^verbatim>\<open>stack_depth.rs\<close>), gas (\<^verbatim>\<open>gas_accounting.rs\<close>), code size, call data and transaction context
  (\<^verbatim>\<open>codesize.rs\<close>, \<^verbatim>\<open>calldata.rs\<close>, \<^verbatim>\<open>env_context.rs\<close>, \<^verbatim>\<open>returndata.rs\<close>), call frames
  (\<^verbatim>\<open>call_frame_transition.rs\<close>), logs (\<^verbatim>\<open>log_event.rs\<close>, \<^verbatim>\<open>log_bloom.rs\<close>) and their combination
  (\<^verbatim>\<open>full_block_validation.rs\<close>).

  The trace is a struct of columns, each a vector of 64-bit values; a 256-bit value has four columns, low
  limb first. The record has the columns that the oracles read. An index past the end of a column panics, which is
  the outcome \<open>None\<close>; \<open>cols_wf\<close> says that all columns have the length of \<open>c_step\<close>. An error carries the row
  and the numbers of the message.
\<close>

section \<open>Columns and loops\<close>

record evm_trace_columns =
  c_step :: "u64 list"
  c_pc :: "u64 list"
  c_opcode :: "u64 list"
  c_gas_remaining :: "u64 list"
  c_stack_depth :: "u64 list"
  c_input0 :: "u64 list list"
  c_input1 :: "u64 list list"
  c_output0 :: "u64 list list"
  c_funct :: "u64 list"
  c_immediate :: "u64 list list"
  c_sel_stop :: "u64 list"
  c_sel_jump :: "u64 list"
  c_sel_log :: "u64 list"
  c_sel_call :: "u64 list"
  c_frame_depth :: "u64 list"
  c_frame_caller :: "u64 list list"
  c_frame_callee :: "u64 list list"

datatype oracle_error = JumpTarget nat u64 | JumpiTarget nat u64 u64 | PcMismatch nat u8 u64 u64 u64
  | StackMismatch nat u8 u64 u64 u64 | GasBelowStatic nat u8 u64 u64 | CodeSizeMismatch nat u64 nat
  | CalldataLoadMismatch nat u64 | CalldataSizeMismatch nat u64 nat | OriginMismatch nat | GasPriceMismatch nat u64 u64
  | CallValueMismatch nat nat u64 u64 | DepthTransition nat u8 u64 u64 | CallerMismatch nat | FrameNotPopped nat u8 u64 u64
  | BloomMismatch | EventCount nat nat

text \<open>\<^verbatim>\<open>col[r]\<close>, a loop whose body returns early with \<^verbatim>\<open>?\<close>, and one that collects results.\<close>

definition col :: "'a list \<Rightarrow> nat \<Rightarrow> ('e, 'a) outcome" where
  "col xs r = (if r < length xs then Ok (xs ! r) else None)"

fun traverse :: "('a \<Rightarrow> ('e, 'b) outcome) \<Rightarrow> 'a list \<Rightarrow> ('e, 'b list) outcome" where
  "traverse f [] = Ok []"
| "traverse f (x # xs) = try_bind (f x) (\<lambda>y. try_bind (traverse f xs) (\<lambda>ys. Ok (y # ys)))"

definition for_each :: "('a \<Rightarrow> ('e, unit) outcome) \<Rightarrow> 'a list \<Rightarrow> ('e, unit) outcome" where
  "for_each f xs = try_bind (traverse f xs) (\<lambda>_. Ok ())"

section \<open>Jump targets, program counter and stack depth\<close>

definition jump_row :: "u64 set \<Rightarrow> evm_trace_columns \<Rightarrow> nat \<Rightarrow> (oracle_error, unit) outcome" where
  "jump_row valid_positions cols r =
     try_bind (col (c_sel_jump cols) r) (\<lambda>sel.
     if sel \<noteq> 1 then Ok ()
     else try_bind (col (c_opcode cols) r) (\<lambda>op.
       let opcode = ucast op :: u8
       in if opcode = 0x56 then
            try_bind (col (c_input0 cols ! 0) r) (\<lambda>target.
              if target \<notin> valid_positions then Err (JumpTarget r target) else Ok ())
          else if opcode = 0x57 then
            try_bind (col (c_input0 cols ! 0) r) (\<lambda>target.
            try_bind (col (c_input1 cols ! 0) r) (\<lambda>condition.
              if condition \<noteq> 0 \<and> target \<notin> valid_positions then Err (JumpiTarget r target condition) else Ok ()))
          else Ok ()))"

definition verify_jump_targets :: "u8 list \<Rightarrow> evm_trace_columns \<Rightarrow> (oracle_error, unit) outcome" where
  "verify_jump_targets bytecode cols =
     (let valid_positions = set (map of_nat (valid_jumpdest_positions bytecode));
          n = length (c_step cols)
      in for_each (jump_row valid_positions cols) [0..<n])"

definition pc_row :: "evm_trace_columns \<Rightarrow> nat \<Rightarrow> (oracle_error, unit) outcome" where
  "pc_row cols r =
     try_bind (col (c_opcode cols) r) (\<lambda>op.
     let opcode = ucast op :: u8 in
     try_bind (col (c_pc cols) r) (\<lambda>pc.
     try_bind (col (c_pc cols) (r + 1)) (\<lambda>next_pc.
       if opcode \<in> {0x00, 0xF3, 0xFD, 0xFE, 0xFF} then Ok ()
       else if opcode \<in> {0xF0, 0xF1, 0xF2, 0xF4, 0xF5, 0xFA} then Ok ()
       else if opcode = 0x56 then Ok ()
       else if opcode = 0x57 then Ok ()
       else
         let expected = pc + instruction_size opcode
         in if next_pc \<noteq> expected then Err (PcMismatch r opcode pc next_pc expected) else Ok ())))"

definition verify_pc_continuity :: "evm_trace_columns \<Rightarrow> (oracle_error, unit) outcome" where
  "verify_pc_continuity cols = for_each (pc_row cols) [0..<length (c_step cols) - 1]"

definition stack_delta :: "u8 \<Rightarrow> (u8 \<times> u8) option" where
  "stack_delta opcode =
     (if opcode = 0x00 then Some (0, 0)
      else if 0x01 \<le> opcode \<and> opcode \<le> 0x0B then Some (2, 1)
      else if 0x10 \<le> opcode \<and> opcode \<le> 0x1D then Some (2, 1)
      else if opcode = 0x20 then Some (2, 1)
      else if opcode = 0x30 then Some (0, 1)
      else if opcode = 0x31 then Some (1, 1)
      else if opcode \<in> {0x32, 0x33, 0x34} then Some (0, 1)
      else if opcode = 0x35 then Some (1, 1)
      else if opcode = 0x36 then Some (0, 1)
      else if opcode = 0x37 then Some (3, 0)
      else if opcode = 0x38 then Some (0, 1)
      else if opcode = 0x39 then Some (3, 0)
      else if opcode = 0x3A then Some (0, 1)
      else if opcode = 0x3B then Some (1, 1)
      else if opcode = 0x3C then Some (4, 0)
      else if opcode = 0x3D then Some (0, 1)
      else if opcode = 0x3E then Some (3, 0)
      else if opcode = 0x3F then Some (1, 1)
      else if opcode = 0x40 then Some (1, 1)
      else if 0x41 \<le> opcode \<and> opcode \<le> 0x48 then Some (0, 1)
      else if opcode = 0x50 then Some (1, 0)
      else if opcode = 0x51 then Some (1, 1)
      else if opcode \<in> {0x52, 0x53} then Some (2, 0)
      else if opcode = 0x54 then Some (1, 1)
      else if opcode = 0x55 then Some (2, 0)
      else if opcode = 0x56 then Some (1, 0)
      else if opcode = 0x57 then Some (2, 0)
      else if opcode \<in> {0x58, 0x59, 0x5A} then Some (0, 1)
      else if opcode = 0x5B then Some (0, 0)
      else if opcode = 0x5F then Some (0, 1)
      else if 0x60 \<le> opcode \<and> opcode \<le> 0x7F then Some (0, 1)
      else if 0x80 \<le> opcode \<and> opcode \<le> 0x8F then (let n = opcode - 0x80 + 1 in Some (n, n + 1))
      else if 0x90 \<le> opcode \<and> opcode \<le> 0x9F then (let n = opcode - 0x90 + 2 in Some (n, n))
      else if opcode = 0xA0 then Some (2, 0)
      else if opcode = 0xA1 then Some (3, 0)
      else if opcode = 0xA2 then Some (4, 0)
      else if opcode = 0xA3 then Some (5, 0)
      else if opcode = 0xA4 then Some (6, 0)
      else if opcode = 0xF0 then Some (3, 1)
      else if opcode = 0xF1 then Some (7, 1)
      else if opcode = 0xF3 then Some (2, 0)
      else if opcode = 0xF5 then Some (4, 1)
      else if opcode = 0xFA then Some (6, 1)
      else if opcode = 0xFD then Some (2, 0)
      else if opcode = 0xFE then Some (0, 0)
      else if opcode = 0xFF then Some (1, 0)
      else None)"

definition stack_row :: "evm_trace_columns \<Rightarrow> nat \<Rightarrow> (oracle_error, unit) outcome" where
  "stack_row cols r =
     try_bind (col (c_opcode cols) r) (\<lambda>op.
     let opcode = ucast op :: u8 in
     case stack_delta opcode of None \<Rightarrow> Ok ()
     | Some (pops, pushes) \<Rightarrow>
         try_bind (col (c_stack_depth cols) r) (\<lambda>current.
         try_bind (col (c_stack_depth cols) (r + 1)) (\<lambda>nxt.
           if opcode = 0x00 \<or> opcode = 0xF3 \<or> opcode = 0xFD then Ok ()
           else if 0xF0 \<le> opcode then Ok ()
           else
             let expected = current - zx pops + zx pushes
             in if nxt \<noteq> expected then Err (StackMismatch r opcode current nxt expected) else Ok ())))"

definition verify_stack_depth_consistency :: "evm_trace_columns \<Rightarrow> (oracle_error, unit) outcome" where
  "verify_stack_depth_consistency cols = for_each (stack_row cols) [0..<length (c_step cols) - 1]"

section \<open>Gas, code size, call data and context\<close>

record gas_step =
  gs_step :: u64
  gs_opcode :: u8
  gs_gas_before :: u64
  gs_gas_after :: u64
  gs_expected_cost :: "u64 option"

definition gas_row :: "evm_trace_columns \<Rightarrow> nat \<Rightarrow> (oracle_error, gas_step) outcome" where
  "gas_row cols r =
     (let n = length (c_step cols) in
      try_bind (col (c_opcode cols) r) (\<lambda>op.
      let opcode = ucast op :: u8 in
      try_bind (col (c_gas_remaining cols) r) (\<lambda>gas_before.
      try_bind (if r + 1 < n then col (c_gas_remaining cols) (r + 1) else Ok 0) (\<lambda>gas_after.
      let expected = static_gas_cost opcode;
          gs = \<lparr>gs_step = of_nat r, gs_opcode = opcode, gs_gas_before = gas_before, gs_gas_after = gas_after,
                gs_expected_cost = expected\<rparr>
      in case expected of None \<Rightarrow> Ok gs
         | Some cost \<Rightarrow>
             let actual_cost = saturating_sub gas_before gas_after
             in if r + 1 < n then
                  try_bind (col (c_sel_call cols) r) (\<lambda>sel_call.
                  if sel_call = 0 then
                    try_bind (col (c_sel_stop cols) r) (\<lambda>sel_stop.
                    if sel_stop = 0 \<and> actual_cost \<noteq> cost \<and> actual_cost < cost
                    then Err (GasBelowStatic r opcode actual_cost cost) else Ok gs)
                  else Ok gs)
                else Ok gs))))"

definition verify_gas_accounting :: "evm_trace_columns \<Rightarrow> (oracle_error, gas_step list) outcome" where
  "verify_gas_accounting cols =
     (let n = length (c_step cols) in if n = 0 then Ok [] else traverse (gas_row cols) [0..<n])"

definition codesize_row :: "u8 list \<Rightarrow> evm_trace_columns \<Rightarrow> nat \<Rightarrow> (oracle_error, unit) outcome" where
  "codesize_row bytecode cols r =
     try_bind (col (c_opcode cols) r) (\<lambda>op.
     if op \<noteq> 0x38 then Ok ()
     else try_bind (col (c_output0 cols ! 0) r) (\<lambda>result.
       if result \<noteq> of_nat (length bytecode) then Err (CodeSizeMismatch r result (length bytecode)) else Ok ()))"

definition verify_codesize :: "u8 list \<Rightarrow> evm_trace_columns \<Rightarrow> (oracle_error, unit) outcome" where
  "verify_codesize bytecode cols = for_each (codesize_row bytecode cols) [0..<length (c_step cols)]"

definition u64_from_be_bytes :: "u8 list \<Rightarrow> u64" where
  "u64_from_be_bytes bs = from_le_bytes (rev bs)"

text \<open>The 32 expected bytes; \<^verbatim>\<open>offset + i\<close> is an addition of \<open>usize\<close> values.\<close>

definition calldata_word :: "u8 list \<Rightarrow> u64 \<Rightarrow> u8 list" where
  "calldata_word calldata offset =
     map (\<lambda>i. if usize_add (unat offset) i < length calldata then calldata ! usize_add (unat offset) i else 0) [0..<32]"

definition calldataload_row :: "u8 list \<Rightarrow> evm_trace_columns \<Rightarrow> nat \<Rightarrow> (oracle_error, unit) outcome" where
  "calldataload_row calldata cols r =
     try_bind (col (c_opcode cols) r) (\<lambda>op.
     if op \<noteq> 0x35 then Ok ()
     else try_bind (col (c_input0 cols ! 0) r) (\<lambda>offset.
       let expected = calldata_word calldata offset in
       try_bind (col (c_output0 cols ! 0) r) (\<lambda>result_l0.
       try_bind (col (c_output0 cols ! 1) r) (\<lambda>result_l1.
       try_bind (col (c_output0 cols ! 2) r) (\<lambda>result_l2.
       try_bind (col (c_output0 cols ! 3) r) (\<lambda>result_l3.
         let exp_l0 = u64_from_be_bytes (take 8 (drop 24 expected));
             exp_l1 = u64_from_be_bytes (take 8 (drop 16 expected));
             exp_l2 = u64_from_be_bytes (take 8 (drop 8 expected));
             exp_l3 = u64_from_be_bytes (take 8 (drop 0 expected))
         in if result_l0 \<noteq> exp_l0 \<or> result_l1 \<noteq> exp_l1 \<or> result_l2 \<noteq> exp_l2 \<or> result_l3 \<noteq> exp_l3
            then Err (CalldataLoadMismatch r offset) else Ok ()))))))"

definition verify_calldataload_results :: "u8 list \<Rightarrow> evm_trace_columns \<Rightarrow> (oracle_error, unit) outcome" where
  "verify_calldataload_results calldata cols = for_each (calldataload_row calldata cols) [0..<length (c_step cols)]"

definition calldatasize_row :: "u8 list \<Rightarrow> evm_trace_columns \<Rightarrow> nat \<Rightarrow> (oracle_error, unit) outcome" where
  "calldatasize_row calldata cols r =
     try_bind (col (c_opcode cols) r) (\<lambda>op.
     if op \<noteq> 0x36 then Ok ()
     else try_bind (col (c_output0 cols ! 0) r) (\<lambda>result.
       if result \<noteq> of_nat (length calldata) then Err (CalldataSizeMismatch r result (length calldata)) else Ok ()))"

definition verify_calldatasize :: "u8 list \<Rightarrow> evm_trace_columns \<Rightarrow> (oracle_error, unit) outcome" where
  "verify_calldatasize calldata cols = for_each (calldatasize_row calldata cols) [0..<length (c_step cols)]"

record tx_context =
  t_origin :: "u8 list"
  t_gas_price :: u64
  t_call_value :: "u64 list"

definition verify_origin :: "tx_context \<Rightarrow> evm_trace_columns \<Rightarrow> (oracle_error, unit) outcome" where
  "verify_origin ctx cols =
     for_each (\<lambda>r.
       try_bind (col (c_opcode cols) r) (\<lambda>op.
       if op \<noteq> 0x32 then Ok ()
       else try_bind (col (c_output0 cols ! 0) r) (\<lambda>result_l0.
         let expected_l0 = u64_from_be_bytes (take 8 (drop 12 (t_origin ctx)))
         in if result_l0 \<noteq> expected_l0 then Err (OriginMismatch r) else Ok ())))
     [0..<length (c_step cols)]"

definition verify_gasprice :: "tx_context \<Rightarrow> evm_trace_columns \<Rightarrow> (oracle_error, unit) outcome" where
  "verify_gasprice ctx cols =
     for_each (\<lambda>r.
       try_bind (col (c_opcode cols) r) (\<lambda>op.
       if op \<noteq> 0x3A then Ok ()
       else try_bind (col (c_output0 cols ! 0) r) (\<lambda>result.
         if result \<noteq> t_gas_price ctx then Err (GasPriceMismatch r result (t_gas_price ctx)) else Ok ())))
     [0..<length (c_step cols)]"

definition verify_callvalue :: "tx_context \<Rightarrow> evm_trace_columns \<Rightarrow> (oracle_error, unit) outcome" where
  "verify_callvalue ctx cols =
     for_each (\<lambda>r.
       try_bind (col (c_opcode cols) r) (\<lambda>op.
       if op \<noteq> 0x34 then Ok ()
       else for_each (\<lambda>limb.
           try_bind (col (c_output0 cols ! limb) r) (\<lambda>v.
             if v \<noteq> t_call_value ctx ! limb then Err (CallValueMismatch r limb v (t_call_value ctx ! limb)) else Ok ()))
         [0..<4]))
     [0..<length (c_step cols)]"

definition extract_returndatasize_values :: "evm_trace_columns \<Rightarrow> (oracle_error, (nat \<times> u64) list) outcome" where
  "extract_returndatasize_values cols =
     try_bind (traverse (\<lambda>r.
         try_bind (col (c_opcode cols) r) (\<lambda>op.
         if op = 0x3D then try_bind (col (c_output0 cols ! 0) r) (\<lambda>v. Ok [(r, v)]) else Ok []))
       [0..<length (c_step cols)]) (\<lambda>rs. Ok (concat rs))"

section \<open>Call frames\<close>

record frame_transition =
  ft_row :: nat
  ft_opcode :: u8
  ft_pre_depth :: u64
  ft_post_depth :: u64
  ft_caller_pre :: "u64 list"
  ft_callee_pre :: "u64 list"
  ft_caller_post :: "u64 list"
  ft_callee_post :: "u64 list"

definition is_call_family :: "u8 \<Rightarrow> bool" where
  "is_call_family opcode = (opcode \<in> {0xF0, 0xF1, 0xF2, 0xF4, 0xF5, 0xFA})"

text \<open>The four limbs of a row.\<close>

definition limbs_at :: "u64 list list \<Rightarrow> nat \<Rightarrow> ('e, u64 list) outcome" where
  "limbs_at xs r = traverse (\<lambda>k. col (xs ! k) r) [0..<4]"

definition frame_row :: "evm_trace_columns \<Rightarrow> nat \<Rightarrow> (oracle_error, frame_transition list) outcome" where
  "frame_row cols r =
     try_bind (col (c_opcode cols) r) (\<lambda>op.
     let opcode = ucast op :: u8;
         is_return = (opcode \<in> {0x00, 0xF3, 0xFD})
     in if \<not> is_call_family opcode \<and> \<not> is_return then Ok []
        else
          try_bind (col (c_frame_depth cols) r) (\<lambda>pre.
          try_bind (col (c_frame_depth cols) (r + 1)) (\<lambda>post.
          try_bind (limbs_at (c_frame_caller cols) r) (\<lambda>caller_pre.
          try_bind (limbs_at (c_frame_callee cols) r) (\<lambda>callee_pre.
          try_bind (limbs_at (c_frame_caller cols) (r + 1)) (\<lambda>caller_post.
          try_bind (limbs_at (c_frame_callee cols) (r + 1)) (\<lambda>callee_post.
            Ok [\<lparr>ft_row = r, ft_opcode = opcode, ft_pre_depth = pre, ft_post_depth = post, ft_caller_pre = caller_pre,
                 ft_callee_pre = callee_pre, ft_caller_post = caller_post, ft_callee_post = callee_post\<rparr>])))))))"

definition extract_frame_transitions :: "evm_trace_columns \<Rightarrow> (oracle_error, frame_transition list) outcome" where
  "extract_frame_transitions cols =
     try_bind (traverse (frame_row cols) [0..<length (c_step cols) - 1]) (\<lambda>ts. Ok (concat ts))"

definition verify_call_transition :: "frame_transition \<Rightarrow> (oracle_error, unit) outcome" where
  "verify_call_transition t =
     (if \<not> is_call_family (ft_opcode t) then Ok ()
      else if ft_post_depth t \<noteq> ft_pre_depth t + 1 \<and> ft_post_depth t \<noteq> ft_pre_depth t
        then Err (DepthTransition (ft_row t) (ft_opcode t) (ft_pre_depth t) (ft_post_depth t))
      else if ft_post_depth t = ft_pre_depth t + 1 \<and> ft_opcode t \<noteq> 0xF4 \<and> ft_caller_post t \<noteq> ft_callee_pre t
        then Err (CallerMismatch (ft_row t))
      else Ok ())"

definition verify_return_transition :: "frame_transition \<Rightarrow> (oracle_error, unit) outcome" where
  "verify_return_transition t =
     (if \<not> (ft_opcode t \<in> {0xF3, 0xFD}) then Ok ()
      else if 0 < ft_pre_depth t \<and> ft_post_depth t \<noteq> ft_pre_depth t - 1
        then Err (FrameNotPopped (ft_row t) (ft_opcode t) (ft_pre_depth t) (ft_post_depth t))
      else Ok ())"

definition verify_all_transitions :: "evm_trace_columns \<Rightarrow> (oracle_error, unit) outcome" where
  "verify_all_transitions cols =
     try_bind (extract_frame_transitions cols) (\<lambda>transitions.
       for_each (\<lambda>t. try_bind (verify_call_transition t) (\<lambda>_. verify_return_transition t)) transitions)"

section \<open>Logs\<close>

record log_event =
  le_address :: "u8 list"
  le_topics :: "u8 list list"
  le_data :: "u8 list"
  le_log_index :: nat
  le_mem_offset :: u64
  le_mem_size :: u64

definition limbs_to_be32 :: "u64 \<Rightarrow> u64 \<Rightarrow> u64 \<Rightarrow> u64 \<Rightarrow> u8 list" where
  "limbs_to_be32 l0 l1 l2 l3 = to_be_bytes l3 @ to_be_bytes l2 @ to_be_bytes l1 @ to_be_bytes l0"

text \<open>The body of the loop, with the events so far.\<close>

definition log_row :: "evm_trace_columns \<Rightarrow> nat \<Rightarrow> log_event list \<Rightarrow> (oracle_error, log_event list) outcome" where
  "log_row cols r events =
     try_bind (col (c_sel_log cols) r) (\<lambda>sel.
     if sel \<noteq> 1 then Ok events
     else
       try_bind (col (c_funct cols) r) (\<lambda>funct.
       let topic_count = unat funct in
       try_bind (col (c_input0 cols ! 0) r) (\<lambda>mem_offset.
       try_bind (col (c_input1 cols ! 0) r) (\<lambda>mem_size.
       try_bind (if 1 \<le> topic_count
                 then try_bind (limbs_at (c_immediate cols) r) (\<lambda>l. Ok [limbs_to_be32 (l ! 0) (l ! 1) (l ! 2) (l ! 3)])
                 else Ok []) (\<lambda>topic0.
         let topics = topic0 @ replicate (topic_count - 1) (replicate 32 0)
         in Ok (events @ [\<lparr>le_address = replicate 20 0, le_topics = topics, le_data = [], le_log_index = length events,
                           le_mem_offset = mem_offset, le_mem_size = mem_size\<rparr>]))))))"

fun log_rows :: "evm_trace_columns \<Rightarrow> nat list \<Rightarrow> log_event list \<Rightarrow> (oracle_error, log_event list) outcome" where
  "log_rows cols [] events = Ok events"
| "log_rows cols (r # rs) events = try_bind (log_row cols r events) (\<lambda>events'. log_rows cols rs events')"

definition extract_log_events :: "evm_trace_columns \<Rightarrow> (oracle_error, log_event list) outcome" where
  "extract_log_events cols = log_rows cols [0..<length (c_step cols)] []"

definition verify_logs_bloom :: "bloom \<Rightarrow> (u8 list \<times> u8 list list) list \<Rightarrow> (oracle_error, unit) outcome" where
  "verify_logs_bloom logs_bloom logs =
     (let expected = logs_bloom_for_block logs in if expected \<noteq> logs_bloom then Err BloomMismatch else Ok ())"

definition compute_log_bloom_contribution :: "u8 list \<Rightarrow> u8 list list \<Rightarrow> bloom" where
  "compute_log_bloom_contribution address topics = logs_bloom_for_log address topics"

definition verify_log_bloom_contributions ::
  "(u8 list \<times> u8 list list) list \<Rightarrow> bloom \<Rightarrow> (oracle_error, unit) outcome" where
  "verify_log_bloom_contributions events expected_bloom =
     (let computed = logs_bloom_for_block events in if computed \<noteq> expected_bloom then Err BloomMismatch else Ok ())"

definition verify_log_events_produce_bloom ::
  "log_event list \<Rightarrow> u8 list list \<Rightarrow> bloom \<Rightarrow> (oracle_error, unit) outcome" where
  "verify_log_events_produce_bloom events addresses expected_bloom =
     (if length events \<noteq> length addresses then Err (EventCount (length events) (length addresses))
      else
        let pairs = map (\<lambda>(e, a). (a, le_topics e)) (zip events addresses)
        in verify_log_bloom_contributions pairs expected_bloom)"

section \<open>The combined validation\<close>

text \<open>The prefix that \<^verbatim>\<open>map_err\<close> puts before the message.\<close>

datatype validation_error = InJumpdest oracle_error | InGas oracle_error | InCodesize oracle_error
  | InStackDepth oracle_error | InPc oracle_error | InCalldatasize oracle_error | InCalldataload oracle_error
  | InLogs oracle_error

definition map_err :: "('e \<Rightarrow> 'f) \<Rightarrow> ('e, 'a) outcome \<Rightarrow> ('f, 'a) outcome" where
  "map_err g r = map_option (map_sum g id) r"

text \<open>The log extraction returns a vector and has no error of its own: only its panics matter here.\<close>

definition validate_evm_execution :: "u8 list \<Rightarrow> evm_trace_columns \<Rightarrow> (validation_error, unit) outcome" where
  "validate_evm_execution bytecode cols =
     (let table = build_bytecode_table bytecode in
      try_bind (map_err InJumpdest (verify_jump_targets bytecode cols)) (\<lambda>_.
      try_bind (map_err InGas (verify_gas_accounting cols)) (\<lambda>gas_steps.
      try_bind (map_err InCodesize (verify_codesize bytecode cols)) (\<lambda>_.
      try_bind (map_err InStackDepth (verify_stack_depth_consistency cols)) (\<lambda>_.
      try_bind (map_err InPc (verify_pc_continuity cols)) (\<lambda>_.
      try_bind (map_err InLogs (extract_log_events cols)) (\<lambda>events.
        Ok ())))))))"

definition validate_evm_execution_with_calldata ::
  "u8 list \<Rightarrow> u8 list \<Rightarrow> evm_trace_columns \<Rightarrow> (validation_error, unit) outcome" where
  "validate_evm_execution_with_calldata bytecode calldata cols =
     try_bind (validate_evm_execution bytecode cols) (\<lambda>_.
     try_bind (map_err InCalldatasize (verify_calldatasize calldata cols)) (\<lambda>_.
     try_bind (map_err InCalldataload (verify_calldataload_results calldata cols)) (\<lambda>_.
       Ok ())))"

definition validate_gas_accounting_full :: "u64 \<Rightarrow> u64 \<Rightarrow> u64 \<Rightarrow> u64 \<Rightarrow> u64 \<Rightarrow> (fee_error, unit) outcome" where
  "validate_gas_accounting_full gas_limit gas_remaining refund receipt_cumulative_gas prior_cumulative_gas =
     verify_receipt_gas_used gas_limit gas_remaining refund receipt_cumulative_gas prior_cumulative_gas"

section \<open>Rules for the outcomes\<close>

text \<open>All columns have the length of the step column, and there are four limb columns.\<close>

definition limbs_wf :: "nat \<Rightarrow> u64 list list \<Rightarrow> bool" where
  "limbs_wf n xs = (length xs = 4 \<and> list_all (\<lambda>c. length c = n) xs)"

definition cols_wf :: "evm_trace_columns \<Rightarrow> bool" where
  "cols_wf cols =
     (let n = length (c_step cols)
      in list_all (\<lambda>c. length c = n)
           [c_pc cols, c_opcode cols, c_gas_remaining cols, c_stack_depth cols, c_funct cols, c_sel_stop cols, c_sel_jump cols,
            c_sel_log cols, c_sel_call cols, c_frame_depth cols]
         \<and> list_all (limbs_wf n)
             [c_input0 cols, c_input1 cols, c_output0 cols, c_immediate cols, c_frame_caller cols, c_frame_callee cols])"

lemma col_in [simp]: "r < length xs \<Longrightarrow> col xs r = Ok (xs ! r)"
  by (simp add: col_def)

lemma traverse_Ok: "traverse f xs = Ok ys \<longleftrightarrow> list_all2 (\<lambda>x y. f x = Ok y) xs ys"
proof (induction xs arbitrary: ys)
  case (Cons x xs)
  then show ?case by (cases ys) (auto simp: try_bind_eq_Ok)
qed (auto simp: eq_commute [of "[]"])

lemma for_each_Ok: "for_each f xs = Ok () \<longleftrightarrow> (\<forall>x\<in>set xs. f x = Ok ())"
proof -
  have "for_each f xs = Ok () \<longleftrightarrow> (\<exists>ys. list_all2 (\<lambda>x y. f x = Ok y) xs ys)"
    by (simp add: for_each_def try_bind_eq_Ok traverse_Ok)
  also have "\<dots> \<longleftrightarrow> (\<forall>x\<in>set xs. f x = Ok ())"
    by (induction xs) (auto simp: list_all2_Cons1)
  finally show ?thesis .
qed

lemma traverse_all_Ok: "(\<And>x. x \<in> set xs \<Longrightarrow> \<exists>y. f x = Ok y) \<Longrightarrow> \<exists>ys. traverse f xs = Ok ys"
  by (induction xs) (auto simp: try_bind_eq_Ok)

lemma map_err_Ok [simp]: "map_err g r = Ok x \<longleftrightarrow> r = Ok x"
  by (cases r rule: option.exhaust) (auto simp: map_err_def map_sum_def split: sum.splits)

end
