(* ===== verification/Evm_Validation.thy ===== *)
theory Evm_Validation
  imports Evm_Oracles
begin

text \<open>
  What the trace oracles of \<open>Evm_Oracles\<close> establish: the combined validation never panics on a trace with
  full columns and accepts it exactly if every row and every pair of rows passes; an accepted trace whose rows
  carry the bytes of the code stays on instruction boundaries as long as it stays in one frame and takes no branch
  whose condition has a zero low limb; the stack oracle rejects honest rows of four opcodes; the call data oracle
  binds the full 256-bit result to the bytes at the offset taken modulo \<open>2 ^ 64\<close>.
\<close>

section \<open>Row conditions\<close>

abbreviation op_at :: "evm_trace_columns \<Rightarrow> nat \<Rightarrow> u8" where
  "op_at cols r \<equiv> ucast (c_opcode cols ! r)"

definition jump_ok :: "u8 list \<Rightarrow> evm_trace_columns \<Rightarrow> nat \<Rightarrow> bool" where
  "jump_ok bc cols r \<longleftrightarrow>
     (c_sel_jump cols ! r = 1 \<longrightarrow> op_at cols r = 0x56 \<or> op_at cols r = 0x57 \<and> c_input1 cols ! 0 ! r \<noteq> 0 \<longrightarrow>
      is_valid_jumpdest bc (unat (c_input0 cols ! 0 ! r)))"

definition codesize_ok :: "u8 list \<Rightarrow> evm_trace_columns \<Rightarrow> nat \<Rightarrow> bool" where
  "codesize_ok bc cols r \<longleftrightarrow> (c_opcode cols ! r = 0x38 \<longrightarrow> c_output0 cols ! 0 ! r = of_nat (length bc))"

definition gas_ok :: "evm_trace_columns \<Rightarrow> nat \<Rightarrow> bool" where
  "gas_ok cols r \<longleftrightarrow>
     (case static_gas_cost (op_at cols r) of None \<Rightarrow> True
      | Some cost \<Rightarrow> c_sel_call cols ! r = 0 \<and> c_sel_stop cols ! r = 0 \<longrightarrow>
          cost \<le> saturating_sub (c_gas_remaining cols ! r) (c_gas_remaining cols ! (r + 1)))"

definition stack_ok :: "evm_trace_columns \<Rightarrow> nat \<Rightarrow> bool" where
  "stack_ok cols r \<longleftrightarrow>
     (case stack_delta (op_at cols r) of None \<Rightarrow> True
      | Some (pops, pushes) \<Rightarrow> op_at cols r \<noteq> 0 \<and> op_at cols r < 0xF0 \<longrightarrow>
          c_stack_depth cols ! (r + 1) = c_stack_depth cols ! r - zx pops + zx pushes)"

text \<open>The opcodes after which the program counter is not checked.\<close>

definition control_op :: "u8 \<Rightarrow> bool" where
  "control_op op \<longleftrightarrow> op \<in> {0x00, 0xF3, 0xFD, 0xFE, 0xFF, 0xF0, 0xF1, 0xF2, 0xF4, 0xF5, 0xFA}"

definition pc_ok :: "evm_trace_columns \<Rightarrow> nat \<Rightarrow> bool" where
  "pc_ok cols r \<longleftrightarrow>
     (\<not> control_op (op_at cols r) \<and> op_at cols r \<noteq> 0x56 \<and> op_at cols r \<noteq> 0x57 \<longrightarrow>
      c_pc cols ! (r + 1) = c_pc cols ! r + instruction_size (op_at cols r))"

section \<open>The oracles check the row conditions\<close>

lemma cols_wf_lengths:
  assumes "cols_wf cols"
  shows "length (c_pc cols) = length (c_step cols)" "length (c_opcode cols) = length (c_step cols)"
    "length (c_gas_remaining cols) = length (c_step cols)" "length (c_stack_depth cols) = length (c_step cols)"
    "length (c_funct cols) = length (c_step cols)" "length (c_sel_stop cols) = length (c_step cols)"
    "length (c_sel_jump cols) = length (c_step cols)" "length (c_sel_log cols) = length (c_step cols)"
    "length (c_sel_call cols) = length (c_step cols)" "length (c_frame_depth cols) = length (c_step cols)"
  using assms by (simp_all add: cols_wf_def Let_def)

lemma limbs_wf_length: "limbs_wf n xs \<Longrightarrow> k < 4 \<Longrightarrow> length (xs ! k) = n"
  by (simp add: limbs_wf_def list_all_length)

lemma cols_wf_limbs:
  assumes "cols_wf cols" and "k < 4"
  shows "length (c_input0 cols ! k) = length (c_step cols)" "length (c_input1 cols ! k) = length (c_step cols)"
    "length (c_output0 cols ! k) = length (c_step cols)" "length (c_immediate cols ! k) = length (c_step cols)"
  using assms by (simp_all add: cols_wf_def Let_def limbs_wf_length)

lemmas wf_col = cols_wf_lengths cols_wf_limbs

text \<open>Membership in the set of positions as 64-bit values is the query for the position.\<close>

lemma valid_position:
  assumes "length bc \<le> 2 ^ 64"
  shows "t \<in> set (map of_nat (valid_jumpdest_positions bc)) \<longleftrightarrow> is_valid_jumpdest bc (unat (t :: u64))"
proof
  assume "t \<in> set (map of_nat (valid_jumpdest_positions bc))"
  then obtain p where p: "t = of_nat p" "jump_target bc p" by (auto simp: positions_filter)
  with assms have "unat t = p" by (simp add: unat_of_nat)
  with p show "is_valid_jumpdest bc (unat t)" by (simp add: is_valid_jumpdest_target)
next
  assume "is_valid_jumpdest bc (unat t)"
  then have "unat t \<in> set (valid_jumpdest_positions bc)" by (simp add: positions_filter is_valid_jumpdest_target)
  then have "of_nat (unat t) \<in> (of_nat :: nat \<Rightarrow> u64) ` set (valid_jumpdest_positions bc)" by (rule imageI)
  then show "t \<in> set (map of_nat (valid_jumpdest_positions bc))" by simp
qed

lemma jump_row_Ok:
  assumes "cols_wf cols" and "r < length (c_step cols)" and "length bc \<le> 2 ^ 64"
  shows "jump_row (set (map of_nat (valid_jumpdest_positions bc))) cols r = Ok () \<longleftrightarrow> jump_ok bc cols r"
  using assms(1,2) unfolding jump_row_def valid_position [OF assms(3)] jump_ok_def
  by (auto simp: Let_def wf_col)

lemma codesize_row_Ok:
  assumes "cols_wf cols" and "r < length (c_step cols)"
  shows "codesize_row bc cols r = Ok () \<longleftrightarrow> codesize_ok bc cols r"
  using assms by (simp add: codesize_row_def codesize_ok_def wf_col)

lemma pc_row_Ok:
  assumes "cols_wf cols" and "r + 1 < length (c_step cols)"
  shows "pc_row cols r = Ok () \<longleftrightarrow> pc_ok cols r"
  using assms by (auto simp: pc_row_def pc_ok_def control_op_def Let_def wf_col)

lemma high_opcodes: "op = 0xF3 \<or> op = 0xFD \<Longrightarrow> 0xF0 \<le> (op :: u8)"
  by auto

lemma stack_row_Ok:
  assumes "cols_wf cols" and "r + 1 < length (c_step cols)"
  shows "stack_row cols r = Ok () \<longleftrightarrow> stack_ok cols r"
  using assms high_opcodes [of "op_at cols r"]
  by (auto simp: stack_row_def stack_ok_def Let_def wf_col not_less not_le split: option.splits)

lemma gas_row_Ok:
  assumes "cols_wf cols" and "r < length (c_step cols)"
  shows "(\<exists>gs. gas_row cols r = Ok gs) \<longleftrightarrow> (r + 1 < length (c_step cols) \<longrightarrow> gas_ok cols r)"
  using assms by (auto simp: gas_row_def gas_ok_def Let_def wf_col not_less split: option.splits)

lemma limbs_at_Ok: "limbs_wf n xs \<Longrightarrow> r < n \<Longrightarrow> limbs_at xs r = Ok (map (\<lambda>k. xs ! k ! r) [0..<4])"
  by (simp add: limbs_at_def limbs_wf_length upt_rec)

lemma log_row_Ok:
  assumes "cols_wf cols" and "r < length (c_step cols)"
  shows "\<exists>events'. log_row cols r events = Ok events'"
proof -
  have "limbs_wf (length (c_step cols)) (c_immediate cols)" using assms(1) by (simp add: cols_wf_def Let_def)
  with assms show ?thesis by (simp add: log_row_def Let_def wf_col limbs_at_Ok)
qed

lemma extract_log_events_Ok:
  assumes "cols_wf cols"
  shows "\<exists>events. extract_log_events cols = Ok events"
proof -
  have "\<exists>events'. log_rows cols rs events = Ok events'" if "\<forall>r\<in>set rs. r < length (c_step cols)" for rs events
    using that
  proof (induction rs arbitrary: events)
    case (Cons r rs)
    then obtain e where "log_row cols r events = Ok e" using log_row_Ok [OF assms, of r events] by auto
    with Cons show ?case by simp
  qed simp
  then show ?thesis by (simp add: extract_log_events_def)
qed

lemma verify_gas_accounting_Ok:
  assumes "cols_wf cols"
  shows "(\<exists>gs. verify_gas_accounting cols = Ok gs) \<longleftrightarrow> (\<forall>r. r + 1 < length (c_step cols) \<longrightarrow> gas_ok cols r)"
proof
  assume "\<exists>gs. verify_gas_accounting cols = Ok gs"
  then obtain gs where "length (c_step cols) \<noteq> 0 \<longrightarrow> list_all2 (\<lambda>r g. gas_row cols r = Ok g) [0..<length (c_step cols)] gs"
    by (auto simp: verify_gas_accounting_def traverse_Ok split: if_splits)
  then show "\<forall>r. r + 1 < length (c_step cols) \<longrightarrow> gas_ok cols r"
    using gas_row_Ok [OF assms] by (fastforce simp: list_all2_conv_all_nth)
next
  assume "\<forall>r. r + 1 < length (c_step cols) \<longrightarrow> gas_ok cols r"
  then have "\<exists>gs. gas_row cols r = Ok gs" if "r \<in> set [0..<length (c_step cols)]" for r
    using gas_row_Ok [OF assms, of r] that by simp
  then show "\<exists>gs. verify_gas_accounting cols = Ok gs"
    using traverse_all_Ok [of "[0..<length (c_step cols)]" "gas_row cols"] by (simp add: verify_gas_accounting_def)
qed

lemma map_err_None [simp]: "map_err g r = None \<longleftrightarrow> r = None"
  by (simp add: map_err_def)

text \<open>
  On a trace with full columns, and code of at most \<open>2 ^ 64\<close> bytes, the combined validation accepts exactly if every jump that is
  taken goes to a valid destination, every code size is right, every step outside calls pays at least its static cost,
  and stack depth and program counter move as the tables say; the log extraction does not panic.
\<close>

lemma validate_iff:
  assumes "cols_wf cols" and "length bc \<le> 2 ^ 64"
  shows "validate_evm_execution bc cols = Ok () \<longleftrightarrow>
    (\<forall>r < length (c_step cols). jump_ok bc cols r \<and> codesize_ok bc cols r)
    \<and> (\<forall>r. r + 1 < length (c_step cols) \<longrightarrow> gas_ok cols r \<and> stack_ok cols r \<and> pc_ok cols r)"
proof -
  have "verify_jump_targets bc cols = Ok () \<longleftrightarrow> (\<forall>r < length (c_step cols). jump_ok bc cols r)"
    using jump_row_Ok [OF assms(1) _ assms(2)] by (auto simp: verify_jump_targets_def Let_def for_each_Ok simp del: set_map)
  moreover have "verify_codesize bc cols = Ok () \<longleftrightarrow> (\<forall>r < length (c_step cols). codesize_ok bc cols r)"
    using codesize_row_Ok [OF assms(1)] by (auto simp: verify_codesize_def for_each_Ok)
  moreover have "verify_stack_depth_consistency cols = Ok () \<longleftrightarrow> (\<forall>r. r + 1 < length (c_step cols) \<longrightarrow> stack_ok cols r)"
    using stack_row_Ok [OF assms(1)] by (auto simp: verify_stack_depth_consistency_def for_each_Ok)
  moreover have "verify_pc_continuity cols = Ok () \<longleftrightarrow> (\<forall>r. r + 1 < length (c_step cols) \<longrightarrow> pc_ok cols r)"
    using pc_row_Ok [OF assms(1)] by (auto simp: verify_pc_continuity_def for_each_Ok)
  ultimately show ?thesis
    using verify_gas_accounting_Ok [OF assms(1)] extract_log_events_Ok [OF assms(1)]
    unfolding validate_evm_execution_def Let_def by (simp add: try_bind_eq_Ok) blast
qed

section \<open>Stack values\<close>

text \<open>The 256-bit stack value whose four limbs, least significant first, are the columns of a group.\<close>

definition word256 :: "u64 list list \<Rightarrow> nat \<Rightarrow> nat" where
  "word256 xs r = (\<Sum>k<4. unat (xs ! k ! r) * 2 ^ (64 * k))"

lemma four_limbs: "{..<4} = {0, 1, 2, 3 :: nat}"
  by auto

lemma limb_digit:
  fixes d :: "nat \<Rightarrow> nat"
  assumes "\<forall>k. d k < 2 ^ 64" and "j < n"
  shows "(\<Sum>k<n. d k * 2 ^ (64 * k)) div 2 ^ (64 * j) mod 2 ^ 64 = d j"
  using assms
proof (induction n arbitrary: d j)
  case (Suc n)
  let ?rest = "\<Sum>k<n. d (Suc k) * 2 ^ (64 * k)"
  have sum: "(\<Sum>k<Suc n. d k * 2 ^ (64 * k)) = d 0 + 2 ^ 64 * ?rest"
    by (simp add: sum.lessThan_Suc_shift sum_distrib_left power_add mult.assoc mult.left_commute del: sum.lessThan_Suc)
  have low: "d 0 < 2 ^ 64" using Suc.prems(1) by blast
  show ?case
  proof (cases j)
    case 0
    then show ?thesis using low by (simp add: sum del: sum.lessThan_Suc)
  next
    case (Suc i)
    have "(d 0 + 2 ^ 64 * ?rest) div 2 ^ 64 = ?rest" using low by (subst div_mult_self2) simp_all
    moreover have "2 ^ (64 * j) = (2 ^ 64 * 2 ^ (64 * i) :: nat)" by (simp add: Suc power_add)
    ultimately show ?thesis
      using Suc.IH [of "\<lambda>k. d (Suc k)" i] Suc.prems Suc by (simp only: sum div_mult2_eq)  simp
  qed
qed simp

lemma word256_digit:
  assumes "k < 4"
  shows "unat (xs ! k ! r) = word256 xs r div 2 ^ (64 * k) mod 2 ^ 64"
  using limb_digit [of "\<lambda>k. unat (xs ! k ! r)" k 4] assms unsigned_less [where ?'b = 64 and ?'a = nat] by (simp add: word256_def)

lemma word256_low: "unat (xs ! 0 ! r) = word256 xs r mod 2 ^ 64"
  using word256_digit [of 0 xs r] by simp

section \<open>Accepted traces stay on instruction boundaries\<close>

text \<open>
  What the oracles leave to other checks: the rows carry the bytes of the code at their program counter (the bytecode
  lookup), jump rows have their selector set and go where the 256-bit values on the stack say.
\<close>

definition code_row :: "u8 list \<Rightarrow> evm_trace_columns \<Rightarrow> nat \<Rightarrow> bool" where
  "code_row bc cols r \<longleftrightarrow> unat (c_pc cols ! r) < length bc \<and> op_at cols r = bc ! unat (c_pc cols ! r)"

definition jump_moves :: "evm_trace_columns \<Rightarrow> nat \<Rightarrow> bool" where
  "jump_moves cols r \<longleftrightarrow>
     (op_at cols r \<in> {0x56, 0x57} \<longrightarrow> c_sel_jump cols ! r = 1 \<and>
        unat (c_pc cols ! (r + 1)) =
          (if op_at cols r = 0x56 \<or> word256 (c_input1 cols) r \<noteq> 0 then word256 (c_input0 cols) r
           else unat (c_pc cols ! r) + 1))"

text \<open>A branch that is taken because of a condition the jump oracle reads as zero.\<close>

definition hidden_branch :: "evm_trace_columns \<Rightarrow> nat \<Rightarrow> bool" where
  "hidden_branch cols r \<longleftrightarrow>
     op_at cols r = 0x57 \<and> word256 (c_input1 cols) r \<noteq> 0 \<and> c_input1 cols ! 0 ! r = 0"

lemma advance_start:
  assumes "instr_start bc (unat pc)" and "unat pc < length bc" and "length bc < 2 ^ 63"
  shows "instr_start bc (unat (pc + instruction_size (bc ! unat pc)))"
proof -
  have "unat (instruction_size (bc ! unat pc)) \<le> 33"
  proof (cases "0x60 \<le> bc ! unat pc \<and> bc ! unat pc \<le> 0x7F")
    case True
    then show ?thesis using push_count(3) push_range [of "bc ! unat pc"] by auto
  qed (simp add: instruction_size_other)
  then have "unat (pc + instruction_size (bc ! unat pc)) = unat pc + unat (instruction_size (bc ! unat pc))"
    using assms(2,3) by (intro unat_add_exact) simp
  with instr_start.advance [OF assms(1,2)] show ?thesis by simp
qed

lemma jump_start:
  assumes "jump_ok bc cols r" and "jump_moves cols r" and "\<not> hidden_branch cols r"
    and "op_at cols r = 0x56 \<or> op_at cols r = 0x57 \<and> word256 (c_input1 cols) r \<noteq> 0"
  shows "instr_start bc (unat (c_pc cols ! Suc r))"
proof -
  have target: "unat (c_pc cols ! Suc r) = word256 (c_input0 cols) r" and sel: "c_sel_jump cols ! r = 1"
    using assms(2,4) by (auto simp: jump_moves_def)
  have "word256 (c_input0 cols) r < 2 ^ 64" using unsigned_less [of "c_pc cols ! Suc r", where ?'a = nat] by (simp add: target)
  then have "unat (c_input0 cols ! 0 ! r) = unat (c_pc cols ! Suc r)" by (simp add: word256_low target)
  moreover have "op_at cols r = 0x56 \<or> op_at cols r = 0x57 \<and> c_input1 cols ! 0 ! r \<noteq> 0"
    using assms(3,4) by (auto simp: hidden_branch_def)
  ultimately have "is_valid_jumpdest bc (unat (c_pc cols ! Suc r))" using assms(1) sel by (simp add: jump_ok_def)
  then show ?thesis by (simp add: is_valid_jumpdest_target)
qed

lemma straight_start:
  assumes here: "instr_start bc (unat (c_pc cols ! r))" and bc: "length bc < 2 ^ 63" and row: "code_row bc cols r"
    and "pc_ok cols r" and move: "jump_moves cols r" and "\<not> control_op (op_at cols r)"
    and "\<not> (op_at cols r = 0x56 \<or> op_at cols r = 0x57 \<and> word256 (c_input1 cols) r \<noteq> 0)"
  shows "instr_start bc (unat (c_pc cols ! Suc r))"
proof -
  have at: "unat (c_pc cols ! r) < length bc" "bc ! unat (c_pc cols ! r) = op_at cols r"
    using row by (simp_all add: code_row_def)
  have "c_pc cols ! Suc r = c_pc cols ! r + instruction_size (op_at cols r)"
  proof (cases "op_at cols r = 0x57")
    case True
    with move assms(7) have "unat (c_pc cols ! Suc r) = unat (c_pc cols ! r) + 1" by (simp add: jump_moves_def)
    also have "\<dots> = unat (c_pc cols ! r + 1)" using at(1) bc by (subst unat_add_exact) simp_all
    finally have "c_pc cols ! Suc r = c_pc cols ! r + 1" by (simp add: word_unat_eq_iff)
    then show ?thesis using True by (simp add: instruction_size_def)
  next
    case False
    with assms(4,6,7) show ?thesis by (simp add: pc_ok_def)
  qed
  with advance_start [OF here at(1) bc, unfolded at(2)] show ?thesis by simp
qed

text \<open>
  C22. Take a trace accepted by the validation, with full columns and less than \<open>2 ^ 63\<close> bytes of code, that starts at
  position zero, and a row of it such that every earlier row carries the byte of the code at its program counter, is no
  call, creation or halting instruction (one frame), and, if it is a jump, has its selector set and goes where the
  256-bit target and condition on the stack say. Then the program counter of the row is the start of an instruction
  and does not point into the immediate bytes of a push, unless an earlier row is a \<open>JUMPI\<close> whose condition is not
  zero but has a zero low limb, which the jump oracle takes for a branch that is not taken.
\<close>

theorem validated_trace_on_boundaries:
  assumes wf: "cols_wf cols" and bc: "length bc < 2 ^ 63" and valid: "validate_evm_execution bc cols = Ok ()"
    and start: "c_pc cols ! 0 = 0" and r: "r < length (c_step cols)"
    and earlier: "\<forall>q < r. code_row bc cols q \<and> jump_moves cols q \<and> \<not> control_op (op_at cols q)"
  shows "instr_start bc (unat (c_pc cols ! r)) \<or> (\<exists>q < r. hidden_branch cols q)"
  using r earlier
proof (induction r)
  case 0
  then show ?case using start instr_start.start by simp
next
  case (Suc r)
  then have row: "code_row bc cols r" "jump_moves cols r" "\<not> control_op (op_at cols r)"
    and here: "instr_start bc (unat (c_pc cols ! r)) \<or> (\<exists>q < r. hidden_branch cols q)" by simp_all
  have checks: "jump_ok bc cols r" "pc_ok cols r"
    using validate_iff [OF wf, of bc] bc valid Suc.prems(1) by auto
  show ?case
  proof (cases "\<exists>q < Suc r. hidden_branch cols q")
    case False
    then have "instr_start bc (unat (c_pc cols ! r))" "\<not> hidden_branch cols r"
      using here by (auto simp: less_Suc_eq)
    then show ?thesis using jump_start straight_start row checks bc by blast
  qed blast
qed

text \<open>PUSH1 5; JUMP; PUSH1 with an immediate byte that looks like a destination; JUMPDEST; STOP.\<close>

definition jump_code :: "u8 list" where
  "jump_code = [0x60, 0x05, 0x56, 0x60, 0x5B, 0x5B, 0x00]"

definition four :: "u64 list \<Rightarrow> u64 list list" where
  "four xs = [xs, map (\<lambda>_. 0) xs, map (\<lambda>_. 0) xs, map (\<lambda>_. 0) xs]"

definition jump_trace :: evm_trace_columns where
  "jump_trace = \<lparr>c_step = [0, 1, 2, 3], c_pc = [0, 2, 5, 6], c_opcode = [0x60, 0x56, 0x5B, 0x00],
     c_gas_remaining = [100, 97, 89, 88], c_stack_depth = [0, 1, 0, 0], c_input0 = four [0, 5, 0, 0],
     c_input1 = four [0, 0, 0, 0], c_output0 = four [5, 0, 0, 0], c_funct = [0, 0, 0, 0],
     c_immediate = four [5, 0, 0, 0], c_sel_stop = [0, 0, 0, 1], c_sel_jump = [0, 1, 1, 0],
     c_sel_log = [0, 0, 0, 0], c_sel_call = [0, 0, 0, 0], c_frame_depth = [0, 0, 0, 0],
     c_frame_caller = four [0, 0, 0, 0], c_frame_callee = four [0, 0, 0, 0]\<rparr>"

lemma jump_code_positions: "valid_jumpdest_positions jump_code = [5]"
  by (simp add: jump_code_def valid_jumpdest_positions_def jumpdest_loop.simps opcode_defs Let_def)

lemma jump_code_targets: "is_valid_jumpdest jump_code t \<longleftrightarrow> t = 5"
  unfolding is_valid_jumpdest_def valid_jumpdest_bitmap_def jump_code_positions
  by (auto simp: jump_code_def nth_Cons' less_Suc_eq_le)

lemma jump_trace_wf: "cols_wf jump_trace"
  by (simp add: cols_wf_def limbs_wf_def jump_trace_def four_def)

lemma table_values:
  "static_gas_cost 0x60 = Some 3" "static_gas_cost 0x56 = Some 8" "static_gas_cost 0x5B = Some 1"
  "stack_delta 0x60 = Some (0, 1)" "stack_delta 0x56 = Some (1, 0)" "stack_delta 0x5B = Some (0, 0)"
  "stack_delta 0x15 = Some (2, 1)" "stack_delta 0x19 = Some (2, 1)"
  "stack_delta 0x08 = Some (2, 1)" "stack_delta 0x09 = Some (2, 1)"
  by (simp_all add: static_gas_cost_def stack_delta_def)

lemma jump_trace_conditions:
  "(\<forall>r < length (c_step jump_trace). jump_ok jump_code jump_trace r \<and> codesize_ok jump_code jump_trace r)
   \<and> (\<forall>r. r + 1 < length (c_step jump_trace) \<longrightarrow> gas_ok jump_trace r \<and> stack_ok jump_trace r \<and> pc_ok jump_trace r)"
proof -
  have "jump_ok jump_code jump_trace r \<and> codesize_ok jump_code jump_trace r" if "r \<in> {0, 1, 2, 3}" for r
    using that unfolding jump_ok_def jump_code_targets codesize_ok_def by (auto simp: jump_trace_def four_def)
  moreover have "gas_ok jump_trace r \<and> stack_ok jump_trace r \<and> pc_ok jump_trace r" if "r \<in> {0, 1, 2}" for r
    using that
    by (auto simp: gas_ok_def stack_ok_def pc_ok_def jump_trace_def table_values control_op_def
        instruction_size_def saturating_sub_def)
  moreover have "r < 4 \<longleftrightarrow> r \<in> {0, 1, 2, 3}" "r + 1 < 4 \<longleftrightarrow> r \<in> {0, 1, 2}" for r :: nat by auto
  moreover have "length (c_step jump_trace) = 4" by (simp add: jump_trace_def)
  ultimately show ?thesis by simp
qed

theorem validated_trace_on_boundaries_witness:
  "validate_evm_execution jump_code jump_trace = Ok () \<and> instr_start jump_code (unat (c_pc jump_trace ! 3))"
proof -
  have small: "length jump_code < 2 ^ 63" by (simp add: jump_code_def)
  then have valid: "validate_evm_execution jump_code jump_trace = Ok ()"
    using validate_iff [OF jump_trace_wf, of jump_code] jump_trace_conditions by simp
  have three: "q < 3 \<longleftrightarrow> q \<in> {0, 1, 2}" for q :: nat by auto
  have "code_row jump_code jump_trace q" if "q \<in> {0, 1, 2}" for q
    using that by (auto simp: code_row_def jump_code_def jump_trace_def)
  moreover have "jump_moves jump_trace q \<and> \<not> control_op (op_at jump_trace q)" if "q \<in> {0, 1, 2}" for q
    using that by (auto simp: jump_moves_def control_op_def jump_trace_def four_def word256_def four_limbs)
  ultimately have earlier:
    "\<forall>q < 3. code_row jump_code jump_trace q \<and> jump_moves jump_trace q \<and> \<not> control_op (op_at jump_trace q)"
    by (simp add: three)
  have "\<not> hidden_branch jump_trace q" if "q \<in> {0, 1, 2}" for q
    using that by (auto simp: hidden_branch_def jump_trace_def)
  then have "\<not> (\<exists>q < 3. hidden_branch jump_trace q)" using three by blast
  moreover have "c_pc jump_trace ! 0 = 0" "3 < length (c_step jump_trace)" by (simp_all add: jump_trace_def)
  ultimately show ?thesis using validated_trace_on_boundaries [OF jump_trace_wf small valid _ _ earlier] valid by blast
qed

section \<open>What the oracles miss\<close>

text \<open>
  The exception is real: PUSH9 \<open>2 ^ 64\<close>; PUSH1 14; JUMPI; PUSH1 0. The branch is taken into the immediate byte of the
  last push, and the validation accepts the trace.
\<close>

definition escape_code :: "u8 list" where
  "escape_code = [0x68, 1, 0, 0, 0, 0, 0, 0, 0, 0, 0x60, 14, 0x57, 0x60, 0x00]"

definition escape_trace :: evm_trace_columns where
  "escape_trace = jump_trace\<lparr>c_pc := [0, 10, 12, 14], c_opcode := [0x68, 0x60, 0x57, 0x00],
     c_gas_remaining := [100, 97, 94, 84], c_stack_depth := [0, 1, 2, 0], c_input0 := four [0, 0, 14, 0],
     c_input1 := [[0, 0, 0, 0], [0, 0, 1, 0], [0, 0, 0, 0], [0, 0, 0, 0]], c_sel_jump := [0, 0, 1, 0]\<rparr>"

lemma escape_tables:
  "static_gas_cost 0x68 = Some 3" "static_gas_cost 0x57 = Some 10"
  "stack_delta 0x68 = Some (0, 1)" "stack_delta 0x57 = Some (2, 0)"
  by (simp_all add: static_gas_cost_def stack_delta_def)

lemma escape_starts: "instr_start escape_code p \<Longrightarrow> p \<in> {0, 10, 12, 13, 15}"
  by (induction rule: instr_start.induct) (auto simp: escape_code_def instruction_size_def)

lemma hidden_branch_escapes:
  "validate_evm_execution escape_code escape_trace = Ok ()
   \<and> (\<forall>q < 4. code_row escape_code escape_trace q) \<and> (\<forall>q < 3. jump_moves escape_trace q)
   \<and> hidden_branch escape_trace 2 \<and> \<not> instr_start escape_code (unat (c_pc escape_trace ! 3))"
proof -
  have four: "q < 4 \<longleftrightarrow> q \<in> {0, 1, 2, 3}" and three: "q < 3 \<longleftrightarrow> q \<in> {0, 1, 2}" for q :: nat by auto
  have n: "length (c_step escape_trace) = 4" by (simp add: escape_trace_def jump_trace_def)
  have "cols_wf escape_trace" by (simp add: cols_wf_def limbs_wf_def escape_trace_def jump_trace_def four_def)
  moreover have "jump_ok escape_code escape_trace q \<and> codesize_ok escape_code escape_trace q" if "q \<in> {0, 1, 2, 3}" for q
    using that by (auto simp: jump_ok_def codesize_ok_def escape_trace_def four_def)
  moreover have "gas_ok escape_trace q \<and> stack_ok escape_trace q \<and> pc_ok escape_trace q" if "q \<in> {0, 1, 2}" for q
    using that by (auto simp: gas_ok_def stack_ok_def pc_ok_def escape_trace_def jump_trace_def table_values escape_tables
        control_op_def instruction_size_def saturating_sub_def)
  ultimately have "validate_evm_execution escape_code escape_trace = Ok ()"
    using validate_iff [of escape_trace escape_code] by (simp add: n four three escape_code_def)
  moreover have "code_row escape_code escape_trace q" if "q \<in> {0, 1, 2, 3}" for q
    using that by (auto simp: code_row_def escape_code_def escape_trace_def)
  moreover have "jump_moves escape_trace q" if "q \<in> {0, 1, 2}" for q
    using that by (auto simp: jump_moves_def escape_trace_def four_def word256_def four_limbs)
  moreover have "hidden_branch escape_trace 2"
    by (simp add: hidden_branch_def escape_trace_def word256_def four_limbs)
  moreover have "unat (c_pc escape_trace ! 3) = 14" by (simp add: escape_trace_def)
  then have "\<not> instr_start escape_code (unat (c_pc escape_trace ! 3))" using escape_starts by fastforce
  ultimately show ?thesis by (simp add: four three)
qed

text \<open>
  The jump oracle reads only the low limbs: changing any higher limb of a target or of a condition does not change its
  answer, so a branch whose 256-bit condition is not zero but has a zero low limb is not checked.
\<close>

theorem jump_check_reads_low_limbs:
  assumes "0 < k" and "0 < j"
  shows "verify_jump_targets bc (cols\<lparr>c_input0 := (c_input0 cols)[k := v], c_input1 := (c_input1 cols)[j := w]\<rparr>) =
    verify_jump_targets bc cols"
proof -
  have "jump_row valid (cols\<lparr>c_input0 := (c_input0 cols)[k := v], c_input1 := (c_input1 cols)[j := w]\<rparr>) = jump_row valid cols"
    for valid by (rule ext) (use assms in \<open>simp add: jump_row_def Let_def cong: if_cong\<close>)
  then show ?thesis by (simp add: verify_jump_targets_def)
qed

theorem jump_check_reads_low_limbs_witness:
  "verify_jump_targets jump_code (jump_trace\<lparr>c_input0 := (c_input0 jump_trace)[1 := [0, 7, 0, 0]],
      c_input1 := (c_input1 jump_trace)[3 := [0, 1, 0, 0]]\<rparr>) = verify_jump_targets jump_code jump_trace"
  by (rule jump_check_reads_low_limbs) simp_all

text \<open>
  C38. The stack oracle rejects honest rows: \<open>ISZERO\<close> and \<open>NOT\<close> keep the depth and \<open>ADDMOD\<close> and \<open>MULMOD\<close> lower it by two, but the
  table gives all four two pops and one push, so a trace with such a row fails the validation.
\<close>

theorem stack_oracle_rejects_honest:
  assumes "cols_wf cols" and "r + 1 < length (c_step cols)" and "length bc \<le> 2 ^ 64"
    and "op_at cols r \<in> {0x15, 0x19} \<and> c_stack_depth cols ! (r + 1) = c_stack_depth cols ! r
      \<or> op_at cols r \<in> {0x08, 0x09} \<and> c_stack_depth cols ! (r + 1) = c_stack_depth cols ! r - 2"
  shows "verify_stack_depth_consistency cols \<noteq> Ok () \<and> validate_evm_execution bc cols \<noteq> Ok ()"
proof -
  have "stack_delta (op_at cols r) = Some (2, 1)" "op_at cols r \<noteq> 0" "op_at cols r < 0xF0"
    using assms(4) by (auto simp: table_values)
  moreover have "d \<noteq> d - 2 + 1" "d - 2 \<noteq> d - 2 + 1" for d :: u64
    by simp_all
  ultimately have bad: "\<not> stack_ok cols r" using assms(4) by (auto simp: stack_ok_def)
  then have "verify_stack_depth_consistency cols \<noteq> Ok ()"
    using stack_row_Ok [OF assms(1,2)] assms(2) by (auto simp: verify_stack_depth_consistency_def for_each_Ok)
  moreover have "validate_evm_execution bc cols \<noteq> Ok ()"
  proof
    assume "validate_evm_execution bc cols = Ok ()"
    then have "stack_ok cols r" using validate_iff [OF assms(1,3)] assms(2) by simp
    with bad show False ..
  qed
  ultimately show ?thesis ..
qed

text \<open>PUSH1 0; ISZERO; STOP.\<close>

definition iszero_trace :: evm_trace_columns where
  "iszero_trace = jump_trace\<lparr>c_step := [0, 1, 2], c_pc := [0, 2, 3], c_opcode := [0x60, 0x15, 0x00],
     c_gas_remaining := [100, 97, 94], c_stack_depth := [0, 1, 1], c_input0 := four [0, 0, 0],
     c_input1 := four [0, 0, 0], c_output0 := four [0, 1, 0], c_funct := [0, 0, 0],
     c_immediate := four [0, 0, 0], c_sel_stop := [0, 0, 1], c_sel_jump := [0, 0, 0],
     c_sel_log := [0, 0, 0], c_sel_call := [0, 0, 0], c_frame_depth := [0, 0, 0],
     c_frame_caller := four [0, 0, 0], c_frame_callee := four [0, 0, 0]\<rparr>"

theorem stack_oracle_rejects_honest_witness:
  "verify_stack_depth_consistency iszero_trace \<noteq> Ok () \<and> validate_evm_execution [0x60, 0, 0x15, 0] iszero_trace \<noteq> Ok ()"
  by (rule stack_oracle_rejects_honest [of _ 1])
    (simp_all add: iszero_trace_def cols_wf_def limbs_wf_def four_def jump_trace_def)

section \<open>Call data\<close>

lemma unat_u64_from_be_bytes: "length bs \<le> 8 \<Longrightarrow> unat (u64_from_be_bytes bs) = be_nat bs"
  using unat_from_le_bytes [of "rev bs"] by (simp add: u64_from_be_bytes_def)

text \<open>
  The value the instruction has in the Ethereum specification, and the one the oracle computes, whose positions are
  taken modulo \<open>2 ^ 64\<close>.
\<close>

definition evm_load :: "u8 list \<Rightarrow> nat \<Rightarrow> nat" where
  "evm_load cd off = be_nat (map (\<lambda>i. if off + i < length cd then cd ! (off + i) else 0) [0..<32])"

definition wrapped_load :: "u8 list \<Rightarrow> nat \<Rightarrow> nat" where
  "wrapped_load cd off =
     be_nat (map (\<lambda>i. let p = (off + i) mod 2 ^ 64 in if p < length cd then cd ! p else 0) [0..<32])"

lemma wrapped_load_word: "wrapped_load cd (word256 xs r) = be_nat (calldata_word cd (xs ! 0 ! r))"
proof -
  have "usize_add (unat (xs ! 0 ! r)) i = (word256 xs r + i) mod 2 ^ 64" for i
    by (simp only: usize_add_def word256_low mod_add_left_eq)
  then show ?thesis by (simp only: wrapped_load_def calldata_word_def Let_def)
qed

lemma wrapped_load_exact: "off + 31 < 2 ^ 64 \<Longrightarrow> wrapped_load cd off = evm_load cd off"
  unfolding wrapped_load_def evm_load_def by (rule arg_cong [where f = be_nat]) (simp add: Let_def)

lemma wrapped_load_mod: "wrapped_load cd (off mod 2 ^ 64) = wrapped_load cd off"
  unfolding wrapped_load_def mod_add_left_eq by (rule refl)

lemma evm_load_outside: "length cd \<le> off \<Longrightarrow> evm_load cd off = 0"
  using be_nat_zeros [of 32] by (simp add: evm_load_def map_replicate_const)

lemma calldataload_row_Ok:
  assumes "cols_wf cols" and "r < length (c_step cols)"
  shows "calldataload_row cd cols r = Ok () \<longleftrightarrow> (c_opcode cols ! r = 0x35 \<longrightarrow> (\<forall>k < 4. c_output0 cols ! k ! r =
    u64_from_be_bytes (take 8 (drop (24 - 8 * k) (calldata_word cd (c_input0 cols ! 0 ! r))))))"
proof -
  have "(\<forall>k < 4. P k) \<longleftrightarrow> P 0 \<and> P 1 \<and> P 2 \<and> P 3" for P :: "nat \<Rightarrow> bool"
    using four_limbs by (metis insertE insertI1 insertI2 lessThan_iff empty_iff)
  with assms show ?thesis by (simp add: calldataload_row_def Let_def wf_col)
qed

lemma limb_less: "be_nat (take 8 bs) < 2 ^ 64"
  using be_nat_less [of "take 8 bs"] power_increasing [of "length (take 8 bs)" 8 "256 :: nat"] by simp

lemma be_nat_limbs:
  assumes "length w = 32"
  shows "be_nat w = (\<Sum>k<4. be_nat (take 8 (drop (24 - 8 * k) w)) * 2 ^ (64 * k))"
proof -
  have "w = take 8 w @ take 8 (drop 8 w) @ take 8 (drop 16 w) @ take 8 (drop 24 w)"
    using assms append_take_drop_id [of 8 w] append_take_drop_id [of 8 "drop 8 w"]
      append_take_drop_id [of 8 "drop 16 w"] by simp
  then have "be_nat w = be_nat (take 8 w @ take 8 (drop 8 w) @ take 8 (drop 16 w) @ take 8 (drop 24 w))" by simp
  also have "\<dots> = (\<Sum>k<4. be_nat (take 8 (drop (24 - 8 * k) w)) * 2 ^ (64 * k))"
    using assms by (simp add: be_nat_append four_limbs)
  finally show ?thesis .
qed

lemma word256_bytes:
  assumes "length w = 32"
  shows "word256 xs r = be_nat w \<longleftrightarrow> (\<forall>k < 4. xs ! k ! r = u64_from_be_bytes (take 8 (drop (24 - 8 * k) w)))"
proof
  let ?d = "\<lambda>k. be_nat (take 8 (drop (24 - 8 * k) w))"
  assume e: "word256 xs r = be_nat w"
  show "\<forall>k < 4. xs ! k ! r = u64_from_be_bytes (take 8 (drop (24 - 8 * k) w))"
  proof (intro allI impI)
    fix k :: nat assume k: "k < 4"
    have "unat (xs ! k ! r) = be_nat w div 2 ^ (64 * k) mod 2 ^ 64" using word256_digit [OF k] by (simp add: e)
    also have "\<dots> = ?d k"
      unfolding be_nat_limbs [OF assms] using k limb_less by (intro limb_digit) blast+
    finally show "xs ! k ! r = u64_from_be_bytes (take 8 (drop (24 - 8 * k) w))"
      by (simp add: word_unat_eq_iff unat_u64_from_be_bytes)
  qed
next
  assume "\<forall>k < 4. xs ! k ! r = u64_from_be_bytes (take 8 (drop (24 - 8 * k) w))"
  then show "word256 xs r = be_nat w"
    unfolding word256_def be_nat_limbs [OF assms] by (intro sum.cong) (simp_all add: unat_u64_from_be_bytes)
qed

text \<open>
  C37. On a trace with full columns the call data oracle, in a build where the addition of positions wraps, accepts
  exactly if in every \<open>CALLDATALOAD\<close> row the 256-bit output is the big-endian value of the 32 bytes at the 256-bit
  offset of the row, where every position is taken modulo \<open>2 ^ 64\<close> and bytes outside the call data are zero. For
  offsets up to \<open>2 ^ 64 - 32\<close> this is the value of the Ethereum specification. It is not beyond: the higher limbs of an
  offset are ignored, so an offset of \<open>2 ^ 64\<close> or more is given the word at its low limb where the specification has
  zero.
\<close>

theorem calldataload_binds_word:
  assumes "cols_wf cols" and "length cd < 2 ^ 64"
  shows "(verify_calldataload_results cd cols = Ok () \<longleftrightarrow>
      (\<forall>r < length (c_step cols). c_opcode cols ! r = 0x35 \<longrightarrow>
        word256 (c_output0 cols) r = wrapped_load cd (word256 (c_input0 cols) r)))
    \<and> (\<forall>off. off + 31 < 2 ^ 64 \<longrightarrow> wrapped_load cd off = evm_load cd off)
    \<and> (\<forall>off \<ge> 2 ^ 64. wrapped_load cd off = wrapped_load cd (off mod 2 ^ 64) \<and> evm_load cd off = 0)"
proof (intro conjI allI impI)
  have "word256 (c_output0 cols) r = wrapped_load cd (word256 (c_input0 cols) r) \<longleftrightarrow>
    (\<forall>k < 4. c_output0 cols ! k ! r =
      u64_from_be_bytes (take 8 (drop (24 - 8 * k) (calldata_word cd (c_input0 cols ! 0 ! r)))))" for r
    unfolding wrapped_load_word by (rule word256_bytes) (simp add: calldata_word_def)
  then show "verify_calldataload_results cd cols = Ok () \<longleftrightarrow>
      (\<forall>r < length (c_step cols). c_opcode cols ! r = 0x35 \<longrightarrow>
        word256 (c_output0 cols) r = wrapped_load cd (word256 (c_input0 cols) r))"
    using calldataload_row_Ok [OF assms(1)] by (auto simp: verify_calldataload_results_def for_each_Ok)
  show "wrapped_load cd off = evm_load cd off" if "off + 31 < 2 ^ 64" for off
    using that by (rule wrapped_load_exact)
  show "wrapped_load cd off = wrapped_load cd (off mod 2 ^ 64)" for off by (rule wrapped_load_mod [symmetric])
  show "evm_load cd off = 0" if "2 ^ 64 \<le> off" for off using assms(2) that by (intro evm_load_outside) simp
qed

text \<open>Two \<open>CALLDATALOAD\<close> rows on two bytes of call data, at offset one and at offset \<open>2 ^ 128 + 1\<close>.\<close>

definition load_trace :: evm_trace_columns where
  "load_trace = iszero_trace\<lparr>c_step := [0, 1], c_pc := [0, 1], c_opcode := [0x35, 0x35],
     c_gas_remaining := [100, 97], c_stack_depth := [1, 1], c_input0 := [[1, 1], [0, 0], [0, 1], [0, 0]],
     c_input1 := four [0, 0], c_output0 := [[0, 0], [0, 0], [0, 0], [0xBB00000000000000, 0xBB00000000000000]],
     c_funct := [0, 0], c_immediate := four [0, 0], c_sel_stop := [0, 0], c_sel_jump := [0, 0],
     c_sel_log := [0, 0], c_sel_call := [0, 0], c_frame_depth := [0, 0],
     c_frame_caller := four [0, 0], c_frame_callee := four [0, 0]\<rparr>"

lemma load_word: "calldata_word [0xAA, 0xBB] 1 = 0xBB # replicate 31 0"
  by (intro nth_equalityI) (auto simp: calldata_word_def usize_add_exact nth_Cons')

lemma load_trace_accepted: "verify_calldataload_results [0xAA, 0xBB] load_trace = Ok ()"
proof -
  have "u64_from_be_bytes (replicate 8 0) = 0" "u64_from_be_bytes (0xBB # replicate 7 0) = 0xBB00000000000000"
    by (simp_all add: word_unat_eq_iff unat_u64_from_be_bytes be_nat_zeros be_nat_Cons)
  then have "calldataload_row [0xAA, 0xBB] load_trace r = Ok ()" if "r \<in> {0, 1}" for r
    using that by (auto simp: calldataload_row_def Let_def load_trace_def four_def load_word drop_Cons' take_Cons')
  moreover have "set [0..<length (c_step load_trace)] = {0, 1}" by (auto simp: load_trace_def)
  ultimately show ?thesis by (simp only: verify_calldataload_results_def for_each_Ok) blast
qed

theorem calldataload_binds_word_witness:
  "word256 (c_output0 load_trace) 0 = evm_load [0xAA, 0xBB] 1 \<and>
   word256 (c_output0 load_trace) 1 = wrapped_load [0xAA, 0xBB] (2 ^ 128 + 1) \<and> evm_load [0xAA, 0xBB] (2 ^ 128 + 1) = 0"
proof -
  have wf: "cols_wf load_trace" by (simp add: load_trace_def cols_wf_def limbs_wf_def four_def)
  have small: "length [0xAA, 0xBB :: u8] < 2 ^ 64" by simp
  have offs: "word256 (c_input0 load_trace) 0 = 1" "word256 (c_input0 load_trace) 1 = 2 ^ 128 + 1"
    and rows: "length (c_step load_trace) = 2" "c_opcode load_trace ! 0 = 0x35" "c_opcode load_trace ! 1 = 0x35"
    by (simp_all add: load_trace_def word256_def four_limbs)
  note load = calldataload_binds_word [OF wf small]
  have "word256 (c_output0 load_trace) r = wrapped_load [0xAA, 0xBB] (word256 (c_input0 load_trace) r)"
    if "r = 0 \<or> r = 1" for r
    using load load_trace_accepted rows that by auto
  then have "word256 (c_output0 load_trace) 0 = wrapped_load [0xAA, 0xBB] 1"
    "word256 (c_output0 load_trace) 1 = wrapped_load [0xAA, 0xBB] (2 ^ 128 + 1)"
    using offs by metis+
  moreover have "wrapped_load [0xAA, 0xBB] 1 = evm_load [0xAA, 0xBB] 1" using load by simp
  moreover have "evm_load [0xAA, 0xBB] (2 ^ 128 + 1) = 0" using load by simp
  ultimately show ?thesis by metis
qed

end
