(* ===== verification/Zkp_Lookup_Sound.thy ===== *)
theory Zkp_Lookup_Sound
  imports Zkp_Lookup
begin

text \<open>
  What the range checks establish. The verifier's value vanishes in a row for all challenges exactly if the row
  conditions \<open>logup_row_ok\<close> hold. With limbs and multiplicities fixed before the challenge, acceptance for enough
  challenges bounds every active value. The code commits them after the challenge: then every value, in range
  or not, can be given columns that are accepted.
\<close>

section \<open>Layouts\<close>

definition limb_start :: "logup_group list \<Rightarrow> nat \<Rightarrow> nat" where
  "limb_start groups g = sum_list (map lg_num_limbs (take g groups))"

lemma limb_offsets_eq:
  "limb_offsets off groups =
     (map (\<lambda>g. (off + limb_start groups g, lg_num_limbs (groups ! g))) [0..<length groups], off + total_num_limbs groups)"
proof (induction groups arbitrary: off)
  case (Cons grp groups)
  have "[0..<length (grp # groups)] = 0 # map Suc [0..<length groups]" by (simp add: map_Suc_upt upt_conv_Cons del: upt_Suc)
  with Cons show ?case by (simp add: limb_start_def total_num_limbs_def o_def add.assoc)
qed (simp add: total_num_limbs_def)

lemma extended_layout [simp]:
  "xl_limb_offsets (extended_logup_column_layout groups) =
     map (\<lambda>g. (limb_start groups g, lg_num_limbs (groups ! g))) [0..<length groups]"
  "xl_f_offsets (extended_logup_column_layout groups) =
     map (\<lambda>g. (total_num_limbs groups + limb_start groups g, lg_num_limbs (groups ! g))) [0..<length groups]"
  "xl_t_column (extended_logup_column_layout groups) = 2 * total_num_limbs groups"
  "xl_u_t_column (extended_logup_column_layout groups) = 2 * total_num_limbs groups + 1"
  "xl_h_column (extended_logup_column_layout groups) = 2 * total_num_limbs groups + 2"
  "xl_m_column (extended_logup_column_layout groups) = 2 * total_num_limbs groups + 3"
  "xl_num_columns (extended_logup_column_layout groups) = 2 * total_num_limbs groups + 4"
  by (simp_all add: extended_logup_column_layout_def limb_offsets_eq)

lemma limb_index_less:
  assumes "g < length groups" and "k < lg_num_limbs (groups ! g)"
  shows "limb_start groups g + k < total_num_limbs groups"
proof -
  have "groups = take g groups @ groups ! g # drop (Suc g) groups" using assms(1) by (rule id_take_nth_drop)
  then have "total_num_limbs groups =
      limb_start groups g + lg_num_limbs (groups ! g) + total_num_limbs (drop (Suc g) groups)"
    unfolding total_num_limbs_def limb_start_def
    by (metis append.assoc list.simps(9) map_append sum_list.Cons sum_list_append add.assoc)
  with assms(2) show ?thesis by simp
qed

section \<open>Row conditions\<close>

definition act :: "'a::field list list \<Rightarrow> logup_group \<Rightarrow> nat \<Rightarrow> 'a" where
  "act forms grp i = (if lg_selectors grp = [] then 1 else \<Sum>sel\<leftarrow>lg_selectors grp. forms ! sel ! i)"

definition recompose :: "(nat \<Rightarrow> 'a::field) \<Rightarrow> nat \<Rightarrow> 'a" where
  "recompose b n = (\<Sum>k<n. b k * 256 ^ k)"

text \<open>The conditions over the columns as functions: limbs \<open>L\<close>, inverses \<open>F\<close>, table \<open>t\<close>, its inverses \<open>u\<close>, sum \<open>h\<close> and multiplicities \<open>m\<close>.\<close>

definition logup_row_ok ::
  "'a::field list list \<Rightarrow> logup_group list \<Rightarrow> (nat \<Rightarrow> nat \<Rightarrow> nat \<Rightarrow> 'a) \<Rightarrow> (nat \<Rightarrow> nat \<Rightarrow> nat \<Rightarrow> 'a) \<Rightarrow> (nat \<Rightarrow> 'a) \<Rightarrow> (nat \<Rightarrow> 'a)
   \<Rightarrow> (nat \<Rightarrow> 'a) \<Rightarrow> (nat \<Rightarrow> 'a) \<Rightarrow> 'a \<Rightarrow> nat \<Rightarrow> nat \<Rightarrow> bool" where
  "logup_row_ok forms groups L F t u h m gamma n i \<longleftrightarrow>
     (\<forall>g < length groups. act forms (groups ! g) i = 0
        \<or> forms ! lg_column_index (groups ! g) ! i = recompose (\<lambda>k. L g k i) (lg_num_limbs (groups ! g)))
     \<and> (i = 0 \<longrightarrow> h i = 0)
     \<and> (\<forall>g < length groups. \<forall>k < lg_num_limbs (groups ! g). F g k i * (gamma - L g k i) = 1)
     \<and> u i * (gamma - t i) = 1
     \<and> h (Suc i mod n) - h i - (\<Sum>g<length groups. act forms (groups ! g) i * (\<Sum>k<lg_num_limbs (groups ! g). F g k i)) + m i * u i = 0"

definition groups_wf :: "'a list list \<Rightarrow> logup_group list \<Rightarrow> bool" where
  "groups_wf forms groups \<longleftrightarrow>
     list_all (\<lambda>grp. lg_column_index grp < length forms \<and> list_all (\<lambda>sel. sel < length forms) (lg_selectors grp)) groups"

abbreviation limb_at :: "'a list list \<Rightarrow> logup_group list \<Rightarrow> nat \<Rightarrow> nat \<Rightarrow> nat \<Rightarrow> 'a" where
  "limb_at cols groups g k i \<equiv> cols ! (limb_start groups g + k) ! i"

abbreviation inv_at :: "'a list list \<Rightarrow> logup_group list \<Rightarrow> nat \<Rightarrow> nat \<Rightarrow> nat \<Rightarrow> 'a" where
  "inv_at cols groups g k i \<equiv> cols ! (total_num_limbs groups + limb_start groups g + k) ! i"

abbreviation tail_at :: "'a list list \<Rightarrow> logup_group list \<Rightarrow> nat \<Rightarrow> nat \<Rightarrow> 'a" where
  "tail_at cols groups j i \<equiv> cols ! (2 * total_num_limbs groups + j) ! i"

definition logup_cols_ok :: "'a::field list list \<Rightarrow> 'a list list \<Rightarrow> logup_group list \<Rightarrow> 'a \<Rightarrow> nat \<Rightarrow> nat \<Rightarrow> bool" where
  "logup_cols_ok forms cols groups gamma n i =
     logup_row_ok forms groups (limb_at cols groups) (inv_at cols groups) (tail_at cols groups 0) (tail_at cols groups 1)
       (tail_at cols groups 2) (tail_at cols groups 3) gamma n i"

text \<open>
  The table column is the canonical one, which the verifier checks with its own evaluation, and the value
  vanishes in every row of the domain.
\<close>

definition logup_accepts ::
  "'a::field list list \<Rightarrow> 'a list list \<Rightarrow> logup_group list \<Rightarrow> 'a \<Rightarrow> 'a \<Rightarrow> nat \<Rightarrow> 'a set \<Rightarrow> nat \<Rightarrow> bool" where
  "logup_accepts forms cols groups gamma omega n A off \<longleftrightarrow>
     cols ! xl_t_column (extended_logup_column_layout groups) = range_table_column n
     \<and> (\<forall>i<n. \<forall>alpha\<in>A.
          logup_at_point groups (row_of cols i) [cols ! xl_h_column (extended_logup_column_layout groups) ! (Suc i mod n)]
            (row_of forms i) gamma (omega ^ i) alpha off (of_nat n) = 0)"

lemma scalar_256: "scalar_from_u64 256 = (256 :: 'a::field)"
  by (simp add: scalar_from_u64_def)

lemma fold_add_sum: "fold (\<lambda>x s. s + f x) xs (a :: 'a::field) = a + (\<Sum>x\<leftarrow>xs. f x)"
  by (induction xs arbitrary: a) (simp_all add: add.assoc)

lemma fold_recompose:
  "fold (\<lambda>limb (r, p). (r + limb * p, p * (256 :: 'a::field))) (map f [0..<n]) (0, 1) = (recompose f n, 256 ^ n)"
  by (induction n) (simp_all add: recompose_def)

lemma decomposition_eq:
  "evaluate_decomposition_at_point v (map f [0..<n]) sel =
     (case sel of Some s \<Rightarrow> s | None \<Rightarrow> 1) * (v - recompose f n)"
  unfolding evaluate_decomposition_at_point_def scalar_256 fold_recompose by (simp split: option.split)

lemma selector_sum_act:
  assumes "list_all (\<lambda>sel. sel < length forms) (lg_selectors grp)" and "lg_selectors grp \<noteq> []"
  shows "selector_sum (row_of forms i) grp = act forms grp i"
proof -
  have "selector_sum (row_of forms i) grp = (\<Sum>sel\<leftarrow>lg_selectors grp. row_of forms i ! sel)"
    by (simp add: selector_sum_def fold_add_sum)
  also have "map ((!) (row_of forms i)) (lg_selectors grp) = map (\<lambda>sel. forms ! sel ! i) (lg_selectors grp)"
    using assms(1) by (auto simp: list_all_iff row_of_def)
  finally show ?thesis using assms(2) by (simp add: act_def)
qed

lemma fold_transition:
  "fold (\<lambda>(active, fs) lhs. let s = fold (\<lambda>f s. s + f) fs 0 in lhs - active * s) xs (a :: 'a::field) =
     a - (\<Sum>(active, fs)\<leftarrow>xs. active * sum_list fs)"
proof (induction xs arbitrary: a)
  case (Cons x xs)
  have "fold (\<lambda>f s. s + f) fs (b :: 'a) = b + sum_list fs" for fs b
    by (induction fs arbitrary: b) (simp_all add: add.assoc)
  with Cons show ?case by (cases x) (simp only: fold_simps Let_def prod.case list.map sum_list.Cons, simp)
qed simp

lemma sum_list_upt: "(\<Sum>g\<leftarrow>[0..<n]. f g) = (\<Sum>g<n. f g)"
  by (simp add: interv_sum_list_conv_sum_set_nat atLeast0LessThan)

lemma zip_upt: "zip groups (map f [0..<length groups]) = map (\<lambda>g. (groups ! g, f g)) [0..<length groups]"
  by (rule nth_equalityI) simp_all

lemma zip_same: "zip (map f xs) (map g xs) = map (\<lambda>x. (f x, g x)) xs"
  by (induction xs) simp_all

text \<open>The evaluations of a row, group by group.\<close>

lemma row_limbs:
  fixes cols :: "'a::field list list"
  assumes "length cols = 2 * total_num_limbs groups + 4" and "g < length groups"
  shows "map (\<lambda>k. row_of cols i ! (limb_start groups g + k)) [0..<lg_num_limbs (groups ! g)] =
      map (\<lambda>k. limb_at cols groups g k i) [0..<lg_num_limbs (groups ! g)]"
    and "map (\<lambda>k. row_of cols i ! (total_num_limbs groups + limb_start groups g + k)) [0..<lg_num_limbs (groups ! g)] =
      map (\<lambda>k. inv_at cols groups g k i) [0..<lg_num_limbs (groups ! g)]"
    and "map (\<lambda>l. evaluate_inverse_at_point (row_of cols i ! (total_num_limbs groups + limb_start groups g + l))
        (row_of cols i ! (limb_start groups g + l)) gamma) [0..<lg_num_limbs (groups ! g)] =
      map (\<lambda>k. inv_at cols groups g k i * (gamma - limb_at cols groups g k i) - 1) [0..<lg_num_limbs (groups ! g)]"
proof -
  have "row_of cols i ! (limb_start groups g + k) = limb_at cols groups g k i"
    "row_of cols i ! (total_num_limbs groups + limb_start groups g + k) = inv_at cols groups g k i"
    if "k < lg_num_limbs (groups ! g)" for k
    using limb_index_less [OF assms(2) that] assms(1) by (simp_all add: row_of_def)
  then show "map (\<lambda>k. row_of cols i ! (limb_start groups g + k)) [0..<lg_num_limbs (groups ! g)] =
      map (\<lambda>k. limb_at cols groups g k i) [0..<lg_num_limbs (groups ! g)]"
    and "map (\<lambda>k. row_of cols i ! (total_num_limbs groups + limb_start groups g + k)) [0..<lg_num_limbs (groups ! g)] =
      map (\<lambda>k. inv_at cols groups g k i) [0..<lg_num_limbs (groups ! g)]"
    and "map (\<lambda>l. evaluate_inverse_at_point (row_of cols i ! (total_num_limbs groups + limb_start groups g + l))
        (row_of cols i ! (limb_start groups g + l)) gamma) [0..<lg_num_limbs (groups ! g)] =
      map (\<lambda>k. inv_at cols groups g k i * (gamma - limb_at cols groups g k i) - 1) [0..<lg_num_limbs (groups ! g)]"
    by (simp_all add: evaluate_inverse_at_point_def)
qed

lemma row_selector:
  assumes "groups_wf forms groups" and "g < length groups"
  shows "(if lg_selectors (groups ! g) = [] then 1 else selector_sum (row_of forms i) (groups ! g)) = act forms (groups ! g) i"
    and "row_of forms i ! lg_column_index (groups ! g) = forms ! lg_column_index (groups ! g) ! i"
  using assms selector_sum_act [of forms "groups ! g" i] by (simp_all add: groups_wf_def list_all_length act_def row_of_def)

lemma row_decomposition:
  fixes cols :: "'a::field list list"
  assumes "length cols = 2 * total_num_limbs groups + 4" and "groups_wf forms groups" and "g < length groups"
  shows "evaluate_decomposition_at_point (row_of forms i ! lg_column_index (groups ! g))
        (map (\<lambda>l. row_of cols i ! (limb_start groups g + l)) [0..<lg_num_limbs (groups ! g)])
        (if lg_selectors (groups ! g) \<noteq> [] then Some (selector_sum (row_of forms i) (groups ! g)) else None) =
      act forms (groups ! g) i *
        (forms ! lg_column_index (groups ! g) ! i - recompose (\<lambda>k. limb_at cols groups g k i) (lg_num_limbs (groups ! g)))"
  unfolding row_limbs(1) [OF assms(1,3)] row_selector(2) [OF assms(2,3)] decomposition_eq
    row_selector(1) [OF assms(2,3), symmetric] by simp

text \<open>The bodies of a row of the domain, over the columns.\<close>

lemma logup_bodies_row:
  fixes forms cols :: "'a::field list list"
  assumes dom: "root_domain omega n" and i: "i < n" and wf: "groups_wf forms groups"
    and len: "length cols = xl_num_columns (extended_logup_column_layout groups)"
  shows "logup_bodies groups (row_of cols i) [cols ! xl_h_column (extended_logup_column_layout groups) ! (Suc i mod n)]
      (row_of forms i) gamma (omega ^ i) (of_nat n) =
    map (\<lambda>g. act forms (groups ! g) i *
        (forms ! lg_column_index (groups ! g) ! i - recompose (\<lambda>k. limb_at cols groups g k i) (lg_num_limbs (groups ! g))))
      [0..<length groups]
    @ [if i = 0 then tail_at cols groups 2 i else 0]
    @ concat (map (\<lambda>g. map (\<lambda>k. inv_at cols groups g k i * (gamma - limb_at cols groups g k i) - 1)
        [0..<lg_num_limbs (groups ! g)]) [0..<length groups])
    @ [tail_at cols groups 1 i * (gamma - tail_at cols groups 0 i) - 1]
    @ [tail_at cols groups 2 (Suc i mod n) - tail_at cols groups 2 i
        - (\<Sum>g<length groups. act forms (groups ! g) i * (\<Sum>k<lg_num_limbs (groups ! g). inv_at cols groups g k i))
        + tail_at cols groups 3 i * tail_at cols groups 1 i]"
proof -
  let ?T = "total_num_limbs groups"
  have len': "length cols = 2 * ?T + 4" using len by simp
  have trans: "(\<Sum>g\<leftarrow>[0..<length groups]. (if lg_selectors (groups ! g) = [] then 1 else selector_sum (row_of forms i) (groups ! g)) *
        sum_list (map (\<lambda>l. row_of cols i ! (?T + limb_start groups g + l)) [0..<lg_num_limbs (groups ! g)])) =
      (\<Sum>g<length groups. act forms (groups ! g) i * (\<Sum>k<lg_num_limbs (groups ! g). inv_at cols groups g k i))"
    unfolding sum_list_upt [symmetric]
    by (intro arg_cong [of _ _ sum_list] map_cong refl) (simp only: set_upt atLeastLessThan_iff row_limbs(2) [OF len'] row_selector(1) [OF wf])
  have n_cols: "length (row_of cols i) = 2 * ?T + 4" using len by (simp add: row_of_def)
  have tails: "row_of cols i ! (2 * ?T + j) = tail_at cols groups j i" if "j < 4" for j
    using that len' by (simp add: row_of_def)
  have p1: "map (\<lambda>g. evaluate_decomposition_at_point (row_of forms i ! lg_column_index (groups ! g))
        (map (\<lambda>l. row_of cols i ! (limb_start groups g + l)) [0..<lg_num_limbs (groups ! g)])
        (if lg_selectors (groups ! g) \<noteq> [] then Some (selector_sum (row_of forms i) (groups ! g)) else None)) [0..<length groups] =
      map (\<lambda>g. act forms (groups ! g) i * (forms ! lg_column_index (groups ! g) ! i -
        recompose (\<lambda>k. limb_at cols groups g k i) (lg_num_limbs (groups ! g)))) [0..<length groups]"
    by (intro map_cong refl row_decomposition [OF len' wf]) simp
  have p3: "map (\<lambda>g. map (\<lambda>l. evaluate_inverse_at_point (row_of cols i ! (?T + limb_start groups g + l))
        (row_of cols i ! (limb_start groups g + l)) gamma) [0..<lg_num_limbs (groups ! g)]) [0..<length groups] =
      map (\<lambda>g. map (\<lambda>k. inv_at cols groups g k i * (gamma - limb_at cols groups g k i) - 1) [0..<lg_num_limbs (groups ! g)])
        [0..<length groups]"
    by (intro map_cong refl row_limbs(3) [OF len']) simp
  have "2 * ?T < 2 * ?T + 4" "2 * ?T + 1 < 2 * ?T + 4" "2 * ?T + 2 < 2 * ?T + 4" "2 * ?T + 3 < 2 * ?T + 4" by simp_all
  note lens = this
  show ?thesis
    unfolding logup_bodies_def Let_def extended_layout zip_upt zip_same map_map o_def prod.case n_cols p1 p3
      evaluate_transition_at_point_def fold_transition [unfolded Let_def] trans
    using first_lagrange_domain [OF dom i] tails [of 0] tails [of 1] tails [of 2] tails [of 3] lens
    by (simp add: evaluate_inverse_at_point_def)
qed

lemma length_logup_bodies:
  fixes forms cols :: "'a::field list list"
  assumes "root_domain omega n" and "i < n" and "groups_wf forms groups"
    and "length cols = xl_num_columns (extended_logup_column_layout groups)"
  shows "length (logup_bodies groups (row_of cols i) [cols ! xl_h_column (extended_logup_column_layout groups) ! (Suc i mod n)]
      (row_of forms i) gamma (omega ^ i) (of_nat n)) = num_extended_logup_constraints groups"
proof -
  have "map (\<lambda>g. lg_num_limbs (groups ! g)) [0..<length groups] = map lg_num_limbs groups"
    by (rule nth_equalityI) simp_all
  then show ?thesis
    unfolding logup_bodies_row [OF assms] by (simp add: num_extended_logup_constraints_def length_concat o_def)
qed

lemma bodies_vanish_iff:
  fixes forms cols :: "'a::field list list"
  assumes "root_domain omega n" and "i < n" and "groups_wf forms groups"
    and "length cols = xl_num_columns (extended_logup_column_layout groups)"
  shows "set (logup_bodies groups (row_of cols i) [cols ! xl_h_column (extended_logup_column_layout groups) ! (Suc i mod n)]
      (row_of forms i) gamma (omega ^ i) (of_nat n)) \<subseteq> {0} \<longleftrightarrow> logup_cols_ok forms cols groups gamma n i"
proof -
  have if_zero: "(if b then x else 0) = 0 \<longleftrightarrow> (b \<longrightarrow> x = 0)" for b and x :: 'a by simp
  have inner: "set (concat (map f [0..<l])) \<subseteq> {0} \<longleftrightarrow> (\<forall>g<l. set (f g) \<subseteq> {0})" for f :: "nat \<Rightarrow> 'a list" and l
    by (simp add: UN_subset_iff Ball_def)
  show ?thesis
    unfolding logup_bodies_row [OF assms] logup_cols_ok_def logup_row_ok_def
    by (simp only: set_append Un_subset_iff inner set_map set_upt list.set image_subset_iff insert_subset
        empty_subsetI singleton_iff if_zero atLeastLessThan_iff Ball_def mult_eq_0_iff right_minus_eq simp_thms le0 conj_ac)
qed

lemma logup_rows_accepted:
  fixes forms cols :: "'a::field list list"
  assumes "root_domain omega n" and "groups_wf forms groups"
    and "length cols = xl_num_columns (extended_logup_column_layout groups)"
    and "cols ! (2 * total_num_limbs groups) = range_table_column n"
    and "\<And>i. i < n \<Longrightarrow> logup_cols_ok forms cols groups gamma n i"
  shows "logup_accepts forms cols groups gamma omega n A off"
  using assms(4,5) bodies_vanish_iff [OF assms(1) _ assms(2,3)]
  by (simp add: logup_accepts_def logup_at_point_def add_bodies_zero)

lemma logup_accepted_rows:
  fixes forms cols :: "'a::field list list"
  assumes "root_domain omega n" and "groups_wf forms groups"
    and "length cols = xl_num_columns (extended_logup_column_layout groups)"
    and "finite A" and "0 \<notin> A" and "num_extended_logup_constraints groups \<le> card A"
    and "logup_accepts forms cols groups gamma omega n A off" and "i < n"
  shows "logup_cols_ok forms cols groups gamma n i"
proof -
  have "set (logup_bodies groups (row_of cols i) [cols ! xl_h_column (extended_logup_column_layout groups) ! (Suc i mod n)]
      (row_of forms i) gamma (omega ^ i) (of_nat n)) \<subseteq> {0}"
    using assms(6,7,8) length_logup_bodies [OF assms(1,8,2,3)]
    by (intro add_bodies_separate [OF assms(4) _ assms(5), where off = off]) (simp_all add: logup_accepts_def logup_at_point_def)
  then show ?thesis using bodies_vanish_iff [OF assms(1,8,2,3)] by simp
qed

section \<open>Sums of inverses\<close>

text \<open>A running sum that starts at zero and closes cyclically makes the two sides equal.\<close>

lemma closed_sum:
  fixes h s :: "nat \<Rightarrow> 'a::field"
  assumes "0 < n" and "h 0 = 0" and "\<And>i. i < n \<Longrightarrow> h (Suc i mod n) = h i + s i"
  shows "(\<Sum>i<n. s i) = 0"
proof -
  have "h (k mod n) = (\<Sum>i<k. s i)" if "k \<le> n" "0 < k" for k
    using that
  proof (induction k)
    case (Suc k)
    then show ?case using assms(2) assms(3) [of k] by (cases "k = 0") auto
  qed simp
  from this [of n] show ?thesis using assms(1,2) by simp
qed

text \<open>The polynomial \<open>\<Sum>x. c x * (\<Prod>y \<noteq> x. (g - y))\<close> over a list of points.\<close>

definition fraction_poly :: "('a::field \<Rightarrow> 'a) \<Rightarrow> 'a list \<Rightarrow> 'a list" where
  "fraction_poly c xs = fold (\<lambda>x p. poly_add p (poly_scalar_mul (monic_poly (map uminus (remove1 x xs))) (c x))) xs []"

lemma eval_fraction_poly:
  assumes "distinct xs"
  shows "eval_poly_at (fraction_poly c xs) g = (\<Sum>x\<in>set xs. c x * (\<Prod>y\<in>set xs - {x}. g - y))"
proof -
  have "eval_poly_at (monic_poly (map uminus (remove1 x xs))) g = (\<Prod>y\<in>set xs - {x}. g - y)" for x
    using assms by (simp add: eval_monic o_def prod.distinct_set_conv_list [symmetric] distinct_remove1 set_remove1_eq)
  moreover have "eval_poly_at (fold (\<lambda>x p. poly_add p (poly_scalar_mul (q x) (c x))) ys p) g =
      eval_poly_at p g + (\<Sum>x\<leftarrow>ys. eval_poly_at (q x) g * c x)" for q ys p
    by (induction ys arbitrary: p) (simp_all add: add.assoc)
  ultimately show ?thesis
    using assms by (simp add: fraction_poly_def sum_list_distinct_conv_sum_set mult.commute)
qed

lemma length_fraction_poly: "length (fraction_poly c xs) \<le> length xs"
proof -
  have "length (fold (\<lambda>x p. poly_add p (poly_scalar_mul (monic_poly (map uminus (remove1 x xs))) (c x))) ys p) \<le> length xs"
    if "set ys \<subseteq> set xs" and "length p \<le> length xs" for ys and p :: "'a list"
    using that
  proof (induction ys arbitrary: p)
    case (Cons y ys)
    have "length (poly_scalar_mul (monic_poly (map uminus (remove1 y xs))) (c y)) \<le> length xs"
      using Cons.prems(1) by (auto simp: length_monic length_remove1 poly_scalar_mul_def dest: length_pos_if_in_set)
    with Cons show ?case by (auto simp: poly_add_def)
  qed simp
  then show ?thesis by (simp add: fraction_poly_def)
qed

lemma fractions_determine:
  fixes c :: "'a::field \<Rightarrow> 'a"
  assumes "finite X" and "finite G" and "card X \<le> card G"
    and zero: "\<And>g. g \<in> G \<Longrightarrow> g \<notin> X \<and> (\<Sum>x\<in>X. c x * inverse (g - x)) = 0" and "x \<in> X"
  shows "c x = 0"
proof -
  obtain xs where xs: "set xs = X" "distinct xs" using finite_distinct_list [OF assms(1)] by blast
  have "eval_poly_at (fraction_poly c xs) g = 0" if g: "g \<in> G" for g
  proof -
    have "(\<Prod>y\<in>X. g - y) * (\<Sum>x\<in>X. c x * inverse (g - x)) = (\<Sum>x\<in>X. c x * (\<Prod>y\<in>X - {x}. g - y))"
      unfolding sum_distrib_left
    proof (rule sum.cong [OF refl])
      fix x assume x: "x \<in> X"
      then have "g - x \<noteq> 0" using zero [OF g] by auto
      then show "(\<Prod>y\<in>X. g - y) * (c x * inverse (g - x)) = c x * (\<Prod>y\<in>X - {x}. g - y)"
        using prod.remove [OF assms(1) x, of "\<lambda>y. g - y"] by simp
    qed
    then show ?thesis using zero [OF g] by (simp add: eval_fraction_poly [OF xs(2)] xs(1))
  qed
  moreover have "length (fraction_poly c xs) \<le> card G"
    using length_fraction_poly [of c xs] assms(3) xs distinct_card [of xs] by simp
  ultimately have "set (fraction_poly c xs) \<subseteq> {0}" by (intro many_roots_zero [OF assms(2)])
  then have "(\<Sum>y\<in>X. c y * (\<Prod>z\<in>X - {y}. x - z)) = 0"
    using eval_zero [of "fraction_poly c xs" x] by (simp add: eval_fraction_poly [OF xs(2)] xs(1))
  moreover have "(\<Sum>y\<in>X - {x}. c y * (\<Prod>z\<in>X - {y}. x - z)) = 0"
    using assms(1,5) by (intro sum.neutral ballI) auto
  ultimately have "c x * (\<Prod>z\<in>X - {x}. x - z) = 0"
    using sum.remove [OF assms(1,5), of "\<lambda>y. c y * (\<Prod>z\<in>X - {y}. x - z)"] by simp
  moreover have "(\<Prod>z\<in>X - {x}. x - z) \<noteq> 0" using assms(1) by (simp add: prod_zero_iff)
  ultimately show ?thesis by simp
qed

section \<open>Soundness\<close>

lemma range_table_nth:
  assumes "i < n" and "n < 2 ^ 64"
  shows "(range_table_column n :: 'a::field list) ! i = (if i < 256 then of_nat i else 0)"
proof -
  have "fold (\<lambda>i t. t[i := f i]) [0..<m] (replicate n 0) = map (\<lambda>i. if i < m then f i else 0) [0..<n]"
    if "m \<le> n" for m and f :: "nat \<Rightarrow> 'a"
    using that
  proof (induction m)
    case 0
    show ?case by (simp add: map_replicate_const)
  next
    case (Suc m)
    then show ?case by (auto intro!: nth_equalityI simp: nth_list_update)
  qed
  with assms show ?thesis by (simp add: range_table_column_def RANGE_TABLE_SIZE_def scalar_of_nat)
qed

lemma length_range_table [simp]: "length (range_table_column n) = n"
proof -
  have "length (fold (\<lambda>i t. t[i := f i]) is xs) = length xs" for f :: "nat \<Rightarrow> 'a" and "is" and xs :: "'a list"
    by (induction "is" arbitrary: xs) simp_all
  then show ?thesis by (simp add: range_table_column_def)
qed

lemma inverse_of_product: "a * b = 1 \<Longrightarrow> a = inverse (b :: 'a::field)"
  using inverse_unique [of b a] by (simp add: mult.commute)

text \<open>The sum of all rows, for one challenge.\<close>

lemma accepted_sum:
  assumes "0 < n" and rows: "\<And>i. i < n \<Longrightarrow> logup_row_ok forms groups L F t u h m gamma n i"
  shows "(\<Sum>i<n. \<Sum>g<length groups. \<Sum>k<lg_num_limbs (groups ! g). act forms (groups ! g) i * inverse (gamma - L g k i)) =
    (\<Sum>i<n. m i * inverse (gamma - t i))"
proof -
  let ?s = "\<lambda>i. (\<Sum>g<length groups. act forms (groups ! g) i * (\<Sum>k<lg_num_limbs (groups ! g). F g k i)) - m i * u i"
  have "(\<Sum>i<n. ?s i) = 0"
  proof (rule closed_sum [OF assms(1)])
    show "h 0 = 0" using rows [OF assms(1)] by (simp add: logup_row_ok_def)
    show "h (Suc i mod n) = h i + ?s i" if "i < n" for i
      using rows [OF that] by (simp add: logup_row_ok_def algebra_simps)
  qed
  moreover have "?s i = (\<Sum>g<length groups. \<Sum>k<lg_num_limbs (groups ! g). act forms (groups ! g) i * inverse (gamma - L g k i))
      - m i * inverse (gamma - t i)" if "i < n" for i
  proof -
    have "F g k i = inverse (gamma - L g k i)" if "g < length groups" "k < lg_num_limbs (groups ! g)" for g k
      using rows [OF \<open>i < n\<close>] that by (intro inverse_of_product) (simp add: logup_row_ok_def)
    moreover have "u i = inverse (gamma - t i)"
      using rows [OF \<open>i < n\<close>] by (intro inverse_of_product) (simp add: logup_row_ok_def)
    ultimately show ?thesis by (simp add: sum_distrib_left)
  qed
  ultimately show ?thesis by (simp add: sum_subtractf)
qed

text \<open>Limbs, as triples of row, group and limb number.\<close>

definition limb_set :: "logup_group list \<Rightarrow> nat \<Rightarrow> (nat \<times> nat \<times> nat) set" where
  "limb_set groups n = (SIGMA i:{..<n}. SIGMA g:{..<length groups}. {..<lg_num_limbs (groups ! g)})"

lemma finite_limb_set: "finite (limb_set groups n)"
  by (simp add: limb_set_def)

lemma card_limb_set: "card (limb_set groups n) = n * total_num_limbs groups"
proof -
  have "map (\<lambda>g. lg_num_limbs (groups ! g)) [0..<length groups] = map lg_num_limbs groups"
    by (rule nth_equalityI) simp_all
  then have "(\<Sum>g<length groups. lg_num_limbs (groups ! g)) = total_num_limbs groups"
    using sum_list_upt [of "\<lambda>g. lg_num_limbs (groups ! g)" "length groups"] by (simp add: total_num_limbs_def)
  then show ?thesis by (simp add: limb_set_def)
qed

lemma sum_limb_set:
  "(\<Sum>(i, g, k)\<in>limb_set groups n. f i g k) = (\<Sum>i<n. \<Sum>g<length groups. \<Sum>k<lg_num_limbs (groups ! g). f i g k)"
  by (simp add: limb_set_def sum.Sigma [symmetric] prod.case_distrib)

text \<open>The sum of fractions of the limbs and the table over one index set.\<close>

definition entry_value :: "(nat \<Rightarrow> nat \<Rightarrow> nat \<Rightarrow> 'a) \<Rightarrow> (nat \<Rightarrow> 'a) \<Rightarrow> (nat \<times> nat \<times> nat) + nat \<Rightarrow> 'a::field" where
  "entry_value L t j = (case j of Inl (i, g, k) \<Rightarrow> L g k i | Inr i \<Rightarrow> t i)"

definition entry_weight :: "'a list list \<Rightarrow> logup_group list \<Rightarrow> (nat \<Rightarrow> 'a) \<Rightarrow> (nat \<times> nat \<times> nat) + nat \<Rightarrow> 'a::field" where
  "entry_weight forms groups m j = (case j of Inl (i, g, k) \<Rightarrow> act forms (groups ! g) i | Inr i \<Rightarrow> - m i)"

lemma accepted_fractions:
  assumes "0 < n" and rows: "\<And>i. i < n \<Longrightarrow> logup_row_ok forms groups L F t u h m gamma n i"
  shows "(\<Sum>j\<in>limb_set groups n <+> {..<n}. entry_weight forms groups m j * inverse (gamma - entry_value L t j)) = 0"
    and "gamma \<notin> entry_value L t ` (limb_set groups n <+> {..<n})"
proof -
  have "(\<Sum>j\<in>limb_set groups n <+> {..<n}. entry_weight forms groups m j * inverse (gamma - entry_value L t j)) =
      (\<Sum>(i, g, k)\<in>limb_set groups n. act forms (groups ! g) i * inverse (gamma - L g k i)) - (\<Sum>i<n. m i * inverse (gamma - t i))"
    by (simp add: sum.Plus finite_limb_set entry_weight_def entry_value_def sum_negf case_prod_unfold)
  then show "(\<Sum>j\<in>limb_set groups n <+> {..<n}. entry_weight forms groups m j * inverse (gamma - entry_value L t j)) = 0"
    using accepted_sum [OF assms] by (simp add: sum_limb_set)
  have "gamma \<noteq> L g k i" if "i < n" "g < length groups" "k < lg_num_limbs (groups ! g)" for i g k
  proof -
    have "F g k i * (gamma - L g k i) = 1" using rows [OF that(1)] that by (simp add: logup_row_ok_def)
    then show ?thesis by auto
  qed
  moreover have "gamma \<noteq> t i" if "i < n" for i using rows [OF that] by (auto simp: logup_row_ok_def)
  ultimately show "gamma \<notin> entry_value L t ` (limb_set groups n <+> {..<n})"
    by (auto simp: entry_value_def limb_set_def) blast+
qed

lemma sum_of_bools: "finite S \<Longrightarrow> \<forall>x\<in>S. f x \<in> {0, 1 :: 'a::field} \<Longrightarrow> sum f S = of_nat (card {x \<in> S. f x = 1})"
proof (induction rule: finite_induct)
  case (insert x S)
  have "{y \<in> insert x S. f y = 1} = (if f x = 1 then insert x {y \<in> S. f y = 1} else {y \<in> S. f y = 1})" by auto
  with insert show ?case by (auto simp: card_insert_if)
qed simp

text \<open>A limb of an active row is an entry of the table.\<close>

lemma active_limb_in_table:
  fixes forms :: "'a::field list list"
  assumes n: "0 < n" and G: "finite G" "n * total_num_limbs groups + n \<le> card G"
    and char: "char_above TYPE('a) (int (n * total_num_limbs groups) + 1)"
    and bool: "\<forall>g < length groups. \<forall>i < n. act forms (groups ! g) i \<in> {0, 1}"
    and rows: "\<And>gamma i. gamma \<in> G \<Longrightarrow> i < n \<Longrightarrow> logup_row_ok forms groups L (F gamma) t (u gamma) (h gamma) m gamma n i"
    and j: "(i, g, k) \<in> limb_set groups n" and active: "act forms (groups ! g) i = 1"
  shows "L g k i \<in> t ` {..<n}"
proof (rule ccontr)
  let ?J = "limb_set groups n <+> {..<n}" and ?v = "entry_value L t" and ?w = "entry_weight forms groups m"
  let ?x = "L g k i" and ?S = "{j \<in> limb_set groups n. case j of (i', g', k') \<Rightarrow> L g' k' i' = L g k i}"
  let ?c = "\<lambda>x. sum ?w {j \<in> ?J. ?v j = x}"
  assume out: "?x \<notin> t ` {..<n}"
  have fin: "finite ?J" by (simp add: finite_limb_set)
  have "?c ?x = 0"
  proof (rule fractions_determine [where X = "?v ` ?J" and G = G and c = ?c])
    show "finite (?v ` ?J)" "finite G" using fin G by simp_all
    show "card (?v ` ?J) \<le> card G"
      using card_image_le [OF fin, of ?v] G(2) by (simp add: card_Plus finite_limb_set card_limb_set)
    show "?x \<in> ?v ` ?J" using j by (force simp: entry_value_def)
    show "gamma \<notin> ?v ` ?J \<and> (\<Sum>x\<in>?v ` ?J. ?c x * inverse (gamma - x)) = 0" if "gamma \<in> G" for gamma
    proof
      show "gamma \<notin> ?v ` ?J" by (rule accepted_fractions(2) [OF n rows [OF that]])
      have "(\<Sum>x\<in>?v ` ?J. ?c x * inverse (gamma - x)) = (\<Sum>j\<in>?J. ?w j * inverse (gamma - ?v j))"
        using fin by (subst sum.image_gen [of ?J _ ?v]) (simp_all add: sum_distrib_right)
      then show "(\<Sum>x\<in>?v ` ?J. ?c x * inverse (gamma - x)) = 0"
        using accepted_fractions(1) [OF n rows [OF that]] by simp
    qed
  qed
  moreover have "t y \<noteq> ?x" if "y < n" for y using out that by (metis imageI lessThan_iff)
  then have "{j \<in> ?J. ?v j = ?x} = Inl ` ?S" by (auto simp: entry_value_def)
  ultimately have "(\<Sum>(i', g', k')\<in>?S. act forms (groups ! g') i') = 0"
    by (simp add: sum.reindex entry_weight_def case_prod_unfold)
  also have "(\<Sum>(i', g', k')\<in>?S. act forms (groups ! g') i') = of_nat (card {j \<in> ?S. case j of (i', g', k') \<Rightarrow> act forms (groups ! g') i' = 1})"
    using bool sum_of_bools [of ?S "\<lambda>(i', g', k'). act forms (groups ! g') i'"] finite_limb_set [of groups n]
    by (auto simp: limb_set_def case_prod_unfold)
  finally have zero: "(of_nat (card {j \<in> ?S. case j of (i', g', k') \<Rightarrow> act forms (groups ! g') i' = 1}) :: 'a) = 0" .
  let ?k = "card {j \<in> ?S. case j of (i', g', k') \<Rightarrow> act forms (groups ! g') i' = 1}"
  have "?k \<le> n * total_num_limbs groups"
    unfolding card_limb_set [symmetric] by (rule card_mono [OF finite_limb_set]) auto
  then have "int ?k \<le> int (n * total_num_limbs groups)" by (simp only: of_nat_le_iff)
  then have "\<bar>int ?k\<bar> < int (n * total_num_limbs groups) + 1" by (simp only: abs_of_nat)
  moreover have "(of_int (int ?k) :: 'a) = 0" using zero by (simp only: of_int_of_nat_eq)
  ultimately have "int ?k = 0" by (intro char_aboveD [OF char])
  moreover have "(i, g, k) \<in> {j \<in> ?S. case j of (i', g', k') \<Rightarrow> act forms (groups ! g') i' = 1}"
    using j active by simp
  ultimately show False using finite_limb_set [of groups n] by (auto simp: card_eq_0_iff)
qed

lemma recompose_bytes:
  "(\<And>k. k < l \<Longrightarrow> b k \<in> of_nat ` {..<256}) \<Longrightarrow> \<exists>v < 256 ^ l. recompose b l = (of_nat v :: 'a::field)"
proof (induction l)
  case (Suc l)
  then obtain v where v: "v < 256 ^ l" "recompose b l = (of_nat v :: 'a)" by auto
  obtain d where d: "d < 256" "b l = of_nat d" using Suc.prems [of l] by auto
  have "v + d * 256 ^ l < 256 ^ Suc l"
  proof -
    have "d * 256 ^ l \<le> 255 * 256 ^ l" using d(1) by (intro mult_le_mono1) simp
    with v(1) have "v + d * 256 ^ l < 256 ^ l + 255 * 256 ^ l" by (rule add_less_le_mono)
    also have "\<dots> = 256 ^ Suc l" by simp
    finally show ?thesis .
  qed
  moreover have "recompose b (Suc l) = of_nat (v + d * 256 ^ l)" using v(2) d(2) by (simp add: recompose_def)
  ultimately show ?case by blast
qed (auto simp: recompose_def)

text \<open>
  C9. Suppose the limb columns and the multiplicities are fixed before the challenge, and for more challenges than there are
  limbs and rows the prover completes them to columns that the verifier accepts. Then in every row where a group
  is active its value is a number below \<open>256\<close> to the number of limbs. Selector sums are zero or one,
  and the characteristic exceeds the number of limbs in the trace.
\<close>

theorem logup_sound:
  fixes forms :: "'a::field list list"
  assumes dom: "root_domain omega n" and wf: "groups_wf forms groups"
    and A: "finite A" "0 \<notin> A" "num_extended_logup_constraints groups \<le> card A"
    and G: "finite G" "n * total_num_limbs groups + n \<le> card G"
    and char: "char_above TYPE('a) (int (n * total_num_limbs groups) + 1)"
    and bool: "\<forall>g < length groups. \<forall>i < n. act forms (groups ! g) i \<in> {0, 1}"
    and limbs: "length limbs = total_num_limbs groups" and fs: "\<forall>gamma\<in>G. length (fs gamma) = total_num_limbs groups"
    and acc: "\<forall>gamma\<in>G. logup_accepts forms (limbs @ fs gamma @ [t, us gamma, hs gamma, m]) groups gamma omega n A off"
    and g: "g < length groups" and i: "i < n" and active: "act forms (groups ! g) i = 1"
  shows "\<exists>v < 256 ^ lg_num_limbs (groups ! g). forms ! lg_column_index (groups ! g) ! i = of_nat v"
proof -
  let ?T = "total_num_limbs groups" and ?cols = "\<lambda>gamma. limbs @ fs gamma @ [t, us gamma, hs gamma, m]"
  have n: "0 < n" "n < 2 ^ 64" using dom by (simp_all add: root_domain_def)
  have ok: "logup_cols_ok forms (?cols gamma) groups gamma n i'" if "gamma \<in> G" "i' < n" for gamma i'
    using logup_accepted_rows [OF dom wf _ A, of "?cols gamma" gamma off i'] acc fs limbs that by simp
  have rows: "logup_row_ok forms groups (limb_at limbs groups) (inv_at (?cols gamma) groups) (\<lambda>i. t ! i)
      (\<lambda>i. us gamma ! i) (\<lambda>i. hs gamma ! i) (\<lambda>i. m ! i) gamma n i'" if "gamma \<in> G" "i' < n" for gamma i'
  proof -
    have "limb_at (?cols gamma) groups g k i = limb_at limbs groups g k i"
      if "g < length groups" "k < lg_num_limbs (groups ! g)" for g k i
      using limb_index_less [OF that] limbs by (simp add: nth_append)
    moreover have "?cols gamma ! (2 * ?T + 0) = t" "?cols gamma ! (2 * ?T + 1) = us gamma"
      "?cols gamma ! (2 * ?T + 2) = hs gamma" "?cols gamma ! (2 * ?T + 3) = m"
      using limbs fs \<open>gamma \<in> G\<close> by (simp_all add: nth_append)
    note tails = this
    ultimately show ?thesis
      using ok [OF that] unfolding logup_cols_ok_def tails by (simp add: logup_row_ok_def recompose_def)
  qed
  have card: "0 < card G" using G n by simp
  then obtain gamma0 where "gamma0 \<in> G" by fastforce
  then have tab: "t = range_table_column n"
    using acc fs limbs by (simp add: logup_accepts_def nth_append)
  have "limb_at limbs groups g k i \<in> of_nat ` {..<256}" if "k < lg_num_limbs (groups ! g)" for k
  proof -
    have "limb_at limbs groups g k i \<in> (\<lambda>i. t ! i) ` {..<n}"
      by (rule active_limb_in_table [OF n(1) G char bool rows _ active]) (use g i that in \<open>simp_all add: limb_set_def\<close>)
    then obtain j where "j < n" "limb_at limbs groups g k i = t ! j" by auto
    with n(2) have "limb_at limbs groups g k i = of_nat (if j < 256 then j else 0)" by (simp add: tab range_table_nth)
    then show ?thesis by (rule image_eqI) simp
  qed
  then have "\<exists>v < 256 ^ lg_num_limbs (groups ! g). recompose (\<lambda>k. limb_at limbs groups g k i) (lg_num_limbs (groups ! g)) = of_nat v"
    by (rule recompose_bytes)
  moreover have "act forms (groups ! g) i = 0
      \<or> forms ! lg_column_index (groups ! g) ! i = recompose (\<lambda>k. limb_at limbs groups g k i) (lg_num_limbs (groups ! g))"
    using rows [OF \<open>gamma0 \<in> G\<close> i] g by (simp add: logup_row_ok_def)
  ultimately show ?thesis using active by simp
qed

section \<open>The challenge is drawn too early\<close>

text \<open>
  Columns for a challenge known in advance: the first limb is the value itself, the others are zero, and the multiplicity
  of the first table row makes the sum close.
\<close>

definition forged_limb :: "'a::field list list \<Rightarrow> logup_group list \<Rightarrow> nat \<Rightarrow> nat \<Rightarrow> nat \<Rightarrow> 'a" where
  "forged_limb forms groups g k i = (if k = 0 then forms ! lg_column_index (groups ! g) ! i else 0)"

definition forged_share :: "'a::field list list \<Rightarrow> logup_group list \<Rightarrow> 'a \<Rightarrow> nat \<Rightarrow> 'a" where
  "forged_share forms groups gamma i =
     (\<Sum>g<length groups. act forms (groups ! g) i *
       (\<Sum>k<lg_num_limbs (groups ! g). inverse (gamma - forged_limb forms groups g k i)))"

definition forged_mult :: "'a::field list list \<Rightarrow> logup_group list \<Rightarrow> 'a \<Rightarrow> nat \<Rightarrow> nat \<Rightarrow> 'a" where
  "forged_mult forms groups gamma n i = (if i = 0 then gamma * (\<Sum>j<n. forged_share forms groups gamma j) else 0)"

definition forged_sum :: "'a::field list list \<Rightarrow> logup_group list \<Rightarrow> 'a \<Rightarrow> nat \<Rightarrow> nat \<Rightarrow> 'a" where
  "forged_sum forms groups gamma n i =
     (if i = 0 then 0
      else (\<Sum>j<i. forged_share forms groups gamma j) - (\<Sum>j<n. forged_share forms groups gamma j))"

definition flat_columns :: "logup_group list \<Rightarrow> nat \<Rightarrow> (nat \<Rightarrow> nat \<Rightarrow> nat \<Rightarrow> 'a) \<Rightarrow> 'a list list" where
  "flat_columns groups n L =
     concat (map (\<lambda>g. map (\<lambda>k. map (L g k) [0..<n]) [0..<lg_num_limbs (groups ! g)]) [0..<length groups])"

definition forged_logup_columns :: "'a::field list list \<Rightarrow> logup_group list \<Rightarrow> 'a \<Rightarrow> nat \<Rightarrow> 'a list list" where
  "forged_logup_columns forms groups gamma n =
     flat_columns groups n (forged_limb forms groups)
     @ flat_columns groups n (\<lambda>g k i. inverse (gamma - forged_limb forms groups g k i))
     @ [range_table_column n, map (\<lambda>i. inverse (gamma - range_table_column n ! i)) [0..<n],
        map (forged_sum forms groups gamma n) [0..<n], map (forged_mult forms groups gamma n) [0..<n]]"

lemma nth_concat_lists:
  "g < length xs \<Longrightarrow> k < length (xs ! g) \<Longrightarrow> concat xs ! (sum_list (map length (take g xs)) + k) = xs ! g ! k"
proof (induction xs arbitrary: g)
  case (Cons x xs)
  then show ?case by (cases g) (simp_all add: nth_append add.assoc)
qed simp

lemma flat_columns_nth:
  assumes "g < length groups" and "k < lg_num_limbs (groups ! g)" and "i < n"
  shows "flat_columns groups n L ! (limb_start groups g + k) ! i = L g k i"
proof -
  let ?xs = "map (\<lambda>g. map (\<lambda>k. map (L g k) [0..<n]) [0..<lg_num_limbs (groups ! g)]) [0..<length groups]"
  have "map length (take g ?xs) = map lg_num_limbs (take g groups)"
    using assms(1) by (auto intro: nth_equalityI simp: take_map)
  then have "limb_start groups g = sum_list (map length (take g ?xs))" by (simp add: limb_start_def)
  then show ?thesis
    using nth_concat_lists [of g ?xs k] assms by (simp add: flat_columns_def)
qed

lemma length_flat_columns: "length (flat_columns groups n L) = total_num_limbs groups"
proof -
  have "map (\<lambda>g. lg_num_limbs (groups ! g)) [0..<length groups] = map lg_num_limbs groups"
    by (rule nth_equalityI) simp_all
  then show ?thesis by (simp add: flat_columns_def length_concat o_def total_num_limbs_def)
qed

text \<open>Columns laid out from functions satisfy the row conditions if the functions do.\<close>

lemma flat_columns_ok:
  fixes forms :: "'a::field list list"
  assumes "length t = n" "length u = n" "length h = n" "length m = n" and "i < n"
    and "logup_row_ok forms groups L F (\<lambda>i. t ! i) (\<lambda>i. u ! i) (\<lambda>i. h ! i) (\<lambda>i. m ! i) gamma n i"
  shows "logup_cols_ok forms (flat_columns groups n L @ flat_columns groups n F @ [t, u, h, m]) groups gamma n i"
proof -
  let ?cols = "flat_columns groups n L @ flat_columns groups n F @ [t, u, h, m]" and ?T = "total_num_limbs groups"
  have "limb_at ?cols groups g k i = L g k i" "inv_at ?cols groups g k i = F g k i"
    if "g < length groups" "k < lg_num_limbs (groups ! g)" for g k
    using limb_index_less [OF that] flat_columns_nth [OF that assms(5)] by (simp_all add: nth_append length_flat_columns add.assoc)
  moreover have "?cols ! (2 * ?T + 0) = t" "?cols ! (2 * ?T + 1) = u" "?cols ! (2 * ?T + 2) = h" "?cols ! (2 * ?T + 3) = m"
    by (simp_all add: nth_append length_flat_columns)
  note tails = this
  ultimately show ?thesis
    using assms(6) unfolding logup_cols_ok_def tails by (simp add: logup_row_ok_def recompose_def)
qed

lemma forged_recompose:
  "0 < l \<Longrightarrow> forms ! lg_column_index (groups ! g) ! i = recompose (\<lambda>k. forged_limb forms groups g k i) l"
proof -
  assume "0 < l"
  then have "recompose (\<lambda>k. forged_limb forms groups g k i) l = (\<Sum>k\<in>{0}. forged_limb forms groups g k i * 256 ^ k)"
    unfolding recompose_def by (intro sum.mono_neutral_right) (auto simp: forged_limb_def)
  then show ?thesis by (simp add: forged_limb_def)
qed

lemma forged_step:
  fixes forms :: "'a::field list list"
  assumes "root_domain omega n" and "gamma \<noteq> 0" and "i < n"
  shows "forged_sum forms groups gamma n (Suc i mod n) = forged_sum forms groups gamma n i
    + forged_share forms groups gamma i - forged_mult forms groups gamma n i * inverse (gamma - range_table_column n ! i)"
proof -
  let ?s = "forged_share forms groups gamma"
  have n: "n < 2 ^ 64" using assms(1) by (simp add: root_domain_def)
  have mult: "forged_mult forms groups gamma n i * inverse (gamma - range_table_column n ! i) = (if i = 0 then \<Sum>j<n. ?s j else 0)"
    using assms(2,3) n by (simp add: forged_mult_def range_table_nth)
  show ?thesis
  proof (cases "Suc i = n")
    case True
    then show ?thesis unfolding mult by (auto simp: forged_sum_def)
  next
    case False
    with assms(3) show ?thesis unfolding mult by (simp add: forged_sum_def)
  qed
qed

text \<open>
  C8. The challenge is drawn before limbs and multiplicities are committed: for every trace, whatever the
  values of the columns that are declared to be range checked, and every challenge that is not one of these values
  or an entry of the table, there are columns with the canonical table that the verifier accepts.
\<close>

theorem logup_forgeable:
  fixes forms :: "'a::field list list"
  assumes dom: "root_domain omega n" and wf: "groups_wf forms groups"
    and limbs: "\<forall>grp\<in>set groups. 0 < lg_num_limbs grp"
    and gamma: "\<forall>b<256. gamma \<noteq> of_nat b" "\<forall>grp\<in>set groups. \<forall>i<n. gamma \<noteq> forms ! lg_column_index grp ! i"
  shows "\<exists>cols. length cols = xl_num_columns (extended_logup_column_layout groups)
    \<and> logup_accepts forms cols groups gamma omega n UNIV off"
proof (intro exI conjI)
  let ?C = "forged_logup_columns forms groups gamma n"
  have gz: "gamma \<noteq> 0" using gamma(1) by (auto dest: spec [of _ 0])
  have n: "0 < n" "n < 2 ^ 64" using dom by (simp_all add: root_domain_def)
  show len: "length ?C = xl_num_columns (extended_logup_column_layout groups)"
    by (simp add: forged_logup_columns_def length_flat_columns)
  have tab: "gamma - range_table_column n ! i \<noteq> 0" if "i < n" for i
    using gamma(1) n that by (auto simp: range_table_nth dest: spec [of _ 0])
  have limb: "gamma - forged_limb forms groups g k i \<noteq> 0" if "i < n" "g < length groups" for g k i
    using gamma that by (auto simp: forged_limb_def dest: spec [of _ 0])
  have "logup_cols_ok forms ?C groups gamma n i" if i: "i < n" for i
    unfolding forged_logup_columns_def
  proof (rule flat_columns_ok)
    have mod: "Suc i mod n < n" using n by simp
    have "forms ! lg_column_index (groups ! g) ! i = recompose (\<lambda>k. forged_limb forms groups g k i) (lg_num_limbs (groups ! g))"
      if "g < length groups" for g
      using limbs that by (intro forged_recompose) simp
    then show "logup_row_ok forms groups (forged_limb forms groups) (\<lambda>g k i. inverse (gamma - forged_limb forms groups g k i))
        (\<lambda>i. range_table_column n ! i) (\<lambda>i. map (\<lambda>i. inverse (gamma - range_table_column n ! i)) [0..<n] ! i)
        (\<lambda>i. map (forged_sum forms groups gamma n) [0..<n] ! i) (\<lambda>i. map (forged_mult forms groups gamma n) [0..<n] ! i) gamma n i"
      using forged_step [OF dom gz i, of forms groups] i mod tab [OF i] limb [OF i]
      unfolding logup_row_ok_def by (simp add: forged_sum_def forged_share_def)
  qed (simp_all add: i)
  then show "logup_accepts forms ?C groups gamma omega n UNIV off"
    by (intro logup_rows_accepted [OF dom wf len]) (simp_all add: forged_logup_columns_def nth_append length_flat_columns)
qed

definition byte_group :: logup_group where
  "byte_group = \<lparr>lg_column_index = 0, lg_max_bits = 8, lg_num_limbs = 1, lg_selectors = []\<rparr>"

theorem logup_forgeable_witness:
  "\<exists>cols. length cols = 6 \<and> logup_accepts [[1000, - 5 :: rat]] cols [byte_group] 300 (- 1) 2 UNIV 0"
proof -
  have "i < 2 \<longleftrightarrow> i = 0 \<or> i = 1" for i :: nat by auto
  then show ?thesis
    using logup_forgeable [OF root_domain_2, of "[[1000, - 5]]" "[byte_group]" 300 0]
    by (simp add: groups_wf_def byte_group_def total_num_limbs_def)
qed

text \<open>A trace of two rows with the bytes one and zero, and its columns for each challenge.\<close>

definition byte_cols :: "rat \<Rightarrow> rat list list" where
  "byte_cols gamma = [[inverse (gamma - 1), inverse gamma]]
     @ [[0, 1], [inverse gamma, inverse (gamma - 1)], [0, inverse (gamma - 1) - inverse gamma], [1, 1]]"

lemma byte_cols_accepted:
  assumes "gamma \<noteq> 0" and "gamma \<noteq> 1"
  shows "logup_accepts [[1, 0]] ([[1, 0]] @ byte_cols gamma) [byte_group] gamma (- 1) 2 A off"
proof (rule logup_rows_accepted [OF root_domain_2])
  have two: "i < 2 \<longleftrightarrow> i = 0 \<or> i = 1" for i :: nat by auto
  show "([[1, 0]] @ byte_cols gamma) ! (2 * total_num_limbs [byte_group]) = range_table_column 2"
    by (rule nth_equalityI) (auto simp: byte_cols_def byte_group_def total_num_limbs_def less_Suc_eq range_table_nth)
  show "logup_cols_ok [[1, 0]] ([[1, 0]] @ byte_cols gamma) [byte_group] gamma 2 i" if "i < 2" for i
    using that assms
    by (auto simp: two logup_cols_ok_def logup_row_ok_def byte_cols_def byte_group_def total_num_limbs_def limb_start_def act_def
        recompose_def)
qed (simp_all add: groups_wf_def byte_group_def byte_cols_def total_num_limbs_def)

theorem logup_sound_witness: "\<exists>v < 256. [[1, 0 :: rat]] ! 0 ! 0 = of_nat v"
proof -
  have "\<forall>gamma\<in>{2, 3, 4, 5 :: rat}. logup_accepts [[1, 0]] ([[1, 0]] @ [[inverse (gamma - 1), inverse gamma]]
      @ [[0, 1], [inverse gamma, inverse (gamma - 1)], [0, inverse (gamma - 1) - inverse gamma], [1, 1]])
      [byte_group] gamma (- 1) 2 {1, 2, 3, 4, 5} 0"
    by (intro ballI byte_cols_accepted [unfolded byte_cols_def]) auto
  then show ?thesis
    using logup_sound [OF root_domain_2, of "[[1, 0]]" "[byte_group]" "{1, 2, 3, 4, 5}" "{2, 3, 4, 5}" "[[1, 0]]"
        "\<lambda>gamma. [[inverse (gamma - 1), inverse gamma]]" "[0, 1]" "\<lambda>gamma. [inverse gamma, inverse (gamma - 1)]"
        "\<lambda>gamma. [0, inverse (gamma - 1) - inverse gamma]" "[1, 1]" 0 0 0]
    by (simp add: groups_wf_def byte_group_def num_extended_logup_constraints_def total_num_limbs_def char_above_char_0 act_def)
qed

end
