(* ===== verification/Zkp_Lookup_Honest.thy ===== *)
theory Zkp_Lookup_Honest
  imports Complex_Main Zkp_Lookup_Sound
begin

text \<open>
  The range checks are complete: for a trace whose checked values are in range, the columns that the prover
  computes are accepted for every challenge outside the table.

  The conversions \<^verbatim>\<open>to_u64\<close> and \<^verbatim>\<open>to_bytes\<close> of \<^verbatim>\<open>field.rs\<close> are modelled on top of the byte representations of the two
  libraries, which are parameters: 73 big-endian bytes for BLS48-581 and 32 little-endian bytes for BLS12-381.
  \<^verbatim>\<open>lookup.rs\<close> reads the result of \<^verbatim>\<open>to_bytes\<close> as big-endian, so checks wider than 64 bits are complete on BLS48-581 only.
\<close>

section \<open>Bytes of a value\<close>

lemma be_nat_rev_sum: "be_nat (rev bs) = (\<Sum>k<length bs. unat (bs ! k) * 256 ^ k)"
proof (induction bs rule: rev_induct)
  case (snoc b bs)
  have "(\<Sum>k<length bs. unat ((bs @ [b]) ! k) * 256 ^ k) = (\<Sum>k<length bs. unat (bs ! k) * 256 ^ k)"
    by (intro sum.cong) (simp_all add: nth_append)
  with snoc show ?case by (simp add: be_nat_Cons)
qed simp

lemma be_nat_rev_take: "be_nat (rev (take l bs)) = be_nat (rev bs) mod 256 ^ min l (length bs)"
proof -
  have "rev bs = rev (drop l bs) @ rev (take l bs)" by (simp flip: rev_append)
  then have "be_nat (rev bs) = be_nat (rev (drop l bs)) * 256 ^ min l (length bs) + be_nat (rev (take l bs))"
    by (simp add: be_nat_append min.commute)
  then show ?thesis using be_nat_less [of "rev (take l bs)"] by (simp add: min.commute)
qed

lemma recompose_le_bytes:
  assumes "v < 256 ^ l" and "be_nat (rev bs) = v"
  shows "recompose (\<lambda>k. of_nat (unat (take l (bs @ replicate l 0) ! k))) l = (of_nat v :: 'a::field)"
proof -
  let ?p = "take l (bs @ replicate l 0)"
  have len: "length ?p = l" by simp
  have "be_nat (rev (bs @ replicate l 0)) = v" using assms(2) by (simp add: be_nat_append be_nat_zeros)
  then have "be_nat (rev ?p) = v"
    using assms(1) by (simp add: be_nat_rev_take min_def del: rev_append rev_replicate take_append)
  then have "(\<Sum>k<l. unat (?p ! k) * 256 ^ k) = v" unfolding be_nat_rev_sum len .
  then have "of_nat (\<Sum>k<l. unat (?p ! k) * 256 ^ k) = (of_nat v :: 'a)" by simp
  then show ?thesis by (simp only: recompose_def of_nat_sum of_nat_mult of_nat_power of_nat_numeral)
qed

lemma decompose_to_bytes_take: "decompose_to_bytes v l = take l (to_le_bytes 8 v @ replicate l 0)"
  by (rule nth_equalityI) (auto simp: decompose_to_bytes_def nth_append)

lemma decompose_scalar_take: "decompose_scalar_to_bytes to_bytes x l = take l (rev (to_bytes x) @ replicate l 0)"
  by (rule nth_equalityI) (auto simp: decompose_scalar_to_bytes_def Let_def nth_append rev_nth)

text \<open>
  \<^verbatim>\<open>Scalar::to_bytes\<close> and \<^verbatim>\<open>Scalar::to_u64\<close>, over the bytes \<open>big\<close> that \<^verbatim>\<open>BIG::tobytes\<close> and \<open>fr\<close> that \<^verbatim>\<open>blst_scalar_from_fr\<close> give.
\<close>

datatype curve_type = Bls48581 | Bls12381

fun scalar_to_bytes :: "('a \<Rightarrow> u8 list) \<Rightarrow> ('a \<Rightarrow> u8 list) \<Rightarrow> curve_type \<Rightarrow> 'a \<Rightarrow> u8 list" where
  "scalar_to_bytes big fr Bls48581 x = big x"
| "scalar_to_bytes big fr Bls12381 x = fr x"

fun scalar_to_u64 :: "('a \<Rightarrow> u8 list) \<Rightarrow> ('a \<Rightarrow> u8 list) \<Rightarrow> curve_type \<Rightarrow> 'a \<Rightarrow> u64" where
  "scalar_to_u64 big fr Bls48581 x = from_le_bytes (rev (take 8 (drop (73 - 8) (big x))))"
| "scalar_to_u64 big fr Bls12381 x = from_le_bytes (take 8 (fr x))"

text \<open>What the libraries document: the representations of the numbers below \<open>2 ^ 128\<close>, which are below both orders.\<close>

definition library_bytes :: "('a::field \<Rightarrow> u8 list) \<Rightarrow> ('a \<Rightarrow> u8 list) \<Rightarrow> bool" where
  "library_bytes big fr \<longleftrightarrow>
     (\<forall>v < 2 ^ 128. length (big (of_nat v)) = 73 \<and> be_nat (big (of_nat v)) = v \<and>
        length (fr (of_nat v)) = 32 \<and> be_nat (rev (fr (of_nat v))) = v)"

lemma scalar_to_u64_nat:
  assumes "library_bytes big fr" and "v < 2 ^ 64"
  shows "scalar_to_u64 big fr curve (of_nat v) = of_nat v"
proof -
  have lib: "length (big (of_nat v)) = 73" "be_nat (big (of_nat v)) = v" "length (fr (of_nat v)) = 32"
    "be_nat (rev (fr (of_nat v))) = v"
    using assms by (auto simp: library_bytes_def)
  have be: "unat (scalar_to_u64 big fr curve (of_nat v)) = v"
  proof (cases curve)
    case Bls48581
    have "be_nat (big (of_nat v)) = be_nat (take 65 (big (of_nat v))) * 256 ^ 8 + be_nat (drop 65 (big (of_nat v)))"
      using be_nat_append [of "take 65 (big (of_nat v))" "drop 65 (big (of_nat v))"] lib(1) by simp
    then have "be_nat (drop 65 (big (of_nat v))) = v"
      using lib(2) assms(2) by (cases "be_nat (take 65 (big (of_nat v)))") auto
    with Bls48581 lib(1) show ?thesis by (simp add: unat_from_le_bytes)
  next
    case Bls12381
    have "be_nat (rev (take 8 (fr (of_nat v)))) = v"
      using be_nat_rev_take [of 8 "fr (of_nat v)"] lib(3,4) assms(2) by simp
    with Bls12381 show ?thesis by (simp add: unat_from_le_bytes)
  qed
  then show ?thesis by (metis of_nat_unat ucast_id)
qed

text \<open>The groups that the prover decomposes correctly on a curve.\<close>

definition decomposable :: "curve_type \<Rightarrow> logup_group \<Rightarrow> bool" where
  "decomposable curve grp \<longleftrightarrow> lg_max_bits grp \<le> 64 \<or> curve = Bls48581"

text \<open>Values in range: for groups of at most 64 bits a 64-bit number, for wider ones at most 128 bits.\<close>

definition value_in_range :: "logup_group \<Rightarrow> nat \<Rightarrow> bool" where
  "value_in_range grp v \<longleftrightarrow> v < 256 ^ lg_num_limbs grp \<and> v < (if lg_max_bits grp \<le> 64 then 2 ^ 64 else 2 ^ 128)"

abbreviation limb_value :: "('a::field \<Rightarrow> u64) \<Rightarrow> ('a \<Rightarrow> u8 list) \<Rightarrow> 'a list list \<Rightarrow> logup_group \<Rightarrow> nat \<Rightarrow> nat \<Rightarrow> 'a" where
  "limb_value to_u64 to_bytes cols grp k i \<equiv> scalar_from_u64 (zx (row_bytes to_u64 to_bytes cols grp i ! k))"

lemma scalar_byte: "scalar_from_u64 (zx b) = (of_nat (unat (b :: u8)) :: 'a::field)"
proof -
  have "uint b < 2 ^ 64" using unsigned_less [of b, where ?'a = int] by simp
  then have "uint (zx b) = uint b" by (simp add: unsigned_ucast_eq take_bit_int_eq_self)
  then show ?thesis by (simp add: scalar_from_u64_def)
qed

lemma length_row_bytes [simp]: "length (row_bytes to_u64 to_bytes cols grp i) = lg_num_limbs grp"
  by (simp add: row_bytes_def Let_def decompose_to_bytes_def decompose_scalar_to_bytes_def)

lemma row_bytes_recompose:
  fixes big fr curve
  defines "to_u64 \<equiv> scalar_to_u64 big fr curve" and "to_bytes \<equiv> scalar_to_bytes big fr curve"
  assumes lib: "library_bytes big fr" and "decomposable curve grp" and "value_in_range grp v" and "cols ! lg_column_index grp ! i = of_nat v"
  shows "recompose (\<lambda>k. limb_value to_u64 to_bytes cols grp k i) (lg_num_limbs grp) = of_nat v"
proof (cases "lg_max_bits grp \<le> 64")
  case True
  with assms have v: "v < 2 ^ 64" "v < 256 ^ lg_num_limbs grp" "to_u64 (of_nat v) = of_nat v"
    by (simp_all add: value_in_range_def scalar_to_u64_nat)
  have "be_nat (rev (to_le_bytes 8 (of_nat v :: u64))) = v"
    using be_nat_to_be_bytes [of "of_nat v"] v(1) by (simp add: to_be_bytes_def unat_of_nat_u64)
  from recompose_le_bytes [OF v(2) this] True assms(6) v(3) show ?thesis
    by (simp add: row_bytes_def decompose_to_bytes_take scalar_byte)
next
  case False
  with assms have v: "v < 256 ^ lg_num_limbs grp" "be_nat (to_bytes (of_nat v)) = v"
    by (simp_all add: value_in_range_def decomposable_def library_bytes_def)
  from recompose_le_bytes [OF v(1), of "rev (to_bytes (of_nat v))"] v(2) False assms(6) show ?thesis
    by (simp add: row_bytes_def Let_def decompose_scalar_take scalar_byte)
qed

text \<open>
  On BLS12-381 the limbs of a wide group are taken from the wrong end: all limbs of every value below \<open>2 ^ 128\<close>
  are zero, so its decomposition constraint holds for the value zero only.
\<close>

lemma wide_limbs_bls12381:
  assumes "library_bytes big fr" and "64 < lg_max_bits grp" and "lg_num_limbs grp \<le> 16" and "v < 2 ^ 128"
    and "cols ! lg_column_index grp ! i = of_nat v"
  shows "row_bytes (scalar_to_u64 big fr Bls12381) (scalar_to_bytes big fr Bls12381) cols grp i = replicate (lg_num_limbs grp) 0"
proof -
  let ?bs = "fr (of_nat v)"
  have lib: "length ?bs = 32" "be_nat (rev ?bs) = v" using assms(1,4) by (auto simp: library_bytes_def)
  have "rev ?bs = rev (drop 16 ?bs) @ rev (take 16 ?bs)" by (simp flip: rev_append)
  then have "be_nat (rev ?bs) = be_nat (rev (drop 16 ?bs)) * 256 ^ 16 + be_nat (rev (take 16 ?bs))"
    using lib(1) by (simp add: be_nat_append)
  then have "be_nat (rev (drop 16 ?bs)) = 0"
    using lib(2) assms(4) by (cases "be_nat (rev (drop 16 ?bs))") auto
  then have "rev (drop 16 ?bs) = replicate 16 0"
    using lib(1) by (intro be_nat_inj) (simp_all add: be_nat_zeros)
  with \<open>rev ?bs = _\<close> have "rev ?bs = replicate 16 0 @ rev (take 16 ?bs)" by simp
  then have "take (lg_num_limbs grp) (rev ?bs @ replicate (lg_num_limbs grp) 0) = replicate (lg_num_limbs grp) 0"
    using assms(3) by (simp add: min_def)
  then show ?thesis using assms(2,5) by (simp add: row_bytes_def Let_def decompose_scalar_take)
qed

section \<open>Multiplicities\<close>

definition limb_count :: "('a::field \<Rightarrow> u64) \<Rightarrow> ('a \<Rightarrow> u8 list) \<Rightarrow> 'a list list \<Rightarrow> logup_group list \<Rightarrow> nat \<Rightarrow> nat \<Rightarrow> nat" where
  "limb_count to_u64 to_bytes cols groups n b =
     (\<Sum>grp\<leftarrow>groups. \<Sum>i\<leftarrow>[0..<n]. if group_active cols grp i then count_list (row_bytes to_u64 to_bytes cols grp i) (of_nat b) else 0)"

lemma count_bytes:
  "length c = 256 \<Longrightarrow> b < 256 \<Longrightarrow>
    length (fold (\<lambda>y c. c[unat y := c ! unat y + 1]) bs c) = 256
    \<and> fold (\<lambda>y c. c[unat y := c ! unat y + 1]) bs c ! b = c ! b + (of_nat (count_list bs (of_nat b :: u8)) :: u64)"
proof (induction bs arbitrary: c)
  case (Cons y bs)
  have "unat y = b \<longleftrightarrow> y = of_nat b"
  proof
    assume "y = of_nat b"
    then show "unat y = b" using Cons.prems(2) by (simp add: unat_of_nat)
  qed auto
  with Cons.IH [of "c[unat y := c ! unat y + 1]"] Cons.prems unat_byte_less [of y] show ?case
    by (auto simp: nth_list_update)
qed simp

lemma fold_counts:
  assumes "\<And>x c. length c = 256 \<Longrightarrow> length (step x c) = 256 \<and> step x c ! b = c ! b + (of_nat (f x) :: u64)"
  shows "length c = 256 \<Longrightarrow>
    length (fold step xs c) = 256 \<and> fold step xs c ! b = c ! b + of_nat (\<Sum>x\<leftarrow>xs. f x)"
  using assms by (induction xs arbitrary: c) (auto simp: add.assoc)

lemma byte_counts_nth:
  assumes "b < 256"
  shows "byte_counts to_u64 to_bytes cols groups n ! b = of_nat (limb_count to_u64 to_bytes cols groups n b)"
proof -
  let ?row = "\<lambda>grp row counts. if group_active cols grp row
      then fold (\<lambda>b c. c[unat b := c ! unat b + 1]) (row_bytes to_u64 to_bytes cols grp row) counts else counts"
  let ?f = "\<lambda>grp i. if group_active cols grp i then count_list (row_bytes to_u64 to_bytes cols grp i) (of_nat b) else 0"
  have row: "length (?row grp i c) = 256 \<and> ?row grp i c ! b = c ! b + of_nat (?f grp i)" if "length c = 256" for grp i and c :: "u64 list"
    using count_bytes [OF that assms] that by simp
  have grp: "length (fold (?row grp) [0..<n] c) = 256 \<and> fold (?row grp) [0..<n] c ! b = c ! b + of_nat (\<Sum>i\<leftarrow>[0..<n]. ?f grp i)"
    if "length c = 256" for grp and c :: "u64 list"
    using row that by (rule fold_counts)
  have "length (fold (\<lambda>grp. fold (?row grp) [0..<n]) groups (replicate 256 (0 :: u64))) = 256
      \<and> fold (\<lambda>grp. fold (?row grp) [0..<n]) groups (replicate 256 (0 :: u64)) ! b =
        replicate 256 (0 :: u64) ! b + of_nat (\<Sum>grp\<leftarrow>groups. \<Sum>i\<leftarrow>[0..<n]. ?f grp i)"
    by (rule fold_counts [where f = "\<lambda>grp. \<Sum>i\<leftarrow>[0..<n]. ?f grp i", OF grp]) simp_all
  with assms show ?thesis by (simp add: byte_counts_def limb_count_def)
qed

lemma sum_over_bytes:
  fixes q :: "nat \<Rightarrow> 'a::field"
  shows "(\<Sum>b<256. of_nat (count_list bs (of_nat b :: u8)) * q b) = (\<Sum>y\<leftarrow>bs. q (unat y))"
proof (induction bs)
  case (Cons y bs)
  have eq: "y = of_nat b \<longleftrightarrow> b = unat y" if "b < 256" for b
    using that by (auto simp: unat_of_nat)
  have "(\<Sum>b<256. of_nat (count_list (y # bs) (of_nat b)) * q b) =
      (\<Sum>b<256. (if b = unat y then q b else 0) + of_nat (count_list bs (of_nat b)) * q b)"
    by (intro sum.cong refl) (simp add: eq algebra_simps)
  also have "\<dots> = q (unat y) + (\<Sum>b<256. of_nat (count_list bs (of_nat b)) * q b)"
    using unat_byte_less [of y] by (simp add: sum.distrib)
  finally show ?case using Cons by simp
qed simp

lemma sum_of_counts:
  fixes q :: "nat \<Rightarrow> 'a::field"
  shows "(\<Sum>b<m. of_nat (\<Sum>x\<leftarrow>xs. f x b) * q b) = (\<Sum>x\<leftarrow>xs. \<Sum>b<m. of_nat (f x b) * q b)"
  by (induction xs) (simp_all add: algebra_simps sum.distrib)

text \<open>The table side of the sum is the limb side.\<close>

lemma table_sum:
  fixes q :: "nat \<Rightarrow> 'a::field"
  shows "(\<Sum>b<256. of_nat (limb_count to_u64 to_bytes cols groups n b) * q b) =
    (\<Sum>grp\<leftarrow>groups. \<Sum>i\<leftarrow>[0..<n]. if group_active cols grp i then \<Sum>y\<leftarrow>row_bytes to_u64 to_bytes cols grp i. q (unat y) else 0)"
  unfolding limb_count_def sum_of_counts
  by (intro arg_cong [of _ _ sum_list] map_cong refl) (simp add: sum_over_bytes)

lemma limb_count_bound: "limb_count to_u64 to_bytes cols groups n b \<le> n * total_num_limbs groups"
proof -
  have "count_list xs y \<le> length xs" for xs :: "u8 list" and y by (rule count_le_length)
  then have "(\<Sum>i\<leftarrow>[0..<n]. if group_active cols grp i then count_list (row_bytes to_u64 to_bytes cols grp i) (of_nat b) else 0)
      \<le> (\<Sum>i\<leftarrow>[0..<n]. lg_num_limbs grp)" for grp
    by (intro sum_list_mono) (metis le0 length_row_bytes)
  then have "limb_count to_u64 to_bytes cols groups n b \<le> (\<Sum>grp\<leftarrow>groups. n * lg_num_limbs grp)"
    unfolding limb_count_def by (intro sum_list_mono) (simp add: sum_list_triv)
  then show ?thesis by (simp add: total_num_limbs_def sum_list_const_mult)
qed

section \<open>The running sum\<close>

lemma fold_sum_upt: "fold (\<lambda>k s. s + f k) [0..<l] (acc :: 'a::field) = acc + (\<Sum>k<l. f k)"
  by (simp add: fold_add_sum sum_list_upt)

text \<open>The tests for zero denominators do not change the sum, since the inverse of zero is zero here.\<close>

lemma limb_sum_eq:
  "limb_sum cols groups lc gamma i acc =
     acc + (\<Sum>g<length groups. if group_active cols (groups ! g) i then \<Sum>k<lg_num_limbs (groups ! g). inverse (gamma - lc ! g ! k ! i) else 0)"
proof -
  have test: "(let denom = d in if denom \<noteq> 0 then s + inverse denom else s) = s + inverse d" for d s :: 'a by simp
  have inner: "fold (\<lambda>limb_idx s. let denom = gamma - lc ! g ! limb_idx ! i in if denom \<noteq> 0 then s + inverse denom else s) [0..<l] s =
      s + (\<Sum>k<l. inverse (gamma - lc ! g ! k ! i))" for g l s
    unfolding test by (rule fold_sum_upt)
  have "limb_sum cols groups lc gamma i acc =
      fold (\<lambda>g s. s + (if group_active cols (groups ! g) i
        then \<Sum>k<lg_num_limbs (groups ! g). inverse (gamma - lc ! g ! k ! i) else 0)) [0..<length groups] acc"
    unfolding limb_sum_def inner by (intro fold_cong refl) (simp add: Let_def)
  then show ?thesis by (simp add: fold_sum_upt)
qed

lemma h_step_eq:
  assumes "i < 2 ^ 64"
  shows "h_step cols groups lc m gamma i h =
     h + (\<Sum>g<length groups. if group_active cols (groups ! g) i then \<Sum>k<lg_num_limbs (groups ! g). inverse (gamma - lc ! g ! k ! i) else 0)
       - m ! i * inverse (gamma - of_nat i)"
  using assms by (simp add: h_step_def Let_def limb_sum_eq scalar_of_nat)

lemma running_sum_nth:
  fixes s :: "nat \<Rightarrow> 'a::field"
  assumes "\<And>i h. i < n \<Longrightarrow> step i h = h + s i" and "i < n"
  shows "fold (\<lambda>i h. h[i := step (i - 1) (h ! (i - 1))]) [1..<n] (replicate n 0) ! i = (\<Sum>j<i. s j)"
proof -
  have "length (fold (\<lambda>i h. h[i := step (i - 1) (h ! (i - 1))]) [1..<l] (replicate n 0)) = n
      \<and> (\<forall>i<n. fold (\<lambda>i h. h[i := step (i - 1) (h ! (i - 1))]) [1..<l] (replicate n 0) ! i = (if i < l then \<Sum>j<i. s j else 0))"
    if "1 \<le> l" "l \<le> n" for l
    using that
  proof (induction l rule: nat_induct_at_least)
    case (Suc l)
    then have "step (l - 1) (\<Sum>j<l - 1. s j) = (\<Sum>j<l. s j)"
      using assms(1) [of "l - 1"] sum.lessThan_Suc [of s "l - 1"] by simp
    with Suc show ?case by (auto simp: nth_list_update less_Suc_eq)
  qed (auto simp: less_Suc_eq_0_disj)
  from this [of n] show ?thesis using assms(2) by auto
qed

section \<open>Completeness\<close>

lemma fold_update_nth:
  assumes "i < n"
  shows "fold (\<lambda>i m. if i < n then m[i := f i] else m) [0..<l] (replicate n 0) ! i = (if i < l then f i else (0 :: 'a::field))"
proof -
  have "length (fold (\<lambda>i m. if i < n then m[i := f i] else m) [0..<l] (replicate n 0)) = n
      \<and> fold (\<lambda>i m. if i < n then m[i := f i] else m) [0..<l] (replicate n 0) ! i = (if i < l then f i else 0)"
    using assms by (induction l) (auto simp: nth_list_update less_Suc_eq)
  then show ?thesis by simp
qed

lemma length_folds:
  "length (fold (\<lambda>i m. if i < n then m[i := f i] else m) is xs) = length xs"
  "length (fold (\<lambda>i h. h[i := g i h]) is xs) = length xs"
  by (induction "is" arbitrary: xs) simp_all

text \<open>The columns of the honest prover, laid out.\<close>

lemma honest_columns:
  fixes cols :: "'a::field list list" and gamma :: 'a and to_u64 to_bytes groups n
  defines "w \<equiv> compute_extended_logup_witness to_u64 to_bytes cols groups gamma n"
    and "L \<equiv> \<lambda>g k i. limb_value to_u64 to_bytes cols (groups ! g) k i"
  shows "logup_columns w = flat_columns groups n L @ flat_columns groups n (\<lambda>g k i. inverse (gamma - L g k i))
      @ [range_table_column n, map (\<lambda>i. inverse (gamma - range_table_column n ! i)) [0..<n], xw_h_column w, xw_m_column w]"
proof -
  let ?lc = "map (group_limbs to_u64 to_bytes cols n) groups"
  have lc: "?lc = map (\<lambda>g. map (\<lambda>k. map (L g k) [0..<n]) [0..<lg_num_limbs (groups ! g)]) [0..<length groups]"
    by (rule nth_equalityI) (simp_all add: group_limbs_def L_def)
  have "map (\<lambda>(g, grp). map (\<lambda>k. map (\<lambda>i. inverse (gamma - ?lc ! g ! k ! i)) [0..<n]) [0..<lg_num_limbs grp]) (zip [0..<length groups] groups) =
      map (\<lambda>g. map (\<lambda>k. map (\<lambda>i. inverse (gamma - L g k i)) [0..<n]) [0..<lg_num_limbs (groups ! g)]) [0..<length groups]"
    by (rule nth_equalityI) (simp_all add: group_limbs_def L_def)
  with lc show ?thesis
    by (simp add: logup_columns_def w_def compute_extended_logup_witness_def compute_logup_witness_def Let_def flat_columns_def)
qed

lemma honest_m_nth:
  fixes cols :: "'a::field list list"
  assumes "i < n" and "n * total_num_limbs groups < 2 ^ 64"
  shows "xw_m_column (compute_extended_logup_witness to_u64 to_bytes cols groups gamma n) ! i =
    (if i < 256 then of_nat (limb_count to_u64 to_bytes cols groups n i) else 0)"
proof -
  have "limb_count to_u64 to_bytes cols groups n i < 2 ^ 64"
    using limb_count_bound [of to_u64 to_bytes cols groups n i] assms(2) by simp
  then show ?thesis
    using assms(1)
    by (simp add: compute_extended_logup_witness_def compute_logup_witness_def Let_def fold_update_nth byte_counts_nth scalar_of_nat)
qed

lemma honest_h_nth:
  fixes cols :: "'a::field list list"
  assumes "i < n" and "n < 2 ^ 64"
  shows "xw_h_column (compute_extended_logup_witness to_u64 to_bytes cols groups gamma n) ! i =
    (\<Sum>j<i. (\<Sum>g<length groups. if group_active cols (groups ! g) j
          then \<Sum>k<lg_num_limbs (groups ! g). inverse (gamma - limb_value to_u64 to_bytes cols (groups ! g) k j) else 0)
       - xw_m_column (compute_extended_logup_witness to_u64 to_bytes cols groups gamma n) ! j * inverse (gamma - of_nat j))"
proof -
  have "(\<Sum>g<length groups. if group_active cols (groups ! g) j
      then \<Sum>k<lg_num_limbs (groups ! g). inverse (gamma - map (group_limbs to_u64 to_bytes cols n) groups ! g ! k ! j) else 0) =
    (\<Sum>g<length groups. if group_active cols (groups ! g) j
      then \<Sum>k<lg_num_limbs (groups ! g). inverse (gamma - limb_value to_u64 to_bytes cols (groups ! g) k j) else 0)"
    if "j < n" for j
    using that by (intro sum.cong refl if_cong) (simp_all add: group_limbs_def)
  then show ?thesis
    unfolding compute_extended_logup_witness_def compute_logup_witness_def Let_def extended_logup_witness.simps logup_witness.simps
    by (intro running_sum_nth [OF _ assms(1)]) (use assms(2) in \<open>simp add: h_step_eq\<close>)
qed

text \<open>The running sum closes.\<close>

lemma honest_sum_closes:
  fixes cols :: "'a::field list list"
  assumes "256 \<le> n" and "n * total_num_limbs groups < 2 ^ 64"
  shows "(\<Sum>j<n. (\<Sum>g<length groups. if group_active cols (groups ! g) j
          then \<Sum>k<lg_num_limbs (groups ! g). inverse (gamma - limb_value to_u64 to_bytes cols (groups ! g) k j) else 0)
       - xw_m_column (compute_extended_logup_witness to_u64 to_bytes cols groups gamma n) ! j * inverse (gamma - of_nat j)) = 0"
proof -
  let ?q = "\<lambda>b. inverse (gamma - of_nat b)"
  have bytes: "(\<Sum>k<lg_num_limbs grp. inverse (gamma - limb_value to_u64 to_bytes cols grp k j)) =
      (\<Sum>y\<leftarrow>row_bytes to_u64 to_bytes cols grp j. ?q (unat y))" for grp j
    using sum_list_upt [of "\<lambda>k. ?q (unat (row_bytes to_u64 to_bytes cols grp j ! k))" "lg_num_limbs grp"]
      map_nth [of "row_bytes to_u64 to_bytes cols grp j"]
    by (simp add: scalar_byte map_upt_eqI sum_list_sum_nth atLeast0LessThan)
  have "(\<Sum>j<n. xw_m_column (compute_extended_logup_witness to_u64 to_bytes cols groups gamma n) ! j * ?q j) =
      (\<Sum>j<n. if j < 256 then of_nat (limb_count to_u64 to_bytes cols groups n j) * ?q j else 0)"
    by (intro sum.cong refl) (simp add: honest_m_nth [OF _ assms(2)])
  also have "\<dots> = (\<Sum>b<256. of_nat (limb_count to_u64 to_bytes cols groups n b) * ?q b)"
    using assms(1) by (intro sum.mono_neutral_cong_right) auto
  also have "\<dots> = (\<Sum>g<length groups. \<Sum>j<n. if group_active cols (groups ! g) j
      then \<Sum>y\<leftarrow>row_bytes to_u64 to_bytes cols (groups ! g) j. ?q (unat y) else 0)"
    unfolding table_sum sum_list_upt by (simp add: sum_list_sum_nth atLeast0LessThan)
  also have "\<dots> = (\<Sum>j<n. \<Sum>g<length groups. if group_active cols (groups ! g) j
      then \<Sum>k<lg_num_limbs (groups ! g). inverse (gamma - limb_value to_u64 to_bytes cols (groups ! g) k j) else 0)"
    unfolding bytes by (rule sum.swap)
  finally show ?thesis by (simp add: sum_subtractf)
qed

lemma honest_h_step:
  fixes cols :: "'a::field list list" and gamma :: 'a and to_u64 to_bytes
  assumes n: "256 \<le> n" "n < 2 ^ 64" and size: "n * total_num_limbs groups < 2 ^ 64" and i: "i < n"
  defines "w \<equiv> compute_extended_logup_witness to_u64 to_bytes cols groups gamma n"
  shows "xw_h_column w ! (Suc i mod n) = xw_h_column w ! i
    + ((\<Sum>g<length groups. if group_active cols (groups ! g) i
          then \<Sum>k<lg_num_limbs (groups ! g). inverse (gamma - limb_value to_u64 to_bytes cols (groups ! g) k i) else 0)
       - xw_m_column w ! i * inverse (gamma - of_nat i))"
proof -
  let ?s = "\<lambda>j. (\<Sum>g<length groups. if group_active cols (groups ! g) j
      then \<Sum>k<lg_num_limbs (groups ! g). inverse (gamma - limb_value to_u64 to_bytes cols (groups ! g) k j) else 0)
       - xw_m_column w ! j * inverse (gamma - of_nat j)"
  have h: "xw_h_column w ! i = (\<Sum>j<i. ?s j)" if "i < n" for i using honest_h_nth [OF that n(2)] by (simp only: w_def)
  show ?thesis
  proof (cases "Suc i = n")
    case True
    then have "(\<Sum>j<i. ?s j) + ?s i = 0"
      using honest_sum_closes [OF n(1) size, of cols gamma to_u64 to_bytes] sum.lessThan_Suc [of ?s i] by (simp add: w_def)
    with True h [OF i] h [of 0] n(1) show ?thesis by simp
  next
    case False
    with i h [of i] h [of "Suc i"] show ?thesis by simp
  qed
qed

lemma honest_decomposition:
  fixes big fr curve
  defines "to_u64 \<equiv> scalar_to_u64 big fr curve" and "to_bytes \<equiv> scalar_to_bytes big fr curve"
  assumes conv: "library_bytes big fr" "decomposable curve grp" and sel: "act forms grp i = (if group_active forms grp i then 1 else 0)"
    and val: "group_active forms grp i \<Longrightarrow> \<exists>v. value_in_range grp v \<and> forms ! lg_column_index grp ! i = of_nat v"
  shows "act forms grp i = 0
    \<or> forms ! lg_column_index grp ! i = recompose (\<lambda>k. limb_value to_u64 to_bytes forms grp k i) (lg_num_limbs grp)"
proof (cases "group_active forms grp i")
  case True
  with val obtain v where "value_in_range grp v" "forms ! lg_column_index grp ! i = of_nat v" by blast
  then show ?thesis using row_bytes_recompose [OF conv, folded to_u64_def to_bytes_def] by simp
qed (use sel in simp)

text \<open>
  C19. The LogUp columns that the prover computes are accepted, for every challenge outside the table and every combination
  of the constraints, on a domain of at least 256 rows, if the byte representations of the curve libraries are as documented; every
  group is at most 64 bits wide or the curve is BLS48-581; the number of limbs in the trace is below \<open>2^64\<close>; the groups refer
  to columns of the trace; the selector sum of each group is one in the rows that count as active and zero in all others;
  and the value of each active group is in its declared range and below \<open>2^64\<close>, or \<open>2^128\<close> for wider groups.
\<close>

theorem logup_complete:
  fixes forms :: "'a::field list list" and big fr curve
  defines "to_u64 \<equiv> scalar_to_u64 big fr curve" and "to_bytes \<equiv> scalar_to_bytes big fr curve"
  assumes dom: "root_domain omega n" and n: "256 \<le> n" and wf: "groups_wf forms groups"
    and size: "n * total_num_limbs groups < 2 ^ 64" and conv: "library_bytes big fr"
    and width: "\<forall>grp\<in>set groups. decomposable curve grp"
    and sel: "\<forall>grp\<in>set groups. \<forall>i<n. act forms grp i = (if group_active forms grp i then 1 else 0)"
    and range: "\<forall>grp\<in>set groups. \<forall>i<n. group_active forms grp i \<longrightarrow>
      (\<exists>v. value_in_range grp v \<and> forms ! lg_column_index grp ! i = of_nat v)"
    and gamma: "\<forall>b<256. gamma \<noteq> of_nat b"
  shows "logup_accepts forms (logup_columns (compute_extended_logup_witness to_u64 to_bytes forms groups gamma n))
    groups gamma omega n UNIV off"
proof -
  let ?w = "compute_extended_logup_witness to_u64 to_bytes forms groups gamma n"
  let ?L = "\<lambda>g k i. limb_value to_u64 to_bytes forms (groups ! g) k i"
  have n64: "n < 2 ^ 64" "0 < n" using dom by (simp_all add: root_domain_def)
  note step = honest_h_step [OF n n64(1) size]
  have h0: "xw_h_column ?w ! 0 = 0" using honest_h_nth [OF n64(2,1), of to_u64 to_bytes forms groups gamma] by simp
  have limb: "gamma - ?L g k i \<noteq> 0" for g k i 
    using gamma unat_byte_less [of "row_bytes to_u64 to_bytes forms (groups ! g) i ! k"] unfolding scalar_byte right_minus_eq by blast
  have tab: "gamma - range_table_column n ! i \<noteq> 0" if "i < n" for i
    using gamma n64 that by (auto simp: range_table_nth dest: spec [of _ 0])
  have lens: "length (xw_h_column ?w) = n" "length (xw_m_column ?w) = n"
    by (simp_all add: compute_extended_logup_witness_def compute_logup_witness_def Let_def length_folds)
  have "logup_cols_ok forms (logup_columns ?w) groups gamma n i" if i: "i < n" for i
    unfolding honest_columns
  proof (rule flat_columns_ok)
    have mod: "Suc i mod n < n" using n64 by simp
    have decomp: "act forms (groups ! g) i = 0
        \<or> forms ! lg_column_index (groups ! g) ! i = recompose (\<lambda>k. ?L g k i) (lg_num_limbs (groups ! g))" if "g < length groups" for g
      using sel range width i that unfolding to_u64_def to_bytes_def
      by (intro honest_decomposition [OF conv]) (meson nth_mem)+
    have active: "(\<Sum>g<length groups. act forms (groups ! g) i * (\<Sum>k<lg_num_limbs (groups ! g). inverse (gamma - ?L g k i))) =
        (\<Sum>g<length groups. if group_active forms (groups ! g) i then \<Sum>k<lg_num_limbs (groups ! g). inverse (gamma - ?L g k i) else 0)"
      using sel i by (intro sum.cong refl) (simp del: sum_distrib_left)
    have table: "xw_m_column ?w ! i * inverse (gamma - of_nat i) = xw_m_column ?w ! i * inverse (gamma - range_table_column n ! i)"
      using honest_m_nth [OF i size, of to_u64 to_bytes forms gamma] i n64 by (simp add: range_table_nth)
    show "logup_row_ok forms groups ?L (\<lambda>g k i. inverse (gamma - ?L g k i)) (\<lambda>i. range_table_column n ! i)
        (\<lambda>i. map (\<lambda>i. inverse (gamma - range_table_column n ! i)) [0..<n] ! i) (\<lambda>i. xw_h_column ?w ! i) (\<lambda>i. xw_m_column ?w ! i) gamma n i"
      unfolding logup_row_ok_def
    proof (intro conjI allI impI)
      show "xw_h_column ?w ! (Suc i mod n) - xw_h_column ?w ! i
          - (\<Sum>g<length groups. act forms (groups ! g) i * (\<Sum>k<lg_num_limbs (groups ! g). inverse (gamma - ?L g k i)))
          + xw_m_column ?w ! i * map (\<lambda>i. inverse (gamma - range_table_column n ! i)) [0..<n] ! i = 0"
        unfolding step [OF i] active table using i by simp
    qed (use decomp h0 limb tab [OF i] i in simp_all)
  qed (simp_all add: lens i)
  then show ?thesis
    by (intro logup_rows_accepted [OF dom wf]) (simp_all add: honest_columns nth_append length_flat_columns)
qed

text \<open>An instance over the complex numbers, which have a root of unity of order 256.\<close>

definition complex_bytes :: "nat \<Rightarrow> complex \<Rightarrow> u8 list" where
  "complex_bytes zeros z =
     (let m = nat \<lfloor>Re z\<rfloor> in replicate zeros 0 @ to_be_bytes (of_nat (m div 2 ^ 64)) @ to_be_bytes (of_nat m))"

lemma complex_library: "library_bytes (complex_bytes 57) (\<lambda>z. rev (complex_bytes 16 z))"
  unfolding library_bytes_def
proof (intro allI impI)
  fix v :: nat assume v: "v < 2 ^ 128"
  then have "v div 2 ^ 64 < 2 ^ 64" by (simp add: less_mult_imp_div_less)
  then have "unat (of_nat (v div 2 ^ 64) :: u64) = v div 2 ^ 64" by (rule unat_of_nat_u64)
  moreover have "unat (of_nat v :: u64) = v mod 2 ^ 64" by (simp add: unat_of_nat take_bit_eq_mod)
  ultimately have "be_nat (complex_bytes k (of_nat v)) = v" for k
    using div_mult_mod_eq [of v "2 ^ 64"] by (simp add: complex_bytes_def be_nat_append be_nat_zeros)
  then show "length (complex_bytes 57 (of_nat v)) = 73 \<and> be_nat (complex_bytes 57 (of_nat v)) = v \<and>
      length (rev (complex_bytes 16 (of_nat v))) = 32 \<and> be_nat (rev (rev (complex_bytes 16 (of_nat v)))) = v"
    by (simp add: complex_bytes_def)
qed

lemma root_domain_256: "root_domain (cis (2 * pi / 256)) 256"
proof -
  have "cis (2 * pi / 256) ^ i \<noteq> 1" if "i \<in> {1..<256}" for i
  proof
    assume "cis (2 * pi / 256) ^ i = 1"
    then have "cos (real i * (2 * pi / 256)) = 1" by (simp add: DeMoivre complex_eq_iff)
    then obtain k :: int where "real i * (2 * pi / 256) = of_int k * 2 * pi" using cos_one_2pi_int by blast
    then have "real i = real_of_int (k * 256)" by (simp add: field_simps)
    then have "int i = k * 256" using of_int_eq_iff [of "int i" "k * 256", where ?'a = real] by simp
    with that show False by auto presburger
  qed
  moreover have "cis (2 * pi / 256) ^ 256 = 1" by (simp add: DeMoivre)
  ultimately show ?thesis by (simp add: root_domain_def list_all_iff)
qed

theorem logup_complete_witness:
  "logup_accepts [replicate 256 200] (logup_columns (compute_extended_logup_witness
      (scalar_to_u64 (complex_bytes 57) (\<lambda>z. rev (complex_bytes 16 z)) Bls12381)
      (scalar_to_bytes (complex_bytes 57) (\<lambda>z. rev (complex_bytes 16 z)) Bls12381)
      [replicate 256 200] [byte_group] 300 256)) [byte_group] 300 (cis (2 * pi / 256)) 256 UNIV 0"
proof (rule logup_complete [OF root_domain_256 _ _ _ complex_library])
  show "\<forall>grp\<in>set [byte_group]. \<forall>i<256. group_active [replicate 256 200] grp i \<longrightarrow>
      (\<exists>v. value_in_range grp v \<and> [replicate 256 (200 :: complex)] ! lg_column_index grp ! i = of_nat v)"
    by (auto simp: byte_group_def value_in_range_def intro!: exI [of _ 200])
  show "\<forall>b<256. (300 :: complex) \<noteq> of_nat b"
  proof (intro allI impI)
    fix b :: nat assume "b < 256"
    then show "(300 :: complex) \<noteq> of_nat b" using of_nat_eq_iff [of 300 b, where ?'a = complex] by simp
  qed
qed (simp_all add: decomposable_def groups_wf_def byte_group_def total_num_limbs_def act_def group_active_def)

end
