(* ===== verification/Zkp_Lookup_Table.thy ===== *)
theory Zkp_Lookup_Table
  imports Zkp_Lookup_Sound
begin

text \<open>
  The verifier's own evaluation of the range table is the evaluation of the committed table: it equals the value of the
  polynomial of degree below the domain size that takes the values of the table on the domain, at every
  point, inside the domain and outside.
\<close>

section \<open>Sums of powers\<close>

definition power_kernel :: "nat \<Rightarrow> 'a::field \<Rightarrow> 'a \<Rightarrow> 'a" where
  "power_kernel n x y = (\<Sum>k<n. x ^ k * y ^ (n - 1 - k))"

lemma power_kernel_diff: "0 < n \<Longrightarrow> (x - y) * power_kernel n x y = x ^ n - (y :: 'a::field) ^ n"
  using diff_power_eq_sum [of x "n - 1" y] by (simp add: power_kernel_def lessThan_Suc_atMost)

lemma power_kernel_domain:
  assumes "root_domain omega n" and "i < n" and "j < n"
  shows "omega ^ i * power_kernel n (omega ^ j) (omega ^ i) = (if i = j then of_nat n else 0)"
proof -
  have n: "0 < n" "omega ^ n = 1" using assms(1) by (simp_all add: root_domain_def)
  have one: "(omega ^ l) ^ n = 1" for l using n(2) by (metis mult.commute power_mult power_one)
  show ?thesis
  proof (cases "i = j")
    case True
    have "power_kernel n (omega ^ j) (omega ^ j) = (\<Sum>k<n. (omega ^ j) ^ (n - 1))"
      unfolding power_kernel_def by (intro sum.cong refl) (simp flip: power_add)
    then have "omega ^ j * power_kernel n (omega ^ j) (omega ^ j) = of_nat n * ((omega ^ j) ^ Suc (n - 1))"
      by (simp add: ac_simps)
    with True n one show ?thesis by simp
  next
    case False
    then have "omega ^ j - omega ^ i \<noteq> 0" using root_powers_distinct [OF assms] by auto
    moreover have "(omega ^ j - omega ^ i) * power_kernel n (omega ^ j) (omega ^ i) = 0"
      unfolding power_kernel_diff [OF n(1)] by (simp add: one)
    ultimately show ?thesis using False by simp
  qed
qed

section \<open>Interpolation\<close>

definition domain_interpolant :: "'a::field \<Rightarrow> nat \<Rightarrow> (nat \<Rightarrow> 'a) \<Rightarrow> 'a list" where
  "domain_interpolant omega n t =
     map (\<lambda>k. inverse (of_nat n) * (\<Sum>i<n. t i * omega ^ i * (omega ^ i) ^ (n - 1 - k))) [0..<n]"

lemma eval_domain_interpolant:
  "eval_poly_at (domain_interpolant omega n t) x = inverse (of_nat n) * (\<Sum>i<n. t i * (omega ^ i * power_kernel n x (omega ^ i)))"
proof -
  have "eval_poly_at (domain_interpolant omega n t) x =
      (\<Sum>k<n. inverse (of_nat n) * (\<Sum>i<n. t i * omega ^ i * (omega ^ i) ^ (n - 1 - k)) * x ^ k)"
    by (subst eval_sum [of _ n]) (auto intro!: sum.cong simp: domain_interpolant_def coeff_at_def)
  also have "\<dots> = inverse (of_nat n) * (\<Sum>k<n. \<Sum>i<n. t i * omega ^ i * (x ^ k * (omega ^ i) ^ (n - 1 - k)))"
    unfolding sum_distrib_left sum_distrib_right by (intro sum.cong refl) (simp add: ac_simps)
  also have "\<dots> = inverse (of_nat n) * (\<Sum>i<n. \<Sum>k<n. t i * omega ^ i * (x ^ k * (omega ^ i) ^ (n - 1 - k)))"
    by (subst sum.swap) simp
  finally show ?thesis by (simp add: power_kernel_def sum_distrib_left mult.assoc)
qed

lemma domain_interpolant_unique:
  assumes "root_domain omega n" and "length p \<le> n" and "\<And>i. i < n \<Longrightarrow> eval_poly_at p (omega ^ i) = t i"
  shows "eval_poly_at p x = eval_poly_at (domain_interpolant omega n t) x"
proof -
  have n: "(of_nat n :: 'a) \<noteq> 0" using assms(1) by (simp add: root_domain_def)
  let ?D = "(\<lambda>i. omega ^ i) ` {..<n}"
  have card: "card ?D = n"
    using root_powers_distinct [OF assms(1)] by (subst card_image) (auto simp: inj_on_def)
  have "eval_poly_at (domain_interpolant omega n t) (omega ^ j) = t j" if j: "j < n" for j
  proof -
    have "(\<Sum>i<n. t i * (omega ^ i * power_kernel n (omega ^ j) (omega ^ i))) = (\<Sum>i<n. if i = j then t i * of_nat n else 0)"
      by (intro sum.cong refl) (simp add: power_kernel_domain [OF assms(1)] j)
    then show ?thesis using j n by (simp add: eval_domain_interpolant)
  qed
  then have "set (poly_sub p (domain_interpolant omega n t)) \<subseteq> {0}"
  proof (intro many_roots_zero [of ?D])
    show "length (poly_sub p (domain_interpolant omega n t)) \<le> card ?D"
      using assms(2) unfolding card by (simp add: poly_sub_def domain_interpolant_def)
  qed (use assms(3) in auto)
  from eval_zero [OF this, of x] show ?thesis by simp
qed

section \<open>The verifier's evaluation\<close>

text \<open>A point whose power is one is in the domain.\<close>

lemma root_in_domain:
  assumes "root_domain omega n" and "z ^ n = 1"
  shows "\<exists>i<n. z = omega ^ i"
proof (rule ccontr)
  assume none: "\<not> (\<exists>i<n. z = omega ^ i)"
  let ?D = "(\<lambda>i. omega ^ i) ` {..<n}" and ?p = "domain_interpolant omega n (\<lambda>_. 1)"
  have n: "0 < n" "(of_nat n :: 'a) \<noteq> 0" "omega ^ n = 1" using assms(1) by (simp_all add: root_domain_def)
  have one: "(omega ^ l) ^ n = 1" for l using n(3) by (metis mult.commute power_mult power_one)
  have "power_kernel n z (omega ^ i) = 0" if "i < n" for i
  proof -
    have "z - omega ^ i \<noteq> 0" using none that by auto
    moreover have "(z - omega ^ i) * power_kernel n z (omega ^ i) = 0"
      unfolding power_kernel_diff [OF n(1)] by (simp add: one assms(2))
    ultimately show ?thesis by simp
  qed
  then have "eval_poly_at ?p z = 0" by (simp add: eval_domain_interpolant)
  moreover have "eval_poly_at ?p z = eval_poly_at [1] z"
    using n(1) by (intro domain_interpolant_unique [OF assms(1), symmetric]) simp_all
  ultimately show False by simp
qed

lemma find_power_domain:
  assumes "root_domain omega n" and "i < n"
  shows "find_power (omega ^ i) omega 1 [0..<n] = Some i"
proof -
  have "find_power (omega ^ i) omega (omega ^ a) [a..<n] = Some i" if "a \<le> i" for a
    using that
  proof (induction "i - a" arbitrary: a)
    case 0
    with assms(2) show ?case by (simp add: upt_conv_Cons)
  next
    case (Suc d)
    then have "omega ^ a \<noteq> omega ^ i" using root_powers_distinct [OF assms(1), of a i] assms(2) by auto
    with Suc.hyps(1) [of "Suc a"] Suc.hyps(2) Suc.prems assms(2) show ?case
      by (simp add: upt_conv_Cons mult.commute)
  qed
  from this [of 0] show ?thesis by simp
qed

lemma table_fold:
  fixes omega z :: "'a::field"
  assumes "m < 2 ^ 64"
  shows "fold (\<lambda>i (acc, omega_i). (if 0 < i then acc + scalar_from_u64 (of_nat i) * omega_i * inverse (z - omega_i) else acc, omega_i * omega))
      [0..<m] (0, 1) = (\<Sum>i<m. of_nat i * omega ^ i * inverse (z - omega ^ i), omega ^ m)"
  using assms
proof (induction m)
  case (Suc m)
  then show ?case by (auto simp: scalar_of_nat mult.commute)
qed simp

text \<open>
  C20. The value with which the verifier compares the claimed evaluation of the table is the evaluation of the only polynomial
  with fewer coefficients than domain points that takes the table's values on the domain, at every
  point: the table that the prover commits cannot differ from the canonical one.
\<close>

theorem range_table_binding:
  fixes omega z :: "'a::field"
  assumes dom: "root_domain omega n" and len: "length p \<le> n"
    and vals: "\<forall>i<n. eval_poly_at p (omega ^ i) = range_table_column n ! i"
  shows "eval_poly_at p z = evaluate_range_table_at_point z omega n"
proof (cases "z ^ n = 1")
  case True
  then obtain i where i: "i < n" "z = omega ^ i" using root_in_domain [OF dom] by blast
  moreover have "i < 2 ^ 64" using i(1) dom by (simp add: root_domain_def)
  ultimately show ?thesis
    using vals True find_power_domain [OF dom i(1)] dom
    by (simp add: evaluate_range_table_at_point_def pow_loop_eq range_table_nth root_domain_def RANGE_TABLE_SIZE_def scalar_of_nat)
next
  case False
  let ?m = "min n RANGE_TABLE_SIZE"
  have n: "0 < n" "n < 2 ^ 64" "omega ^ n = 1" using dom by (simp_all add: root_domain_def)
  have one: "(omega ^ l) ^ n = 1" for l using n(3) by (metis mult.commute power_mult power_one)
  have kernel: "power_kernel n z (omega ^ i) = (z ^ n - 1) * inverse (z - omega ^ i)" for i
  proof -
    have "z - omega ^ i \<noteq> 0" using False one [of i] by auto
    then show ?thesis using power_kernel_diff [OF n(1), of z "omega ^ i"] by (simp add: one field_simps)
  qed
  have "(\<Sum>i<n. range_table_column n ! i * (omega ^ i * power_kernel n z (omega ^ i))) =
      (\<Sum>i<?m. of_nat i * (omega ^ i * power_kernel n z (omega ^ i)))"
    using n(2) by (intro sum.mono_neutral_cong_right) (auto simp: range_table_nth RANGE_TABLE_SIZE_def)
  also have "\<dots> = (z ^ n - 1) * (\<Sum>i<?m. of_nat i * omega ^ i * inverse (z - omega ^ i))"
    unfolding kernel sum_distrib_left by (intro sum.cong refl) (simp add: ac_simps)
  finally have "eval_poly_at p z = inverse (of_nat n) * ((z ^ n - 1) * (\<Sum>i<?m. of_nat i * omega ^ i * inverse (z - omega ^ i)))"
    using domain_interpolant_unique [OF dom len, of "\<lambda>i. range_table_column n ! i" z] vals by (simp add: eval_domain_interpolant)
  moreover have "?m < 2 ^ 64" using n(2) by simp
  ultimately show ?thesis
    using False n(2) unfolding evaluate_range_table_at_point_def Let_def table_fold [OF \<open>?m < 2 ^ 64\<close>]
    by (simp add: pow_loop_eq scalar_of_nat)
qed

theorem range_table_binding_witness:
  "eval_poly_at [1 / 2, - (1 / 2)] 7 = (evaluate_range_table_at_point 7 (- 1) 2 :: rat)"
proof (rule range_table_binding [OF root_domain_2])
  have "i < 2 \<longleftrightarrow> i = 0 \<or> i = 1" for i :: nat by auto
  then show "\<forall>i<2. eval_poly_at [1 / 2, - (1 / 2)] ((- 1) ^ i) = (range_table_column 2 ! i :: rat)"
    by (auto simp: range_table_nth eval_Cons)
qed simp

end
