(* ===== verification/Spec2Isabelle.thy ===== *)
theory Spec2Isabelle
  imports Rv_Stream Rv_Constraint_Poly Rv_Completeness Zkp_Objects Zkp_Finality Zkp_Bloom Core_Share Core_Transcript
    Zkp_Permutation_Honest Zkp_Permutation_Poly Evm_Validation
    Zkp_Lookup_Honest Zkp_Lookup_Table
begin

text \<open>
  A verification development for metavm: a RISC-V machine whose execution is traced, split into chunks,
  and proved with polynomial constraints, together with the Ethereum encodings, hashes, tries and
  finality rules that its proofs talk about.

  \<^bold>\<open>The program and its parts.\<close> The crate \<^verbatim>\<open>src/crates/riscv\<close> interprets RV64GC programs. \<^verbatim>\<open>vm.rs\<close> holds the machine:
  it fetches through the MMU (\<^verbatim>\<open>mmu.rs\<close>) and the decoder (\<^verbatim>\<open>decode.rs\<close>, \<^verbatim>\<open>isa.rs\<close>), executes on the hart (\<^verbatim>\<open>cpu.rs\<close>, \<^verbatim>\<open>csr.rs\<close>),
  the paged memory (\<^verbatim>\<open>memory.rs\<close>) and the devices (\<^verbatim>\<open>mmio.rs\<close>, \<^verbatim>\<open>virtio.rs\<close>), and delivers traps (\<^verbatim>\<open>trap.rs\<close>). The tracer
  (\<^verbatim>\<open>trace.rs\<close>) wraps the machine and records a row per step; the streaming prover (\<^verbatim>\<open>chunked_trace.rs\<close>) executes
  chunks of a fixed number of steps and chains them by hashes of the machine state (\<^verbatim>\<open>state_hash.rs\<close>). The
  constraint system (\<^verbatim>\<open>constraints/\<close>) turns rows into scalars and combines 128 constraints with powers of a
  challenge: at a point for the verifier, as a polynomial for the prover (\<^verbatim>\<open>crates/zkp/src/poly_arith.rs\<close>). The
  prover and the verifier add range checks (\<^verbatim>\<open>lookup.rs\<close>) and permutation arguments for memory, registers and call frames (\<^verbatim>\<open>permutation.rs\<close>,
  parts of \<^verbatim>\<open>prover.rs\<close> and \<^verbatim>\<open>verifier.rs\<close>); their challenges come from a transcript, and secrets of delegated
  provers are shared (\<^verbatim>\<open>transcript.rs\<close> and \<^verbatim>\<open>share.rs\<close> of \<^verbatim>\<open>src/crates/core\<close>). The
  crate \<^verbatim>\<open>src/crates/zkp\<close> further holds the reference computations of its Ethereum proofs: RLP, Keccak-256 and
  Merkle-Patricia tries for execution-layer objects, SHA-256 and SSZ roots for beacon containers, Casper
  FFG finality and the logs bloom. The crate \<^verbatim>\<open>src/crates/evm\<close> runs EVM code through a third-party interpreter; before a
  trace is proved, host-side oracles check it against the bytecode and the gas and fee rules.

  \<^bold>\<open>Theories of the machine.\<close>
  \<^item> \<^verbatim>\<open>Rv_Prelude\<close>: machine integers, little-endian bytes, shared lemmas.
  \<^item> \<^verbatim>\<open>Rv_Memory\<close>: \<^verbatim>\<open>Memory\<close> as a finite map of pages with a dirty set. Loads and stores refine a flat byte memory
    (locale \<open>le_access\<close>, interpreted for the four widths); the dirty set is complete.
  \<^item> \<^verbatim>\<open>Rv_Isa\<close>, \<^verbatim>\<open>Rv_Decode\<close>: the instruction type and both decoders; decoded instructions name registers below 32.
  \<^item> \<^verbatim>\<open>Rv_Csr\<close>, \<^verbatim>\<open>Rv_Cpu\<close>, \<^verbatim>\<open>Rv_Trap\<close>: register files and trap entry; isolation of machine state from supervisor
    writes, well-formedness, what delivery saves.
  \<^item> \<^verbatim>\<open>Rv_Mmu\<close>: the Sv39 walk, equal to an inductive specification of Sv39 but for one rule (supervisor fetches from
    user pages under SUM); stability under the A/D update.
  \<^item> \<^verbatim>\<open>Rv_Virtio\<close>, \<^verbatim>\<open>Rv_Mmio\<close>, \<^verbatim>\<open>Rv_Vm\<close>: devices, TLB, translation, interrupts.
  \<^item> \<^verbatim>\<open>Rv_Alu\<close>, \<^verbatim>\<open>Rv_Exec\<close>: every arm of \<^verbatim>\<open>Vm::execute\<close>, \<^verbatim>\<open>step\<close> and \<^verbatim>\<open>run\<close>. The division operators of
    Rust are partial (zero divisor, \<open>MIN / -1\<close>), and so are register and CSR indices: one step never reaches such a
    panic. \<^verbatim>\<open>run\<close> returns, a trap followed by its return instruction resumes the program (locale \<open>trap_frame\<close>,
    interpreted for both modes), arithmetic has its integer meaning.

  \<^bold>\<open>Theories of the proof pipeline.\<close>
  \<^item> \<^verbatim>\<open>Rv_Trace\<close>: rows, auxiliary values, the structure of 84 columns with its accessors, and the export, which pushes one
    value per column and row; tracing does not disturb the machine and the rows replay it.
  \<^item> \<^verbatim>\<open>Rv_Columns\<close>: the padded polynomials of the columns (\<^verbatim>\<open>crates/zkp/src/trace.rs\<close>) and the table of scalars the constraints
    see; accessors, export and the column numbers of the constraint system agree on the layout.
  \<^item> \<^verbatim>\<open>Rv_State_Hash\<close>, \<^verbatim>\<open>Rv_Stream\<close>: the incremental page hash equals the hash computed from scratch, and the
    chunks of a streamed run form a chain of equal boundary hashes in which each chunk continues exactly the machine of the
    one before it, up to the cleared dirty set and the drained UART output.
  \<^item> \<^verbatim>\<open>Zkp_Poly\<close>: coefficient lists over any commutative ring; Karatsuba equals the schoolbook product, evaluation
    is a homomorphism, a polynomial with more roots than coefficients is zero.
  \<^item> \<^verbatim>\<open>Rv_Constraints\<close>, \<^verbatim>\<open>Rv_Constraint_Poly\<close>: the constraints of each instruction class and their combination;
    the prover's polynomial evaluates to what the verifier computes.
  \<^item> \<^verbatim>\<open>Rv_Soundness\<close>: the declared range checks; what a vanishing combination enforces with them, and what it does not.
  \<^item> \<^verbatim>\<open>Rv_Completeness\<close>: the rows of honest executions satisfy the constraints, for the instructions named there.

  \<^item> \<^verbatim>\<open>Zkp_Scalar\<close>: scalars, powers and the sum of constraint values with powers of a challenge.
  \<^item> \<^verbatim>\<open>Zkp_Permutation\<close>: layouts, columns and verifier values of the three permutation arguments.
  \<^item> \<^verbatim>\<open>Zkp_Permutation_Sound\<close>: accepted grand products mean equal multisets; the memory argument can nevertheless
    be satisfied for every trace.
  \<^item> \<^verbatim>\<open>Zkp_Permutation_Honest\<close>: consistent memory and balanced frames are accepted, honest registers need not be.
  \<^item> \<^verbatim>\<open>Zkp_Permutation_Poly\<close>: the polynomials of the prover have the verifier's values.
  \<^item> \<^verbatim>\<open>Zkp_Lookup\<close>: declarations, layouts, witness and verifier values of the range checks.
  \<^item> \<^verbatim>\<open>Zkp_Lookup_Sound\<close>: a closed sum of inverses bounds the values if limbs are fixed before the challenge; as
    they are committed after it, every trace can be given accepted columns.
  \<^item> \<^verbatim>\<open>Zkp_Lookup_Honest\<close>, \<^verbatim>\<open>Zkp_Lookup_Table\<close>: the columns of the prover are accepted for values in range; the
    verifier's value of the table is that of the interpolating polynomial.
  \<^item> \<^verbatim>\<open>Core_Transcript\<close>: the bytes absorbed determine all operations.
  \<^item> \<^verbatim>\<open>Core_Share\<close>: Shamir sharing reconstructs, is linear and hides.

  \<^bold>\<open>Theories of the Ethereum reference computations.\<close>
  \<^item> \<^verbatim>\<open>Zkp_Bytes\<close>, \<^verbatim>\<open>Zkp_Rlp\<close>: slices and the RLP codec; round trip, canonicity, truncation, the panicking headers.
  \<^item> \<^verbatim>\<open>Zkp_Keccak\<close>, \<^verbatim>\<open>Zkp_Sha256\<close>: the hash functions with their recorded traces, equal to sponge and iteration.
  \<^item> \<^verbatim>\<open>Zkp_Mpt\<close>, \<^verbatim>\<open>Zkp_Objects\<close>: tries, accounts, transactions, receipts, withdrawals, headers; inclusion proofs
    bind and are complete (locale \<open>committed\<close>, interpreted for every encoded object).
  \<^item> \<^verbatim>\<open>Zkp_Ssz\<close>, \<^verbatim>\<open>Zkp_Beacon\<close>: sparse merkleization equals the full tree; container roots bind.
  \<^item> \<^verbatim>\<open>Zkp_Finality\<close>: justification and finalization; accountable safety, the invariant of all runs, progress.
  \<^item> \<^verbatim>\<open>Zkp_Bloom\<close>: the filter has exactly the bits of its entries.

  \<^bold>\<open>Theories of the EVM checks.\<close>
  \<^item> \<^verbatim>\<open>Evm_Code\<close>: jump destinations and the bytecode table, equal to an inductive instruction stream.
  \<^item> \<^verbatim>\<open>Evm_Fees\<close>: memory expansion, static costs, refunds, fee market and blob gas; where 64-bit amounts are exact.
  \<^item> \<^verbatim>\<open>Evm_Oracles\<close>, \<^verbatim>\<open>Evm_Validation\<close>: the trace oracles and what an accepted trace satisfies: within one frame it
    stays on instruction boundaries unless it takes a branch whose condition has a zero low limb, and its call data words
    are those at the offset modulo \<open>2^64\<close>; honest rows of four opcodes are rejected.

  \<^bold>\<open>Conventions.\<close> A \<open>w\<close>-bit integer is a \<open>w word\<close> and wraps as in the release profile, except where Rust panics
  in every profile. \<^verbatim>\<open>Result\<close> is a sum with the error on the left; \<open>None\<close> is a panic, or a loop that does not
  return. Mutable state is passed explicitly, a struct as a record with the fields of the source. Hash maps
  are finite maps; where the source sorts their keys, so does the model. Scalars of the proof system are
  elements of an abstract integral domain, since the two field types of \<^verbatim>\<open>field.rs\<close> wrap third-party curve
  crates; soundness asks for characteristic above \<open>2^130\<close>, which both curve orders exceed.

  \<^bold>\<open>Bounds and fuel.\<close> The run loops are partial functions; termination is proved as such, for limits below
  \<open>2^64 - 64\<close> since \<^verbatim>\<open>run\<close> adds a batch of 64 to the step count. Recursion elsewhere ends by a measure, the chunk
  loop by its counter. Encoded inputs are shorter than \<open>2^64\<close> bytes, as every slice is. Finality assumes stakes
  whose triple fits 64 bits and epochs below \<open>2^64 - 6\<close>.

  \<^bold>\<open>Hashes.\<close> Keccak-256 and SHA-256 are modelled down to the bits; binding properties assume that the inputs
  named in the statement do not collide. SHA3-256 is a third-party crate and a parameter of \<^verbatim>\<open>Rv_State_Hash\<close> and
  \<^verbatim>\<open>Rv_Stream\<close>, where nothing is assumed of it, and of \<^verbatim>\<open>Core_Transcript\<close>, which assumes no collision among the
  queries of the two runs compared.

  \<^bold>\<open>Fields.\<close> Secret sharing assumes of the field that \<^verbatim>\<open>u64\<close> values are not reduced, as \<^verbatim>\<open>field.rs\<close> says. The permutation
  arguments are stated on a domain generated by a primitive root of unity whose size is not zero in the field;
  their soundness counts challenges: more than the number of rows for the first, more than a multiple of its
  square for the second, where the field has about \<open>2^255\<close>. The range checks count challenges in the same way and
  assume a characteristic above the number of limbs; their completeness models the conversions of scalars to
  integers and bytes for both curves (\<^verbatim>\<open>field.rs\<close>) over the byte representations of the curve libraries, which are parameters
  with the documented byte orders; checks wider than 64 bits are complete on BLS48-581 only.

  \<^bold>\<open>Not modelled.\<close> The ELF loader, device-tree writer and command-line programs (parsing crates, files and
  output). Column-wise evaluation of the constraints over whole domains, and their labels. The commitment schemes, the bitwise and cross-proof lookups, the rest of prover and verifier and recursive
  composition (third-party curve arithmetic; their soundness is cryptographic). The arithmetisations of
  hashes and curves, the constraint systems of the EVM crate, and the EVM and Solana executors, which wrap
  third-party interpreters.
\<close>

end
